(* ===== verification/Prelude.thy ===== *)
theory Prelude
  imports Main "HOL-Library.Word" "HOL-Library.Finite_Map" "HOL-Library.Multiset"
begin

text \<open>
  Shared vocabulary of the development: the machine types of Go, run-time panics as values,
  the parts of the Go standard library that several packages of the repository call
  (\<open>strconv.Itoa\<close>, \<open>strings.Join\<close>, \<open>strings.HasPrefix\<close>, \<dots>), and the generic
  lemmas on lists and finite maps the component proofs rest on.

  A Go \<open>string\<close> is a sequence of bytes; it is modelled by HOL's \<open>string\<close> (a list of
  8-bit characters), a \<open>[]byte\<close> by a list of 8-bit words.
\<close>

section \<open>Go's types and panics\<close>

type_synonym byte = "8 word"
type_synonym uint32 = "32 word"
type_synonym uint64 = "64 word"
type_synonym int64 = "64 word"

text \<open>The run-time panics the code of the repository can raise.\<close>

datatype go_panic =
    NilDeref
  | IndexOutOfRange
  | CloseOfNilChannel
  | CloseOfClosedChannel
  | SendOnClosedChannel
  | TypeAssertion
  | DivideByZero
  | StackOverflow
  | PanicValue string

type_synonym 'a go = "go_panic + 'a"

named_theorems go_defs \<open>definitions unfolded by the component proofs\<close>

definition go_bind :: "'a go \<Rightarrow> ('a \<Rightarrow> 'b go) \<Rightarrow> 'b go" where
  "go_bind m f = (case m of Inl p \<Rightarrow> Inl p | Inr x \<Rightarrow> f x)"

lemma go_bind_simps [simp]:
  "go_bind (Inl p) f = Inl p"
  "go_bind (Inr x) f = f x"
  by (simp_all add: go_bind_def)

lemma go_bind_Inr_iff [simp]:
  "go_bind m f = Inr y \<longleftrightarrow> (\<exists>x. m = Inr x \<and> f x = Inr y)"
  by (cases m) auto

text \<open>A channel that is only ever closed: \<open>nil\<close>, open or closed.\<close>

datatype chan_state = ChNil | ChOpen | ChClosed

definition chan_close :: "chan_state \<Rightarrow> chan_state go" where
  "chan_close c =
     (case c of ChNil \<Rightarrow> Inl CloseOfNilChannel | ChClosed \<Rightarrow> Inl CloseOfClosedChannel | ChOpen \<Rightarrow> Inr ChClosed)"

lemma chan_close_simps [simp]:
  "chan_close ChOpen = Inr ChClosed" "chan_close ChNil = Inl CloseOfNilChannel"
  "chan_close ChClosed = Inl CloseOfClosedChannel"
  by (simp_all add: chan_close_def)

section \<open>Strings\<close>

definition digit_char :: "nat \<Rightarrow> char" where
  "digit_char n = char_of (48 + n)"

fun itoa_nat :: "nat \<Rightarrow> string" where
  "itoa_nat n = (if n < 10 then [digit_char n] else itoa_nat (n div 10) @ [digit_char (n mod 10)])"

declare itoa_nat.simps [simp del]

text \<open>\<open>strconv.Itoa\<close> and \<open>strconv.FormatInt(_, 10)\<close>.\<close>

definition Itoa :: "int \<Rightarrow> string" where
  "Itoa i = (if i < 0 then CHR ''-'' # itoa_nat (nat (- i)) else itoa_nat (nat i))"

text \<open>\<open>strings.Join\<close>.\<close>

fun strings_Join :: "string list \<Rightarrow> string \<Rightarrow> string" where
  "strings_Join [] sep = []"
| "strings_Join [s] sep = s"
| "strings_Join (s # t # ss) sep = s @ sep @ strings_Join (t # ss) sep"

text \<open>\<open>strings.HasPrefix\<close> and \<open>strings.HasSuffix\<close>.\<close>

definition HasPrefix :: "string \<Rightarrow> string \<Rightarrow> bool" where
  "HasPrefix s p = (take (length p) s = p)"

definition HasSuffix :: "string \<Rightarrow> string \<Rightarrow> bool" where
  "HasSuffix s p = (length p \<le> length s \<and> drop (length s - length p) s = p)"

text \<open>\<open>strings.Index\<close>: the first position of a substring, \<open>None\<close> for Go's -1.\<close>

fun strings_Index :: "string \<Rightarrow> string \<Rightarrow> nat option" where
  "strings_Index [] p = (if p = [] then Some 0 else None)"
| "strings_Index (c # cs) p =
     (if HasPrefix (c # cs) p then Some 0 else map_option Suc (strings_Index cs p))"

definition strings_Contains :: "string \<Rightarrow> string \<Rightarrow> bool" where
  "strings_Contains s p = (strings_Index s p \<noteq> None)"

text \<open>\<open>strings.Trim(s, cs)\<close> for a set of characters, and \<open>strings.TrimRight\<close>.\<close>

definition strings_TrimLeft :: "string \<Rightarrow> char list \<Rightarrow> string" where
  "strings_TrimLeft s cs = dropWhile (\<lambda>c. c \<in> set cs) s"

definition strings_TrimRight :: "string \<Rightarrow> char list \<Rightarrow> string" where
  "strings_TrimRight s cs = rev (dropWhile (\<lambda>c. c \<in> set cs) (rev s))"

definition strings_Trim :: "string \<Rightarrow> char list \<Rightarrow> string" where
  "strings_Trim s cs = strings_TrimRight (strings_TrimLeft s cs) cs"

text \<open>\<open>strings.TrimSpace\<close> for ASCII.\<close>

definition TrimSpace :: "string \<Rightarrow> string" where
  "TrimSpace s = strings_Trim s [CHR 0x20, CHR 0x09, CHR 0x0A, CHR 0x0B, CHR 0x0C, CHR 0x0D]"

lemma digit_char_of_char: "n < 10 \<Longrightarrow> (of_char (digit_char n) :: nat) = 48 + n"
  by (simp add: digit_char_def)

lemma itoa_nat_digits: "c \<in> set (itoa_nat n) \<Longrightarrow> 48 \<le> (of_char c :: nat) \<and> of_char c < (58 :: nat)"
proof (induction n rule: itoa_nat.induct)
  case (1 n)
  show ?case
  proof (cases "n < 10")
    case True
    with "1.prems" show ?thesis
      by (auto simp: itoa_nat.simps [of n] digit_char_of_char)
  next
    case False
    with "1.prems" have "c \<in> set (itoa_nat (n div 10)) \<or> c = digit_char (n mod 10)"
      by (auto simp: itoa_nat.simps [of n])
    with "1.IH" [OF False] show ?thesis
      by (auto simp: digit_char_of_char)
  qed
qed

lemma itoa_nat_nonempty [simp]: "itoa_nat n \<noteq> []"
  by (simp add: itoa_nat.simps [of n])

text \<open>\<open>strconv.Atoi\<close>: an optional sign and decimal digits whose value fits an \<open>int\<close>; \<open>None\<close> is an error.\<close>

definition atoi_nat :: "string \<Rightarrow> nat" where
  "atoi_nat s = foldl (\<lambda>a c. a * 10 + (of_char c - 48)) 0 s"

definition is_digit :: "char \<Rightarrow> bool" where
  "is_digit c = (48 \<le> (of_char c :: nat) \<and> of_char c < (58 :: nat))"

definition Atoi :: "string \<Rightarrow> int option" where
  "Atoi s =
     (let neg = (s \<noteq> [] \<and> hd s = CHR ''-'');
          ds = (if s \<noteq> [] \<and> (hd s = CHR ''-'' \<or> hd s = CHR ''+'') then tl s else s);
          i = (if neg then - int (atoi_nat ds) else int (atoi_nat ds))
      in if ds = [] \<or> \<not> list_all is_digit ds \<or> i < - (2 ^ 63) \<or> 2 ^ 63 \<le> i then None else Some i)"

lemma atoi_itoa_nat [simp]: "atoi_nat (itoa_nat n) = n"
proof (induction n rule: itoa_nat.induct)
  case (1 n)
  show ?case
  proof (cases "n < 10")
    case True
    then show ?thesis by (simp add: itoa_nat.simps [of n] atoi_nat_def digit_char_of_char)
  next
    case False
    with "1.IH" have "atoi_nat (itoa_nat (n div 10) @ [digit_char (n mod 10)]) = n div 10 * 10 + n mod 10"
      by (simp add: atoi_nat_def digit_char_of_char)
    with False show ?thesis by (simp add: itoa_nat.simps [of n])
  qed
qed

lemma itoa_nat_inj: "itoa_nat m = itoa_nat n \<longleftrightarrow> m = n"
  by (metis atoi_itoa_nat)

lemma itoa_nat_no_sign: "itoa_nat n \<noteq> CHR ''-'' # s" "itoa_nat n \<noteq> CHR ''+'' # s"
  using itoa_nat_digits [of "CHR ''-''" n] itoa_nat_digits [of "CHR ''+''" n] by auto

lemma Itoa_inj [simp]: "Itoa i = Itoa j \<longleftrightarrow> i = j"
  using itoa_nat_no_sign(1) by (auto simp: Itoa_def itoa_nat_inj eq_nat_nat_iff) metis+

lemma itoa_nat_all_digits: "list_all is_digit (itoa_nat n)"
  using itoa_nat_digits by (auto simp: list_all_iff is_digit_def)

lemma Atoi_Itoa: "- (2 ^ 63) \<le> i \<Longrightarrow> i < 2 ^ 63 \<Longrightarrow> Atoi (Itoa i) = Some i"
proof -
  assume i: "- (2 ^ 63) \<le> i" "i < 2 ^ 63"
  have hd: "itoa_nat n \<noteq> [] \<and> hd (itoa_nat n) \<noteq> CHR ''-'' \<and> hd (itoa_nat n) \<noteq> CHR ''+''" for n
    using itoa_nat_no_sign [of n] by (cases "itoa_nat n") auto
  show ?thesis
    using i hd by (simp add: Atoi_def Itoa_def itoa_nat_all_digits) arith
qed

section \<open>Finite maps\<close>

text \<open>\<open>len(m)\<close> of a Go map.\<close>

definition fmlen :: "('k, 'v) fmap \<Rightarrow> nat" where
  "fmlen m = fcard (fmdom m)"

lemma fmlen_empty [simp]: "fmlen fmempty = 0"
  by (simp add: fmlen_def)

lemma fmlen_card: "fmlen m = card (fmdom' m)"
  by (simp add: fmlen_def fmdom'_alt_def fcard.rep_eq)

section \<open>Association lists in insertion order\<close>

text \<open>
  The abstract insertion-ordered map: \<open>al_set\<close> overwrites in place or appends, \<open>al_del\<close>
  removes the entry, as the tests of \<open>utls/orderedmap\<close> expect.
\<close>

fun al_set :: "'k \<Rightarrow> 'v \<Rightarrow> ('k \<times> 'v) list \<Rightarrow> ('k \<times> 'v) list" where
  "al_set k v [] = [(k, v)]"
| "al_set k v ((k', v') # xs) = (if k = k' then (k, v) # xs else (k', v') # al_set k v xs)"

definition al_del :: "'k \<Rightarrow> ('k \<times> 'v) list \<Rightarrow> ('k \<times> 'v) list" where
  "al_del k xs = filter (\<lambda>kv. fst kv \<noteq> k) xs"

lemma map_of_al_set: "map_of (al_set k v xs) = (map_of xs)(k \<mapsto> v)"
  by (induction xs) auto

lemma map_of_al_del: "map_of (al_del k xs) = (map_of xs)(k := None)"
  by (induction xs) (auto simp: al_del_def)

lemma al_set_keys_in: "k \<in> fst ` set xs \<Longrightarrow> map fst (al_set k v xs) = map fst xs"
  by (induction xs) force+

lemma al_set_notin: "k \<notin> fst ` set xs \<Longrightarrow> al_set k v xs = xs @ [(k, v)]"
  by (induction xs) auto

lemma keys_al_set: "fst ` set (al_set k v xs) = insert k (fst ` set xs)"
  by (induction xs) (force split: if_splits)+

lemma keys_al_del: "fst ` set (al_del k xs) = fst ` set xs - {k}"
  by (auto simp: al_del_def)

lemma distinct_al_set: "distinct (map fst xs) \<Longrightarrow> distinct (map fst (al_set k v xs))"
proof (cases "k \<in> fst ` set xs")
  case True
  then show "distinct (map fst xs) \<Longrightarrow> ?thesis" by (simp add: al_set_keys_in)
next
  case False
  then show "distinct (map fst xs) \<Longrightarrow> ?thesis" by (simp add: al_set_notin)
qed

lemma map_fst_al_del: "map fst (al_del k xs) = removeAll k (map fst xs)"
  by (induction xs) (auto simp: al_del_def)

lemma distinct_al_del: "distinct (map fst xs) \<Longrightarrow> distinct (map fst (al_del k xs))"
  by (simp add: map_fst_al_del distinct_removeAll)

lemma al_del_notin: "k \<notin> fst ` set xs \<Longrightarrow> al_del k xs = xs"
  by (induction xs) (auto simp: al_del_def)

lemma al_del_append: "al_del k (xs @ ys) = al_del k xs @ al_del k ys"
  by (simp add: al_del_def)

lemma al_del_Cons: "al_del k (kv # xs) = (if fst kv = k then al_del k xs else kv # al_del k xs)"
  by (simp add: al_del_def)

end
