(* ===== verification/Encoding.thy ===== *)
theory Encoding
  imports Prelude
begin

text \<open>
  The wire formats of \<open>net/dogrpc/encoding.go\<close>: the default \<open>RpcPacket\<close> (16 header bytes and
  a body) and the \<open>DogPacket\<close> (24 header bytes with a CRC-32 over the packet's JSON text, and a
  body), their constructors, their encoders on a \<open>bufio.Writer\<close> and their decoders.

  The encoders write through a model of \<open>bufio.Writer\<close> (buffer, size, sticky error) over a
  connection that may fail after a number of bytes.  The state of a decoder is the list of bytes
  the connection still delivers before it is closed.  The locale \<open>packet_codec\<close> states what the
  client and the server rely on; both formats are interpreted in it.
\<close>

unbundle bit_operations_syntax

section \<open>encoding/binary, io and bufio\<close>

datatype ioerror = EOF | ErrUnexpectedEOF | ErrWrite | ErrNew string

definition be32 :: "uint32 \<Rightarrow> byte list" where
  "be32 w = [ucast (drop_bit 24 w), ucast (drop_bit 16 w), ucast (drop_bit 8 w), ucast w]"

definition of_be32 :: "byte \<Rightarrow> byte \<Rightarrow> byte \<Rightarrow> byte \<Rightarrow> uint32" where
  "of_be32 a b c d = push_bit 24 (ucast a) OR push_bit 16 (ucast b) OR push_bit 8 (ucast c) OR ucast d"

text \<open>\<open>io.ReadFull\<close> on a buffer of \<open>n\<close> bytes.\<close>

definition ReadFull :: "nat \<Rightarrow> byte list \<Rightarrow> (ioerror + byte list) \<times> byte list" where
  "ReadFull n bs =
     (if n \<le> length bs then (Inr (take n bs), drop n bs)
      else if bs = [] then (Inl EOF, [])
      else (Inl ErrUnexpectedEOF, []))"

text \<open>\<open>binary.Read(r, binary.BigEndian, &x)\<close> for a \<open>uint32\<close>.\<close>

definition read_u32 :: "byte list \<Rightarrow> (ioerror + uint32) \<times> byte list" where
  "read_u32 bs =
     (case ReadFull 4 bs of
        (Inl e, r) \<Rightarrow> (Inl e, r)
      | (Inr xs, r) \<Rightarrow> (Inr (of_be32 (xs ! 0) (xs ! 1) (xs ! 2) (xs ! 3)), r))"

text \<open>
  A \<open>bufio.Writer\<close> over a connection.  \<open>bw_sink\<close> is what the connection has accepted,
  \<open>bw_cap\<close> how many bytes it accepts before it fails (\<open>None\<close>: it does not fail).
\<close>

record bufio_Writer =
  bw_buf :: "byte list"
  bw_size :: nat
  bw_err :: "ioerror option"
  bw_sink :: "byte list"
  bw_cap :: "nat option"

definition NewWriterSize :: "nat option \<Rightarrow> int \<Rightarrow> bufio_Writer" where
  "NewWriterSize c sz =
     \<lparr>bw_buf = [], bw_size = (if sz \<le> 0 then 4096 else nat sz), bw_err = None,
      bw_sink = [], bw_cap = c\<rparr>"

text \<open>\<open>conn.Write\<close>: the number of bytes accepted and whether it failed.\<close>

definition conn_write :: "bufio_Writer \<Rightarrow> byte list \<Rightarrow> nat \<times> bufio_Writer" where
  "conn_write w p =
     (case bw_cap w of
        None \<Rightarrow> (length p, w\<lparr>bw_sink := bw_sink w @ p\<rparr>)
      | Some c \<Rightarrow>
          if length p \<le> c
          then (length p, w\<lparr>bw_sink := bw_sink w @ p, bw_cap := Some (c - length p)\<rparr>)
          else (c, w\<lparr>bw_sink := bw_sink w @ take c p, bw_cap := Some 0, bw_err := Some ErrWrite\<rparr>))"

definition bw_Available :: "bufio_Writer \<Rightarrow> nat" where
  "bw_Available w = bw_size w - length (bw_buf w)"

definition bw_Flush :: "bufio_Writer \<Rightarrow> ioerror option \<times> bufio_Writer" where
  "bw_Flush w =
     (case bw_err w of
        Some e \<Rightarrow> (Some e, w)
      | None \<Rightarrow>
          if bw_buf w = [] then (None, w)
          else (case conn_write w (bw_buf w) of
                  (n, w') \<Rightarrow> (bw_err w', w'\<lparr>bw_buf := drop n (bw_buf w)\<rparr>)))"

text \<open>In a round of \<open>Write\<close> either the connection fails, or the input shrinks, or the buffer becomes empty.\<close>

definition bw_work :: "bufio_Writer \<Rightarrow> byte list \<Rightarrow> nat" where
  "bw_work w p = (if bw_err w \<noteq> None then 0 else 1 + 2 * length p + (if bw_buf w = [] then 0 else 1))"

function bw_Write :: "bufio_Writer \<Rightarrow> byte list \<Rightarrow> ioerror option \<times> bufio_Writer" where
  "bw_Write w p =
     (if bw_Available w < length p \<and> bw_err w = None
      then (if bw_buf w = []
            then (case conn_write w p of (n, w') \<Rightarrow> bw_Write w' (drop n p))
            else (let n = min (bw_Available w) (length p);
                      w' = snd (bw_Flush (w\<lparr>bw_buf := bw_buf w @ take n p\<rparr>))
                  in bw_Write w' (drop n p)))
      else (case bw_err w of
              Some e \<Rightarrow> (Some e, w)
            | None \<Rightarrow> (None, w\<lparr>bw_buf := bw_buf w @ p\<rparr>)))"
  by pat_completeness auto

termination
  by (relation "measure (\<lambda>(w, p). bw_work w p)")
     (auto simp: bw_work_def conn_write_def bw_Flush_def Let_def split: option.splits if_splits)

declare bw_Write.simps [simp del]

section \<open>Checksums: encoding/base64, encoding/json, hash/crc32\<close>

definition b64_char :: "nat \<Rightarrow> char" where
  "b64_char n = ''ABCDEFGHIJKLMNOPQRSTUVWXYZabcdefghijklmnopqrstuvwxyz0123456789+/'' ! n"

text \<open>\<open>base64.StdEncoding.EncodeToString\<close>.\<close>

fun base64 :: "byte list \<Rightarrow> string" where
  "base64 [] = []"
| "base64 [a] =
     (let x = unat a in [b64_char (x div 4), b64_char (x mod 4 * 16), CHR ''='', CHR ''=''])"
| "base64 [a, b] =
     (let x = unat a; y = unat b
      in [b64_char (x div 4), b64_char (x mod 4 * 16 + y div 16), b64_char (y mod 16 * 4), CHR ''=''])"
| "base64 (a # b # c # rest) =
     (let x = unat a; y = unat b; z = unat c
      in [b64_char (x div 4), b64_char (x mod 4 * 16 + y div 16),
          b64_char (y mod 16 * 4 + z div 64), b64_char (z mod 64)] @ base64 rest)"

definition crc_bit :: "uint32 \<Rightarrow> uint32" where
  "crc_bit c = (if bit c 0 then drop_bit 1 c XOR 0xEDB88320 else drop_bit 1 c)"

definition crc_byte :: "uint32 \<Rightarrow> byte \<Rightarrow> uint32" where
  "crc_byte c b = (crc_bit ^^ 8) (c XOR ucast b)"

text \<open>\<open>crc32.ChecksumIEEE\<close>.\<close>

definition ChecksumIEEE :: "byte list \<Rightarrow> uint32" where
  "ChecksumIEEE bs = foldl crc_byte 0xFFFFFFFF bs XOR 0xFFFFFFFF"

section \<open>RpcPacket\<close>

record RpcPacket =
  rp_Seq :: uint32
  rp_ErrCode :: uint32
  rp_Cmd :: uint32
  rp_PacketLen :: uint32
  rp_Body :: "byte list option"

text \<open>A Go slice may be \<open>nil\<close> (\<open>None\<close>); its length and elements are those of the empty slice.\<close>

definition bslice :: "'a list option \<Rightarrow> 'a list" where
  "bslice b = (case b of None \<Rightarrow> [] | Some xs \<Rightarrow> xs)"

lemma bslice_simps [simp]: "bslice None = []" "bslice (Some xs) = xs"
  by (simp_all add: bslice_def)

definition nextSeq :: "uint32 \<Rightarrow> uint32 \<times> uint32" where
  "nextSeq globalSeq = (globalSeq + 1, globalSeq + 1)"

definition defaultPacketLen :: nat where
  "defaultPacketLen = 16"

definition NewRpcPacketWithRet :: "uint32 \<Rightarrow> byte list option \<Rightarrow> uint32 \<Rightarrow> uint32 \<Rightarrow> RpcPacket" where
  "NewRpcPacketWithRet cmd body seq ret =
     \<lparr>rp_Seq = seq, rp_ErrCode = ret, rp_Cmd = cmd,
      rp_PacketLen = of_nat (length (bslice body) + defaultPacketLen), rp_Body = body\<rparr>"

definition NewRpcPacketWithSeq :: "uint32 \<Rightarrow> byte list option \<Rightarrow> uint32 \<Rightarrow> RpcPacket" where
  "NewRpcPacketWithSeq cmd body seq = NewRpcPacketWithRet cmd body seq 0"

definition NewRpcPacket :: "uint32 \<Rightarrow> byte list option \<Rightarrow> uint32 \<Rightarrow> RpcPacket \<times> uint32" where
  "NewRpcPacket cmd body globalSeq =
     (case nextSeq globalSeq of (seq, g) \<Rightarrow> (NewRpcPacketWithSeq cmd body seq, g))"

text \<open>Decode: four header words, then \<open>PacketLen - 16\<close> (in \<open>uint32\<close>) bytes of body.\<close>

definition RpcPacketDecoder_Decode :: "byte list \<Rightarrow> (ioerror + RpcPacket) \<times> byte list" where
  "RpcPacketDecoder_Decode bs0 =
     (case read_u32 bs0 of
        (Inl e, r) \<Rightarrow> (Inl e, r)
      | (Inr seq, bs1) \<Rightarrow>
     (case read_u32 bs1 of
        (Inl e, r) \<Rightarrow> (Inl e, r)
      | (Inr errCode, bs2) \<Rightarrow>
     (case read_u32 bs2 of
        (Inl e, r) \<Rightarrow> (Inl e, r)
      | (Inr cmd, bs3) \<Rightarrow>
     (case read_u32 bs3 of
        (Inl e, r) \<Rightarrow> (Inl e, r)
      | (Inr packetLen, bs4) \<Rightarrow>
     (let bodyLength = packetLen - of_nat defaultPacketLen
      in case ReadFull (unat bodyLength) bs4 of
           (Inl e, r) \<Rightarrow> (Inl e, r)
         | (Inr body, r) \<Rightarrow>
             (Inr \<lparr>rp_Seq = seq, rp_ErrCode = errCode, rp_Cmd = cmd,
                   rp_PacketLen = packetLen, rp_Body = Some body\<rparr>, r))))))"

section \<open>DogPacket\<close>

record Header =
  PacketLen :: uint32
  Seq :: uint32
  Cmd :: uint32
  CheckSum :: uint32
  ErrCode :: uint32
  Version :: byte
  Padding :: byte
  SOH :: byte
  EOH :: byte

record DogPacket =
  dp_Header :: Header
  dp_Body :: "byte list option"

definition HeaderLen :: uint32 where "HeaderLen = 24"
definition const_Version :: byte where "const_Version = 1"
definition const_Padding :: byte where "const_Padding = 0"
definition const_SOH :: byte where "const_SOH = 0x10"
definition const_EOH :: byte where "const_EOH = 0x24"

definition nextDogSeq :: "uint32 \<Rightarrow> uint32 \<times> uint32" where
  "nextDogSeq globalDogSeq = (globalDogSeq + 1, globalDogSeq + 1)"

text \<open>\<open>json.Marshal(packet)\<close>: the fields of the embedded header in order, then the body.\<close>

definition json_num_field :: "string \<Rightarrow> nat \<Rightarrow> string" where
  "json_num_field name n = CHR 0x22 # name @ [CHR 0x22, CHR '':''] @ itoa_nat n @ '',''"

definition json_body :: "byte list option \<Rightarrow> string" where
  "json_body b = (case b of None \<Rightarrow> ''null'' | Some xs \<Rightarrow> CHR 0x22 # base64 xs @ [CHR 0x22])"

definition json_Header :: "Header \<Rightarrow> string" where
  "json_Header h =
     json_num_field ''PacketLen'' (unat (PacketLen h)) @
     json_num_field ''Seq'' (unat (Seq h)) @
     json_num_field ''Cmd'' (unat (Cmd h)) @
     json_num_field ''CheckSum'' (unat (CheckSum h)) @
     json_num_field ''ErrCode'' (unat (ErrCode h)) @
     json_num_field ''Version'' (unat (Version h)) @
     json_num_field ''Padding'' (unat (Padding h)) @
     json_num_field ''SOH'' (unat (SOH h)) @
     json_num_field ''EOH'' (unat (EOH h))"

definition json_DogPacket :: "DogPacket \<Rightarrow> string" where
  "json_DogPacket p =
     ''{'' @ json_Header (dp_Header p) @ CHR 0x22 # ''Body'' @ [CHR 0x22, CHR '':''] @
     json_body (dp_Body p) @ ''}''"

text \<open>The checksum is taken of the packet whose own \<open>CheckSum\<close> field is 0.\<close>

definition dog_checksum :: "DogPacket \<Rightarrow> uint32" where
  "dog_checksum p =
     ChecksumIEEE (map of_char (json_DogPacket (p\<lparr>dp_Header := dp_Header p\<lparr>CheckSum := 0\<rparr>\<rparr>)))"

definition NewDogPacketWithRet :: "uint32 \<Rightarrow> byte list option \<Rightarrow> uint32 \<Rightarrow> uint32 \<Rightarrow> DogPacket" where
  "NewDogPacketWithRet cmd body seq ret =
     (let packet =
        \<lparr>dp_Header = \<lparr>PacketLen = of_nat (length (bslice body)) + HeaderLen, Seq = seq, Cmd = cmd,
           CheckSum = 0, ErrCode = ret, Version = const_Version, Padding = const_Padding,
           SOH = const_SOH, EOH = const_EOH\<rparr>, dp_Body = body\<rparr>
      in packet\<lparr>dp_Header := dp_Header packet\<lparr>CheckSum := dog_checksum packet\<rparr>\<rparr>)"

definition NewDogPacketWithSeq :: "uint32 \<Rightarrow> byte list option \<Rightarrow> uint32 \<Rightarrow> DogPacket" where
  "NewDogPacketWithSeq cmd body seq = NewDogPacketWithRet cmd body seq 0"

definition NewDogPacket :: "uint32 \<Rightarrow> byte list option \<Rightarrow> uint32 \<Rightarrow> DogPacket \<times> uint32" where
  "NewDogPacket cmd body globalDogSeq =
     (case nextDogSeq globalDogSeq of (seq, g) \<Rightarrow> (NewDogPacketWithSeq cmd body seq, g))"

text \<open>\<open>binary.Write\<close> and \<open>binary.Read\<close> of the fixed-size header.\<close>

definition header_bytes :: "Header \<Rightarrow> byte list" where
  "header_bytes h =
     be32 (PacketLen h) @ be32 (Seq h) @ be32 (Cmd h) @ be32 (CheckSum h) @ be32 (ErrCode h) @
     [Version h, Padding h, SOH h, EOH h]"

definition u32_at :: "byte list \<Rightarrow> nat \<Rightarrow> uint32" where
  "u32_at bs i = of_be32 (bs ! i) (bs ! (i + 1)) (bs ! (i + 2)) (bs ! (i + 3))"

definition header_of_bytes :: "byte list \<Rightarrow> Header" where
  "header_of_bytes bs =
     \<lparr>PacketLen = u32_at bs 0, Seq = u32_at bs 4, Cmd = u32_at bs 8, CheckSum = u32_at bs 12,
      ErrCode = u32_at bs 16, Version = bs ! 20, Padding = bs ! 21, SOH = bs ! 22, EOH = bs ! 23\<rparr>"

definition DogPacketDecoder_Decode :: "byte list \<Rightarrow> (ioerror + DogPacket) \<times> byte list" where
  "DogPacketDecoder_Decode bs0 =
     (case ReadFull 24 bs0 of
        (Inl e, r) \<Rightarrow> (Inl e, r)
      | (Inr hb, bs1) \<Rightarrow>
          (let h = header_of_bytes hb
           in if PacketLen h < HeaderLen then (Inl (ErrNew ''invalid packet''), bs1)
              else if SOH h \<noteq> const_SOH then (Inl (ErrNew ''invalid SOH''), bs1)
              else if EOH h \<noteq> const_EOH then (Inl (ErrNew ''invalid EOH''), bs1)
              else (let bodyLen = PacketLen h - HeaderLen
                    in case ReadFull (unat bodyLen) bs1 of
                         (Inl e, r) \<Rightarrow> (Inl e, r)
                       | (Inr body, r) \<Rightarrow>
                           (let packet = \<lparr>dp_Header = h, dp_Body = Some body\<rparr>
                            in if CheckSum h \<noteq> dog_checksum packet
                               then (Inl (ErrNew ''invalid CheckSum''), r)
                               else (Inr packet, r)))))"

section \<open>The Packet interface and the encoders\<close>

datatype Packet = PRpc RpcPacket | PDog DogPacket

primrec Packet_ID :: "Packet \<Rightarrow> uint32" where
  "Packet_ID (PRpc p) = rp_Seq p"
| "Packet_ID (PDog p) = Seq (dp_Header p)"

primrec Packet_SetErrCode :: "Packet \<Rightarrow> uint32 \<Rightarrow> Packet" where
  "Packet_SetErrCode (PRpc p) code = PRpc (p\<lparr>rp_ErrCode := code\<rparr>)"
| "Packet_SetErrCode (PDog p) code = PDog (p\<lparr>dp_Header := dp_Header p\<lparr>ErrCode := code\<rparr>\<rparr>)"

text \<open>Consecutive writes, stopping at the first error.\<close>

fun bw_Writes :: "bufio_Writer \<Rightarrow> byte list list \<Rightarrow> ioerror option \<times> bufio_Writer" where
  "bw_Writes w [] = (None, w)"
| "bw_Writes w (p # ps) =
     (case bw_Write w p of (Some e, w') \<Rightarrow> (Some e, w') | (None, w') \<Rightarrow> bw_Writes w' ps)"

definition rpc_parts :: "RpcPacket \<Rightarrow> byte list list" where
  "rpc_parts p = [be32 (rp_Seq p), be32 (rp_ErrCode p), be32 (rp_Cmd p), be32 (rp_PacketLen p),
                  bslice (rp_Body p)]"

definition dog_parts :: "DogPacket \<Rightarrow> byte list list" where
  "dog_parts p = [header_bytes (dp_Header p), bslice (dp_Body p)]"

primrec RpcPacketEncoder_Encode :: "Packet \<Rightarrow> bufio_Writer \<Rightarrow> ioerror option \<times> bufio_Writer" where
  "RpcPacketEncoder_Encode (PRpc p) w = bw_Writes w (rpc_parts p)"
| "RpcPacketEncoder_Encode (PDog p) w = (Some (ErrNew ''RpcPacketEncoder Encode occur error''), w)"

primrec DogPacketEncoder_Encode :: "Packet \<Rightarrow> bufio_Writer \<Rightarrow> ioerror option \<times> bufio_Writer" where
  "DogPacketEncoder_Encode (PDog p) w = bw_Writes w (dog_parts p)"
| "DogPacketEncoder_Encode (PRpc p) w = (Some (ErrNew ''DogPacketEncoder Encode occur error''), w)"

text \<open>Both \<open>Flush\<close> methods; the writer is \<open>None\<close> when the encoder holds no \<open>bufio.Writer\<close>.\<close>

definition Encoder_Flush :: "bufio_Writer option \<Rightarrow> ioerror option \<times> bufio_Writer option" where
  "Encoder_Flush bw =
     (case bw of None \<Rightarrow> (None, None) | Some w \<Rightarrow> (case bw_Flush w of (e, w') \<Rightarrow> (e, Some w')))"

section \<open>Words, reads and writes\<close>

lemma of_be32_be32:
  "of_be32 (ucast (drop_bit 24 w)) (ucast (drop_bit 16 w)) (ucast (drop_bit 8 w)) (ucast w) = w"
proof (rule bit_word_eqI)
  fix n assume "n < LENGTH(32)"
  then consider "n < 8" | "8 \<le> n" "n < 16" | "16 \<le> n" "n < 24" | "24 \<le> n" "n < 32"
    by fastforce
  then show "bit (of_be32 (ucast (drop_bit 24 w)) (ucast (drop_bit 16 w)) (ucast (drop_bit 8 w)) (ucast w)) n
             = bit w n"
    by cases (auto simp: of_be32_def bit_simps)
qed

lemma be32_of_be32: "be32 (of_be32 a b c d) = [a, b, c, d]"
proof -
  have "ucast (drop_bit 24 (of_be32 a b c d)) = a" "ucast (drop_bit 16 (of_be32 a b c d)) = b"
       "ucast (drop_bit 8 (of_be32 a b c d)) = c" "ucast (of_be32 a b c d) = d"
    by (rule bit_word_eqI; auto simp: of_be32_def bit_simps not_less dest: bit_imp_le_length)+
  then show ?thesis by (simp add: be32_def)
qed

lemma length_be32 [simp]: "length (be32 w) = 4"
  by (simp add: be32_def)

lemma ReadFull_append [simp]: "length xs = n \<Longrightarrow> ReadFull n (xs @ ys) = (Inr xs, ys)"
  by (simp add: ReadFull_def)

lemma ReadFull_InrD: "ReadFull n bs = (Inr xs, r) \<Longrightarrow> bs = xs @ r \<and> length xs = n"
  by (auto simp: ReadFull_def split: if_splits)

lemma ReadFull_short: "length bs < n \<Longrightarrow> \<exists>e. ReadFull n bs = (Inl e, []) \<and> e \<in> {EOF, ErrUnexpectedEOF}"
  by (auto simp: ReadFull_def)

lemma read_u32_be32 [simp]: "read_u32 (be32 w @ ys) = (Inr w, ys)"
  by (simp add: read_u32_def) (simp add: be32_def of_be32_be32)

lemma list4: "length xs = 4 \<Longrightarrow> xs = [xs ! 0, xs ! Suc 0, xs ! 2, xs ! 3]"
  by (cases xs; cases "tl xs"; cases "tl (tl xs)"; cases "tl (tl (tl xs))") auto

lemma read_u32_InrD: "read_u32 bs = (Inr w, r) \<Longrightarrow> bs = be32 w @ r"
  by (auto simp: read_u32_def be32_of_be32 split: prod.splits sum.splits
           dest!: ReadFull_InrD intro: list4)

lemma read_u32_short: "length bs < 4 \<Longrightarrow> \<exists>e. read_u32 bs = (Inl e, []) \<and> e \<in> {EOF, ErrUnexpectedEOF}"
  using ReadFull_short [of bs 4] by (auto simp: read_u32_def)

text \<open>What has been written to a \<open>bufio.Writer\<close>: the bytes sent and the bytes buffered.\<close>

definition bw_written :: "bufio_Writer \<Rightarrow> byte list" where
  "bw_written w = bw_sink w @ bw_buf w"

lemma conn_write_ok:
  "conn_write w p = (n, w') \<Longrightarrow> bw_err w' = None \<Longrightarrow>
   n = length p \<and> bw_sink w' = bw_sink w @ p \<and> bw_buf w' = bw_buf w \<and> bw_size w' = bw_size w"
  by (auto simp: conn_write_def split: option.splits if_splits)

lemma conn_write_cap:
  "conn_write w p = (n, w') \<Longrightarrow> bw_cap w = None \<Longrightarrow> bw_err w' = bw_err w \<and> bw_cap w' = None"
  by (auto simp: conn_write_def split: option.splits if_splits)

lemma conn_write_prefix:
  "conn_write w p = (n, w') \<Longrightarrow>
   bw_sink w' = bw_sink w @ take n p \<and> bw_buf w' = bw_buf w \<and> bw_size w' = bw_size w \<and> n \<le> length p"
  by (auto simp: conn_write_def split: option.splits if_splits)

lemma bw_Flush_spec:
  assumes "bw_Flush w = (r, w')"
  shows "bw_written w' = bw_written w" "r = bw_err w'"
        "r = None \<Longrightarrow> bw_buf w' = [] \<and> bw_sink w' = bw_written w"
        "bw_size w' = bw_size w"
proof -
  show "bw_written w' = bw_written w" "r = bw_err w'" "bw_size w' = bw_size w"
    using assms
    by (auto simp: bw_Flush_def bw_written_def split: option.splits if_splits prod.splits
             dest!: conn_write_prefix)
  show "r = None \<Longrightarrow> bw_buf w' = [] \<and> bw_sink w' = bw_written w"
    using assms
    by (auto simp: bw_Flush_def bw_written_def split: option.splits if_splits prod.splits
             dest!: conn_write_ok)
qed

lemma bw_Flush_live:
  assumes "bw_cap w = None" and "bw_err w = None"
  shows "\<exists>w'. bw_Flush w = (None, w') \<and> bw_cap w' = None \<and> bw_err w' = None"
  using assms by (auto simp: bw_Flush_def conn_write_def)

lemma bw_Write_spec:
  "bw_Write w p = (r, w') \<Longrightarrow>
   (r = None \<longrightarrow> bw_written w' = bw_written w @ p) \<and>
   (\<exists>q. bw_written w' = bw_written w @ take q p) \<and> r = bw_err w' \<and> bw_size w' = bw_size w"
proof (induction w p arbitrary: r w' rule: bw_Write.induct)
  case (1 w p)
  consider (direct) "bw_Available w < length p" "bw_err w = None" "bw_buf w = []"
    | (fill) "bw_Available w < length p" "bw_err w = None" "bw_buf w \<noteq> []"
    | (last) "\<not> (bw_Available w < length p \<and> bw_err w = None)"
    by auto
  then show ?case
  proof cases
    case direct
    obtain n w1 where c: "conn_write w p = (n, w1)" by fastforce
    from 1(3) direct c have rec: "bw_Write w1 (drop n p) = (r, w')"
      by (simp add: bw_Write.simps [of w p])
    have "(r = None \<longrightarrow> bw_written w' = bw_written w1 @ drop n p) \<and>
      (\<exists>q. bw_written w' = bw_written w1 @ take q (drop n p)) \<and> r = bw_err w' \<and> bw_size w' = bw_size w1"
      by (rule "1.IH"(1) [OF _ _ c [symmetric] rec]) (use direct in auto)
    then obtain q where IH: "r = None \<longrightarrow> bw_written w' = bw_written w1 @ drop n p"
      "bw_written w' = bw_written w1 @ take q (drop n p)" "r = bw_err w'" "bw_size w' = bw_size w1"
      by blast
    from conn_write_prefix [OF c] direct
    have w1: "bw_written w1 = bw_written w @ take n p" "bw_size w1 = bw_size w" "n \<le> length p"
      by (auto simp: bw_written_def)
    have "bw_written w' = bw_written w @ take (n + q) p"
      using IH(2) w1 by (simp add: take_add)
    moreover have "r = None \<longrightarrow> bw_written w' = bw_written w @ p"
      using IH(1) w1 by simp
    ultimately show ?thesis using IH(3,4) w1(2) by auto
  next
    case fill
    define n where "n = min (bw_Available w) (length p)"
    obtain e w1 where f: "bw_Flush (w\<lparr>bw_buf := bw_buf w @ take n p\<rparr>) = (e, w1)" by fastforce
    from 1(3) fill f have rec: "bw_Write w1 (drop n p) = (r, w')"
      by (simp add: bw_Write.simps [of w p] n_def Let_def)
    have "(r = None \<longrightarrow> bw_written w' = bw_written w1 @ drop n p) \<and>
      (\<exists>q. bw_written w' = bw_written w1 @ take q (drop n p)) \<and> r = bw_err w' \<and> bw_size w' = bw_size w1"
      by (rule "1.IH"(2) [OF _ _ n_def _ rec]) (use f fill in auto)
    then obtain q where IH: "r = None \<longrightarrow> bw_written w' = bw_written w1 @ drop n p"
      "bw_written w' = bw_written w1 @ take q (drop n p)" "r = bw_err w'" "bw_size w' = bw_size w1"
      by blast
    from bw_Flush_spec [OF f]
    have w1: "bw_written w1 = bw_written w @ take n p" "bw_size w1 = bw_size w"
      by (auto simp: bw_written_def)
    have "bw_written w' = bw_written w @ take (n + q) p"
      using IH(2) w1 by (simp add: take_add)
    moreover have "r = None \<longrightarrow> bw_written w' = bw_written w @ p"
      using IH(1) w1 by simp
    ultimately show ?thesis using IH(3,4) w1(2) by auto
  next
    case last
    with 1(3) show ?thesis
      by (auto simp: bw_Write.simps [of w p] bw_written_def split: option.splits if_splits
               intro: exI [of _ 0] exI [of _ "length p"])
  qed
qed

lemma bw_Write_live:
  "bw_cap w = None \<Longrightarrow> bw_err w = None \<Longrightarrow>
   \<exists>w'. bw_Write w p = (None, w') \<and> bw_cap w' = None \<and> bw_err w' = None"
proof (induction w p rule: bw_Write.induct)
  case (1 w p)
  show ?case
  proof (cases "bw_Available w < length p")
    case False
    with 1 show ?thesis by (simp add: bw_Write.simps [of w p])
  next
    case True
    show ?thesis
    proof (cases "bw_buf w = []")
      case e: True
      with 1 True show ?thesis
        by (simp add: bw_Write.simps [of w p] conn_write_def)
    next
      case ne: False
      define n where "n = min (bw_Available w) (length p)"
      obtain w1 where w1: "bw_Flush (w\<lparr>bw_buf := bw_buf w @ take n p\<rparr>) = (None, w1)"
          "bw_cap w1 = None" "bw_err w1 = None"
        using bw_Flush_live [of "w\<lparr>bw_buf := bw_buf w @ take n p\<rparr>"] 1 by auto
      from "1.IH"(2) [OF _ ne n_def, of w1] 1 True w1 show ?thesis
        by (simp add: bw_Write.simps [of w p] ne n_def Let_def)
    qed
  qed
qed

lemma bw_Writes_spec:
  "bw_Writes w ps = (r, w') \<Longrightarrow>
   (r = None \<longrightarrow> bw_written w' = bw_written w @ concat ps) \<and>
   (\<exists>q. bw_written w' = bw_written w @ take q (concat ps))"
proof (induction ps arbitrary: w)
  case Nil
  then show ?case by simp
next
  case (Cons p ps)
  obtain r1 w1 where p: "bw_Write w p = (r1, w1)" by fastforce
  note s = bw_Write_spec [OF p]
  show ?case
  proof (cases r1)
    case None
    with Cons.prems p have "bw_Writes w1 ps = (r, w')" by simp
    from Cons.IH [OF this] obtain q where
      "r = None \<longrightarrow> bw_written w' = bw_written w1 @ concat ps"
      "bw_written w' = bw_written w1 @ take q (concat ps)"
      by blast
    moreover have "bw_written w1 = bw_written w @ p" using s None by simp
    moreover have "take (length p + q) (concat (p # ps)) = p @ take q (concat ps)" by simp
    ultimately show ?thesis by (metis append_assoc concat.simps(2))
  next
    case (Some e)
    with Cons.prems p have "w' = w1" "r = Some e" by auto
    with s obtain q where q: "bw_written w' = bw_written w @ take q p" by auto
    have "take (min q (length p)) (concat (p # ps)) = take q p" by (simp add: min_def)
    with q \<open>r = Some e\<close> show ?thesis by (metis option.distinct(1))
  qed
qed

lemma bw_Writes_live:
  "bw_cap w = None \<Longrightarrow> bw_err w = None \<Longrightarrow>
   \<exists>w'. bw_Writes w ps = (None, w') \<and> bw_cap w' = None \<and> bw_err w' = None"
proof (induction ps arbitrary: w)
  case (Cons p ps)
  obtain w1 where "bw_Write w p = (None, w1)" "bw_cap w1 = None" "bw_err w1 = None"
    using bw_Write_live [OF Cons.prems] by blast
  with Cons.IH [of w1] show ?case by simp
qed simp

lemma append_split_ge:
  "as @ bs = xs @ ys \<Longrightarrow> length as \<le> length xs \<Longrightarrow> \<exists>xs'. xs = as @ xs' \<and> bs = xs' @ ys"
  by (auto simp: append_eq_append_conv2)

section \<open>The codec contract\<close>

text \<open>
  What the reader loops of the client and the server rely on: an encoded packet decodes to itself
  and leaves the rest of the stream; a stream cut inside a packet is an error, never a packet.
\<close>

fun decode_loop ::
    "nat \<Rightarrow> (byte list \<Rightarrow> (ioerror + 'p) \<times> byte list) \<Rightarrow> byte list \<Rightarrow> 'p list \<times> ioerror option" where
  "decode_loop 0 dec bs = ([], None)"
| "decode_loop (Suc n) dec bs =
     (case dec bs of
        (Inl e, _) \<Rightarrow> ([], Some e)
      | (Inr p, r) \<Rightarrow> (case decode_loop n dec r of (ps, e) \<Rightarrow> (p # ps, e)))"

text \<open>The packets of a session written one after the other, then flushed.\<close>

fun send_all ::
    "('p \<Rightarrow> bufio_Writer \<Rightarrow> ioerror option \<times> bufio_Writer) \<Rightarrow> 'p list \<Rightarrow> bufio_Writer \<Rightarrow>
     ioerror option \<times> bufio_Writer" where
  "send_all encode [] w = bw_Flush w"
| "send_all encode (p # ps) w =
     (case encode p w of (Some e, w') \<Rightarrow> (Some e, w') | (None, w') \<Rightarrow> send_all encode ps w')"

locale packet_codec =
  fixes enc :: "'p \<Rightarrow> byte list"
    and dec :: "byte list \<Rightarrow> (ioerror + 'p) \<times> byte list"
    and good :: "'p \<Rightarrow> bool"
  assumes dec_enc: "good p \<Longrightarrow> dec (enc p @ rest) = (Inr p, rest)"
    and dec_cut: "good p \<Longrightarrow> enc p = xs @ ys \<Longrightarrow> ys \<noteq> [] \<Longrightarrow>
                  fst (dec xs) = Inl EOF \<or> fst (dec xs) = Inl ErrUnexpectedEOF"
    and dec_nil: "fst (dec []) = Inl EOF"
begin

text \<open>A stream of packets, the last one possibly cut, is read as exactly its whole packets.\<close>

lemma decode_whole:
  assumes "\<forall>p \<in> set ps. good p" and "fst (dec xs) = Inl e"
  shows "decode_loop (Suc (length ps)) dec (concat (map enc ps) @ xs) = (ps, Some e)"
  using assms(1)
proof (induction ps)
  case Nil
  then show ?case using assms(2) by (cases "dec xs") auto
next
  case (Cons p ps)
  then show ?case by (simp add: dec_enc)
qed

lemma prefix_of_stream:
  "xs @ ys = concat (map enc ps) \<Longrightarrow> \<forall>p \<in> set ps. good p \<Longrightarrow>
   \<exists>k zs e. k \<le> length ps \<and> xs = concat (map enc (take k ps)) @ zs \<and>
         fst (dec zs) = Inl e \<and> e \<in> {EOF, ErrUnexpectedEOF}"
proof (induction ps arbitrary: xs)
  case Nil
  then show ?case using dec_nil by (intro exI [of _ 0] exI [of _ "[]"]) auto
next
  case (Cons p ps)
  show ?case
  proof (cases "length xs < length (enc p)")
    case True
    have "xs = take (length xs) (enc p)"
      using Cons.prems(1) True by (auto simp: append_eq_append_conv_if)
    then have "enc p = xs @ drop (length xs) (enc p)" by (metis append_take_drop_id)
    moreover have "drop (length xs) (enc p) \<noteq> []" using True by simp
    moreover note dec_cut [of p xs "drop (length xs) (enc p)"]
    ultimately have "fst (dec xs) = Inl EOF \<or> fst (dec xs) = Inl ErrUnexpectedEOF"
      using Cons.prems(2) by simp
    then show ?thesis by (intro exI [of _ 0] exI [of _ xs]) auto
  next
    case False
    with Cons.prems(1) append_split_ge [of "enc p" "concat (map enc ps)" xs ys]
    obtain xs' where xs: "xs = enc p @ xs'" "xs' @ ys = concat (map enc ps)" by auto
    from Cons.IH [OF xs(2)] Cons.prems(2) obtain k zs e where
      "k \<le> length ps" "xs' = concat (map enc (take k ps)) @ zs" "fst (dec zs) = Inl e"
      "e \<in> {EOF, ErrUnexpectedEOF}" by auto
    with xs(1) show ?thesis
      by (intro exI [of _ "Suc k"] exI [of _ zs] exI [of _ e]) auto
  qed
qed

end

text \<open>A codec whose encoder writes the packet's parts through a \<open>bufio.Writer\<close>.\<close>

locale packet_transport = packet_codec enc dec good
  for enc :: "'p \<Rightarrow> byte list" and dec :: "byte list \<Rightarrow> (ioerror + 'p) \<times> byte list"
    and good :: "'p \<Rightarrow> bool" +
  fixes encode :: "'p \<Rightarrow> bufio_Writer \<Rightarrow> ioerror option \<times> bufio_Writer"
    and parts :: "'p \<Rightarrow> byte list list"
  assumes encode_parts: "encode p w = bw_Writes w (parts p)"
    and enc_parts: "enc p = concat (parts p)"
begin

lemma send_all_prefix:
  "send_all encode ps w = (r, w') \<Longrightarrow>
   (r = None \<longrightarrow> bw_sink w' = bw_written w @ concat (map enc ps)) \<and>
   (\<exists>ys. bw_written w' @ ys = bw_written w @ concat (map enc ps))"
proof (induction ps arbitrary: w)
  case Nil
  then show ?case using bw_Flush_spec(1,3) [of w r w'] by auto
next
  case (Cons p ps)
  obtain r1 w1 where e: "encode p w = (r1, w1)" by fastforce
  then have s: "r1 = None \<longrightarrow> bw_written w1 = bw_written w @ enc p"
      "\<exists>q. bw_written w1 = bw_written w @ take q (enc p)"
    using bw_Writes_spec [of w "parts p" r1 w1] by (auto simp: encode_parts enc_parts)
  show ?case
  proof (cases r1)
    case None
    with Cons.prems e have "send_all encode ps w1 = (r, w')" by simp
    from Cons.IH [OF this] s(1) None show ?thesis by simp
  next
    case (Some x)
    with Cons.prems e have "w' = w1" "r = Some x" by auto
    moreover obtain q where "bw_written w1 = bw_written w @ take q (enc p)" using s(2) by blast
    moreover have "take q (enc p) @ drop q (enc p) @ concat (map enc ps) = concat (map enc (p # ps))"
      by simp
    ultimately show ?thesis by (metis append_assoc option.distinct(1))
  qed
qed

lemma send_all_live:
  "bw_cap w = None \<Longrightarrow> bw_err w = None \<Longrightarrow> \<exists>w'. send_all encode ps w = (None, w')"
proof (induction ps arbitrary: w)
  case Nil
  then show ?case using bw_Flush_live [of w] by auto
next
  case (Cons p ps)
  then show ?case using bw_Writes_live [OF Cons.prems, of "parts p"] by (auto simp: encode_parts)
qed

text \<open>
  Whatever the buffer size and whenever the connection fails, the other side reads a prefix of
  the packets sent, and all of them when sending reported no error.
\<close>

lemma session_prefix:
  assumes good: "\<forall>p \<in> set ps. good p"
    and fresh: "bw_buf w = []" "bw_sink w = []"
    and send: "send_all encode ps w = (r, w')"
  shows "\<exists>k e. k \<le> length ps \<and> e \<in> {EOF, ErrUnexpectedEOF} \<and>
           decode_loop (Suc k) dec (bw_sink w') = (take k ps, Some e) \<and>
           (r = None \<longrightarrow> k = length ps)"
proof -
  have written: "bw_written w = []" using fresh by (simp add: bw_written_def)
  show ?thesis
  proof (cases r)
    case None
    with send_all_prefix [OF send] written have "bw_sink w' = concat (map enc ps) @ []" by simp
    with decode_whole [OF good dec_nil] show ?thesis by (intro exI [of _ "length ps"]) auto
  next
    case (Some x)
    from send_all_prefix [OF send] written obtain ys where
      "bw_sink w' @ (bw_buf w' @ ys) = concat (map enc ps)" by (auto simp: bw_written_def)
    from prefix_of_stream [OF this good] obtain k zs e where
      k: "k \<le> length ps" "bw_sink w' = concat (map enc (take k ps)) @ zs"
         "fst (dec zs) = Inl e" "e \<in> {EOF, ErrUnexpectedEOF}" by blast
    have "\<forall>p \<in> set (take k ps). good p" using good by (auto dest: in_set_takeD)
    from decode_whole [OF this k(3)] k have
      "decode_loop (Suc k) dec (bw_sink w') = (take k ps, Some e)" by (simp add: min_absorb2)
    with k Some show ?thesis by auto
  qed
qed

end

section \<open>RpcPacket is a codec\<close>

definition rpc_bytes :: "RpcPacket \<Rightarrow> byte list" where
  "rpc_bytes p = concat (rpc_parts p)"

text \<open>
  The packets the constructors build of a non-nil body.  The length field wraps at \<open>2 ^ 32\<close>, and
  so does the subtraction in \<open>Decode\<close>: only the body's own length is bounded.
\<close>

definition rpc_good :: "RpcPacket \<Rightarrow> bool" where
  "rpc_good p = (rp_Body p \<noteq> None \<and> length (bslice (rp_Body p)) < 2 ^ 32 \<and>
                 rp_PacketLen p = of_nat (length (bslice (rp_Body p)) + defaultPacketLen))"

lemma rpc_new_good:
  "length body < 2 ^ 32 \<Longrightarrow> rpc_good (NewRpcPacketWithRet cmd (Some body) seq ret)"
  by (simp add: rpc_good_def NewRpcPacketWithRet_def)

lemma unat_lt32: "unat (w :: uint32) < 2 ^ 32"
  using unsigned_less [of w] by simp

lemma unat_of_nat32 [simp]: "n < 4294967296 \<Longrightarrow> unat (of_nat n :: uint32) = n"
  by (simp add: unat_of_nat take_bit_nat_eq_self)

lemma rpc_decode_header:
  "RpcPacketDecoder_Decode (be32 s @ be32 e @ be32 c @ be32 l @ r) =
     (case ReadFull (unat (l - of_nat defaultPacketLen)) r of
        (Inl x, r') \<Rightarrow> (Inl x, r')
      | (Inr b, r') \<Rightarrow> (Inr \<lparr>rp_Seq = s, rp_ErrCode = e, rp_Cmd = c, rp_PacketLen = l, rp_Body = Some b\<rparr>, r'))"
  by (simp add: RpcPacketDecoder_Decode_def Let_def)

lemma rpc_decode_encode:
  assumes "rpc_good p" shows "RpcPacketDecoder_Decode (rpc_bytes p @ rest) = (Inr p, rest)"
proof -
  from assms obtain body where b: "rp_Body p = Some body" "length body < 2 ^ 32"
    "rp_PacketLen p = of_nat (length body + defaultPacketLen)" by (auto simp: rpc_good_def)
  then show ?thesis
    by (simp add: rpc_bytes_def rpc_parts_def rpc_decode_header)
qed

lemma read_u32_cut:
  "be32 w @ zs = xs @ ys \<Longrightarrow>
   (\<exists>e. read_u32 xs = (Inl e, []) \<and> e \<in> {EOF, ErrUnexpectedEOF}) \<or>
   (\<exists>xs'. xs = be32 w @ xs' \<and> zs = xs' @ ys)"
proof (cases "length xs < 4")
  case True
  then show ?thesis using read_u32_short by blast
next
  case False
  assume "be32 w @ zs = xs @ ys"
  with False append_split_ge [of "be32 w" zs xs ys] show ?thesis by auto
qed

lemma rpc_decode_cut:
  assumes "rpc_good p" and "rpc_bytes p = xs @ ys" and "ys \<noteq> []"
  shows "fst (RpcPacketDecoder_Decode xs) = Inl EOF \<or> fst (RpcPacketDecoder_Decode xs) = Inl ErrUnexpectedEOF"
proof -
  let ?b = "bslice (rp_Body p)"
  have all: "be32 (rp_Seq p) @ be32 (rp_ErrCode p) @ be32 (rp_Cmd p) @ be32 (rp_PacketLen p) @ ?b = xs @ ys"
    using assms(2) by (simp add: rpc_bytes_def rpc_parts_def)
  have short: "\<exists>e. ReadFull (length ?b) r = (Inl e, []) \<and> e \<in> {EOF, ErrUnexpectedEOF}" if "?b = r @ ys" for r
    by (rule ReadFull_short) (use that assms(3) in simp)
  have len: "unat (rp_PacketLen p - of_nat defaultPacketLen) = length ?b"
    using assms(1) by (auto simp: rpc_good_def)
  have "\<exists>e r. RpcPacketDecoder_Decode xs = (Inl e, r) \<and> e \<in> {EOF, ErrUnexpectedEOF}"
    using read_u32_cut [OF all] len
    by (auto simp: RpcPacketDecoder_Decode_def Let_def dest!: read_u32_cut short)
  then show ?thesis by auto
qed

interpretation rpc: packet_transport rpc_bytes RpcPacketDecoder_Decode rpc_good
  "\<lambda>p. RpcPacketEncoder_Encode (PRpc p)" rpc_parts
proof unfold_locales
  show "fst (RpcPacketDecoder_Decode []) = Inl EOF"
    by (simp add: RpcPacketDecoder_Decode_def read_u32_def ReadFull_def)
qed (simp_all add: rpc_decode_encode rpc_decode_cut, simp add: rpc_bytes_def)

section \<open>DogPacket is a codec\<close>

definition dog_bytes :: "DogPacket \<Rightarrow> byte list" where
  "dog_bytes p = concat (dog_parts p)"

definition dog_good :: "DogPacket \<Rightarrow> bool" where
  "dog_good p =
     (dp_Body p \<noteq> None \<and> length (bslice (dp_Body p)) + 24 < 2 ^ 32 \<and>
      PacketLen (dp_Header p) = of_nat (length (bslice (dp_Body p))) + HeaderLen \<and>
      SOH (dp_Header p) = const_SOH \<and> EOH (dp_Header p) = const_EOH \<and>
      CheckSum (dp_Header p) = dog_checksum p)"

lemma dog_checksum_indep [simp]:
  "dog_checksum (p\<lparr>dp_Header := dp_Header p\<lparr>CheckSum := c\<rparr>\<rparr>) = dog_checksum p"
  by (simp add: dog_checksum_def)

lemma dog_new_good:
  "length body + 24 < 2 ^ 32 \<Longrightarrow> dog_good (NewDogPacketWithRet cmd (Some body) seq ret)"
  by (simp add: dog_good_def NewDogPacketWithRet_def dog_checksum_def Let_def)

lemma length_header_bytes [simp]: "length (header_bytes h) = 24"
  by (simp add: header_bytes_def)

lemma header_of_bytes_bytes [simp]: "header_of_bytes (header_bytes h) = h"
  by (simp add: header_of_bytes_def header_bytes_def u32_at_def be32_def of_be32_be32)

lemma list24_nth:
  assumes "length xs = 24" shows "xs = map ((!) xs) [0..<24]"
  using assms by (simp add: list_eq_iff_nth_eq)

lemma header_bytes_of_bytes:
  assumes "length xs = 24" shows "header_bytes (header_of_bytes xs) = xs"
proof -
  have "header_bytes (header_of_bytes xs) = map ((!) xs) [0..<24]"
    by (simp add: header_bytes_def header_of_bytes_def u32_at_def be32_of_be32 upt_conv_Cons eval_nat_numeral)
  then show ?thesis using list24_nth [OF assms] by simp
qed

lemma unat_HeaderLen [simp]: "unat HeaderLen = 24"
  by (simp add: HeaderLen_def)

lemma dog_good_len:
  assumes "dog_good p"
  shows "\<not> PacketLen (dp_Header p) < HeaderLen"
    and "unat (PacketLen (dp_Header p) - HeaderLen) = length (bslice (dp_Body p))"
proof -
  let ?n = "length (bslice (dp_Body p))"
  have n: "?n + 24 < 2 ^ 32" "PacketLen (dp_Header p) = of_nat ?n + HeaderLen"
    using assms by (auto simp: dog_good_def)
  have "(of_nat ?n :: uint32) + HeaderLen = of_nat (?n + 24)" by (simp add: HeaderLen_def)
  then have "unat (PacketLen (dp_Header p)) = ?n + 24" using n by (simp del: of_nat_add)
  then show "\<not> PacketLen (dp_Header p) < HeaderLen" by (simp add: word_less_nat_alt)
  show "unat (PacketLen (dp_Header p) - HeaderLen) = ?n" using n by simp
qed

lemma dog_decode_encode:
  assumes "dog_good p" shows "DogPacketDecoder_Decode (dog_bytes p @ rest) = (Inr p, rest)"
proof -
  obtain h body where p: "p = \<lparr>dp_Header = h, dp_Body = Some body\<rparr>"
    using assms by (cases p) (auto simp: dog_good_def)
  show ?thesis
    using assms dog_good_len [OF assms]
    by (simp add: DogPacketDecoder_Decode_def dog_bytes_def dog_parts_def dog_good_def Let_def p)
qed

lemma dog_decode_cut:
  assumes "dog_good p" and "dog_bytes p = xs @ ys" and "ys \<noteq> []"
  shows "fst (DogPacketDecoder_Decode xs) = Inl EOF \<or> fst (DogPacketDecoder_Decode xs) = Inl ErrUnexpectedEOF"
proof (cases "length xs < 24")
  case True
  then show ?thesis using ReadFull_short [of xs 24] by (auto simp: DogPacketDecoder_Decode_def)
next
  case False
  have "header_bytes (dp_Header p) @ bslice (dp_Body p) = xs @ ys"
    using assms(2) by (simp add: dog_bytes_def dog_parts_def)
  from append_split_ge [OF this] False obtain r where
    r: "xs = header_bytes (dp_Header p) @ r" "bslice (dp_Body p) = r @ ys" by auto
  then obtain e where "ReadFull (length (bslice (dp_Body p))) r = (Inl e, [])" "e \<in> {EOF, ErrUnexpectedEOF}"
    using ReadFull_short [of r "length (bslice (dp_Body p))"] assms(3) by auto
  then show ?thesis
    using assms(1) dog_good_len [OF assms(1)]
    by (auto simp: DogPacketDecoder_Decode_def r(1) dog_good_def Let_def)
qed

interpretation dog: packet_transport dog_bytes DogPacketDecoder_Decode dog_good
  "\<lambda>p. DogPacketEncoder_Encode (PDog p)" dog_parts
proof unfold_locales
  show "fst (DogPacketDecoder_Decode []) = Inl EOF"
    by (simp add: DogPacketDecoder_Decode_def ReadFull_def)
qed (simp_all add: dog_decode_encode dog_decode_cut, simp add: dog_bytes_def)

lemma dog_decode_InrD:
  assumes "DogPacketDecoder_Decode bs = (Inr p, r)"
  shows "dog_good p \<and> bs = dog_bytes p @ r"
proof -
  from assms obtain hb bs1 where hb: "ReadFull 24 bs = (Inr hb, bs1)"
    by (auto simp: DogPacketDecoder_Decode_def split: prod.splits sum.splits)
  define h where "h = header_of_bytes hb"
  from assms hb obtain body where
    d: "\<not> PacketLen h < HeaderLen" "SOH h = const_SOH" "EOH h = const_EOH"
       "ReadFull (unat (PacketLen h - HeaderLen)) bs1 = (Inr body, r)"
       "p = \<lparr>dp_Header = h, dp_Body = Some body\<rparr>" "CheckSum h = dog_checksum p"
    by (auto simp: DogPacketDecoder_Decode_def h_def Let_def split: prod.splits sum.splits if_splits)
  from ReadFull_InrD [OF hb] ReadFull_InrD [OF d(4)]
  have b: "bs = hb @ body @ r" "length hb = 24" "length body = unat (PacketLen h - HeaderLen)" by auto
  have "unat (PacketLen h) = length body + 24" 
    using d(1) b(3) by (simp add: unat_sub word_le_nat_alt not_less)
  moreover from this have "length body + 24 < 2 ^ 32"
    using unat_lt32 [of "PacketLen h"] by simp
  ultimately have "dog_good p" using d b(3) by (simp add: dog_good_def)
  moreover have "dog_bytes p = hb @ body"
    using b(2) d(5) by (simp add: dog_bytes_def dog_parts_def h_def header_bytes_of_bytes)
  ultimately show ?thesis using b(1) by simp
qed

lemma rpc_decode_InrD:
  assumes "RpcPacketDecoder_Decode bs = (Inr p, r)"
  shows "rpc_good p \<and> bs = rpc_bytes p @ r"
proof -
  from assms obtain s e c l body r4 where
    d: "bs = be32 s @ be32 e @ be32 c @ be32 l @ r4"
       "ReadFull (unat (l - of_nat defaultPacketLen)) r4 = (Inr body, r)"
       "p = \<lparr>rp_Seq = s, rp_ErrCode = e, rp_Cmd = c, rp_PacketLen = l, rp_Body = Some body\<rparr>"
    by (auto simp: RpcPacketDecoder_Decode_def Let_def split: prod.splits sum.splits dest!: read_u32_InrD)
  from ReadFull_InrD [OF d(2)] have b: "r4 = body @ r" "length body = unat (l - of_nat defaultPacketLen)"
    by auto
  have "length body < 2 ^ 32"
    using unat_lt32 [of "l - of_nat defaultPacketLen"] b(2) by simp
  then have "rpc_good p" using b(2) d(3) by (simp add: rpc_good_def)
  then show ?thesis using d(1,3) b(1) by (simp add: rpc_bytes_def rpc_parts_def)
qed

lemma crc_byte_unfold:
  "crc_byte c b = crc_bit (crc_bit (crc_bit (crc_bit (crc_bit (crc_bit (crc_bit (crc_bit (c XOR ucast b))))))))"
  by (simp add: crc_byte_def eval_nat_numeral)

lemma crc_bit_numeral:
  "crc_bit (numeral (Num.Bit1 k)) = drop_bit 1 (numeral (Num.Bit1 k)) XOR 0xEDB88320"
  "crc_bit (numeral (Num.Bit0 k)) = drop_bit 1 (numeral (Num.Bit0 k))"
  by (simp_all add: crc_bit_def bit_0)

lemmas crc_eval = ChecksumIEEE_def crc_byte_unfold crc_bit_numeral

text \<open>The CRC-32 check value.\<close>

lemma crc_check_value: "ChecksumIEEE (map of_char ''123456789'') = 0xCBF43926"
  by (simp add: crc_eval)

lemmas json_eval = NewDogPacketWithRet_def json_DogPacket_def json_Header_def json_num_field_def
  json_body_def itoa_nat.simps digit_char_def HeaderLen_def const_Version_def const_Padding_def
  const_SOH_def const_EOH_def

lemma json_nil_packet:
  \<open>json_DogPacket ((NewDogPacketWithRet 1024 None 1 0)
     \<lparr>dp_Header := dp_Header (NewDogPacketWithRet 1024 None 1 0)\<lparr>CheckSum := 0\<rparr>\<rparr>) =
   ''{"PacketLen":24,"Seq":1,"Cmd":1024,"CheckSum":0,"ErrCode":0,"Version":1,"Padding":0,"SOH":16,"EOH":36,"Body":null}''\<close>
  by (simp add: json_eval Let_def char_of_def bit_0)

lemma json_empty_packet:
  \<open>json_DogPacket ((NewDogPacketWithRet 1024 (Some []) 1 0)
     \<lparr>dp_Header := dp_Header (NewDogPacketWithRet 1024 (Some []) 1 0)\<lparr>CheckSum := 0\<rparr>\<rparr>) =
   ''{"PacketLen":24,"Seq":1,"Cmd":1024,"CheckSum":0,"ErrCode":0,"Version":1,"Padding":0,"SOH":16,"EOH":36,"Body":""}''\<close>
  by (simp add: json_eval Let_def char_of_def bit_0)

lemma dog_nil_body_decode:
  "DogPacketDecoder_Decode (dog_bytes (NewDogPacketWithRet cmd None seq ret) @ rest) =
     (if dog_checksum (NewDogPacketWithRet cmd None seq ret) =
         dog_checksum (NewDogPacketWithRet cmd (Some []) seq ret)
      then (Inr (NewDogPacketWithRet cmd (Some []) seq ret), rest)
      else (Inl (ErrNew ''invalid CheckSum''), rest))"
  by (simp add: DogPacketDecoder_Decode_def dog_bytes_def dog_parts_def NewDogPacketWithRet_def
        Let_def dog_checksum_def ReadFull_def [of 0])
lemma crc_nil_packet: "dog_checksum (NewDogPacketWithRet 1024 None 1 0) = 4030705721"
  by (simp add: dog_checksum_def json_nil_packet crc_eval)

lemma crc_empty_packet: "dog_checksum (NewDogPacketWithRet 1024 (Some []) 1 0) = 363591977"
  by (simp add: dog_checksum_def json_empty_packet crc_eval)

section \<open>Properties\<close>

text \<open>
  C3. The decoder of the default protocol accepts exactly the encodings of well-formed packets:
  \<open>Decode\<close> returns packet \<open>p\<close> and leaves \<open>r\<close> if and only if the stream starts with the encoding of
  \<open>p\<close>, \<open>p\<close> has a body shorter than \<open>2 ^ 32\<close> bytes and a matching length field.
\<close>

theorem rpc_decode_exact:
  "RpcPacketDecoder_Decode bs = (Inr p, r) \<longleftrightarrow> rpc_good p \<and> bs = rpc_bytes p @ r"
  using rpc_decode_InrD rpc_decode_encode by blast

text \<open>
  C4. The decoder of the dog protocol accepts exactly the encodings of packets with the right
  length, start and end marks and checksum: nothing else is ever delivered, and a stream that
  starts with such an encoding is always delivered.
\<close>

theorem dog_decode_exact:
  "DogPacketDecoder_Decode bs = (Inr p, r) \<longleftrightarrow> dog_good p \<and> bs = dog_bytes p @ r"
  using dog_decode_InrD dog_decode_encode by blast

text \<open>
  C5. A session of the default protocol: packets built by the constructor and written through a
  buffered writer of any size over a connection that may fail at any byte.  The other side reads a
  prefix of the packets, in order and unchanged, then an end-of-file error; it reads all of them
  when writing and flushing reported no error, and they report none on a connection that does not
  fail.
\<close>

theorem rpc_session_prefix:
  assumes "\<forall>(cmd, body, seq, ret) \<in> set reqs. length body < 2 ^ 32"
    and "ps = map (\<lambda>(cmd, body, seq, ret). NewRpcPacketWithRet cmd (Some body) seq ret) reqs"
    and "send_all (\<lambda>p. RpcPacketEncoder_Encode (PRpc p)) ps (NewWriterSize cap bufsize) = (r, w)"
  shows "(\<exists>k e. k \<le> length ps \<and> e \<in> {EOF, ErrUnexpectedEOF} \<and>
           decode_loop (Suc k) RpcPacketDecoder_Decode (bw_sink w) = (take k ps, Some e) \<and>
           (r = None \<longrightarrow> k = length ps)) \<and> (cap = None \<longrightarrow> r = None)"
proof
  have "\<forall>p \<in> set ps. rpc_good p"
    using assms(1,2) by (auto intro!: rpc_new_good)
  then show "\<exists>k e. k \<le> length ps \<and> e \<in> {EOF, ErrUnexpectedEOF} \<and>
     decode_loop (Suc k) RpcPacketDecoder_Decode (bw_sink w) = (take k ps, Some e) \<and>
     (r = None \<longrightarrow> k = length ps)"
    by (rule rpc.session_prefix [OF _ _ _ assms(3)]) (simp_all add: NewWriterSize_def)
  show "cap = None \<longrightarrow> r = None"
    using rpc.send_all_live [of "NewWriterSize cap bufsize" ps] assms(3)
    by (auto simp: NewWriterSize_def)
qed

theorem rpc_session_prefix_witness:
  "\<exists>k e. k \<le> 1 \<and> e \<in> {EOF, ErrUnexpectedEOF} \<and>
     decode_loop (Suc k) RpcPacketDecoder_Decode
       (bw_sink (snd (send_all (\<lambda>p. RpcPacketEncoder_Encode (PRpc p))
          [NewRpcPacketWithRet 7 (Some [1, 2]) 1 0] (NewWriterSize None 4)))) =
     (take k [NewRpcPacketWithRet 7 (Some [1, 2]) 1 0], Some e)"
  using rpc_session_prefix [of "[(7, [1, 2], 1, 0)]" "[NewRpcPacketWithRet 7 (Some [1, 2]) 1 0]" None 4
    "fst (send_all (\<lambda>p. RpcPacketEncoder_Encode (PRpc p))
          [NewRpcPacketWithRet 7 (Some [1, 2]) 1 0] (NewWriterSize None 4))"
    "snd (send_all (\<lambda>p. RpcPacketEncoder_Encode (PRpc p))
          [NewRpcPacketWithRet 7 (Some [1, 2]) 1 0] (NewWriterSize None 4))"]
  by auto

text \<open>
  The same for the dog protocol, whose bodies are at most \<open>2 ^ 32 - 25\<close> bytes long.
\<close>

lemma dog_session_prefix:
  assumes "\<forall>(cmd, body, seq, ret) \<in> set reqs. length body + 24 < 2 ^ 32"
    and "ps = map (\<lambda>(cmd, body, seq, ret). NewDogPacketWithRet cmd (Some body) seq ret) reqs"
    and "send_all (\<lambda>p. DogPacketEncoder_Encode (PDog p)) ps (NewWriterSize cap bufsize) = (r, w)"
  shows "(\<exists>k e. k \<le> length ps \<and> e \<in> {EOF, ErrUnexpectedEOF} \<and>
           decode_loop (Suc k) DogPacketDecoder_Decode (bw_sink w) = (take k ps, Some e) \<and>
           (r = None \<longrightarrow> k = length ps)) \<and> (cap = None \<longrightarrow> r = None)"
proof
  have "\<forall>p \<in> set ps. dog_good p"
    using assms(1,2) by (auto intro!: dog_new_good)
  then show "\<exists>k e. k \<le> length ps \<and> e \<in> {EOF, ErrUnexpectedEOF} \<and>
     decode_loop (Suc k) DogPacketDecoder_Decode (bw_sink w) = (take k ps, Some e) \<and>
     (r = None \<longrightarrow> k = length ps)"
    by (rule dog.session_prefix [OF _ _ _ assms(3)]) (simp_all add: NewWriterSize_def)
  show "cap = None \<longrightarrow> r = None"
    using dog.send_all_live [of "NewWriterSize cap bufsize" ps] assms(3)
    by (auto simp: NewWriterSize_def)
qed

text \<open>
  A dog packet built of a nil body is not a packet of the protocol: its checksum is taken of
  the JSON text \<open>"Body":null\<close>, the decoder's of \<open>"Body":""\<close>.  It is rejected whenever the two
  checksums differ, as they do for the first request of a client to command 1024.
\<close>

lemma dog_nil_body_rejected:
  "DogPacketDecoder_Decode (dog_bytes (NewDogPacketWithRet cmd None seq ret) @ rest) =
     (if dog_checksum (NewDogPacketWithRet cmd None seq ret) =
         dog_checksum (NewDogPacketWithRet cmd (Some []) seq ret)
      then (Inr (NewDogPacketWithRet cmd (Some []) seq ret), rest)
      else (Inl (ErrNew ''invalid CheckSum''), rest)) \<and>
   dog_checksum (NewDogPacketWithRet 1024 None 1 0) \<noteq> dog_checksum (NewDogPacketWithRet 1024 (Some []) 1 0)"
proof
  show "DogPacketDecoder_Decode (dog_bytes (NewDogPacketWithRet cmd None seq ret) @ rest) =
     (if dog_checksum (NewDogPacketWithRet cmd None seq ret) =
         dog_checksum (NewDogPacketWithRet cmd (Some []) seq ret)
      then (Inr (NewDogPacketWithRet cmd (Some []) seq ret), rest)
      else (Inl (ErrNew ''invalid CheckSum''), rest))"
    by (rule dog_nil_body_decode)
  show "dog_checksum (NewDogPacketWithRet 1024 None 1 0) \<noteq>
        dog_checksum (NewDogPacketWithRet 1024 (Some []) 1 0)"
    by (simp add: crc_nil_packet crc_empty_packet)
qed

end
