(* ===== verification/Utls.thy ===== *)
theory Utls
  imports Encoding
begin

text \<open>
  The helpers of \<open>utls\<close> that carry logic of their own: the token cipher, cutting of slices, sizes, conversion
  of interface values, dates as numbers and the address of a client.  Floats are an argument: a type with its
  formatting and conversions.
\<close>

unbundle bit_operations_syntax

section \<open>Token cipher\<close>

text \<open>Exclusive or with the repeated key, \<open>i%keyLen\<close>; an empty key panics unless there is nothing to do.\<close>

definition xor_key :: "byte list \<Rightarrow> byte list \<Rightarrow> byte list go" where
  "xor_key key bs =
     (if key = [] \<and> bs \<noteq> [] then Inl DivideByZero
      else Inr (map (\<lambda>i. bs ! i XOR key ! (i mod length key)) [0..<length bs]))"

definition GdEncode :: "byte list \<Rightarrow> byte list \<Rightarrow> string go" where
  "GdEncode bs key = go_bind (xor_key key bs) (\<lambda>enc. Inr (base64 enc))"

text \<open>
  \<open>base64.StdEncoding.DecodeString\<close>: line breaks are skipped, then groups of four characters, the last of which
  may be padded; \<open>None\<close> is a \<open>CorruptInputError\<close>.
\<close>

definition b64_alphabet :: string where
  "b64_alphabet = ''ABCDEFGHIJKLMNOPQRSTUVWXYZabcdefghijklmnopqrstuvwxyz0123456789+/''"

definition b64_index :: "char \<Rightarrow> nat option" where
  "b64_index c = map_of (zip b64_alphabet [0..<64]) c"

fun b64_groups :: "string \<Rightarrow> byte list option" where
  "b64_groups [] = Some []"
| "b64_groups (a # b # c # d # rest) =
     (case (b64_index a, b64_index b) of
        (Some i, Some j) \<Rightarrow>
          (let x = of_nat (i * 4 + j div 16)
           in if c = CHR ''='' then (if d = CHR ''='' \<and> rest = [] then Some [x] else None)
              else (case b64_index c of
                      None \<Rightarrow> None
                    | Some k \<Rightarrow>
                        (let y = of_nat (j mod 16 * 16 + k div 4)
                         in if d = CHR ''='' then (if rest = [] then Some [x, y] else None)
                            else (case b64_index d of
                                    None \<Rightarrow> None
                                  | Some l \<Rightarrow>
                                      map_option (\<lambda>bs. x # y # of_nat (k mod 4 * 64 + l) # bs) (b64_groups rest)))))
      | _ \<Rightarrow> None)"
| "b64_groups _ = None"

definition b64_DecodeString :: "string \<Rightarrow> byte list option" where
  "b64_DecodeString s = b64_groups (filter (\<lambda>c. c \<noteq> CHR 0x0A \<and> c \<noteq> CHR 0x0D) s)"

definition GdDecode :: "string \<Rightarrow> byte list \<Rightarrow> byte list option go" where
  "GdDecode str key =
     (case b64_DecodeString str of
        None \<Rightarrow> Inr None
      | Some bs \<Rightarrow> go_bind (xor_key key bs) (\<lambda>dec. Inr (Some dec)))"

section \<open>Slices\<close>

text \<open>Go's integer division and remainder truncate toward zero.\<close>

definition go_quot :: "int \<Rightarrow> int \<Rightarrow> int" where
  "go_quot a b = (if (a < 0) = (b < 0) then \<bar>a\<bar> div \<bar>b\<bar> else - (\<bar>a\<bar> div \<bar>b\<bar>))"

definition go_rem :: "int \<Rightarrow> int \<Rightarrow> int" where
  "go_rem a b = a - go_quot a b * b"

text \<open>A slice expression \<open>a[lo:hi]\<close>, for slices of full capacity.\<close>

definition go_slice :: "'a list \<Rightarrow> int \<Rightarrow> int \<Rightarrow> 'a list go" where
  "go_slice xs lo hi =
     (if lo < 0 \<or> hi < lo \<or> int (length xs) < hi then Inl IndexOutOfRange
      else Inr (take (nat (hi - lo)) (drop (nat lo) xs)))"

definition StringArraySlice :: "'a list \<Rightarrow> int \<Rightarrow> int \<Rightarrow> 'a list go" where
  "StringArraySlice array off len =
     (let count = int (length array)
      in if count = 0 \<or> off \<ge> count then Inr []
         else if len + off > count then go_slice array off count
         else go_slice array off (off + len))"

fun cut_loop :: "'a list \<Rightarrow> int \<Rightarrow> nat \<Rightarrow> nat \<Rightarrow> 'a list list go" where
  "cut_loop array step i 0 = Inr []"
| "cut_loop array step i (Suc n) =
     go_bind (StringArraySlice array (int i * step) step) (\<lambda>sub.
     go_bind (cut_loop array step (Suc i) n) (\<lambda>rest. Inr (if sub \<noteq> [] then sub # rest else rest)))"

definition CutStringSliceByStep :: "'a list \<Rightarrow> int \<Rightarrow> (int \<times> 'a list list) go" where
  "CutStringSliceByStep array step =
     (let slicelen = int (length array)
      in if step \<ge> slicelen then Inr (1, [array])
         else if step = 0 then Inl DivideByZero
         else (let groups = go_quot slicelen step;
                   groups = (if groups * step < slicelen then groups + 1 else groups)
               in go_bind (cut_loop array step 0 (nat groups)) (\<lambda>ret. Inr (groups, ret))))"

text \<open>\<open>SliceCutter\<close> on a slice or string, from turn \<open>i\<close> on; other kinds are an error.\<close>

fun cutter_loop :: "'a list \<Rightarrow> int \<Rightarrow> int \<Rightarrow> nat \<Rightarrow> nat \<Rightarrow> 'a list list go" where
  "cutter_loop xs maxsize turns i 0 = Inr []"
| "cutter_loop xs maxsize turns i (Suc n) =
     (let len = int (length xs); k = int i; rest = cutter_loop xs maxsize turns (Suc i) n
      in if k = turns
         then (if go_rem len maxsize \<noteq> 0
               then go_bind (go_slice xs (maxsize * k) (maxsize * k + go_rem len maxsize)) (\<lambda>p. go_bind rest (\<lambda>ps. Inr (p # ps)))
               else rest)
         else go_bind (go_slice xs (maxsize * k) (maxsize * (k + 1))) (\<lambda>p. go_bind rest (\<lambda>ps. Inr (p # ps))))"

definition SliceCutter :: "'a list \<Rightarrow> int \<Rightarrow> 'a list list go" where
  "SliceCutter xs maxsize =
     (if maxsize = 0 then Inl DivideByZero
      else (let turns = go_quot (int (length xs)) maxsize in cutter_loop xs maxsize turns 0 (nat (turns + 1))))"

definition Int64ArrayToString :: "int list \<Rightarrow> string \<Rightarrow> string" where
  "Int64ArrayToString list sep = (if list = [] then [] else strings_Join (map Itoa list) sep)"

fun StringInSlice :: "string list \<Rightarrow> string \<Rightarrow> bool" where
  "StringInSlice [] s = False"
| "StringInSlice (v # a) s = (if s = v then True else StringInSlice a s)"

section \<open>Sizes\<close>

text \<open>\<open>ParseMemorySize\<close>: the product wraps at 64 bits; text that is no number gives 0 and no error.\<close>

definition ParseMemorySize :: "string \<Rightarrow> (uint64 \<times> string option) go" where
  "ParseMemorySize s =
     (if s = [] then Inl IndexOutOfRange
      else (let sizeSuffix = [last s]
            in case Atoi (butlast s) of
                 None \<Rightarrow> Inr (0, None)
               | Some n \<Rightarrow>
                   (let w = word_of_int n
                    in if sizeSuffix = ''k'' \<or> sizeSuffix = ''K'' then Inr (w * 1024, None)
                       else if sizeSuffix = ''m'' \<or> sizeSuffix = ''M'' then Inr (w * 1024 * 1024, None)
                       else if sizeSuffix = ''g'' \<or> sizeSuffix = ''G'' then Inr (w * 1024 * 1024 * 1024, None)
                       else Inr (0, Some (''unsupport suffix:'' @ sizeSuffix)))))"

section \<open>Conversions\<close>

datatype 'f gval =
    GNil | GString string | GBytes string | GInt64 int64 | GUint64 uint64 | GInt32 "32 word" | GUint32 "32 word" | GInt int64
  | GFloat32 'f | GFloat64 'f | GNumber string | GBool bool | GOther

text \<open>\<open>FormatFloat\<close>, the comparison with \<open>math.MaxInt64\<close> and the conversion to \<open>int64\<close>.\<close>

record 'f floats =
  ff_text :: "'f \<Rightarrow> string"
  ff_big :: "'f \<Rightarrow> bool"
  ff_int64 :: "'f \<Rightarrow> int64"

definition TryString :: "'f floats \<Rightarrow> 'f gval \<Rightarrow> string option" where
  "TryString F v =
     (case v of
        GString s \<Rightarrow> Some s | GBytes s \<Rightarrow> Some s
      | GInt64 i \<Rightarrow> Some (Itoa (sint i)) | GUint64 u \<Rightarrow> Some (itoa_nat (unat u))
      | GInt32 i \<Rightarrow> Some (Itoa (sint i)) | GUint32 u \<Rightarrow> Some (itoa_nat (unat u))
      | GFloat32 f \<Rightarrow> Some (ff_text F f) | GFloat64 f \<Rightarrow> Some (ff_text F f)
      | GInt i \<Rightarrow> Some (Itoa (sint i)) | GNumber s \<Rightarrow> Some s
      | GBool b \<Rightarrow> Some (if b then ''true'' else ''false'')
      | GNil \<Rightarrow> None | GOther \<Rightarrow> None)"

definition MustString :: "'f floats \<Rightarrow> 'f gval \<Rightarrow> string \<Rightarrow> string" where
  "MustString F v defaultValue =
     (case v of
        GString s \<Rightarrow> s | GBytes s \<Rightarrow> s
      | GInt64 i \<Rightarrow> Itoa (sint i) | GUint64 u \<Rightarrow> itoa_nat (unat u)
      | GInt32 i \<Rightarrow> Itoa (sint i) | GUint32 u \<Rightarrow> itoa_nat (unat u)
      | GInt i \<Rightarrow> Itoa (sint i)
      | GFloat32 f \<Rightarrow> ff_text F f | GFloat64 f \<Rightarrow> ff_text F f
      | GNumber s \<Rightarrow> s
      | GBool b \<Rightarrow> if b then ''true'' else ''false''
      | GNil \<Rightarrow> defaultValue | GOther \<Rightarrow> defaultValue)"

text \<open>\<open>strconv.ParseInt(s, 10, 0)\<close> and \<open>json.Number.Int64\<close>.\<close>

definition ParseInt :: "string \<Rightarrow> int64 option" where
  "ParseInt s = map_option word_of_int (Atoi s)"

definition MustInt64 :: "'f floats \<Rightarrow> 'f gval \<Rightarrow> int64 \<Rightarrow> int64" where
  "MustInt64 F v defaultValue =
     (case v of
        GNil \<Rightarrow> defaultValue
      | GBytes s \<Rightarrow> (case ParseInt s of None \<Rightarrow> defaultValue | Some r \<Rightarrow> r)
      | GString s \<Rightarrow> (case ParseInt s of None \<Rightarrow> defaultValue | Some r \<Rightarrow> r)
      | GInt64 i \<Rightarrow> i
      | GUint64 u \<Rightarrow> if unat u > 2 ^ 63 - 1 then defaultValue else u
      | GInt32 i \<Rightarrow> word_of_int (sint i)
      | GUint32 u \<Rightarrow> word_of_int (uint u)
      | GInt i \<Rightarrow> i
      | GFloat32 f \<Rightarrow> if ff_big F f then defaultValue else ff_int64 F f
      | GFloat64 f \<Rightarrow> if ff_big F f then defaultValue else ff_int64 F f
      | GNumber s \<Rightarrow> (case ParseInt s of Some r \<Rightarrow> r | None \<Rightarrow> defaultValue)
      | GBool b \<Rightarrow> defaultValue
      | GOther \<Rightarrow> defaultValue)"

definition ConvertToInt64 :: "'f floats \<Rightarrow> 'f gval \<Rightarrow> int64 \<times> string option" where
  "ConvertToInt64 F v =
     (let parse = (\<lambda>s. case ParseInt s of None \<Rightarrow> (- 1, Some ''invalid syntax or value out of range'') | Some r \<Rightarrow> (r, None))
      in case v of
           GNil \<Rightarrow> (- 1, Some ''input is nil'')
         | GBytes s \<Rightarrow> parse s
         | GString s \<Rightarrow> parse s
         | GInt64 i \<Rightarrow> (i, None)
         | GUint64 u \<Rightarrow> if unat u > 2 ^ 63 - 1 then (- 1, Some ''input number out of range'') else (u, None)
         | GInt32 i \<Rightarrow> (word_of_int (sint i), None)
         | GUint32 u \<Rightarrow> (word_of_int (uint u), None)
         | GInt i \<Rightarrow> (i, None)
         | GFloat32 f \<Rightarrow> if ff_big F f then (- 1, Some ''input number out of range'') else (ff_int64 F f, None)
         | GFloat64 f \<Rightarrow> if ff_big F f then (- 1, Some ''input number out of range'') else (ff_int64 F f, None)
         | GNumber s \<Rightarrow> parse s
         | GBool b \<Rightarrow> (- 1, Some ''input number type err'')
         | GOther \<Rightarrow> (- 1, Some ''input number type err''))"

text \<open>On a slice; any other kind gives the default.  \<open>math.MaxInt64\<close> marks what cannot be converted.\<close>

fun MustStringArray :: "'f floats \<Rightarrow> 'f gval list \<Rightarrow> string list \<Rightarrow> string list \<Rightarrow> string list" where
  "MustStringArray F [] ret defaultValue = ret"
| "MustStringArray F (v # vs) ret defaultValue =
     (if v = GNil then defaultValue
      else (case TryString F v of None \<Rightarrow> defaultValue | Some s \<Rightarrow> MustStringArray F vs (ret @ [s]) defaultValue))"

fun MustInt64Array :: "'f floats \<Rightarrow> 'f gval list \<Rightarrow> int64 list \<Rightarrow> int64 list \<Rightarrow> int64 list" where
  "MustInt64Array F [] ret defaultValue = ret"
| "MustInt64Array F (v # vs) ret defaultValue =
     (if v = GNil then defaultValue
      else (let i = MustInt64 F v (2 ^ 63 - 1)
            in if i = 2 ^ 63 - 1 then defaultValue else MustInt64Array F vs (ret @ [i]) defaultValue))"

section \<open>Dates and addresses\<close>

definition FromTime2TimeInt :: "int \<times> int \<times> int \<Rightarrow> int" where
  "FromTime2TimeInt t = (case t of (y, m, d) \<Rightarrow> y * 10000 + m * 100 + d * 1)"

definition SplitTimeInt :: "int \<Rightarrow> int \<times> int \<times> int" where
  "SplitTimeInt t = (go_quot t 10000, go_quot (go_rem t 10000) 100, go_rem t 100)"

definition IsSameDay :: "int \<times> int \<times> int \<Rightarrow> int \<times> int \<times> int \<Rightarrow> bool" where
  "IsSameDay t1 t2 = (case (t1, t2) of ((y1, m1, d1), (y2, m2, d2)) \<Rightarrow> y1 = y2 \<and> m1 = m2 \<and> d1 = d2)"

text \<open>\<open>strings.Split\<close> at a separator that is not empty.\<close>

function strings_Split :: "string \<Rightarrow> string \<Rightarrow> string list" where
  "strings_Split s sep =
     (case strings_Index s sep of
        None \<Rightarrow> [s]
      | Some i \<Rightarrow> if sep = [] then [s] else take i s # strings_Split (drop (i + length sep) s) sep)"
  by pat_completeness auto

termination
proof (relation "measure (length \<circ> fst)")
  fix s sep i
  assume "strings_Index s sep = Some i" "sep \<noteq> []"
  then show "((drop (i + length sep) s, sep), s, sep) \<in> measure (length \<circ> fst)"
    by (cases s) (auto split: if_splits)
qed simp

declare strings_Split.simps [simp del]

text \<open>\<open>valid\<close> is \<open>net.ParseIP\<close> returning an address; the arguments are the two headers and the remote address.\<close>

definition GetRealIP :: "(string \<Rightarrow> bool) \<Rightarrow> string \<Rightarrow> string \<Rightarrow> string \<Rightarrow> string option" where
  "GetRealIP valid xff xri remote =
     (let ip = (if xff \<noteq> [] \<and> valid (hd (strings_Split xff '', '')) then hd (strings_Split xff '', '') else []);
          ip = (if ip = [] \<and> xri \<noteq> [] \<and> valid xri then xri else ip);
          addr = strings_Split remote '':'';
          ip = (if ip = [] \<and> remote \<noteq> [] \<and> length addr = 2 \<and> valid (hd addr) then hd addr else ip)
      in if ip = [] then None else Some ip)"

definition IsLocalIP :: "(string \<Rightarrow> bool) \<Rightarrow> string \<Rightarrow> string \<Rightarrow> string \<Rightarrow> bool option" where
  "IsLocalIP valid xff xri remote = map_option (\<lambda>ip. ip = ''127.0.0.1'') (GetRealIP valid xff xri remote)"

section \<open>Decoding inverts encoding\<close>

lemma b64_table:
  "list_all (\<lambda>n. b64_index (b64_char n) = Some n \<and> b64_char n \<notin> {CHR ''='', CHR 0x0A, CHR 0x0D}) [0..<64]"
  by code_simp

lemma b64_char_facts:
  assumes "n < 64"
  shows "b64_index (b64_char n) = Some n" "b64_char n \<noteq> CHR ''=''" "b64_char n \<noteq> CHR 0x0A" "b64_char n \<noteq> CHR 0x0D"
  using b64_table assms by (auto simp: list_all_iff)

lemma unat_byte: "unat (a :: byte) < 256"
  using unsigned_less [of a] by simp

lemma base64_no_breaks: "filter (\<lambda>c. c \<noteq> CHR 0x0A \<and> c \<noteq> CHR 0x0D) (base64 bs) = base64 bs"
proof (induction bs rule: base64.induct)
  case (2 a)
  then show ?case using unat_byte [of a] by (simp add: Let_def b64_char_facts)
next
  case (3 a b)
  then show ?case using unat_byte [of a] unat_byte [of b] by (simp add: Let_def b64_char_facts)
next
  case (4 a b c rest)
  then show ?case using unat_byte [of a] unat_byte [of b] unat_byte [of c] by (simp add: Let_def b64_char_facts)
qed simp

text \<open>The bytes of a group from its four six-bit numbers.\<close>

lemma b64_bytes:
  fixes x y z :: nat
  assumes "x < 256" "y < 256" "z < 256"
  shows "x div 4 * 4 + (x mod 4 * 16 + y div 16) div 16 = x"
    and "(x mod 4 * 16 + y div 16) mod 16 * 16 + (y mod 16 * 4 + z div 64) div 4 = y"
    and "(y mod 16 * 4 + z div 64) mod 4 * 64 + z mod 64 = z"
    and "x mod 4 * 16 + y div 16 < 64" "y mod 16 * 4 + z div 64 < 64" "x div 4 < 64" "z mod 64 < 64"
proof -
  have "x div 4 < 64" "y div 16 < 16" "z div 64 < 4" "x mod 4 < 4" "y mod 16 < 16" using assms by auto
  then show "x div 4 < 64" "x mod 4 * 16 + y div 16 < 64" "y mod 16 * 4 + z div 64 < 64" "z mod 64 < 64" by auto
  show "x div 4 * 4 + (x mod 4 * 16 + y div 16) div 16 = x" using \<open>y div 16 < 16\<close> by simp
  show "(x mod 4 * 16 + y div 16) mod 16 * 16 + (y mod 16 * 4 + z div 64) div 4 = y"
    using \<open>y div 16 < 16\<close> \<open>z div 64 < 4\<close> by simp
  show "(y mod 16 * 4 + z div 64) mod 4 * 64 + z mod 64 = z" using \<open>z div 64 < 4\<close> by simp
qed

lemma b64_groups_base64: "b64_groups (base64 bs) = Some bs"
proof (induction bs rule: base64.induct)
  case (2 a)
  have "x div 4 * 4 + x mod 4 * 16 div 16 = x" for x :: nat by simp
  then show ?case using b64_bytes [OF unat_byte [of a], of 0 0] by (simp add: Let_def b64_char_facts)
next
  case (3 a b)
  show ?case using b64_bytes [OF unat_byte [of a] unat_byte [of b], of 0] by (simp add: Let_def b64_char_facts)
next
  case (4 a b c rest)
  show ?case
    using b64_bytes [OF unat_byte [of a] unat_byte [of b] unat_byte [of c]] 4 by (simp add: Let_def b64_char_facts)
qed simp

lemma xor_key_twice: "key \<noteq> [] \<Longrightarrow> xor_key key bs = Inr enc \<Longrightarrow> xor_key key enc = Inr bs"
proof -
  assume key: "key \<noteq> []" and "xor_key key bs = Inr enc"
  then have enc: "enc = map (\<lambda>i. bs ! i XOR key ! (i mod length key)) [0..<length bs]" by (simp add: xor_key_def)
  then have "map (\<lambda>i. enc ! i XOR key ! (i mod length key)) [0..<length enc] = bs"
    by (intro nth_equalityI) (simp_all add: xor.assoc)
  then show "xor_key key enc = Inr bs" using key by (simp add: xor_key_def)
qed

text \<open>
  The token cipher is its own inverse: \<open>GdDecode\<close> with the same key gives back the bytes that \<open>GdEncode\<close> was
  given, for every key that is not empty; with an empty key both panic on every message with a byte in it.
\<close>

lemma GdDecode_GdEncode:
  "(key \<noteq> [] \<longrightarrow> (\<exists>s. GdEncode bs key = Inr s \<and> GdDecode s key = Inr (Some bs))) \<and>
   (bs \<noteq> [] \<longrightarrow> GdEncode bs [] = Inl DivideByZero \<and> GdDecode (base64 bs) [] = Inl DivideByZero)"
proof (intro conjI impI)
  assume key: "key \<noteq> []"
  then obtain enc where enc: "xor_key key bs = Inr enc" by (simp add: xor_key_def)
  then have "GdEncode bs key = Inr (base64 enc)" by (simp add: GdEncode_def)
  moreover have "GdDecode (base64 enc) key = Inr (Some bs)"
    using xor_key_twice [OF key enc] by (simp add: GdDecode_def b64_DecodeString_def base64_no_breaks b64_groups_base64)
  ultimately show "\<exists>s. GdEncode bs key = Inr s \<and> GdDecode s key = Inr (Some bs)" by blast
qed (simp_all add: GdEncode_def GdDecode_def xor_key_def b64_DecodeString_def base64_no_breaks b64_groups_base64)

section \<open>Cutting slices\<close>

function chunks :: "nat \<Rightarrow> 'a list \<Rightarrow> 'a list list" where
  "chunks m xs = (if xs = [] \<or> m = 0 then [] else take m xs # chunks m (drop m xs))"
  by pat_completeness auto

termination
  by (relation "measure (length \<circ> snd)") auto

declare chunks.simps [simp del]

lemma chunks_Nil [simp]: "chunks m [] = []"
  by (simp add: chunks.simps)

lemma chunks_concat: "0 < m \<Longrightarrow> concat (chunks m xs) = xs"
  by (induction m xs rule: chunks.induct) (subst chunks.simps, auto)

lemma chunks_length: "p \<in> set (chunks m xs) \<Longrightarrow> p \<noteq> [] \<and> length p \<le> m"
  by (induction m xs rule: chunks.induct) (subst (asm) (2) chunks.simps, auto split: if_splits)

lemma chunks_full: "Suc i < length (chunks m xs) \<Longrightarrow> length (chunks m xs ! i) = m"
proof (induction m xs arbitrary: i rule: chunks.induct)
  case (1 m xs)
  then have ne: "xs \<noteq> []" "m \<noteq> 0" by (auto simp: chunks.simps [of m xs] split: if_splits)
  have c: "chunks m xs = take m xs # chunks m (drop m xs)" using ne by (simp add: chunks.simps [of m xs])
  show ?case
  proof (cases i)
    case 0
    then have "drop m xs \<noteq> []" using 1(2) c by auto
    then show ?thesis using 0 c by simp
  next
    case (Suc j)
    then show ?thesis using 1 ne c by simp
  qed
qed

lemma chunks_count: "0 < m \<Longrightarrow> length (chunks m xs) = (if length xs div m * m < length xs then length xs div m + 1 else length xs div m)"
proof (induction m xs rule: chunks.induct)
  case (1 m xs)
  show ?case
  proof (cases "xs = []")
    case False
    have L: "length (chunks m xs) = Suc (length (chunks m (drop m xs)))" using False 1(2) by (simp add: chunks.simps [of m xs])
    show ?thesis
    proof (cases "length xs \<le> m")
      case True
      then show ?thesis using False L by (cases "length xs = m") auto
    next
      case le: False
      then obtain k where k: "length xs = m + k" using le_Suc_ex by (metis nat_le_linear)
      have "(m + k) div m = Suc (k div m)" using 1(2) by simp
      then show ?thesis using 1 False L k by simp
    qed
  qed simp
qed

lemma go_div_nat: "0 < m \<Longrightarrow> go_quot (int n) (int m) = int (n div m)" "0 < m \<Longrightarrow> go_rem (int n) (int m) = int (n mod m)"
  by (simp_all add: go_quot_def go_rem_def zdiv_int minus_div_mult_eq_mod [symmetric] of_nat_diff)

lemma StringArraySlice_take: "0 < m \<Longrightarrow> StringArraySlice xs (int i * int m) (int m) = Inr (take m (drop (i * m) xs))"
proof -
  assume m: "0 < m"
  have im: "int i * int m = int (i * m)" by simp
  show ?thesis
    unfolding im
    by (auto simp: StringArraySlice_def go_slice_def Let_def nat_add_distrib of_nat_diff simp del: of_nat_mult)
qed

lemma cut_loop_chunks:
  "0 < m \<Longrightarrow> length xs \<le> (i + n) * m \<Longrightarrow> cut_loop xs (int m) i n = Inr (chunks m (drop (i * m) xs))"
proof (induction n arbitrary: i)
  case (Suc n)
  have "drop m (drop (i * m) xs) = drop (Suc i * m) xs" by (simp add: add.commute)
  then show ?case
    using Suc StringArraySlice_take [OF Suc.prems(1), of xs i] by (subst chunks.simps) (auto simp: add.commute)
qed simp

lemma cutter_loop_chunks:
  assumes "0 < m"
  shows "i + n = Suc (length xs div m) \<Longrightarrow> cutter_loop xs (int m) (int (length xs div m)) i n = Inr (chunks m (drop (i * m) xs))"
proof (induction n arbitrary: i)
  case 0
  then have "length xs \<le> i * m" using assms by (simp add: dividend_less_div_times less_imp_le)
  then show ?case by simp
next
  case (Suc n)
  let ?T = "length xs div m"
  have IH: "cutter_loop xs (int m) (int ?T) (Suc i) n = Inr (chunks m (drop (Suc i * m) xs))" using Suc by simp
  have dd: "drop m (drop (i * m) xs) = drop (Suc i * m) xs" by (simp add: add.commute)
  show ?case
  proof (cases "i = ?T")
    case True
    have L: "length xs = i * m + length xs mod m" using True by simp
    have d: "drop (Suc i * m) xs = []" using L mod_less_divisor [OF assms, of "length xs"] by simp
    show ?thesis
    proof (cases "length xs mod m = 0")
      case r: True
      then have "drop (i * m) xs = []" using L by simp
      then show ?thesis using IH d True r assms by (simp add: go_div_nat Let_def)
    next
      case r: False
      have "go_slice xs (int m * int i) (int m * int i + int (length xs mod m)) = Inr (drop (i * m) xs)"
      proof -
        have "int m * int i = int (i * m)" by (simp add: mult.commute)
        then show ?thesis using L by (simp add: go_slice_def nat_add_distrib del: of_nat_mult)
      qed
      moreover have "chunks m (drop (i * m) xs) = [drop (i * m) xs]"
        using r L d dd assms by (subst chunks.simps) (auto simp: mod_less_divisor less_imp_le)
      ultimately show ?thesis using IH d True r assms by (simp add: go_div_nat Let_def)
    qed
  next
    case False
    then have "Suc i \<le> ?T" using Suc.prems by simp
    then have "Suc i * m \<le> ?T * m" by (rule mult_le_mono1)
    then have L: "Suc i * m \<le> length xs" using div_times_less_eq_dividend [of "length xs" m] by (rule order.trans)
    have e: "int m * int i = int (i * m)" "int m * (int i + 1) = int (Suc i * m)" by (simp_all add: algebra_simps)
    have "go_slice xs (int m * int i) (int m * (int i + 1)) = Inr (take m (drop (i * m) xs))"
      unfolding e using L by (auto simp: go_slice_def of_nat_diff simp del: of_nat_mult)
    moreover have "chunks m (drop (i * m) xs) = take m (drop (i * m) xs) # chunks m (drop (Suc i * m) xs)"
      using L assms dd by (subst chunks.simps) auto
    ultimately show ?thesis using IH False by (simp add: Let_def)
  qed
qed

lemma SliceCutter_chunks: "0 < m \<Longrightarrow> SliceCutter xs (int m) = Inr (chunks m xs)"
  using cutter_loop_chunks [of m 0 "Suc (length xs div m)" xs]
  by (simp add: SliceCutter_def go_div_nat Let_def nat_add_distrib)

text \<open>
  Both ways to cut a slice are the same partition: for a positive size, \<open>CutStringSliceByStep\<close> and \<open>SliceCutter\<close>
  return the same parts of a slice that is not empty; put together the parts are the slice, none is empty or longer
  than the size, and all but the last have exactly that size.  The size 0 panics in \<open>SliceCutter\<close>.
\<close>

lemma slices_partition:
  assumes "xs \<noteq> []" and "0 < m"
  shows "\<exists>parts. CutStringSliceByStep xs (int m) = Inr (int (length parts), parts) \<and> SliceCutter xs (int m) = Inr parts \<and>
    concat parts = xs \<and> (\<forall>p \<in> set parts. p \<noteq> [] \<and> length p \<le> m) \<and>
    (\<forall>i. Suc i < length parts \<longrightarrow> length (parts ! i) = m) \<and> SliceCutter xs 0 = Inl DivideByZero"
proof -
  let ?L = "length xs" let ?T = "length xs div m"
  have cutter: "SliceCutter xs (int m) = Inr (chunks m xs)" using assms(2) by (rule SliceCutter_chunks)
  have len: "length (chunks m xs) = (if ?T * m < ?L then ?T + 1 else ?T)" if "m < ?L"
    by (rule chunks_count [OF assms(2)])
  have "CutStringSliceByStep xs (int m) = Inr (int (length (chunks m xs)), chunks m xs)"
  proof (cases "?L \<le> m")
    case True
    then have "chunks m xs = [xs]" using assms by (simp add: chunks.simps)
    then show ?thesis using True by (simp add: CutStringSliceByStep_def Let_def)
  next
    case False
    let ?g = "if ?T * m < ?L then ?T + 1 else ?T"
    have g: "go_quot (int ?L) (int m) = int ?T" using assms(2) by (rule go_div_nat)
    have "?L \<le> ?g * m" using assms(2) dividend_less_div_times [OF assms(2), of ?L] by auto
    then have "cut_loop xs (int m) 0 ?g = Inr (chunks m xs)" using cut_loop_chunks [OF assms(2), of xs 0 ?g] by simp
    moreover have "(if int ?T * int m < int ?L then int ?T + 1 else int ?T) = int ?g"
      by (simp flip: of_nat_mult)
    ultimately show ?thesis using False len assms(2) by (simp add: CutStringSliceByStep_def Let_def g)
  qed
  then show ?thesis
    using cutter chunks_concat [OF assms(2), of xs] chunks_length chunks_full by (auto simp: SliceCutter_def)
qed

section \<open>Conversions agree\<close>

lemma MustInt64_ConvertToInt64:
  "MustInt64 F v d = (if snd (ConvertToInt64 F v) = None then fst (ConvertToInt64 F v) else d)"
  by (cases v) (auto simp: MustInt64_def ConvertToInt64_def Let_def split: option.split)

lemma MustString_TryString: "MustString F v d = (case TryString F v of Some s \<Rightarrow> s | None \<Rightarrow> d)"
  by (cases v) (simp_all add: MustString_def TryString_def)

lemma ParseInt_Itoa: "ParseInt (Itoa (sint (w :: int64))) = Some w"
  using sint_lt [of w] sint_ge [of w] by (simp add: ParseInt_def Atoi_Itoa)

lemma int64_text_roundtrip:
  "MustInt64 F (GString (MustString F (GInt64 w) s)) d = w" "MustInt64 F (GNumber (MustString F (GInt w) s)) d = w"
  by (simp_all add: MustInt64_def MustString_def ParseInt_Itoa)

lemma SplitTimeInt_FromTime2TimeInt:
  "0 \<le> y \<Longrightarrow> 0 \<le> m \<Longrightarrow> m < 100 \<Longrightarrow> 0 \<le> d \<Longrightarrow> d < 100 \<Longrightarrow> SplitTimeInt (FromTime2TimeInt (y, m, d)) = (y, m, d)"
proof -
  assume a: "0 \<le> y" "0 \<le> m" "m < 100" "0 \<le> d" "d < 100"
  let ?t = "y * 10000 + m * 100 + d"
  have "?t div 10000 = y" by (rule int_div_pos_eq [of _ _ _ "m * 100 + d"]) (use a in linarith)+
  moreover have "?t mod 10000 = m * 100 + d" by (rule int_mod_pos_eq [of _ _ y]) (use a in linarith)+
  moreover have "?t mod 100 = d" by (rule int_mod_pos_eq [of _ _ "y * 100 + m"]) (use a in \<open>simp_all add: algebra_simps\<close>)
  moreover have "(m * 100 + d) div 100 = m" by (rule int_div_pos_eq [of _ _ _ d]) (use a in linarith)+
  ultimately show ?thesis
    using a by (simp add: SplitTimeInt_def FromTime2TimeInt_def go_quot_def go_rem_def minus_div_mult_eq_mod)
qed

end
