(* ===== verification/Gl.thy ===== *)
theory Gl
  imports Prelude "HOL-Library.Signed_Division"
begin

text \<open>
  Goroutine-local storage (\<open>runtime/gl\<close>): the sharded \<open>ConcurrentMap\<close> of \<open>map.go\<close>, and the operations
  of \<open>gl.go\<close> and \<open>global.go\<close> on the map that every goroutine registers under its identifier.

  A goroutine's map is a Go map, so a reference: the concurrent map holds addresses and the maps
  themselves are on a heap.  Whether two goroutines can ever see the same map is therefore a question
  the model can answer.  A call is one step, since every access to the concurrent map holds the lock of
  its shard and a goroutine's map is used by that goroutine only.  Keys are values that can be hashed.
\<close>

section \<open>The sharded map\<close>

record 'v Shard =
  sh_data :: "string \<rightharpoonup> 'v"

record 'v ConcurrentMap =
  cm_s :: "'v Shard list"
  cm_shardCount :: int

definition NewShard :: "int \<Rightarrow> 'v ConcurrentMap" where
  "NewShard shardCount =
     (let n = (if shardCount \<le> 0 then 32 else shardCount)
      in \<lparr>cm_s = replicate (nat n) \<lparr>sh_data = Map.empty\<rparr>, cm_shardCount = n\<rparr>)"

unbundle bit_operations_syntax

fun fnv32_loop :: "string \<Rightarrow> uint32 \<Rightarrow> uint32" where
  "fnv32_loop [] hash = hash"
| "fnv32_loop (c # cs) hash = fnv32_loop cs ((hash * 16777619) XOR of_nat (of_char c))"

definition fnv32 :: "string \<Rightarrow> uint32" where
  "fnv32 key = fnv32_loop key 2166136261"

text \<open>The index of a key's shard; \<open>uint\<close> has 64 bits.\<close>

definition GetShard :: "string \<Rightarrow> 'v ConcurrentMap \<Rightarrow> nat go" where
  "GetShard key m =
     (let n = unat (word_of_int (cm_shardCount m) :: uint64);
          i = unat (fnv32 key) mod n
      in if n = 0 then Inl DivideByZero
         else if i < length (cm_s m) then Inr i else Inl IndexOutOfRange)"

definition cm_Set :: "string \<Rightarrow> 'v \<Rightarrow> 'v ConcurrentMap \<Rightarrow> 'v ConcurrentMap go" where
  "cm_Set key val m =
     go_bind (GetShard key m) (\<lambda>i.
       Inr (m\<lparr>cm_s := (cm_s m)[i := (cm_s m ! i)\<lparr>sh_data := (sh_data (cm_s m ! i))(key \<mapsto> val)\<rparr>]\<rparr>))"

definition cm_Get :: "string \<Rightarrow> 'v ConcurrentMap \<Rightarrow> 'v option go" where
  "cm_Get key m = go_bind (GetShard key m) (\<lambda>i. Inr (sh_data (cm_s m ! i) key))"

definition cm_Remove :: "string \<Rightarrow> 'v ConcurrentMap \<Rightarrow> 'v ConcurrentMap go" where
  "cm_Remove key m =
     go_bind (GetShard key m) (\<lambda>i.
       Inr (m\<lparr>cm_s := (cm_s m)[i := (cm_s m ! i)\<lparr>sh_data := (sh_data (cm_s m ! i))(key := None)\<rparr>]\<rparr>))"

section \<open>Goroutine-local operations\<close>

text \<open>The values of type \<open>interface{}\<close> the package distinguishes.\<close>

datatype gany = ANil | AStr string | ABool bool | AInt64 int64 | APtr nat | AMap nat | AOther string

datatype glog = GInit int | GDoubleInit int | GClear int

record gl_state =
  gl_m :: "gany ConcurrentMap"
  gl_heap :: "nat \<Rightarrow> (gany \<times> gany) list"
  gl_next :: nat
  gl_log :: "glog list"

definition shardCount :: int where "shardCount = 1024"

definition newGoroutineLocal :: gl_state where
  "newGoroutineLocal = \<lparr>gl_m = NewShard shardCount, gl_heap = (\<lambda>_. []), gl_next = 0, gl_log = []\<rparr>"

definition getGoId :: "int \<Rightarrow> string" where
  "getGoId goid = Itoa goid"

definition getGl :: "int \<Rightarrow> gl_state \<Rightarrow> nat option go" where
  "getGl goid g =
     go_bind (cm_Get (getGoId goid) (gl_m g)) (\<lambda>glObj.
       Inr (case glObj of
              None \<Rightarrow> None
            | Some v \<Rightarrow> if v = ANil then None else (case v of AMap a \<Rightarrow> Some a | _ \<Rightarrow> None)))"

definition gl_Init :: "int \<Rightarrow> gl_state \<Rightarrow> gl_state go" where
  "gl_Init goid g =
     go_bind (cm_Get (getGoId goid) (gl_m g)) (\<lambda>glObj.
     go_bind (cm_Set (getGoId goid) (AMap (gl_next g)) (gl_m g)) (\<lambda>m.
       Inr (g\<lparr>gl_m := m, gl_heap := (gl_heap g)(gl_next g := []), gl_next := gl_next g + 1,
              gl_log := gl_log g @ [if glObj = None \<or> glObj = Some ANil then GInit goid else GDoubleInit goid]\<rparr>)))"

definition gl_Close :: "int \<Rightarrow> gl_state \<Rightarrow> gl_state go" where
  "gl_Close goid g =
     go_bind (getGl goid g) (\<lambda>ok.
       case ok of
         None \<Rightarrow> Inr g
       | Some a \<Rightarrow>
           go_bind (cm_Remove (getGoId goid) (gl_m g)) (\<lambda>m.
             Inr (g\<lparr>gl_m := m, gl_heap := (gl_heap g)(a := []), gl_log := gl_log g @ [GClear goid]\<rparr>)))"

definition gl_Exist :: "int \<Rightarrow> gl_state \<Rightarrow> bool go" where
  "gl_Exist goid g = go_bind (getGl goid g) (\<lambda>ok. Inr (ok \<noteq> None))"

text \<open>What \<open>Del\<close>, \<open>Set\<close>, \<open>Incr\<close> and \<open>Decr\<close> do to the map they find.\<close>

definition gl_update :: "int \<Rightarrow> 'r \<Rightarrow> ((gany \<times> gany) list \<Rightarrow> 'r \<times> (gany \<times> gany) list) \<Rightarrow> gl_state \<Rightarrow> ('r \<times> gl_state) go" where
  "gl_update goid miss f g =
     go_bind (getGl goid g) (\<lambda>ok.
       case ok of
         None \<Rightarrow> Inr (miss, g)
       | Some a \<Rightarrow> (case f (gl_heap g a) of (r, cc) \<Rightarrow> Inr (r, g\<lparr>gl_heap := (gl_heap g)(a := cc)\<rparr>)))"

definition gl_Del :: "int \<Rightarrow> gany \<Rightarrow> gl_state \<Rightarrow> (unit \<times> gl_state) go" where
  "gl_Del goid key g = gl_update goid () (\<lambda>cc. ((), al_del key cc)) g"

definition gl_Get :: "int \<Rightarrow> gany \<Rightarrow> gl_state \<Rightarrow> gany option go" where
  "gl_Get goid key g =
     go_bind (getGl goid g) (\<lambda>ok. Inr (case ok of None \<Rightarrow> None | Some a \<Rightarrow> map_of (gl_heap g a) key))"

fun batch_collect :: "(gany \<times> gany) list \<Rightarrow> gany list \<Rightarrow> (gany \<times> gany) list \<Rightarrow> (gany \<times> gany) list" where
  "batch_collect cc [] ret = ret"
| "batch_collect cc (k # ks) ret =
     batch_collect cc ks (case map_of cc k of Some v \<Rightarrow> al_set k v ret | None \<Rightarrow> ret)"

definition gl_BatchGet :: "int \<Rightarrow> gany list \<Rightarrow> gl_state \<Rightarrow> (gany \<times> gany) list option go" where
  "gl_BatchGet goid ks g =
     go_bind (getGl goid g) (\<lambda>ok.
       Inr (case ok of None \<Rightarrow> None | Some a \<Rightarrow> Some (batch_collect (gl_heap g a) ks [])))"

definition gl_Set :: "int \<Rightarrow> gany \<Rightarrow> gany \<Rightarrow> gl_state \<Rightarrow> (unit \<times> gl_state) go" where
  "gl_Set goid key val g = gl_update goid () (\<lambda>cc. ((), al_set key val cc)) g"

definition gl_Incr :: "int \<Rightarrow> gany \<Rightarrow> int64 \<Rightarrow> gl_state \<Rightarrow> (int64 \<times> gl_state) go" where
  "gl_Incr goid key n g =
     gl_update goid (- 1)
       (\<lambda>cc. case map_of cc key of
               Some (AInt64 vc) \<Rightarrow> (vc, al_set key (AInt64 (vc + n)) cc)
             | _ \<Rightarrow> (0, al_set key (AInt64 n) cc)) g"

definition gl_Decr :: "int \<Rightarrow> gany \<Rightarrow> int64 \<Rightarrow> gl_state \<Rightarrow> (int64 \<times> gl_state) go" where
  "gl_Decr goid key n g =
     gl_update goid (- 1)
       (\<lambda>cc. case map_of cc key of
               Some (AInt64 vc) \<Rightarrow> (vc, al_set key (AInt64 (vc - n)) cc)
             | _ \<Rightarrow> (0, al_set key (AInt64 (0 - n)) cc)) g"

text \<open>A \<open>time.Duration\<close> in milliseconds: Go's division of \<open>int64\<close> truncates.\<close>

definition duration_ms :: "int64 \<Rightarrow> int64" where
  "duration_ms d = word_of_int (sint d sdiv 1000000)"

definition gl_IncrCost :: "int \<Rightarrow> gany \<Rightarrow> int64 \<Rightarrow> gl_state \<Rightarrow> (int64 \<times> gl_state) go" where
  "gl_IncrCost goid key cost g = gl_Incr goid key (duration_ms cost) g"

definition gl_IncrCostKey :: "int \<Rightarrow> string \<Rightarrow> int64 \<Rightarrow> gl_state \<Rightarrow> (int64 \<times> gl_state) go" where
  "gl_IncrCostKey goid key cost g = gl_Incr goid (AStr (key @ ''_cost'')) (duration_ms cost) g"

definition gl_IncrCountKey :: "int \<Rightarrow> string \<Rightarrow> int64 \<Rightarrow> gl_state \<Rightarrow> (int64 \<times> gl_state) go" where
  "gl_IncrCountKey goid key val g = gl_Incr goid (AStr (key @ ''_count'')) val g"

definition gl_IncrFailKey :: "int \<Rightarrow> string \<Rightarrow> int64 \<Rightarrow> gl_state \<Rightarrow> (int64 \<times> gl_state) go" where
  "gl_IncrFailKey goid key val g = gl_Incr goid (AStr (key @ ''_fail'')) val g"

section \<open>Dumping and copying\<close>

text \<open>
  \<open>GetCurrentGlData\<close>, \<open>JsonCurrentGlData\<close> and \<open>GetGlData\<close> walk the goroutine's map in an order of the
  run-time (\<open>order\<close>) and print its keys with \<open>%v\<close> (\<open>sprint\<close>).
\<close>

definition hidden_keys :: "string list" where
  "hidden_keys = [''glClientIp'', ''glTag'', ''glLogId'', ''glUrl'', ''gdToken'', ''glSecretKey'', ''glServer'']"

definition isPtrOrInterface :: "gany \<Rightarrow> bool" where
  "isPtrOrInterface v = (case v of ANil \<Rightarrow> True | APtr a \<Rightarrow> True | _ \<Rightarrow> False)"

fun dump_loop :: "(gany \<Rightarrow> string) \<Rightarrow> string list \<Rightarrow> bool \<Rightarrow> (gany \<times> gany) list \<Rightarrow> (string \<times> gany) list \<Rightarrow> (string \<times> gany) list" where
  "dump_loop sprint skip masked [] ret = ret"
| "dump_loop sprint skip masked ((k, v) # kvs) ret =
     dump_loop sprint skip masked kvs
       (if sprint k \<in> set skip then ret
        else al_set (sprint k) (if masked \<and> isPtrOrInterface v then AStr ''@#'' else v) ret)"

definition GetCurrentGlData where
  "GetCurrentGlData sprint order goid g =
     go_bind (getGl goid g) (\<lambda>ok.
       Inr (case ok of
              None \<Rightarrow> [(''info'', AStr ''no gl'')]
            | Some a \<Rightarrow> dump_loop sprint hidden_keys False (order (gl_heap g a)) []))"

definition JsonCurrentGlData where
  "JsonCurrentGlData sprint order goid g =
     go_bind (getGl goid g) (\<lambda>ok.
       Inr (case ok of
              None \<Rightarrow> [(''_info'', AStr ''no gl'')]
            | Some a \<Rightarrow> dump_loop sprint hidden_keys True (order (gl_heap g a)) []))"

definition GetGlData where
  "GetGlData sprint order goid g =
     go_bind (getGl goid g) (\<lambda>ok.
       Inr (case ok of
              None \<Rightarrow> [(''_info'', AStr ''no gl'')]
            | Some a \<Rightarrow> dump_loop sprint [] True (order (gl_heap g a)) []))"

fun CopyGlData :: "int \<Rightarrow> (string \<times> gany) list \<Rightarrow> gl_state \<Rightarrow> gl_state go" where
  "CopyGlData goid [] g = Inr g"
| "CopyGlData goid ((key, v) # kvs) g =
     go_bind (if strings_Contains key ''cost''
              then (case v of
                      AInt64 n \<Rightarrow> go_bind (gl_Incr goid (AStr key) n g) (\<lambda>(old, g). Inr g)
                    | _ \<Rightarrow> go_bind (gl_Set goid (AStr key) v g) (\<lambda>(u, g). Inr g))
              else go_bind (gl_Set goid (AStr key) v g) (\<lambda>(u, g). Inr g))
       (CopyGlData goid kvs)"

section \<open>Calls of goroutines\<close>

datatype glop =
    OInit | OClose | OExist | ODel gany | OGet gany | OBatchGet "gany list" | OSet gany gany
  | OIncr gany int64 | ODecr gany int64

datatype glres = GUnit | GBool bool | GGot "gany option" | GBatch "(gany \<rightharpoonup> gany) option" | GInt int64

definition gl_call :: "int \<Rightarrow> glop \<Rightarrow> gl_state \<Rightarrow> (glres \<times> gl_state) go" where
  "gl_call goid op g =
     (case op of
        OInit \<Rightarrow> go_bind (gl_Init goid g) (\<lambda>g'. Inr (GUnit, g'))
      | OClose \<Rightarrow> go_bind (gl_Close goid g) (\<lambda>g'. Inr (GUnit, g'))
      | OExist \<Rightarrow> go_bind (gl_Exist goid g) (\<lambda>b. Inr (GBool b, g))
      | ODel k \<Rightarrow> go_bind (gl_Del goid k g) (\<lambda>(u, g'). Inr (GUnit, g'))
      | OGet k \<Rightarrow> go_bind (gl_Get goid k g) (\<lambda>v. Inr (GGot v, g))
      | OBatchGet ks \<Rightarrow> go_bind (gl_BatchGet goid ks g) (\<lambda>m. Inr (GBatch (map_option map_of m), g))
      | OSet k v \<Rightarrow> go_bind (gl_Set goid k v g) (\<lambda>(u, g'). Inr (GUnit, g'))
      | OIncr k n \<Rightarrow> go_bind (gl_Incr goid k n g) (\<lambda>(i, g'). Inr (GInt i, g'))
      | ODecr k n \<Rightarrow> go_bind (gl_Decr goid k n g) (\<lambda>(i, g'). Inr (GInt i, g')))"

fun gl_calls :: "(int \<times> glop) list \<Rightarrow> gl_state \<Rightarrow> (glres list \<times> gl_state) go" where
  "gl_calls [] g = Inr ([], g)"
| "gl_calls ((goid, op) # ops) g =
     go_bind (gl_call goid op g) (\<lambda>(r, g').
     go_bind (gl_calls ops g') (\<lambda>(rs, g''). Inr (r # rs, g'')))"

text \<open>What the package promises to one goroutine: a private map between \<open>Init\<close> and \<open>Close\<close>.\<close>

definition private_counter :: "(gany \<rightharpoonup> gany) \<Rightarrow> gany \<Rightarrow> int64" where
  "private_counter m k = (case m k of Some (AInt64 v) \<Rightarrow> v | _ \<Rightarrow> 0)"

definition private_call :: "glop \<Rightarrow> (gany \<rightharpoonup> gany) option \<Rightarrow> glres \<times> (gany \<rightharpoonup> gany) option" where
  "private_call op s =
     (case op of
        OInit \<Rightarrow> (GUnit, Some Map.empty)
      | OClose \<Rightarrow> (GUnit, None)
      | OExist \<Rightarrow> (GBool (s \<noteq> None), s)
      | ODel k \<Rightarrow> (GUnit, map_option (\<lambda>m. m(k := None)) s)
      | OGet k \<Rightarrow> (GGot (Option.bind s (\<lambda>m. m k)), s)
      | OBatchGet ks \<Rightarrow> (GBatch (map_option (\<lambda>m. m |` set ks) s), s)
      | OSet k v \<Rightarrow> (GUnit, map_option (\<lambda>m. m(k \<mapsto> v)) s)
      | OIncr k n \<Rightarrow> (GInt (case s of None \<Rightarrow> - 1 | Some m \<Rightarrow> private_counter m k),
                      map_option (\<lambda>m. m(k \<mapsto> AInt64 (private_counter m k + n))) s)
      | ODecr k n \<Rightarrow> (GInt (case s of None \<Rightarrow> - 1 | Some m \<Rightarrow> private_counter m k),
                      map_option (\<lambda>m. m(k \<mapsto> AInt64 (private_counter m k - n))) s))"

fun private_calls :: "glop list \<Rightarrow> (gany \<rightharpoonup> gany) option \<Rightarrow> glres list" where
  "private_calls [] s = []"
| "private_calls (op # ops) s = (case private_call op s of (r, s') \<Rightarrow> r # private_calls ops s')"

section \<open>The interface of the concurrent map\<close>

locale map_store =
  fixes get :: "'k \<Rightarrow> 'm \<Rightarrow> 'v option go"
    and put :: "'k \<Rightarrow> 'v \<Rightarrow> 'm \<Rightarrow> 'm go"
    and remove :: "'k \<Rightarrow> 'm \<Rightarrow> 'm go"
    and inv :: "'m \<Rightarrow> bool"
    and view :: "'m \<Rightarrow> 'k \<rightharpoonup> 'v"
  assumes get_view: "inv m \<Longrightarrow> get k m = Inr (view m k)"
    and put_view: "inv m \<Longrightarrow> \<exists>m'. put k v m = Inr m' \<and> inv m' \<and> view m' = (view m)(k \<mapsto> v)"
    and remove_view: "inv m \<Longrightarrow> \<exists>m'. remove k m = Inr m' \<and> inv m' \<and> view m' = (view m)(k := None)"
begin

lemma put_get:
  assumes "inv m"
  obtains m' where "put k v m = Inr m'" "inv m'" "view m' = (view m)(k \<mapsto> v)"
    "\<And>k'. get k' m' = (if k' = k then Inr (Some v) else get k' m)"
  using put_view [OF assms, of k v] assms by (auto simp: get_view)

lemma remove_get:
  assumes "inv m"
  obtains m' where "remove k m = Inr m'" "inv m'" "view m' = (view m)(k := None)"
    "\<And>k'. get k' m' = (if k' = k then Inr None else get k' m)"
  using remove_view [OF assms, of k] assms by (auto simp: get_view)

lemma total: "inv m \<Longrightarrow> get k m \<noteq> Inl p \<and> put k v m \<noteq> Inl p \<and> remove k m \<noteq> Inl p"
  using get_view put_view remove_view by (metis sum.distinct(1))

end

definition cm_inv :: "'v ConcurrentMap \<Rightarrow> bool" where
  "cm_inv m = (0 < cm_shardCount m \<and> cm_shardCount m < 2 ^ 63 \<and> int (length (cm_s m)) = cm_shardCount m)"

definition cm_slot :: "string \<Rightarrow> 'v ConcurrentMap \<Rightarrow> nat" where
  "cm_slot key m = unat (fnv32 key) mod length (cm_s m)"

definition cm_view :: "'v ConcurrentMap \<Rightarrow> string \<rightharpoonup> 'v" where
  "cm_view m key = sh_data (cm_s m ! cm_slot key m) key"

lemma cm_slot_bound: "cm_inv m \<Longrightarrow> cm_slot key m < length (cm_s m)"
  by (cases "cm_s m") (auto simp: cm_inv_def cm_slot_def)

lemma GetShard_slot:
  assumes "cm_inv m"
  shows "GetShard key m = Inr (cm_slot key m)"
proof -
  have "unat (word_of_int (cm_shardCount m) :: uint64) = nat (cm_shardCount m mod 2 ^ 64)"
    by (simp add: unat_eq_nat_uint uint_word_of_int)
  also have "\<dots> = length (cm_s m)" using assms by (simp add: cm_inv_def) linarith
  finally show ?thesis
    using assms by (auto simp: GetShard_def cm_slot_def cm_inv_def Let_def)
qed

lemma NewShard_inv: "n < 2 ^ 63 \<Longrightarrow> cm_inv (NewShard n)"
  by (simp add: cm_inv_def NewShard_def Let_def)

lemma NewShard_view: "cm_view (NewShard n) = Map.empty"
proof
  fix key
  have "cm_slot key (NewShard n :: 'a ConcurrentMap) < length (cm_s (NewShard n :: 'a ConcurrentMap))"
    by (simp add: cm_slot_def NewShard_def Let_def)
  then show "cm_view (NewShard n :: 'a ConcurrentMap) key = None"
    by (simp add: cm_view_def NewShard_def Let_def)
qed

lemma cm_update_view:
  assumes "cm_inv m"
  shows "cm_view (m\<lparr>cm_s := (cm_s m)[cm_slot key m := (cm_s m ! cm_slot key m)\<lparr>sh_data := (sh_data (cm_s m ! cm_slot key m))(key := v)\<rparr>]\<rparr>) =
         (cm_view m)(key := v)"
  using cm_slot_bound [OF assms] by (auto simp: cm_view_def cm_slot_def nth_list_update fun_eq_iff)

interpretation shards: map_store cm_Get cm_Set cm_Remove cm_inv cm_view
proof unfold_locales
  fix m :: "'v ConcurrentMap" and k v
  assume inv: "cm_inv m"
  note slot = GetShard_slot [OF inv]
  show "cm_Get k m = Inr (cm_view m k)" by (simp add: cm_Get_def slot cm_view_def)
  show "\<exists>m'. cm_Set k v m = Inr m' \<and> cm_inv m' \<and> cm_view m' = (cm_view m)(k \<mapsto> v)"
    using inv by (auto simp: cm_Set_def slot cm_update_view) (simp add: cm_inv_def)
  show "\<exists>m'. cm_Remove k m = Inr m' \<and> cm_inv m' \<and> cm_view m' = (cm_view m)(k := None)"
    using inv by (auto simp: cm_Remove_def slot cm_update_view) (simp add: cm_inv_def)
qed

section \<open>No map is shared\<close>

definition gl_inv :: "gl_state \<Rightarrow> bool" where
  "gl_inv g = (cm_inv (gl_m g) \<and>
     (\<forall>k v. cm_view (gl_m g) k = Some v \<longrightarrow> (\<exists>a < gl_next g. v = AMap a)) \<and>
     (\<forall>k k' a. cm_view (gl_m g) k = Some (AMap a) \<longrightarrow> cm_view (gl_m g) k' = Some (AMap a) \<longrightarrow> k = k'))"

definition gl_addr :: "int \<Rightarrow> gl_state \<Rightarrow> nat option" where
  "gl_addr goid g = (case cm_view (gl_m g) (Itoa goid) of Some (AMap a) \<Rightarrow> Some a | _ \<Rightarrow> None)"

definition gl_private :: "int \<Rightarrow> gl_state \<Rightarrow> (gany \<rightharpoonup> gany) option" where
  "gl_private goid g = map_option (\<lambda>a. map_of (gl_heap g a)) (gl_addr goid g)"

lemma newGoroutineLocal_inv: "gl_inv newGoroutineLocal"
  by (simp add: gl_inv_def newGoroutineLocal_def NewShard_view NewShard_inv shardCount_def)

lemma newGoroutineLocal_private: "gl_private goid newGoroutineLocal = None"
  by (simp add: gl_private_def gl_addr_def newGoroutineLocal_def NewShard_view)

lemma getGl_addr: "gl_inv g \<Longrightarrow> getGl goid g = Inr (gl_addr goid g)"
  by (auto simp: getGl_def gl_inv_def getGoId_def shards.get_view gl_addr_def split: option.splits gany.splits)

lemma gl_addr_view: "gl_inv g \<Longrightarrow> gl_addr goid g = Some a \<longleftrightarrow> cm_view (gl_m g) (Itoa goid) = Some (AMap a)"
  by (auto simp: gl_addr_def split: option.splits gany.splits)

lemma gl_addr_inj: "gl_inv g \<Longrightarrow> gl_addr i g = Some a \<Longrightarrow> gl_addr j g = Some a \<Longrightarrow> i = j"
  unfolding gl_addr_view by (metis Itoa_inj gl_inv_def)

lemma gl_addr_bound: "gl_inv g \<Longrightarrow> gl_addr i g = Some a \<Longrightarrow> a < gl_next g"
  unfolding gl_addr_view by (auto simp: gl_inv_def)

lemma gl_Init_step:
  assumes "gl_inv g"
  obtains g' where "gl_Init goid g = Inr g'" "gl_inv g'"
    "\<And>i. gl_private i g' = (if i = goid then Some Map.empty else gl_private i g)"
proof -
  have m: "cm_inv (gl_m g)" using assms by (simp add: gl_inv_def)
  obtain m' where m': "cm_Set (Itoa goid) (AMap (gl_next g)) (gl_m g) = Inr m'" "cm_inv m'"
      "cm_view m' = (cm_view (gl_m g))(Itoa goid \<mapsto> AMap (gl_next g))"
    using shards.put_get [OF m] by metis
  obtain g' where g': "gl_Init goid g = Inr g'" "gl_m g' = m'" "gl_next g' = gl_next g + 1"
      "gl_heap g' = (gl_heap g)(gl_next g := [])"
    using m' by (auto simp: gl_Init_def getGoId_def shards.get_view [OF m])
  have fresh: "cm_view (gl_m g) k \<noteq> Some (AMap (gl_next g))" for k
    using assms by (auto simp: gl_inv_def)
  have inv: "gl_inv g'"
    using assms fresh unfolding gl_inv_def g' m' by (fastforce simp: less_SucI m' split: if_splits)
  have adr: "gl_addr i g' = (if i = goid then Some (gl_next g) else gl_addr i g)" for i
    by (simp add: gl_addr_def g' m')
  have "gl_private i g' = (if i = goid then Some Map.empty else gl_private i g)" for i
    using gl_addr_bound [OF assms] by (cases "gl_addr i g") (auto simp: gl_private_def adr g')
  with g'(1) inv show ?thesis by (rule that)
qed

lemma gl_Close_step:
  assumes "gl_inv g"
  obtains g' where "gl_Close goid g = Inr g'" "gl_inv g'"
    "\<And>i. gl_private i g' = (if i = goid then None else gl_private i g)"
proof (cases "gl_addr goid g")
  case None
  show ?thesis
    by (rule that [of g]) (use None assms in \<open>auto simp: gl_Close_def getGl_addr gl_private_def\<close>)
next
  case (Some a)
  have m: "cm_inv (gl_m g)" using assms by (simp add: gl_inv_def)
  obtain m' where m': "cm_Remove (Itoa goid) (gl_m g) = Inr m'" "cm_inv m'"
      "cm_view m' = (cm_view (gl_m g))(Itoa goid := None)"
    using shards.remove_get [OF m] by metis
  obtain g' where g': "gl_Close goid g = Inr g'" "gl_m g' = m'" "gl_next g' = gl_next g"
      "gl_heap g' = (gl_heap g)(a := [])"
    using m' Some by (auto simp: gl_Close_def getGoId_def getGl_addr [OF assms])
  have inv: "gl_inv g'"
    using assms by (auto simp: gl_inv_def g' m')
  have adr: "gl_addr i g' = (if i = goid then None else gl_addr i g)" for i
    by (simp add: gl_addr_def g' m')
  have "gl_private i g' = (if i = goid then None else gl_private i g)" for i
    using gl_addr_inj [OF assms, of i a goid] Some
    by (cases "gl_addr i g") (auto simp: gl_private_def adr g')
  with g'(1) inv show ?thesis by (rule that)
qed

lemma gl_update_step:
  assumes "gl_inv g"
  obtains g' where "gl_update goid miss f g = Inr (case gl_addr goid g of None \<Rightarrow> miss | Some a \<Rightarrow> fst (f (gl_heap g a)), g')"
    "gl_inv g'"
    "\<And>i. gl_private i g' = (if i = goid then map_option (\<lambda>a. map_of (snd (f (gl_heap g a)))) (gl_addr goid g)
                             else gl_private i g)"
proof (cases "gl_addr goid g")
  case None
  show ?thesis
    by (rule that [of g]) (use None assms in \<open>auto simp: gl_update_def getGl_addr gl_private_def\<close>)
next
  case (Some a)
  let ?g' = "g\<lparr>gl_heap := (gl_heap g)(a := snd (f (gl_heap g a)))\<rparr>"
  have adr: "gl_addr i ?g' = gl_addr i g" for i by (simp add: gl_addr_def)
  have priv: "gl_private i ?g' = (if i = goid then map_option (\<lambda>a. map_of (snd (f (gl_heap g a)))) (gl_addr goid g)
                                  else gl_private i g)" for i
    using gl_addr_inj [OF assms, of i a goid] Some
    by (cases "gl_addr i g") (auto simp: gl_private_def adr)
  show ?thesis
    by (rule that [OF _ _ priv]) (use Some assms in \<open>auto simp: gl_update_def getGl_addr gl_inv_def split_def\<close>)
qed

lemma batch_collect_map: "map_of (batch_collect cc ks ret) = map_of ret ++ (map_of cc |` set ks)"
proof (induction cc ks ret rule: batch_collect.induct)
  case (2 cc k ks ret)
  then show ?case
    by (auto simp: fun_eq_iff map_add_def restrict_map_def map_of_al_set split: option.splits)
qed simp

lemma gl_counter_step:
  assumes inv: "gl_inv g"
    and f: "f = (\<lambda>cc. (private_counter (map_of cc) k, al_set k (AInt64 (h (private_counter (map_of cc) k))) cc))"
  obtains g' where
    "gl_update goid (- 1) f g = Inr (case gl_private goid g of None \<Rightarrow> - 1 | Some m \<Rightarrow> private_counter m k, g')" "gl_inv g'"
    "\<And>i. gl_private i g' = (if i = goid then map_option (\<lambda>m. m(k \<mapsto> AInt64 (h (private_counter m k)))) (gl_private goid g)
                             else gl_private i g)"
  by (rule gl_update_step [OF inv, of goid "- 1" f])
     (rule that, auto simp: f gl_private_def [of goid g] map_of_al_set option.map_comp comp_def split: option.splits)

lemma gl_Incr_counter:
  "gl_Incr goid k n g =
     gl_update goid (- 1) (\<lambda>cc. (private_counter (map_of cc) k, al_set k (AInt64 (private_counter (map_of cc) k + n)) cc)) g"
  "gl_Decr goid k n g =
     gl_update goid (- 1) (\<lambda>cc. (private_counter (map_of cc) k, al_set k (AInt64 (private_counter (map_of cc) k - n)) cc)) g"
  unfolding gl_Incr_def gl_Decr_def private_counter_def
  by (intro arg_cong2 [where f = "\<lambda>f. gl_update goid (- 1) f"] ext refl, simp split: option.splits gany.splits)+

lemma gl_call_step:
  assumes inv: "gl_inv g"
  shows "\<exists>g'. gl_call goid op g = Inr (fst (private_call op (gl_private goid g)), g') \<and> gl_inv g' \<and>
           (\<forall>i. gl_private i g' = (if i = goid then snd (private_call op (gl_private goid g)) else gl_private i g))"
proof (cases op)
  case OInit
  obtain g' where "gl_Init goid g = Inr g'" "gl_inv g'"
      "\<And>i. gl_private i g' = (if i = goid then Some Map.empty else gl_private i g)"
    using gl_Init_step [OF inv] by blast
  with OInit show ?thesis by (simp add: gl_call_def private_call_def)
next
  case OClose
  obtain g' where "gl_Close goid g = Inr g'" "gl_inv g'"
      "\<And>i. gl_private i g' = (if i = goid then None else gl_private i g)"
    using gl_Close_step [OF inv] by blast
  with OClose show ?thesis by (simp add: gl_call_def private_call_def)
next
  case OExist
  with inv show ?thesis by (auto simp: gl_call_def private_call_def gl_Exist_def getGl_addr gl_private_def)
next
  case (OGet k)
  with inv show ?thesis
    by (auto simp: gl_call_def private_call_def gl_Get_def getGl_addr gl_private_def split: option.splits)
next
  case (OBatchGet ks)
  with inv show ?thesis
    by (auto simp: gl_call_def private_call_def gl_BatchGet_def getGl_addr gl_private_def batch_collect_map split: option.splits)
next
  case (ODel k)
  show ?thesis
    by (rule gl_update_step [OF inv, of goid "()" "\<lambda>cc. ((), al_del k cc)"])
       (auto simp: ODel gl_call_def private_call_def gl_Del_def gl_private_def [of goid g] map_of_al_del option.map_comp comp_def)
next
  case (OSet k v)
  show ?thesis
    by (rule gl_update_step [OF inv, of goid "()" "\<lambda>cc. ((), al_set k v cc)"])
       (auto simp: OSet gl_call_def private_call_def gl_Set_def gl_private_def [of goid g] map_of_al_set option.map_comp comp_def)
next
  case (OIncr k n)
  show ?thesis
    by (rule gl_counter_step [OF inv refl, of goid k "\<lambda>v. v + n"])
       (auto simp: OIncr gl_call_def private_call_def gl_Incr_counter)
next
  case (ODecr k n)
  show ?thesis
    by (rule gl_counter_step [OF inv refl, of goid k "\<lambda>v. v - n"])
       (auto simp: ODecr gl_call_def private_call_def gl_Incr_counter)
qed

lemma gl_calls_private:
  "gl_inv g \<Longrightarrow>
   \<exists>rs g'. gl_calls ops g = Inr (rs, g') \<and> length rs = length ops \<and>
     (\<forall>goid. map snd (filter (\<lambda>x. fst (fst x) = goid) (zip ops rs)) =
        private_calls (map snd (filter (\<lambda>x. fst x = goid) ops)) (gl_private goid g))"
proof (induction ops arbitrary: g)
  case (Cons x ops)
  obtain i op where x: "x = (i, op)" by (cases x)
  obtain g' where g': "gl_call i op g = Inr (fst (private_call op (gl_private i g)), g')" "gl_inv g'"
      "\<And>j. gl_private j g' = (if j = i then snd (private_call op (gl_private i g)) else gl_private j g)"
    using gl_call_step [OF Cons.prems, of i op] by blast
  obtain rs g'' where "gl_calls ops g' = Inr (rs, g'')" "length rs = length ops"
      "\<And>goid. map snd (filter (\<lambda>x. fst (fst x) = goid) (zip ops rs)) =
        private_calls (map snd (filter (\<lambda>x. fst x = goid) ops)) (gl_private goid g')"
    using Cons.IH [OF g'(2)] by blast
  with g' show ?case by (auto simp: x split: prod.splits)
qed simp

section \<open>Property\<close>

text \<open>
  C30. Goroutine-local storage is local and never panics: in every sequence of calls by any number of
  goroutines, the results each goroutine gets are those of a map of its own that exists between its
  \<open>Init\<close> and its \<open>Close\<close>, whatever shards the identifiers fall into and however calls interleave.
\<close>

theorem gl_private_storage:
  "\<exists>rs g. gl_calls ops newGoroutineLocal = Inr (rs, g) \<and> length rs = length ops \<and>
     (\<forall>goid. map snd (filter (\<lambda>x. fst (fst x) = goid) (zip ops rs)) =
        private_calls (map snd (filter (\<lambda>x. fst x = goid) ops)) None)"
  using gl_calls_private [OF newGoroutineLocal_inv, of ops] by (simp add: newGoroutineLocal_private)

end
