(* ===== verification/DHttp.thy ===== *)
theory DHttp
  imports Utls Gl
begin

text \<open>
  The http client of \<open>net/dhttp/client.go\<close>: the fluent builder of requests, cloning, the choice of body and
  content type, and the retry loop.

  Maps and the underlying client and transport are shared objects on a heap; slices are values, since the code
  copies them before it shares them.  The standard library's json, url and file functions, and the network, are
  arguments (\<open>henv\<close>); map arguments are lists in the order in which the code iterates over them.
\<close>

section \<open>Values and state\<close>

text \<open>Values of type \<open>interface{}\<close> in \<open>Data\<close>; a float is the text that \<open>FormatFloat\<close> gives.\<close>

datatype jv =
    JNull | JBool bool | JStr string | JNum string | JInt int | JFloat string
  | JStrs "string list" | JInts "int list" | JBools "bool list" | JFloats "string list"
  | JArr "jv list" | JObj "(string \<times> jv) list" | JOther string

type_synonym hvalues = "(string \<times> string list) list"

record henv =
  he_jsonStrings :: "string \<Rightarrow> string + (string \<times> string) list"
  he_jsonDecode :: "string \<Rightarrow> jv option"
  he_jsonMarshal :: "jv \<Rightarrow> string + string"
  he_ParseQuery :: "string \<Rightarrow> string + hvalues"
  he_Encode :: "hvalues \<Rightarrow> string"
  he_StatusText :: "int \<Rightarrow> string"
  he_ParseUrl :: "string \<Rightarrow> string option"
  he_urlQuery :: "string \<Rightarrow> hvalues"
  he_urlPath :: "string \<Rightarrow> string option"
  he_NewRequest :: "string \<Rightarrow> string \<Rightarrow> string option"
  he_Abs :: "string \<Rightarrow> string + string"
  he_Base :: "string \<Rightarrow> string"
  he_ReadFile :: "string \<Rightarrow> string + byte list"
  he_boundary :: string
  he_order :: "hvalues \<Rightarrow> hvalues"

record HttpClientRetryable =
  rt_RetryableStatus :: "int list"
  rt_RetryTime :: int
  rt_RetryCount :: int
  rt_Attempt :: int
  rt_Enable :: bool

record hfile =
  hf_Filename :: string
  hf_Fieldname :: string
  hf_Data :: "byte list"

record HttpClient =
  hc_Url :: string
  hc_Method :: string
  hc_Header :: nat
  hc_TargetType :: string
  hc_ForceType :: string
  hc_Data :: nat
  hc_SliceData :: "jv list"
  hc_FormData :: nat
  hc_QueryData :: nat
  hc_FileData :: "hfile list"
  hc_BounceToRawString :: bool
  hc_RawString :: string
  hc_Client :: nat
  hc_Transport :: nat
  hc_Cookies :: "string list"
  hc_Errors :: "string list"
  hc_BasicAuth :: "string \<times> string"
  hc_Debug :: bool
  hc_CurlCommand :: bool
  hc_Retryable :: HttpClientRetryable
  hc_DoNotClearHttpClient :: bool
  hc_isClone :: bool

record hclient =
  cl_Timeout :: int
  cl_CheckRedirect :: "nat option"
  cl_Transport :: "nat option"

record htransport =
  tr_DisableKeepAlives :: bool
  tr_Proxy :: "string option"
  tr_TLSClientConfig :: "nat option"

text \<open>
  The request that \<open>http.NewRequest\<close> and the following lines build.  A multipart body is its list of parts; \<open>hr_Auth\<close> is
  the argument of \<open>req.SetBasicAuth\<close>, \<open>hr_Host\<close> is set when it differs from the host of the address.
\<close>

datatype hpart = PField string string | PJson string string | PFile string string "byte list"

datatype hbody = BText string | BParts "hpart list"

record hreq =
  hr_Method :: string
  hr_Url :: string
  hr_Body :: "hbody option"
  hr_Header :: hvalues
  hr_Host :: "string option"
  hr_RawQuery :: string
  hr_Auth :: "(string \<times> string) option"
  hr_Cookies :: "string list"

record hresp =
  rs_StatusCode :: int
  rs_Header :: hvalues

text \<open>\<open>hp_sent\<close> records the requests given to \<open>Client.Do\<close>; \<open>hp_gl\<close> is the state of package \<open>gl\<close>.\<close>

record hheap =
  hp_vals :: "nat \<Rightarrow> hvalues"
  hp_data :: "nat \<Rightarrow> (string \<times> jv) list"
  hp_clients :: "nat \<Rightarrow> hclient"
  hp_trans :: "nat \<Rightarrow> htransport"
  hp_next :: nat
  hp_sent :: "(hclient \<times> hreq) list"
  hp_gl :: gl_state

definition new_vals :: "hvalues \<Rightarrow> hheap \<Rightarrow> nat \<times> hheap" where
  "new_vals v h = (hp_next h, h\<lparr>hp_vals := (hp_vals h)(hp_next h := v), hp_next := hp_next h + 1\<rparr>)"

definition new_data :: "(string \<times> jv) list \<Rightarrow> hheap \<Rightarrow> nat \<times> hheap" where
  "new_data v h = (hp_next h, h\<lparr>hp_data := (hp_data h)(hp_next h := v), hp_next := hp_next h + 1\<rparr>)"

definition new_client :: "hclient \<Rightarrow> hheap \<Rightarrow> nat \<times> hheap" where
  "new_client v h = (hp_next h, h\<lparr>hp_clients := (hp_clients h)(hp_next h := v), hp_next := hp_next h + 1\<rparr>)"

definition new_trans :: "htransport \<Rightarrow> hheap \<Rightarrow> nat \<times> hheap" where
  "new_trans v h = (hp_next h, h\<lparr>hp_trans := (hp_trans h)(hp_next h := v), hp_next := hp_next h + 1\<rparr>)"

definition upd_vals :: "nat \<Rightarrow> (hvalues \<Rightarrow> hvalues) \<Rightarrow> hheap \<Rightarrow> hheap" where
  "upd_vals a f h = h\<lparr>hp_vals := (hp_vals h)(a := f (hp_vals h a))\<rparr>"

definition upd_data :: "nat \<Rightarrow> ((string \<times> jv) list \<Rightarrow> (string \<times> jv) list) \<Rightarrow> hheap \<Rightarrow> hheap" where
  "upd_data a f h = h\<lparr>hp_data := (hp_data h)(a := f (hp_data h a))\<rparr>"

text \<open>\<open>url.Values.Add\<close>; \<open>http.Header\<close> has the same shape, with keys in canonical form.\<close>

definition v_Add :: "string \<Rightarrow> string \<Rightarrow> hvalues \<Rightarrow> hvalues" where
  "v_Add k v m = al_set k ((case map_of m k of None \<Rightarrow> [] | Some vs \<Rightarrow> vs) @ [v]) m"

definition upper :: "char \<Rightarrow> char" where
  "upper c = (if 97 \<le> (of_char c :: nat) \<and> of_char c \<le> (122 :: nat) then char_of ((of_char c :: nat) - 32) else c)"

definition lower :: "char \<Rightarrow> char" where
  "lower c = (if 65 \<le> (of_char c :: nat) \<and> of_char c \<le> (90 :: nat) then char_of ((of_char c :: nat) + 32) else c)"

definition token_char :: "char \<Rightarrow> bool" where
  "token_char c = (is_digit c \<or> upper c \<noteq> lower c \<or> c \<in> set ''!#$%&*+-.^_|~'' \<or> of_char c = (39 :: nat) \<or> of_char c = (96 :: nat))"

fun canonical :: "bool \<Rightarrow> string \<Rightarrow> string" where
  "canonical up [] = []"
| "canonical up (c # cs) = (if up then upper c else lower c) # canonical (c = CHR ''-'') cs"

text \<open>\<open>textproto.CanonicalMIMEHeaderKey\<close>: keys with other characters stay as they are.\<close>

definition CanonicalHeaderKey :: "string \<Rightarrow> string" where
  "CanonicalHeaderKey k = (if k \<noteq> [] \<and> list_all token_char k then canonical True k else k)"

definition h_Get :: "string \<Rightarrow> hvalues \<Rightarrow> string" where
  "h_Get k m = (case map_of m (CanonicalHeaderKey k) of Some (v # vs) \<Rightarrow> v | _ \<Rightarrow> [])"

section \<open>Construction, cloning and clearing\<close>

definition zero_retry :: HttpClientRetryable where
  "zero_retry = \<lparr>rt_RetryableStatus = [], rt_RetryTime = 0, rt_RetryCount = 0, rt_Attempt = 0, rt_Enable = False\<rparr>"

text \<open>\<open>New\<close>; \<open>debug\<close> is the environment variable.\<close>

definition hc_New :: "bool \<Rightarrow> hheap \<Rightarrow> HttpClient \<times> hheap" where
  "hc_New debug h =
     (let (header, h) = new_vals [] h;
          (data, h) = new_data [] h;
          (form, h) = new_vals [] h;
          (query, h) = new_vals [] h;
          (client, h) = new_client \<lparr>cl_Timeout = 0, cl_CheckRedirect = None, cl_Transport = None\<rparr> h;
          (trans, h) = new_trans \<lparr>tr_DisableKeepAlives = True, tr_Proxy = None, tr_TLSClientConfig = None\<rparr> h
      in (\<lparr>hc_Url = [], hc_Method = [], hc_Header = header, hc_TargetType = ''json'', hc_ForceType = [], hc_Data = data,
           hc_SliceData = [], hc_FormData = form, hc_QueryData = query, hc_FileData = [], hc_BounceToRawString = False,
           hc_RawString = [], hc_Client = client, hc_Transport = trans, hc_Cookies = [], hc_Errors = [],
           hc_BasicAuth = ([], []), hc_Debug = debug, hc_CurlCommand = False, hc_Retryable = zero_retry,
           hc_DoNotClearHttpClient = False, hc_isClone = False\<rparr>, h))"

text \<open>A map is copied into a new one; the copies of slices are the slices themselves here.\<close>

definition cloneMapArray :: "nat \<Rightarrow> hheap \<Rightarrow> nat \<times> hheap" where
  "cloneMapArray old h = new_vals (hp_vals h old) h"

definition shallowCopyData :: "nat \<Rightarrow> hheap \<Rightarrow> nat \<times> hheap" where
  "shallowCopyData old h = new_data (hp_data h old) h"

text \<open>\<open>Clone\<close>: the maps are copied, the client and the transport are shared.\<close>

definition hc_Clone :: "HttpClient \<Rightarrow> hheap \<Rightarrow> HttpClient \<times> hheap" where
  "hc_Clone c h =
     (let (header, h) = cloneMapArray (hc_Header c) h;
          (data, h) = shallowCopyData (hc_Data c) h;
          (form, h) = cloneMapArray (hc_FormData c) h;
          (query, h) = cloneMapArray (hc_QueryData c) h
      in (c\<lparr>hc_Header := header, hc_Data := data, hc_FormData := form, hc_QueryData := query,
            hc_DoNotClearHttpClient := True, hc_isClone := True\<rparr>, h))"

definition ClearHttpClient :: "HttpClient \<Rightarrow> hheap \<Rightarrow> HttpClient \<times> hheap" where
  "ClearHttpClient c h =
     (if hc_DoNotClearHttpClient c then (c, h)
      else
        (let (header, h) = new_vals [] h;
             (data, h) = new_data [] h;
             (form, h) = new_vals [] h;
             (query, h) = new_vals [] h
         in (c\<lparr>hc_Url := [], hc_Method := [], hc_Header := header, hc_Data := data, hc_SliceData := [],
               hc_FormData := form, hc_QueryData := query, hc_FileData := [], hc_BounceToRawString := False,
               hc_RawString := [], hc_ForceType := [], hc_TargetType := ''json'', hc_Cookies := [], hc_Errors := []\<rparr>, h)))"

text \<open>\<open>Get\<close>, \<open>Post\<close>, \<open>Head\<close>, \<open>Put\<close>, \<open>Delete\<close>, \<open>Patch\<close> and \<open>Options\<close> differ in the method only.\<close>

definition hc_begin :: "string \<Rightarrow> string \<Rightarrow> HttpClient \<Rightarrow> hheap \<Rightarrow> HttpClient \<times> hheap" where
  "hc_begin method targetUrl c h =
     (case ClearHttpClient c h of (c, h) \<Rightarrow> (c\<lparr>hc_Method := method, hc_Url := targetUrl, hc_Errors := []\<rparr>, h))"

definition CustomMethod :: "string \<Rightarrow> string \<Rightarrow> HttpClient \<Rightarrow> hheap \<Rightarrow> HttpClient \<times> hheap" where
  "CustomMethod method targetUrl c h = hc_begin method targetUrl c h"

section \<open>Settings\<close>

definition SetDebug :: "bool \<Rightarrow> HttpClient \<Rightarrow> hheap \<Rightarrow> HttpClient \<times> hheap" where
  "SetDebug enable c h = (c\<lparr>hc_Debug := enable\<rparr>, h)"

definition SetCurlCommand :: "bool \<Rightarrow> HttpClient \<Rightarrow> hheap \<Rightarrow> HttpClient \<times> hheap" where
  "SetCurlCommand enable c h = (c\<lparr>hc_CurlCommand := enable\<rparr>, h)"

definition SetDoNotClearHttpClient :: "bool \<Rightarrow> HttpClient \<Rightarrow> hheap \<Rightarrow> HttpClient \<times> hheap" where
  "SetDoNotClearHttpClient enable c h = (c\<lparr>hc_DoNotClearHttpClient := enable\<rparr>, h)"

definition add_error :: "string \<Rightarrow> HttpClient \<Rightarrow> HttpClient" where
  "add_error e c = c\<lparr>hc_Errors := hc_Errors c @ [e]\<rparr>"

definition SetHeader :: "string \<Rightarrow> string \<Rightarrow> HttpClient \<Rightarrow> hheap \<Rightarrow> HttpClient \<times> hheap" where
  "SetHeader param val c h = (c, upd_vals (hc_Header c) (al_set (CanonicalHeaderKey param) [val]) h)"

definition AppendHeader :: "string \<Rightarrow> string \<Rightarrow> HttpClient \<Rightarrow> hheap \<Rightarrow> HttpClient \<times> hheap" where
  "AppendHeader param val c h = (c, upd_vals (hc_Header c) (v_Add (CanonicalHeaderKey param) val) h)"

definition set_headers :: "(string \<times> string) list \<Rightarrow> HttpClient \<Rightarrow> hheap \<Rightarrow> HttpClient \<times> hheap" where
  "set_headers kvs c h = fold (\<lambda>(k, v) (c, h). SetHeader k v c h) kvs (c, h)"

definition setJSONHeaders :: "henv \<Rightarrow> string \<Rightarrow> HttpClient \<Rightarrow> hheap \<Rightarrow> HttpClient \<times> hheap" where
  "setJSONHeaders E headers c h =
     (case he_jsonStrings E headers of Inr val \<Rightarrow> set_headers val c h | Inl err \<Rightarrow> (add_error err c, h))"

text \<open>
  What \<open>Query\<close>, \<open>Send\<close> and \<open>SetHeaders\<close> accept: text, a number, truth value or float (as text), a slice, a structure
  or map (what marshalling and unmarshalling it gives, or the error), a pointer, anything else.
\<close>

datatype content =
    CString string | CScalar string | CSlice "jv list" | CStruct "string + (string \<times> jv) list" | CMap "string + (string \<times> jv) list"
  | CPtr content | CNilPtr | COther

text \<open>Headers from a structure must all be strings.\<close>

definition jv_strings :: "(string \<times> jv) list \<Rightarrow> string + (string \<times> string) list" where
  "jv_strings kvs =
     (if list_all (\<lambda>kv. case snd kv of JStr s \<Rightarrow> True | JNull \<Rightarrow> True | _ \<Rightarrow> False) kvs
      then Inr (map (\<lambda>kv. (fst kv, case snd kv of JStr s \<Rightarrow> s | _ \<Rightarrow> [])) kvs)
      else Inl ''json: cannot unmarshal value into Go value of type string'')"

definition setStructHeaders :: "string + (string \<times> jv) list \<Rightarrow> HttpClient \<Rightarrow> hheap \<Rightarrow> HttpClient \<times> hheap" where
  "setStructHeaders headers c h =
     (case headers of
        Inl err \<Rightarrow> (add_error err c, h)
      | Inr kvs \<Rightarrow> (case jv_strings kvs of Inl err \<Rightarrow> (add_error err c, h) | Inr val \<Rightarrow> set_headers val c h))"

definition SetHeaders :: "henv \<Rightarrow> content \<Rightarrow> HttpClient \<Rightarrow> hheap \<Rightarrow> HttpClient \<times> hheap" where
  "SetHeaders E headers c h =
     (case headers of
        CString s \<Rightarrow> setJSONHeaders E s c h
      | CStruct s \<Rightarrow> setStructHeaders s c h
      | _ \<Rightarrow> (c, h))"

definition Retry :: "henv \<Rightarrow> int \<Rightarrow> int \<Rightarrow> int list \<Rightarrow> HttpClient \<Rightarrow> hheap \<Rightarrow> HttpClient \<times> hheap" where
  "Retry E retryCount retryTime statusCode c h =
     (let bad = filter (\<lambda>code. he_StatusText E code = []) statusCode;
          c = fold (\<lambda>code. add_error (''StatusCode '' @ [CHR 0x27] @ Itoa code @ [CHR 0x27] @ '' doesn'' @ [CHR 0x27] @ ''t exist in http package'')) bad c
      in (c\<lparr>hc_Retryable := \<lparr>rt_RetryableStatus = statusCode, rt_RetryTime = retryTime, rt_RetryCount = retryCount,
                             rt_Attempt = 0, rt_Enable = True\<rparr>\<rparr>, h))"

definition SetBasicAuth :: "string \<Rightarrow> string \<Rightarrow> HttpClient \<Rightarrow> hheap \<Rightarrow> HttpClient \<times> hheap" where
  "SetBasicAuth username password c h = (c\<lparr>hc_BasicAuth := (username, password)\<rparr>, h)"

definition AddCookies :: "string list \<Rightarrow> HttpClient \<Rightarrow> hheap \<Rightarrow> HttpClient \<times> hheap" where
  "AddCookies cookies c h = (c\<lparr>hc_Cookies := hc_Cookies c @ cookies\<rparr>, h)"

definition AddCookie :: "string \<Rightarrow> HttpClient \<Rightarrow> hheap \<Rightarrow> HttpClient \<times> hheap" where
  "AddCookie cookie c h = AddCookies [cookie] c h"

definition Types :: "(string \<times> string) list" where
  "Types = [(''json'', ''application/json''), (''xml'', ''application/xml''), (''form'', ''application/x-www-form-urlencoded''),
     (''form-data'', ''application/x-www-form-urlencoded''), (''urlencoded'', ''application/x-www-form-urlencoded''),
     (''html'', ''text/html''), (''text'', ''text/plain''), (''multipart'', ''multipart/form-data'')]"

definition hc_Type :: "string \<Rightarrow> HttpClient \<Rightarrow> hheap \<Rightarrow> HttpClient \<times> hheap" where
  "hc_Type typeStr c h =
     (if map_of Types typeStr \<noteq> None then (c\<lparr>hc_ForceType := typeStr\<rparr>, h)
      else (add_error (''Type func: incorrect type '' @ [CHR 0x22] @ typeStr @ [CHR 0x22]) c, h))"

section \<open>Query parameters\<close>

definition Param :: "string \<Rightarrow> string \<Rightarrow> HttpClient \<Rightarrow> hheap \<Rightarrow> HttpClient \<times> hheap" where
  "Param key val c h = (c, upd_vals (hc_QueryData c) (v_Add key val) h)"

definition query_value :: "henv \<Rightarrow> jv \<Rightarrow> string option" where
  "query_value E v =
     (case v of
        JStr t \<Rightarrow> Some t
      | JFloat t \<Rightarrow> Some t
      | _ \<Rightarrow> (case he_jsonMarshal E v of Inl _ \<Rightarrow> None | Inr j \<Rightarrow> Some j))"

definition queryStruct :: "henv \<Rightarrow> string + (string \<times> jv) list \<Rightarrow> HttpClient \<Rightarrow> hheap \<Rightarrow> HttpClient \<times> hheap" where
  "queryStruct E s c h =
     (case s of
        Inl err \<Rightarrow> (add_error err c, h)
      | Inr kvs \<Rightarrow> fold (\<lambda>(k, v) (c, h). case query_value E v of None \<Rightarrow> (c, h) | Some q \<Rightarrow> Param (map lower k) q c h) kvs (c, h))"

definition queryString :: "henv \<Rightarrow> string \<Rightarrow> HttpClient \<Rightarrow> hheap \<Rightarrow> HttpClient \<times> hheap" where
  "queryString E s c h =
     (case he_jsonStrings E s of
        Inr kvs \<Rightarrow> fold (\<lambda>(k, v) (c, h). Param k v c h) kvs (c, h)
      | Inl _ \<Rightarrow>
          (case he_ParseQuery E s of
             Inr vals \<Rightarrow> fold (\<lambda>(k, v) (c, h). Param k v c h) (concat (map (\<lambda>(k, vs). map (Pair k) vs) vals)) (c, h)
           | Inl err \<Rightarrow> (add_error err c, h)))"

definition hc_Query :: "henv \<Rightarrow> content \<Rightarrow> HttpClient \<Rightarrow> hheap \<Rightarrow> HttpClient \<times> hheap" where
  "hc_Query E content c h =
     (case content of
        CString s \<Rightarrow> queryString E s c h
      | CStruct s \<Rightarrow> queryStruct E s c h
      | CMap s \<Rightarrow> queryStruct E s c h
      | _ \<Rightarrow> (c, h))"

section \<open>The shared client and transport\<close>

definition hc_Timeout :: "int \<Rightarrow> HttpClient \<Rightarrow> hheap \<Rightarrow> HttpClient \<times> hheap" where
  "hc_Timeout timeout c h =
     (c, h\<lparr>hp_clients := (hp_clients h)(hc_Client c := (hp_clients h (hc_Client c))\<lparr>cl_Timeout := timeout\<rparr>)\<rparr>)"

definition RedirectPolicy :: "nat \<Rightarrow> HttpClient \<Rightarrow> hheap \<Rightarrow> HttpClient \<times> hheap" where
  "RedirectPolicy policy c h =
     (c, h\<lparr>hp_clients := (hp_clients h)(hc_Client c := (hp_clients h (hc_Client c))\<lparr>cl_CheckRedirect := Some policy\<rparr>)\<rparr>)"

definition TLSClientConfig :: "nat \<Rightarrow> HttpClient \<Rightarrow> hheap \<Rightarrow> HttpClient \<times> hheap" where
  "TLSClientConfig config c h =
     (c, h\<lparr>hp_trans := (hp_trans h)(hc_Transport c := (hp_trans h (hc_Transport c))\<lparr>tr_TLSClientConfig := Some config\<rparr>)\<rparr>)"

definition Proxy :: "henv \<Rightarrow> string \<Rightarrow> HttpClient \<Rightarrow> hheap \<Rightarrow> HttpClient \<times> hheap" where
  "Proxy E proxyUrl c h =
     (case he_ParseUrl E proxyUrl of
        Some err \<Rightarrow> (add_error err c, h)
      | None \<Rightarrow>
          (c, h\<lparr>hp_trans := (hp_trans h)(hc_Transport c := (hp_trans h (hc_Transport c))
                 \<lparr>tr_Proxy := (if proxyUrl = [] then None else Some proxyUrl)\<rparr>)\<rparr>))"

section \<open>Data to send\<close>

definition SendSlice :: "jv list \<Rightarrow> HttpClient \<Rightarrow> hheap \<Rightarrow> HttpClient \<times> hheap" where
  "SendSlice content c h = (c\<lparr>hc_SliceData := hc_SliceData c @ content\<rparr>, h)"

definition data_set :: "(string \<times> jv) list \<Rightarrow> HttpClient \<Rightarrow> hheap \<Rightarrow> HttpClient \<times> hheap" where
  "data_set kvs c h = (c, upd_data (hc_Data c) (fold (\<lambda>(k, v). al_set k v) kvs) h)"

definition SendStruct :: "string + (string \<times> jv) list \<Rightarrow> HttpClient \<Rightarrow> hheap \<Rightarrow> HttpClient \<times> hheap" where
  "SendStruct content c h = (case content of Inl err \<Rightarrow> (add_error err c, h) | Inr val \<Rightarrow> data_set val c h)"

text \<open>A form value whose key exists already is put before the values that are there.\<close>

definition form_add :: "string \<Rightarrow> string \<Rightarrow> (string \<times> jv) list \<Rightarrow> (string \<times> jv) list" where
  "form_add k formValue data =
     (case map_of data k of
        Some (JStrs oldValue) \<Rightarrow> al_set k (JStrs (formValue # oldValue)) data
      | Some (JStr oldValue) \<Rightarrow> al_set k (JStrs [formValue, oldValue]) data
      | Some _ \<Rightarrow> al_set k (JStrs [formValue]) data
      | None \<Rightarrow> al_set k (JStr formValue) data)"

definition SendString :: "henv \<Rightarrow> string \<Rightarrow> HttpClient \<Rightarrow> hheap \<Rightarrow> HttpClient \<times> hheap" where
  "SendString E content c h =
     (let (c, h) =
        (if hc_BounceToRawString c then (c, h)
         else (case he_jsonDecode E content of
                 Some (JObj kvs) \<Rightarrow> data_set kvs c h
               | Some (JArr vs) \<Rightarrow> SendSlice vs c h
               | Some _ \<Rightarrow> (c\<lparr>hc_BounceToRawString := True\<rparr>, h)
               | None \<Rightarrow>
                   (case he_ParseQuery E content of
                      Inr form \<Rightarrow>
                        (c\<lparr>hc_TargetType := ''form''\<rparr>,
                         upd_data (hc_Data c) (fold (\<lambda>(k, v). form_add k v) (concat (map (\<lambda>(k, vs). map (Pair k) vs) form))) h)
                    | Inl _ \<Rightarrow> (c\<lparr>hc_BounceToRawString := True\<rparr>, h))))
      in (c\<lparr>hc_RawString := hc_RawString c @ content\<rparr>, h))"

fun hc_Send :: "henv \<Rightarrow> content \<Rightarrow> HttpClient \<Rightarrow> hheap \<Rightarrow> (HttpClient \<times> hheap) go" where
  "hc_Send E (CString s) c h = Inr (SendString E s c h)"
| "hc_Send E (CScalar s) c h = Inr (SendString E s c h)"
| "hc_Send E (CStruct s) c h = Inr (SendStruct s c h)"
| "hc_Send E (CSlice vs) c h = Inr (SendSlice vs c h)"
| "hc_Send E (CPtr p) c h = hc_Send E p c h"
| "hc_Send E CNilPtr c h = Inl (PanicValue ''reflect: call of reflect.Value.Interface on zero Value'')"
| "hc_Send E (CMap s) c h = Inr (SendStruct s c h)"
| "hc_Send E COther c h = Inr (c, h)"

text \<open>What \<open>SendFile\<close> accepts; \<open>FSlice\<close> is a slice with an element that is no byte, \<open>FNil\<close> a nil value or pointer.\<close>

datatype file_arg = FPath string | FBytes "byte list" | FOsFile string | FPtr file_arg | FSlice | FNil | FOther

definition add_file :: "string \<Rightarrow> string \<Rightarrow> byte list \<Rightarrow> HttpClient \<Rightarrow> HttpClient" where
  "add_file filename fieldname data c =
     c\<lparr>hc_FileData := hc_FileData c @ [\<lparr>hf_Filename = filename, hf_Fieldname = fieldname, hf_Data = data\<rparr>]\<rparr>"

definition arg_filename :: "string list \<Rightarrow> string" where
  "arg_filename args = (if length args \<ge> 1 \<and> args ! 0 \<noteq> [] then TrimSpace (args ! 0) else [])"

definition arg_fieldname :: "string list \<Rightarrow> nat \<Rightarrow> string" where
  "arg_fieldname args files =
     (let fieldname = (if length args \<ge> 2 \<and> args ! 1 \<noteq> [] then TrimSpace (args ! 1) else ''file'')
      in if fieldname = ''file'' \<or> fieldname = [] then ''file'' @ Itoa (int files + 1) else fieldname)"

fun SendFile :: "henv \<Rightarrow> file_arg \<Rightarrow> string list \<Rightarrow> HttpClient \<Rightarrow> hheap \<Rightarrow> (HttpClient \<times> hheap) go" where
  "SendFile E file args c h =
     (let filename = arg_filename args; fieldname = arg_fieldname args (length (hc_FileData c))
      in case file of
           FPath p \<Rightarrow>
             (case he_Abs E p of
                Inl err \<Rightarrow> Inr (add_error err c, h)
              | Inr pathToFile \<Rightarrow>
                  (let filename = (if filename = [] then he_Base E pathToFile else filename)
                   in case he_ReadFile E p of
                        Inl err \<Rightarrow> Inr (add_error err c, h)
                      | Inr data \<Rightarrow> Inr (add_file filename fieldname data c, h)))
         | FBytes bs \<Rightarrow> Inr (add_file (if filename = [] then ''filename'' else filename) fieldname bs c, h)
         | FPtr f \<Rightarrow> SendFile E f (take 2 args) c h
         | FOsFile name \<Rightarrow>
             (case he_ReadFile E name of
                Inl err \<Rightarrow> Inr (add_error err c, h)
              | Inr data \<Rightarrow> Inr (add_file (if filename = [] then he_Base E name else filename) fieldname data c, h))
         | FSlice \<Rightarrow> Inl TypeAssertion
         | FNil \<Rightarrow> Inl (PanicValue ''reflect: call on zero Value'')
         | FOther \<Rightarrow> Inr (add_error ''SendFile currently only supports either a string (path/to/file), a slice of bytes (file content itself), or a os.File!'' c, h))"

declare SendFile.simps [simp del]

section \<open>Building the request\<close>

definition FormatBool :: "bool \<Rightarrow> string" where
  "FormatBool b = (if b then ''true'' else ''false'')"

text \<open>The values a form has for one entry of \<open>Data\<close>; in a slice of interfaces all elements are asserted to have the type of the first.\<close>

fun as_strings :: "(jv \<Rightarrow> string option) \<Rightarrow> jv list \<Rightarrow> string list go" where
  "as_strings f [] = Inr []"
| "as_strings f (v # vs) =
     (case f v of None \<Rightarrow> Inl TypeAssertion | Some s \<Rightarrow> go_bind (as_strings f vs) (\<lambda>ss. Inr (s # ss)))"

definition form_values :: "jv \<Rightarrow> string list go" where
  "form_values v =
     (case v of
        JStr s \<Rightarrow> Inr [s]
      | JBool b \<Rightarrow> Inr [FormatBool b]
      | JNum s \<Rightarrow> Inr [s]
      | JInt i \<Rightarrow> Inr [Itoa i]
      | JFloat s \<Rightarrow> Inr [s]
      | JStrs ss \<Rightarrow> Inr ss
      | JInts ns \<Rightarrow> Inr (map Itoa ns)
      | JBools bs \<Rightarrow> Inr (map FormatBool bs)
      | JFloats ss \<Rightarrow> Inr ss
      | JArr vs \<Rightarrow>
          (case vs of
             [] \<Rightarrow> Inr []
           | JStr _ # _ \<Rightarrow> as_strings (\<lambda>e. case e of JStr s \<Rightarrow> Some s | _ \<Rightarrow> None) vs
           | JBool _ # _ \<Rightarrow> as_strings (\<lambda>e. case e of JBool b \<Rightarrow> Some (FormatBool b) | _ \<Rightarrow> None) vs
           | JNum _ # _ \<Rightarrow> as_strings (\<lambda>e. case e of JNum s \<Rightarrow> Some s | _ \<Rightarrow> None) vs
           | _ \<Rightarrow> Inr [])
      | _ \<Rightarrow> Inr [])"

fun url_values :: "(string \<times> jv) list \<Rightarrow> hvalues \<Rightarrow> hvalues go" where
  "url_values [] m = Inr m"
| "url_values ((k, v) # kvs) m = go_bind (form_values v) (\<lambda>vs. url_values kvs (fold (v_Add k) vs m))"

definition changeMapToURLValues :: "(string \<times> jv) list \<Rightarrow> hvalues go" where
  "changeMapToURLValues data = url_values data []"

definition marshalErrors :: "HttpClient \<Rightarrow> string option" where
  "marshalErrors c =
     (case hc_Errors c of
        [] \<Rightarrow> None
      | [e] \<Rightarrow> Some e
      | es \<Rightarrow> Some (strings_Join es ''|''))"

text \<open>
  The body and its content type.  A body that is absent has no content type.  In the field name of the slice, the format
  \<open>%dhc\<close> prints the name as a wrong argument of the verb \<open>%d\<close>.
\<close>

definition quoted_field :: "string \<Rightarrow> string" where
  "quoted_field s = concat (map (\<lambda>ch. if ch = CHR 0x5C \<or> ch = CHR 0x22 then [CHR 0x5C, ch] else [ch]) s)"

definition slice_disposition :: "string \<Rightarrow> string" where
  "slice_disposition fieldName =
     ''form-data; name='' @ [CHR 0x22] @ ''%!d(string='' @ quoted_field fieldName @ '')hc'' @ [CHR 0x22]"

definition field_name :: "string \<Rightarrow> hvalues \<Rightarrow> string" where
  "field_name key header = (if h_Get key header = [] then ''data'' else h_Get key header)"

definition json_content :: "henv \<Rightarrow> HttpClient \<Rightarrow> hheap \<Rightarrow> string option" where
  "json_content E c h =
     (let data = hp_data h (hc_Data c); marshal = (\<lambda>v. case he_jsonMarshal E v of Inl _ \<Rightarrow> None | Inr j \<Rightarrow> Some j)
      in if hc_BounceToRawString c then Some (hc_RawString c)
         else if data \<noteq> [] then marshal (JObj data)
         else if hc_SliceData c \<noteq> [] then marshal (JArr (hc_SliceData c))
         else None)"

definition multipart_parts :: "henv \<Rightarrow> HttpClient \<Rightarrow> hheap \<Rightarrow> (string + hpart list) go" where
  "multipart_parts E c h =
     (let header = hp_vals h (hc_Header c);
          raw = (if hc_BounceToRawString c then [PField (field_name ''data_fieldname'' header) (hc_RawString c)] else []);
          files = map (\<lambda>f. PFile (hf_Fieldname f) (hf_Filename f) (hf_Data f)) (hc_FileData c)
      in go_bind (changeMapToURLValues (hp_data h (hc_Data c))) (\<lambda>formData.
         let fields = concat (map (\<lambda>(k, vs). map (PField k) vs) (he_order E formData))
         in if hc_SliceData c = [] then Inr (Inr (raw @ fields @ files))
            else (case he_jsonMarshal E (JArr (hc_SliceData c)) of
                    Inl err \<Rightarrow> Inr (Inl err)
                  | Inr j \<Rightarrow> Inr (Inr (raw @ fields @ [PJson (slice_disposition (field_name ''json_fieldname'' header)) j] @ files)))))"

definition request_body :: "henv \<Rightarrow> HttpClient \<Rightarrow> hheap \<Rightarrow> (string + (hbody \<times> string) option) go" where
  "request_body E c h =
     (let raw = (\<lambda>ct. if hc_RawString c \<noteq> [] then Some (BText (hc_RawString c), ct) else None);
          data = hp_data h (hc_Data c)
      in if hc_TargetType c = ''json''
         then Inr (Inr (map_option (\<lambda>j. (BText j, ''application/json'')) (json_content E c h)))
         else if hc_TargetType c = ''form'' \<or> hc_TargetType c = ''form-data'' \<or> hc_TargetType c = ''urlencoded''
         then (if hc_BounceToRawString c \<or> hc_SliceData c \<noteq> [] then Inr (Inr (raw ''application/x-www-form-urlencoded''))
               else go_bind (changeMapToURLValues data) (\<lambda>formData.
                    Inr (Inr (if he_Encode E formData \<noteq> [] then Some (BText (he_Encode E formData), ''application/x-www-form-urlencoded'')
                              else None))))
         else if hc_TargetType c = ''text'' then Inr (Inr (raw ''text/plain''))
         else if hc_TargetType c = ''xml'' then Inr (Inr (raw ''application/xml''))
         else if hc_TargetType c = ''multipart''
         then go_bind (multipart_parts E c h) (\<lambda>r.
              case r of
                Inl err \<Rightarrow> Inr (Inl err)
              | Inr parts \<Rightarrow>
                  Inr (Inr (if hc_BounceToRawString c \<or> data \<noteq> [] \<or> hc_SliceData c \<noteq> [] \<or> hc_FileData c \<noteq> []
                            then Some (BParts parts, ''multipart/form-data; boundary='' @ he_boundary E) else None)))
         else Inr (Inl (''TargetType '' @ [CHR 0x27] @ hc_TargetType c @ [CHR 0x27] @ '' could not be determined'')))"

text \<open>The header of the request: \<open>req.Header.Add\<close> for every value; a key \<open>Host\<close> sets the host too.\<close>

definition add_all :: "(string \<Rightarrow> string) \<Rightarrow> hvalues \<Rightarrow> hvalues \<Rightarrow> hvalues" where
  "add_all key vals m = fold (\<lambda>(k, v). v_Add (key k) v) (concat (map (\<lambda>(k, vs). map (Pair k) vs) vals)) m"

fun host_of :: "hvalues \<Rightarrow> string option \<Rightarrow> string option go" where
  "host_of [] host = Inr host"
| "host_of ((k, vs) # kvs) host =
     (if map lower k = ''host''
      then (case vs of [] \<Rightarrow> Inl IndexOutOfRange | v # _ \<Rightarrow> host_of kvs (Some v))
      else host_of kvs host)"

definition MakeRequest :: "henv \<Rightarrow> HttpClient \<Rightarrow> hheap \<Rightarrow> (string + hreq) go" where
  "MakeRequest E c h =
     (if hc_Method c = [] then Inr (Inl ''No method specified'')
      else go_bind (request_body E c h) (\<lambda>r.
        case r of
          Inl err \<Rightarrow> Inr (Inl err)
        | Inr body \<Rightarrow>
            (case he_NewRequest E (hc_Method c) (hc_Url c) of
               Some err \<Rightarrow> Inr (Inl err)
             | None \<Rightarrow>
                 go_bind (host_of (hp_vals h (hc_Header c)) None) (\<lambda>host.
                 let header = add_all CanonicalHeaderKey (hp_vals h (hc_Header c)) [];
                     header = (case body of
                                 Some (_, contentType) \<Rightarrow>
                                   if h_Get ''Content-Type'' header = [] then al_set ''Content-Type'' [contentType] header else header
                               | None \<Rightarrow> header);
                     q = add_all id (hp_vals h (hc_QueryData c)) (he_urlQuery E (hc_Url c))
                 in Inr (Inr \<lparr>hr_Method = hc_Method c, hr_Url = hc_Url c, hr_Body = map_option fst body, hr_Header = header,
                              hr_Host = host, hr_RawQuery = he_Encode E q,
                              hr_Auth = (if hc_BasicAuth c \<noteq> ([], []) then Some (hc_BasicAuth c) else None),
                              hr_Cookies = hc_Cookies c\<rparr>)))))"

section \<open>Requests and their clones\<close>

text \<open>The calls that change a request before it is sent.\<close>

datatype hop =
    OBegin string string | OClear | ODebug bool | OCurl bool | ODoNotClear bool | OHeader string string | OAppendHeader string string
  | OHeaders content | ORetry int int "int list" | OAuth string string | OCookies "string list" | OType string | OParam string string
  | OQuery content | OTimeout int | ORedirect nat | OTls nat | OProxy string | OSend content | OFile file_arg "string list"

definition hcall :: "henv \<Rightarrow> hop \<Rightarrow> HttpClient \<Rightarrow> hheap \<Rightarrow> (HttpClient \<times> hheap) go" where
  "hcall E op c h =
     (case op of
        OBegin m u \<Rightarrow> Inr (CustomMethod m u c h) | OClear \<Rightarrow> Inr (ClearHttpClient c h) | ODebug b \<Rightarrow> Inr (SetDebug b c h)
      | OCurl b \<Rightarrow> Inr (SetCurlCommand b c h) | ODoNotClear b \<Rightarrow> Inr (SetDoNotClearHttpClient b c h)
      | OHeader k v \<Rightarrow> Inr (SetHeader k v c h) | OAppendHeader k v \<Rightarrow> Inr (AppendHeader k v c h)
      | OHeaders x \<Rightarrow> Inr (SetHeaders E x c h) | ORetry n t st \<Rightarrow> Inr (Retry E n t st c h)
      | OAuth u p \<Rightarrow> Inr (SetBasicAuth u p c h) | OCookies cs \<Rightarrow> Inr (AddCookies cs c h) | OType t \<Rightarrow> Inr (hc_Type t c h)
      | OParam k v \<Rightarrow> Inr (Param k v c h) | OQuery x \<Rightarrow> Inr (hc_Query E x c h) | OTimeout t \<Rightarrow> Inr (hc_Timeout t c h)
      | ORedirect p \<Rightarrow> Inr (RedirectPolicy p c h) | OTls t \<Rightarrow> Inr (TLSClientConfig t c h) | OProxy u \<Rightarrow> Inr (Proxy E u c h)
      | OSend x \<Rightarrow> hc_Send E x c h | OFile f args \<Rightarrow> SendFile E f args c h)"

text \<open>What a request will send: its fields with the maps in place of their addresses.\<close>

definition hcore :: "HttpClient \<Rightarrow> HttpClient" where
  "hcore c = c\<lparr>hc_Header := 0, hc_Data := 0, hc_FormData := 0, hc_QueryData := 0\<rparr>"

definition hview :: "HttpClient \<Rightarrow> hheap \<Rightarrow> HttpClient \<times> hvalues \<times> (string \<times> jv) list \<times> hvalues \<times> hvalues" where
  "hview c h = (hcore c, hp_vals h (hc_Header c), hp_data h (hc_Data c), hp_vals h (hc_FormData c), hp_vals h (hc_QueryData c))"

definition vaddrs :: "HttpClient \<Rightarrow> nat list" where
  "vaddrs c = [hc_Header c, hc_FormData c, hc_QueryData c]"

definition owns :: "HttpClient \<Rightarrow> hheap \<Rightarrow> bool" where
  "owns c h \<longleftrightarrow> distinct (vaddrs c) \<and> (\<forall>a \<in> set (vaddrs c). a < hp_next h) \<and> hc_Data c < hp_next h"

definition apart :: "HttpClient \<Rightarrow> HttpClient \<Rightarrow> bool" where
  "apart c d \<longleftrightarrow> set (vaddrs c) \<inter> set (vaddrs d) = {} \<and> hc_Data c \<noteq> hc_Data d"

text \<open>A call changes maps of its own request only and gives it new maps only.\<close>

definition local_change :: "HttpClient \<Rightarrow> hheap \<Rightarrow> HttpClient \<Rightarrow> hheap \<Rightarrow> bool" where
  "local_change c h c' h' \<longleftrightarrow>
     hp_next h \<le> hp_next h' \<and> owns c' h' \<and>
     (\<forall>a \<in> set (vaddrs c'). a \<in> set (vaddrs c) \<or> hp_next h \<le> a) \<and> (hc_Data c' = hc_Data c \<or> hp_next h \<le> hc_Data c') \<and>
     (\<forall>a < hp_next h. a \<notin> set (vaddrs c) \<longrightarrow> hp_vals h' a = hp_vals h a) \<and>
     (\<forall>a < hp_next h. a \<noteq> hc_Data c \<longrightarrow> hp_data h' a = hp_data h a)"

text \<open>Calls on one request, and calls on two requests in any order: the flag says which one is meant.\<close>

fun hcalls :: "('op \<Rightarrow> HttpClient \<Rightarrow> hheap \<Rightarrow> (HttpClient \<times> hheap) go) \<Rightarrow> 'op list \<Rightarrow> HttpClient \<Rightarrow> hheap \<Rightarrow> (HttpClient \<times> hheap) go" where
  "hcalls call [] c h = Inr (c, h)"
| "hcalls call (op # ops) c h = go_bind (call op c h) (\<lambda>(c, h). hcalls call ops c h)"

fun hmixed :: "('op \<Rightarrow> HttpClient \<Rightarrow> hheap \<Rightarrow> (HttpClient \<times> hheap) go) \<Rightarrow> (bool \<times> 'op) list \<Rightarrow> HttpClient \<Rightarrow> HttpClient \<Rightarrow> hheap \<Rightarrow>
    (HttpClient \<times> HttpClient \<times> hheap) go" where
  "hmixed call [] c d h = Inr (c, d, h)"
| "hmixed call ((first, op) # ops) c d h =
     (if first then go_bind (call op c h) (\<lambda>(c, h). hmixed call ops c d h)
      else go_bind (call op d h) (\<lambda>(d, h). hmixed call ops c d h))"

definition ops_of :: "bool \<Rightarrow> (bool \<times> 'op) list \<Rightarrow> 'op list" where
  "ops_of b ops = map snd (filter (\<lambda>x. fst x = b) ops)"

lemma ops_of_simps [simp]:
  "ops_of b [] = []" "ops_of b ((b', op) # ops) = (if b' = b then op # ops_of b ops else ops_of b ops)"
  by (simp_all add: ops_of_def)

lemma apart_sym: "apart c d \<Longrightarrow> apart d c"
  by (auto simp: apart_def)

lemma local_change_frame:
  assumes l: "local_change c h c' h'" and o: "owns d h" and ap: "apart c d"
  shows "hview d h' = hview d h" "owns d h'" "apart c' d"
proof -
  have old: "\<And>a. a \<in> set (vaddrs d) \<Longrightarrow> a < hp_next h \<and> a \<notin> set (vaddrs c)" "hc_Data d < hp_next h" "hc_Data d \<noteq> hc_Data c"
    using o ap by (auto simp: owns_def apart_def)
  have "\<And>a. a \<in> set (vaddrs d) \<Longrightarrow> hp_vals h' a = hp_vals h a" "hp_data h' (hc_Data d) = hp_data h (hc_Data d)"
    using l old by (auto simp: local_change_def)
  then show "hview d h' = hview d h" by (simp add: hview_def vaddrs_def)
  show "owns d h'" using o l by (fastforce simp: owns_def local_change_def)
  have "a \<notin> set (vaddrs d)" if "a \<in> set (vaddrs c')" for a using l that old(1) unfolding local_change_def by (metis leD)
  moreover have "hc_Data c' \<noteq> hc_Data d" using l old(2,3) unfolding local_change_def by (metis leD)
  ultimately show "apart c' d" by (auto simp: apart_def)
qed

locale builder_calls =
  fixes call :: "'op \<Rightarrow> HttpClient \<Rightarrow> hheap \<Rightarrow> (HttpClient \<times> hheap) go"
  assumes call_local: "call op c h = Inr (c', h') \<Longrightarrow> owns c h \<Longrightarrow> local_change c h c' h'"
    and call_view: "call op c h = Inr (c', h') \<Longrightarrow> owns c h \<Longrightarrow> owns d g \<Longrightarrow> hview c h = hview d g \<Longrightarrow>
          \<exists>d' g'. call op d g = Inr (d', g') \<and> hview c' h' = hview d' g'"
begin

lemma step_alone:
  assumes "call op c h = Inr (c', h')" and "owns c h" and "owns d g" and "hview c h = hview d g"
  obtains d' g' where "call op d g = Inr (d', g')" "hview c' h' = hview d' g'" "owns c' h'" "owns d' g'"
proof -
  obtain d' g' where *: "call op d g = Inr (d', g')" "hview c' h' = hview d' g'" using call_view [OF assms] by blast
  moreover have "owns c' h'" "owns d' g'"
    using call_local [OF assms(1,2)] call_local [OF *(1) assms(3)] by (simp_all add: local_change_def)
  ultimately show thesis using that by blast
qed

lemma noninterference:
  assumes "hmixed call ops c d h = Inr (c', d', h')" and "owns c h" and "owns d h" and "apart c d"
    and "owns c1 h1" and "hview c h = hview c1 h1" and "owns d2 h2" and "hview d h = hview d2 h2"
  shows "(\<exists>c1' h1'. hcalls call (ops_of True ops) c1 h1 = Inr (c1', h1') \<and> hview c1' h1' = hview c' h') \<and>
    (\<exists>d2' h2'. hcalls call (ops_of False ops) d2 h2 = Inr (d2', h2') \<and> hview d2' h2' = hview d' h')"
  using assms
proof (induction ops arbitrary: c d h c1 h1 d2 h2)
  case (Cons x ops)
  obtain first op where x: "x = (first, op)" by (cases x)
  show ?case
  proof (cases first)
    case True
    then obtain ca ha where run: "call op c h = Inr (ca, ha)" and rest: "hmixed call ops ca d ha = Inr (c', d', h')"
      using Cons.prems(1) by (auto simp: x)
    obtain c1a h1a where alone: "call op c1 h1 = Inr (c1a, h1a)" "hview ca ha = hview c1a h1a" "owns ca ha" "owns c1a h1a"
      using step_alone [OF run Cons.prems(2,5,6)] .
    note frame = local_change_frame [OF call_local [OF run Cons.prems(2)] Cons.prems(3,4)]
    have "hview d ha = hview d2 h2" using frame(1) Cons.prems(8) by simp
    from Cons.IH [OF rest alone(3) frame(2,3) alone(4,2) Cons.prems(7) this] alone(1) True show ?thesis by (auto simp: x)
  next
    case False
    then obtain da ha where run: "call op d h = Inr (da, ha)" and rest: "hmixed call ops c da ha = Inr (c', d', h')"
      using Cons.prems(1) by (auto simp: x)
    obtain d2a h2a where alone: "call op d2 h2 = Inr (d2a, h2a)" "hview da ha = hview d2a h2a" "owns da ha" "owns d2a h2a"
      using step_alone [OF run Cons.prems(3,7,8)] .
    note frame = local_change_frame [OF call_local [OF run Cons.prems(3)] Cons.prems(2) apart_sym [OF Cons.prems(4)]]
    have "hview c ha = hview c1 h1" using frame(1) Cons.prems(6) by simp
    from Cons.IH [OF rest frame(2) alone(3) apart_sym [OF frame(3)] Cons.prems(5) this alone(4,2)] alone(1) False
    show ?thesis by (auto simp: x)
  qed
qed simp

end

text \<open>The calls in closed form.\<close>

lemma upd_vals_twice [simp]: "upd_vals a f (upd_vals a g h) = upd_vals a (f \<circ> g) h"
  by (simp add: upd_vals_def)

lemma upd_vals_id: "upd_vals a (\<lambda>m. m) h = h"
  by (simp add: upd_vals_def)

lemma set_headers_eq:
  "set_headers kvs c h = (c, upd_vals (hc_Header c) (fold (\<lambda>(k, v). al_set (CanonicalHeaderKey k) [v]) kvs) h)"
  unfolding set_headers_def
  by (induction kvs arbitrary: h) (auto simp: SetHeader_def upd_vals_id id_def comp_def)

definition param_opt :: "henv \<Rightarrow> string \<times> jv \<Rightarrow> hvalues \<Rightarrow> hvalues" where
  "param_opt E kv m = (case query_value E (snd kv) of None \<Rightarrow> m | Some q \<Rightarrow> v_Add (map lower (fst kv)) q m)"

lemma queryStruct_eq:
  "queryStruct E s c h =
     (case s of Inl err \<Rightarrow> (add_error err c, h) | Inr kvs \<Rightarrow> (c, upd_vals (hc_QueryData c) (fold (param_opt E) kvs) h))"
proof (cases s)
  case (Inr kvs)
  have "fold (\<lambda>(k, v) (c, h). case query_value E v of None \<Rightarrow> (c, h) | Some q \<Rightarrow> Param (map lower k) q c h) kvs (c, h) =
      (c, upd_vals (hc_QueryData c) (fold (param_opt E) kvs) h)" for h
    by (induction kvs arbitrary: h)
      (auto simp: Param_def param_opt_def upd_vals_id id_def comp_def fun_eq_iff upd_vals_def split: option.splits)
  then show ?thesis using Inr by (simp add: queryStruct_def)
qed (simp add: queryStruct_def)

lemma params_eq:
  "fold (\<lambda>(k, v) (c, h). Param k v c h) kvs (c, h) = (c, upd_vals (hc_QueryData c) (fold (\<lambda>(k, v). v_Add k v) kvs) h)"
  by (induction kvs arbitrary: h) (auto simp: Param_def upd_vals_id id_def comp_def)

text \<open>
  Most calls change fields of the request and the contents of one of its maps; \<open>call_shape c h c' h' a f b g\<close> says so.
  Clearing gives new maps.
\<close>

definition same_maps :: "HttpClient \<Rightarrow> HttpClient \<Rightarrow> bool" where
  "same_maps c c' \<longleftrightarrow> vaddrs c' = vaddrs c \<and> hc_Data c' = hc_Data c"

definition same_heap :: "hheap \<Rightarrow> hheap \<Rightarrow> bool" where
  "same_heap h h' \<longleftrightarrow> hp_vals h' = hp_vals h \<and> hp_data h' = hp_data h \<and> hp_next h' = hp_next h"

lemma local_fields: "owns c h \<Longrightarrow> same_maps c c' \<Longrightarrow> same_heap h h' \<Longrightarrow> local_change c h c' h'"
  by (simp add: local_change_def same_maps_def same_heap_def owns_def)

lemma local_vals: "owns c h \<Longrightarrow> same_maps c c' \<Longrightarrow> a \<in> set (vaddrs c) \<Longrightarrow> local_change c h c' (upd_vals a f h)"
  by (auto simp: local_change_def same_maps_def owns_def upd_vals_def)

lemma local_data: "owns c h \<Longrightarrow> same_maps c c' \<Longrightarrow> local_change c h c' (upd_data (hc_Data c) f h)"
  by (auto simp: local_change_def same_maps_def owns_def upd_data_def)

lemma local_clear: "owns c h \<Longrightarrow> ClearHttpClient c h = (c', h') \<Longrightarrow> local_change c h c' h'"
  by (auto simp: local_change_def owns_def vaddrs_def ClearHttpClient_def new_vals_def new_data_def Let_def split: if_splits)

lemma vaddrs_mem [simp]: "hc_Header c \<in> set (vaddrs c)" "hc_FormData c \<in> set (vaddrs c)" "hc_QueryData c \<in> set (vaddrs c)"
  by (simp_all add: vaddrs_def)

lemma same_maps_fields [simp]:
  "same_maps c c" "same_heap h h" "same_maps c (add_error e c')  = same_maps c c'" "same_maps c (add_file n f b c') = same_maps c c'"
  by (simp_all add: same_maps_def same_heap_def vaddrs_def add_error_def add_file_def)

lemma same_maps_upd [simp]:
  "same_maps c (c\<lparr>hc_Debug := b\<rparr>)" "same_maps c (c\<lparr>hc_CurlCommand := b\<rparr>)" "same_maps c (c\<lparr>hc_DoNotClearHttpClient := b\<rparr>)"
  "same_maps c (c\<lparr>hc_BasicAuth := up\<rparr>)" "same_maps c (c\<lparr>hc_Cookies := cs\<rparr>)" "same_maps c (c\<lparr>hc_ForceType := t\<rparr>)"
  "same_maps c (c\<lparr>hc_SliceData := vs\<rparr>)" "same_maps c (c'\<lparr>hc_RawString := t\<rparr>) = same_maps c c'"
  "same_maps c (c'\<lparr>hc_BounceToRawString := b\<rparr>) = same_maps c c'" "same_maps c (c'\<lparr>hc_TargetType := t\<rparr>) = same_maps c c'"
  "same_maps c (c'\<lparr>hc_Retryable := r\<rparr>) = same_maps c c'"
  by (simp_all add: same_maps_def vaddrs_def)

lemma same_maps_fold [simp]: "same_maps c (fold (\<lambda>x. add_error (e x)) xs c') = same_maps c c'"
  by (induction xs arbitrary: c') simp_all

lemma local_SendString: "owns c h \<Longrightarrow> SendString E s c h = (c', h') \<Longrightarrow> local_change c h c' h'"
  by (auto simp: SendString_def data_set_def SendSlice_def Let_def local_fields local_data split: if_splits option.splits jv.splits sum.splits)

lemma local_Send: "hc_Send E x c h = Inr (c', h') \<Longrightarrow> owns c h \<Longrightarrow> local_change c h c' h'"
  by (induction E x c h rule: hc_Send.induct)
    (auto simp: SendStruct_def SendSlice_def data_set_def local_fields local_data local_SendString split: sum.splits)

text \<open>Sending a file adds an error or a file; which one depends on nothing but the arguments and the files that are there.\<close>

lemma SendFile_ptr [simp]: "SendFile E (FPtr f) args c h = SendFile E f (take 2 args) c h"
  by (simp add: SendFile.simps [of E "FPtr f"])

lemma SendFile_uniform:
  assumes "SendFile E f args c h = Inr (c', h')"
  shows "h' = h \<and>
    ((\<exists>e. c' = add_error e c \<and> (\<forall>d g. hc_FileData d = hc_FileData c \<longrightarrow> SendFile E f args d g = Inr (add_error e d, g))) \<or>
     (\<exists>n l b. c' = add_file n l b c \<and> (\<forall>d g. hc_FileData d = hc_FileData c \<longrightarrow> SendFile E f args d g = Inr (add_file n l b d, g))))"
  using assms
proof (induction f arbitrary: args)
  case (FPath p) then show ?case
    by (cases "he_Abs E p"; cases "he_ReadFile E p") (auto simp: SendFile.simps [of E "FPath p"] Let_def, blast+)
next
  case (FBytes bs) then show ?case
    by (auto simp: SendFile.simps [of E "FBytes bs"] Let_def) blast+
next
  case (FOsFile n) then show ?case
    by (cases "he_ReadFile E n") (auto simp: SendFile.simps [of E "FOsFile n"] Let_def, blast+)
next
  case FOther then show ?case
    by (auto simp: SendFile.simps [of E FOther] Let_def)
next
  case (FPtr f) then show ?case using FPtr.IH [of "take 2 args"] by simp
qed (auto simp: SendFile.simps [of E FSlice] SendFile.simps [of E FNil] Let_def)

lemma local_SendFile: "SendFile E f args c h = Inr (c', h') \<Longrightarrow> owns c h \<Longrightarrow> local_change c h c' h'"
  by (drule SendFile_uniform) (auto intro!: local_fields)

lemma local_begin: "owns c h \<Longrightarrow> CustomMethod m u c h = (c', h') \<Longrightarrow> local_change c h c' h'"
proof -
  assume "owns c h" "CustomMethod m u c h = (c', h')"
  then obtain ca ha where "ClearHttpClient c h = (ca, ha)" "c' = ca\<lparr>hc_Method := m, hc_Url := u, hc_Errors := []\<rparr>" "h' = ha"
    by (auto simp: CustomMethod_def hc_begin_def split: prod.splits)
  moreover have "local_change c h ca ha" using \<open>owns c h\<close> calculation(1) by (rule local_clear)
  ultimately show ?thesis by (simp add: local_change_def owns_def vaddrs_def)
qed

lemma local_hcall:
  assumes "hcall E op c h = Inr (c', h')" and "owns c h"
  shows "local_change c h c' h'"
proof (cases op)
  case (OQuery x) then show ?thesis using assms
    by (auto simp: hcall_def hc_Query_def queryString_def queryStruct_eq params_eq local_fields local_vals
        split: content.splits sum.splits)
next
  case (OHeaders x) then show ?thesis using assms
    by (auto simp: hcall_def SetHeaders_def setJSONHeaders_def setStructHeaders_def set_headers_eq local_fields local_vals
        split: content.splits sum.splits)
next
  case (OSend x) then show ?thesis using assms by (auto simp: hcall_def intro: local_Send)
next
  case (OFile f args) then show ?thesis using assms by (auto simp: hcall_def intro: local_SendFile)
next
  case (OBegin m u) then show ?thesis using assms by (auto simp: hcall_def intro: local_begin)
next
  case OClear then show ?thesis using assms by (auto simp: hcall_def intro: local_clear)
next
  case (ORetry n t st) then show ?thesis using assms by (auto simp: hcall_def Retry_def Let_def intro!: local_fields)
next
  case (OProxy u) then show ?thesis using assms
    by (auto simp: hcall_def Proxy_def intro!: local_fields split: option.splits) (simp_all add: same_heap_def)
qed (use assms in \<open>auto simp: hcall_def SetDebug_def SetCurlCommand_def SetDoNotClearHttpClient_def SetHeader_def AppendHeader_def
      SetBasicAuth_def AddCookies_def hc_Type_def Param_def hc_Timeout_def RedirectPolicy_def TLSClientConfig_def
      intro!: local_fields local_vals split: if_splits\<close>, simp_all add: same_heap_def)

text \<open>The effect of the parts of a call on the view.\<close>

lemma hcore_fields [simp]:
  "hc_Url (hcore c) = hc_Url c" "hc_Method (hcore c) = hc_Method c" "hc_TargetType (hcore c) = hc_TargetType c"
  "hc_ForceType (hcore c) = hc_ForceType c" "hc_SliceData (hcore c) = hc_SliceData c" "hc_FileData (hcore c) = hc_FileData c"
  "hc_BounceToRawString (hcore c) = hc_BounceToRawString c" "hc_RawString (hcore c) = hc_RawString c"
  "hc_Cookies (hcore c) = hc_Cookies c" "hc_Errors (hcore c) = hc_Errors c" "hc_BasicAuth (hcore c) = hc_BasicAuth c"
  "hc_Retryable (hcore c) = hc_Retryable c" "hc_DoNotClearHttpClient (hcore c) = hc_DoNotClearHttpClient c"
  "hc_Client (hcore c) = hc_Client c" "hc_Transport (hcore c) = hc_Transport c"
  by (simp_all add: hcore_def)

lemma hcore_upd:
  "hcore (c\<lparr>hc_Debug := b\<rparr>) = (hcore c)\<lparr>hc_Debug := b\<rparr>"
  "hcore (c\<lparr>hc_CurlCommand := b\<rparr>) = (hcore c)\<lparr>hc_CurlCommand := b\<rparr>"
  "hcore (c\<lparr>hc_DoNotClearHttpClient := b\<rparr>) = (hcore c)\<lparr>hc_DoNotClearHttpClient := b\<rparr>"
  "hcore (c\<lparr>hc_BasicAuth := up\<rparr>) = (hcore c)\<lparr>hc_BasicAuth := up\<rparr>"
  "hcore (c\<lparr>hc_Cookies := cs\<rparr>) = (hcore c)\<lparr>hc_Cookies := cs\<rparr>"
  "hcore (c\<lparr>hc_ForceType := t\<rparr>) = (hcore c)\<lparr>hc_ForceType := t\<rparr>"
  "hcore (c\<lparr>hc_TargetType := t\<rparr>) = (hcore c)\<lparr>hc_TargetType := t\<rparr>"
  "hcore (c\<lparr>hc_SliceData := vs\<rparr>) = (hcore c)\<lparr>hc_SliceData := vs\<rparr>"
  "hcore (c\<lparr>hc_RawString := t\<rparr>) = (hcore c)\<lparr>hc_RawString := t\<rparr>"
  "hcore (c\<lparr>hc_BounceToRawString := b\<rparr>) = (hcore c)\<lparr>hc_BounceToRawString := b\<rparr>"
  "hcore (c\<lparr>hc_Retryable := r\<rparr>) = (hcore c)\<lparr>hc_Retryable := r\<rparr>"
  "hcore (c\<lparr>hc_Method := m, hc_Url := u, hc_Errors := es\<rparr>) = (hcore c)\<lparr>hc_Method := m, hc_Url := u, hc_Errors := es\<rparr>"
  "hcore (add_error e c) = add_error e (hcore c)"
  "hcore (add_file n f bs c) = add_file n f bs (hcore c)"
  by (simp_all add: hcore_def add_error_def add_file_def)

lemma maps_of_error [simp]:
  "hc_Header (add_error e c) = hc_Header c" "hc_Data (add_error e c) = hc_Data c"
  "hc_FormData (add_error e c) = hc_FormData c" "hc_QueryData (add_error e c) = hc_QueryData c"
  "hc_Header (add_file n f bs c) = hc_Header c" "hc_Data (add_file n f bs c) = hc_Data c"
  "hc_FormData (add_file n f bs c) = hc_FormData c" "hc_QueryData (add_file n f bs c) = hc_QueryData c"
  by (simp_all add: add_error_def add_file_def)

lemma hview_fields:
  assumes "hview c h = hview d g"
  shows "hc_Url d = hc_Url c" "hc_Method d = hc_Method c" "hc_TargetType d = hc_TargetType c" "hc_ForceType d = hc_ForceType c"
    "hc_SliceData d = hc_SliceData c" "hc_FileData d = hc_FileData c" "hc_BounceToRawString d = hc_BounceToRawString c"
    "hc_RawString d = hc_RawString c" "hc_Cookies d = hc_Cookies c" "hc_Errors d = hc_Errors c" "hc_BasicAuth d = hc_BasicAuth c"
    "hc_Retryable d = hc_Retryable c" "hc_DoNotClearHttpClient d = hc_DoNotClearHttpClient c"
    "hp_vals g (hc_Header d) = hp_vals h (hc_Header c)" "hp_data g (hc_Data d) = hp_data h (hc_Data c)"
    "hp_vals g (hc_FormData d) = hp_vals h (hc_FormData c)" "hp_vals g (hc_QueryData d) = hp_vals h (hc_QueryData c)"
proof -
  have eq: "hcore d = hcore c" using assms by (simp add: hview_def)
  show "hc_Url d = hc_Url c" "hc_Method d = hc_Method c" "hc_TargetType d = hc_TargetType c" "hc_ForceType d = hc_ForceType c"
    "hc_SliceData d = hc_SliceData c" "hc_FileData d = hc_FileData c" "hc_BounceToRawString d = hc_BounceToRawString c"
    "hc_RawString d = hc_RawString c" "hc_Cookies d = hc_Cookies c" "hc_Errors d = hc_Errors c" "hc_BasicAuth d = hc_BasicAuth c"
    "hc_Retryable d = hc_Retryable c" "hc_DoNotClearHttpClient d = hc_DoNotClearHttpClient c"
    using eq by (metis hcore_fields)+
qed (use assms in \<open>simp_all add: hview_def\<close>)

lemma hview_cong:
  assumes "hview c h = hview d g"
  shows "hview (c\<lparr>hc_Debug := b\<rparr>) h = hview (d\<lparr>hc_Debug := b\<rparr>) g"
    "hview (c\<lparr>hc_CurlCommand := b\<rparr>) h = hview (d\<lparr>hc_CurlCommand := b\<rparr>) g"
    "hview (c\<lparr>hc_DoNotClearHttpClient := b\<rparr>) h = hview (d\<lparr>hc_DoNotClearHttpClient := b\<rparr>) g"
    "hview (c\<lparr>hc_BasicAuth := up\<rparr>) h = hview (d\<lparr>hc_BasicAuth := up\<rparr>) g"
    "hview (c\<lparr>hc_Cookies := cs\<rparr>) h = hview (d\<lparr>hc_Cookies := cs\<rparr>) g"
    "hview (c\<lparr>hc_ForceType := t\<rparr>) h = hview (d\<lparr>hc_ForceType := t\<rparr>) g"
    "hview (c\<lparr>hc_TargetType := t\<rparr>) h = hview (d\<lparr>hc_TargetType := t\<rparr>) g"
    "hview (c\<lparr>hc_SliceData := vs\<rparr>) h = hview (d\<lparr>hc_SliceData := vs\<rparr>) g"
    "hview (c\<lparr>hc_RawString := t\<rparr>) h = hview (d\<lparr>hc_RawString := t\<rparr>) g"
    "hview (c\<lparr>hc_BounceToRawString := b\<rparr>) h = hview (d\<lparr>hc_BounceToRawString := b\<rparr>) g"
    "hview (c\<lparr>hc_Retryable := r\<rparr>) h = hview (d\<lparr>hc_Retryable := r\<rparr>) g"
    "hview (c\<lparr>hc_Method := m, hc_Url := u, hc_Errors := es\<rparr>) h = hview (d\<lparr>hc_Method := m, hc_Url := u, hc_Errors := es\<rparr>) g"
    "hview (add_error e c) h = hview (add_error e d) g"
    "hview (add_file n f bs c) h = hview (add_file n f bs d) g"
  using assms by (simp_all add: hview_def hcore_upd)

lemma hview_errors:
  "hview c h = hview d g \<Longrightarrow> hview (fold (\<lambda>x. add_error (e x)) xs c) h = hview (fold (\<lambda>x. add_error (e x)) xs d) g"
proof (induction xs arbitrary: c d)
  case (Cons x xs)
  show ?case using Cons.IH [OF hview_cong(13) [OF Cons.prems]] by simp
qed simp

lemma hview_maps:
  assumes "hview c h = hview d g" and "owns c h" and "owns d g"
  shows "hview c (upd_vals (hc_Header c) f h) = hview d (upd_vals (hc_Header d) f g)"
    "hview c (upd_vals (hc_QueryData c) f h) = hview d (upd_vals (hc_QueryData d) f g)"
    "hview c (upd_data (hc_Data c) f' h) = hview d (upd_data (hc_Data d) f' g)"
  using assms by (simp_all add: hview_def upd_vals_def upd_data_def owns_def vaddrs_def)

lemma hview_heap [simp]:
  "hview c (h\<lparr>hp_clients := x\<rparr>) = hview c h" "hview c (h\<lparr>hp_trans := y\<rparr>) = hview c h"
  by (simp_all add: hview_def)

lemma hcore_clear:
  "hcore (c\<lparr>hc_Url := [], hc_Method := [], hc_Header := a1, hc_Data := a2, hc_SliceData := [], hc_FormData := a3, hc_QueryData := a4,
       hc_FileData := [], hc_BounceToRawString := False, hc_RawString := [], hc_ForceType := [], hc_TargetType := t,
       hc_Cookies := [], hc_Errors := []\<rparr>) =
   (hcore c)\<lparr>hc_Url := [], hc_Method := [], hc_SliceData := [], hc_FileData := [], hc_BounceToRawString := False,
       hc_RawString := [], hc_ForceType := [], hc_TargetType := t, hc_Cookies := [], hc_Errors := []\<rparr>"
  by (simp add: hcore_def)

lemma hview_clear:
  assumes "hview c h = hview d g" and "ClearHttpClient c h = (c', h')" and "ClearHttpClient d g = (d', g')"
  shows "hview c' h' = hview d' g'"
proof (cases "hc_DoNotClearHttpClient c")
  case True
  then show ?thesis using assms hview_fields(13) [OF assms(1)] by (simp add: ClearHttpClient_def)
next
  case False
  have "hcore d = hcore c" using assms(1) by (simp add: hview_def)
  then show ?thesis using assms False hview_fields(13) [OF assms(1)]
    by (auto simp: ClearHttpClient_def hview_def hcore_clear new_vals_def new_data_def Let_def)
qed

lemma view_SendString:
  assumes v: "hview c h = hview d g" and o: "owns c h" "owns d g"
    and r: "SendString E s c h = (c', h')" "SendString E s d g = (d', g')"
  shows "hview c' h' = hview d' g'"
proof -
  note f = hview_fields [OF v]
  define inner where "inner c h =
        (if hc_BounceToRawString c then (c, h)
         else (case he_jsonDecode E s of
                 Some (JObj kvs) \<Rightarrow> data_set kvs c h
               | Some (JArr vs) \<Rightarrow> SendSlice vs c h
               | Some _ \<Rightarrow> (c\<lparr>hc_BounceToRawString := True\<rparr>, h)
               | None \<Rightarrow>
                   (case he_ParseQuery E s of
                      Inr form \<Rightarrow>
                        (c\<lparr>hc_TargetType := ''form''\<rparr>,
                         upd_data (hc_Data c) (fold (\<lambda>(k, v). form_add k v) (concat (map (\<lambda>(k, vs). map (Pair k) vs) form))) h)
                    | Inl _ \<Rightarrow> (c\<lparr>hc_BounceToRawString := True\<rparr>, h))))" for c h
  obtain ca ha da ga where i: "inner c h = (ca, ha)" "inner d g = (da, ga)" by (meson surj_pair)
  have "hview ca ha = hview da ga"
  proof (cases "hc_BounceToRawString c")
    case False
    have form: "hview (c\<lparr>hc_TargetType := t\<rparr>) (upd_data (hc_Data c) u h) = hview (d\<lparr>hc_TargetType := t\<rparr>) (upd_data (hc_Data d) u g)" for t u
      using hview_cong(7) [OF hview_maps(3) [OF v o]] .
    show ?thesis using i False f(5,7) v hview_maps(3) [OF v o] hview_cong(10) [OF v] hview_cong(8) [OF v] form
      by (auto simp: inner_def data_set_def SendSlice_def split: option.splits jv.splits sum.splits)
  qed (use i v f in \<open>auto simp: inner_def\<close>)
  note inner_view = this
  have "c' = ca\<lparr>hc_RawString := hc_RawString ca @ s\<rparr>" "h' = ha" "d' = da\<lparr>hc_RawString := hc_RawString ca @ s\<rparr>" "g' = ga"
    using r i hview_fields(8) [OF inner_view] by (auto simp: SendString_def Let_def inner_def [symmetric])
  then show ?thesis using hview_cong(9) [OF inner_view] by simp
qed

lemma view_Send:
  "hc_Send E x c h = Inr (c', h') \<Longrightarrow> hview c h = hview d g \<Longrightarrow> owns c h \<Longrightarrow> owns d g \<Longrightarrow>
   \<exists>d' g'. hc_Send E x d g = Inr (d', g') \<and> hview c' h' = hview d' g'"
proof (induction E x c h arbitrary: c' h' rule: hc_Send.induct)
  case (1 E s c h) then show ?case using view_SendString [OF 1(2-4)] by (metis hc_Send.simps(1) prod.collapse sum.inject(2))
next
  case (2 E s c h) then show ?case using view_SendString [OF 2(2-4)] by (metis hc_Send.simps(2) prod.collapse sum.inject(2))
next
  case (3 E s c h) then show ?case using hview_cong(13) [OF 3(2)] hview_maps(3) [OF 3(2-4)]
    by (auto simp: SendStruct_def data_set_def split: sum.splits)
next
  case (4 E vs c h) then show ?case using hview_cong(8) [OF 4(2)] hview_fields(5) [OF 4(2)] by (auto simp: SendSlice_def)
next
  case (7 E s c h) then show ?case using hview_cong(13) [OF 7(2)] hview_maps(3) [OF 7(2-4)]
    by (auto simp: SendStruct_def data_set_def split: sum.splits)
qed auto

lemma view_SendFile:
  assumes "SendFile E f args c h = Inr (c', h')" and "hview c h = hview d g"
  shows "\<exists>d' g'. SendFile E f args d g = Inr (d', g') \<and> hview c' h' = hview d' g'"
  using SendFile_uniform [OF assms(1)] hview_fields(6) [OF assms(2)] hview_cong(13) [OF assms(2)] hview_cong(14) [OF assms(2)]
  by auto

lemma view_hcall:
  assumes r: "hcall E op c h = Inr (c', h')" and o: "owns c h" "owns d g" and v: "hview c h = hview d g"
  shows "\<exists>d' g'. hcall E op d g = Inr (d', g') \<and> hview c' h' = hview d' g'"
proof -
  note cong = hview_cong [OF v] and maps = hview_maps [OF v o] and fields = hview_fields [OF v]
  show ?thesis
  proof (cases op)
    case (OBegin m u)
    obtain d1 g1 where d1: "ClearHttpClient d g = (d1, g1)" by fastforce
    obtain c1 h1 where c1: "ClearHttpClient c h = (c1, h1)" by fastforce
    from hview_cong(12) [OF hview_clear [OF v c1 d1]] r OBegin c1 d1 show ?thesis
      by (auto simp: hcall_def CustomMethod_def hc_begin_def)
  next
    case OClear
    obtain d1 g1 where "ClearHttpClient d g = (d1, g1)" by fastforce
    with hview_clear [OF v _ this] r OClear show ?thesis by (auto simp: hcall_def)
  next
    case (OSend x) then show ?thesis using r view_Send [OF _ v o] by (simp add: hcall_def)
  next
    case (OFile f args) then show ?thesis using r view_SendFile [OF _ v] by (simp add: hcall_def)
  next
    case (OQuery x) then show ?thesis using r v cong(13) maps(2)
      by (auto simp: hcall_def hc_Query_def queryString_def queryStruct_eq params_eq split: content.splits sum.splits)
  next
    case (OHeaders x) then show ?thesis using r v cong(13) maps(1)
      by (auto simp: hcall_def SetHeaders_def setJSONHeaders_def setStructHeaders_def set_headers_eq split: content.splits sum.splits)
  next
    case (ORetry n t st) then show ?thesis using r hview_cong(11) [OF hview_errors [OF v]] by (auto simp: hcall_def Retry_def Let_def)
  next
    case (OProxy u) then show ?thesis using r v cong(13)
      by (auto simp: hcall_def Proxy_def split: option.splits)
  next
    case (OTimeout t) then show ?thesis using r v by (auto simp: hcall_def hc_Timeout_def)
  next
    case (ORedirect p) then show ?thesis using r v by (auto simp: hcall_def RedirectPolicy_def)
  next
    case (OTls t) then show ?thesis using r v by (auto simp: hcall_def TLSClientConfig_def)
  next
    case (OType t) then show ?thesis using r cong(6,13) by (auto simp: hcall_def hc_Type_def split: if_splits)
  next
    case (OCookies cs) then show ?thesis using r cong(5) fields(9) by (auto simp: hcall_def AddCookies_def)
  next
    case (ODebug b) then show ?thesis using r cong(1) by (auto simp: hcall_def SetDebug_def)
  next
    case (OCurl b) then show ?thesis using r cong(2) by (auto simp: hcall_def SetCurlCommand_def)
  next
    case (ODoNotClear b) then show ?thesis using r cong(3) by (auto simp: hcall_def SetDoNotClearHttpClient_def)
  next
    case (OAuth u p) then show ?thesis using r cong(4) by (auto simp: hcall_def SetBasicAuth_def)
  next
    case (OHeader k x) then show ?thesis using r maps(1) by (auto simp: hcall_def SetHeader_def)
  next
    case (OAppendHeader k x) then show ?thesis using r maps(1) by (auto simp: hcall_def AppendHeader_def)
  next
    case (OParam k x) then show ?thesis using r maps(2) by (auto simp: hcall_def Param_def)
  qed
qed

interpretation hc: builder_calls "hcall E" for E
  by unfold_locales (auto intro: local_hcall view_hcall)

lemma owns_New: "hc_New b h = (c, h') \<Longrightarrow> owns c h'"
  by (auto simp: hc_New_def owns_def vaddrs_def new_vals_def new_data_def new_client_def new_trans_def Let_def)

lemma owns_hcalls: "hcalls (hcall E) ops c h = Inr (c', h') \<Longrightarrow> owns c h \<Longrightarrow> owns c' h'"
  by (induction ops arbitrary: c h) (auto dest!: local_hcall simp: local_change_def)

lemma Clone_apart:
  assumes "hc_Clone c h = (d, h')" and "owns c h"
  shows "owns c h'" "owns d h'" "apart c d" "hview c h' = hview c h"
    "hview d h' = ((hcore c)\<lparr>hc_DoNotClearHttpClient := True, hc_isClone := True\<rparr>, snd (hview c h))"
  using assms
  by (auto simp: hc_Clone_def cloneMapArray_def shallowCopyData_def owns_def vaddrs_def apart_def hview_def hcore_def new_vals_def new_data_def Let_def)

text \<open>The request that is built depends on the view only.\<close>

lemma MakeRequest_view:
  assumes "hview c h = hview d g"
  shows "MakeRequest E c h = MakeRequest E d g"
proof -
  note f = hview_fields [OF assms]
  have j: "json_content E d g = json_content E c h" by (simp only: json_content_def f)
  have m: "multipart_parts E d g = multipart_parts E c h" by (simp only: multipart_parts_def f)
  have r: "request_body E d g = request_body E c h" by (simp only: request_body_def f j m)
  show ?thesis by (simp only: MakeRequest_def f r)
qed

text \<open>
  C20. A request and its clone do not interfere.  The clone of a request built by any calls has the same contents, and
  however calls on the two alternate afterwards, each of them ends up with the contents, and so with the http request,
  that its own calls alone give it.  The underlying client and transport are shared: a time-out or a redirect policy set on
  the clone is that of the request too.  (The comment of \<open>Clone\<close> says such a clone gets a new client; the code never makes one,
  although it marks clones in \<open>isClone\<close>.)
\<close>

theorem clone_isolation:
  assumes "hcalls (hcall E) before (fst (hc_New debug start)) (snd (hc_New debug start)) = Inr (c, h)"
    and "hc_Clone c h = (d, h0)"
  shows "hview d h0 = ((hcore c)\<lparr>hc_DoNotClearHttpClient := True, hc_isClone := True\<rparr>, snd (hview c h)) \<and>
    (\<forall>ops c' d' h'. hmixed (hcall E) ops c d h0 = Inr (c', d', h') \<longrightarrow>
      (\<exists>c1 h1. hcalls (hcall E) (ops_of True ops) c h = Inr (c1, h1) \<and> hview c' h' = hview c1 h1 \<and>
               MakeRequest E c' h' = MakeRequest E c1 h1) \<and>
      (\<exists>d2 h2. hcalls (hcall E) (ops_of False ops) d h0 = Inr (d2, h2) \<and> hview d' h' = hview d2 h2 \<and>
               MakeRequest E d' h' = MakeRequest E d2 h2)) \<and>
    (\<forall>t. hp_clients (snd (hc_Timeout t d h0)) (hc_Client c) = (hp_clients h0 (hc_Client c))\<lparr>cl_Timeout := t\<rparr>) \<and>
    (\<forall>p. hp_clients (snd (RedirectPolicy p d h0)) (hc_Client c) = (hp_clients h0 (hc_Client c))\<lparr>cl_CheckRedirect := Some p\<rparr>)"
proof (intro conjI allI impI)
  have o: "owns c h" using owns_hcalls [OF assms(1)] owns_New by (metis prod.collapse)
  note cl = Clone_apart [OF assms(2) o]
  show "hview d h0 = ((hcore c)\<lparr>hc_DoNotClearHttpClient := True, hc_isClone := True\<rparr>, snd (hview c h))" by (rule cl(5))
  fix ops c' d' h'
  assume "hmixed (hcall E) ops c d h0 = Inr (c', d', h')"
  note ni = hc.noninterference [OF this cl(1,2,3) o cl(4) cl(2) refl]
  show "\<exists>c1 h1. hcalls (hcall E) (ops_of True ops) c h = Inr (c1, h1) \<and> hview c' h' = hview c1 h1 \<and>
      MakeRequest E c' h' = MakeRequest E c1 h1" using ni [THEN conjunct1] MakeRequest_view by metis
  show "\<exists>d2 h2. hcalls (hcall E) (ops_of False ops) d h0 = Inr (d2, h2) \<and> hview d' h' = hview d2 h2 \<and>
      MakeRequest E d' h' = MakeRequest E d2 h2" using ni [THEN conjunct2] MakeRequest_view by metis
next
  fix t
  have "hc_Client d = hc_Client c" using assms(2) by (auto simp: hc_Clone_def Let_def split: prod.splits)
  then show "hp_clients (snd (hc_Timeout t d h0)) (hc_Client c) = (hp_clients h0 (hc_Client c))\<lparr>cl_Timeout := t\<rparr>"
    by (simp add: hc_Timeout_def)
next
  fix p
  have "hc_Client d = hc_Client c" using assms(2) by (auto simp: hc_Clone_def Let_def split: prod.splits)
  then show "hp_clients (snd (RedirectPolicy p d h0)) (hc_Client c) = (hp_clients h0 (hc_Client c))\<lparr>cl_CheckRedirect := Some p\<rparr>"
    by (simp add: RedirectPolicy_def)
qed

text \<open>An environment without json, and an empty heap.\<close>

definition ex_henv :: henv where
  "ex_henv = \<lparr>he_jsonStrings = (\<lambda>s. Inl ''error''), he_jsonDecode = (\<lambda>s. None), he_jsonMarshal = (\<lambda>v. Inr ''json''),
     he_ParseQuery = (\<lambda>s. Inr [(s, [s])]), he_Encode = (\<lambda>vs. concat (map fst vs)), he_StatusText = (\<lambda>s. ''status''),
     he_ParseUrl = (\<lambda>s. None), he_urlQuery = (\<lambda>s. []), he_urlPath = Some, he_NewRequest = (\<lambda>m u. None), he_Abs = Inr,
     he_Base = id, he_ReadFile = (\<lambda>s. Inl ''no such file''), he_boundary = ''b'', he_order = id\<rparr>"

definition ex_gl :: gl_state where
  "ex_gl = \<lparr>gl_m = NewShard 1, gl_heap = (\<lambda>a. []), gl_next = 0, gl_log = []\<rparr>"

definition ex_hheap :: hheap where
  "ex_hheap = \<lparr>hp_vals = (\<lambda>a. []), hp_data = (\<lambda>a. []),
     hp_clients = (\<lambda>a. \<lparr>cl_Timeout = 0, cl_CheckRedirect = None, cl_Transport = None\<rparr>),
     hp_trans = (\<lambda>a. \<lparr>tr_DisableKeepAlives = True, tr_Proxy = None, tr_TLSClientConfig = None\<rparr>), hp_next = 6, hp_sent = [], hp_gl = ex_gl\<rparr>"

theorem clone_isolation_witness:
  "\<exists>c h d h0. hcalls (hcall ex_henv) [OBegin ''GET'' ''/x'', OParam ''a'' ''b''] (fst (hc_New False ex_hheap)) (snd (hc_New False ex_hheap)) = Inr (c, h) \<and>
     hc_Clone c h = (d, h0) \<and> hview d h0 = ((hcore c)\<lparr>hc_DoNotClearHttpClient := True, hc_isClone := True\<rparr>, snd (hview c h))"
proof -
  obtain c h where c: "hcalls (hcall ex_henv) [OBegin ''GET'' ''/x'', OParam ''a'' ''b''] (fst (hc_New False ex_hheap)) (snd (hc_New False ex_hheap)) =
      Inr (c, h)" by (simp add: hcall_def Param_def case_prod_beta)
  obtain d h0 where "hc_Clone c h = (d, h0)" by fastforce
  with clone_isolation [OF c this] c show ?thesis by blast
qed

end
