(* ===== verification/DHttpSend.thy ===== *)
theory DHttpSend
  imports DHttp
begin

text \<open>
  The second half of \<open>net/dhttp/client.go\<close>: sending a request with its trace and token headers, counting of calls, and
  the retry loop of \<open>EndBytes\<close>.
\<close>

section \<open>Sending\<close>

text \<open>
  What a call finds outside: the goroutine, the time and duration of the attempt with number \<open>k\<close>, and the answer of
  \<open>Client.Do\<close> with what reading the response body gives.  \<open>hw_Sprint\<close> is what \<open>%s\<close> prints.
\<close>

record hworld =
  hw_goid :: int
  hw_Sprint :: "gany \<Rightarrow> string"
  hw_now :: "nat \<Rightarrow> int"
  hw_cost :: "nat \<Rightarrow> int64"
  hw_DisableTransportSwap :: bool
  hw_Do :: "nat \<Rightarrow> hclient \<Rightarrow> hreq \<Rightarrow> string + hresp \<times> (string + byte list)"

definition as_string :: "gany \<Rightarrow> string go" where
  "as_string v = (case v of AStr s \<Rightarrow> Inr s | _ \<Rightarrow> Inl TypeAssertion)"

definition string_bytes :: "string \<Rightarrow> byte list" where
  "string_bytes s = map (\<lambda>c. of_char c) s"

text \<open>The type of the body: a forced type that is in the list, or the one of the header \<open>Content-Type\<close>.\<close>

definition target_type :: "HttpClient \<Rightarrow> hheap \<Rightarrow> string" where
  "target_type c h =
     (if hc_ForceType c \<in> {''json'', ''form'', ''xml'', ''text'', ''multipart''} then hc_ForceType c
      else (let contentType = h_Get ''Content-Type'' (hp_vals h (hc_Header c))
            in fold (\<lambda>(k, v) t. if contentType = v then k else t) Types (hc_TargetType c)))"

definition trace_header :: "hworld \<Rightarrow> HttpClient \<Rightarrow> hheap \<Rightarrow> (HttpClient \<times> hheap) go" where
  "trace_header W c h =
     go_bind (gl_Get (hw_goid W) (AStr ''glLogId'') (hp_gl h)) (\<lambda>r.
     case r of
       None \<Rightarrow> Inr (c, h)
     | Some v \<Rightarrow> go_bind (as_string v) (\<lambda>traceId. Inr (SetHeader ''trace_id'' traceId c h)))"

definition gd_token :: "henv \<Rightarrow> hworld \<Rightarrow> nat \<Rightarrow> string \<Rightarrow> gany \<Rightarrow> gany \<Rightarrow> string go" where
  "gd_token E W k url server key =
     (case he_urlPath E url of
        None \<Rightarrow> Inl NilDeref
      | Some path \<Rightarrow>
          go_bind (as_string key) (\<lambda>key.
          GdEncode (string_bytes (hw_Sprint W server @ ''__'' @ path @ ''__'' @ Itoa (hw_now W k))) (string_bytes key)))"

definition token_header :: "henv \<Rightarrow> hworld \<Rightarrow> nat \<Rightarrow> HttpClient \<Rightarrow> hheap \<Rightarrow> (HttpClient \<times> hheap) go" where
  "token_header E W k c h =
     go_bind (gl_Get (hw_goid W) (AStr ''glServer'') (hp_gl h)) (\<lambda>srv.
     go_bind (gl_Get (hw_goid W) (AStr ''glSecretKey'') (hp_gl h)) (\<lambda>sec.
     case (srv, sec) of
       (Some server, Some key) \<Rightarrow>
         go_bind (gd_token E W k (hc_Url c) server key) (\<lambda>gdToken. Inr (SetHeader ''gd_token'' gdToken c h))
     | _ \<Rightarrow> Inr (c, h)))"

text \<open>The deferred function of \<open>getResponseBytes\<close>.\<close>

definition count_call :: "hworld \<Rightarrow> nat \<Rightarrow> string \<Rightarrow> bool \<Rightarrow> gl_state \<Rightarrow> gl_state go" where
  "count_call W k url failed gl =
     go_bind (gl_Incr (hw_goid W) (AStr (''http_call_'' @ url)) 1 gl) (\<lambda>(_, gl).
     go_bind (gl_IncrCost (hw_goid W) (AStr (''http_cost_'' @ url)) (hw_cost W k) gl) (\<lambda>(_, gl).
     if failed then go_bind (gl_Incr (hw_goid W) (AStr (''http_call_fail_'' @ url)) 1 gl) (\<lambda>(_, gl). Inr gl)
     else Inr gl))"

definition prepare :: "henv \<Rightarrow> hworld \<Rightarrow> nat \<Rightarrow> HttpClient \<Rightarrow> hheap \<Rightarrow> (HttpClient \<times> hheap) go" where
  "prepare E W k c h =
     go_bind (trace_header W (c\<lparr>hc_TargetType := target_type c h\<rparr>) h) (\<lambda>(c, h).
     go_bind (token_header E W k c h) (\<lambda>(c, h).
     Inr (if hp_data h (hc_Data c) \<noteq> [] \<and> hc_SliceData c \<noteq> [] then c\<lparr>hc_BounceToRawString := True\<rparr> else c, h)))"

definition set_transport :: "hworld \<Rightarrow> HttpClient \<Rightarrow> hheap \<Rightarrow> hclient" where
  "set_transport W c h =
     (let client = hp_clients h (hc_Client c)
      in if hw_DisableTransportSwap W then client else client\<lparr>cl_Transport := Some (hc_Transport c)\<rparr>)"

text \<open>The flag says whether the variable \<open>err\<close>, which the deferred function reads, is set.\<close>

definition perform :: "henv \<Rightarrow> hworld \<Rightarrow> nat \<Rightarrow> HttpClient \<Rightarrow> hheap \<Rightarrow>
    ((string + hresp \<times> byte list) \<times> bool \<times> HttpClient \<times> hheap) go" where
  "perform E W k c h =
     go_bind (MakeRequest E c h) (\<lambda>r.
     case r of
       Inl err \<Rightarrow> Inr (Inl err, True, add_error err c, h)
     | Inr req \<Rightarrow>
         (let client = set_transport W c h;
              h = h\<lparr>hp_clients := (hp_clients h)(hc_Client c := client), hp_sent := hp_sent h @ [(client, req)]\<rparr>
          in case hw_Do W k client req of
               Inl err \<Rightarrow> Inr (Inl err, True, add_error err c, h)
             | Inr (resp, Inl err) \<Rightarrow> Inr (Inl err, True, c, h)
             | Inr (resp, Inr body) \<Rightarrow> Inr (Inr (resp, body), False, c, h)))"

definition send_request :: "henv \<Rightarrow> hworld \<Rightarrow> nat \<Rightarrow> HttpClient \<Rightarrow> hheap \<Rightarrow>
    ((string + hresp \<times> byte list) \<times> bool \<times> HttpClient \<times> hheap) go" where
  "send_request E W k c h =
     (case marshalErrors c of
        Some err \<Rightarrow> Inr (Inl err, False, c, h)
      | None \<Rightarrow> go_bind (prepare E W k c h) (\<lambda>(c, h). perform E W k c h))"

definition getResponseBytes :: "henv \<Rightarrow> hworld \<Rightarrow> nat \<Rightarrow> HttpClient \<Rightarrow> hheap \<Rightarrow> ((string + hresp \<times> byte list) \<times> HttpClient \<times> hheap) go" where
  "getResponseBytes E W k c h =
     go_bind (send_request E W k c h) (\<lambda>(r, failed, c', h').
     go_bind (count_call W k (hc_Url c) failed (hp_gl h')) (\<lambda>gl. Inr (r, c', h'\<lparr>hp_gl := gl\<rparr>)))"

fun hc_contains :: "int \<Rightarrow> int list \<Rightarrow> bool" where
  "hc_contains respStatus [] = False"
| "hc_contains respStatus (status # statuses) = (if status = respStatus then True else hc_contains respStatus statuses)"

definition isRetryableRequest :: "hresp \<Rightarrow> HttpClient \<Rightarrow> bool \<times> HttpClient" where
  "isRetryableRequest resp c =
     (let r = hc_Retryable c
      in if rt_Enable r \<and> rt_Attempt r < rt_RetryCount r \<and> hc_contains (rs_StatusCode resp) (rt_RetryableStatus r)
         then (False, c\<lparr>hc_Retryable := r\<lparr>rt_Attempt := rt_Attempt r + 1\<rparr>\<rparr>)
         else (True, c))"

text \<open>Sending never changes the retry policy, so the loop of \<open>EndBytes\<close> ends.\<close>

lemma trace_header_keeps: "trace_header W c h = Inr (c', h') \<Longrightarrow> hp_sent h' = hp_sent h \<and> hp_gl h' = hp_gl h \<and> c' = c"
  by (auto simp: trace_header_def SetHeader_def upd_vals_def split: option.split_asm)

lemma token_header_keeps:
  assumes "token_header E W k c h = Inr (c', h')"
  shows "hp_sent h' = hp_sent h \<and> hp_gl h' = hp_gl h \<and> c' = c"
proof -
  obtain srv sec where "(case (srv, sec) of
       (Some server, Some key) \<Rightarrow>
         go_bind (gd_token E W k (hc_Url c) server key) (\<lambda>gdToken. Inr (SetHeader ''gd_token'' gdToken c h))
     | _ \<Rightarrow> Inr (c, h)) = Inr (c', h')"
    using assms by (auto simp: token_header_def)
  then show ?thesis by (cases srv; cases sec) (auto simp: SetHeader_def upd_vals_def)
qed

lemma prepare_keeps:
  "prepare E W k c h = Inr (c', h') \<Longrightarrow> hp_sent h' = hp_sent h \<and> hc_Retryable c' = hc_Retryable c \<and> hc_Errors c' = hc_Errors c"
  by (auto simp: prepare_def dest!: trace_header_keeps token_header_keeps)

lemma perform_cases:
  assumes "perform E W k c h = Inr (r, f, c', h')"
  obtains (no_request) err where "MakeRequest E c h = Inr (Inl err)" "r = Inl err" "c' = add_error err c" "h' = h"
  | (failed) req err where "MakeRequest E c h = Inr (Inr req)" "hp_sent h' = hp_sent h @ [(set_transport W c h, req)]"
      "hw_Do W k (set_transport W c h) req = Inl err" "r = Inl err" "c' = add_error err c"
  | (broken) req resp err where "MakeRequest E c h = Inr (Inr req)" "hp_sent h' = hp_sent h @ [(set_transport W c h, req)]"
      "hw_Do W k (set_transport W c h) req = Inr (resp, Inl err)" "r = Inl err" "c' = c"
  | (answered) req resp body where "MakeRequest E c h = Inr (Inr req)" "hp_sent h' = hp_sent h @ [(set_transport W c h, req)]"
      "hw_Do W k (set_transport W c h) req = Inr (resp, Inr body)" "r = Inr (resp, body)" "c' = c"
proof -
  obtain m where m: "MakeRequest E c h = Inr m" using assms by (auto simp: perform_def)
  show thesis
  proof (cases m)
    case (Inl err)
    show thesis by (rule no_request [of err]) (use assms m Inl in \<open>auto simp: perform_def\<close>)
  next
    case (Inr req)
    show thesis
    proof (cases "hw_Do W k (set_transport W c h) req")
      case (Inl err)
      show thesis by (rule failed [of req err]) (use assms m \<open>m = Inr req\<close> Inl in \<open>auto simp: perform_def Let_def\<close>)
    next
      case do: (Inr a)
      obtain resp res where a: "a = (resp, res)" by (cases a)
      show thesis
      proof (cases res)
        case (Inl err)
        show thesis by (rule broken [of req resp err]) (use assms m \<open>m = Inr req\<close> do a Inl in \<open>auto simp: perform_def Let_def\<close>)
      next
        case (Inr body)
        show thesis by (rule answered [of req resp body]) (use assms m \<open>m = Inr req\<close> do a Inr in \<open>auto simp: perform_def Let_def\<close>)
      qed
    qed
  qed
qed

lemma add_error_Retryable [simp]: "hc_Retryable (add_error e c) = hc_Retryable c"
  by (simp add: add_error_def)

lemma perform_Retryable: "perform E W k c h = Inr (r, f, c', h') \<Longrightarrow> hc_Retryable c' = hc_Retryable c"
  by (erule perform_cases) simp_all

lemma send_request_Retryable:
  "send_request E W k c h = Inr (r, f, c', h') \<Longrightarrow> hc_Retryable c' = hc_Retryable c"
  by (auto simp: send_request_def dest!: prepare_keeps perform_Retryable split: option.splits)

lemma getResponseBytes_Retryable [dest]:
  "getResponseBytes E W k c h = Inr (r, c', h') \<Longrightarrow> hc_Retryable c' = hc_Retryable c"
  by (auto simp: getResponseBytes_def dest: send_request_Retryable)

function EndBytes_loop :: "henv \<Rightarrow> hworld \<Rightarrow> nat \<Rightarrow> HttpClient \<Rightarrow> hheap \<Rightarrow>
    ((string + hresp \<times> byte list) \<times> HttpClient \<times> hheap) go" where
  "EndBytes_loop E W k c h =
     (case getResponseBytes E W k c h of
        Inl p \<Rightarrow> Inl p
      | Inr (Inl err, c1, h1) \<Rightarrow> Inr (Inl err, c1, h1)
      | Inr (Inr (resp, body), c1, h1) \<Rightarrow>
          (case isRetryableRequest resp c1 of
             (True, c2) \<Rightarrow>
               Inr (Inr (resp\<lparr>rs_Header := al_set ''Retry-Count'' [Itoa (rt_Attempt (hc_Retryable c2))] (rs_Header resp)\<rparr>, body), c2, h1)
           | (False, c2) \<Rightarrow> EndBytes_loop E W (k + 1) c2 h1))"
  by pat_completeness auto

termination
  by (relation "measure (\<lambda>(E, W, k, c, h). nat (rt_RetryCount (hc_Retryable c) - rt_Attempt (hc_Retryable c)))")
    (auto simp: isRetryableRequest_def Let_def split: if_splits dest!: getResponseBytes_Retryable)

declare EndBytes_loop.simps [simp del]

text \<open>The last component is what a callback is called with.\<close>

definition EndBytes :: "henv \<Rightarrow> hworld \<Rightarrow> bool \<Rightarrow> HttpClient \<Rightarrow> hheap \<Rightarrow>
    ((string + hresp \<times> byte list) \<times> (hresp \<times> byte list \<times> string option) option \<times> HttpClient \<times> hheap) go" where
  "EndBytes E W callback c h =
     go_bind (EndBytes_loop E W 0 c h) (\<lambda>(r, c, h).
     Inr (r, (case r of
                Inl err \<Rightarrow> None
              | Inr (resp, body) \<Rightarrow> if callback then Some (resp, body, marshalErrors c) else None), c, h))"

text \<open>Without a callback; \<open>unmarshal\<close> is \<open>json.Unmarshal\<close> into the caller's variable.  A body that cannot be decoded is returned with the error.\<close>

definition EndStruct :: "henv \<Rightarrow> hworld \<Rightarrow> (byte list \<Rightarrow> string + 'v) \<Rightarrow> HttpClient \<Rightarrow> hheap \<Rightarrow>
    ((hresp option \<times> byte list option \<times> string option) \<times> 'v option \<times> HttpClient \<times> hheap) go" where
  "EndStruct E W unmarshal c h =
     go_bind (EndBytes E W False c h) (\<lambda>(r, _, c, h).
     case r of
       Inl err \<Rightarrow> Inr ((None, None, Some err), None, c, h)
     | Inr (resp, body) \<Rightarrow>
         (case unmarshal body of
            Inl err \<Rightarrow> Inr ((Some resp, Some body, marshalErrors (add_error err c)), None, add_error err c, h)
          | Inr v \<Rightarrow> Inr ((Some resp, Some body, None), Some v, c, h)))"

section \<open>Types that are not honoured\<close>

text \<open>\<open>Type\<close> accepts the synonyms of \<open>form\<close> and \<open>html\<close>, but sending ignores them unless a content type is set as header.\<close>

lemma forced_type_ignored:
  assumes "hc_ForceType c \<in> {''urlencoded'', ''form-data'', ''html''}" and "h_Get ''Content-Type'' (hp_vals h (hc_Header c)) = []"
  shows "target_type c h = hc_TargetType c"
  using assms by (auto simp: target_type_def Types_def)

text \<open>A request with the header \<open>text/html\<close> and no forced type is never sent.\<close>

lemma html_never_sent:
  assumes "hc_ForceType c = []" and "h_Get ''Content-Type'' (hp_vals h (hc_Header c)) = ''text/html''" and "hc_Method c \<noteq> []"
  shows "MakeRequest E (c\<lparr>hc_TargetType := target_type c h\<rparr>) h =
    Inr (Inl (''TargetType '' @ [CHR 0x27] @ ''html'' @ [CHR 0x27] @ '' could not be determined''))"
  using assms by (simp add: target_type_def Types_def MakeRequest_def request_body_def)

section \<open>Retries\<close>

lemma hc_contains [simp]: "hc_contains s ss \<longleftrightarrow> s \<in> set ss"
  by (induction ss) auto

text \<open>One attempt sends at most one request; a response comes from the request it sent.\<close>

lemma perform_sent:
  assumes "perform E W k c h = Inr (r, f, c', h')"
  shows "(\<exists>resp body cl req. r = Inr (resp, body) \<and> hp_sent h' = hp_sent h @ [(cl, req)] \<and> hw_Do W k cl req = Inr (resp, Inr body)) \<or>
    (\<exists>err reqs. r = Inl err \<and> hp_sent h' = hp_sent h @ reqs \<and> length reqs \<le> 1)"
  using assms by (rule perform_cases) auto

lemma attempt_sent:
  assumes "getResponseBytes E W k c h = Inr (r, c', h')"
  shows "(\<exists>resp body cl req. r = Inr (resp, body) \<and> hp_sent h' = hp_sent h @ [(cl, req)] \<and> hw_Do W k cl req = Inr (resp, Inr body)) \<or>
    (\<exists>err reqs. r = Inl err \<and> hp_sent h' = hp_sent h @ reqs \<and> length reqs \<le> 1)"
proof -
  obtain f h1 where s: "send_request E W k c h = Inr (r, f, c', h1)" "hp_sent h' = hp_sent h1"
    using assms by (auto simp: getResponseBytes_def)
  then show ?thesis
    by (auto simp: send_request_def split: option.splits dest!: prepare_keeps perform_sent)
qed

lemma marshalErrors_None: "marshalErrors c = None \<longleftrightarrow> hc_Errors c = []"
  by (auto simp: marshalErrors_def split: list.splits)

lemma attempt_no_errors:
  assumes "getResponseBytes E W k c h = Inr (Inr x, c', h')"
  shows "hc_Errors c' = []"
  using assms
  by (auto simp: getResponseBytes_def send_request_def marshalErrors_None split: option.splits
      dest!: prepare_keeps elim!: perform_cases)

lemma attempt_refused:
  assumes "marshalErrors c = Some err" and "getResponseBytes E W k c h = Inr (r, c', h')"
  shows "r = Inl err \<and> c' = c \<and> hp_sent h' = hp_sent h"
  using assms by (auto simp: getResponseBytes_def send_request_def)

lemma retry_step:
  "isRetryableRequest resp c = (b, c') \<longleftrightarrow>
   (let R = hc_Retryable c; again = (rt_Enable R \<and> rt_Attempt R < rt_RetryCount R \<and> rs_StatusCode resp \<in> set (rt_RetryableStatus R))
    in b = (\<not> again) \<and> c' = (if again then c\<lparr>hc_Retryable := R\<lparr>rt_Attempt := rt_Attempt R + 1\<rparr>\<rparr> else c))"
  by (auto simp: isRetryableRequest_def Let_def)

text \<open>What the loop did: the requests sent from attempt \<open>k\<close> on, with the retry policy \<open>R\<close>, and its result.\<close>

definition retried :: "hworld \<Rightarrow> nat \<Rightarrow> HttpClientRetryable \<Rightarrow> (hclient \<times> hreq) list \<Rightarrow> (string + hresp \<times> byte list) \<Rightarrow> bool" where
  "retried W k R reqs r \<longleftrightarrow>
     int (length reqs) \<le> (if rt_Enable R then max 0 (rt_RetryCount R - rt_Attempt R) else 0) + 1 \<and>
     (\<forall>i. Suc i < length reqs \<longrightarrow> (\<exists>resp body. hw_Do W (k + i) (fst (reqs ! i)) (snd (reqs ! i)) = Inr (resp, Inr body) \<and>
        rs_StatusCode resp \<in> set (rt_RetryableStatus R))) \<and>
     (\<forall>resp body. r = Inr (resp, body) \<longrightarrow> reqs \<noteq> [] \<and>
        (\<exists>resp0. hw_Do W (k + length reqs - 1) (fst (last reqs)) (snd (last reqs)) = Inr (resp0, Inr body) \<and>
           resp = resp0\<lparr>rs_Header := al_set ''Retry-Count'' [Itoa (rt_Attempt R + int (length reqs) - 1)] (rs_Header resp0)\<rparr> \<and>
           (rt_Enable R \<and> rt_Attempt R + int (length reqs) - 1 < rt_RetryCount R \<longrightarrow> rs_StatusCode resp0 \<notin> set (rt_RetryableStatus R))))"

lemma retried_again:
  assumes "retried W (Suc k) (R\<lparr>rt_Attempt := rt_Attempt R + 1\<rparr>) reqs r"
    and "rt_Enable R" and "rt_Attempt R < rt_RetryCount R" and "rs_StatusCode resp \<in> set (rt_RetryableStatus R)"
    and "hw_Do W k (fst x) (snd x) = Inr (resp, Inr body)"
  shows "retried W k R (x # reqs) r"
  unfolding retried_def
proof (intro conjI allI impI)
  show "int (length (x # reqs)) \<le> (if rt_Enable R then max 0 (rt_RetryCount R - rt_Attempt R) else 0) + 1"
    using assms(1-3) by (auto simp: retried_def)
  fix i
  assume "Suc i < length (x # reqs)"
  then show "\<exists>resp body. hw_Do W (k + i) (fst ((x # reqs) ! i)) (snd ((x # reqs) ! i)) = Inr (resp, Inr body) \<and>
      rs_StatusCode resp \<in> set (rt_RetryableStatus R)"
    using assms by (cases i) (auto simp: retried_def)
qed (use assms(1) in \<open>auto simp: retried_def\<close>)

lemma EndBytes_loop_retried:
  assumes "EndBytes_loop E W k c h = Inr (r, c', h')"
  shows "\<exists>reqs. hp_sent h' = hp_sent h @ reqs \<and> retried W k (hc_Retryable c) reqs r \<and> (\<forall>x. r = Inr x \<longrightarrow> hc_Errors c' = [])"
  using assms
proof (induction E W k c h rule: EndBytes_loop.induct)
  case (1 E W k c h)
  obtain q c1 h1 where g: "getResponseBytes E W k c h = Inr (q, c1, h1)"
    using 1(2) by (cases "getResponseBytes E W k c h") (auto simp: EndBytes_loop.simps [of E W k c h])
  note R = getResponseBytes_Retryable [OF g]
  show ?case
  proof (cases q)
    case (Inl err)
    then have "r = Inl err" "h' = h1" using 1(2) g by (simp_all add: EndBytes_loop.simps [of E W k c h])
    then show ?thesis using attempt_sent [OF g] Inl by (auto simp: retried_def)
  next
    case (Inr a)
    obtain resp body where a: "a = (resp, body)" by (cases a)
    obtain x where x: "hp_sent h1 = hp_sent h @ [x]" "hw_Do W k (fst x) (snd x) = Inr (resp, Inr body)"
      using attempt_sent [OF g] Inr a by auto
    obtain b c2 where t: "isRetryableRequest resp c1 = (b, c2)" by fastforce
    show ?thesis
    proof (cases b)
      case True
      then have "r = Inr (resp\<lparr>rs_Header := al_set ''Retry-Count'' [Itoa (rt_Attempt (hc_Retryable c))] (rs_Header resp)\<rparr>, body)"
          "h' = h1" "c' = c1"
        using 1(2) g Inr a t R by (auto simp: EndBytes_loop.simps [of E W k c h] retry_step Let_def split: if_splits)
      then show ?thesis using x True t R attempt_no_errors [of E W k c h a c1 h1] g Inr
        by (auto simp: retried_def retry_step Let_def)
    next
      case False
      then have l: "EndBytes_loop E W (k + 1) c2 h1 = Inr (r, c', h')"
        using 1(2) g Inr a t by (simp add: EndBytes_loop.simps [of E W k c h])
      have c2: "hc_Retryable c2 = (hc_Retryable c)\<lparr>rt_Attempt := rt_Attempt (hc_Retryable c) + 1\<rparr>" "rt_Enable (hc_Retryable c)"
          "rt_Attempt (hc_Retryable c) < rt_RetryCount (hc_Retryable c)" "rs_StatusCode resp \<in> set (rt_RetryableStatus (hc_Retryable c))"
        using False t R by (auto simp: retry_step Let_def split: if_splits)
      from 1(1) [OF g refl Inr a [symmetric] refl t [symmetric] _ l] False obtain reqs where
        "hp_sent h' = hp_sent h1 @ reqs" "retried W (k + 1) (hc_Retryable c2) reqs r" "\<forall>x. r = Inr x \<longrightarrow> hc_Errors c' = []"
        by auto
      then show ?thesis using retried_again [of W k "hc_Retryable c" reqs r resp x body] c2 x by auto
    qed
  qed
qed

lemma EndBytes_loop_panic:
  "EndBytes_loop E W k c h = Inl p \<Longrightarrow> \<exists>k' c' h'. getResponseBytes E W k' c' h' = Inl p"
proof (induction E W k c h rule: EndBytes_loop.induct)
  case (1 E W k c h)
  show ?case
  proof (cases "getResponseBytes E W k c h")
    case (Inr a)
    then show ?thesis
      using 1 by (cases a) (auto simp: EndBytes_loop.simps [of E W k c h] split: sum.splits prod.splits bool.splits)
  qed (use 1(2) in \<open>auto simp: EndBytes_loop.simps [of E W k c h]\<close>)
qed

text \<open>
  C22. \<open>EndBytes\<close> always comes to an end.  Errors recorded while the request was built are returned, joined, and nothing is
  sent.  Otherwise it sends at most one request more than the retries that are left (one request without a retry policy); every request but the last was
  answered with a status of the policy; a response that is returned is the answer to the last request, carries the number
  of retries in its header, and has a status of the policy only when the retries are used up.  The callback gets the same response
  and no error.  \<open>EndBytes\<close> panics only if an attempt does.
\<close>

theorem EndBytes_retries:
  "(\<forall>err res. marshalErrors c = Some err \<and> EndBytes E W callback c h = Inr res \<longrightarrow>
      fst res = Inl err \<and> fst (snd res) = None \<and> fst (snd (snd res)) = c \<and> hp_sent (snd (snd (snd res))) = hp_sent h) \<and>
   (\<forall>r cb c' h'. EndBytes E W callback c h = Inr (r, cb, c', h') \<longrightarrow>
      (\<exists>reqs. hp_sent h' = hp_sent h @ reqs \<and> retried W 0 (hc_Retryable c) reqs r) \<and>
      cb = (case r of Inr (resp, body) \<Rightarrow> if callback then Some (resp, body, None) else None | Inl err \<Rightarrow> None)) \<and>
   (\<forall>p. EndBytes E W callback c h = Inl p \<longrightarrow> (\<exists>k c' h'. getResponseBytes E W k c' h' = Inl p))"
proof (intro conjI allI impI)
  fix err res
  assume a: "marshalErrors c = Some err \<and> EndBytes E W callback c h = Inr res"
  then obtain q c1 h1 where g: "getResponseBytes E W 0 c h = Inr (q, c1, h1)"
    by (cases "getResponseBytes E W 0 c h") (auto simp: EndBytes_def EndBytes_loop.simps [of E W 0 c h])
  with a attempt_refused [OF _ g]
  show "fst res = Inl err" "fst (snd res) = None" "fst (snd (snd res)) = c" "hp_sent (snd (snd (snd res))) = hp_sent h"
    by (auto simp: EndBytes_def EndBytes_loop.simps [of E W 0 c h])
next
  fix r cb c' h'
  assume e: "EndBytes E W callback c h = Inr (r, cb, c', h')"
  then have l: "EndBytes_loop E W 0 c h = Inr (r, c', h')" and
    cb: "cb = (case r of Inr (resp, body) \<Rightarrow> if callback then Some (resp, body, marshalErrors c') else None | Inl err \<Rightarrow> None)"
    by (auto simp: EndBytes_def)
  from EndBytes_loop_retried [OF l] show "\<exists>reqs. hp_sent h' = hp_sent h @ reqs \<and> retried W 0 (hc_Retryable c) reqs r" by blast
  show "cb = (case r of Inr (resp, body) \<Rightarrow> if callback then Some (resp, body, None) else None | Inl err \<Rightarrow> None)"
    using cb EndBytes_loop_retried [OF l] by (auto simp: marshalErrors_None split: sum.splits)
next
  fix p
  assume "EndBytes E W callback c h = Inl p"
  then have "EndBytes_loop E W 0 c h = Inl p" by (auto simp: EndBytes_def go_bind_def split: sum.splits)
  then show "\<exists>k c' h'. getResponseBytes E W k c' h' = Inl p" by (rule EndBytes_loop_panic)
qed

text \<open>A request with two retries on status 500 that is answered 500 and then 200.\<close>

definition ex_hworld :: hworld where
  "ex_hworld = \<lparr>hw_goid = 1, hw_Sprint = (\<lambda>v. []), hw_now = (\<lambda>k. 0), hw_cost = (\<lambda>k. 0), hw_DisableTransportSwap = False,
     hw_Do = (\<lambda>k cl req. Inr (\<lparr>rs_StatusCode = if k = 0 then 500 else 200, rs_Header = []\<rparr>, Inr [1]))\<rparr>"

definition ex_hclient :: "int \<Rightarrow> HttpClient" where
  "ex_hclient n = \<lparr>hc_Url = ''/x'', hc_Method = ''GET'', hc_Header = 0, hc_TargetType = ''json'', hc_ForceType = [], hc_Data = 1,
     hc_SliceData = [], hc_FormData = 2, hc_QueryData = 3, hc_FileData = [], hc_BounceToRawString = False, hc_RawString = [],
     hc_Client = 4, hc_Transport = 5, hc_Cookies = [], hc_Errors = [], hc_BasicAuth = ([], []), hc_Debug = False, hc_CurlCommand = False,
     hc_Retryable = \<lparr>rt_RetryableStatus = [500], rt_RetryTime = 0, rt_RetryCount = 2, rt_Attempt = n, rt_Enable = True\<rparr>,
     hc_DoNotClearHttpClient = False, hc_isClone = False\<rparr>"

lemma ex_gl_calls: "gl_Get g k ex_gl = Inr None" "gl_Incr g k n ex_gl = Inr (- 1, ex_gl)" "gl_IncrCost g k d ex_gl = Inr (- 1, ex_gl)"
  by (simp_all add: gl_Get_def gl_IncrCost_def gl_Incr_def gl_update_def getGl_def cm_Get_def GetShard_def ex_gl_def NewShard_def)

lemma ex_attempt:
  assumes "hp_vals h = (\<lambda>_. [])" and "hp_data h = (\<lambda>_. [])" and "hp_gl h = ex_gl"
  shows "\<exists>h'. getResponseBytes ex_henv ex_hworld k (ex_hclient n) h =
      Inr (Inr (\<lparr>rs_StatusCode = if k = 0 then 500 else 200, rs_Header = []\<rparr>, [1]), ex_hclient n, h') \<and>
    hp_vals h' = (\<lambda>_. []) \<and> hp_data h' = (\<lambda>_. []) \<and> hp_gl h' = ex_gl"
proof -
  have p: "prepare ex_henv ex_hworld k (ex_hclient n) h = Inr (ex_hclient n, h)"
    using assms by (simp add: prepare_def trace_header_def token_header_def ex_gl_calls target_type_def Types_def h_Get_def ex_hclient_def)
  obtain req where m: "MakeRequest ex_henv (ex_hclient n) h = Inr (Inr req)"
    using assms by (simp add: MakeRequest_def request_body_def json_content_def ex_hclient_def ex_henv_def Let_def)
  have "marshalErrors (ex_hclient n) = None" by (simp add: marshalErrors_def ex_hclient_def)
  moreover have "hw_Do ex_hworld k cl req = Inr (\<lparr>rs_StatusCode = if k = 0 then 500 else 200, rs_Header = []\<rparr>, Inr [1])" for cl req
    by (simp add: ex_hworld_def)
  then obtain h' where "perform ex_henv ex_hworld k (ex_hclient n) h =
      Inr (Inr (\<lparr>rs_StatusCode = if k = 0 then 500 else 200, rs_Header = []\<rparr>, [1]), False, ex_hclient n, h')"
      "hp_vals h' = hp_vals h" "hp_data h' = hp_data h" "hp_gl h' = hp_gl h"
    by (simp add: perform_def m Let_def del: if_split)
  moreover have "count_call W k url False ex_gl = Inr ex_gl" for W k url by (simp add: count_call_def ex_gl_calls)
  ultimately show ?thesis using assms by (auto simp: getResponseBytes_def send_request_def p)
qed

theorem EndBytes_retries_witness:
  "\<exists>r cb c' h' reqs. EndBytes ex_henv ex_hworld True (ex_hclient 0) ex_hheap = Inr (r, cb, c', h') \<and>
     hp_sent h' = hp_sent ex_hheap @ reqs \<and> retried ex_hworld 0 (hc_Retryable (ex_hclient 0)) reqs r"
proof -
  obtain h1 where h1: "getResponseBytes ex_henv ex_hworld 0 (ex_hclient 0) ex_hheap =
      Inr (Inr (\<lparr>rs_StatusCode = 500, rs_Header = []\<rparr>, [1]), ex_hclient 0, h1)"
      "hp_vals h1 = (\<lambda>_. [])" "hp_data h1 = (\<lambda>_. [])" "hp_gl h1 = ex_gl"
    using ex_attempt [of ex_hheap 0 0] by (auto simp: ex_hheap_def)
  obtain h2 where h2: "getResponseBytes ex_henv ex_hworld 1 (ex_hclient 1) h1 =
      Inr (Inr (\<lparr>rs_StatusCode = 200, rs_Header = []\<rparr>, [1]), ex_hclient 1, h2)"
    using ex_attempt [OF h1(2-4), of 1 1] by auto
  have "isRetryableRequest \<lparr>rs_StatusCode = 500, rs_Header = []\<rparr> (ex_hclient 0) = (False, ex_hclient 1)"
    "isRetryableRequest \<lparr>rs_StatusCode = 200, rs_Header = []\<rparr> (ex_hclient 1) = (True, ex_hclient 1)"
    by (simp_all add: isRetryableRequest_def ex_hclient_def)
  then have "\<exists>x. EndBytes ex_henv ex_hworld True (ex_hclient 0) ex_hheap = Inr x"
    using h1(1) h2 by (simp add: EndBytes_def EndBytes_loop.simps [of _ _ 0] EndBytes_loop.simps [of _ _ "Suc 0"])
  then obtain r cb c' h' where "EndBytes ex_henv ex_hworld True (ex_hclient 0) ex_hheap = Inr (r, cb, c', h')"
    by auto
  with EndBytes_retries [of "ex_hclient 0" ex_henv ex_hworld True ex_hheap] show ?thesis by blast
qed

end
