(* ===== verification/Stat.thy ===== *)
theory Stat
  imports Prelude "HOL-Library.Signed_Division" "HOL-Library.Char_ord" "HOL-Library.List_Lexorder"
begin

text \<open>
  Call statistics (\<open>runtime/stat/stat.go\<close>): recording of finished calls by command and result, and the
  report that \<open>dump\<close> prints and clears, with the rotation of its file.  Times are in nanoseconds; the
  counters are unbounded integers, which differs from Go's 64 bits only after \<open>2 ^ 63\<close> calls or
  microseconds.  Formatting of the report's lines is not modelled, the numbers they show are.
\<close>

section \<open>Recording\<close>

record StatValue =
  sv_Total :: int
  sv_Max :: int
  sv_Min :: int
  sv_Gt10 :: int
  sv_Gt100 :: int
  sv_Gt500 :: int
  sv_TotalD :: int

record Stat =
  st_cmd :: string
  st_b :: int
  st_e :: int
  st_ret :: int

text \<open>\<open>Begin\<close> and its variants differ in the source of the command and of the begin time.\<close>

definition BeginAt :: "string \<Rightarrow> int \<Rightarrow> Stat \<Rightarrow> Stat" where
  "BeginAt cmd begin_at st = st\<lparr>st_cmd := cmd, st_b := begin_at\<rparr>"

definition beginFuncAt :: "(nat \<Rightarrow> string) \<Rightarrow> string \<Rightarrow> nat \<Rightarrow> int \<Rightarrow> Stat \<Rightarrow> Stat" where
  "beginFuncAt FuncName pre skip begin_at st = BeginAt (pre @ ''.'' @ FuncName skip) begin_at st"

record StatMgr =
  sm_m :: "(string \<times> StatValue) list"
  sm_c :: "Stat list"
  sm_maxCmdLen :: nat

definition newStatMgr :: StatMgr where
  "newStatMgr = \<lparr>sm_m = [], sm_c = [], sm_maxCmdLen = 0\<rparr>"

text \<open>
  \<open>End\<close> sends the finished call to the manager's channel; without a manager (\<open>None\<close>) it only logs.  The
  channel is a queue here: a sender that finds its 4096 places taken waits.
\<close>

definition Stat_End :: "int \<Rightarrow> int \<Rightarrow> Stat \<Rightarrow> StatMgr option \<Rightarrow> StatMgr option" where
  "Stat_End now ret st mgr = map_option (\<lambda>m. m\<lparr>sm_c := sm_c m @ [st\<lparr>st_ret := ret, st_e := now\<rparr>]\<rparr>) mgr"

text \<open>The error passed to \<open>EndErr\<close>: nil, a pointer to a \<open>CodeError\<close> (nil or with its code), or another error.\<close>

datatype enderr = ENil | ECodeError "int option" | EOther

definition EndErr_ret :: "enderr \<Rightarrow> int" where
  "EndErr_ret err = (case err of ENil \<Rightarrow> 0 | ECodeError (Some code) \<Rightarrow> code | ECodeError None \<Rightarrow> 0 | EOther \<Rightarrow> - 1)"

definition EndErr :: "int \<Rightarrow> enderr \<Rightarrow> Stat \<Rightarrow> StatMgr option \<Rightarrow> StatMgr option" where
  "EndErr now err st mgr = Stat_End now (EndErr_ret err) st mgr"

definition sep :: string where "sep = ''$$$''"

definition stat_key :: "string \<Rightarrow> int \<Rightarrow> string" where
  "stat_key cmd ret = cmd @ sep @ Itoa ret"

definition micros :: "Stat \<Rightarrow> int" where
  "micros st = (st_e st - st_b st) sdiv 1000"

definition mgr_stat :: "Stat \<Rightarrow> StatMgr \<Rightarrow> StatMgr" where
  "mgr_stat st mgr =
     (let cmd = st_cmd st;
          cmdRet = stat_key cmd (st_ret st);
          d = micros st;
          v = (case map_of (sm_m mgr) cmdRet of
                 Some v \<Rightarrow> v\<lparr>sv_Max := (if d > sv_Max v then d else sv_Max v), sv_Min := (if d < sv_Min v then d else sv_Min v),
                            sv_Total := sv_Total v + 1, sv_TotalD := sv_TotalD v + d\<rparr>
               | None \<Rightarrow> \<lparr>sv_Total = 1, sv_Max = d, sv_Min = d, sv_Gt10 = 0, sv_Gt100 = 0, sv_Gt500 = 0, sv_TotalD = d\<rparr>);
          ms10 = 10000;
          ms100 = 100000;
          ms500 = 500000;
          v = (if ms10 \<le> d \<and> d < ms100 then v\<lparr>sv_Gt10 := sv_Gt10 v + 1\<rparr>
               else if ms100 \<le> d \<and> d < ms500 then v\<lparr>sv_Gt100 := sv_Gt100 v + 1\<rparr>
               else if ms500 \<le> d then v\<lparr>sv_Gt500 := sv_Gt500 v + 1\<rparr>
               else v)
      in mgr\<lparr>sm_m := al_set cmdRet v (sm_m mgr),
             sm_maxCmdLen := (if length cmd > sm_maxCmdLen mgr then length cmd else sm_maxCmdLen mgr)\<rparr>)"

section \<open>The report\<close>

text \<open>\<open>strings.Split\<close> for a separator that is not empty.\<close>

fun split_loop :: "string \<Rightarrow> nat \<Rightarrow> string \<Rightarrow> string \<Rightarrow> string list" where
  "split_loop sp n part [] = [part]"
| "split_loop sp (Suc n) part (c # cs) = split_loop sp n part cs"
| "split_loop sp 0 part (c # cs) =
     (if HasPrefix (c # cs) sp then part # split_loop sp (length sp - 1) [] cs
      else split_loop sp 0 (part @ [c]) cs)"

definition strings_Split :: "string \<Rightarrow> string \<Rightarrow> string list" where
  "strings_Split s sp = split_loop sp 0 [] s"

record stat_tail =
  tl_total :: int
  tl_max :: int
  tl_min :: int
  tl_gt10 :: int
  tl_gt100 :: int
  tl_gt500 :: int

type_synonym stat_row = "string \<times> int \<times> StatValue"

fun dump_keys :: "(string \<times> StatValue) list \<Rightarrow> string list \<Rightarrow> stat_row list \<Rightarrow> stat_tail \<Rightarrow> stat_row list \<times> stat_tail" where
  "dump_keys m [] rows t = (rows, t)"
| "dump_keys m (k # ks) rows t =
     (case map_of m k of
        None \<Rightarrow> dump_keys m ks rows t
      | Some v \<Rightarrow>
          (case strings_Split k sep of
             [cmd, r] \<Rightarrow>
               (let ret = (case Atoi r of Some i \<Rightarrow> i | None \<Rightarrow> 2147483647)
                in dump_keys m ks (rows @ [(cmd, ret, v)])
                     \<lparr>tl_total = tl_total t + sv_Total v,
                      tl_max = (if sv_Max v > tl_max t then sv_Max v else tl_max t),
                      tl_min = (if sv_Min v < tl_min t then sv_Min v else tl_min t),
                      tl_gt10 = (if sv_Gt10 v > 0 then tl_gt10 t + sv_Gt10 v else tl_gt10 t),
                      tl_gt100 = (if sv_Gt100 v > 0 then tl_gt100 t + sv_Gt100 v else tl_gt100 t),
                      tl_gt500 = (if sv_Gt500 v > 0 then tl_gt500 t + sv_Gt500 v else tl_gt500 t)\<rparr>)
           | _ \<Rightarrow> dump_keys m ks rows t))"

definition max_int64 :: int where "max_int64 = 9223372036854775807"

text \<open>\<open>dump\<close>: nothing for an empty map; otherwise the rows in the order of their keys and the line of totals.\<close>

definition mgr_dump :: "StatMgr \<Rightarrow> (stat_row list \<times> stat_tail) option \<times> StatMgr" where
  "mgr_dump mgr =
     (if length (sm_m mgr) < 1 then (None, mgr)
      else
        (case dump_keys (sm_m mgr) (sort (map fst (sm_m mgr))) []
                \<lparr>tl_total = 0, tl_max = 0, tl_min = max_int64, tl_gt10 = 0, tl_gt100 = 0, tl_gt500 = 0\<rparr> of
           (rows, t) \<Rightarrow>
             (Some (rows, t\<lparr>tl_min := (if tl_min t = max_int64 then 0 else tl_min t)\<rparr>),
              mgr\<lparr>sm_m := fold al_del (sort (map fst (sm_m mgr))) (sm_m mgr)\<rparr>)))"

section \<open>Rotation\<close>

text \<open>
  \<open>rotateFile\<close> on a directory; \<open>None\<close> is a file that does not exist, and renaming one fails without an
  effect.  The open file itself is in the directory.
\<close>

definition os_Rename :: "string \<Rightarrow> string \<Rightarrow> (string \<rightharpoonup> 'c) \<Rightarrow> (string \<rightharpoonup> 'c)" where
  "os_Rename old new dir = (case dir old of None \<Rightarrow> dir | Some c \<Rightarrow> (dir(old := None))(new \<mapsto> c))"

fun rotate_loop :: "string \<Rightarrow> nat \<Rightarrow> (string \<rightharpoonup> 'c) \<Rightarrow> (string \<rightharpoonup> 'c)" where
  "rotate_loop name 0 dir = dir"
| "rotate_loop name (Suc i) dir =
     rotate_loop name i (os_Rename (name @ ''.'' @ Itoa (int (Suc i))) (name @ ''.'' @ Itoa (int (Suc i) + 1)) dir)"

definition rotateFile :: "('c \<Rightarrow> nat) \<Rightarrow> 'c \<Rightarrow> string \<Rightarrow> (string \<rightharpoonup> 'c) \<Rightarrow> (string \<rightharpoonup> 'c)" where
  "rotateFile fsize nothing name dir =
     (case dir name of
        None \<Rightarrow> dir
      | Some c \<Rightarrow>
          if fsize c < 104857600 then dir
          else (os_Rename name (name @ ''.1'') (rotate_loop name 9 dir))(name \<mapsto> nothing))"

section \<open>What is recorded\<close>

definition between :: "int \<Rightarrow> int \<Rightarrow> int \<Rightarrow> bool" where
  "between a b d = (a \<le> d \<and> d < b)"

definition max_time :: "int list \<Rightarrow> int" where "max_time ds = Max (set ds)"

definition min_time :: "int list \<Rightarrow> int" where "min_time ds = Min (set ds)"

definition summary :: "int list \<Rightarrow> StatValue" where
  "summary ds = \<lparr>sv_Total = int (length ds), sv_Max = max_time ds, sv_Min = min_time ds,
     sv_Gt10 = int (length (filter (between 10000 100000) ds)), sv_Gt100 = int (length (filter (between 100000 500000) ds)),
     sv_Gt500 = int (length (filter ((\<le>) 500000) ds)), sv_TotalD = sum_list ds\<rparr>"

definition key_of :: "Stat \<Rightarrow> string" where
  "key_of st = stat_key (st_cmd st) (st_ret st)"

definition times_of :: "string \<Rightarrow> Stat list \<Rightarrow> int list" where
  "times_of k sts = map micros (filter (\<lambda>st. key_of st = k) sts)"

lemma times_of_snoc: "times_of k (sts @ [st]) = (if key_of st = k then times_of k sts @ [micros st] else times_of k sts)"
  by (simp add: times_of_def)

lemma times_of_empty: "times_of k sts = [] \<longleftrightarrow> k \<notin> key_of ` set sts"
  by (auto simp: times_of_def filter_empty_conv)

lemma time_snoc:
  assumes "ds \<noteq> []"
  shows "max_time (ds @ [d]) = (if d > max_time ds then d else max_time ds)"
    and "min_time (ds @ [d]) = (if d < min_time ds then d else min_time ds)"
proof -
  have "max_time (ds @ [d]) = max d (max_time ds)" "min_time (ds @ [d]) = min d (min_time ds)"
    using assms by (simp_all add: max_time_def min_time_def)
  then show "max_time (ds @ [d]) = (if d > max_time ds then d else max_time ds)"
      "min_time (ds @ [d]) = (if d < min_time ds then d else min_time ds)"
    by (simp_all add: max_def min_def)
qed

lemma time_single: "max_time [d] = d" "min_time [d] = d"
  by (simp_all add: max_time_def min_time_def)

lemma mgr_stat_entry:
  assumes "map_of (sm_m mgr) (key_of st) = (if ds = [] then None else Some (summary ds))"
  shows "sm_m (mgr_stat st mgr) = al_set (key_of st) (summary (ds @ [micros st])) (sm_m mgr)"
proof (cases "ds = []")
  case True
  with assms show ?thesis
    by (simp add: mgr_stat_def Let_def key_of_def [symmetric] summary_def between_def time_single)
next
  case False
  with assms show ?thesis
    by (simp add: mgr_stat_def Let_def key_of_def [symmetric] summary_def between_def time_snoc add.commute [of 1])
qed

definition recorded :: "Stat list \<Rightarrow> StatMgr" where
  "recorded sts = fold mgr_stat sts newStatMgr"

lemma recorded_snoc: "recorded (sts @ [st]) = mgr_stat st (recorded sts)"
  by (simp add: recorded_def)

lemma recorded_map:
  "map_of (sm_m (recorded sts)) k = (if times_of k sts = [] then None else Some (summary (times_of k sts)))"
proof (induction sts arbitrary: k rule: rev_induct)
  case Nil
  show ?case by (simp add: recorded_def newStatMgr_def times_of_def)
next
  case (snoc st sts)
  then show ?case
    by (auto simp: recorded_snoc mgr_stat_entry [OF snoc.IH] map_of_al_set times_of_snoc)
qed

lemma recorded_keys: "fst ` set (sm_m (recorded sts)) = key_of ` set sts" "distinct (map fst (sm_m (recorded sts)))"
  by (induction sts rule: rev_induct)
     (auto simp: recorded_snoc mgr_stat_entry [OF recorded_map] keys_al_set distinct_al_set, auto simp: recorded_def newStatMgr_def)

section \<open>What is reported\<close>

lemma split_plain: "CHR ''$'' \<notin> set t \<Longrightarrow> split_loop sep 0 part t = [part @ t]"
  by (induction t arbitrary: part) (auto simp: HasPrefix_def sep_def)

lemma split_sep: "split_loop sep 0 part (sep @ t) = part # split_loop sep 0 [] t"
  by (simp add: sep_def HasPrefix_def numeral_eq_Suc)

lemma split_key:
  assumes "CHR ''$'' \<notin> set cmd" and "CHR ''$'' \<notin> set t"
  shows "split_loop sep 0 part (cmd @ sep @ t) = [part @ cmd, t]"
  using assms
proof (induction cmd arbitrary: part)
  case Nil
  then show ?case using split_plain [of t "[]"] by (simp add: split_sep)
next
  case (Cons c cmd)
  have "\<not> HasPrefix (c # cmd @ sep @ t) sep" using Cons.prems(1) by (auto simp: HasPrefix_def sep_def)
  with Cons show ?case by simp
qed

lemma Itoa_no_dollar: "CHR ''$'' \<notin> set (Itoa i)"
  using itoa_nat_digits [of "CHR ''$''"] by (auto simp: Itoa_def)

definition plain :: "Stat \<Rightarrow> bool" where
  "plain st = (CHR ''$'' \<notin> set (st_cmd st) \<and> - (2 ^ 63) \<le> st_ret st \<and> st_ret st < 2 ^ 63)"

lemma split_key_of: "plain st \<Longrightarrow> strings_Split (key_of st) sep = [st_cmd st, Itoa (st_ret st)]"
  using split_key [of "st_cmd st" "Itoa (st_ret st)" "[]"]
  by (simp add: strings_Split_def key_of_def stat_key_def plain_def Itoa_no_dollar)

lemma key_of_inj: "plain s \<Longrightarrow> plain s' \<Longrightarrow> key_of s = key_of s' \<longleftrightarrow> st_cmd s = st_cmd s' \<and> st_ret s = st_ret s'"
  using split_key_of by (auto simp: key_of_def) (metis Itoa_inj key_of_def list.inject)+

definition row_of :: "(string \<times> StatValue) list \<Rightarrow> string \<Rightarrow> stat_row" where
  "row_of m k = (case strings_Split k sep of
     [cmd, r] \<Rightarrow> (cmd, (case Atoi r of Some i \<Rightarrow> i | None \<Rightarrow> 2147483647), the (map_of m k)) | _ \<Rightarrow> undefined)"

definition key_ok :: "(string \<times> StatValue) list \<Rightarrow> string \<Rightarrow> bool" where
  "key_ok m k = (length (strings_Split k sep) = 2 \<and>
     (\<exists>v. map_of m k = Some v \<and> 0 \<le> sv_Gt10 v \<and> 0 \<le> sv_Gt100 v \<and> 0 \<le> sv_Gt500 v))"

lemma Max_insert_max: "finite A \<Longrightarrow> Max (insert (max a b) A) = Max (insert b (insert a A) :: int set)"
  by (cases "A = {}") (simp_all add: max.left_commute max.commute)

lemma Min_insert_min: "finite A \<Longrightarrow> Min (insert (min a b) A) = Min (insert b (insert a A) :: int set)"
  by (cases "A = {}") (simp_all add: min.left_commute min.commute)

lemma dump_keys_rows:
  assumes "\<forall>k \<in> set ks. key_ok m k" and "dump_keys m ks rows t = (rows', t')"
  shows "rows' = rows @ map (row_of m) ks \<and>
    tl_total t' = tl_total t + (\<Sum>k\<leftarrow>ks. sv_Total (the (map_of m k))) \<and>
    tl_gt10 t' = tl_gt10 t + (\<Sum>k\<leftarrow>ks. sv_Gt10 (the (map_of m k))) \<and>
    tl_gt100 t' = tl_gt100 t + (\<Sum>k\<leftarrow>ks. sv_Gt100 (the (map_of m k))) \<and>
    tl_gt500 t' = tl_gt500 t + (\<Sum>k\<leftarrow>ks. sv_Gt500 (the (map_of m k))) \<and>
    tl_max t' = Max (insert (tl_max t) ((\<lambda>k. sv_Max (the (map_of m k))) ` set ks)) \<and>
    tl_min t' = Min (insert (tl_min t) ((\<lambda>k. sv_Min (the (map_of m k))) ` set ks))"
  using assms
proof (induction ks arbitrary: rows t)
  case (Cons k ks)
  obtain v where v: "map_of m k = Some v" "0 \<le> sv_Gt10 v" "0 \<le> sv_Gt100 v" "0 \<le> sv_Gt500 v"
    using Cons.prems(1) by (auto simp: key_ok_def)
  obtain c r where s: "strings_Split k sep = [c, r]"
    using Cons.prems(1) by (auto simp: key_ok_def length_Suc_conv numeral_2_eq_2)
  have ifs: "(if b < a then a else b) = max a b" "(if a < b then a else b) = min a b"
      "0 \<le> a \<Longrightarrow> (if 0 < a then b + a else b) = b + a" for a b :: int
    by (auto simp: max_def min_def)
  define t1 where "t1 = \<lparr>tl_total = tl_total t + sv_Total v, tl_max = max (sv_Max v) (tl_max t),
      tl_min = min (sv_Min v) (tl_min t), tl_gt10 = tl_gt10 t + sv_Gt10 v, tl_gt100 = tl_gt100 t + sv_Gt100 v,
      tl_gt500 = tl_gt500 t + sv_Gt500 v\<rparr>"
  have step: "dump_keys m ks (rows @ [row_of m k]) t1 = (rows', t')"
    using Cons.prems(2) v by (simp add: s row_of_def Let_def t1_def ifs)
  from Cons.IH [OF _ step] Cons.prems(1) v show ?case
    by (simp add: t1_def Max_insert_max Min_insert_min)
qed simp

lemma count_times:
  "int (length (filter P (times_of k sts))) = int (count_list (map key_of (filter (\<lambda>st. P (micros st)) sts)) k)"
  by (induction sts) (auto simp: times_of_def)

lemma sum_over_keys:
  assumes "distinct ks" and "set ks = key_of ` set sts"
  shows "(\<Sum>k\<leftarrow>ks. int (length (filter P (times_of k sts)))) = int (length (filter (\<lambda>st. P (micros st)) sts))"
proof -
  let ?xs = "map key_of (filter (\<lambda>st. P (micros st)) sts)"
  have "sum (count_list ?xs) (set ks) = length ?xs"
    by (intro sum_count_set) (use assms(2) in auto)
  moreover have "(\<Sum>k\<leftarrow>ks. int (count_list ?xs k)) = int (sum (count_list ?xs) (set ks))"
    using assms(1) by (simp add: sum_list_distinct_conv_sum_set)
  ultimately show ?thesis by (simp add: count_times)
qed

lemma max_over_keys:
  assumes "K = key_of ` set sts"
  shows "Max (insert b ((\<lambda>k. max_time (times_of k sts)) ` K)) = Max (insert b (micros ` set sts))"
proof (rule Max_eqI)
  have fin: "finite (insert b (micros ` set sts))" by simp
  have mem: "set (times_of k sts) \<subseteq> micros ` set sts" for k by (auto simp: times_of_def)
  have ne: "times_of k sts \<noteq> []" if "k \<in> K" for k using that assms by (simp add: times_of_empty)
  have in_times: "max_time (times_of k sts) \<in> set (times_of k sts)" if "k \<in> K" for k
    using ne [OF that] by (simp add: max_time_def)
  show "finite (insert b ((\<lambda>k. max_time (times_of k sts)) ` K))" using assms by simp
  show "y \<le> Max (insert b (micros ` set sts))" if "y \<in> insert b ((\<lambda>k. max_time (times_of k sts)) ` K)" for y
    using that in_times mem by (intro Max_ge [OF fin]) blast
  have up: "micros st \<le> max_time (times_of (key_of st) sts)" if "st \<in> set sts" for st
    using that by (auto simp: max_time_def times_of_def)
  have "Max (insert b (micros ` set sts)) = b \<or> (\<exists>st \<in> set sts. Max (insert b (micros ` set sts)) = micros st)"
    using Max_in [OF fin] by blast
  then show "Max (insert b (micros ` set sts)) \<in> insert b ((\<lambda>k. max_time (times_of k sts)) ` K)"
  proof
    assume "\<exists>st \<in> set sts. Max (insert b (micros ` set sts)) = micros st"
    then obtain st where st: "st \<in> set sts" "Max (insert b (micros ` set sts)) = micros st" by blast
    have k: "key_of st \<in> K" using st(1) assms by simp
    have "max_time (times_of (key_of st) sts) \<le> micros st"
      using in_times [OF k] mem Max_ge [OF fin] st(2) by (metis insertCI subsetD)
    with up [OF st(1)] st(2) k show ?thesis by force
  qed simp
qed

lemma min_over_keys:
  assumes "K = key_of ` set sts"
  shows "Min (insert b ((\<lambda>k. min_time (times_of k sts)) ` K)) = Min (insert b (micros ` set sts))"
proof (rule Min_eqI)
  have fin: "finite (insert b (micros ` set sts))" by simp
  have mem: "set (times_of k sts) \<subseteq> micros ` set sts" for k by (auto simp: times_of_def)
  have ne: "times_of k sts \<noteq> []" if "k \<in> K" for k using that assms by (simp add: times_of_empty)
  have in_times: "min_time (times_of k sts) \<in> set (times_of k sts)" if "k \<in> K" for k
    using ne [OF that] by (simp add: min_time_def)
  show "finite (insert b ((\<lambda>k. min_time (times_of k sts)) ` K))" using assms by simp
  show "Min (insert b (micros ` set sts)) \<le> y" if "y \<in> insert b ((\<lambda>k. min_time (times_of k sts)) ` K)" for y
    using that in_times mem by (intro Min_le [OF fin]) blast
  have lo: "min_time (times_of (key_of st) sts) \<le> micros st" if "st \<in> set sts" for st
    using that by (auto simp: min_time_def times_of_def)
  have "Min (insert b (micros ` set sts)) = b \<or> (\<exists>st \<in> set sts. Min (insert b (micros ` set sts)) = micros st)"
    using Min_in [OF fin] by blast
  then show "Min (insert b (micros ` set sts)) \<in> insert b ((\<lambda>k. min_time (times_of k sts)) ` K)"
  proof
    assume "\<exists>st \<in> set sts. Min (insert b (micros ` set sts)) = micros st"
    then obtain st where st: "st \<in> set sts" "Min (insert b (micros ` set sts)) = micros st" by blast
    have k: "key_of st \<in> K" using st(1) assms by simp
    have "micros st \<le> min_time (times_of (key_of st) sts)"
      using in_times [OF k] mem Min_le [OF fin] st(2) by (metis insertCI subsetD)
    with lo [OF st(1)] st(2) k show ?thesis by force
  qed simp
qed

lemma summary_rows:
  assumes "list_all plain sts" and "k \<in> key_of ` set sts"
  shows "key_ok (sm_m (recorded sts)) k" and "the (map_of (sm_m (recorded sts)) k) = summary (times_of k sts)"
proof -
  have m: "map_of (sm_m (recorded sts)) k = Some (summary (times_of k sts))"
    using assms(2) by (simp add: recorded_map times_of_empty)
  obtain st where "st \<in> set sts" "k = key_of st" using assms(2) by blast
  with assms(1) have "length (strings_Split k sep) = 2" by (auto simp: list_all_iff split_key_of)
  with m show "key_ok (sm_m (recorded sts)) k" by (simp add: key_ok_def summary_def)
  from m show "the (map_of (sm_m (recorded sts)) k) = summary (times_of k sts)" by simp
qed

lemma row_of_key:
  assumes "list_all plain sts" and "st \<in> set sts"
  shows "row_of (sm_m (recorded sts)) (key_of st) = (st_cmd st, st_ret st, summary (times_of (key_of st) sts))"
  using assms summary_rows(2) [OF assms(1), of "key_of st"]
  by (auto simp: row_of_def split_key_of list_all_iff Atoi_Itoa plain_def)

lemma fold_al_del: "set xs \<subseteq> K \<Longrightarrow> (\<And>kv. kv \<in> set m \<Longrightarrow> fst kv \<in> set xs) \<Longrightarrow> fold al_del xs m = []"
proof -
  have "set (fold al_del xs m) = {kv \<in> set m. fst kv \<notin> set xs}" for m :: "('a \<times> 'b) list"
    by (induction xs arbitrary: m) (auto simp: al_del_def)
  then show "(\<And>kv. kv \<in> set m \<Longrightarrow> fst kv \<in> set xs) \<Longrightarrow> ?thesis" by (metis (mono_tags, lifting) Collect_empty_eq set_empty)
qed

section \<open>Property\<close>

text \<open>
  C38. The report is the statistics of the calls recorded since the last one: for calls whose command has
  no dollar sign there is one row for every pair of command and result, with the number, sum, maximum,
  minimum and duration classes of exactly its calls, the totals line counts every call once, and the map
  is empty afterwards.
\<close>

theorem dump_reports_calls:
  assumes "sts \<noteq> []" and "list_all plain sts" and "\<forall>st \<in> set sts. micros st < max_int64"
    and "mgr_dump (recorded sts) = (Some (rows, t), mgr')"
  shows "set rows = (\<lambda>st. (st_cmd st, st_ret st, summary (times_of (key_of st) sts))) ` set sts \<and>
    length rows = card ((\<lambda>st. (st_cmd st, st_ret st)) ` set sts) \<and>
    tl_total t = int (length sts) \<and> tl_max t = Max (insert 0 (micros ` set sts)) \<and> tl_min t = Min (micros ` set sts) \<and>
    tl_gt10 t = int (length (filter (\<lambda>st. between 10000 100000 (micros st)) sts)) \<and>
    tl_gt100 t = int (length (filter (\<lambda>st. between 100000 500000 (micros st)) sts)) \<and>
    tl_gt500 t = int (length (filter (\<lambda>st. 500000 \<le> micros st) sts)) \<and> sm_m mgr' = []"
proof -
  let ?m = "sm_m (recorded sts)" and ?t0 = "\<lparr>tl_total = 0, tl_max = 0, tl_min = max_int64, tl_gt10 = 0, tl_gt100 = 0, tl_gt500 = 0\<rparr>"
  define ks where "ks = sort (map fst ?m)"
  have ks: "set ks = key_of ` set sts" "distinct ks" using recorded_keys [of sts] by (simp_all add: ks_def)
  obtain t1 where d: "dump_keys ?m ks [] ?t0 = (rows, t1)"
      and t: "t = t1\<lparr>tl_min := (if tl_min t1 = max_int64 then 0 else tl_min t1)\<rparr>" and m': "sm_m mgr' = fold al_del ks ?m"
    using assms(4) by (auto simp: mgr_dump_def ks_def split: if_splits prod.splits)
  have ok: "\<forall>k \<in> set ks. key_ok ?m k" using summary_rows(1) [OF assms(2)] ks(1) by blast
  have val: "the (map_of ?m k) = summary (times_of k sts)" if "k \<in> set ks" for k
    using summary_rows(2) [OF assms(2)] that ks(1) by blast
  have sums: "(\<Sum>k\<leftarrow>ks. f (the (map_of ?m k))) = (\<Sum>k\<leftarrow>ks. f (summary (times_of k sts)))" for f :: "StatValue \<Rightarrow> int"
    by (intro arg_cong [where f = sum_list] map_cong refl) (simp add: val)
  have imgs: "(\<lambda>k. f (the (map_of ?m k))) ` set ks = (\<lambda>k. f (summary (times_of k sts))) ` set ks" for f :: "StatValue \<Rightarrow> int"
    by (intro image_cong refl) (simp add: val)
  note r = dump_keys_rows [OF ok d, unfolded sums imgs, simplified summary_def StatValue.select_convs]
  have rows: "set rows = (\<lambda>st. (st_cmd st, st_ret st, summary (times_of (key_of st) sts))) ` set sts"
    using r row_of_key [OF assms(2)] by (auto simp: ks(1) image_image)
  have "card (key_of ` set sts) = card ((\<lambda>st. (st_cmd st, st_ret st)) ` set sts)"
  proof -
    have "key_of ` set sts = (\<lambda>(c, r). stat_key c r) ` ((\<lambda>st. (st_cmd st, st_ret st)) ` set sts)"
      by (auto simp: key_of_def image_image)
    moreover have "inj_on (\<lambda>(c, r). stat_key c r) ((\<lambda>st. (st_cmd st, st_ret st)) ` set sts)"
      using assms(2) key_of_inj by (fastforce simp: inj_on_def key_of_def list_all_iff)
    ultimately show ?thesis by (simp add: card_image)
  qed
  then have len: "length rows = card ((\<lambda>st. (st_cmd st, st_ret st)) ` set sts)"
    using r ks by (simp add: distinct_card [symmetric])
  have "Min (micros ` set sts) \<in> micros ` set sts" using assms(1) by (intro Min_in) auto
  then have "Min (micros ` set sts) < max_int64" using assms(3) by auto
  then have min_le: "Min (insert max_int64 (micros ` set sts)) = Min (micros ` set sts)" "Min (micros ` set sts) \<noteq> max_int64"
    using assms(1) by (simp_all add: min.absorb2 del: Min_less_iff)
  have emp: "sm_m mgr' = []"
    unfolding m' by (rule fold_al_del [of ks "set ks"]) (use recorded_keys(1) [of sts] ks(1) in auto)
  show ?thesis
    using rows len emp r t min_le sum_over_keys [OF ks(2,1), of "\<lambda>d. True"] sum_over_keys [OF ks(2,1)]
    by (simp add: max_over_keys [OF ks(1)] min_over_keys [OF ks(1)])
qed

definition ex_stats :: "Stat list" where
  "ex_stats = [\<lparr>st_cmd = ''get'', st_b = 0, st_e = 12000000, st_ret = 0\<rparr>, \<lparr>st_cmd = ''get'', st_b = 0, st_e = 900000000, st_ret = - 1\<rparr>,
     \<lparr>st_cmd = ''get'', st_b = 5000, st_e = 9000, st_ret = 0\<rparr>]"

theorem dump_reports_calls_witness:
  "\<exists>rows t mgr'. mgr_dump (recorded ex_stats) = (Some (rows, t), mgr') \<and> length rows = 2 \<and> tl_total t = 3"
proof -
  have m: "map micros ex_stats = [12000, 900000, 4]" "list_all plain ex_stats" "ex_stats \<noteq> []" by code_simp+
  then have b: "\<forall>st \<in> set ex_stats. micros st < max_int64"
    by (auto simp: ex_stats_def max_int64_def)
  have "sm_m (recorded ex_stats) \<noteq> []" by code_simp
  then obtain rows t mgr' where d: "mgr_dump (recorded ex_stats) = (Some (rows, t), mgr')"
    by (cases "mgr_dump (recorded ex_stats)") (auto simp: mgr_dump_def split: prod.splits)
  have "card ((\<lambda>st. (st_cmd st, st_ret st)) ` set ex_stats) = 2" by code_simp
  with dump_reports_calls [OF m(3,2) b d] d show ?thesis by (auto simp: ex_stats_def)
qed

end
