(* ===== verification/DHttpServer.thy ===== *)
theory DHttpServer
  imports Gl Stat Utls
begin

text \<open>
  The http server of \<open>net/dhttp\<close>: registration of handlers (\<open>server.go\<close>), the reflective wrapper that turns a function into
  a gin handler (\<open>wrap.go\<close>), and the filters around it (\<open>filter.go\<close>).

  A gin handler changes the state of a request, \<open>hsrv\<close>, and returns or panics; the state is kept on a panic because deferred
  functions still run.  Binding and unmarshalling of data, and whether an answer can be rendered, are arguments
  (\<open>wenv\<close>).  Of gin, the model has what its documentation says of \<open>Bind\<close>, \<open>Abort\<close>, \<open>Status\<close> and \<open>JSON\<close>: the status
  line goes out once and with the first status.
\<close>

section \<open>State of a request\<close>

text \<open>What a handler function returns, and the values kept in a gin context; \<open>HErr None\<close> is a nil error.\<close>

datatype hout = HInt int | HStr string | HErr "string option" | HVal string | HNil

record hret =
  ht_code :: int
  ht_result :: hout
  ht_message :: string

text \<open>The argument made for a handler: a pointer to decoded data, a nil pointer, or a zero value.\<close>

datatype harg = ArgPtr string | ArgNilPtr | ArgZero

datatype kv = KNil | KInt int | KStr string | KBytes "byte list" | KErr string | KRet hret | KData harg | KOther string

record slog =
  sl_tag :: string
  sl_pk :: string
  sl_method :: string
  sl_path :: string
  sl_httpStatus :: int
  sl_cost :: int
  sl_err :: string
  sl_data :: kv
  sl_ret :: kv
  sl_gl :: "(string \<times> gany) list"

datatype pcev = PcCost string int | PcIncr string int

text \<open>\<open>gs_head\<close> is the status line once it is sent, \<open>gs_body\<close> the documents sent after it.\<close>

record hsrv =
  gs_keys :: "(string \<times> kv) list"
  gs_head :: "int option"
  gs_body :: "kv list"
  gs_aborted :: bool
  gs_gl :: gl_state
  gs_stat :: "StatMgr option"
  gs_pc :: "pcev list"
  gs_log :: "slog list"

type_synonym 'a hm = "hsrv \<Rightarrow> 'a go \<times> hsrv"

definition hbind :: "'a hm \<Rightarrow> ('a \<Rightarrow> 'b hm) \<Rightarrow> 'b hm" where
  "hbind m f s = (case m s of (Inl p, s') \<Rightarrow> (Inl p, s') | (Inr x, s') \<Rightarrow> f x s')"

definition hreturn :: "'a \<Rightarrow> 'a hm" where
  "hreturn x s = (Inr x, s)"

definition hpanic :: "go_panic \<Rightarrow> 'a hm" where
  "hpanic p s = (Inl p, s)"

text \<open>A deferred function runs whether or not the body panics.\<close>

definition hdefer :: "'a hm \<Rightarrow> unit hm \<Rightarrow> 'a hm" where
  "hdefer m d s = (case m s of (r, s') \<Rightarrow> (case d s' of (Inl p, s'') \<Rightarrow> (Inl p, s'') | (Inr _, s'') \<Rightarrow> (r, s'')))"

definition c_Set :: "string \<Rightarrow> kv \<Rightarrow> unit hm" where
  "c_Set k v s = (Inr (), s\<lparr>gs_keys := al_set k v (gs_keys s)\<rparr>)"

definition c_Get :: "string \<Rightarrow> kv option hm" where
  "c_Get k s = (Inr (map_of (gs_keys s) k), s)"

definition on_gl :: "(gl_state \<Rightarrow> ('a \<times> gl_state) go) \<Rightarrow> 'a hm" where
  "on_gl f s = (case f (gs_gl s) of Inl p \<Rightarrow> (Inl p, s) | Inr (x, g) \<Rightarrow> (Inr x, s\<lparr>gs_gl := g\<rparr>))"

definition gl_read :: "(gl_state \<Rightarrow> 'a go) \<Rightarrow> 'a hm" where
  "gl_read f = on_gl (\<lambda>g. go_bind (f g) (\<lambda>x. Inr (x, g)))"

section \<open>The wrapper\<close>

datatype gtype = TBool | TInt | TString | TError | TInterface | TStruct string | TPtr gtype | TNamed string gtype | TFunc "gtype list" "gtype list"

datatype gkind = KdBool | KdInt | KdString | KdInterface | KdStruct | KdPtr | KdFunc

fun Kind :: "gtype \<Rightarrow> gkind" where
  "Kind TBool = KdBool" | "Kind TInt = KdInt" | "Kind TString = KdString" | "Kind TError = KdInterface" | "Kind TInterface = KdInterface"
| "Kind (TStruct n) = KdStruct" | "Kind (TPtr t) = KdPtr" | "Kind (TNamed n t) = Kind t" | "Kind (TFunc i out) = KdFunc"

definition ginContext :: gtype where
  "ginContext = TStruct ''gin.Context''"

text \<open>The kind of a pointer to a pointer: any pointer.\<close>

definition ptrToGinCtx :: gkind where
  "ptrToGinCtx = Kind (TPtr (TPtr ginContext))"

fun underlying :: "gtype \<Rightarrow> gtype" where
  "underlying (TNamed n t) = underlying t"
| "underlying t = t"

text \<open>\<open>impl\<close> says which types implement the interface \<open>error\<close>.  \<open>None\<close> is the nil error.\<close>

definition CheckWrap :: "(gtype \<Rightarrow> bool) \<Rightarrow> gtype \<Rightarrow> string option" where
  "CheckWrap impl wt =
     (case underlying wt of
        TFunc ins outs \<Rightarrow>
          if length ins < 2 then Some ''params in count must > 2''
          else if Kind (ins ! 0) \<noteq> ptrToGinCtx then Some ''first param in must *gin.Context''
          else if length outs < 4 then Some ''params out count must > 4''
          else if Kind (outs ! 0) \<noteq> KdInt then Some ''params out 1 must be int''
          else if Kind (outs ! 1) \<noteq> KdString then Some ''params out 2 must be string''
          else if \<not> impl (outs ! 2) then Some ''params out 3 must be error''
          else None
      | _ \<Rightarrow> Some ''toWrap must be func'')"

record hfunc =
  fn_type :: gtype
  fn_run :: "harg \<Rightarrow> hout list hm"

text \<open>
  Binding: \<open>we_Bind\<close> is the panic of \<open>c.Bind\<close>, which reflection may raise for a value that is no pointer, or its error
  and what it leaves in the variable, \<open>we_Unmarshal\<close> the same for \<open>json.Unmarshal\<close>, which returns an error there;
  neither can change a value that is not passed by a pointer.  \<open>we_Render\<close> is the error of marshalling or writing an
  answer.
\<close>

record wenv =
  we_Method :: string
  we_RequestURI :: string
  we_Bind :: "gtype \<Rightarrow> (string option \<times> string) go"
  we_Unmarshal :: "gtype \<Rightarrow> byte list \<Rightarrow> string option \<times> string"
  we_Render :: "kv \<Rightarrow> string option"

text \<open>The status line is sent once; a later status changes nothing.\<close>

definition send_head :: "int \<Rightarrow> hsrv \<Rightarrow> hsrv" where
  "send_head code s = (case gs_head s of None \<Rightarrow> s\<lparr>gs_head := Some code\<rparr> | Some _ \<Rightarrow> s)"

text \<open>\<open>c.Status\<close> ignores a code that is not positive, and 200 is the status of an answer without one.\<close>

definition sent_status :: "int \<Rightarrow> int" where
  "sent_status code = (if code > 0 then code else 200)"

definition body_allowed :: "int \<Rightarrow> bool" where
  "body_allowed code \<longleftrightarrow> \<not> (100 \<le> code \<and> code \<le> 199) \<and> code \<noteq> 204 \<and> code \<noteq> 304"

text \<open>
  \<open>c.JSON\<close>: no body for some codes; otherwise it panics with the error of rendering, and \<open>net/http\<close> panics when it has to
  send a status that does not have three digits.
\<close>

definition c_JSON :: "wenv \<Rightarrow> int \<Rightarrow> kv \<Rightarrow> unit hm" where
  "c_JSON W code ret s =
     (if \<not> body_allowed code then (Inr (), send_head code s)
      else case we_Render W ret of
             Some e \<Rightarrow> (Inl (PanicValue e), s)
           | None \<Rightarrow>
               if gs_head s = None \<and> \<not> (100 \<le> sent_status code \<and> sent_status code \<le> 999)
               then (Inl (PanicValue ''invalid WriteHeader code''), s)
               else (Inr (), send_head (sent_status code) (s\<lparr>gs_body := gs_body s @ [ret]\<rparr>)))"

definition Return :: "int \<Rightarrow> string \<Rightarrow> string option \<Rightarrow> hout \<Rightarrow> unit hm" where
  "Return code message err result =
     hbind (c_Set ''ret'' (KRet \<lparr>ht_code = code, ht_result = result, ht_message = message\<rparr>)) (\<lambda>_.
     hbind (c_Set ''code'' (KInt code)) (\<lambda>_.
     case err of None \<Rightarrow> hreturn () | Some e \<Rightarrow> c_Set ''err'' (KErr e)))"

definition refuse :: "int \<Rightarrow> string \<Rightarrow> string option \<Rightarrow> harg option hm" where
  "refuse code message err =
     hbind (Return code message err HNil) (\<lambda>_. hbind (c_Set ''session_log_level'' (KStr ''INFO'')) (\<lambda>_. hreturn None))"

definition new_arg :: "gtype \<Rightarrow> string \<Rightarrow> harg" where
  "new_arg t d = (if Kind t = KdPtr then ArgPtr d else ArgZero)"

text \<open>When it fails, \<open>c.Bind\<close> sends the status 400 at once and aborts the request.\<close>

definition c_Bind :: "wenv \<Rightarrow> gtype \<Rightarrow> (string option \<times> string) hm" where
  "c_Bind W t s =
     (case we_Bind W t of
        Inl p \<Rightarrow> (Inl p, s)
      | Inr (None, d) \<Rightarrow> (Inr (None, d), s)
      | Inr (Some err, d) \<Rightarrow> (Inr (Some err, d), (send_head 400 s)\<lparr>gs_aborted := True\<rparr>))"

text \<open>The argument for the handler; \<open>None\<close> when the request was answered with an error.\<close>

definition parse_data :: "wenv \<Rightarrow> gtype \<Rightarrow> harg option hm" where
  "parse_data W inType =
     hbind (c_Get ''data_raw'') (\<lambda>raw.
     case raw of
       None \<Rightarrow>
         hbind (c_Bind W inType) (\<lambda>(err, d).
         if we_Method W = ''GET'' \<or> err = None
         then hbind (c_Set ''data'' (KData (new_arg inType d))) (\<lambda>_. hreturn (Some (new_arg inType d)))
         else refuse 400 ''data not valid'' err)
     | Some (KBytes bts) \<Rightarrow>
         (if bts \<noteq> []
          then (case we_Unmarshal W inType bts of
                  (Some jsonErr, d) \<Rightarrow> refuse 500 ''data type not valid'' (Some jsonErr)
                | (None, d) \<Rightarrow>
                    hbind (c_Set ''data'' (KData (new_arg inType d))) (\<lambda>_. hreturn (Some (new_arg inType d))))
          else (let arg = (if Kind inType = KdPtr then ArgNilPtr else ArgZero)
                in hbind (c_Set ''data'' (KData arg)) (\<lambda>_. hreturn (Some arg))))
     | Some _ \<Rightarrow> refuse 500 ''data not byte array'' None)"

text \<open>
  \<open>refToWrap.Call(in)\<close>: only the first two arguments are set, and the first one is a \<open>*gin.Context\<close>.
\<close>

definition reflect_Call :: "hfunc \<Rightarrow> gtype list \<Rightarrow> harg \<Rightarrow> hout list hm" where
  "reflect_Call F ins arg =
     (if underlying (ins ! 0) \<noteq> TPtr ginContext \<and> underlying (ins ! 0) \<noteq> TInterface then hpanic (PanicValue ''reflect: Call using *gin.Context as type'')
      else if length ins > 2 then hpanic (PanicValue ''reflect: Call using zero Value argument'')
      else fn_run F arg)"

text \<open>A type assertion with two results gives the zero value when the type is another one.\<close>

definition out_int :: "gtype \<Rightarrow> hout \<Rightarrow> int" where
  "out_int t v = (case v of HInt n \<Rightarrow> if t = TInt then n else 0 | _ \<Rightarrow> 0)"

definition out_str :: "gtype \<Rightarrow> hout \<Rightarrow> string" where
  "out_str t v = (case v of HStr x \<Rightarrow> if t = TString then x else [] | _ \<Rightarrow> [])"

definition out_err :: "hout \<Rightarrow> string option" where
  "out_err v = (case v of HErr e \<Rightarrow> e | _ \<Rightarrow> None)"

definition wrapped :: "wenv \<Rightarrow> hfunc \<Rightarrow> gtype list \<Rightarrow> gtype list \<Rightarrow> unit hm" where
  "wrapped W F ins outs =
     hbind (parse_data W (ins ! 1)) (\<lambda>a.
     case a of
       None \<Rightarrow> hreturn ()
     | Some arg \<Rightarrow>
         hbind (reflect_Call F ins arg) (\<lambda>out.
         if length out \<noteq> 4 then Return 500 ''ret not 4!'' None HNil
         else Return (out_int (outs ! 0) (out ! 0)) (out_str (outs ! 1) (out ! 1)) (out_err (out ! 2)) (out ! 3)))"

text \<open>\<open>Wrap\<close> panics for a value that is no function or has fewer than two parameters.\<close>

definition Wrap :: "wenv \<Rightarrow> hfunc \<Rightarrow> unit hm go" where
  "Wrap W F =
     (case underlying (fn_type F) of
        TFunc ins outs \<Rightarrow> if length ins < 2 then Inl (PanicValue ''reflect: Func index out of bounds'') else Inr (wrapped W F ins outs)
      | _ \<Rightarrow> Inl (PanicValue ''reflect: NumIn of non-func type''))"

text \<open>\<open>sprint\<close> is the verb \<open>%v\<close>.\<close>

definition no_ret :: "string \<Rightarrow> kv" where
  "no_ret msg = KRet \<lparr>ht_code = 500, ht_result = HNil, ht_message = msg\<rparr>"

definition ParseRet :: "(kv \<Rightarrow> string) \<Rightarrow> (kv \<times> kv option) hm" where
  "ParseRet sprint =
     hbind (c_Get ''err'') (\<lambda>origErr.
     hbind (c_Get ''ret'') (\<lambda>retObj.
     let nil_err = (origErr = None \<or> origErr = Some KNil)
     in case retObj of
          None \<Rightarrow>
            hbind (if nil_err then c_Set ''err'' (KErr ''no ret found'') else hreturn ()) (\<lambda>_. hreturn (no_ret ''no result'', origErr))
        | Some KNil \<Rightarrow>
            hbind (c_Set ''err'' (KErr (''ret empty?,origRet='' @ sprint KNil @ (if nil_err then [] else '',origErr='' @ sprint (the origErr))))) (\<lambda>_.
            hreturn (no_ret ''empty result'', origErr))
        | Some ret \<Rightarrow> hreturn (ret, origErr)))"

section \<open>Filters\<close>

text \<open>A filter gets the rest of the chain, which \<open>c.Next\<close> runs.  \<open>status_code\<close> is \<open>httpStatusInterface.(int)\<close>.\<close>

definition status_code :: "int hm" where
  "status_code = hbind (c_Get ''code'') (\<lambda>v. case v of Some (KInt n) \<Rightarrow> hreturn n | _ \<Rightarrow> hpanic TypeAssertion)"

definition GroupFilter :: "wenv \<Rightarrow> (kv \<Rightarrow> string) \<Rightarrow> unit hm \<Rightarrow> unit hm" where
  "GroupFilter W sprint nxt =
     hbind nxt (\<lambda>_.
     hbind (ParseRet sprint) (\<lambda>(ret, _).
     hbind status_code (\<lambda>httpStatus. c_JSON W httpStatus ret)))"

definition GlFilter :: "int \<Rightarrow> unit hm \<Rightarrow> unit hm" where
  "GlFilter goid nxt =
     hbind (on_gl (\<lambda>g. go_bind (gl_Init goid g) (\<lambda>g. Inr ((), g)))) (\<lambda>_.
     hdefer nxt (on_gl (\<lambda>g. go_bind (gl_Close goid g) (\<lambda>g. Inr ((), g)))))"

definition url_path :: "string \<Rightarrow> string" where
  "url_path uri = hd (strings_Split uri ''?'')"

definition StatFilter :: "string \<Rightarrow> int \<Rightarrow> int \<Rightarrow> unit hm \<Rightarrow> unit hm" where
  "StatFilter uri begin_at now nxt =
     (let st = BeginAt (url_path uri) begin_at \<lparr>st_cmd = [], st_b = 0, st_e = 0, st_ret = 0\<rparr>
      in hbind nxt (\<lambda>_.
         hbind status_code (\<lambda>httpStatus s. (Inr (), s\<lparr>gs_stat := Stat_End now httpStatus st (gs_stat s)\<rparr>))))"

text \<open>
  What the logger reads of the request and its surroundings: the trace ids of the query, the header and a new one, the
  address, the times in nanoseconds, and how values are printed.
\<close>

record lenv =
  le_goid :: int
  le_queryTrace :: string
  le_headerTrace :: string
  le_newTrace :: string
  le_realIp :: "string option"
  le_start :: int
  le_end :: int
  le_sprint :: "kv \<Rightarrow> string"
  le_glprint :: "gany \<Rightarrow> string"
  le_order :: "(gany \<times> gany) list \<Rightarrow> (gany \<times> gany) list"

definition set_gl :: "lenv \<Rightarrow> string \<Rightarrow> string \<Rightarrow> unit hm" where
  "set_gl V k v = on_gl (gl_Set (le_goid V) (AStr k) (AStr v))"

definition trace_id :: "lenv \<Rightarrow> unit hm" where
  "trace_id V =
     (if le_queryTrace V \<noteq> [] then set_gl V ''glLogId'' (le_queryTrace V)
      else if le_headerTrace V \<noteq> [] then set_gl V ''glLogId'' (le_headerTrace V)
      else hbind (c_Set ''trace_id'' (KStr (le_newTrace V))) (\<lambda>_. set_gl V ''glLogId'' (le_newTrace V)))"

text \<open>Whether a flag in the storage asks to leave something out.\<close>

definition hidden :: "lenv \<Rightarrow> string \<Rightarrow> bool hm" where
  "hidden V k =
     hbind (gl_read (gl_Get (le_goid V) (AStr k))) (\<lambda>t.
     case t of None \<Rightarrow> hreturn False | Some (ABool b) \<Rightarrow> hreturn b | Some _ \<Rightarrow> hpanic TypeAssertion)"

definition log_data :: "lenv \<Rightarrow> kv hm" where
  "log_data V =
     hbind (hidden V ''glHideData'') (\<lambda>hide.
     if hide then hreturn KNil
     else hbind (c_Get ''data'') (\<lambda>d.
          case d of
            Some v \<Rightarrow> hreturn v
          | None \<Rightarrow>
              hbind (c_Get ''data_raw'') (\<lambda>r.
              hreturn (case r of
                         None \<Rightarrow> KNil
                       | Some (KBytes b) \<Rightarrow> KStr (map (\<lambda>w. char_of (unat w)) b)
                       | Some v \<Rightarrow> KStr (le_sprint V v)))))"

definition log_ret :: "lenv \<Rightarrow> kv hm" where
  "log_ret V =
     hbind (hidden V ''glHideRet'') (\<lambda>hide.
     if hide then hreturn KNil
     else hbind (c_Get ''ret'') (\<lambda>r. hreturn (case r of None \<Rightarrow> KNil | Some v \<Rightarrow> v)))"

definition err_text :: "lenv \<Rightarrow> kv option \<Rightarrow> string" where
  "err_text V e = (case e of None \<Rightarrow> [] | Some KNil \<Rightarrow> [] | Some (KErr x) \<Rightarrow> x | Some v \<Rightarrow> le_sprint V v)"

definition add_pc :: "pcev list \<Rightarrow> unit hm" where
  "add_pc evs s = (Inr (), s\<lparr>gs_pc := gs_pc s @ evs\<rparr>)"

definition add_log :: "slog \<Rightarrow> unit hm" where
  "add_log l s = (Inr (), s\<lparr>gs_log := gs_log s @ [l]\<rparr>)"

definition Logger :: "wenv \<Rightarrow> lenv \<Rightarrow> string \<Rightarrow> unit hm \<Rightarrow> unit hm" where
  "Logger W V pk nxt =
     (let realIp = (case le_realIp V of None \<Rightarrow> [] | Some ip \<Rightarrow> ip);
          path = url_path (we_RequestURI W);
          costDu = le_end V - le_start V;
          cost = go_quot costDu 1000000
      in hbind (set_gl V ''glServer'' pk) (\<lambda>_.
         hbind (trace_id V) (\<lambda>_.
         hbind (c_Set ''remote_ip'' (KStr realIp)) (\<lambda>_.
         hbind (set_gl V ''glClientIp'' realIp) (\<lambda>_.
         hbind nxt (\<lambda>_.
         hbind (add_pc [PcCost (pk @ '',uri=path,path='' @ path) costDu, PcCost pk costDu]) (\<lambda>_.
         hbind (log_data V) (\<lambda>data.
         hbind (log_ret V) (\<lambda>ret.
         hbind status_code (\<lambda>httpStatus.
         hbind (add_pc (if httpStatus \<noteq> 200 then [PcIncr (pk @ '',httpcode='' @ Itoa httpStatus) 1] else [])) (\<lambda>_.
         hbind (c_Get ''err'') (\<lambda>handleErr.
         hbind (gl_read (GetCurrentGlData (le_glprint V) (le_order V) (le_goid V))) (\<lambda>glData.
         add_log \<lparr>sl_tag = (if cost > 100 then ''SESSION_SLOW'' else ''SESSION''), sl_pk = pk, sl_method = we_Method W, sl_path = path,
                  sl_httpStatus = httpStatus, sl_cost = cost, sl_err = err_text V handleErr, sl_data = data, sl_ret = ret,
                  sl_gl = glData\<rparr>)))))))))))))"

section \<open>Server\<close>

record HttpServer =
  hs_UseHttps :: bool
  hs_HttpsCertFile :: string
  hs_HttpsKeyFile :: string
  hs_ShutdownTimeout :: int
  hs_ReadTimeout :: int
  hs_WriteTimeout :: int
  hs_RunAddr :: string
  hs_RunPort :: int
  hs_HandlerMap :: "(string \<times> gtype) list"
  hs_server :: "(string \<times> int \<times> int) option"

definition addHandler :: "string \<Rightarrow> gtype \<Rightarrow> HttpServer \<Rightarrow> HttpServer" where
  "addHandler url handle h = h\<lparr>hs_HandlerMap := al_set url handle (hs_HandlerMap h)\<rparr>"

fun check_all :: "(gtype \<Rightarrow> bool) \<Rightarrow> (string \<times> gtype) list \<Rightarrow> string option" where
  "check_all impl [] = None"
| "check_all impl ((k, v) # hs) = (case CheckWrap impl v of Some err \<Rightarrow> Some err | None \<Rightarrow> check_all impl hs)"

definition CheckHandle :: "(gtype \<Rightarrow> bool) \<Rightarrow> HttpServer \<Rightarrow> string option" where
  "CheckHandle impl h = check_all impl (hs_HandlerMap h)"

text \<open>The second result is the method under which the wrapped handler is given to the router; \<open>Handle\<close> takes it as an argument.\<close>

definition srv_Handle :: "wenv \<Rightarrow> string \<Rightarrow> string \<Rightarrow> hfunc \<Rightarrow> HttpServer \<Rightarrow> (HttpServer \<times> string \<times> string \<times> unit hm) go" where
  "srv_Handle W httpMethod relativePath handler h =
     go_bind (Wrap W handler) (\<lambda>ginHandler.
     Inr (addHandler relativePath (fn_type handler) h, httpMethod, relativePath, ginHandler))"

definition srv_method :: "string \<Rightarrow> string" where
  "srv_method name = (if name \<in> {''PATCH'', ''PUT'', ''OPTIONS''} then ''DELETE'' else name)"

text \<open>\<open>POST\<close>, \<open>GET\<close>, \<open>DELETE\<close>, \<open>PATCH\<close>, \<open>PUT\<close> and \<open>OPTIONS\<close>.\<close>

definition srv_register :: "wenv \<Rightarrow> string \<Rightarrow> string \<Rightarrow> hfunc \<Rightarrow> HttpServer \<Rightarrow> (HttpServer \<times> string \<times> string \<times> unit hm) go" where
  "srv_register W name relativePath handler h = srv_Handle W (srv_method name) relativePath handler h"

definition makeHttpServer :: "string option \<Rightarrow> HttpServer \<Rightarrow> string option \<times> HttpServer" where
  "makeHttpServer initErr h =
     (case initErr of
        Some err \<Rightarrow> (Some err, h)
      | None \<Rightarrow>
          (None, h\<lparr>hs_server := Some ((if hs_RunAddr h \<noteq> [] then hs_RunAddr h else []) @ '':'' @ Itoa (hs_RunPort h),
                                      hs_ReadTimeout h, hs_WriteTimeout h)\<rparr>))"

definition positive_or :: "int \<Rightarrow> int \<Rightarrow> int" where
  "positive_or d n = (if n \<le> 0 then d else n)"

text \<open>\<open>initErr\<close> is the error of \<open>HttpServerInit\<close>.  Listening happens in a goroutine of its own.\<close>

definition srv_Start :: "string option \<Rightarrow> HttpServer \<Rightarrow> string option \<times> HttpServer" where
  "srv_Start initErr h =
     (if hs_UseHttps h \<and> (hs_HttpsCertFile h = [] \<or> hs_HttpsKeyFile h = []) then (Some ''https cert file or key file not set'', h)
      else makeHttpServer initErr
             (h\<lparr>hs_ReadTimeout := positive_or 10 (hs_ReadTimeout h), hs_WriteTimeout := positive_or 10 (hs_WriteTimeout h),
                hs_ShutdownTimeout := positive_or 20 (hs_ShutdownTimeout h)\<rparr>))"

section \<open>What a wrapped handler does\<close>

lemmas hm_defs = hbind_def hreturn_def hpanic_def c_Set_def c_Get_def

text \<open>
  The argument for the handler, or code, message and error of the answer; \<open>b\<close> is what \<open>c.Bind\<close> returns where it is called.
\<close>

definition decode :: "wenv \<Rightarrow> gtype \<Rightarrow> string option \<times> string \<Rightarrow> kv option \<Rightarrow> (int \<times> string \<times> string option) + harg" where
  "decode W t b raw =
     (case raw of
        None \<Rightarrow>
          if we_Method W = ''GET'' \<or> fst b = None then Inr (new_arg t (snd b))
          else Inl (400, ''data not valid'', fst b)
      | Some (KBytes bts) \<Rightarrow>
          if bts = [] then Inr (if Kind t = KdPtr then ArgNilPtr else ArgZero)
          else (case we_Unmarshal W t bts of
                  (Some e, d) \<Rightarrow> Inl (500, ''data type not valid'', Some e)
                | (None, d) \<Rightarrow> Inr (new_arg t d))
      | Some _ \<Rightarrow> Inl (500, ''data not byte array'', None))"

definition bind_failed :: "string option \<times> string \<Rightarrow> kv option \<Rightarrow> bool" where
  "bind_failed b raw \<longleftrightarrow> raw = None \<and> fst b \<noteq> None"

text \<open>
  Changes that a wrapped handler makes to its request: the context, the mark of an aborted request, and the status 400
  sent by a failing \<open>Bind\<close>.
\<close>

definition only_context :: "bool \<Rightarrow> hsrv \<Rightarrow> hsrv \<Rightarrow> bool" where
  "only_context failed s s' \<longleftrightarrow> (\<exists>ks a. s' = (if failed then send_head 400 s else s)\<lparr>gs_keys := ks, gs_aborted := a\<rparr>)"

lemma send_head_fields [simp]:
  "gs_keys (send_head c s) = gs_keys s" "gs_body (send_head c s) = gs_body s" "gs_gl (send_head c s) = gs_gl s"
  "gs_stat (send_head c s) = gs_stat s" "gs_pc (send_head c s) = gs_pc s" "gs_log (send_head c s) = gs_log s"
  "gs_head (send_head c s) = (case gs_head s of None \<Rightarrow> Some c | h \<Rightarrow> h)"
  by (simp_all add: send_head_def split: option.split)

lemma only_context_refl [simp]: "only_context False s s"
  unfolding only_context_def by (intro exI [of _ "gs_keys s"] exI [of _ "gs_aborted s"]) simp

lemma only_context_bind: "only_context True s ((send_head 400 s)\<lparr>gs_aborted := True\<rparr>)"
  unfolding only_context_def by (intro exI [of _ "gs_keys s"] exI [of _ True]) simp

lemma only_context_keys [simp]: "only_context f s s' \<Longrightarrow> only_context f s (s'\<lparr>gs_keys := ks\<rparr>)"
proof -
  assume "only_context f s s'"
  then obtain ks0 a where "s' = (if f then send_head 400 s else s)\<lparr>gs_keys := ks0, gs_aborted := a\<rparr>"
    by (auto simp: only_context_def)
  then have "s'\<lparr>gs_keys := ks\<rparr> = (if f then send_head 400 s else s)\<lparr>gs_keys := ks, gs_aborted := a\<rparr>" by simp
  then show ?thesis unfolding only_context_def by blast
qed

lemma Return_sets:
  "\<exists>ks. Return code message err result s = (Inr (), s\<lparr>gs_keys := ks\<rparr>) \<and>
     map_of ks ''code'' = Some (KInt code) \<and> map_of ks ''ret'' = Some (KRet \<lparr>ht_code = code, ht_result = result, ht_message = message\<rparr>) \<and>
     map_of ks ''err'' = (case err of None \<Rightarrow> map_of (gs_keys s) ''err'' | Some e \<Rightarrow> Some (KErr e))"
  by (auto simp: Return_def hm_defs map_of_al_set split: option.splits)

lemma refuse_sets:
  "\<exists>ks. refuse code message err s = (Inr None, s\<lparr>gs_keys := ks\<rparr>) \<and> map_of ks ''code'' = Some (KInt code) \<and>
     map_of ks ''ret'' = Some (KRet \<lparr>ht_code = code, ht_result = HNil, ht_message = message\<rparr>)"
  using Return_sets [of code message err HNil s] by (auto simp: refuse_def hm_defs map_of_al_set)

text \<open>What \<open>parse_data\<close> does where binding returns \<open>b\<close>.\<close>

definition parsed :: "wenv \<Rightarrow> gtype \<Rightarrow> string option \<times> string \<Rightarrow> hsrv \<Rightarrow> hsrv \<Rightarrow> bool" where
  "parsed W t b s s' \<longleftrightarrow>
     (case decode W t b (map_of (gs_keys s) ''data_raw'') of
        Inl (code, message, err) \<Rightarrow>
          parse_data W t s = (Inr None, s') \<and> map_of (gs_keys s') ''code'' = Some (KInt code) \<and>
          map_of (gs_keys s') ''ret'' = Some (KRet \<lparr>ht_code = code, ht_result = HNil, ht_message = message\<rparr>)
      | Inr arg \<Rightarrow> parse_data W t s = (Inr (Some arg), s'))"

lemma parse_data_raw:
  assumes "map_of (gs_keys s) ''data_raw'' = Some v"
  shows "\<exists>s'. only_context False s s' \<and> parsed W t b s s'"
proof -
  note r = refuse_sets [of 500 "''data not byte array''" None s]
  have "\<exists>ks. parsed W t b s (s\<lparr>gs_keys := ks\<rparr>)"
  proof (cases v)
    case (KBytes bts)
    show ?thesis
    proof (cases "bts = []")
      case True
      with assms KBytes show ?thesis by (auto simp: parsed_def parse_data_def decode_def hm_defs Let_def)
    next
      case False
      obtain e d where u: "we_Unmarshal W t bts = (e, d)" by fastforce
      show ?thesis
      proof (cases e)
        case None
        with assms KBytes False u show ?thesis by (auto simp: parsed_def parse_data_def decode_def hm_defs)
      next
        case (Some e')
        with assms KBytes False u show ?thesis
          using refuse_sets [of 500 "''data type not valid''" "Some e'" s]
          by (auto simp: parsed_def parse_data_def decode_def hm_defs)
      qed
    qed
  qed (use assms r in \<open>auto simp: parsed_def parse_data_def decode_def hbind_def c_Get_def\<close>)
  then show ?thesis by (metis only_context_keys only_context_refl)
qed

lemma parse_data_bind:
  assumes "map_of (gs_keys s) ''data_raw'' = None" and "we_Bind W t = Inr b"
  shows "\<exists>s'. only_context (fst b \<noteq> None) s s' \<and> parsed W t b s s'"
proof -
  define s1 where "s1 = (if fst b \<noteq> None then (send_head 400 s)\<lparr>gs_aborted := True\<rparr> else s)"
  have bind: "c_Bind W t s = (Inr b, s1)"
    using assms(2) by (cases b) (auto simp: c_Bind_def s1_def split: option.splits)
  have "only_context (fst b \<noteq> None) s s1" using only_context_bind by (auto simp: s1_def)
  moreover have "\<exists>ks. parsed W t b s (s1\<lparr>gs_keys := ks\<rparr>)"
    using assms bind refuse_sets [of 400 "''data not valid''" "fst b" s1]
    by (cases b) (auto simp: parsed_def parse_data_def decode_def hbind_def hreturn_def c_Get_def c_Set_def)
  ultimately show ?thesis by (metis only_context_keys)
qed

lemma parse_data_decodes:
  assumes "we_Bind W t = Inr b"
  shows "\<exists>s'. only_context (bind_failed b (map_of (gs_keys s) ''data_raw'')) s s' \<and> parsed W t b s s'"
proof (cases "map_of (gs_keys s) ''data_raw''")
  case None
  from parse_data_bind [OF None assms] show ?thesis by (simp add: None bind_failed_def)
next
  case (Some v)
  from parse_data_raw [OF Some] show ?thesis by (simp add: Some bind_failed_def)
qed

text \<open>
  A function that returns four values, may use the goroutine's storage, and leaves the gin context alone.  Flags in
  the storage that hide data must be truth values, or the logger panics.
\<close>

definition flags_ok :: "int \<Rightarrow> gl_state \<Rightarrow> bool" where
  "flags_ok goid g \<longleftrightarrow> (\<forall>m. gl_private goid g = Some m \<longrightarrow>
     (\<forall>k \<in> {''glHideData'', ''glHideRet''}. case m (AStr k) of None \<Rightarrow> True | Some v \<Rightarrow> \<exists>b. v = ABool b))"

definition plain_function :: "int \<Rightarrow> hfunc \<Rightarrow> (harg \<Rightarrow> int \<times> string \<times> string option \<times> hout) \<Rightarrow> bool" where
  "plain_function goid F f \<longleftrightarrow> (\<forall>arg s. gl_inv (gs_gl s) \<and> flags_ok goid (gs_gl s) \<longrightarrow>
     (\<exists>g'. fn_run F arg s = (Inr (case f arg of (code, message, err, v) \<Rightarrow> [HInt code, HStr message, HErr err, v]), s\<lparr>gs_gl := g'\<rparr>) \<and>
        gl_inv g' \<and> flags_ok goid g'))"

text \<open>Status and body of the answer.\<close>

definition answer :: "(harg \<Rightarrow> int \<times> string \<times> string option \<times> hout) \<Rightarrow> (int \<times> string \<times> string option) + harg \<Rightarrow> int \<times> kv" where
  "answer f d =
     (case d of
        Inl (code, message, err) \<Rightarrow> (code, KRet \<lparr>ht_code = code, ht_result = HNil, ht_message = message\<rparr>)
      | Inr arg \<Rightarrow> (case f arg of (code, message, err, v) \<Rightarrow> (code, KRet \<lparr>ht_code = code, ht_result = v, ht_message = message\<rparr>)))"

text \<open>
  The contract between the filters and what they wrap: the answer left in the context, and whether 400 was sent already.
\<close>

definition serves :: "int \<Rightarrow> unit hm \<Rightarrow> (kv option \<Rightarrow> int \<times> kv) \<Rightarrow> (kv option \<Rightarrow> bool) \<Rightarrow> bool" where
  "serves goid h ans failed \<longleftrightarrow> (\<forall>s. gl_inv (gs_gl s) \<and> flags_ok goid (gs_gl s) \<longrightarrow>
     (\<exists>s'. h s = (Inr (), s') \<and> gl_inv (gs_gl s') \<and> flags_ok goid (gs_gl s') \<and>
        map_of (gs_keys s') ''code'' = Some (KInt (fst (ans (map_of (gs_keys s) ''data_raw'')))) \<and>
        map_of (gs_keys s') ''ret'' = Some (snd (ans (map_of (gs_keys s) ''data_raw''))) \<and>
        gs_head s' = gs_head (if failed (map_of (gs_keys s) ''data_raw'') then send_head 400 s else s) \<and>
        gs_body s' = gs_body s \<and> gs_log s' = gs_log s \<and> gs_stat s' = gs_stat s \<and> gs_pc s' = gs_pc s))"

lemma only_context_frame:
  assumes "only_context failed s s'"
  shows "gs_gl s' = gs_gl s" "gs_body s' = gs_body s" "gs_log s' = gs_log s" "gs_stat s' = gs_stat s" "gs_pc s' = gs_pc s"
    "gs_head s' = gs_head (if failed then send_head 400 s else s)"
  using assms by (auto simp: only_context_def)

lemma wrapped_serves:
  assumes "plain_function goid F f" and "ins = [TPtr ginContext, t]" and "outs = [TInt, TString, te, tr]" and "we_Bind W t = Inr b"
  shows "serves goid (wrapped W F ins outs) (\<lambda>raw. answer f (decode W t b raw)) (bind_failed b)"
  unfolding serves_def
proof (intro allI impI, elim conjE)
  fix s :: hsrv
  let ?raw = "map_of (gs_keys s) ''data_raw''"
  assume g: "gl_inv (gs_gl s)" and fl: "flags_ok goid (gs_gl s)"
  obtain s1 where c: "only_context (bind_failed b ?raw) s s1" and p: "parsed W t b s s1"
    using parse_data_decodes [OF assms(4), of s] by blast
  note s1 = only_context_frame [OF c]
  show "\<exists>s'. wrapped W F ins outs s = (Inr (), s') \<and> gl_inv (gs_gl s') \<and> flags_ok goid (gs_gl s') \<and>
      map_of (gs_keys s') ''code'' = Some (KInt (fst (answer f (decode W t b ?raw)))) \<and>
      map_of (gs_keys s') ''ret'' = Some (snd (answer f (decode W t b ?raw))) \<and>
      gs_head s' = gs_head (if bind_failed b ?raw then send_head 400 s else s) \<and>
      gs_body s' = gs_body s \<and> gs_log s' = gs_log s \<and> gs_stat s' = gs_stat s \<and> gs_pc s' = gs_pc s"
  proof (cases "decode W t b ?raw")
    case (Inl e)
    then show ?thesis using p s1 g fl assms(2) by (cases e) (simp add: parsed_def wrapped_def hm_defs answer_def)
  next
    case (Inr arg)
    obtain code message err v where f: "f arg = (code, message, err, v)" by (metis prod_cases4)
    obtain g' where run: "fn_run F arg s1 = (Inr [HInt code, HStr message, HErr err, v], s1\<lparr>gs_gl := g'\<rparr>)" "gl_inv g'" "flags_ok goid g'"
      using assms(1) [unfolded plain_function_def, rule_format, of s1 arg] s1(1) g fl f by auto
    obtain ks where ks: "Return code message err v (s1\<lparr>gs_gl := g'\<rparr>) = (Inr (), s1\<lparr>gs_gl := g', gs_keys := ks\<rparr>)"
        "map_of ks ''code'' = Some (KInt code)" "map_of ks ''ret'' = Some (KRet \<lparr>ht_code = code, ht_result = v, ht_message = message\<rparr>)"
      using Return_sets [of code message err v "s1\<lparr>gs_gl := g'\<rparr>"] by blast
    have "parse_data W t s = (Inr (Some arg), s1)" using p Inr by (simp add: parsed_def)
    then have "wrapped W F ins outs s = (Inr (), s1\<lparr>gs_gl := g', gs_keys := ks\<rparr>)"
      using run(1) ks(1) by (simp add: wrapped_def reflect_Call_def hbind_def assms(2,3) out_int_def out_str_def out_err_def)
    then show ?thesis using run ks s1 Inr f by (simp add: answer_def)
  qed
qed

text \<open>The calls of the goroutine's storage by the filters.\<close>

lemma flags_set:
  assumes "gl_private goid g' = map_option (\<lambda>m. m(AStr k \<mapsto> v)) (gl_private goid g)" and "flags_ok goid g"
    and "k \<notin> {''glHideData'', ''glHideRet''}"
  shows "flags_ok goid g'"
  using assms by (auto simp: flags_ok_def)

lemma set_gl_runs:
  assumes "gl_inv (gs_gl s)" and "flags_ok (le_goid V) (gs_gl s)" and "k \<notin> {''glHideData'', ''glHideRet''}"
  obtains g' where "set_gl V k v s = (Inr (), s\<lparr>gs_gl := g'\<rparr>)" "gl_inv g'" "flags_ok (le_goid V) g'"
proof -
  obtain g' where g': "gl_Set (le_goid V) (AStr k) (AStr v) (gs_gl s) = Inr ((), g')" "gl_inv g'"
      "gl_private (le_goid V) g' = map_option (\<lambda>m. m(AStr k \<mapsto> AStr v)) (gl_private (le_goid V) (gs_gl s))"
    using gl_call_step [OF assms(1), of "le_goid V" "OSet (AStr k) (AStr v)"] by (auto simp: gl_call_def private_call_def)
  show thesis by (rule that [of g']) (use g' flags_set [OF g'(3) assms(2,3)] in \<open>simp_all add: set_gl_def on_gl_def\<close>)
qed

lemma trace_id_runs:
  assumes "gl_inv (gs_gl s)" and "flags_ok (le_goid V) (gs_gl s)"
  obtains ks g' where "trace_id V s = (Inr (), s\<lparr>gs_keys := ks, gs_gl := g'\<rparr>)" "gl_inv g'" "flags_ok (le_goid V) g'"
    "map_of ks ''data_raw'' = map_of (gs_keys s) ''data_raw''"
proof -
  define id where "id = (if le_queryTrace V \<noteq> [] then le_queryTrace V else if le_headerTrace V \<noteq> [] then le_headerTrace V else le_newTrace V)"
  define s1 where "s1 = (if le_queryTrace V = [] \<and> le_headerTrace V = []
      then s\<lparr>gs_keys := al_set ''trace_id'' (KStr (le_newTrace V)) (gs_keys s)\<rparr> else s)"
  have t: "trace_id V s = set_gl V ''glLogId'' id s1" by (simp add: trace_id_def id_def s1_def hm_defs)
  obtain g' where "set_gl V ''glLogId'' id s1 = (Inr (), s1\<lparr>gs_gl := g'\<rparr>)" "gl_inv g'" "flags_ok (le_goid V) g'"
    by (rule set_gl_runs [of s1 V "''glLogId''" id]) (use assms in \<open>simp_all add: s1_def\<close>)
  then show thesis using that [where ks = "gs_keys s1" and g' = g'] t by (simp add: s1_def map_of_al_set)
qed

lemma hidden_runs:
  assumes "gl_inv (gs_gl s)" and "flags_ok (le_goid V) (gs_gl s)" and "k \<in> {''glHideData'', ''glHideRet''}"
  shows "\<exists>b. hidden V k s = (Inr b, s)"
proof -
  have "gl_Get (le_goid V) (AStr k) (gs_gl s) = Inr (Option.bind (gl_private (le_goid V) (gs_gl s)) (\<lambda>m. m (AStr k)))"
    using gl_call_step [OF assms(1), of "le_goid V" "OGet (AStr k)"] by (auto simp: gl_call_def private_call_def)
  then show ?thesis using assms(2,3)
    by (cases "gl_private (le_goid V) (gs_gl s)")
       (auto simp: hidden_def hm_defs gl_read_def on_gl_def flags_ok_def split: option.splits)
qed

lemma log_data_runs:
  assumes "gl_inv (gs_gl s)" and "flags_ok (le_goid V) (gs_gl s)"
  shows "\<exists>d. log_data V s = (Inr d, s)"
  using hidden_runs [OF assms, of "''glHideData''"]
  by (auto simp: log_data_def hm_defs split: option.splits)

lemma log_ret_runs:
  assumes "gl_inv (gs_gl s)" and "flags_ok (le_goid V) (gs_gl s)" and "map_of (gs_keys s) ''ret'' = Some r"
  shows "\<exists>d. log_ret V s = (Inr d, s) \<and> d \<in> {KNil, r}"
  using hidden_runs [OF assms(1,2), of "''glHideRet''"] assms(3)
  by (auto simp: log_ret_def hm_defs)

lemma gl_dump_runs:
  assumes "gl_inv (gs_gl s)"
  shows "\<exists>d. gl_read (GetCurrentGlData p q i) s = (Inr d, s)"
  using getGl_addr [OF assms, of i] by (simp add: gl_read_def on_gl_def GetCurrentGlData_def)

lemma Logger_runs:
  assumes h: "serves (le_goid V) h ans failed" and s: "gl_inv (gs_gl s)" "flags_ok (le_goid V) (gs_gl s)"
  defines "a \<equiv> ans (map_of (gs_keys s) ''data_raw'')"
  shows "\<exists>s' l. Logger W V pk h s = (Inr (), s') \<and> gl_inv (gs_gl s') \<and> flags_ok (le_goid V) (gs_gl s') \<and>
    map_of (gs_keys s') ''code'' = Some (KInt (fst a)) \<and> map_of (gs_keys s') ''ret'' = Some (snd a) \<and>
    gs_head s' = gs_head (if failed (map_of (gs_keys s) ''data_raw'') then send_head 400 s else s) \<and>
    gs_body s' = gs_body s \<and> gs_stat s' = gs_stat s \<and> gs_log s' = gs_log s @ [l] \<and>
    sl_pk l = pk \<and> sl_method l = we_Method W \<and> sl_httpStatus l = fst a \<and> sl_ret l \<in> {KNil, snd a}"
proof -
  let ?ip = "case le_realIp V of None \<Rightarrow> [] | Some ip \<Rightarrow> ip"
  obtain g1 where 1: "set_gl V ''glServer'' pk s = (Inr (), s\<lparr>gs_gl := g1\<rparr>)" "gl_inv g1" "flags_ok (le_goid V) g1"
    by (rule set_gl_runs [OF s, of "''glServer''" pk]) simp_all
  obtain ks g2 where 2: "trace_id V (s\<lparr>gs_gl := g1\<rparr>) = (Inr (), s\<lparr>gs_keys := ks, gs_gl := g2\<rparr>)" "gl_inv g2" "flags_ok (le_goid V) g2"
      "map_of ks ''data_raw'' = map_of (gs_keys s) ''data_raw''"
    by (rule trace_id_runs [of "s\<lparr>gs_gl := g1\<rparr>" V]) (use 1 in simp_all)
  define s3 where "s3 = s\<lparr>gs_keys := al_set ''remote_ip'' (KStr ?ip) ks, gs_gl := g2\<rparr>"
  obtain g4 where 4: "set_gl V ''glClientIp'' ?ip s3 = (Inr (), s3\<lparr>gs_gl := g4\<rparr>)" "gl_inv g4" "flags_ok (le_goid V) g4"
    by (rule set_gl_runs [of s3 V "''glClientIp''" ?ip]) (use 2 in \<open>simp_all add: s3_def\<close>)
  define s4 where "s4 = s3\<lparr>gs_gl := g4\<rparr>"
  have raw: "map_of (gs_keys s4) ''data_raw'' = map_of (gs_keys s) ''data_raw''" using 2(4) by (simp add: s4_def s3_def map_of_al_set)
  obtain s5 where 5: "h s4 = (Inr (), s5)" "gl_inv (gs_gl s5)" "flags_ok (le_goid V) (gs_gl s5)"
      "map_of (gs_keys s5) ''code'' = Some (KInt (fst a))" "map_of (gs_keys s5) ''ret'' = Some (snd a)"
      "gs_head s5 = gs_head (if failed (map_of (gs_keys s) ''data_raw'') then send_head 400 s4 else s4)"
      "gs_body s5 = gs_body s" "gs_log s5 = gs_log s" "gs_stat s5 = gs_stat s"
    using h [unfolded serves_def, rule_format, of s4] 4(2,3) raw unfolding a_def by (force simp: s4_def s3_def)
  have hd: "gs_head s5 = gs_head (if failed (map_of (gs_keys s) ''data_raw'') then send_head 400 s else s)"
    using 5(6) by (simp add: s4_def s3_def split: if_split)
  define s6 where "s6 = s5\<lparr>gs_pc := gs_pc s5 @ [PcCost (pk @ '',uri=path,path='' @ url_path (we_RequestURI W)) (le_end V - le_start V),
      PcCost pk (le_end V - le_start V)]\<rparr>"
  have g6: "gl_inv (gs_gl s6)" "flags_ok (le_goid V) (gs_gl s6)" "map_of (gs_keys s6) ''ret'' = Some (snd a)"
    using 5 by (simp_all add: s6_def)
  obtain d where d: "log_data V s6 = (Inr d, s6)" using log_data_runs [OF g6(1,2)] by blast
  obtain r where r: "log_ret V s6 = (Inr r, s6)" "r \<in> {KNil, snd a}" using log_ret_runs [OF g6] by blast
  define s7 where "s7 = s6\<lparr>gs_pc := gs_pc s6 @ (if fst a \<noteq> 200 then [PcIncr (pk @ '',httpcode='' @ Itoa (fst a)) 1] else [])\<rparr>"
  obtain gd where gd: "gl_read (GetCurrentGlData (le_glprint V) (le_order V) (le_goid V)) s7 = (Inr gd, s7)"
    using gl_dump_runs [of s7 "le_glprint V" "le_order V" "le_goid V"] g6(1) unfolding s7_def by fastforce
  define l where "l = \<lparr>sl_tag = (if go_quot (le_end V - le_start V) 1000000 > 100 then ''SESSION_SLOW'' else ''SESSION''), sl_pk = pk,
      sl_method = we_Method W, sl_path = url_path (we_RequestURI W), sl_httpStatus = fst a, sl_cost = go_quot (le_end V - le_start V) 1000000,
      sl_err = err_text V (map_of (gs_keys s7) ''err''), sl_data = d, sl_ret = r, sl_gl = gd\<rparr>"
  have sc: "status_code s6 = (Inr (fst a), s6)" using 5(4) by (simp add: status_code_def hm_defs s6_def)
  have pc: "add_pc evs x = (Inr (), x\<lparr>gs_pc := gs_pc x @ evs\<rparr>)" for evs x by (simp add: add_pc_def)
  have ip: "c_Set ''remote_ip'' (KStr ?ip) (s\<lparr>gs_keys := ks, gs_gl := g2\<rparr>) = (Inr (), s3)" by (simp add: c_Set_def s3_def)
  have err: "c_Get ''err'' s7 = (Inr (map_of (gs_keys s7) ''err''), s7)" by (simp add: c_Get_def)
  have "Logger W V pk h s = (Inr (), s7\<lparr>gs_log := gs_log s7 @ [l]\<rparr>)"
    by (simp only: Logger_def Let_def hbind_def 1(1) 2(1) ip 4(1) s4_def [symmetric] 5(1) pc s6_def [symmetric] d r(1) sc s7_def [symmetric]
        err gd add_log_def l_def prod.case sum.case)
  then show ?thesis using 5 g6 r hd by (intro exI [of _ "s7\<lparr>gs_log := gs_log s7 @ [l]\<rparr>"] exI [of _ l]) (simp add: s7_def s6_def l_def)
qed

text \<open>Whether the answer \<open>a\<close> can be sent after the status 400 or before any status.\<close>

definition rendered :: "wenv \<Rightarrow> bool \<Rightarrow> int \<times> kv \<Rightarrow> bool" where
  "rendered W failed a \<longleftrightarrow> \<not> body_allowed (fst a) \<or>
     we_Render W (snd a) = None \<and> (failed \<or> 100 \<le> sent_status (fst a) \<and> sent_status (fst a) \<le> 999)"

lemma c_JSON_sends:
  assumes "gs_head s = (if failed then Some 400 else None)"
  shows "rendered W failed a \<Longrightarrow> \<exists>s'. c_JSON W (fst a) (snd a) s = (Inr (), s') \<and>
      s' = s\<lparr>gs_head := Some (if failed then 400 else sent_status (fst a)),
             gs_body := gs_body s @ (if body_allowed (fst a) then [snd a] else [])\<rparr>"
    and "\<not> rendered W failed a \<Longrightarrow> \<exists>p. c_JSON W (fst a) (snd a) s = (Inl p, s)"
proof -
  have "sent_status c = c" if "\<not> body_allowed c" for c using that by (auto simp: body_allowed_def sent_status_def)
  then show "rendered W failed a \<Longrightarrow> \<exists>s'. c_JSON W (fst a) (snd a) s = (Inr (), s') \<and>
      s' = s\<lparr>gs_head := Some (if failed then 400 else sent_status (fst a)),
             gs_body := gs_body s @ (if body_allowed (fst a) then [snd a] else [])\<rparr>"
    using assms by (cases s) (auto simp: c_JSON_def rendered_def send_head_def)
  show "\<not> rendered W failed a \<Longrightarrow> \<exists>p. c_JSON W (fst a) (snd a) s = (Inl p, s)"
    using assms by (auto simp: c_JSON_def rendered_def split: option.splits if_splits)
qed

text \<open>The chain of the sample server around a handler that keeps the contract.\<close>

lemma GroupFilter_runs:
  assumes h: "serves (le_goid V) h ans failed" and s: "gl_inv (gs_gl s)" "flags_ok (le_goid V) (gs_gl s)" "gs_head s = None"
    and r: "\<And>raw. \<exists>r. snd (ans raw) = KRet r"
  defines "a \<equiv> ans (map_of (gs_keys s) ''data_raw'')" and "bf \<equiv> failed (map_of (gs_keys s) ''data_raw'')"
  shows "\<exists>out s' l. GroupFilter W sprint (Logger W V pk h) s = (out, s') \<and> gl_inv (gs_gl s') \<and>
    map_of (gs_keys s') ''code'' = Some (KInt (fst a)) \<and> gs_stat s' = gs_stat s \<and> gs_log s' = gs_log s @ [l] \<and>
    sl_pk l = pk \<and> sl_method l = we_Method W \<and> sl_httpStatus l = fst a \<and> sl_ret l \<in> {KNil, snd a} \<and>
    (if rendered W bf a
     then out = Inr () \<and> gs_head s' = Some (if bf then 400 else sent_status (fst a)) \<and>
       gs_body s' = gs_body s @ (if body_allowed (fst a) then [snd a] else [])
     else (\<exists>p. out = Inl p) \<and> gs_body s' = gs_body s)"
proof -
  obtain s2 l where 2: "Logger W V pk h s = (Inr (), s2)" "gl_inv (gs_gl s2)"
      "map_of (gs_keys s2) ''code'' = Some (KInt (fst a))" "map_of (gs_keys s2) ''ret'' = Some (snd a)"
      "gs_head s2 = gs_head (if bf then send_head 400 s else s)"
      "gs_body s2 = gs_body s" "gs_stat s2 = gs_stat s" "gs_log s2 = gs_log s @ [l]"
      "sl_pk l = pk" "sl_method l = we_Method W" "sl_httpStatus l = fst a" "sl_ret l \<in> {KNil, snd a}"
    using Logger_runs [OF h s(1,2), of W pk] unfolding a_def bf_def by blast
  have hd: "gs_head s2 = (if bf then Some 400 else None)" using 2(5) s(3) by simp
  obtain rr where "snd a = KRet rr" using r unfolding a_def by blast
  then have "GroupFilter W sprint (Logger W V pk h) s = c_JSON W (fst a) (snd a) s2"
    using 2(1,3,4) by (simp add: GroupFilter_def ParseRet_def status_code_def hm_defs Let_def)
  then show ?thesis using 2 c_JSON_sends [OF hd, of W a]
    by (cases "rendered W bf a") (force, force)
qed

lemma chain_runs:
  assumes h: "serves goid h ans failed" and g: "gl_inv (gs_gl s)" and hd: "gs_head s = None" and V: "le_goid V = goid"
    and r: "\<And>raw. \<exists>r. snd (ans raw) = KRet r"
  defines "a \<equiv> ans (map_of (gs_keys s) ''data_raw'')" and "bf \<equiv> failed (map_of (gs_keys s) ''data_raw'')"
  shows "\<exists>out s' l. GlFilter goid (StatFilter uri b n (GroupFilter W sprint (Logger W V pk h))) s = (out, s') \<and>
    gl_private goid (gs_gl s') = None \<and> gs_log s' = gs_log s @ [l] \<and>
    sl_pk l = pk \<and> sl_method l = we_Method W \<and> sl_httpStatus l = fst a \<and> sl_ret l \<in> {KNil, snd a} \<and>
    (if rendered W bf a
     then out = Inr () \<and> gs_head s' = Some (if bf then 400 else sent_status (fst a)) \<and>
       gs_body s' = gs_body s @ (if body_allowed (fst a) then [snd a] else []) \<and>
       gs_stat s' = Stat_End n (fst a) \<lparr>st_cmd = url_path uri, st_b = b, st_e = 0, st_ret = 0\<rparr> (gs_stat s)
     else (\<exists>p. out = Inl p) \<and> gs_body s' = gs_body s \<and> gs_stat s' = gs_stat s)"
proof -
  obtain g1 where 1: "gl_Init goid (gs_gl s) = Inr g1" "gl_inv g1" "gl_private goid g1 = Some Map.empty"
    using gl_Init_step [OF g, of goid] by metis
  then have fl: "flags_ok goid g1" by (simp add: flags_ok_def)
  let ?s1 = "s\<lparr>gs_gl := g1\<rparr>"
  obtain out s2 l where 2: "GroupFilter W sprint (Logger W V pk h) ?s1 = (out, s2)" "gl_inv (gs_gl s2)"
      "map_of (gs_keys s2) ''code'' = Some (KInt (fst a))" "gs_stat s2 = gs_stat s" "gs_log s2 = gs_log s @ [l]"
      "sl_pk l = pk" "sl_method l = we_Method W" "sl_httpStatus l = fst a" "sl_ret l \<in> {KNil, snd a}"
      "if rendered W bf a
       then out = Inr () \<and> gs_head s2 = Some (if bf then 400 else sent_status (fst a)) \<and>
         gs_body s2 = gs_body s @ (if body_allowed (fst a) then [snd a] else [])
       else (\<exists>p. out = Inl p) \<and> gs_body s2 = gs_body s"
    using GroupFilter_runs [of V h ans failed ?s1 W sprint pk] h V 1(2) fl hd r unfolding a_def bf_def by auto
  define s4 where "s4 = (if rendered W bf a
      then s2\<lparr>gs_stat := Stat_End n (fst a) \<lparr>st_cmd = url_path uri, st_b = b, st_e = 0, st_ret = 0\<rparr> (gs_stat s)\<rparr> else s2)"
  have stat: "StatFilter uri b n (GroupFilter W sprint (Logger W V pk h)) ?s1 = (out, s4)"
    using 2(1,3,4,10) by (cases "rendered W bf a") (auto simp: StatFilter_def hm_defs Let_def status_code_def s4_def BeginAt_def)
  have s4: "gs_gl s4 = gs_gl s2" "gs_log s4 = gs_log s2" "gs_head s4 = gs_head s2" "gs_body s4 = gs_body s2" by (simp_all add: s4_def)
  obtain g5 where 5: "gl_Close goid (gs_gl s4) = Inr g5" "gl_private goid g5 = None"
    using gl_Close_step [of "gs_gl s4" goid] 2(2) s4(1) by metis
  have "GlFilter goid (StatFilter uri b n (GroupFilter W sprint (Logger W V pk h))) s = (out, s4\<lparr>gs_gl := g5\<rparr>)"
    by (simp add: GlFilter_def hbind_def hdefer_def on_gl_def 1(1) stat 5(1))
  then show ?thesis using 2 5 s4
    by (intro exI [of _ out] exI [of _ "s4\<lparr>gs_gl := g5\<rparr>"] exI [of _ l]) (auto simp: s4_def)
qed


definition ex_wenv :: wenv where
  "ex_wenv = \<lparr>we_Method = ''POST'', we_RequestURI = ''/test?x=1'', we_Bind = (\<lambda>t. Inr (None, ''data'')),
     we_Unmarshal = (\<lambda>t b. (None, ''data'')), we_Render = (\<lambda>v. None)\<rparr>"

definition ex_lenv :: lenv where
  "ex_lenv = \<lparr>le_goid = 7, le_queryTrace = [], le_headerTrace = ''t'', le_newTrace = ''n'', le_realIp = None, le_start = 0, le_end = 5000000,
     le_sprint = (\<lambda>v. []), le_glprint = (\<lambda>v. []), le_order = id\<rparr>"

definition ex_hfunc :: hfunc where
  "ex_hfunc = \<lparr>fn_type = TFunc [TPtr ginContext, TPtr (TStruct ''Req'')] [TInt, TString, TError, TPtr (TStruct ''Resp'')],
     fn_run = (\<lambda>arg s. (Inr [HInt 201, HStr ''ok'', HErr None, HVal ''r''], s))\<rparr>"

definition ex_hsrv :: hsrv where
  "ex_hsrv = \<lparr>gs_keys = [], gs_head = None, gs_body = [], gs_aborted = False, gs_gl = newGoroutineLocal, gs_stat = Some newStatMgr,
     gs_pc = [], gs_log = []\<rparr>"


lemma Kind_ptr: "Kind t = KdPtr \<longleftrightarrow> (\<exists>t'. underlying t = TPtr t')"
  by (induction t) auto

lemma CheckWrap_accepts:
  assumes "underlying wt = TFunc ins outs"
  shows "CheckWrap impl wt = None \<longleftrightarrow> length ins \<ge> 2 \<and> (\<exists>t. underlying (ins ! 0) = TPtr t) \<and> length outs \<ge> 4 \<and>
    Kind (outs ! 0) = KdInt \<and> Kind (outs ! 1) = KdString \<and> impl (outs ! 2)"
  using assms by (auto simp: CheckWrap_def ptrToGinCtx_def Kind_ptr)

lemma parsed_no_panic: "parsed W t b s s' \<Longrightarrow> parse_data W t s \<noteq> (Inl p, s'')"
  by (cases "decode W t b (map_of (gs_keys s) ''data_raw'')") (auto simp: parsed_def)

lemma parse_data_panic:
  assumes "parse_data W t s = (Inl p, s')"
  shows "we_Bind W t = Inl p"
proof (cases "map_of (gs_keys s) ''data_raw''")
  case (Some v)
  from parse_data_raw [OF Some, of W t "(None, [])"] assms show ?thesis by (auto dest: parsed_no_panic)
next
  case None
  show ?thesis
  proof (cases "we_Bind W t")
    case (Inl q)
    with None assms show ?thesis by (simp add: parse_data_def c_Bind_def hbind_def c_Get_def)
  next
    case (Inr b)
    from parse_data_bind [OF None Inr] assms show ?thesis by (auto dest: parsed_no_panic)
  qed
qed

lemma Return_total: "Return c m e r s \<noteq> (Inl p, s')"
  by (auto simp: Return_def hm_defs split: option.splits)


text \<open>A function with a request of \<open>net/http\<close> first is accepted, and a request to it panics.\<close>

definition ex_wrong :: hfunc where
  "ex_wrong = ex_hfunc\<lparr>fn_type := TFunc [TPtr (TStruct ''http.Request''), TPtr (TStruct ''Req'')] [TInt, TString, TError, TPtr (TStruct ''Resp'')]\<rparr>"


text \<open>The server registers \<open>PATCH\<close>, \<open>PUT\<close> and \<open>OPTIONS\<close> handlers for \<open>DELETE\<close>.\<close>

lemma registered_as_delete:
  assumes "srv_register W name path F h = Inr (h', meth, p, g)" and "name \<in> {''PATCH'', ''PUT'', ''OPTIONS''}"
  shows "meth = ''DELETE''"
  using assms by (auto simp: srv_register_def srv_Handle_def srv_method_def)

end
