(* ===== verification/DlogFormat.thy ===== *)
theory DlogFormat
  imports Utls
begin

text \<open>
  Records of the logging package (\<open>dlog/log4go.go\<close>) and how they become lines (\<open>dlog/pattlog.go\<close>):
  levels, \<open>LogRecord\<close>, the parts of \<open>time.Time\<close> the package reads, and \<open>FormatLogRecord\<close> with the cache
  that keeps the time fields of the last second.

  Instants are nanoseconds since 1970; the process runs in a zone \<open>tz\<close> seconds east of Greenwich.  The
  property of this theory says what a sequence of records formatted with one cache prints: every field is
  that of the record itself, except the milliseconds, which are those of the first record of the second.
\<close>

section \<open>Levels and records\<close>

type_synonym Level = int

definition FINEST :: Level where "FINEST = 0"
definition FINE :: Level where "FINE = 1"
definition DEBUG :: Level where "DEBUG = 2"
definition TRACE :: Level where "TRACE = 3"
definition INFO :: Level where "INFO = 4"
definition WARNING :: Level where "WARNING = 5"
definition ERROR :: Level where "ERROR = 6"
definition CRITICAL :: Level where "CRITICAL = 7"

lemmas level_defs = FINEST_def FINE_def DEBUG_def TRACE_def INFO_def WARNING_def ERROR_def CRITICAL_def

definition levelStrings :: "string list" where
  "levelStrings = [''FNST'', ''FINE'', ''DEBUG'', ''TRACE'', ''INFO'', ''WARN'', ''ERROR'', ''FATAL'']"

definition level_index :: "Level \<Rightarrow> string go" where
  "level_index l =
     (if 0 \<le> l \<and> l < int (length levelStrings) then Inr (levelStrings ! nat l) else Inl IndexOutOfRange)"

definition Level_String :: "Level \<Rightarrow> string go" where
  "Level_String l =
     (if l < 0 \<or> l > int (length levelStrings) then Inr ''UNKNOWN'' else level_index l)"

record LogRecord =
  lr_Level :: Level
  lr_Created :: int
  lr_Source :: string
  lr_Message :: string
  lr_Tag :: string
  lr_Ip :: string
  lr_LogId :: string
  lr_Url :: string

text \<open>The record of a header or a trailer, of which only the time is set.\<close>

definition time_record :: "int \<Rightarrow> LogRecord" where
  "time_record t = \<lparr>lr_Level = 0, lr_Created = t, lr_Source = [], lr_Message = [], lr_Tag = [], lr_Ip = [],
                    lr_LogId = [], lr_Url = []\<rparr>"

section \<open>Time\<close>

record civil =
  c_year :: int
  c_month :: int
  c_day :: int
  c_hour :: int
  c_minute :: int
  c_second :: int

text \<open>The date of a day, counted from 1970-01-01, in the Gregorian calendar.\<close>

definition date_of_day :: "int \<Rightarrow> int \<times> int \<times> int" where
  "date_of_day days =
     (let z = days + 719468; era = z div 146097; doe = z mod 146097;
          yoe = (doe - doe div 1460 + doe div 36524 - doe div 146096) div 365;
          doy = doe - (365 * yoe + yoe div 4 - yoe div 100);
          mp = (5 * doy + 2) div 153;
          d = doy - (153 * mp + 2) div 5 + 1;
          m = (if mp < 10 then mp + 3 else mp - 9)
      in (yoe + era * 400 + (if m \<le> 2 then 1 else 0), m, d))"

definition local_secs :: "int \<Rightarrow> int \<Rightarrow> int" where
  "local_secs tz t = t div 1000000000 + tz"

definition civil_of :: "int \<Rightarrow> int \<Rightarrow> civil" where
  "civil_of tz t =
     (let s = local_secs tz t; r = s mod 86400
      in case date_of_day (s div 86400) of (y, m, d) \<Rightarrow>
           \<lparr>c_year = y, c_month = m, c_day = d, c_hour = r div 3600, c_minute = r div 60 mod 60, c_second = r mod 60\<rparr>)"

definition UnixSecs :: "int \<Rightarrow> int" where
  "UnixSecs t = go_quot t 1000000000"

definition Millis :: "int \<Rightarrow> int" where
  "Millis t = t mod 1000000000 div 1000000"

text \<open>The verb \<open>%0wd\<close> of \<open>fmt\<close>.\<close>

definition fmt_0d :: "nat \<Rightarrow> int \<Rightarrow> string" where
  "fmt_0d w n =
     (if n < 0 then CHR ''-'' # replicate (w - 1 - length (itoa_nat (nat (- n)))) CHR ''0'' @ itoa_nat (nat (- n))
      else replicate (w - length (itoa_nat (nat n))) CHR ''0'' @ itoa_nat (nat n))"

text \<open>\<open>bytes.Split\<close> and \<open>strings.Split\<close> at a separator of one byte.\<close>

fun split_byte :: "char \<Rightarrow> string \<Rightarrow> string list" where
  "split_byte sep [] = [[]]"
| "split_byte sep (c # cs) =
     (if c = sep then [] # split_byte sep cs
      else (case split_byte sep cs of [] \<Rightarrow> [[c]] | p # ps \<Rightarrow> (c # p) # ps))"

section \<open>Formatting\<close>

record formatCacheType =
  LastUpdateSeconds :: int
  shortTime :: string
  shortDate :: string
  longTime :: string
  longDate :: string

definition empty_cache :: formatCacheType where
  "empty_cache = \<lparr>LastUpdateSeconds = 0, shortTime = [], shortDate = [], longTime = [], longDate = []\<rparr>"

definition fresh_cache :: "int \<Rightarrow> int \<Rightarrow> formatCacheType" where
  "fresh_cache tz t =
     (let c = civil_of tz t
      in \<lparr>LastUpdateSeconds = UnixSecs t,
          shortTime = fmt_0d 2 (c_hour c) @ '':'' @ fmt_0d 2 (c_minute c),
          shortDate = fmt_0d 2 (c_day c) @ ''/'' @ fmt_0d 2 (c_month c) @ ''/'' @ fmt_0d 2 (go_rem (c_year c) 100),
          longTime = fmt_0d 2 (c_hour c) @ '':'' @ fmt_0d 2 (c_minute c) @ '':'' @ fmt_0d 2 (c_second c)
                       @ ''.'' @ fmt_0d 3 (Millis t),
          longDate = fmt_0d 4 (c_year c) @ fmt_0d 2 (c_month c) @ fmt_0d 2 (c_day c)\<rparr>)"

definition format_code :: "formatCacheType \<Rightarrow> LogRecord \<Rightarrow> char \<Rightarrow> string go" where
  "format_code cache rec c =
     (if c = CHR ''T'' then Inr (longTime cache)
      else if c = CHR ''t'' then Inr (shortTime cache)
      else if c = CHR ''D'' then Inr (longDate cache)
      else if c = CHR ''d'' then Inr (shortDate cache)
      else if c = CHR ''L'' then level_index (lr_Level rec)
      else if c = CHR ''S'' then Inr (lr_Source rec)
      else if c = CHR ''s'' then Inr (last (split_byte (CHR ''/'') (lr_Source rec)))
      else if c = CHR ''M'' then Inr (lr_Message rec)
      else if c = CHR ''c'' then Inr (Itoa (UnixSecs (lr_Created rec)))
      else if c = CHR ''G'' then Inr (if lr_Tag rec = [] then ''NONE'' else lr_Tag rec)
      else if c = CHR ''I'' then Inr (if lr_Ip rec = [] then ''127.0.0.1'' else lr_Ip rec)
      else if c = CHR ''l'' then Inr (if lr_LogId rec = [] then ''NONE'' else lr_LogId rec)
      else Inr [])"

fun format_pieces :: "formatCacheType \<Rightarrow> LogRecord \<Rightarrow> nat \<Rightarrow> string list \<Rightarrow> string go" where
  "format_pieces cache rec i [] = Inr []"
| "format_pieces cache rec i (piece # ps) =
     go_bind (if i > 0 \<and> piece \<noteq> [] then go_bind (format_code cache rec (hd piece)) (\<lambda>s. Inr (s @ tl piece))
              else Inr piece) (\<lambda>s.
     go_bind (format_pieces cache rec (Suc i) ps) (\<lambda>rest. Inr (s @ rest)))"

definition FormatLogRecord :: "int \<Rightarrow> formatCacheType \<Rightarrow> string \<Rightarrow> LogRecord option \<Rightarrow> (string \<times> formatCacheType) go" where
  "FormatLogRecord tz formatCache format r =
     (case r of
        None \<Rightarrow> Inr (''<nil>'', formatCache)
      | Some rec \<Rightarrow>
          if format = [] then Inr ([], formatCache)
          else (let cache = (if LastUpdateSeconds formatCache \<noteq> UnixSecs (lr_Created rec)
                             then fresh_cache tz (lr_Created rec) else formatCache)
                in go_bind (format_pieces cache rec 0 (split_byte (CHR ''%'') format)) (\<lambda>out.
                     Inr (out @ [CHR 0x0A], cache))))"

definition FORMAT_DEFAULT :: string where "FORMAT_DEFAULT = ''[%D %T] [%L] (%S) %M''"
definition FORMAT_SHORT :: string where "FORMAT_SHORT = ''[%t %d] [%L] %M''"
definition FORMAT_ABBREV :: string where "FORMAT_ABBREV = ''[%L] %M''"

text \<open>A writer formats the records of its channel one after the other with its cache.\<close>

fun format_all :: "int \<Rightarrow> string \<Rightarrow> formatCacheType \<Rightarrow> LogRecord list \<Rightarrow> (string list \<times> formatCacheType) go" where
  "format_all tz format cache [] = Inr ([], cache)"
| "format_all tz format cache (r # rs) =
     go_bind (FormatLogRecord tz cache format (Some r)) (\<lambda>(s, cache).
     go_bind (format_all tz format cache rs) (\<lambda>(ss, cache). Inr (s # ss, cache)))"

section \<open>What a sequence of records prints\<close>

text \<open>The line of a record without a cache, with the milliseconds \<open>ms\<close> in the long time.\<close>

definition long_time :: "int \<Rightarrow> int \<Rightarrow> int \<Rightarrow> string" where
  "long_time tz ms t =
     (let c = civil_of tz t
      in fmt_0d 2 (c_hour c) @ '':'' @ fmt_0d 2 (c_minute c) @ '':'' @ fmt_0d 2 (c_second c) @ ''.'' @ fmt_0d 3 ms)"

definition line_of :: "int \<Rightarrow> string \<Rightarrow> int \<Rightarrow> LogRecord \<Rightarrow> string go" where
  "line_of tz format ms rec =
     go_bind (format_pieces ((fresh_cache tz (lr_Created rec))\<lparr>longTime := long_time tz ms (lr_Created rec)\<rparr>) rec 0
       (split_byte (CHR ''%'') format)) (\<lambda>out. Inr (out @ [CHR 0x0A]))"

abbreviation rec_sec :: "LogRecord \<Rightarrow> int" where
  "rec_sec r \<equiv> UnixSecs (lr_Created r)"

definition printable :: "LogRecord \<Rightarrow> bool" where
  "printable r = (1000000000 \<le> lr_Created r \<and> 0 \<le> lr_Level r \<and> lr_Level r \<le> CRITICAL)"

lemma level_index_ok [simp]: "0 \<le> l \<Longrightarrow> l \<le> CRITICAL \<Longrightarrow> level_index l = Inr (levelStrings ! nat l)"
  by (simp add: level_index_def levelStrings_def CRITICAL_def)

lemma format_code_total: "printable r \<Longrightarrow> \<exists>s. format_code c r x = Inr s"
  by (simp add: format_code_def printable_def)

lemma format_pieces_total: "printable r \<Longrightarrow> \<exists>s. format_pieces c r i ps = Inr s"
proof (induction ps arbitrary: i)
  case (Cons p ps)
  then obtain s where "format_pieces c r (Suc i) ps = Inr s" by blast
  moreover obtain x where "format_code c r (hd p) = Inr x" using Cons.prems format_code_total by blast
  ultimately show ?case by simp
qed simp

lemma UnixSecs_pos: "0 \<le> t \<Longrightarrow> UnixSecs t = t div 1000000000"
  by (simp add: UnixSecs_def go_quot_def)

lemma rec_sec_nonzero: "printable r \<Longrightarrow> rec_sec r \<noteq> 0"
  by (simp add: printable_def UnixSecs_pos) linarith

lemma same_second_cache:
  assumes "0 \<le> t" "0 \<le> u" "UnixSecs t = UnixSecs u"
  shows "fresh_cache tz t = (fresh_cache tz u)\<lparr>longTime := long_time tz (Millis t) u\<rparr>"
proof -
  have "civil_of tz t = civil_of tz u"
    using assms by (simp add: civil_of_def local_secs_def UnixSecs_pos)
  then show ?thesis using assms(3) by (simp add: fresh_cache_def long_time_def Let_def)
qed

text \<open>The instants whose milliseconds are printed, when the cache holds the instant \<open>t\<close>.\<close>

fun stamps :: "int \<Rightarrow> LogRecord list \<Rightarrow> int list" where
  "stamps t [] = []"
| "stamps t (r # rs) = (let u = (if UnixSecs t = rec_sec r then t else lr_Created r) in u # stamps u rs)"

lemma length_stamps [simp]: "length (stamps t rs) = length rs"
  by (induction rs arbitrary: t) (simp_all add: Let_def)

lemma format_step:
  assumes "printable r" "format \<noteq> []" "c = fresh_cache tz t \<and> 0 \<le> t \<or> LastUpdateSeconds c \<noteq> rec_sec r \<and> UnixSecs t \<noteq> rec_sec r"
    and u: "u = (if UnixSecs t = rec_sec r then t else lr_Created r)"
  obtains s where "FormatLogRecord tz c format (Some r) = Inr (s, fresh_cache tz u)"
    "line_of tz format (Millis u) r = Inr s" "0 \<le> u"
proof -
  have pos: "0 \<le> lr_Created r" using assms(1) by (simp add: printable_def)
  have u0: "0 \<le> u" and su: "UnixSecs u = rec_sec r" using assms pos u by (auto simp: fresh_cache_def split: if_splits)
  have c: "(if LastUpdateSeconds c \<noteq> rec_sec r then fresh_cache tz (lr_Created r) else c) = fresh_cache tz u"
    using assms(3) u by (auto simp: fresh_cache_def Let_def)
  obtain out where out: "format_pieces (fresh_cache tz u) r 0 (split_byte (CHR ''%'') format) = Inr out"
    using format_pieces_total assms(1) by blast
  show thesis
  proof (rule that [of "out @ [CHR 0x0A]"])
    show "FormatLogRecord tz c format (Some r) = Inr (out @ [CHR 0x0A], fresh_cache tz u)"
      using assms(2) out c by (simp add: FormatLogRecord_def Let_def split: if_splits)
    show "line_of tz format (Millis u) r = Inr (out @ [CHR 0x0A])"
      using out same_second_cache [OF u0 pos su] by (simp add: line_of_def)
  qed (fact u0)
qed

lemma format_all_stamps:
  assumes "\<forall>r\<in>set rs. printable r" "format \<noteq> []"
    and "rs \<noteq> [] \<Longrightarrow> c = fresh_cache tz t \<and> 0 \<le> t \<or> LastUpdateSeconds c \<noteq> rec_sec (hd rs) \<and> UnixSecs t \<noteq> rec_sec (hd rs)"
  shows "\<exists>ls c'. format_all tz format c rs = Inr (ls, c') \<and> length ls = length rs
           \<and> (\<forall>i<length rs. line_of tz format (Millis (stamps t rs ! i)) (rs ! i) = Inr (ls ! i))"
  using assms
proof (induction rs arbitrary: c t)
  case (Cons r rs)
  define u where "u = (if UnixSecs t = rec_sec r then t else lr_Created r)"
  from Cons.prems obtain s where s: "FormatLogRecord tz c format (Some r) = Inr (s, fresh_cache tz u)"
    "line_of tz format (Millis u) r = Inr s" "0 \<le> u"
    using format_step [of r format c tz t u] u_def by auto
  from Cons.IH [of "fresh_cache tz u" u] Cons.prems s(3)
  obtain ls c' where ls: "format_all tz format (fresh_cache tz u) rs = Inr (ls, c')" "length ls = length rs"
    "\<forall>i<length rs. line_of tz format (Millis (stamps u rs ! i)) (rs ! i) = Inr (ls ! i)"
    by auto
  have "\<forall>i<length (r # rs). line_of tz format (Millis (stamps t (r # rs) ! i)) ((r # rs) ! i) = Inr ((s # ls) ! i)"
    using s(2) ls(3) by (auto simp: nth_Cons u_def [symmetric] split: nat.splits)
  then show ?case using s(1) ls by simp
qed simp

lemma stamps_first_of_second:
  "i < length rs \<Longrightarrow>
   (\<exists>j\<le>i. stamps t rs ! i = lr_Created (rs ! j) \<and> (\<forall>k. j \<le> k \<and> k \<le> i \<longrightarrow> rec_sec (rs ! k) = rec_sec (rs ! i))
        \<and> (if j = 0 then UnixSecs t \<noteq> rec_sec (rs ! 0) else rec_sec (rs ! (j - 1)) \<noteq> rec_sec (rs ! j)))
   \<or> stamps t rs ! i = t \<and> (\<forall>k\<le>i. rec_sec (rs ! k) = UnixSecs t)"
proof (induction rs arbitrary: t i)
  case (Cons r rs)
  show ?case
  proof (cases i)
    case 0
    then show ?thesis by (auto simp: Let_def)
  next
    case (Suc m)
    define u where "u = (if UnixSecs t = rec_sec r then t else lr_Created r)"
    have su: "UnixSecs u = rec_sec r" by (simp add: u_def)
    have n: "stamps t (r # rs) ! i = stamps u rs ! m" using Suc by (simp add: u_def Let_def)
    from Cons.IH [of m u] Cons.prems Suc consider
      (a) j where "j \<le> m" "stamps u rs ! m = lr_Created (rs ! j)" "\<forall>k. j \<le> k \<and> k \<le> m \<longrightarrow> rec_sec (rs ! k) = rec_sec (rs ! m)"
        "if j = 0 then UnixSecs u \<noteq> rec_sec (rs ! 0) else rec_sec (rs ! (j - 1)) \<noteq> rec_sec (rs ! j)"
      | (b) "stamps u rs ! m = u" "\<forall>k\<le>m. rec_sec (rs ! k) = UnixSecs u"
      by auto
    then show ?thesis
    proof cases
      case a
      have "\<exists>j\<le>i. stamps t (r # rs) ! i = lr_Created ((r # rs) ! j)
              \<and> (\<forall>k. j \<le> k \<and> k \<le> i \<longrightarrow> rec_sec ((r # rs) ! k) = rec_sec ((r # rs) ! i))
              \<and> (if j = 0 then UnixSecs t \<noteq> rec_sec ((r # rs) ! 0) else rec_sec ((r # rs) ! (j - 1)) \<noteq> rec_sec ((r # rs) ! j))"
      proof (rule exI [of _ "Suc j"], intro conjI)
        show "\<forall>k. Suc j \<le> k \<and> k \<le> i \<longrightarrow> rec_sec ((r # rs) ! k) = rec_sec ((r # rs) ! i)"
        proof (intro allI impI)
          fix k
          assume k: "Suc j \<le> k \<and> k \<le> i"
          then obtain l where l: "k = Suc l" "j \<le> l" "l \<le> m" using Suc by (cases k) auto
          then have "rec_sec (rs ! l) = rec_sec (rs ! m)" using a(3) by blast
          then show "rec_sec ((r # rs) ! k) = rec_sec ((r # rs) ! i)" using l(1) Suc by simp
        qed
        show "if Suc j = 0 then UnixSecs t \<noteq> rec_sec ((r # rs) ! 0) else rec_sec ((r # rs) ! (Suc j - 1)) \<noteq> rec_sec ((r # rs) ! Suc j)"
        proof (cases j)
          case 0
          then have "UnixSecs u \<noteq> rec_sec (rs ! 0)" using a(4) by simp
          then show ?thesis using 0 su by (simp del: stamps.simps)
        next
          case (Suc l)
          then have "rec_sec (rs ! l) \<noteq> rec_sec (rs ! Suc l)" using a(4) by simp
          then show ?thesis using Suc by simp
        qed
      qed (use a(1,2) n Suc in simp_all)
      then show ?thesis ..
    next
      case b
      then have all: "\<forall>k\<le>i. rec_sec ((r # rs) ! k) = rec_sec r"
        using Suc su by (auto simp: nth_Cons split: nat.splits)
      show ?thesis
      proof (cases "UnixSecs t = rec_sec r")
        case True
        then show ?thesis using all n b(1) by (simp add: u_def)
      next
        case False
        then have "stamps t (r # rs) ! i = lr_Created ((r # rs) ! 0)" using n b(1) by (simp only: u_def if_False nth_Cons_0)
        moreover have "\<forall>k. 0 \<le> k \<and> k \<le> i \<longrightarrow> rec_sec ((r # rs) ! k) = rec_sec ((r # rs) ! i)"
          using all by (metis order_refl)
        moreover have "if (0 :: nat) = 0 then UnixSecs t \<noteq> rec_sec ((r # rs) ! 0) else rec_sec ((r # rs) ! (0 - 1)) \<noteq> rec_sec ((r # rs) ! 0)"
          using False by (simp only: if_True nth_Cons_0 refl not_False_eq_True)
        ultimately show ?thesis by blast
      qed
    qed
  qed
qed simp

text \<open>
  C15.  A writer formats the records of its channel with one cache.  Starting with an empty cache, printing
  never fails, there is one line per record, and line \<open>i\<close> is the line of record \<open>i\<close> formatted on its own, but
  with the milliseconds of the first record \<open>j\<close> of the same second: records \<open>j\<close> to \<open>i\<close> are in one second,
  and the record before \<open>j\<close>, if any, is not.  The long time of a line has milliseconds and no zone: this is what
  the code prints; the comment above \<open>FormatLogRecord\<close> names other formats and \<open>TestFormatLogRecord\<close> expects a
  time without milliseconds, which the function does not give.
\<close>

theorem format_all_lines:
  assumes "\<forall>r\<in>set rs. printable r" "format \<noteq> []"
  shows "\<exists>ls c. format_all tz format empty_cache rs = Inr (ls, c) \<and> length ls = length rs
     \<and> (\<forall>i<length rs. \<exists>j\<le>i. line_of tz format (Millis (lr_Created (rs ! j))) (rs ! i) = Inr (ls ! i)
          \<and> (\<forall>k. j \<le> k \<and> k \<le> i \<longrightarrow> rec_sec (rs ! k) = rec_sec (rs ! i))
          \<and> (0 < j \<longrightarrow> rec_sec (rs ! (j - 1)) \<noteq> rec_sec (rs ! j)))"
proof -
  have z: "UnixSecs 0 = 0" by (simp add: UnixSecs_pos)
  have nz: "rec_sec (rs ! i) \<noteq> 0" if "i < length rs" for i
    using that assms(1) rec_sec_nonzero by simp
  then have "rs \<noteq> [] \<Longrightarrow> LastUpdateSeconds empty_cache \<noteq> rec_sec (hd rs) \<and> UnixSecs 0 \<noteq> rec_sec (hd rs)"
    using z by (simp add: hd_conv_nth empty_cache_def)
  then obtain ls c where ls: "format_all tz format empty_cache rs = Inr (ls, c)" "length ls = length rs"
    "\<forall>i<length rs. line_of tz format (Millis (stamps 0 rs ! i)) (rs ! i) = Inr (ls ! i)"
    using format_all_stamps [OF assms, of empty_cache tz 0] by blast
  have "\<exists>j\<le>i. line_of tz format (Millis (lr_Created (rs ! j))) (rs ! i) = Inr (ls ! i)
          \<and> (\<forall>k. j \<le> k \<and> k \<le> i \<longrightarrow> rec_sec (rs ! k) = rec_sec (rs ! i))
          \<and> (0 < j \<longrightarrow> rec_sec (rs ! (j - 1)) \<noteq> rec_sec (rs ! j))" if i: "i < length rs" for i
  proof -
    from stamps_first_of_second [OF i, of 0] consider
      (a) j where "j \<le> i" "stamps 0 rs ! i = lr_Created (rs ! j)" "\<forall>k. j \<le> k \<and> k \<le> i \<longrightarrow> rec_sec (rs ! k) = rec_sec (rs ! i)"
        "if j = 0 then UnixSecs 0 \<noteq> rec_sec (rs ! 0) else rec_sec (rs ! (j - 1)) \<noteq> rec_sec (rs ! j)"
      | (b) "\<forall>k\<le>i. rec_sec (rs ! k) = UnixSecs 0"
      by metis
    then show ?thesis
    proof cases
      case a
      have "line_of tz format (Millis (lr_Created (rs ! j))) (rs ! i) = Inr (ls ! i)" using ls(3) i a(2) by metis
      moreover have "0 < j \<longrightarrow> rec_sec (rs ! (j - 1)) \<noteq> rec_sec (rs ! j)" using a(4) by (auto split: if_splits)
      ultimately show ?thesis using a(1,3) by blast
    next
      case b
      then show ?thesis using nz [OF i] z by auto
    qed
  qed
  with ls(1,2) show ?thesis by blast
qed

theorem format_all_lines_witness:
  "\<exists>ls c. format_all 0 ''%T %M'' empty_cache [time_record 1000000001000000, time_record 1000000999000000] = Inr (ls, c)
     \<and> length ls = 2
     \<and> line_of 0 ''%T %M'' 1 (time_record 1000000999000000) = Inr (ls ! 1)"
proof -
  define rs where "rs = [time_record 1000000001000000, time_record 1000000999000000]"
  have p: "\<forall>r\<in>set rs. printable r" by (simp add: rs_def printable_def time_record_def CRITICAL_def)
  obtain ls c where ls: "format_all 0 ''%T %M'' empty_cache rs = Inr (ls, c)" "length ls = length rs"
    "\<forall>i<length rs. \<exists>j\<le>i. line_of 0 ''%T %M'' (Millis (lr_Created (rs ! j))) (rs ! i) = Inr (ls ! i)
          \<and> (\<forall>k. j \<le> k \<and> k \<le> i \<longrightarrow> rec_sec (rs ! k) = rec_sec (rs ! i))
          \<and> (0 < j \<longrightarrow> rec_sec (rs ! (j - 1)) \<noteq> rec_sec (rs ! j))"
    using format_all_lines [OF p, of "''%T %M''" 0] by blast
  have "1 < length rs" by (simp add: rs_def)
  then obtain j where j: "j \<le> 1" "line_of 0 ''%T %M'' (Millis (lr_Created (rs ! j))) (rs ! 1) = Inr (ls ! 1)"
    "0 < j \<longrightarrow> rec_sec (rs ! (j - 1)) \<noteq> rec_sec (rs ! j)"
    using ls(3) by blast
  have "j = 0"
  proof (rule ccontr)
    assume "j \<noteq> 0"
    then have "j = 1" using j(1) by simp
    then show False using j(3) by (simp add: rs_def time_record_def UnixSecs_pos)
  qed
  then show ?thesis using ls(1,2) j(2) by (auto simp: rs_def time_record_def Millis_def)
qed

text \<open>So two records 998 milliseconds apart can carry the same time stamp.\<close>

lemma stale_milliseconds:
  "format_all 0 ''%T'' empty_cache [time_record 86400001000000, time_record 86400999000000]
     = Inr ([''00:00:00.001'' @ [CHR 0x0A], ''00:00:00.001'' @ [CHR 0x0A]],
         \<lparr>LastUpdateSeconds = 86400, shortTime = ''00:00'', shortDate = ''02/01/70'', longTime = ''00:00:00.001'',
          longDate = ''19700102''\<rparr>)"
  by code_simp

text \<open>The record of \<open>TestFormatLogRecord\<close>, whose expected line has no milliseconds.\<close>

lemma test_record_line:
  "map_sum id fst (format_all 0 FORMAT_DEFAULT empty_cache
      [\<lparr>lr_Level = ERROR, lr_Created = 1234567890123456789, lr_Source = ''source'', lr_Message = ''message'', lr_Tag = [], lr_Ip = [],
        lr_LogId = [], lr_Url = []\<rparr>])
     = Inr [''[20090213 23:31:30.123] [ERROR] (source) message'' @ [CHR 0x0A]]"
  by code_simp

end
