(* ===== verification/DlogFile.thy ===== *)
theory DlogFile
  imports DlogFormat
begin

text \<open>
  The file writer of the logging package (\<open>dlog/filelog.go\<close>): its channel, the goroutine that takes records
  from it, and rotation, over a small file system.

  The file system holds regular files by path and the set of directories; every call of the operating
  system draws its failure from \<open>os_fail\<close> and every reading of the clock its value from \<open>os_now\<close>, both
  indexed by the calls made so far, so that nothing is assumed of either.  A write that fails writes
  nothing.  Nobody else moves the file while the writer has it open.

  Calls of other goroutines and turns of the writer's own goroutine interleave as a sequence of events.
  A panic of the writer's goroutine ends the process.
\<close>

section \<open>The file system\<close>

datatype sysop = SStat | SRename | SMkdir | SCreate | SOpen | SWrite

record osenv =
  os_fail :: "sysop \<Rightarrow> nat \<Rightarrow> string option"
  os_now :: "nat \<Rightarrow> int"

record fs =
  fs_files :: "string \<Rightarrow> string option"
  fs_dirs :: "string \<Rightarrow> bool"
  fs_tick :: nat
  fs_moved :: "string list"
  fs_stderr :: "string list"

definition os_call :: "osenv \<Rightarrow> sysop \<Rightarrow> fs \<Rightarrow> string option \<times> fs" where
  "os_call os op f = (os_fail os op (fs_tick f), f\<lparr>fs_tick := fs_tick f + 1\<rparr>)"

definition os_Now :: "osenv \<Rightarrow> fs \<Rightarrow> int \<times> fs" where
  "os_Now os f = (os_now os (fs_tick f), f\<lparr>fs_tick := fs_tick f + 1\<rparr>)"

definition no_file :: string where "no_file = ''no such file or directory''"

text \<open>\<open>os.Lstat\<close> and \<open>os.Stat\<close>: \<open>None\<close> when the path exists.\<close>

definition os_Stat :: "osenv \<Rightarrow> string \<Rightarrow> fs \<Rightarrow> string option \<times> fs" where
  "os_Stat os path f =
     (case os_call os SStat f of
        (Some e, f') \<Rightarrow> (Some e, f')
      | (None, f') \<Rightarrow> (if path \<noteq> [] \<and> (fs_files f path \<noteq> None \<or> fs_dirs f path) then None else Some no_file, f'))"

definition os_Rename :: "osenv \<Rightarrow> string \<Rightarrow> string \<Rightarrow> fs \<Rightarrow> string option \<times> fs" where
  "os_Rename os old new f =
     (case os_call os SRename f of
        (Some e, f') \<Rightarrow> (Some e, f')
      | (None, f') \<Rightarrow>
          if fs_files f old = None \<or> fs_dirs f new then (Some no_file, f')
          else (None, f'\<lparr>fs_files := (fs_files f)(old := None, new := fs_files f old), fs_moved := fs_moved f @ [new]\<rparr>))"

definition os_MkdirAll :: "osenv \<Rightarrow> string \<Rightarrow> fs \<Rightarrow> string option \<times> fs" where
  "os_MkdirAll os path f =
     (case os_call os SMkdir f of
        (Some e, f') \<Rightarrow> (Some e, f')
      | (None, f') \<Rightarrow>
          if path = [] \<or> fs_files f path \<noteq> None then (Some no_file, f')
          else (None, f'\<lparr>fs_dirs := (\<lambda>d. fs_dirs f d \<or> d = path \<or> HasPrefix path (d @ ''/''))\<rparr>))"

text \<open>The directory part of a path, as \<open>intRotateTime\<close> computes it; \<open>None\<close> for a bare name.\<close>

definition dir_of :: "string \<Rightarrow> string option" where
  "dir_of path =
     (let ss = butlast (split_byte (CHR ''/'') path) in if ss = [] then None else Some (strings_Join ss ''/''))"

definition can_create :: "string \<Rightarrow> fs \<Rightarrow> bool" where
  "can_create path f =
     (path \<noteq> [] \<and> \<not> fs_dirs f path \<and> (case dir_of path of None \<Rightarrow> True | Some d \<Rightarrow> d = [] \<or> fs_dirs f d))"

definition os_Create :: "osenv \<Rightarrow> string \<Rightarrow> fs \<Rightarrow> string option \<times> fs" where
  "os_Create os path f =
     (case os_call os SCreate f of
        (Some e, f') \<Rightarrow> (Some e, f')
      | (None, f') \<Rightarrow>
          if can_create path f then (None, f'\<lparr>fs_files := (fs_files f)(path \<mapsto> [])\<rparr>) else (Some no_file, f'))"

text \<open>\<open>os.OpenFile\<close> with \<open>O_WRONLY|O_APPEND|O_CREATE\<close>: the contents are kept.\<close>

definition os_OpenFile :: "osenv \<Rightarrow> string \<Rightarrow> fs \<Rightarrow> string option \<times> fs" where
  "os_OpenFile os path f =
     (case os_call os SOpen f of
        (Some e, f') \<Rightarrow> (Some e, f')
      | (None, f') \<Rightarrow>
          if can_create path f
          then (None, f'\<lparr>fs_files := (fs_files f)(path := Some (case fs_files f path of None \<Rightarrow> [] | Some s \<Rightarrow> s))\<rparr>)
          else (Some no_file, f'))"

section \<open>The writer\<close>

definition LogBufferLength :: nat where "LogBufferLength = 50480"

text \<open>The file is \<open>nil\<close> (\<open>None\<close>), open (\<open>Some True\<close>) or closed.\<close>

record FileLogWriter =
  fw_rec :: "LogRecord list"
  fw_stop :: bool
  fw_running :: bool
  fw_filename :: string
  fw_file :: "bool option"
  fw_format :: string
  fw_header :: string
  fw_trailer :: string
  fw_maxLines :: int
  fw_maxLinesCurLines :: int
  fw_maxsize :: int
  fw_maxsizeCurSize :: int
  fw_daily :: bool
  fw_dailyOpenDate :: int
  fw_hourly :: bool
  fw_hourlyOpenHour :: int
  fw_rotate :: bool
  fw_ScribeCategory :: string
  fw_cache :: formatCacheType

text \<open>\<open>fmt.Fprint(w.file, s)\<close>: the bytes written or the error.\<close>

definition fw_Fprint :: "osenv \<Rightarrow> FileLogWriter \<Rightarrow> string \<Rightarrow> fs \<Rightarrow> (string + nat) \<times> fs" where
  "fw_Fprint os w s f =
     (if fw_file w \<noteq> Some True then (Inl ''file already closed'', f)
      else (case os_call os SWrite f of
              (Some e, f') \<Rightarrow> (Inl e, f')
            | (None, f') \<Rightarrow>
                (Inr (length s),
                 f'\<lparr>fs_files := (fs_files f)(fw_filename w := map_option (\<lambda>t. t @ s) (fs_files f (fw_filename w)))\<rparr>)))"

text \<open>The search for a free name: \<open>num\<close> is the next number and \<open>left\<close> how many remain up to 999.\<close>

fun free_name :: "osenv \<Rightarrow> (nat \<Rightarrow> string) \<Rightarrow> nat \<Rightarrow> nat \<Rightarrow> fs \<Rightarrow> string option \<times> fs" where
  "free_name os name num 0 f = (None, f)"
| "free_name os name num (Suc left) f =
     (case os_Stat os (name num) f of
        (Some err, f) \<Rightarrow> (Some (name num), f)
      | (None, f) \<Rightarrow> free_name os name (Suc num) left f)"

definition fmt_day :: "int \<times> int \<times> int \<Rightarrow> string" where
  "fmt_day d = (case d of (y, m, d) \<Rightarrow> fmt_0d 4 y @ fmt_0d 2 m @ fmt_0d 2 d)"

definition fmt_hour :: "int \<Rightarrow> int \<Rightarrow> string" where
  "fmt_hour tz t =
     (let c = civil_of tz t in fmt_0d 4 (c_year c) @ fmt_0d 2 (c_month c) @ fmt_0d 2 (c_day c) @ fmt_0d 2 (c_hour c))"

definition backup_name :: "int \<Rightarrow> int \<Rightarrow> FileLogWriter \<Rightarrow> nat \<Rightarrow> string" where
  "backup_name tz now w num =
     (if fw_daily w \<and> c_day (civil_of tz now) \<noteq> fw_dailyOpenDate w
      then (let yesterday = fmt_day (date_of_day (local_secs tz now div 86400 - 1))
            in fw_filename w @ ''.'' @ yesterday @ (if num = 0 then [] else ''.'' @ fmt_0d 3 (int num)))
      else if fw_hourly w \<and> c_hour (civil_of tz now) \<noteq> fw_hourlyOpenHour w
      then (let lastHour = fmt_hour tz (now - 3600 * 1000000000)
            in fw_filename w @ ''.'' @ lastHour @ (if num = 0 then [] else ''.'' @ fmt_0d 3 (int num)))
      else fw_filename w @ ''.'' @ fmt_hour tz now @ ''.'' @ fmt_0d 3 (int num))"

text \<open>Moving the present file out of the way, when old files are kept.\<close>

definition rotate_away :: "osenv \<Rightarrow> int \<Rightarrow> int \<Rightarrow> FileLogWriter \<Rightarrow> fs \<Rightarrow> string option \<times> fs" where
  "rotate_away os tz now w f =
     (if \<not> fw_rotate w then (None, f)
      else (case os_Stat os (fw_filename w) f of
              (Some err, f) \<Rightarrow> (None, f)
            | (None, f) \<Rightarrow>
                (case free_name os (backup_name tz now w) 0 1000 f of
                   (None, f) \<Rightarrow> (Some (''Rotate: Cannot find free log number to rename '' @ fw_filename w), f)
                 | (Some fName, f) \<Rightarrow>
                     (case os_Rename os (fw_filename w) fName f of
                        (Some err, f) \<Rightarrow> (Some (''Rotate: '' @ err), f)
                      | (None, f) \<Rightarrow> (None, f)))))"

text \<open>Creating the directory and the file where they are missing, and opening the file.\<close>

definition ensure_dir :: "osenv \<Rightarrow> string \<Rightarrow> fs \<Rightarrow> string option \<times> fs" where
  "ensure_dir os filename f =
     (case dir_of filename of
        None \<Rightarrow> (None, f)
      | Some s \<Rightarrow>
          (case os_Stat os s f of
             (None, f) \<Rightarrow> (None, f)
           | (Some err, f) \<Rightarrow>
               (case os_MkdirAll os s f of
                  (Some err, f) \<Rightarrow> (Some err, f)
                | (None, f) \<Rightarrow> os_Create os filename f)))"

definition ensure_file :: "osenv \<Rightarrow> string \<Rightarrow> fs \<Rightarrow> string option \<times> fs" where
  "ensure_file os filename f =
     (case os_Stat os filename f of
        (None, f) \<Rightarrow> (None, f)
      | (Some err, f) \<Rightarrow> os_Create os filename f)"

definition open_log :: "osenv \<Rightarrow> string \<Rightarrow> fs \<Rightarrow> string option \<times> fs" where
  "open_log os filename f =
     (case ensure_dir os filename f of
        (Some err, f) \<Rightarrow> (Some err, f)
      | (None, f) \<Rightarrow>
          (case ensure_file os filename f of
             (Some err, f) \<Rightarrow> (Some err, f)
           | (None, f) \<Rightarrow> os_OpenFile os filename f))"

text \<open>Formatting a header or a trailer and writing it; the result of the write is not looked at.\<close>

definition fw_mark :: "osenv \<Rightarrow> int \<Rightarrow> string \<Rightarrow> int \<Rightarrow> FileLogWriter \<Rightarrow> fs \<Rightarrow> (FileLogWriter \<times> fs) go" where
  "fw_mark os tz text t w f =
     go_bind (FormatLogRecord tz (fw_cache w) text (Some (time_record t))) (\<lambda>(s, c).
       Inr (w\<lparr>fw_cache := c\<rparr>, snd (fw_Fprint os w s f)))"

definition close_file :: "osenv \<Rightarrow> int \<Rightarrow> FileLogWriter \<Rightarrow> fs \<Rightarrow> (FileLogWriter \<times> fs) go" where
  "close_file os tz w f =
     (if fw_file w = None then Inr (w, f)
      else (case os_Now os f of (t, f) \<Rightarrow>
              go_bind (fw_mark os tz (fw_trailer w) t w f) (\<lambda>(w, f). Inr (w\<lparr>fw_file := Some False\<rparr>, f))))"

definition intRotateTime :: "osenv \<Rightarrow> int \<Rightarrow> int \<Rightarrow> FileLogWriter \<Rightarrow> fs \<Rightarrow> (string option \<times> FileLogWriter \<times> fs) go" where
  "intRotateTime os tz now w f =
     go_bind (close_file os tz w f) (\<lambda>(w, f).
       case rotate_away os tz now w f of
         (Some err, f) \<Rightarrow> Inr (Some err, w, f)
       | (None, f) \<Rightarrow>
           (case open_log os (fw_filename w) f of
              (Some err, f) \<Rightarrow> Inr (Some err, w, f)
            | (None, f) \<Rightarrow>
                go_bind (fw_mark os tz (fw_header w) now (w\<lparr>fw_file := Some True\<rparr>) f) (\<lambda>(w, f).
                  Inr (None,
                       w\<lparr>fw_dailyOpenDate := c_day (civil_of tz now), fw_hourlyOpenHour := c_hour (civil_of tz now),
                         fw_maxLinesCurLines := 0, fw_maxsizeCurSize := 0\<rparr>, f))))"

definition intRotate :: "osenv \<Rightarrow> int \<Rightarrow> FileLogWriter \<Rightarrow> fs \<Rightarrow> (string option \<times> FileLogWriter \<times> fs) go" where
  "intRotate os tz w f = (case os_Now os f of (t, f) \<Rightarrow> intRotateTime os tz t w f)"

definition log_err :: "string \<Rightarrow> string \<Rightarrow> string" where
  "log_err filename err = ''FileLogWriter('' @ filename @ ''): '' @ err"

definition NewFileLogWriter ::
  "osenv \<Rightarrow> int \<Rightarrow> string \<Rightarrow> bool \<Rightarrow> bool \<Rightarrow> bool \<Rightarrow> fs \<Rightarrow> (FileLogWriter option \<times> fs) go" where
  "NewFileLogWriter os tz fileName rot daily hourly f =
     go_bind (intRotate os tz
       \<lparr>fw_rec = [], fw_stop = False, fw_running = False, fw_filename = fileName, fw_file = None,
        fw_format = FORMAT_DEFAULT, fw_header = [], fw_trailer = [], fw_maxLines = 0, fw_maxLinesCurLines = 0,
        fw_maxsize = 0, fw_maxsizeCurSize = 0, fw_daily = daily, fw_dailyOpenDate = 0, fw_hourly = hourly,
        fw_hourlyOpenHour = 0, fw_rotate = rot, fw_ScribeCategory = [], fw_cache = empty_cache\<rparr> f)
     (\<lambda>(err, w, f).
        Inr (case err of
               Some e \<Rightarrow> (None, f\<lparr>fs_stderr := fs_stderr f @ [log_err fileName e]\<rparr>)
             | None \<Rightarrow> (Some (w\<lparr>fw_running := True\<rparr>), f)))"

section \<open>The goroutine\<close>

definition must_rotate :: "int \<Rightarrow> int \<Rightarrow> FileLogWriter \<Rightarrow> bool" where
  "must_rotate tz now w =
     ((fw_maxLines w > 0 \<and> fw_maxLinesCurLines w \<ge> fw_maxLines w) \<or>
      (fw_maxsize w > 0 \<and> fw_maxsizeCurSize w \<ge> fw_maxsize w) \<or>
      (fw_daily w \<and> c_day (civil_of tz now) \<noteq> fw_dailyOpenDate w) \<or>
      (fw_hourly w \<and> c_hour (civil_of tz now) \<noteq> fw_hourlyOpenHour w))"

definition or_panic :: "(string option \<times> FileLogWriter \<times> fs) go \<Rightarrow> (FileLogWriter \<times> fs) go" where
  "or_panic r =
     go_bind r (\<lambda>(err, w, f). case err of Some e \<Rightarrow> Inl (PanicValue (log_err (fw_filename w) e)) | None \<Rightarrow> Inr (w, f))"

definition take_record :: "osenv \<Rightarrow> int \<Rightarrow> LogRecord \<Rightarrow> FileLogWriter \<Rightarrow> fs \<Rightarrow> (FileLogWriter \<times> fs) go" where
  "take_record os tz r w f =
     go_bind (if must_rotate tz (lr_Created r) w then or_panic (intRotateTime os tz (lr_Created r) w f) else Inr (w, f)) (\<lambda>(w, f).
     go_bind (FormatLogRecord tz (fw_cache w) (fw_format w) (Some r)) (\<lambda>(toWrite, c).
       case fw_Fprint os w toWrite f of
         (Inl err, f) \<Rightarrow> Inl (PanicValue (log_err (fw_filename w) err))
       | (Inr n, f) \<Rightarrow>
           Inr (w\<lparr>fw_cache := c, fw_maxLinesCurLines := fw_maxLinesCurLines w + 1,
                  fw_maxsizeCurSize := fw_maxsizeCurSize w + int n\<rparr>, f)))"

definition flw_Close :: "FileLogWriter \<Rightarrow> FileLogWriter" where
  "flw_Close w = w\<lparr>fw_stop := True\<rparr>"

text \<open>
  What can happen to a writer: its goroutine takes the stop signal, a request to rotate or a record, or
  somebody closes it.  An event that is not possible changes nothing.
\<close>

datatype fw_event = EvStop | EvRot | EvRec | EvClose

definition flw_step :: "osenv \<Rightarrow> int \<Rightarrow> fw_event \<Rightarrow> FileLogWriter \<Rightarrow> fs \<Rightarrow> (FileLogWriter \<times> fs) go" where
  "flw_step os tz ev w f =
     (case ev of
        EvClose \<Rightarrow> Inr (flw_Close w, f)
      | EvStop \<Rightarrow>
          if fw_running w \<and> fw_stop w
          then go_bind (close_file os tz w f) (\<lambda>(w, f). Inr (w\<lparr>fw_running := False\<rparr>, f))
          else Inr (w, f)
      | EvRot \<Rightarrow> if fw_running w then or_panic (intRotate os tz w f) else Inr (w, f)
      | EvRec \<Rightarrow>
          if fw_running w
          then (case fw_rec w of [] \<Rightarrow> Inr (w, f) | r # q \<Rightarrow> take_record os tz r (w\<lparr>fw_rec := q\<rparr>) f)
          else Inr (w, f))"

fun flw_run :: "osenv \<Rightarrow> int \<Rightarrow> fw_event list \<Rightarrow> FileLogWriter \<Rightarrow> fs \<Rightarrow> (FileLogWriter \<times> fs) go" where
  "flw_run os tz [] w f = Inr (w, f)"
| "flw_run os tz (ev # evs) w f = go_bind (flw_step os tz ev w f) (\<lambda>(w, f). flw_run os tz evs w f)"

text \<open>
  \<open>LogWrite\<close>.  Of a free place in the channel and a closed \<open>stop\<close> the run-time picks one (\<open>pick\<close>); when
  neither is there, \<open>late\<close> is what happens in the two milliseconds the call waits.
\<close>

definition flw_send :: "bool \<Rightarrow> LogRecord \<Rightarrow> FileLogWriter \<Rightarrow> fs \<Rightarrow> (FileLogWriter \<times> fs) option" where
  "flw_send pick r w f =
     (let room = length (fw_rec w) < LogBufferLength
      in if room \<and> (pick \<or> \<not> fw_stop w) then Some (w\<lparr>fw_rec := fw_rec w @ [r]\<rparr>, f)
         else if fw_stop w then Some (w, f\<lparr>fs_stderr := fs_stderr f @ [''write on closed logger:'' @ lr_Message r]\<rparr>)
         else None)"

definition flw_LogWrite ::
  "osenv \<Rightarrow> int \<Rightarrow> bool \<Rightarrow> fw_event list \<Rightarrow> LogRecord \<Rightarrow> FileLogWriter \<Rightarrow> fs \<Rightarrow> (FileLogWriter \<times> fs) go" where
  "flw_LogWrite os tz pick late r w f =
     (case flw_send pick r w f of
        Some x \<Rightarrow> Inr x
      | None \<Rightarrow>
          go_bind (flw_run os tz late w f) (\<lambda>(w, f).
            Inr (case flw_send pick r w f of
                   Some x \<Rightarrow> x
                 | None \<Rightarrow> (w, f\<lparr>fs_stderr := fs_stderr f @ [''fatal file log channel blocked!'' @ lr_Message r]\<rparr>))))"

text \<open>\<open>Rotate\<close> blocks until the goroutine receives the request, unless the writer is closed.\<close>

definition flw_Rotate :: "osenv \<Rightarrow> int \<Rightarrow> bool \<Rightarrow> FileLogWriter \<Rightarrow> fs \<Rightarrow> (FileLogWriter \<times> fs) go" where
  "flw_Rotate os tz pick w f =
     (if fw_stop w \<and> (\<not> pick \<or> \<not> fw_running w) then Inr (w, f) else flw_step os tz EvRot w f)"

section \<open>Settings\<close>

definition flw_SetFormat :: "string \<Rightarrow> FileLogWriter \<Rightarrow> FileLogWriter" where
  "flw_SetFormat format w = w\<lparr>fw_format := format\<rparr>"

definition flw_SetHeadFoot :: "osenv \<Rightarrow> int \<Rightarrow> string \<Rightarrow> string \<Rightarrow> FileLogWriter \<Rightarrow> fs \<Rightarrow> (FileLogWriter \<times> fs) go" where
  "flw_SetHeadFoot os tz head foot w f =
     (let w = w\<lparr>fw_header := head, fw_trailer := foot\<rparr>
      in if fw_maxLinesCurLines w = 0
         then (case os_Now os f of (t, f) \<Rightarrow> fw_mark os tz (fw_header w) t w f)
         else Inr (w, f))"

definition flw_SetRotateLines :: "int \<Rightarrow> FileLogWriter \<Rightarrow> FileLogWriter" where
  "flw_SetRotateLines maxLines w = w\<lparr>fw_maxLines := maxLines\<rparr>"

definition flw_SetRotateSize :: "int \<Rightarrow> FileLogWriter \<Rightarrow> FileLogWriter" where
  "flw_SetRotateSize maxsize w = w\<lparr>fw_maxsize := maxsize\<rparr>"

definition flw_SetRotateDaily :: "bool \<Rightarrow> FileLogWriter \<Rightarrow> FileLogWriter" where
  "flw_SetRotateDaily daily w = w\<lparr>fw_daily := daily\<rparr>"

definition flw_SetRotateHourly :: "bool \<Rightarrow> FileLogWriter \<Rightarrow> FileLogWriter" where
  "flw_SetRotateHourly hourly w = w\<lparr>fw_hourly := hourly\<rparr>"

definition flw_SetRotate :: "bool \<Rightarrow> FileLogWriter \<Rightarrow> FileLogWriter" where
  "flw_SetRotate rot w = w\<lparr>fw_rotate := rot\<rparr>"

text \<open>A nil writer is dereferenced by the first setter.\<close>

definition xml_format :: string where
  "xml_format =
     CHR 0x09 # ''<record level='' @ [CHR 0x22] @ ''%L'' @ [CHR 0x22] @ ''>''
       @ CHR 0x0A # CHR 0x09 # CHR 0x09 # ''<timestamp>%D %T</timestamp>''
       @ CHR 0x0A # CHR 0x09 # CHR 0x09 # ''<source>%S</source>''
       @ CHR 0x0A # CHR 0x09 # CHR 0x09 # ''<message>%M</message>''
       @ CHR 0x0A # CHR 0x09 # ''</record>''"

definition NewXMLLogWriter :: "osenv \<Rightarrow> int \<Rightarrow> string \<Rightarrow> bool \<Rightarrow> fs \<Rightarrow> (FileLogWriter \<times> fs) go" where
  "NewXMLLogWriter os tz fName rot f =
     go_bind (NewFileLogWriter os tz fName rot False True f) (\<lambda>(wo, f).
       case wo of
         None \<Rightarrow> Inl NilDeref
       | Some w \<Rightarrow>
           flw_SetHeadFoot os tz (''<log created='' @ [CHR 0x22] @ ''%D %T'' @ [CHR 0x22] @ ''>'') ''</log>''
             (flw_SetFormat xml_format w) f)"

section \<open>Rotation keeps every record\<close>

text \<open>Files outside the writer's reach are the same, as are the moves so far.\<close>

definition same_files :: "fs \<Rightarrow> fs \<Rightarrow> bool" where
  "same_files f g = (fs_files g = fs_files f \<and> fs_moved g = fs_moved f)"

lemma os_call_same: "os_call os op f = (e, g) \<Longrightarrow> same_files f g \<and> fs_dirs g = fs_dirs f"
  by (auto simp: os_call_def same_files_def)

lemma os_Stat_same: "os_Stat os p f = (e, g) \<Longrightarrow> same_files f g \<and> fs_dirs g = fs_dirs f"
  by (auto simp: os_Stat_def os_call_def same_files_def split: option.splits)

lemma os_Stat_absent:
  "os_Stat os p f = (e, g) \<Longrightarrow> \<forall>n. os_fail os SStat n = None \<Longrightarrow> p \<noteq> [] \<Longrightarrow>
   (e \<noteq> None \<longleftrightarrow> fs_files f p = None \<and> \<not> fs_dirs f p)"
  by (auto simp: os_Stat_def os_call_def split: if_splits)

lemma free_name_free:
  assumes "free_name os name num left f = (Some n, g)" "\<forall>n. os_fail os SStat n = None" "\<forall>k. name k \<noteq> []"
  shows "same_files f g \<and> fs_files f n = None \<and> n \<in> range name"
  using assms
proof (induction os name num left f rule: free_name.induct)
  case (2 os name num left f)
  obtain e h where st: "os_Stat os (name num) f = (e, h)" by fastforce
  note same = os_Stat_same [OF st] and absent = os_Stat_absent [OF st 2(3)]
  show ?case
  proof (cases e)
    case None
    then show ?thesis using 2(1) [OF st [symmetric]] 2(2-4) st same by (simp add: same_files_def)
  next
    case (Some err)
    then show ?thesis using 2(2,4) st same absent by auto
  qed
qed simp

lemma backup_name_nonempty: "backup_name tz now w k \<noteq> []"
  by (simp add: backup_name_def Let_def)

lemma rotate_away_moves:
  assumes "rotate_away os tz now w f = (None, g)" "\<forall>n. os_fail os SStat n = None" "fw_rotate w" "fw_filename w \<noteq> []"
  obtains "fs_files f (fw_filename w) = None" "same_files f g"
  | n t where "fs_files f (fw_filename w) = Some t" "fs_files f n = None"
      "fs_files g = (fs_files f)(fw_filename w := None, n \<mapsto> t)" "fs_moved g = fs_moved f @ [n]"
proof -
  let ?p = "fw_filename w"
  obtain e h where st: "os_Stat os ?p f = (e, h)" by fastforce
  note same = os_Stat_same [OF st] and absent = os_Stat_absent [OF st assms(2,4)]
  show thesis
  proof (cases e)
    case (Some err)
    then show thesis using that(1) assms(1,3) st same absent by (simp add: rotate_away_def)
  next
    case None
    obtain no k where fn: "free_name os (backup_name tz now w) 0 1000 h = (no, k)" by fastforce
    with assms(1,3) None st obtain n where n: "no = Some n" by (cases no) (auto simp: rotate_away_def)
    obtain e' l where rn: "os_Rename os ?p n k = (e', l)" by fastforce
    have ok: "e' = None" "l = g" using assms(1,3) None st fn n rn by (auto simp: rotate_away_def split: option.splits)
    have k: "same_files h k" "fs_files h n = None" using free_name_free [of os "backup_name tz now w" 0 1000 h n k] fn n assms(2) backup_name_nonempty by auto
    have g: "fs_files k ?p \<noteq> None" "fs_files g = (fs_files k)(?p := None, n := fs_files k ?p)" "fs_moved g = fs_moved k @ [n]"
      using rn ok by (auto simp: os_Rename_def os_call_def split: option.splits if_splits)
    then obtain t where "fs_files k ?p = Some t" by blast
    then show thesis using that(2) g k same by (simp add: same_files_def)
  qed
qed

lemma os_Create_empty:
  "os_Create os p f = (None, g) \<Longrightarrow> p \<noteq> [] \<and> fs_files g = (fs_files f)(p \<mapsto> []) \<and> fs_moved g = fs_moved f"
  by (auto simp: os_Create_def os_call_def can_create_def split: option.splits if_splits)

text \<open>A file that is absent is empty once it is open.\<close>

definition absent_or_empty :: "string \<Rightarrow> fs \<Rightarrow> fs \<Rightarrow> bool" where
  "absent_or_empty p f g = (fs_moved g = fs_moved f \<and> (fs_files g = fs_files f \<or> fs_files g = (fs_files f)(p \<mapsto> [])))"

lemma ensure_dir_keeps: "ensure_dir os p f = (None, g) \<Longrightarrow> absent_or_empty p f g"
  unfolding ensure_dir_def absent_or_empty_def
  by (auto split: option.splits prod.splits dest!: os_Stat_same os_Create_empty
        simp: same_files_def os_MkdirAll_def os_call_def split: if_splits)

lemma ensure_file_keeps: "ensure_file os p f = (None, g) \<Longrightarrow> absent_or_empty p f g"
  unfolding ensure_file_def absent_or_empty_def
  by (auto split: option.splits prod.splits dest!: os_Stat_same os_Create_empty simp: same_files_def)

lemma open_log_empty:
  assumes "open_log os p f = (None, g)" "fs_files f p = None"
  shows "p \<noteq> [] \<and> fs_files g = (fs_files f)(p \<mapsto> []) \<and> fs_moved g = fs_moved f"
proof -
  obtain e1 h where d: "ensure_dir os p f = (e1, h)" by fastforce
  obtain e2 k where e: "ensure_file os p h = (e2, k)" by fastforce
  have ok: "e1 = None" "e2 = None" "os_OpenFile os p k = (None, g)"
    using assms(1) d e by (auto simp: open_log_def split: option.splits)
  have g: "p \<noteq> []" "fs_moved g = fs_moved k"
    "fs_files g = (fs_files k)(p := Some (case fs_files k p of None \<Rightarrow> [] | Some s \<Rightarrow> s))"
    using ok(3) by (auto simp: os_OpenFile_def os_call_def can_create_def split: option.splits if_splits)
  have h: "absent_or_empty p f h" "absent_or_empty p h k"
    using ensure_dir_keeps ensure_file_keeps d e ok(1,2) by auto
  then show ?thesis using g assms(2) by (auto simp: absent_or_empty_def)
qed

lemma fw_mark_nothing:
  assumes "fw_mark os tz [] t w f = Inr (w', g)"
  shows "w' = w \<and> same_files f g"
  using assms
  by (auto simp: fw_mark_def FormatLogRecord_def fw_Fprint_def os_call_def same_files_def map_option.identity fun_upd_idem
       split: option.splits)

lemma close_file_nothing:
  assumes "close_file os tz w f = Inr (w', g)" "fw_trailer w = []"
  shows "(w' = w \<and> fw_file w = None \<or> w' = w\<lparr>fw_file := Some False\<rparr>) \<and> same_files f g"
  using assms fw_mark_nothing [of os tz "fst (os_Now os f)" w "snd (os_Now os f)"]
  by (auto simp: close_file_def os_Now_def same_files_def split: if_splits prod.splits)

definition plain_writer :: "FileLogWriter \<Rightarrow> bool" where
  "plain_writer w = (fw_rotate w \<and> fw_header w = [] \<and> fw_trailer w = [])"

definition reopened :: "int \<Rightarrow> int \<Rightarrow> FileLogWriter \<Rightarrow> FileLogWriter" where
  "reopened tz now w =
     w\<lparr>fw_file := Some True, fw_dailyOpenDate := c_day (civil_of tz now), fw_hourlyOpenHour := c_hour (civil_of tz now),
       fw_maxLinesCurLines := 0, fw_maxsizeCurSize := 0\<rparr>"

lemma intRotateTime_moves:
  assumes "intRotateTime os tz now w f = Inr (None, w', g)" "\<forall>n. os_fail os SStat n = None" "plain_writer w"
  obtains "w' = reopened tz now w" "fw_filename w \<noteq> []" "fs_files f (fw_filename w) = None"
      "fs_files g = (fs_files f)(fw_filename w \<mapsto> [])" "fs_moved g = fs_moved f"
  | n t where "w' = reopened tz now w" "fw_filename w \<noteq> []" "fs_files f (fw_filename w) = Some t" "fs_files f n = None"
      "fs_files g = (fs_files f)(n \<mapsto> t, fw_filename w \<mapsto> [])" "fs_moved g = fs_moved f @ [n]"
proof -
  let ?p = "fw_filename w"
  from assms(1) obtain w1 f1 where c: "close_file os tz w f = Inr (w1, f1)"
    by (cases "close_file os tz w f") (auto simp: intRotateTime_def)
  from close_file_nothing [OF this] assms(3)
  have w1: "w1 = w \<or> w1 = w\<lparr>fw_file := Some False\<rparr>" and s1: "same_files f f1" by (auto simp: plain_writer_def)
  obtain e2 f2 where r: "rotate_away os tz now w1 f1 = (e2, f2)" by fastforce
  obtain e3 f3 where o3: "open_log os (fw_filename w1) f2 = (e3, f3)" by fastforce
  have e: "e2 = None" "e3 = None" using assms(1) c r o3 by (auto simp: intRotateTime_def split: option.splits)
  have hdr: "fw_header w1 = []" "fw_rotate w1" "fw_filename w1 = ?p" using w1 assms(3) by (auto simp: plain_writer_def)
  from assms(1) c r o3 e obtain w4 where m: "fw_mark os tz (fw_header w1) now (w1\<lparr>fw_file := Some True\<rparr>) f3 = Inr (w4, g)"
    "w' = w4\<lparr>fw_dailyOpenDate := c_day (civil_of tz now), fw_hourlyOpenHour := c_hour (civil_of tz now),
         fw_maxLinesCurLines := 0, fw_maxsizeCurSize := 0\<rparr>"
    by (cases "fw_mark os tz (fw_header w1) now (w1\<lparr>fw_file := Some True\<rparr>) f3") (auto simp: intRotateTime_def)
  have m4: "w4 = w1\<lparr>fw_file := Some True\<rparr>" "same_files f3 g" using fw_mark_nothing [of os tz now _ f3 w4 g] m(1) hdr(1) by auto
  have w': "w' = reopened tz now w" using m(2) m4(1) w1 by (auto simp: reopened_def)
  have "?p \<noteq> []" using o3 e(2) hdr(3) by (auto simp: open_log_def os_OpenFile_def can_create_def split: option.splits prod.splits if_splits)
  then have "fw_filename w1 \<noteq> []" using hdr(3) by simp
  have r': "rotate_away os tz now w1 f1 = (None, f2)" using r e(1) by simp
  from r' assms(2) hdr(2) \<open>fw_filename w1 \<noteq> []\<close> show thesis
  proof (rule rotate_away_moves)
    assume a: "fs_files f1 (fw_filename w1) = None" "same_files f1 f2"
    then have "fs_files f3 = (fs_files f)(?p \<mapsto> [])" "fs_moved f3 = fs_moved f"
      using open_log_empty [of os ?p f2 f3] o3 e(2) hdr(3) s1 by (auto simp: same_files_def)
    then show thesis using that(1) w' m4(2) a s1 hdr(3) \<open>?p \<noteq> []\<close> by (simp add: same_files_def)
  next
    fix n t
    assume a: "fs_files f1 (fw_filename w1) = Some t" "fs_files f1 n = None"
      "fs_files f2 = (fs_files f1)(fw_filename w1 := None, n \<mapsto> t)" "fs_moved f2 = fs_moved f1 @ [n]"
    then have ne: "n \<noteq> ?p" using hdr(3) by auto
    then have "fs_files f3 = (fs_files f)(n \<mapsto> t, ?p \<mapsto> [])" "fs_moved f3 = fs_moved f @ [n]"
      using open_log_empty [of os ?p f2 f3] o3 e(2) hdr(3) s1 a by (auto simp: same_files_def fun_upd_twist)
    then show thesis using that(2) w' m4(2) a s1 hdr(3) \<open>?p \<noteq> []\<close> by (simp add: same_files_def)
  qed
qed

text \<open>
  What the files hold: \<open>segs\<close> are the files moved away with their lines, \<open>cur\<close> the lines of the present
  file, \<open>B\<close> the files before the writer was created.
\<close>

definition within :: "FileLogWriter \<Rightarrow> string list \<Rightarrow> bool" where
  "within w c = ((0 < fw_maxLines w \<longrightarrow> int (length c) \<le> fw_maxLines w)
               \<and> (0 < fw_maxsize w \<longrightarrow> c = [] \<or> int (length (concat (butlast c))) < fw_maxsize w))"

definition archived :: "(string \<Rightarrow> string option) \<Rightarrow> FileLogWriter \<Rightarrow> fs \<Rightarrow> (string \<times> string list) list \<Rightarrow> string list \<Rightarrow> bool" where
  "archived B w f segs cur =
     ((\<forall>(n, c)\<in>set segs. n \<noteq> fw_filename w \<and> B n = None \<and> fs_files f n = Some (concat c) \<and> within w c)
      \<and> fs_files f (fw_filename w) = Some (concat cur) \<and> within w cur
      \<and> (\<forall>n t. n \<noteq> fw_filename w \<longrightarrow> B n = Some t \<longrightarrow> fs_files f n = Some t)
      \<and> distinct (map fst segs)
      \<and> fw_maxLinesCurLines w = int (length cur) \<and> fw_maxsizeCurSize w = int (length (concat cur))
      \<and> plain_writer w \<and> (fw_running w \<longrightarrow> fw_file w = Some True))"

lemma reopened_filename [simp]: "fw_filename (reopened tz now w) = fw_filename w"
  by (simp add: reopened_def)

lemma archived_rotate:
  assumes "archived B w f segs cur" "intRotateTime os tz now w f = Inr (None, w', g)" "\<forall>n. os_fail os SStat n = None"
  shows "\<exists>n. archived B w' g (segs @ [(n, cur)]) [] \<and> w' = reopened tz now w"
proof -
  have p: "plain_writer w" using assms(1) by (simp add: archived_def)
  from assms(2,3) p show ?thesis
  proof (rule intRotateTime_moves)
    assume "fs_files f (fw_filename w) = None"
    then show ?thesis using assms(1) by (simp add: archived_def)
  next
    fix n t
    assume a: "w' = reopened tz now w" "fw_filename w \<noteq> []" "fs_files f (fw_filename w) = Some t" "fs_files f n = None"
      "fs_files g = (fs_files f)(n \<mapsto> t, fw_filename w \<mapsto> [])" "fs_moved g = fs_moved f @ [n]"
    have ne: "n \<noteq> fw_filename w" using a(3,4) by auto
    have new: "n \<notin> fst ` set segs" using assms(1) a(4) by (force simp: archived_def)
    have bn: "B n = None" using assms(1) a(4) ne by (cases "B n") (auto simp: archived_def)
    have t: "t = concat cur" using assms(1) a(3) by (simp add: archived_def)
    have old: "fs_files g m = fs_files f m" if "m \<noteq> n" "m \<noteq> fw_filename w" for m using a(5) that by simp
    have "archived B w' g (segs @ [(n, cur)]) []"
      unfolding archived_def
    proof (intro conjI)
      show "\<forall>(m, c)\<in>set (segs @ [(n, cur)]). m \<noteq> fw_filename w' \<and> B m = None \<and> fs_files g m = Some (concat c) \<and> within w' c"
      proof (clarify)
        fix m c
        assume m: "(m, c) \<in> set (segs @ [(n, cur)])"
        show "m \<noteq> fw_filename w' \<and> B m = None \<and> fs_files g m = Some (concat c) \<and> within w' c"
        proof (cases "(m, c) \<in> set segs")
          case True
          then have "m \<noteq> n" using new by force
          then show ?thesis using True assms(1) old a(1) by (fastforce simp: archived_def reopened_def within_def)
        next
          case False
          then have "m = n" "c = cur" using m by auto
          then show ?thesis using ne bn a(1,5) t assms(1) by (simp add: archived_def reopened_def within_def)
        qed
      qed
      show "\<forall>m u. m \<noteq> fw_filename w' \<longrightarrow> B m = Some u \<longrightarrow> fs_files g m = Some u"
        using assms(1) old bn a(1) by (metis (no_types, lifting) archived_def option.distinct(1) reopened_filename)
      show "distinct (map fst (segs @ [(n, cur)]))" using assms(1) new by (simp add: archived_def)
    qed (use a(1,5) p in \<open>simp_all add: reopened_def within_def plain_writer_def\<close>)
    then show ?thesis using a(1) by blast
  qed
qed

lemma archived_append:
  assumes "archived B w f segs cur" "fw_Fprint os w s f = (Inr n, g)" "within w (cur @ [s])"
  shows "archived B (w\<lparr>fw_cache := c, fw_maxLinesCurLines := fw_maxLinesCurLines w + 1,
                      fw_maxsizeCurSize := fw_maxsizeCurSize w + int n\<rparr>) g segs (cur @ [s])"
proof -
  have "n = length s" "fs_files g = (fs_files f)(fw_filename w := map_option (\<lambda>t. t @ s) (fs_files f (fw_filename w)))"
    using assms(2) by (auto simp: fw_Fprint_def os_call_def split: if_splits option.splits)
  then show ?thesis using assms(1,3) by (auto simp: archived_def plain_writer_def within_def)
qed

definition same_settings :: "FileLogWriter \<Rightarrow> FileLogWriter \<Rightarrow> bool" where
  "same_settings w w' =
     (fw_format w' = fw_format w \<and> fw_filename w' = fw_filename w \<and> fw_maxLines w' = fw_maxLines w
      \<and> fw_maxsize w' = fw_maxsize w)"

lemma take_record_archived:
  assumes "archived B w f segs cur" "take_record os tz r w f = Inr (w', g)" "\<forall>n. os_fail os SStat n = None"
  shows "\<exists>segs' cur' s. archived B w' g segs' cur' \<and> concat (map snd segs') @ cur' = concat (map snd segs) @ cur @ [s]
           \<and> FormatLogRecord tz (fw_cache w) (fw_format w) (Some r) = Inr (s, fw_cache w')
           \<and> same_settings w w' \<and> fw_rec w' = fw_rec w"
proof -
  obtain w1 f1 where
    rot: "(if must_rotate tz (lr_Created r) w then or_panic (intRotateTime os tz (lr_Created r) w f) else Inr (w, f)) = Inr (w1, f1)"
    using assms(2) by (cases "if must_rotate tz (lr_Created r) w then or_panic (intRotateTime os tz (lr_Created r) w f) else Inr (w, f)")
      (auto simp: take_record_def)
  obtain s c where fmt: "FormatLogRecord tz (fw_cache w1) (fw_format w1) (Some r) = Inr (s, c)"
    using assms(2) rot by (cases "FormatLogRecord tz (fw_cache w1) (fw_format w1) (Some r)") (auto simp: take_record_def)
  obtain x g' where x: "fw_Fprint os w1 s f1 = (x, g')" by fastforce
  obtain n where wr: "fw_Fprint os w1 s f1 = (Inr n, g)"
    and w': "w' = w1\<lparr>fw_cache := c, fw_maxLinesCurLines := fw_maxLinesCurLines w1 + 1, fw_maxsizeCurSize := fw_maxsizeCurSize w1 + int n\<rparr>"
    using assms(2) rot fmt x by (cases x) (simp_all add: take_record_def)
  obtain segs1 cur1 where a1: "archived B w1 f1 segs1 cur1" "concat (map snd segs1) @ cur1 = concat (map snd segs) @ cur"
    "within w1 (cur1 @ [s])" "same_settings w w1" "fw_rec w1 = fw_rec w" "fw_cache w1 = fw_cache w"
  proof (cases "must_rotate tz (lr_Created r) w")
    case True
    then have i: "intRotateTime os tz (lr_Created r) w f = Inr (None, w1, f1)"
      using rot by (auto simp: or_panic_def split: option.splits)
    from archived_rotate [OF assms(1) i assms(3)] obtain m where
      m: "archived B w1 f1 (segs @ [(m, cur)]) []" "w1 = reopened tz (lr_Created r) w" by blast
    show thesis
      by (rule that [OF m(1)]) (auto simp: m(2) reopened_def within_def same_settings_def)
  next
    case False
    then have w1: "w1 = w" "f1 = f" using rot by auto
    have "within w (cur @ [s])" using False assms(1) by (auto simp: archived_def within_def must_rotate_def)
    then show thesis using that [of segs cur] assms(1) w1 by (simp add: same_settings_def)
  qed
  have "archived B w' g segs1 (cur1 @ [s])" using archived_append [OF a1(1) wr a1(3)] w' by simp
  moreover have "concat (map snd segs1) @ (cur1 @ [s]) = concat (map snd segs) @ cur @ [s]" using a1(2) by (metis append_assoc)
  moreover have "FormatLogRecord tz (fw_cache w) (fw_format w) (Some r) = Inr (s, fw_cache w')"
    using fmt a1(4,6) w' by (simp add: same_settings_def)
  moreover have "same_settings w w'" "fw_rec w' = fw_rec w" using a1(4,5) w' by (simp_all add: same_settings_def)
  ultimately show ?thesis by blast
qed

text \<open>A state and a later one, the records taken between them and the lines they became.\<close>

definition progress ::
  "int \<Rightarrow> FileLogWriter \<Rightarrow> string list \<Rightarrow> FileLogWriter \<Rightarrow> string list \<Rightarrow> bool" where
  "progress tz w text w' text' =
     (\<exists>taken ls. fw_rec w = taken @ fw_rec w' \<and> text' = text @ ls \<and> same_settings w w'
        \<and> format_all tz (fw_format w) (fw_cache w) taken = Inr (ls, fw_cache w'))"

lemma format_all_append:
  "format_all tz fmt c xs = Inr (ls, c1) \<Longrightarrow> format_all tz fmt c1 ys = Inr (ms, c2) \<Longrightarrow>
   format_all tz fmt c (xs @ ys) = Inr (ls @ ms, c2)"
proof (induction xs arbitrary: c ls)
  case (Cons x xs)
  obtain s c0 where s: "FormatLogRecord tz c fmt (Some x) = Inr (s, c0)"
    using Cons.prems(1) by (cases "FormatLogRecord tz c fmt (Some x)") auto
  obtain ks c3 where k: "format_all tz fmt c0 xs = Inr (ks, c3)"
    using Cons.prems(1) s by (cases "format_all tz fmt c0 xs") auto
  show ?case using Cons.IH [OF _ Cons.prems(2), of c0 ks] Cons.prems(1) s k by auto
qed simp

lemma progress_refl: "fw_rec w' = fw_rec w \<Longrightarrow> same_settings w w' \<Longrightarrow> fw_cache w' = fw_cache w \<Longrightarrow> progress tz w t w' t"
  by (simp add: progress_def)

lemma progress_trans:
  assumes "progress tz w t w1 t1" "progress tz w1 t1 w2 t2"
  shows "progress tz w t w2 t2"
proof -
  obtain xs ls where a: "fw_rec w = xs @ fw_rec w1" "t1 = t @ ls" "same_settings w w1"
    "format_all tz (fw_format w) (fw_cache w) xs = Inr (ls, fw_cache w1)"
    using assms(1) by (auto simp: progress_def)
  obtain ys ms where b: "fw_rec w1 = ys @ fw_rec w2" "t2 = t1 @ ms" "same_settings w1 w2"
    "format_all tz (fw_format w1) (fw_cache w1) ys = Inr (ms, fw_cache w2)"
    using assms(2) by (auto simp: progress_def)
  have "format_all tz (fw_format w) (fw_cache w) (xs @ ys) = Inr (ls @ ms, fw_cache w2)"
    using format_all_append [OF a(4)] b(4) a(3) by (simp add: same_settings_def)
  then show ?thesis using a b unfolding progress_def
    by (intro exI [of _ "xs @ ys"] exI [of _ "ls @ ms"]) (simp add: same_settings_def)
qed

abbreviation text_of :: "(string \<times> string list) list \<Rightarrow> string list \<Rightarrow> string list" where
  "text_of segs cur \<equiv> concat (map snd segs) @ cur"

lemma archived_cong:
  assumes "archived B w f segs cur" "same_files f g"
    and "w' = w\<lparr>fw_rec := q\<rparr> \<or> w' = w\<lparr>fw_stop := b\<rparr> \<or> w' = w\<lparr>fw_file := x, fw_running := False\<rparr>"
  shows "archived B w' g segs cur"
  using assms(3) by (elim disjE) (use assms(1,2) in \<open>simp_all add: archived_def same_files_def within_def plain_writer_def\<close>)

lemma flw_step_archived:
  assumes "archived B w f segs cur" "flw_step os tz ev w f = Inr (w', g)" "\<forall>n. os_fail os SStat n = None"
  shows "\<exists>segs' cur'. archived B w' g segs' cur' \<and> progress tz w (text_of segs cur) w' (text_of segs' cur')"
proof -
  have stay: ?thesis if "w' = w" "g = f"
    using that assms(1) progress_refl [of w w] by (auto simp: same_settings_def)
  have sf: "same_files f f" by (simp add: same_files_def)
  have tr: "fw_trailer w = []" using assms(1) by (simp add: archived_def plain_writer_def)
  show ?thesis
  proof (cases ev)
    case EvClose
    then have w': "w' = w\<lparr>fw_stop := True\<rparr>" "g = f" using assms(2) by (auto simp: flw_step_def flw_Close_def)
    have "archived B w' g segs cur" using archived_cong [OF assms(1) sf, of w' "[]" True None] w' by simp
    moreover have "progress tz w (text_of segs cur) w' (text_of segs cur)"
      by (rule progress_refl) (simp_all add: w' same_settings_def)
    ultimately show ?thesis by blast
  next
    case EvStop
    show ?thesis
    proof (cases "fw_running w \<and> fw_stop w")
      case True
      then obtain w1 where c: "close_file os tz w f = Inr (w1, g)" "w' = w1\<lparr>fw_running := False\<rparr>"
        using assms(2) EvStop by (cases "close_file os tz w f") (auto simp: flw_step_def)
      from close_file_nothing [OF c(1) tr] have s: "same_files f g" "w' = w\<lparr>fw_file := fw_file w1, fw_running := False\<rparr>"
        using c(2) by auto
      have "archived B w' g segs cur" using archived_cong [OF assms(1) s(1), of w' "[]" True "fw_file w1"] s(2) by simp
      moreover have "progress tz w (text_of segs cur) w' (text_of segs cur)"
        by (rule progress_refl) (simp_all add: s(2) same_settings_def)
      ultimately show ?thesis by blast
    next
      case False
      then have "w' = w" "g = f" using assms(2) EvStop by (auto simp: flw_step_def)
      then show ?thesis by (rule stay)
    qed
  next
    case EvRot
    show ?thesis
    proof (cases "fw_running w")
      case True
      obtain t h where t: "os_Now os f = (t, h)" "same_files f h" by (auto simp: os_Now_def same_files_def)
      have i: "intRotateTime os tz t w h = Inr (None, w', g)"
        using assms(2) EvRot True t(1) by (auto simp: flw_step_def or_panic_def intRotate_def split: option.splits)
      have "archived B w h segs cur" using archived_cong [OF assms(1) t(2), of w "fw_rec w"] by simp
      from archived_rotate [OF this i assms(3)] obtain n where
        n: "archived B w' g (segs @ [(n, cur)]) []" "w' = reopened tz t w" by blast
      have "progress tz w (text_of segs cur) w' (text_of segs cur)"
        by (rule progress_refl) (simp_all add: n(2) reopened_def same_settings_def)
      then show ?thesis using n(1) by (intro exI [of _ "segs @ [(n, cur)]"] exI [of _ "[]"]) simp
    next
      case False
      then show ?thesis using stay assms(2) EvRot by (simp add: flw_step_def)
    qed
  next
    case EvRec
    show ?thesis
    proof (cases "fw_running w \<and> fw_rec w \<noteq> []")
      case True
      then obtain r q where q: "fw_rec w = r # q" by (cases "fw_rec w") auto
      let ?w = "w\<lparr>fw_rec := q\<rparr>"
      have tk: "take_record os tz r ?w f = Inr (w', g)" using assms(2) EvRec True q by (simp add: flw_step_def)
      have "archived B ?w f segs cur" using archived_cong [OF assms(1) sf, of ?w q] by simp
      from take_record_archived [OF this tk assms(3)]
      obtain segs' cur' s where "archived B w' g segs' cur'" "text_of segs' cur' = text_of segs cur @ [s]"
        "FormatLogRecord tz (fw_cache ?w) (fw_format ?w) (Some r) = Inr (s, fw_cache w')"
        "same_settings ?w w'" "fw_rec w' = q"
        by auto
      then have "archived B w' g segs' cur' \<and> progress tz w (text_of segs cur) w' (text_of segs' cur')"
        using q by (auto simp: progress_def same_settings_def intro!: exI [of _ "[r]"])
      then show ?thesis by blast
    next
      case False
      then have "w' = w" "g = f" using assms(2) EvRec by (auto simp: flw_step_def split: list.splits)
      then show ?thesis by (rule stay)
    qed
  qed
qed

lemma flw_run_archived:
  assumes "\<forall>n. os_fail os SStat n = None"
  shows "archived B w f segs cur \<Longrightarrow> flw_run os tz evs w f = Inr (w', g) \<Longrightarrow>
    \<exists>segs' cur'. archived B w' g segs' cur' \<and> progress tz w (text_of segs cur) w' (text_of segs' cur')"
proof (induction evs arbitrary: w f segs cur)
  case Nil
  then show ?case using progress_refl [of w w] by (auto simp: same_settings_def)
next
  case (Cons ev evs)
  obtain w1 f1 where s: "flw_step os tz ev w f = Inr (w1, f1)"
    using Cons.prems(2) by (cases "flw_step os tz ev w f") auto
  from flw_step_archived [OF Cons.prems(1) s assms] obtain segs1 cur1 where
    a: "archived B w1 f1 segs1 cur1" "progress tz w (text_of segs cur) w1 (text_of segs1 cur1)" by blast
  from Cons.IH [OF a(1)] Cons.prems(2) s obtain segs2 cur2 where
    b: "archived B w' g segs2 cur2" "progress tz w1 (text_of segs1 cur1) w' (text_of segs2 cur2)" by auto
  show ?case using b(1) progress_trans [OF a(2) b(2)] by blast
qed

lemma new_writer_archived:
  assumes "NewFileLogWriter os tz name True daily hourly f0 = Inr (Some w0, f1)" "\<forall>n. os_fail os SStat n = None"
  shows "archived (fs_files f1) w0 f1 [] [] \<and> fw_filename w0 = name \<and> fw_cache w0 = empty_cache \<and> fw_running w0
    \<and> (\<forall>n t. n \<noteq> name \<longrightarrow> fs_files f0 n = Some t \<longrightarrow> fs_files f1 n = Some t)
    \<and> (\<forall>t. fs_files f0 name = Some t \<longrightarrow> (\<exists>n. n \<noteq> name \<and> fs_files f0 n = None \<and> fs_files f1 n = Some t))"
proof -
  let ?w = "\<lparr>fw_rec = [], fw_stop = False, fw_running = False, fw_filename = name, fw_file = None,
        fw_format = FORMAT_DEFAULT, fw_header = [], fw_trailer = [], fw_maxLines = 0, fw_maxLinesCurLines = 0,
        fw_maxsize = 0, fw_maxsizeCurSize = 0, fw_daily = daily, fw_dailyOpenDate = 0, fw_hourly = hourly,
        fw_hourlyOpenHour = 0, fw_rotate = True, fw_ScribeCategory = [], fw_cache = empty_cache\<rparr>"
  obtain t h where t: "os_Now os f0 = (t, h)" "same_files f0 h" by (auto simp: os_Now_def same_files_def)
  obtain e w g where i: "intRotateTime os tz t ?w h = Inr (e, w, g)"
    using assms(1) t(1) by (cases "intRotateTime os tz t ?w h") (auto simp: NewFileLogWriter_def intRotate_def)
  have e: "e = None" "w0 = w\<lparr>fw_running := True\<rparr>" "g = f1"
    using assms(1) t(1) i by (auto simp: NewFileLogWriter_def intRotate_def split: option.splits)
  have i': "intRotateTime os tz t ?w h = Inr (None, w, f1)" using i e by simp
  have pl: "plain_writer ?w" by (simp add: plain_writer_def)
  from i' assms(2) pl show ?thesis
  proof (rule intRotateTime_moves)
    assume a: "w = reopened tz t ?w" "fs_files h (fw_filename ?w) = None" "fs_files f1 = (fs_files h)(fw_filename ?w \<mapsto> [])"
    then show ?thesis using e(2) t(2)
      by (auto simp: archived_def reopened_def within_def plain_writer_def same_files_def)
  next
    fix n u
    assume a: "w = reopened tz t ?w" "fs_files h (fw_filename ?w) = Some u" "fs_files h n = None"
      "fs_files f1 = (fs_files h)(n \<mapsto> u, fw_filename ?w \<mapsto> [])"
    have n: "n \<noteq> name" using a(2,3) by auto
    have "archived (fs_files f1) w0 f1 [] []" "fw_filename w0 = name" "fw_cache w0 = empty_cache" "fw_running w0"
      using e(2) a(1,4) by (simp_all add: archived_def reopened_def within_def plain_writer_def)
    moreover have "\<forall>m v. m \<noteq> name \<longrightarrow> fs_files f0 m = Some v \<longrightarrow> fs_files f1 m = Some v"
      using a(3,4) t(2) by (auto simp: same_files_def)
    moreover have "fs_files f0 name = Some u" "fs_files f0 n = None" "fs_files f1 n = Some u"
      using a(2,3,4) t(2) n by (simp_all add: same_files_def)
    ultimately show ?thesis using n by auto
  qed
qed

text \<open>
  C26.  Rotation loses nothing.  Let a file writer that keeps old files be created, given its limits and the
  records \<open>rs\<close>, and run in any order of events (records taken, rotations requested, closing, the goroutine
  stopping).  If no look at a file name fails, then the records are the taken ones followed by those still
  in the channel; the lines of the taken ones, in order, are what the files moved away (\<open>segs\<close>) and the
  present file hold, none of them is split between two files, and no file has more than \<open>ml\<close> lines or
  has reached \<open>sz\<close> bytes before its last line.  No file that was there before is overwritten, and the old
  contents of the log file are kept under another name.
\<close>

theorem rotation_keeps_every_record:
  assumes "\<forall>n. os_fail os SStat n = None"
    and "NewFileLogWriter os tz name True daily hourly f0 = Inr (Some w0, f1)"
    and "w = (flw_SetRotateSize sz (flw_SetRotateLines ml (flw_SetFormat fmt w0)))\<lparr>fw_rec := rs\<rparr>"
    and "flw_run os tz evs w f1 = Inr (w', f2)"
  shows "\<exists>segs cur taken c. rs = taken @ fw_rec w'
     \<and> format_all tz fmt empty_cache taken = Inr (concat (map snd segs) @ cur, c)
     \<and> distinct (name # map fst segs)
     \<and> (\<forall>(n, ls)\<in>set (segs @ [(name, cur)]). fs_files f2 n = Some (concat ls)
          \<and> (0 < ml \<longrightarrow> int (length ls) \<le> ml)
          \<and> (0 < sz \<longrightarrow> ls = [] \<or> int (length (concat (butlast ls))) < sz))
     \<and> (\<forall>n t. n \<noteq> name \<longrightarrow> fs_files f0 n = Some t \<longrightarrow> n \<notin> fst ` set segs \<and> fs_files f2 n = Some t)
     \<and> (\<forall>t. fs_files f0 name = Some t \<longrightarrow> (\<exists>n. n \<noteq> name \<and> fs_files f0 n = None \<and> n \<notin> fst ` set segs \<and> fs_files f2 n = Some t))"
proof -
  note start = new_writer_archived [OF assms(2,1)]
  have a: "archived (fs_files f1) w f1 [] []" and w: "fw_filename w = name" "fw_cache w = empty_cache" "fw_rec w = rs"
    "fw_format w = fmt" "fw_maxLines w = ml" "fw_maxsize w = sz"
    using start assms(3)
    by (auto simp: archived_def within_def plain_writer_def flw_SetRotateSize_def flw_SetRotateLines_def flw_SetFormat_def)
  from flw_run_archived [OF assms(1) a assms(4)] obtain segs cur where
    b: "archived (fs_files f1) w' f2 segs cur" "progress tz w [] w' (concat (map snd segs) @ cur)" by auto
  from b(2) w obtain taken where p: "rs = taken @ fw_rec w'" "same_settings w w'"
    "format_all tz fmt empty_cache taken = Inr (concat (map snd segs) @ cur, fw_cache w')"
    by (auto simp: progress_def)
  have w': "fw_filename w' = name" "fw_maxLines w' = ml" "fw_maxsize w' = sz" using p(2) w by (auto simp: same_settings_def)
  have segs: "\<forall>(n, ls)\<in>set segs. n \<noteq> name \<and> fs_files f1 n = None \<and> fs_files f2 n = Some (concat ls) \<and> within w' ls"
    and cur: "fs_files f2 name = Some (concat cur)" "within w' cur" "distinct (map fst segs)"
    and kept: "\<forall>n t. n \<noteq> name \<longrightarrow> fs_files f1 n = Some t \<longrightarrow> fs_files f2 n = Some t"
    using b(1) w' by (simp_all add: archived_def)
  have out: "n \<notin> fst ` set segs" if "fs_files f1 n \<noteq> None" for n using segs that by force
  have D: "distinct (name # map fst segs)" using segs cur(3) by auto
  have W: "\<forall>(n, ls)\<in>set (segs @ [(name, cur)]). fs_files f2 n = Some (concat ls)
          \<and> (0 < ml \<longrightarrow> int (length ls) \<le> ml) \<and> (0 < sz \<longrightarrow> ls = [] \<or> int (length (concat (butlast ls))) < sz)"
    using segs cur(1,2) w'(2,3) by (auto simp: within_def)
  have K: "\<forall>n t. n \<noteq> name \<longrightarrow> fs_files f0 n = Some t \<longrightarrow> n \<notin> fst ` set segs \<and> fs_files f2 n = Some t"
    using start kept out by (metis option.distinct(1))
  have O: "\<forall>t. fs_files f0 name = Some t \<longrightarrow> (\<exists>n. n \<noteq> name \<and> fs_files f0 n = None \<and> n \<notin> fst ` set segs \<and> fs_files f2 n = Some t)"
    using start kept out by (metis option.distinct(1))
  show ?thesis using p(1,3) D W K O by blast
qed

text \<open>A run for witnesses: nothing fails, the clock stands still, and the log file is already there.\<close>

definition calm :: osenv where
  "calm = \<lparr>os_fail = (\<lambda>op n. None), os_now = (\<lambda>n. 7200000000000)\<rparr>"

definition calm_fs :: fs where
  "calm_fs = \<lparr>fs_files = (\<lambda>p. if p = ''a.log'' then Some ''old'' else None), fs_dirs = (\<lambda>d. False), fs_tick = 0,
              fs_moved = [], fs_stderr = []\<rparr>"

definition calm_records :: "LogRecord list" where
  "calm_records = map (\<lambda>s. (time_record 7200000000000)\<lparr>lr_Message := s\<rparr>) [''x'', ''y'']"

definition calm_run :: "bool \<Rightarrow> fw_event list \<Rightarrow> (FileLogWriter \<times> fs) go" where
  "calm_run keep evs =
     go_bind (NewFileLogWriter calm 0 ''a.log'' keep False False calm_fs) (\<lambda>(wo, f).
       case wo of
         None \<Rightarrow> Inl NilDeref
       | Some w \<Rightarrow> flw_run calm 0 evs ((flw_SetRotateSize 0 (flw_SetRotateLines 2 (flw_SetFormat ''%M'' w)))\<lparr>fw_rec := calm_records\<rparr>) f)"

lemma calm_run_ok: "case calm_run True [EvRec, EvRec] of Inl p \<Rightarrow> False | Inr (w, f) \<Rightarrow> fw_rec w = []"
  by code_simp

theorem rotation_keeps_every_record_witness:
  "\<exists>w f segs cur c. calm_run True [EvRec, EvRec] = Inr (w, f)
     \<and> format_all 0 ''%M'' empty_cache calm_records = Inr (concat (map snd segs) @ cur, c)
     \<and> (\<forall>(n, ls)\<in>set (segs @ [(''a.log'', cur)]). fs_files f n = Some (concat ls) \<and> int (length ls) \<le> 2)"
proof -
  obtain wo f1 where n: "NewFileLogWriter calm 0 ''a.log'' True False False calm_fs = Inr (wo, f1)"
    using calm_run_ok by (cases "NewFileLogWriter calm 0 ''a.log'' True False False calm_fs") (auto simp: calm_run_def)
  then obtain w0 where w0: "wo = Some w0" using calm_run_ok by (cases wo) (auto simp: calm_run_def)
  let ?w = "(flw_SetRotateSize 0 (flw_SetRotateLines 2 (flw_SetFormat ''%M'' w0)))\<lparr>fw_rec := calm_records\<rparr>"
  obtain w f where r: "calm_run True [EvRec, EvRec] = Inr (w, f)" "fw_rec w = []"
    using calm_run_ok by (cases "calm_run True [EvRec, EvRec]") auto
  have run: "flw_run calm 0 [EvRec, EvRec] ?w f1 = Inr (w, f)"
    using r(1) n w0 by (simp add: calm_run_def del: flw_run.simps)
  have n': "NewFileLogWriter calm 0 ''a.log'' True False False calm_fs = Inr (Some w0, f1)" using n w0 by simp
  have H: "\<forall>n. os_fail calm SStat n = None" by (simp add: calm_def)
  from rotation_keeps_every_record [OF H n' refl run] show ?thesis
  proof (elim exE conjE)
    fix segs cur taken c
    assume t: "calm_records = taken @ fw_rec w" "format_all 0 ''%M'' empty_cache taken = Inr (concat (map snd segs) @ cur, c)"
      "\<forall>(n, ls)\<in>set (segs @ [(''a.log'', cur)]). fs_files f n = Some (concat ls)
          \<and> (0 < (2 :: int) \<longrightarrow> int (length ls) \<le> 2) \<and> (0 < (0 :: int) \<longrightarrow> ls = [] \<or> int (length (concat (butlast ls))) < 0)"
    have "\<forall>(n, ls)\<in>set (segs @ [(''a.log'', cur)]). fs_files f n = Some (concat ls) \<and> int (length ls) \<le> 2"
      using t(3) by auto
    then show ?thesis using r t(1,2) by auto
  qed
qed

text \<open>
  Closing does not wait for the channel to drain: once the goroutine has taken the stop signal, the
  records that are still queued are never written.
\<close>

lemma closing_drops_queued:
  assumes "\<not> fw_running w" "flw_run os tz evs w f = Inr (w', g)"
  shows "fw_rec w' = fw_rec w \<and> fs_files g = fs_files f \<and> \<not> fw_running w'"
  using assms
proof (induction evs arbitrary: w f)
  case (Cons ev evs)
  then show ?case using Cons.IH [of "flw_Close w" f] Cons.IH [of w f] by (cases ev) (auto simp: flw_step_def flw_Close_def)
qed simp

lemma close_then_stop_loses_records:
  "case calm_run True [EvClose, EvStop, EvRec, EvRec] of
     Inl p \<Rightarrow> False | Inr (w, f) \<Rightarrow> fw_rec w = calm_records \<and> fs_files f ''a.log'' = Some []"
  by code_simp

text \<open>Without \<open>rotate\<close> the file is opened for appending: nothing is overwritten and no limit holds.\<close>

lemma no_rotate_appends:
  "case calm_run False [EvRec, EvRec] of
     Inl p \<Rightarrow> False
   | Inr (w, f) \<Rightarrow> fs_files f ''a.log'' = Some (''oldx'' @ CHR 0x0A # ''y'' @ [CHR 0x0A])"
  by code_simp

text \<open>
  A writer that is created takes the open hour for 0, so a file that was written in the same hour is moved
  under the name of the hour before.
\<close>

lemma restart_misdates:
  "case NewFileLogWriter calm 0 ''a.log'' True False True calm_fs of
     Inl p \<Rightarrow> False | Inr (w, f) \<Rightarrow> fs_moved f = [''a.log.1970010101''] \<and> fmt_hour 0 7200000000000 = ''1970010102''"
  by code_simp

text \<open>A bare name in the root directory cannot be opened, and the writer's settings then dereference \<open>nil\<close>.\<close>

lemma root_directory_fails:
  "case NewXMLLogWriter calm 0 ''/a.log'' True (calm_fs\<lparr>fs_dirs := (\<lambda>d. d = ''/'')\<rparr>) of Inl p \<Rightarrow> p = NilDeref | Inr x \<Rightarrow> False"
  by code_simp

end
