(* ===== verification/Dlog.thy ===== *)
theory Dlog
  imports DlogFile Gl
begin

text \<open>
  The logger (\<open>dlog/log4go.go\<close>), its console, socket and format writers (\<open>termlog.go\<close>, \<open>socklog.go\<close>,
  \<open>pattlog.go\<close>) and the package-level functions (\<open>wrapper.go\<close>) that add the client address and log id of
  the goroutine to a record.

  A logger is a map of filters, walked in an order of the run-time; a filter has a level and a writer, and
  writers are shared objects, so they live on a heap.  A call can return, panic, block forever or end
  the process.  What the operating system does while a call waits for a full channel is a parameter.
\<close>

section \<open>Outcomes and channels\<close>

datatype 'a outcome = Ret 'a | Panics go_panic | Blocks | Exits int

primrec obind :: "'a outcome \<Rightarrow> ('a \<Rightarrow> 'b outcome) \<Rightarrow> 'b outcome" where
  "obind (Ret x) k = k x"
| "obind (Panics p) k = Panics p"
| "obind Blocks k = Blocks"
| "obind (Exits n) k = Exits n"

primrec of_go :: "'a go \<Rightarrow> 'a outcome" where
  "of_go (Inl p) = Panics p"
| "of_go (Inr x) = Ret x"

text \<open>A channel of records with room for \<open>LogBufferLength\<close> of them; \<open>None\<close> when there is no room.\<close>

record rchan =
  rc_q :: "LogRecord list"
  rc_closed :: bool

definition rc_new :: rchan where "rc_new = \<lparr>rc_q = [], rc_closed = False\<rparr>"

definition rc_send :: "LogRecord \<Rightarrow> rchan \<Rightarrow> rchan option go" where
  "rc_send r c =
     (if rc_closed c then Inl SendOnClosedChannel
      else if length (rc_q c) < LogBufferLength then Inr (Some (c\<lparr>rc_q := rc_q c @ [r]\<rparr>))
      else Inr None)"

definition rc_close :: "rchan \<Rightarrow> rchan go" where
  "rc_close c = (if rc_closed c then Inl CloseOfClosedChannel else Inr (c\<lparr>rc_closed := True\<rparr>))"

section \<open>Writers\<close>

text \<open>The console writer; \<open>cw_out\<close> are the lines printed so far.\<close>

record ConsoleLogWriter =
  cw_once :: bool
  cw_format :: string
  cw_w :: rchan
  cw_cache :: formatCacheType
  cw_out :: "string list"

definition NewConsoleLogWriter :: ConsoleLogWriter where
  "NewConsoleLogWriter =
     \<lparr>cw_once = False, cw_format = ''%L'' @ CHR 0x09 # ''%D %T'' @ CHR 0x09 # ''%M'' @ CHR 0x09 # ''%S'', cw_w = rc_new,
      cw_cache = empty_cache, cw_out = []\<rparr>"

definition cw_SetFormat :: "string \<Rightarrow> ConsoleLogWriter \<Rightarrow> ConsoleLogWriter" where
  "cw_SetFormat format c = c\<lparr>cw_format := format\<rparr>"

text \<open>One turn of \<open>run\<close>; at an empty channel it waits.\<close>

definition cw_take :: "int \<Rightarrow> ConsoleLogWriter \<Rightarrow> ConsoleLogWriter go" where
  "cw_take tz c =
     (case rc_q (cw_w c) of
        [] \<Rightarrow> Inr c
      | r # q \<Rightarrow>
          go_bind (FormatLogRecord tz (cw_cache c) (cw_format c) (Some r)) (\<lambda>(s, cache).
            Inr (c\<lparr>cw_w := (cw_w c)\<lparr>rc_q := q\<rparr>, cw_cache := cache, cw_out := cw_out c @ [s]\<rparr>)))"

fun cw_run :: "int \<Rightarrow> nat \<Rightarrow> ConsoleLogWriter \<Rightarrow> ConsoleLogWriter go" where
  "cw_run tz 0 c = Inr c"
| "cw_run tz (Suc n) c = go_bind (cw_take tz c) (cw_run tz n)"

text \<open>\<open>late\<close> is the number of records printed in the two milliseconds a full channel is waited for.\<close>

definition cw_LogWrite :: "int \<Rightarrow> nat \<Rightarrow> LogRecord \<Rightarrow> ConsoleLogWriter \<Rightarrow> (ConsoleLogWriter \<times> string list) go" where
  "cw_LogWrite tz late r c =
     go_bind (rc_send r (cw_w c)) (\<lambda>sent.
       case sent of
         Some w \<Rightarrow> Inr (c\<lparr>cw_w := w\<rparr>, [])
       | None \<Rightarrow>
           go_bind (cw_run tz late c) (\<lambda>c.
           go_bind (rc_send r (cw_w c)) (\<lambda>sent.
             Inr (case sent of
                    Some w \<Rightarrow> (c\<lparr>cw_w := w\<rparr>, [])
                  | None \<Rightarrow> (c, [''fatal term log channel blocked!'' @ lr_Message r])))))"

definition cw_Close :: "ConsoleLogWriter \<Rightarrow> ConsoleLogWriter go" where
  "cw_Close c =
     (if cw_once c then Inr c
      else go_bind (rc_close (cw_w c)) (\<lambda>w. Inr (c\<lparr>cw_once := True, cw_w := w\<rparr>)))"

text \<open>The format writer: a send waits as long as it takes.\<close>

record FormatLogWriter =
  fl_logRecord :: rchan
  fl_cache :: formatCacheType
  fl_format :: string
  fl_out :: "string list"

definition NewFormatLogWriter :: "string \<Rightarrow> FormatLogWriter" where
  "NewFormatLogWriter format = \<lparr>fl_logRecord = rc_new, fl_cache = empty_cache, fl_format = format, fl_out = []\<rparr>"

definition fl_take :: "int \<Rightarrow> FormatLogWriter \<Rightarrow> FormatLogWriter go" where
  "fl_take tz c =
     (case rc_q (fl_logRecord c) of
        [] \<Rightarrow> Inr c
      | r # q \<Rightarrow>
          go_bind (FormatLogRecord tz (fl_cache c) (fl_format c) (Some r)) (\<lambda>(s, cache).
            Inr (c\<lparr>fl_logRecord := (fl_logRecord c)\<lparr>rc_q := q\<rparr>, fl_cache := cache, fl_out := fl_out c @ [s]\<rparr>)))"

fun fl_run :: "int \<Rightarrow> nat \<Rightarrow> FormatLogWriter \<Rightarrow> FormatLogWriter go" where
  "fl_run tz 0 c = Inr c"
| "fl_run tz (Suc n) c = go_bind (fl_take tz c) (fl_run tz n)"

definition fl_LogWrite :: "int \<Rightarrow> nat \<Rightarrow> LogRecord \<Rightarrow> FormatLogWriter \<Rightarrow> FormatLogWriter outcome" where
  "fl_LogWrite tz late r c =
     obind (of_go (rc_send r (fl_logRecord c))) (\<lambda>sent.
       case sent of
         Some w \<Rightarrow> Ret (c\<lparr>fl_logRecord := w\<rparr>)
       | None \<Rightarrow>
           obind (of_go (fl_run tz late c)) (\<lambda>c.
           obind (of_go (rc_send r (fl_logRecord c))) (\<lambda>sent.
             case sent of Some w \<Rightarrow> Ret (c\<lparr>fl_logRecord := w\<rparr>) | None \<Rightarrow> Blocks)))"

definition fl_Close :: "FormatLogWriter \<Rightarrow> FormatLogWriter go" where
  "fl_Close c = go_bind (rc_close (fl_logRecord c)) (\<lambda>w. Inr (c\<lparr>fl_logRecord := w\<rparr>))"

text \<open>
  The socket writer is a channel, \<open>nil\<close> when the dial failed.  Its goroutine marshals a record (\<open>js\<close>) and
  writes it (\<open>ok\<close>), and returns at the first failure of either.
\<close>

record SocketLogWriter =
  sw_chan :: "rchan option"
  sw_running :: bool
  sw_sent :: "string list"

definition NewSocketLogWriter :: "bool \<Rightarrow> SocketLogWriter" where
  "NewSocketLogWriter dialled = \<lparr>sw_chan = (if dialled then Some rc_new else None), sw_running = dialled, sw_sent = []\<rparr>"

definition sw_take :: "(LogRecord \<Rightarrow> string option) \<Rightarrow> bool \<Rightarrow> SocketLogWriter \<Rightarrow> SocketLogWriter" where
  "sw_take js ok c =
     (case sw_chan c of
        None \<Rightarrow> c
      | Some ch \<Rightarrow>
          if \<not> sw_running c then c
          else (case rc_q ch of
                  [] \<Rightarrow> if rc_closed ch then c\<lparr>sw_running := False\<rparr> else c
                | r # q \<Rightarrow>
                    (case js r of
                       None \<Rightarrow> c\<lparr>sw_chan := Some (ch\<lparr>rc_q := q\<rparr>), sw_running := False\<rparr>
                     | Some s \<Rightarrow>
                         if ok then c\<lparr>sw_chan := Some (ch\<lparr>rc_q := q\<rparr>), sw_sent := sw_sent c @ [s]\<rparr>
                         else c\<lparr>sw_chan := Some (ch\<lparr>rc_q := q\<rparr>), sw_running := False\<rparr>)))"

definition sw_LogWrite :: "(LogRecord \<Rightarrow> string option) \<Rightarrow> bool list \<Rightarrow> LogRecord \<Rightarrow> SocketLogWriter \<Rightarrow> SocketLogWriter outcome" where
  "sw_LogWrite js late r c =
     (case sw_chan c of
        None \<Rightarrow> Blocks
      | Some ch \<Rightarrow>
          obind (of_go (rc_send r ch)) (\<lambda>sent.
            case sent of
              Some ch \<Rightarrow> Ret (c\<lparr>sw_chan := Some ch\<rparr>)
            | None \<Rightarrow>
                (let c = foldl (\<lambda>c ok. sw_take js ok c) c late
                 in case sw_chan c of
                      None \<Rightarrow> Blocks
                    | Some ch \<Rightarrow>
                        obind (of_go (rc_send r ch)) (\<lambda>sent.
                          case sent of Some ch \<Rightarrow> Ret (c\<lparr>sw_chan := Some ch\<rparr>) | None \<Rightarrow> Blocks))))"

definition sw_Close :: "SocketLogWriter \<Rightarrow> SocketLogWriter go" where
  "sw_Close c =
     (case sw_chan c of
        None \<Rightarrow> Inl CloseOfNilChannel
      | Some ch \<Rightarrow> go_bind (rc_close ch) (\<lambda>ch. Inr (c\<lparr>sw_chan := Some ch\<rparr>)))"

datatype LogWriter =
    WFile FileLogWriter | WConsole ConsoleLogWriter | WFormat FormatLogWriter | WSocket SocketLogWriter

section \<open>The logger\<close>

record Filter =
  fi_Level :: Level
  fi_writer :: nat

type_synonym Logger = "(string \<times> Filter) list"

record dstate =
  ds_Global :: Logger
  ds_heap :: "nat \<Rightarrow> LogWriter"
  ds_next :: nat
  ds_fs :: fs
  ds_closures :: "string list"

text \<open>
  The run-time around a call: the orders in which the two loops of a call walk the map, \<open>fmt\<close>, the
  system, and what goroutines do while the call waits.
\<close>

record 'a runtime =
  rt_scan :: "Logger \<Rightarrow> Logger"
  rt_order :: "Logger \<Rightarrow> Logger"
  rt_sprintf :: "string \<Rightarrow> 'a list \<Rightarrow> string"
  rt_sprint :: "'a \<Rightarrow> string"
  rt_str :: "string \<Rightarrow> 'a"
  rt_os :: osenv
  rt_tz :: int
  rt_pick :: bool
  rt_late :: "fw_event list"
  rt_printed :: nat
  rt_js :: "LogRecord \<Rightarrow> string option"
  rt_socks :: "bool list"

definition LogWrite :: "'a runtime \<Rightarrow> LogRecord \<Rightarrow> nat \<Rightarrow> dstate \<Rightarrow> dstate outcome" where
  "LogWrite R r a st =
     (case ds_heap st a of
        WFile w \<Rightarrow>
          obind (of_go (flw_LogWrite (rt_os R) (rt_tz R) (rt_pick R) (rt_late R) r w (ds_fs st))) (\<lambda>(w, f).
            Ret (st\<lparr>ds_heap := (ds_heap st)(a := WFile w), ds_fs := f\<rparr>))
      | WConsole c \<Rightarrow>
          obind (of_go (cw_LogWrite (rt_tz R) (rt_printed R) r c)) (\<lambda>(c, err).
            Ret (st\<lparr>ds_heap := (ds_heap st)(a := WConsole c),
                    ds_fs := (ds_fs st)\<lparr>fs_stderr := fs_stderr (ds_fs st) @ err\<rparr>\<rparr>))
      | WFormat c \<Rightarrow>
          obind (fl_LogWrite (rt_tz R) (rt_printed R) r c) (\<lambda>c. Ret (st\<lparr>ds_heap := (ds_heap st)(a := WFormat c)\<rparr>))
      | WSocket c \<Rightarrow>
          obind (sw_LogWrite (rt_js R) (rt_socks R) r c) (\<lambda>c. Ret (st\<lparr>ds_heap := (ds_heap st)(a := WSocket c)\<rparr>)))"

definition writer_Close :: "LogWriter \<Rightarrow> LogWriter go" where
  "writer_Close w =
     (case w of
        WFile w \<Rightarrow> Inr (WFile (flw_Close w))
      | WConsole c \<Rightarrow> go_bind (cw_Close c) (\<lambda>c. Inr (WConsole c))
      | WFormat c \<Rightarrow> go_bind (fl_Close c) (\<lambda>c. Inr (WFormat c))
      | WSocket c \<Rightarrow> go_bind (sw_Close c) (\<lambda>c. Inr (WSocket c)))"

definition new_writer :: "LogWriter \<Rightarrow> dstate \<Rightarrow> nat \<times> dstate" where
  "new_writer w st = (ds_next st, st\<lparr>ds_heap := (ds_heap st)(ds_next st := w), ds_next := ds_next st + 1\<rparr>)"

definition NewDefaultLogger :: "Level \<Rightarrow> dstate \<Rightarrow> Logger \<times> dstate" where
  "NewDefaultLogger lvl st =
     (case new_writer (WConsole NewConsoleLogWriter) st of (a, st) \<Rightarrow> ([(''stdout'', \<lparr>fi_Level = lvl, fi_writer = a\<rparr>)], st))"

definition stderr_line :: "string \<Rightarrow> dstate \<Rightarrow> dstate" where
  "stderr_line s st = st\<lparr>ds_fs := (ds_fs st)\<lparr>fs_stderr := fs_stderr (ds_fs st) @ [s]\<rparr>\<rparr>"

definition NewLogger :: "dstate \<Rightarrow> Logger \<times> dstate" where
  "NewLogger st = ([], stderr_line ''warning: use of deprecated NewLogger'' st)"

definition NewConsoleLogger :: "Level \<Rightarrow> dstate \<Rightarrow> Logger \<times> dstate" where
  "NewConsoleLogger lvl st = NewDefaultLogger lvl (stderr_line ''warning: use of deprecated NewConsoleLogger'' st)"

fun close_all :: "Logger \<Rightarrow> dstate \<Rightarrow> dstate outcome" where
  "close_all [] st = Ret st"
| "close_all ((name, filt) # fs) st =
     obind (of_go (writer_Close (ds_heap st (fi_writer filt)))) (\<lambda>w.
       close_all fs (st\<lparr>ds_heap := (ds_heap st)(fi_writer filt := w)\<rparr>))"

definition Logger_Close :: "'a runtime \<Rightarrow> Logger \<Rightarrow> dstate \<Rightarrow> dstate outcome" where
  "Logger_Close R log st = close_all (rt_order R log) st"

definition Logger_AddFilter :: "string \<Rightarrow> Level \<Rightarrow> nat \<Rightarrow> Logger \<Rightarrow> Logger" where
  "Logger_AddFilter name lvl writer log = al_set name \<lparr>fi_Level = lvl, fi_writer = writer\<rparr> log"

section \<open>Logging\<close>

fun enabled_loop :: "Level \<Rightarrow> Logger \<Rightarrow> bool" where
  "enabled_loop lvl [] = False"
| "enabled_loop lvl ((name, filt) # fs) = (if lvl \<ge> fi_Level filt then True else enabled_loop lvl fs)"

definition Logger_IsEnabledFor :: "'a runtime \<Rightarrow> Level \<Rightarrow> Logger \<Rightarrow> bool" where
  "Logger_IsEnabledFor R lvl log = enabled_loop lvl (rt_scan R log)"

text \<open>The second loop of every logging function: the record goes to each filter at or below its level.\<close>

fun dispatch :: "'a runtime \<Rightarrow> Level \<Rightarrow> LogRecord \<Rightarrow> Logger \<Rightarrow> dstate \<Rightarrow> dstate outcome" where
  "dispatch R lvl r [] st = Ret st"
| "dispatch R lvl r ((name, filt) # fs) st =
     (if lvl < fi_Level filt then dispatch R lvl r fs st
      else obind (LogWrite R r (fi_writer filt) st) (dispatch R lvl r fs))"

text \<open>
  \<open>runtime.Caller(3)\<close> of a logging function: \<open>stk\<close> are the call sites above it, its own caller first.
\<close>

definition caller_src :: "string list \<Rightarrow> string" where
  "caller_src stk = (if 2 < length stk then stk ! 2 else [])"

definition st_Now :: "'a runtime \<Rightarrow> dstate \<Rightarrow> int \<times> dstate" where
  "st_Now R st = (case os_Now (rt_os R) (ds_fs st) of (t, f) \<Rightarrow> (t, st\<lparr>ds_fs := f\<rparr>))"

definition fmt_msg :: "'a runtime \<Rightarrow> string \<Rightarrow> 'a list \<Rightarrow> string" where
  "fmt_msg R format args = (if length args > 0 then rt_sprintf R format args else format)"

definition run_closure :: "string \<Rightarrow> dstate \<Rightarrow> string \<times> dstate" where
  "run_closure c st = (c, st\<lparr>ds_closures := ds_closures st @ [c]\<rparr>)"

definition intLogf :: "'a runtime \<Rightarrow> string list \<Rightarrow> Level \<Rightarrow> string \<Rightarrow> 'a list \<Rightarrow> Logger \<Rightarrow> dstate \<Rightarrow> dstate outcome" where
  "intLogf R stk lvl format args log st =
     (if \<not> enabled_loop lvl (rt_scan R log) then Ret st
      else (case st_Now R st of (now, st) \<Rightarrow>
              dispatch R lvl
                \<lparr>lr_Level = lvl, lr_Created = now, lr_Source = caller_src stk, lr_Message = fmt_msg R format args,
                 lr_Tag = [], lr_Ip = [], lr_LogId = [], lr_Url = []\<rparr> (rt_order R log) st))"

definition intLogfTag ::
  "'a runtime \<Rightarrow> string list \<Rightarrow> string \<Rightarrow> string \<Rightarrow> string \<Rightarrow> Level \<Rightarrow> string \<Rightarrow> 'a list \<Rightarrow> Logger \<Rightarrow> dstate \<Rightarrow> dstate outcome" where
  "intLogfTag R stk tag clientIp logId lvl format args log st =
     (if \<not> enabled_loop lvl (rt_scan R log) then Ret st
      else (case st_Now R st of (now, st) \<Rightarrow>
              dispatch R lvl
                \<lparr>lr_Level = lvl, lr_Created = now, lr_Source = caller_src stk, lr_Message = fmt_msg R format args,
                 lr_Tag = tag, lr_Ip = clientIp, lr_LogId = logId, lr_Url = []\<rparr> (rt_order R log) st))"

definition IntLogfTagUrl ::
  "'a runtime \<Rightarrow> string list \<Rightarrow> string \<Rightarrow> string \<Rightarrow> string \<Rightarrow> string \<Rightarrow> Level \<Rightarrow> string \<Rightarrow> 'a list \<Rightarrow> Logger \<Rightarrow> dstate \<Rightarrow> dstate outcome" where
  "IntLogfTagUrl R stk tag clientIp logId url lvl format args log st =
     (if \<not> enabled_loop lvl (rt_scan R log) then Ret st
      else (case st_Now R st of (now, st) \<Rightarrow>
              dispatch R lvl
                \<lparr>lr_Level = lvl, lr_Created = now, lr_Source = caller_src stk, lr_Message = fmt_msg R format args,
                 lr_Tag = tag, lr_Ip = clientIp, lr_LogId = logId, lr_Url = url\<rparr> (rt_order R log) st))"

definition intLogc :: "'a runtime \<Rightarrow> string list \<Rightarrow> Level \<Rightarrow> string \<Rightarrow> Logger \<Rightarrow> dstate \<Rightarrow> dstate outcome" where
  "intLogc R stk lvl closure log st =
     (if \<not> enabled_loop lvl (rt_scan R log) then Ret st
      else (case st_Now R st of (now, st) \<Rightarrow> case run_closure closure st of (msg, st) \<Rightarrow>
              dispatch R lvl
                \<lparr>lr_Level = lvl, lr_Created = now, lr_Source = caller_src stk, lr_Message = msg,
                 lr_Tag = [], lr_Ip = [], lr_LogId = [], lr_Url = []\<rparr> (rt_order R log) st))"

definition intLogcTag ::
  "'a runtime \<Rightarrow> string list \<Rightarrow> string \<Rightarrow> string \<Rightarrow> string \<Rightarrow> Level \<Rightarrow> string \<Rightarrow> Logger \<Rightarrow> dstate \<Rightarrow> dstate outcome" where
  "intLogcTag R stk tag clientIp logId lvl closure log st =
     (if \<not> enabled_loop lvl (rt_scan R log) then Ret st
      else (case st_Now R st of (now, st) \<Rightarrow> case run_closure closure st of (msg, st) \<Rightarrow>
              dispatch R lvl
                \<lparr>lr_Level = lvl, lr_Created = now, lr_Source = caller_src stk, lr_Message = msg,
                 lr_Tag = tag, lr_Ip = clientIp, lr_LogId = logId, lr_Url = []\<rparr> (rt_order R log) st))"

definition Logger_Log :: "'a runtime \<Rightarrow> Level \<Rightarrow> string \<Rightarrow> string \<Rightarrow> Logger \<Rightarrow> dstate \<Rightarrow> dstate outcome" where
  "Logger_Log R lvl source message log st =
     (if \<not> enabled_loop lvl (rt_scan R log) then Ret st
      else (case st_Now R st of (now, st) \<Rightarrow>
              dispatch R lvl
                \<lparr>lr_Level = lvl, lr_Created = now, lr_Source = source, lr_Message = message,
                 lr_Tag = [], lr_Ip = [], lr_LogId = [], lr_Url = []\<rparr> (rt_order R log) st))"

definition LogWithTag :: "'a runtime \<Rightarrow> string \<Rightarrow> Level \<Rightarrow> string \<Rightarrow> string \<Rightarrow> Logger \<Rightarrow> dstate \<Rightarrow> dstate outcome" where
  "LogWithTag R tag lvl source message log st =
     (if \<not> enabled_loop lvl (rt_scan R log) then Ret st
      else (case st_Now R st of (now, st) \<Rightarrow>
              dispatch R lvl
                \<lparr>lr_Level = lvl, lr_Created = now, lr_Source = source, lr_Message = message,
                 lr_Tag = tag, lr_Ip = [], lr_LogId = [], lr_Url = []\<rparr> (rt_order R log) st))"

definition Logger_Logf :: "'a runtime \<Rightarrow> string list \<Rightarrow> Level \<Rightarrow> string \<Rightarrow> 'a list \<Rightarrow> Logger \<Rightarrow> dstate \<Rightarrow> dstate outcome" where
  "Logger_Logf R stk lvl format args log st = intLogf R (''Logger.Logf'' # stk) lvl format args log st"

definition Logger_Logc :: "'a runtime \<Rightarrow> string list \<Rightarrow> Level \<Rightarrow> string \<Rightarrow> Logger \<Rightarrow> dstate \<Rightarrow> dstate outcome" where
  "Logger_Logc R stk lvl closure log st = intLogc R (''Logger.Logc'' # stk) lvl closure log st"

text \<open>The first argument of the utilities: a format, a closure (by the string it returns) or another value.\<close>

datatype 'a arg0 = ArgString string | ArgFunc string | ArgValue 'a

definition repeat_v :: "nat \<Rightarrow> string" where
  "repeat_v n = concat (replicate n '' %v'')"

definition log_at :: "string \<Rightarrow> Level \<Rightarrow> 'a runtime \<Rightarrow> string list \<Rightarrow> 'a arg0 \<Rightarrow> 'a list \<Rightarrow> Logger \<Rightarrow> dstate \<Rightarrow> dstate outcome" where
  "log_at site lvl R stk arg0 args log st =
     (case arg0 of
        ArgString first \<Rightarrow> intLogf R (site # stk) lvl first args log st
      | ArgFunc first \<Rightarrow> intLogc R (site # stk) lvl first log st
      | ArgValue v \<Rightarrow> intLogf R (site # stk) lvl (rt_sprint R v @ repeat_v (length args)) args log st)"

definition if_enabled :: "Level \<Rightarrow> 'a runtime \<Rightarrow> Logger \<Rightarrow> (dstate \<Rightarrow> dstate outcome) \<Rightarrow> dstate \<Rightarrow> dstate outcome" where
  "if_enabled lvl R log k st = (if \<not> Logger_IsEnabledFor R lvl log then Ret st else k st)"

definition Logger_Finest where
  "Logger_Finest R stk arg0 args log = if_enabled FINEST R log (log_at ''Logger.Finest'' FINEST R stk arg0 args log)"

definition Logger_Fine where
  "Logger_Fine R stk arg0 args log = if_enabled FINE R log (log_at ''Logger.Fine'' FINE R stk arg0 args log)"

definition Logger_Debug where
  "Logger_Debug R stk arg0 args log = if_enabled DEBUG R log (log_at ''Logger.Debug'' DEBUG R stk arg0 args log)"

definition Logger_Trace where
  "Logger_Trace R stk arg0 args log = if_enabled TRACE R log (log_at ''Logger.Trace'' TRACE R stk arg0 args log)"

definition Logger_Info where
  "Logger_Info R stk arg0 args log = if_enabled INFO R log (log_at ''Logger.Info'' INFO R stk arg0 args log)"

text \<open>From the warning level on the message is built first, and returned as an error.\<close>

definition built_msg :: "'a runtime \<Rightarrow> 'a arg0 \<Rightarrow> 'a list \<Rightarrow> dstate \<Rightarrow> string \<times> dstate" where
  "built_msg R arg0 args st =
     (case arg0 of
        ArgString first \<Rightarrow> (rt_sprintf R first args, st)
      | ArgFunc first \<Rightarrow> run_closure first st
      | ArgValue v \<Rightarrow> (rt_sprintf R (rt_sprint R v @ repeat_v (length args)) args, st))"

definition error_at :: "string \<Rightarrow> Level \<Rightarrow> 'a runtime \<Rightarrow> string list \<Rightarrow> 'a arg0 \<Rightarrow> 'a list \<Rightarrow> Logger \<Rightarrow> dstate \<Rightarrow> (string \<times> dstate) outcome" where
  "error_at site lvl R stk arg0 args log st =
     (case built_msg R arg0 args st of (msg, st) \<Rightarrow>
        obind (intLogf R (site # stk) lvl msg [] log st) (\<lambda>st. Ret (msg, st)))"

definition Logger_Warn where
  "Logger_Warn R stk arg0 args log = error_at ''Logger.Warn'' WARNING R stk arg0 args log"

definition Logger_Error where
  "Logger_Error R stk arg0 args log = error_at ''Logger.Error'' ERROR R stk arg0 args log"

definition Logger_Critical where
  "Logger_Critical R stk arg0 args log = error_at ''Logger.Critical'' CRITICAL R stk arg0 args log"

section \<open>What a writer promises\<close>

primrec write_list :: "(LogRecord \<Rightarrow> 's \<Rightarrow> 's outcome) \<Rightarrow> LogRecord list \<Rightarrow> 's \<Rightarrow> 's outcome" where
  "write_list push [] s = Ret s"
| "write_list push (r # rs) s = obind (push r s) (write_list push rs)"

text \<open>
  The interface \<open>LogWriter\<close>: a writer that accepts records and has room in its channel takes a record at once,
  behind those it has, and goes on accepting.
\<close>

locale log_sink =
  fixes push :: "LogRecord \<Rightarrow> 's \<Rightarrow> 's outcome"
    and queue :: "'s \<Rightarrow> LogRecord list"
    and accepts :: "'s \<Rightarrow> bool"
  assumes write_accepts: "accepts s \<Longrightarrow> length (queue s) < LogBufferLength \<Longrightarrow>
    \<exists>s'. push r s = Ret s' \<and> queue s' = queue s @ [r] \<and> accepts s'"
begin

lemma write_list_queues:
  "accepts s \<Longrightarrow> length (queue s) + length rs \<le> LogBufferLength \<Longrightarrow>
   \<exists>s'. write_list push rs s = Ret s' \<and> queue s' = queue s @ rs \<and> accepts s'"
proof (induction rs arbitrary: s)
  case (Cons r rs)
  from write_accepts [of s r] Cons.prems obtain s1 where
    s1: "push r s = Ret s1" "queue s1 = queue s @ [r]" "accepts s1" by auto
  from Cons.IH [of s1] s1 Cons.prems obtain s2 where
    "write_list push rs s1 = Ret s2" "queue s2 = queue s1 @ rs" "accepts s2" by auto
  then show ?case using s1 by simp
qed simp

end

lemma rc_send_room: "\<not> rc_closed c \<Longrightarrow> length (rc_q c) < LogBufferLength \<Longrightarrow> rc_send r c = Inr (Some (c\<lparr>rc_q := rc_q c @ [r]\<rparr>))"
  by (simp add: rc_send_def)

interpretation file_sink: log_sink "\<lambda>r (w, f). of_go (flw_LogWrite os tz pick late r w f)" "\<lambda>(w, f). fw_rec w" "\<lambda>(w, f). \<not> fw_stop w"
  for os tz pick late
  by unfold_locales (auto simp: flw_LogWrite_def flw_send_def)

interpretation console_sink: log_sink "\<lambda>r (c, e). obind (of_go (cw_LogWrite tz late r c)) (\<lambda>(c, e'). Ret (c, e @ e'))"
  "\<lambda>(c, e). rc_q (cw_w c)" "\<lambda>(c, e). \<not> rc_closed (cw_w c)"
  for tz late
  by unfold_locales (auto simp: cw_LogWrite_def rc_send_room)

interpretation format_sink: log_sink "fl_LogWrite tz late" "\<lambda>c. rc_q (fl_logRecord c)" "\<lambda>c. \<not> rc_closed (fl_logRecord c)"
  for tz late
  by unfold_locales (auto simp: fl_LogWrite_def rc_send_room)

interpretation socket_sink: log_sink "sw_LogWrite js late" "\<lambda>c. case sw_chan c of None \<Rightarrow> [] | Some ch \<Rightarrow> rc_q ch"
  "\<lambda>c. \<exists>ch. sw_chan c = Some ch \<and> \<not> rc_closed ch"
  for js late
  by unfold_locales (auto simp: sw_LogWrite_def rc_send_room)

primrec w_queue :: "LogWriter \<Rightarrow> LogRecord list" where
  "w_queue (WFile w) = fw_rec w"
| "w_queue (WConsole c) = rc_q (cw_w c)"
| "w_queue (WFormat c) = rc_q (fl_logRecord c)"
| "w_queue (WSocket c) = (case sw_chan c of None \<Rightarrow> [] | Some ch \<Rightarrow> rc_q ch)"

primrec w_accepts :: "LogWriter \<Rightarrow> bool" where
  "w_accepts (WFile w) = (\<not> fw_stop w)"
| "w_accepts (WConsole c) = (\<not> rc_closed (cw_w c))"
| "w_accepts (WFormat c) = (\<not> rc_closed (fl_logRecord c))"
| "w_accepts (WSocket c) = (\<exists>ch. sw_chan c = Some ch \<and> \<not> rc_closed ch)"

text \<open>What a call leaves alone.\<close>

definition same_logger :: "dstate \<Rightarrow> dstate \<Rightarrow> bool" where
  "same_logger st st' = (ds_Global st' = ds_Global st \<and> ds_next st' = ds_next st \<and> ds_closures st' = ds_closures st)"

lemma LogWrite_queues:
  assumes "w_accepts (ds_heap st a)" "length (w_queue (ds_heap st a)) < LogBufferLength"
  shows "\<exists>st'. LogWrite R r a st = Ret st' \<and> (\<forall>b. b \<noteq> a \<longrightarrow> ds_heap st' b = ds_heap st b)
           \<and> w_accepts (ds_heap st' a) \<and> w_queue (ds_heap st' a) = w_queue (ds_heap st a) @ [r] \<and> same_logger st st'"
proof (cases "ds_heap st a")
  case (WFile w)
  obtain w' f' where "of_go (flw_LogWrite (rt_os R) (rt_tz R) (rt_pick R) (rt_late R) r w (ds_fs st)) = Ret (w', f')"
    "fw_rec w' = fw_rec w @ [r]" "\<not> fw_stop w'"
    using file_sink.write_accepts [of "(w, ds_fs st)" "rt_os R" "rt_tz R" "rt_pick R" "rt_late R" r] assms WFile by auto
  then show ?thesis using WFile by (simp add: LogWrite_def same_logger_def)
next
  case (WConsole c)
  then have "rc_send r (cw_w c) = Inr (Some ((cw_w c)\<lparr>rc_q := rc_q (cw_w c) @ [r]\<rparr>))" using assms rc_send_room by simp
  then show ?thesis using WConsole assms by (simp add: LogWrite_def cw_LogWrite_def same_logger_def)
next
  case (WFormat c)
  obtain c' where "fl_LogWrite (rt_tz R) (rt_printed R) r c = Ret c'" "rc_q (fl_logRecord c') = rc_q (fl_logRecord c) @ [r]"
    "\<not> rc_closed (fl_logRecord c')"
    using format_sink.write_accepts [of c "rt_tz R" "rt_printed R" r] assms WFormat by auto
  then show ?thesis using WFormat by (simp add: LogWrite_def same_logger_def)
next
  case (WSocket c)
  obtain c' where "sw_LogWrite (rt_js R) (rt_socks R) r c = Ret c'" "w_queue (WSocket c') = w_queue (WSocket c) @ [r]"
    "w_accepts (WSocket c')"
    using socket_sink.write_accepts [of c "rt_js R" "rt_socks R" r] assms WSocket by auto
  then show ?thesis using WSocket by (simp add: LogWrite_def same_logger_def del: w_queue.simps w_accepts.simps)
qed

section \<open>Dispatching a record\<close>

text \<open>The filters of a writer that let a level pass.\<close>

definition passing :: "Level \<Rightarrow> nat \<Rightarrow> Logger \<Rightarrow> nat" where
  "passing lvl a log = length (filter (\<lambda>(name, filt). fi_writer filt = a \<and> fi_Level filt \<le> lvl) log)"

lemma passing_Cons: "passing lvl a ((n, filt) # log) = (if fi_writer filt = a \<and> fi_Level filt \<le> lvl then 1 else 0) + passing lvl a log"
  by (simp add: passing_def)

lemma passing_perm: "mset xs = mset ys \<Longrightarrow> passing lvl a xs = passing lvl a ys"
proof -
  assume "mset xs = mset ys"
  then have "mset (filter P xs) = mset (filter P ys)" for P by simp
  then show ?thesis unfolding passing_def by (rule mset_eq_length)
qed

lemma dispatch_queues:
  assumes "\<forall>(n, filt)\<in>set fs. w_accepts (ds_heap st (fi_writer filt))"
    and "\<forall>a. length (w_queue (ds_heap st a)) + length fs \<le> LogBufferLength"
  shows "\<exists>st'. dispatch R lvl r fs st = Ret st' \<and> same_logger st st'
    \<and> (\<forall>a. w_queue (ds_heap st' a) = w_queue (ds_heap st a) @ replicate (passing lvl a fs) r)
    \<and> (\<forall>a. w_accepts (ds_heap st a) \<longrightarrow> w_accepts (ds_heap st' a))"
  using assms
proof (induction fs arbitrary: st)
  case Nil
  then show ?case by (simp add: same_logger_def passing_def)
next
  case (Cons nf fs)
  obtain n filt where nf: "nf = (n, filt)" by fastforce
  show ?case
  proof (cases "lvl < fi_Level filt")
    case True
    have "\<forall>a. length (w_queue (ds_heap st a)) + length fs \<le> LogBufferLength"
      using Cons.prems(2) by (metis add_leE length_Cons add_Suc_right Suc_leD)
    then obtain st' where "dispatch R lvl r fs st = Ret st'" "same_logger st st'"
      "\<forall>a. w_queue (ds_heap st' a) = w_queue (ds_heap st a) @ replicate (passing lvl a fs) r"
      "\<forall>a. w_accepts (ds_heap st a) \<longrightarrow> w_accepts (ds_heap st' a)"
      using Cons.IH [of st] Cons.prems(1) by auto
    then show ?thesis using True nf by (simp add: passing_Cons)
  next
    case False
    let ?b = "fi_writer filt"
    have acc: "w_accepts (ds_heap st ?b)" "length (w_queue (ds_heap st ?b)) < LogBufferLength"
      using Cons.prems nf by (auto dest: spec [of _ ?b])
    from LogWrite_queues [OF acc, of R r] obtain st1 where
      w: "LogWrite R r ?b st = Ret st1" "\<And>c. c \<noteq> ?b \<Longrightarrow> ds_heap st1 c = ds_heap st c" "w_accepts (ds_heap st1 ?b)"
      "w_queue (ds_heap st1 ?b) = w_queue (ds_heap st ?b) @ [r]" "same_logger st st1" by blast
    have p1: "\<forall>(n, filt)\<in>set fs. w_accepts (ds_heap st1 (fi_writer filt))"
    proof (clarify)
      fix m fl
      assume "(m, fl) \<in> set fs"
      then have "w_accepts (ds_heap st (fi_writer fl))" using Cons.prems(1) by auto
      then show "w_accepts (ds_heap st1 (fi_writer fl))" using w(2,3) by (cases "fi_writer fl = ?b") simp_all
    qed
    have p2: "\<forall>a. length (w_queue (ds_heap st1 a)) + length fs \<le> LogBufferLength"
    proof
      fix a
      show "length (w_queue (ds_heap st1 a)) + length fs \<le> LogBufferLength"
        using Cons.prems(2) [rule_format, of a] w(2,4) by (cases "a = ?b") simp_all
    qed
    from Cons.IH [OF p1 p2] obtain st' where
      s: "dispatch R lvl r fs st1 = Ret st'" "same_logger st1 st'"
      "\<forall>a. w_queue (ds_heap st' a) = w_queue (ds_heap st1 a) @ replicate (passing lvl a fs) r"
      "\<forall>a. w_accepts (ds_heap st1 a) \<longrightarrow> w_accepts (ds_heap st' a)" by blast
    have "w_queue (ds_heap st' a) = w_queue (ds_heap st a) @ replicate (passing lvl a ((n, filt) # fs)) r" for a
      using s(3) w(2,4) False by (cases "a = ?b") (simp_all add: passing_Cons)
    moreover have "w_accepts (ds_heap st a) \<longrightarrow> w_accepts (ds_heap st' a)" for a
      using s(4) w(2,3) by (cases "a = ?b") simp_all
    ultimately show ?thesis using nf False w(1,5) s(1,2) by (simp add: same_logger_def)
  qed
qed

lemma enabled_loop_iff: "enabled_loop lvl fs \<longleftrightarrow> (\<exists>(n, filt)\<in>set fs. fi_Level filt \<le> lvl)"
  by (induction lvl fs rule: enabled_loop.induct) auto

lemma not_enabled_passing: "\<not> enabled_loop lvl fs \<Longrightarrow> passing lvl a fs = 0"
  unfolding enabled_loop_iff passing_def by (auto simp: filter_empty_conv)
end
