(* ===== verification/DlogWrapper.thy ===== *)
theory DlogWrapper
  imports Dlog
begin

text \<open>
  The package-level functions of \<open>dlog/wrapper.go\<close> on the \<open>Global\<close> logger, and the functions of the same
  names in \<open>log.go\<close> that applications call.  Each pushes its own call site; the client address and the
  log id of a record are those of the goroutine-local storage of the caller (\<open>wr_goid\<close>, \<open>wr_gl\<close>).

  The property of this theory says, for a message of an application, exactly which writers receive which
  record, whatever the order in which the map is walked.
\<close>

section \<open>The global logger\<close>

record 'a caller =
  wr_R :: "'a runtime"
  wr_goid :: int
  wr_gl :: gl_state

definition dlog_init :: "dstate \<Rightarrow> dstate" where
  "dlog_init st = (case NewDefaultLogger DEBUG st of (log, st) \<Rightarrow> st\<lparr>ds_Global := log\<rparr>)"

definition dlog_AddFilter :: "string \<Rightarrow> Level \<Rightarrow> nat \<Rightarrow> dstate \<Rightarrow> dstate" where
  "dlog_AddFilter name lvl writer st = st\<lparr>ds_Global := Logger_AddFilter name lvl writer (ds_Global st)\<rparr>"

definition dlog_Close :: "'a runtime \<Rightarrow> dstate \<Rightarrow> dstate outcome" where
  "dlog_Close R st = Logger_Close R (ds_Global st) st"

text \<open>\<open>strings.Repeat(" %v", n)[1:]\<close>.\<close>

definition v_format :: "nat \<Rightarrow> string" where
  "v_format n = tl (repeat_v n)"

definition dlog_Crash :: "'a runtime \<Rightarrow> string list \<Rightarrow> 'a list \<Rightarrow> dstate \<Rightarrow> dstate outcome" where
  "dlog_Crash R stk args st =
     (if length args > 0
      then obind (intLogf R (''dlog.Crash'' # stk) CRITICAL (v_format (length args)) args (ds_Global st) st) (\<lambda>st.
             Panics (PanicValue (rt_sprintf R (v_format (length args)) args)))
      else Panics (PanicValue ''[]''))"

definition dlog_IsEnabledFor :: "'a runtime \<Rightarrow> Level \<Rightarrow> dstate \<Rightarrow> bool" where
  "dlog_IsEnabledFor R lvl st = Logger_IsEnabledFor R lvl (ds_Global st)"

definition dlog_Crashf :: "'a runtime \<Rightarrow> string list \<Rightarrow> string \<Rightarrow> 'a list \<Rightarrow> dstate \<Rightarrow> dstate outcome" where
  "dlog_Crashf R stk format args st =
     obind (intLogf R (''dlog.Crashf'' # stk) CRITICAL format args (ds_Global st) st) (\<lambda>st.
     obind (dlog_Close R st) (\<lambda>st. Panics (PanicValue (rt_sprintf R format args))))"

definition dlog_Exit :: "'a runtime \<Rightarrow> string list \<Rightarrow> 'a list \<Rightarrow> dstate \<Rightarrow> dstate outcome" where
  "dlog_Exit R stk args st =
     obind (if length args > 0 then intLogf R (''dlog.Exit'' # stk) ERROR (v_format (length args)) args (ds_Global st) st
            else Ret st) (\<lambda>st.
     obind (dlog_Close R st) (\<lambda>st. Exits 0))"

definition dlog_Exitf :: "'a runtime \<Rightarrow> string list \<Rightarrow> string \<Rightarrow> 'a list \<Rightarrow> dstate \<Rightarrow> dstate outcome" where
  "dlog_Exitf R stk format args st =
     obind (intLogf R (''dlog.Exitf'' # stk) ERROR format args (ds_Global st) st) (\<lambda>st.
     obind (dlog_Close R st) (\<lambda>st. Exits 0))"

definition dlog_Stderr :: "'a runtime \<Rightarrow> string list \<Rightarrow> 'a list \<Rightarrow> dstate \<Rightarrow> dstate outcome" where
  "dlog_Stderr R stk args st =
     (if length args > 0 then intLogf R (''dlog.Stderr'' # stk) ERROR (v_format (length args)) args (ds_Global st) st else Ret st)"

definition dlog_Stderrf :: "'a runtime \<Rightarrow> string list \<Rightarrow> string \<Rightarrow> 'a list \<Rightarrow> dstate \<Rightarrow> dstate outcome" where
  "dlog_Stderrf R stk format args st = intLogf R (''dlog.Stderrf'' # stk) ERROR format args (ds_Global st) st"

definition dlog_Stdout :: "'a runtime \<Rightarrow> string list \<Rightarrow> 'a list \<Rightarrow> dstate \<Rightarrow> dstate outcome" where
  "dlog_Stdout R stk args st =
     (if length args > 0 then intLogf R (''dlog.Stdout'' # stk) INFO (v_format (length args)) args (ds_Global st) st else Ret st)"

definition dlog_Stdoutf :: "'a runtime \<Rightarrow> string list \<Rightarrow> string \<Rightarrow> 'a list \<Rightarrow> dstate \<Rightarrow> dstate outcome" where
  "dlog_Stdoutf R stk format args st = intLogf R (''dlog.Stdoutf'' # stk) INFO format args (ds_Global st) st"

fun level_list :: "Logger \<Rightarrow> string \<Rightarrow> string go" where
  "level_list [] ret = Inr ret"
| "level_list ((tag, filt) # fs) ret =
     go_bind (Level_String (fi_Level filt)) (\<lambda>l. level_list fs (ret @ tag @ '':'' @ l @ '',''))"

definition dlog_GetLevel :: "'a runtime \<Rightarrow> dstate \<Rightarrow> string go" where
  "dlog_GetLevel R st = level_list (rt_order R (ds_Global st)) []"

definition dlog_SetLevel :: "int \<Rightarrow> dstate \<Rightarrow> dstate" where
  "dlog_SetLevel lvl st = st\<lparr>ds_Global := map (\<lambda>(tag, filt). (tag, filt\<lparr>fi_Level := lvl\<rparr>)) (ds_Global st)\<rparr>"

definition dlog_Log :: "'a runtime \<Rightarrow> Level \<Rightarrow> string \<Rightarrow> string \<Rightarrow> dstate \<Rightarrow> dstate outcome" where
  "dlog_Log R lvl source message st = Logger_Log R lvl source message (ds_Global st) st"

definition dlog_Logf :: "'a runtime \<Rightarrow> string list \<Rightarrow> Level \<Rightarrow> string \<Rightarrow> 'a list \<Rightarrow> dstate \<Rightarrow> dstate outcome" where
  "dlog_Logf R stk lvl format args st = intLogf R (''dlog.Logf'' # stk) lvl format args (ds_Global st) st"

definition dlog_Logc :: "'a runtime \<Rightarrow> string list \<Rightarrow> Level \<Rightarrow> string \<Rightarrow> dstate \<Rightarrow> dstate outcome" where
  "dlog_Logc R stk lvl closure st = intLogc R (''dlog.Logc'' # stk) lvl closure (ds_Global st) st"

definition dlog_Finest :: "'a runtime \<Rightarrow> string list \<Rightarrow> 'a arg0 \<Rightarrow> 'a list \<Rightarrow> dstate \<Rightarrow> dstate outcome" where
  "dlog_Finest R stk arg0 args st = log_at ''dlog.Finest'' FINEST R stk arg0 args (ds_Global st) st"

definition dlog_Fine :: "'a runtime \<Rightarrow> string list \<Rightarrow> 'a arg0 \<Rightarrow> 'a list \<Rightarrow> dstate \<Rightarrow> dstate outcome" where
  "dlog_Fine R stk arg0 args st = log_at ''dlog.Fine'' FINE R stk arg0 args (ds_Global st) st"

section \<open>Records of a goroutine\<close>

definition str_or_empty :: "gany option \<Rightarrow> string" where
  "str_or_empty v = (case v of Some (AStr s) \<Rightarrow> s | _ \<Rightarrow> [])"

definition batchGetGl :: "int \<Rightarrow> gl_state \<Rightarrow> (string \<times> string) go" where
  "batchGetGl goid g =
     go_bind (gl_BatchGet goid [AStr ''glClientIp'', AStr ''glLogId''] g) (\<lambda>vs.
       case vs of
         None \<Rightarrow> Inr ([], [])
       | Some vs \<Rightarrow>
           Inr (str_or_empty (map_of vs (AStr ''glClientIp'')), str_or_empty (map_of vs (AStr ''glLogId''))))"

definition tag_at :: "string \<Rightarrow> Level \<Rightarrow> 'a caller \<Rightarrow> string list \<Rightarrow> string \<Rightarrow> 'a arg0 \<Rightarrow> 'a list \<Rightarrow> dstate \<Rightarrow> dstate outcome" where
  "tag_at site lvl W stk tag arg0 args st =
     obind (of_go (batchGetGl (wr_goid W) (wr_gl W))) (\<lambda>(clientIp, logId).
       case arg0 of
         ArgString first \<Rightarrow> intLogfTag (wr_R W) (site # stk) tag clientIp logId lvl first args (ds_Global st) st
       | ArgFunc first \<Rightarrow> intLogcTag (wr_R W) (site # stk) tag clientIp logId lvl first (ds_Global st) st
       | ArgValue v \<Rightarrow>
           intLogfTag (wr_R W) (site # stk) tag clientIp logId lvl
             (rt_sprint (wr_R W) v @ repeat_v (length args)) args (ds_Global st) st)"

text \<open>From the warning level on a closure is executed whether or not the record is written.\<close>

definition tag_eager :: "string \<Rightarrow> Level \<Rightarrow> 'a caller \<Rightarrow> string list \<Rightarrow> string \<Rightarrow> 'a arg0 \<Rightarrow> 'a list \<Rightarrow> dstate \<Rightarrow> dstate outcome" where
  "tag_eager site lvl W stk tag arg0 args st =
     obind (of_go (batchGetGl (wr_goid W) (wr_gl W))) (\<lambda>(clientIp, logId).
       case arg0 of
         ArgString first \<Rightarrow> intLogfTag (wr_R W) (site # stk) tag clientIp logId lvl first args (ds_Global st) st
       | ArgFunc first \<Rightarrow>
           (case run_closure first st of (str, st) \<Rightarrow>
              intLogfTag (wr_R W) (site # stk) tag clientIp logId lvl ''%s'' [rt_str (wr_R W) str] (ds_Global st) st)
       | ArgValue v \<Rightarrow>
           intLogfTag (wr_R W) (site # stk) tag clientIp logId lvl
             (rt_sprint (wr_R W) v @ repeat_v (length args)) args (ds_Global st) st)"

definition dlog_Debug :: "'a caller \<Rightarrow> string list \<Rightarrow> 'a arg0 \<Rightarrow> 'a list \<Rightarrow> dstate \<Rightarrow> dstate outcome" where
  "dlog_Debug W stk arg0 args st = tag_at ''dlog.Debug'' DEBUG W stk [] arg0 args st"

definition dlog_DebugT :: "'a caller \<Rightarrow> string list \<Rightarrow> string \<Rightarrow> 'a arg0 \<Rightarrow> 'a list \<Rightarrow> dstate \<Rightarrow> dstate outcome" where
  "dlog_DebugT W stk tag arg0 args st = tag_at ''dlog.DebugT'' DEBUG W stk tag arg0 args st"

definition dlog_Trace :: "'a caller \<Rightarrow> string list \<Rightarrow> 'a arg0 \<Rightarrow> 'a list \<Rightarrow> dstate \<Rightarrow> dstate outcome" where
  "dlog_Trace W stk arg0 args st = tag_at ''dlog.Trace'' TRACE W stk [] arg0 args st"

definition dlog_TraceT :: "'a caller \<Rightarrow> string list \<Rightarrow> string \<Rightarrow> 'a arg0 \<Rightarrow> 'a list \<Rightarrow> dstate \<Rightarrow> dstate outcome" where
  "dlog_TraceT W stk tag arg0 args st = tag_at ''dlog.TraceT'' TRACE W stk tag arg0 args st"

definition dlog_Info :: "'a caller \<Rightarrow> string list \<Rightarrow> 'a arg0 \<Rightarrow> 'a list \<Rightarrow> dstate \<Rightarrow> dstate outcome" where
  "dlog_Info W stk arg0 args st = tag_at ''dlog.Info'' INFO W stk [] arg0 args st"

definition dlog_InfoT :: "'a caller \<Rightarrow> string list \<Rightarrow> string \<Rightarrow> 'a arg0 \<Rightarrow> 'a list \<Rightarrow> dstate \<Rightarrow> dstate outcome" where
  "dlog_InfoT W stk tag arg0 args st = tag_at ''dlog.InfoT'' INFO W stk tag arg0 args st"

definition dlog_Warn :: "'a caller \<Rightarrow> string list \<Rightarrow> 'a arg0 \<Rightarrow> 'a list \<Rightarrow> dstate \<Rightarrow> dstate outcome" where
  "dlog_Warn W stk arg0 args st = tag_eager ''dlog.Warn'' WARNING W stk [] arg0 args st"

definition dlog_WarnT :: "'a caller \<Rightarrow> string list \<Rightarrow> string \<Rightarrow> 'a arg0 \<Rightarrow> 'a list \<Rightarrow> dstate \<Rightarrow> dstate outcome" where
  "dlog_WarnT W stk tag arg0 args st = tag_eager ''dlog.WarnT'' WARNING W stk tag arg0 args st"

definition dlog_Error :: "'a caller \<Rightarrow> string list \<Rightarrow> 'a arg0 \<Rightarrow> 'a list \<Rightarrow> dstate \<Rightarrow> dstate outcome" where
  "dlog_Error W stk arg0 args st = tag_eager ''dlog.Error'' ERROR W stk [] arg0 args st"

definition dlog_ErrorT :: "'a caller \<Rightarrow> string list \<Rightarrow> string \<Rightarrow> 'a arg0 \<Rightarrow> 'a list \<Rightarrow> dstate \<Rightarrow> dstate outcome" where
  "dlog_ErrorT W stk tag arg0 args st = tag_eager ''dlog.ErrorT'' ERROR W stk tag arg0 args st"

definition dlog_Critical :: "'a caller \<Rightarrow> string list \<Rightarrow> 'a arg0 \<Rightarrow> 'a list \<Rightarrow> dstate \<Rightarrow> dstate outcome" where
  "dlog_Critical W stk arg0 args st = tag_eager ''dlog.Critical'' CRITICAL W stk [] arg0 args st"

definition dlog_CriticalT :: "'a caller \<Rightarrow> string list \<Rightarrow> string \<Rightarrow> 'a arg0 \<Rightarrow> 'a list \<Rightarrow> dstate \<Rightarrow> dstate outcome" where
  "dlog_CriticalT W stk tag arg0 args st = tag_eager ''dlog.CriticalT'' CRITICAL W stk tag arg0 args st"

section \<open>The functions of the application package\<close>

definition gd_LogClose :: "'a runtime \<Rightarrow> dstate \<Rightarrow> dstate outcome" where
  "gd_LogClose R st = dlog_Close R st"

definition gd_Crash :: "'a runtime \<Rightarrow> string list \<Rightarrow> 'a list \<Rightarrow> dstate \<Rightarrow> dstate outcome" where
  "gd_Crash R stk args st = dlog_Crash R (''gd.Crash'' # stk) args st"

definition gd_Crashf :: "'a runtime \<Rightarrow> string list \<Rightarrow> string \<Rightarrow> 'a list \<Rightarrow> dstate \<Rightarrow> dstate outcome" where
  "gd_Crashf R stk format args st = dlog_Crashf R (''gd.Crashf'' # stk) format args st"

definition gd_Exit :: "'a runtime \<Rightarrow> string list \<Rightarrow> 'a list \<Rightarrow> dstate \<Rightarrow> dstate outcome" where
  "gd_Exit R stk args st = dlog_Exit R (''gd.Exit'' # stk) args st"

definition gd_Exitf :: "'a runtime \<Rightarrow> string list \<Rightarrow> string \<Rightarrow> 'a list \<Rightarrow> dstate \<Rightarrow> dstate outcome" where
  "gd_Exitf R stk format args st = dlog_Exitf R (''gd.Exitf'' # stk) format args st"

definition gd_Stderr :: "'a runtime \<Rightarrow> string list \<Rightarrow> 'a list \<Rightarrow> dstate \<Rightarrow> dstate outcome" where
  "gd_Stderr R stk args st = dlog_Stderr R (''gd.Stderr'' # stk) args st"

definition gd_Stderrf :: "'a runtime \<Rightarrow> string list \<Rightarrow> string \<Rightarrow> 'a list \<Rightarrow> dstate \<Rightarrow> dstate outcome" where
  "gd_Stderrf R stk format args st = dlog_Stderrf R (''gd.Stderrf'' # stk) format args st"

definition gd_Stdout :: "'a runtime \<Rightarrow> string list \<Rightarrow> 'a list \<Rightarrow> dstate \<Rightarrow> dstate outcome" where
  "gd_Stdout R stk args st = dlog_Stdout R (''gd.Stdout'' # stk) args st"

definition gd_Stdoutf :: "'a runtime \<Rightarrow> string list \<Rightarrow> string \<Rightarrow> 'a list \<Rightarrow> dstate \<Rightarrow> dstate outcome" where
  "gd_Stdoutf R stk format args st = dlog_Stdoutf R (''gd.Stdoutf'' # stk) format args st"

definition gd_GetLevel :: "'a runtime \<Rightarrow> dstate \<Rightarrow> string go" where
  "gd_GetLevel R st = dlog_GetLevel R st"

definition gd_SetLevel :: "int \<Rightarrow> dstate \<Rightarrow> dstate" where
  "gd_SetLevel lvl st = dlog_SetLevel lvl st"

definition gd_Log :: "'a runtime \<Rightarrow> Level \<Rightarrow> string \<Rightarrow> string \<Rightarrow> dstate \<Rightarrow> dstate outcome" where
  "gd_Log R lvl source message st = dlog_Log R lvl source message st"

definition gd_Logf :: "'a runtime \<Rightarrow> string list \<Rightarrow> Level \<Rightarrow> string \<Rightarrow> 'a list \<Rightarrow> dstate \<Rightarrow> dstate outcome" where
  "gd_Logf R stk lvl format args st = dlog_Logf R (''gd.Logf'' # stk) lvl format args st"

definition gd_Logc :: "'a runtime \<Rightarrow> string list \<Rightarrow> Level \<Rightarrow> string \<Rightarrow> dstate \<Rightarrow> dstate outcome" where
  "gd_Logc R stk lvl closure st = dlog_Logc R (''gd.Logc'' # stk) lvl closure st"

definition gd_Finest :: "'a runtime \<Rightarrow> string list \<Rightarrow> 'a arg0 \<Rightarrow> 'a list \<Rightarrow> dstate \<Rightarrow> dstate outcome" where
  "gd_Finest R stk arg0 args st = dlog_Finest R (''gd.Finest'' # stk) arg0 args st"

definition gd_Fine :: "'a runtime \<Rightarrow> string list \<Rightarrow> 'a arg0 \<Rightarrow> 'a list \<Rightarrow> dstate \<Rightarrow> dstate outcome" where
  "gd_Fine R stk arg0 args st = dlog_Fine R (''gd.Fine'' # stk) arg0 args st"

definition gd_Debug :: "'a caller \<Rightarrow> string list \<Rightarrow> 'a arg0 \<Rightarrow> 'a list \<Rightarrow> dstate \<Rightarrow> dstate outcome" where
  "gd_Debug W stk arg0 args st = dlog_Debug W (''gd.Debug'' # stk) arg0 args st"

definition gd_DebugT :: "'a caller \<Rightarrow> string list \<Rightarrow> string \<Rightarrow> 'a arg0 \<Rightarrow> 'a list \<Rightarrow> dstate \<Rightarrow> dstate outcome" where
  "gd_DebugT W stk tag arg0 args st = dlog_DebugT W (''gd.DebugT'' # stk) tag arg0 args st"

definition gd_Trace :: "'a caller \<Rightarrow> string list \<Rightarrow> 'a arg0 \<Rightarrow> 'a list \<Rightarrow> dstate \<Rightarrow> dstate outcome" where
  "gd_Trace W stk arg0 args st = dlog_Trace W (''gd.Trace'' # stk) arg0 args st"

definition gd_TraceT :: "'a caller \<Rightarrow> string list \<Rightarrow> string \<Rightarrow> 'a arg0 \<Rightarrow> 'a list \<Rightarrow> dstate \<Rightarrow> dstate outcome" where
  "gd_TraceT W stk tag arg0 args st = dlog_TraceT W (''gd.TraceT'' # stk) tag arg0 args st"

definition gd_Info :: "'a caller \<Rightarrow> string list \<Rightarrow> 'a arg0 \<Rightarrow> 'a list \<Rightarrow> dstate \<Rightarrow> dstate outcome" where
  "gd_Info W stk arg0 args st = dlog_Info W (''gd.Info'' # stk) arg0 args st"

definition gd_InfoT :: "'a caller \<Rightarrow> string list \<Rightarrow> string \<Rightarrow> 'a arg0 \<Rightarrow> 'a list \<Rightarrow> dstate \<Rightarrow> dstate outcome" where
  "gd_InfoT W stk tag arg0 args st = dlog_InfoT W (''gd.InfoT'' # stk) tag arg0 args st"

definition gd_Warn :: "'a caller \<Rightarrow> string list \<Rightarrow> 'a arg0 \<Rightarrow> 'a list \<Rightarrow> dstate \<Rightarrow> dstate outcome" where
  "gd_Warn W stk arg0 args st = dlog_Warn W (''gd.Warn'' # stk) arg0 args st"

definition gd_WarnT :: "'a caller \<Rightarrow> string list \<Rightarrow> string \<Rightarrow> 'a arg0 \<Rightarrow> 'a list \<Rightarrow> dstate \<Rightarrow> dstate outcome" where
  "gd_WarnT W stk tag arg0 args st = dlog_WarnT W (''gd.WarnT'' # stk) tag arg0 args st"

definition gd_Error :: "'a caller \<Rightarrow> string list \<Rightarrow> 'a arg0 \<Rightarrow> 'a list \<Rightarrow> dstate \<Rightarrow> dstate outcome" where
  "gd_Error W stk arg0 args st = dlog_Error W (''gd.Error'' # stk) arg0 args st"

definition gd_ErrorT :: "'a caller \<Rightarrow> string list \<Rightarrow> string \<Rightarrow> 'a arg0 \<Rightarrow> 'a list \<Rightarrow> dstate \<Rightarrow> dstate outcome" where
  "gd_ErrorT W stk tag arg0 args st = dlog_ErrorT W (''gd.ErrorT'' # stk) tag arg0 args st"

definition gd_Critical :: "'a caller \<Rightarrow> string list \<Rightarrow> 'a arg0 \<Rightarrow> 'a list \<Rightarrow> dstate \<Rightarrow> dstate outcome" where
  "gd_Critical W stk arg0 args st = dlog_Critical W (''gd.Critical'' # stk) arg0 args st"

definition gd_CriticalT :: "'a caller \<Rightarrow> string list \<Rightarrow> string \<Rightarrow> 'a arg0 \<Rightarrow> 'a list \<Rightarrow> dstate \<Rightarrow> dstate outcome" where
  "gd_CriticalT W stk tag arg0 args st = dlog_CriticalT W (''gd.CriticalT'' # stk) tag arg0 args st"

section \<open>Which writers receive which record\<close>

definition gl_str :: "'a caller \<Rightarrow> string \<Rightarrow> string" where
  "gl_str W key = str_or_empty (case gl_private (wr_goid W) (wr_gl W) of None \<Rightarrow> None | Some m \<Rightarrow> m (AStr key))"

lemma batchGetGl_private:
  assumes "gl_inv (wr_gl W)"
  shows "batchGetGl (wr_goid W) (wr_gl W) = Inr (gl_str W ''glClientIp'', gl_str W ''glLogId'')"
  using assms
  by (cases "gl_addr (wr_goid W) (wr_gl W)")
     (simp_all add: batchGetGl_def gl_BatchGet_def getGl_addr gl_str_def gl_private_def str_or_empty_def
        batch_collect_map map_add_def restrict_map_def split: option.splits)

definition message_of :: "'a runtime \<Rightarrow> 'a arg0 \<Rightarrow> 'a list \<Rightarrow> string" where
  "message_of R arg0 args =
     (case arg0 of
        ArgString first \<Rightarrow> fmt_msg R first args
      | ArgFunc c \<Rightarrow> c
      | ArgValue v \<Rightarrow> fmt_msg R (rt_sprint R v @ repeat_v (length args)) args)"

definition ready :: "'a runtime \<Rightarrow> dstate \<Rightarrow> bool" where
  "ready R st =
     (mset (rt_scan R (ds_Global st)) = mset (ds_Global st) \<and> mset (rt_order R (ds_Global st)) = mset (ds_Global st)
      \<and> (\<forall>(n, filt)\<in>set (ds_Global st). w_accepts (ds_heap st (fi_writer filt)))
      \<and> (\<forall>a. length (w_queue (ds_heap st a)) + length (ds_Global st) \<le> LogBufferLength))"

lemma enabled_perm: "mset xs = mset ys \<Longrightarrow> enabled_loop lvl xs = enabled_loop lvl ys"
  unfolding enabled_loop_iff by (metis set_mset_mset)

lemma dispatch_ready:
  assumes "ready R st" "ds_heap st1 = ds_heap st" "ds_Global st1 = ds_Global st"
  shows "\<exists>st'. dispatch R lvl r (rt_order R (ds_Global st)) st1 = Ret st' \<and> same_logger st1 st'
    \<and> (\<forall>a. w_queue (ds_heap st' a) = w_queue (ds_heap st a) @ replicate (passing lvl a (ds_Global st)) r)
    \<and> (\<forall>a. w_accepts (ds_heap st a) \<longrightarrow> w_accepts (ds_heap st' a))"
proof -
  let ?fs = "rt_order R (ds_Global st)"
  have p: "mset ?fs = mset (ds_Global st)" using assms(1) by (simp add: ready_def)
  have "set ?fs = set (ds_Global st)" "length ?fs = length (ds_Global st)"
    using mset_eq_setD [OF p] mset_eq_length [OF p] by auto
  then show ?thesis
    using dispatch_queues [of ?fs st1 R lvl r] assms passing_perm [OF p] by (simp add: ready_def)
qed

lemma tag_at_exact:
  assumes "ready (wr_R W) st" "gl_inv (wr_gl W)"
  shows "\<exists>st'. tag_at site lvl W stk tag arg0 args st = Ret st' \<and> ds_Global st' = ds_Global st
    \<and> (\<forall>a. w_queue (ds_heap st' a) = w_queue (ds_heap st a) @ replicate (passing lvl a (ds_Global st))
          \<lparr>lr_Level = lvl, lr_Created = os_now (rt_os (wr_R W)) (fs_tick (ds_fs st)), lr_Source = caller_src (site # stk),
           lr_Message = message_of (wr_R W) arg0 args, lr_Tag = tag, lr_Ip = gl_str W ''glClientIp'',
           lr_LogId = gl_str W ''glLogId'', lr_Url = []\<rparr>)
    \<and> ds_closures st' = ds_closures st @ (case arg0 of ArgFunc c \<Rightarrow> if enabled_loop lvl (ds_Global st) then [c] else [] | _ \<Rightarrow> [])
    \<and> (\<forall>a. w_accepts (ds_heap st a) \<longrightarrow> w_accepts (ds_heap st' a))"
proof -
  let ?R = "wr_R W"
  have en: "enabled_loop lvl (rt_scan ?R (ds_Global st)) = enabled_loop lvl (ds_Global st)"
    by (rule enabled_perm) (use assms(1) in \<open>simp add: ready_def\<close>)
  show ?thesis
  proof (cases "enabled_loop lvl (ds_Global st)")
    case False
    then show ?thesis
      by (cases arg0) (simp_all add: tag_at_def batchGetGl_private [OF assms(2)] intLogfTag_def intLogcTag_def en not_enabled_passing)
  next
    case True
    define st1 where "st1 = st\<lparr>ds_fs := (ds_fs st)\<lparr>fs_tick := fs_tick (ds_fs st) + 1\<rparr>\<rparr>"
    define st2 where "st2 = (case arg0 of ArgFunc c \<Rightarrow> st1\<lparr>ds_closures := ds_closures st1 @ [c]\<rparr> | _ \<Rightarrow> st1)"
    define r where "r = \<lparr>lr_Level = lvl, lr_Created = os_now (rt_os ?R) (fs_tick (ds_fs st)), lr_Source = caller_src (site # stk),
           lr_Message = message_of ?R arg0 args, lr_Tag = tag, lr_Ip = gl_str W ''glClientIp'',
           lr_LogId = gl_str W ''glLogId'', lr_Url = []\<rparr>"
    have run: "tag_at site lvl W stk tag arg0 args st = dispatch ?R lvl r (rt_order ?R (ds_Global st)) st2"
      using True by (cases arg0)
        (simp_all add: tag_at_def batchGetGl_private [OF assms(2)] intLogfTag_def intLogcTag_def en st_Now_def os_Now_def
           run_closure_def st1_def st2_def r_def message_of_def)
    have "ds_heap st2 = ds_heap st" "ds_Global st2 = ds_Global st" by (cases arg0; simp add: st2_def st1_def)+
    from dispatch_ready [OF assms(1) this, of lvl r] obtain st' where
      st': "dispatch ?R lvl r (rt_order ?R (ds_Global st)) st2 = Ret st'" "same_logger st2 st'"
      "\<forall>a. w_queue (ds_heap st' a) = w_queue (ds_heap st a) @ replicate (passing lvl a (ds_Global st)) r"
      "\<forall>a. w_accepts (ds_heap st a) \<longrightarrow> w_accepts (ds_heap st' a)" by blast
    have "ds_Global st' = ds_Global st"
      "ds_closures st' = ds_closures st @ (case arg0 of ArgFunc c \<Rightarrow> if enabled_loop lvl (ds_Global st) then [c] else [] | _ \<Rightarrow> [])"
      using st'(2) True by (cases arg0; simp add: same_logger_def st2_def st1_def)+
    then show ?thesis using run st'(1,3,4) unfolding r_def by auto
  qed
qed

text \<open>
  C37.  An application logs a message with \<open>gd.InfoT\<close>.  When no writer of the logger is closed and their channels
  have room, the call returns, and every writer receives the record once for each of its filters whose
  level is at most \<open>INFO\<close>, behind the records it has, and no other writer receives anything, whatever the
  order in which the filters are walked.  The record has the source line of the application's call, the message built from
  the arguments, the tag, and the client address and log id that the goroutine has stored.  A closure
  is executed once if some filter lets the level pass, and not at all otherwise.
\<close>

theorem info_logged_exactly:
  assumes "ready (wr_R W) st" "gl_inv (wr_gl W)"
  shows "\<exists>st'. gd_InfoT W (site # stk) tag arg0 args st = Ret st' \<and> ds_Global st' = ds_Global st
    \<and> (\<forall>a. w_queue (ds_heap st' a) = w_queue (ds_heap st a) @ replicate (passing INFO a (ds_Global st))
          \<lparr>lr_Level = INFO, lr_Created = os_now (rt_os (wr_R W)) (fs_tick (ds_fs st)), lr_Source = site,
           lr_Message = message_of (wr_R W) arg0 args, lr_Tag = tag, lr_Ip = gl_str W ''glClientIp'',
           lr_LogId = gl_str W ''glLogId'', lr_Url = []\<rparr>)
    \<and> ds_closures st' = ds_closures st @ (case arg0 of ArgFunc c \<Rightarrow> if enabled_loop INFO (ds_Global st) then [c] else [] | _ \<Rightarrow> [])"
  using tag_at_exact [OF assms, of "''dlog.InfoT''" INFO "''gd.InfoT'' # site # stk" tag arg0 args]
  by (auto simp: gd_InfoT_def dlog_InfoT_def caller_src_def)

text \<open>A logger with a console at \<open>DEBUG\<close> and one at \<open>ERROR\<close>, for witnesses.\<close>

definition demo_runtime :: "string runtime" where
  "demo_runtime = \<lparr>rt_scan = id, rt_order = rev, rt_sprintf = (\<lambda>f args. f @ concat args), rt_sprint = id, rt_str = id,
     rt_os = calm, rt_tz = 0, rt_pick = True, rt_late = [], rt_printed = 0, rt_js = (\<lambda>r. None), rt_socks = []\<rparr>"

definition demo_caller :: "string caller" where
  "demo_caller = \<lparr>wr_R = demo_runtime, wr_goid = 1, wr_gl = newGoroutineLocal\<rparr>"

definition demo_state :: dstate where
  "demo_state =
     \<lparr>ds_Global = [(''stdout'', \<lparr>fi_Level = DEBUG, fi_writer = 0\<rparr>), (''err'', \<lparr>fi_Level = ERROR, fi_writer = 1\<rparr>)],
      ds_heap = (\<lambda>a. WConsole NewConsoleLogWriter), ds_next = 2, ds_fs = calm_fs, ds_closures = []\<rparr>"

lemma demo_ready: "ready (wr_R demo_caller) demo_state" "gl_inv (wr_gl demo_caller)"
  by (simp_all add: ready_def demo_caller_def demo_runtime_def demo_state_def NewConsoleLogWriter_def rc_new_def
       LogBufferLength_def newGoroutineLocal_inv)

theorem info_logged_exactly_witness:
  "\<exists>st'. gd_InfoT demo_caller [''main.go:7''] ''t'' (ArgString ''hi'') [] demo_state = Ret st'
     \<and> map lr_Message (w_queue (ds_heap st' 0)) = [''hi''] \<and> map lr_Source (w_queue (ds_heap st' 0)) = [''main.go:7'']
     \<and> w_queue (ds_heap st' 1) = []"
proof -
  obtain st' where st': "gd_InfoT demo_caller [''main.go:7''] ''t'' (ArgString ''hi'') [] demo_state = Ret st'"
    "\<forall>a. w_queue (ds_heap st' a) = w_queue (ds_heap demo_state a) @ replicate (passing INFO a (ds_Global demo_state))
          \<lparr>lr_Level = INFO, lr_Created = os_now (rt_os (wr_R demo_caller)) (fs_tick (ds_fs demo_state)), lr_Source = ''main.go:7'',
           lr_Message = message_of (wr_R demo_caller) (ArgString ''hi'') [], lr_Tag = ''t'', lr_Ip = gl_str demo_caller ''glClientIp'',
           lr_LogId = gl_str demo_caller ''glLogId'', lr_Url = []\<rparr>"
    using info_logged_exactly [OF demo_ready, of "''main.go:7''" "[]" "''t''" "ArgString ''hi''" "[]"] by blast
  then show ?thesis
    by (simp add: demo_state_def passing_def level_defs NewConsoleLogWriter_def rc_new_def message_of_def fmt_msg_def)
qed

text \<open>
  A package that calls \<open>dlog\<close> itself, as the packages of the repository do, is one call nearer: the
  source of its records is the line that called it, not its own.
\<close>

lemma dlog_source_is_the_callers_caller:
  assumes "ready (wr_R W) st" "gl_inv (wr_gl W)"
  shows "\<exists>st'. dlog_Info W (site # upper # stk) arg0 args st = Ret st'
    \<and> (\<forall>a. \<exists>r. lr_Source r = upper
          \<and> w_queue (ds_heap st' a) = w_queue (ds_heap st a) @ replicate (passing INFO a (ds_Global st)) r)"
proof -
  define r where "r = \<lparr>lr_Level = INFO, lr_Created = os_now (rt_os (wr_R W)) (fs_tick (ds_fs st)), lr_Source = upper,
           lr_Message = message_of (wr_R W) arg0 args, lr_Tag = [], lr_Ip = gl_str W ''glClientIp'',
           lr_LogId = gl_str W ''glLogId'', lr_Url = []\<rparr>"
  have "caller_src (''dlog.Info'' # site # upper # stk) = upper" by (simp add: caller_src_def)
  then obtain st' where st': "dlog_Info W (site # upper # stk) arg0 args st = Ret st'"
    "\<forall>a. w_queue (ds_heap st' a) = w_queue (ds_heap st a) @ replicate (passing INFO a (ds_Global st)) r"
    using tag_at_exact [OF assms, of "''dlog.Info''" INFO "site # upper # stk" "[]" arg0 args]
    unfolding dlog_Info_def r_def by metis
  have "lr_Source r = upper" by (simp add: r_def)
  then show ?thesis using st' by blast
qed

text \<open>\<open>GetLevel\<close> panics when a filter has the level one upper \<open>CRITICAL\<close>, which \<open>SetLevel\<close> accepts.\<close>

lemma set_level_eight:
  "ds_Global st = [(tag, filt)] \<Longrightarrow> rt_order R = id \<Longrightarrow> dlog_GetLevel R (dlog_SetLevel 8 st) = Inl IndexOutOfRange"
  by (simp add: dlog_GetLevel_def dlog_SetLevel_def Level_String_def level_index_def levelStrings_def)

section \<open>Room for several records\<close>

text \<open>The logger accepts records and has room for \<open>n\<close> of them in every channel.\<close>

definition log_room :: "nat \<Rightarrow> 'a runtime \<Rightarrow> dstate \<Rightarrow> bool" where
  "log_room n R d \<longleftrightarrow>
     (\<forall>l. mset (rt_scan R l) = mset l) \<and> (\<forall>l. mset (rt_order R l) = mset l)
     \<and> (\<forall>(name, filt)\<in>set (ds_Global d). w_accepts (ds_heap d (fi_writer filt)))
     \<and> (\<forall>a. length (w_queue (ds_heap d a)) + n * length (ds_Global d) \<le> LogBufferLength)"

lemma log_room_fs [simp]: "log_room n R (d\<lparr>ds_fs := f\<rparr>) = log_room n R d"
  by (simp add: log_room_def)

lemma log_room_weaken: "log_room n R d \<Longrightarrow> m \<le> n \<Longrightarrow> log_room m R d"
  unfolding log_room_def by (meson add_le_mono le_refl mult_le_mono1 order_trans)

lemma log_room_ready: "log_room (Suc n) R d \<Longrightarrow> ready R d"
  unfolding log_room_def ready_def by (auto, metis add.assoc add.commute add_leD1)

lemma passing_le: "passing lvl a log \<le> length log"
  by (simp add: passing_def)

lemma tag_at_room:
  assumes "log_room (Suc n) (wr_R W) d" "gl_inv (wr_gl W)"
  shows "\<exists>d'. tag_at site lvl W stk tag arg0 args d = Ret d' \<and> ds_Global d' = ds_Global d \<and> log_room n (wr_R W) d'
    \<and> (\<forall>a. w_queue (ds_heap d' a) = w_queue (ds_heap d a) @ replicate (passing lvl a (ds_Global d))
          \<lparr>lr_Level = lvl, lr_Created = os_now (rt_os (wr_R W)) (fs_tick (ds_fs d)), lr_Source = caller_src (site # stk),
           lr_Message = message_of (wr_R W) arg0 args, lr_Tag = tag, lr_Ip = gl_str W ''glClientIp'',
           lr_LogId = gl_str W ''glLogId'', lr_Url = []\<rparr>)"
proof -
  obtain d' r where d': "tag_at site lvl W stk tag arg0 args d = Ret d'" "ds_Global d' = ds_Global d"
    "\<forall>a. w_queue (ds_heap d' a) = w_queue (ds_heap d a) @ replicate (passing lvl a (ds_Global d)) r"
    "\<forall>a. w_accepts (ds_heap d a) \<longrightarrow> w_accepts (ds_heap d' a)" and r: "r =
          \<lparr>lr_Level = lvl, lr_Created = os_now (rt_os (wr_R W)) (fs_tick (ds_fs d)), lr_Source = caller_src (site # stk),
           lr_Message = message_of (wr_R W) arg0 args, lr_Tag = tag, lr_Ip = gl_str W ''glClientIp'',
           lr_LogId = gl_str W ''glLogId'', lr_Url = []\<rparr>"
    using tag_at_exact [OF log_room_ready [OF assms(1)] assms(2), of site lvl stk tag arg0 args] by blast
  have "length (w_queue (ds_heap d' a)) + n * length (ds_Global d') \<le> LogBufferLength" for a
  proof -
    have "length (w_queue (ds_heap d a)) + (length (ds_Global d) + n * length (ds_Global d)) \<le> LogBufferLength"
      using assms by (simp add: log_room_def)
    then show ?thesis using d'(2,3) passing_le [of lvl a "ds_Global d"] by simp
  qed
  then have "log_room n (wr_R W) d'" using assms(1) d'(2,4) unfolding log_room_def by fastforce
  then show ?thesis using d' r by blast
qed

lemma tag_eager_string [simp]: "tag_eager site lvl W stk tag (ArgString s) args = tag_at site lvl W stk tag (ArgString s) args"
  by (rule ext) (simp add: tag_eager_def tag_at_def)

end
