(* ===== verification/DlogConfig.thy ===== *)
theory DlogConfig
  imports DlogWrapper
begin

text \<open>
  Configuration of the logger: \<open>dlog/config.go\<close>, which builds filters from an \<open>XmlLoggerConfig\<close>, and
  \<open>log.go\<close>, which builds such a configuration from the settings of an application.  A configuration
  error ends the process, and what it prints before is not recorded.  Parsing XML, dialling a socket
  (\<open>dial\<close>) and the path of the executable are arguments.
\<close>

section \<open>Configurations\<close>

record XmlProperty =
  xp_Name :: string
  xp_Value :: string

record XmlFilter =
  xf_Enabled :: string
  xf_Tag :: string
  xf_Level :: string
  xf_Type :: string
  xf_Property :: "XmlProperty list"

record XmlLoggerConfig =
  xc_ScribeCategory :: string
  xc_Filter :: "XmlFilter list"

definition trim_value :: "string \<Rightarrow> string" where
  "trim_value v = strings_Trim v [CHR '' '', CHR 0x0D, CHR 0x0A]"

text \<open>The value \<open>strconv.Atoi\<close> returns beside its error: 0, or the nearest \<open>int\<close>.\<close>

definition atoi_value :: "string \<Rightarrow> int" where
  "atoi_value s =
     (let neg = (s \<noteq> [] \<and> hd s = CHR ''-'');
          ds = (if s \<noteq> [] \<and> (hd s = CHR ''-'' \<or> hd s = CHR ''+'') then tl s else s);
          i = (if neg then - int (atoi_nat ds) else int (atoi_nat ds))
      in if ds = [] \<or> \<not> list_all is_digit ds then 0 else max (- (2 ^ 63)) (min (2 ^ 63 - 1) i))"

definition int_mult :: "int \<Rightarrow> int \<Rightarrow> int" where
  "int_mult a b = sint (word_of_int (a * b) :: int64)"

definition strToNumSuffix :: "string \<Rightarrow> int \<Rightarrow> int" where
  "strToNumSuffix str factor =
     (if length str > 1
      then (let c = last str
            in if c = CHR ''G'' \<or> c = CHR ''g''
               then int_mult (atoi_value (butlast str)) (int_mult (int_mult factor factor) factor)
               else if c = CHR ''M'' \<or> c = CHR ''m'' then int_mult (atoi_value (butlast str)) (int_mult factor factor)
               else if c = CHR ''K'' \<or> c = CHR ''k'' then int_mult (atoi_value (butlast str)) factor
               else atoi_value str)
      else atoi_value str)"

definition unknown_prop :: "string \<Rightarrow> string \<Rightarrow> string" where
  "unknown_prop kind name = ''LoadConfiguration: Warning: Unknown property '' @ name @ '' for '' @ kind @ '' filter''"

section \<open>Writers from properties\<close>

fun console_props :: "XmlProperty list \<Rightarrow> string \<Rightarrow> dstate \<Rightarrow> string \<times> dstate" where
  "console_props [] format st = (format, st)"
| "console_props (p # ps) format st =
     (if xp_Name p = ''format'' then console_props ps (trim_value (xp_Value p)) st
      else console_props ps format (stderr_line (unknown_prop ''console'' (xp_Name p)) st))"

definition xmlToConsoleLogWriter :: "XmlProperty list \<Rightarrow> bool \<Rightarrow> dstate \<Rightarrow> (nat option \<times> bool) \<times> dstate" where
  "xmlToConsoleLogWriter props enabled st =
     (case console_props props FORMAT_DEFAULT st of (format, st) \<Rightarrow>
        if \<not> enabled then ((None, True), st)
        else (case new_writer (WConsole (cw_SetFormat format NewConsoleLogWriter)) st of (a, st) \<Rightarrow> ((Some a, True), st)))"

record file_props =
  p_file :: string
  p_format :: string
  p_max :: int
  p_maxsize :: int
  p_daily :: bool
  p_hourly :: bool
  p_rotate :: bool

definition no_props :: file_props where
  "no_props = \<lparr>p_file = [], p_format = FORMAT_DEFAULT, p_max = 0, p_maxsize = 0, p_daily = False, p_hourly = False,
               p_rotate = False\<rparr>"

definition file_prop :: "XmlProperty \<Rightarrow> file_props \<Rightarrow> file_props option" where
  "file_prop p f =
     (let v = trim_value (xp_Value p)
      in if xp_Name p = ''filename'' then Some (f\<lparr>p_file := v\<rparr>)
         else if xp_Name p = ''format'' then Some (f\<lparr>p_format := v\<rparr>)
         else if xp_Name p = ''maxLines'' then Some (f\<lparr>p_max := strToNumSuffix v 1000\<rparr>)
         else if xp_Name p = ''maxsize'' then Some (f\<lparr>p_maxsize := strToNumSuffix v 1024\<rparr>)
         else if xp_Name p = ''daily'' then Some (f\<lparr>p_daily := (v \<noteq> ''false'')\<rparr>)
         else if xp_Name p = ''hourly'' then Some (f\<lparr>p_hourly := (v \<noteq> ''false'')\<rparr>)
         else if xp_Name p = ''rotate'' then Some (f\<lparr>p_rotate := (v \<noteq> ''false'')\<rparr>)
         else None)"

definition xml_prop :: "XmlProperty \<Rightarrow> file_props \<Rightarrow> file_props option" where
  "xml_prop p f =
     (let v = trim_value (xp_Value p)
      in if xp_Name p = ''filename'' then Some (f\<lparr>p_file := v\<rparr>)
         else if xp_Name p = ''maxrecords'' then Some (f\<lparr>p_max := strToNumSuffix v 1000\<rparr>)
         else if xp_Name p = ''maxsize'' then Some (f\<lparr>p_maxsize := strToNumSuffix v 1024\<rparr>)
         else if xp_Name p = ''daily'' then Some (f\<lparr>p_daily := (v \<noteq> ''false'')\<rparr>)
         else if xp_Name p = ''hourly'' then Some (f\<lparr>p_hourly := (v \<noteq> ''false'')\<rparr>)
         else if xp_Name p = ''rotate'' then Some (f\<lparr>p_rotate := (v \<noteq> ''false'')\<rparr>)
         else None)"

fun props_loop ::
  "string \<Rightarrow> (XmlProperty \<Rightarrow> file_props \<Rightarrow> file_props option) \<Rightarrow> XmlProperty list \<Rightarrow> file_props \<Rightarrow> dstate \<Rightarrow> file_props \<times> dstate" where
  "props_loop kind step [] f st = (f, st)"
| "props_loop kind step (p # ps) f st =
     (case step p f of
        Some f' \<Rightarrow> props_loop kind step ps f' st
      | None \<Rightarrow> props_loop kind step ps f (stderr_line (unknown_prop kind (xp_Name p)) st))"

definition set_limits :: "file_props \<Rightarrow> FileLogWriter \<Rightarrow> FileLogWriter" where
  "set_limits f w =
     flw_SetRotateHourly (p_hourly f) (flw_SetRotateDaily (p_daily f)
       (flw_SetRotateSize (p_maxsize f) (flw_SetRotateLines (p_max f) w)))"

definition xmlToFileLogWriter ::
  "'a runtime \<Rightarrow> XmlProperty list \<Rightarrow> bool \<Rightarrow> dstate \<Rightarrow> ((nat option \<times> bool) \<times> dstate) outcome" where
  "xmlToFileLogWriter R props enabled st =
     (case props_loop ''file'' file_prop props no_props st of (f, st) \<Rightarrow>
        if p_file f = [] then Ret ((None, False), st)
        else if \<not> enabled then Ret ((None, True), st)
        else obind (of_go (NewFileLogWriter (rt_os R) (rt_tz R) (p_file f) (p_rotate f) (p_daily f) (p_hourly f) (ds_fs st)))
          (\<lambda>(wo, fs).
             case wo of
               None \<Rightarrow> Panics NilDeref
             | Some w \<Rightarrow>
                 (case new_writer (WFile (set_limits f (flw_SetFormat (p_format f) w))) (st\<lparr>ds_fs := fs\<rparr>) of
                    (a, st) \<Rightarrow> Ret ((Some a, True), st))))"

definition xmlToXMLLogWriter ::
  "'a runtime \<Rightarrow> XmlProperty list \<Rightarrow> bool \<Rightarrow> dstate \<Rightarrow> ((nat option \<times> bool) \<times> dstate) outcome" where
  "xmlToXMLLogWriter R props enabled st =
     (case props_loop ''xml'' xml_prop props no_props st of (f, st) \<Rightarrow>
        if p_file f = [] then Ret ((None, False), st)
        else if \<not> enabled then Ret ((None, True), st)
        else obind (of_go (NewXMLLogWriter (rt_os R) (rt_tz R) (p_file f) (p_rotate f) (ds_fs st)))
          (\<lambda>(w, fs).
             case new_writer (WFile (set_limits f w)) (st\<lparr>ds_fs := fs\<rparr>) of (a, st) \<Rightarrow> Ret ((Some a, True), st)))"

fun socket_props :: "XmlProperty list \<Rightarrow> string \<times> string \<Rightarrow> dstate \<Rightarrow> (string \<times> string) \<times> dstate" where
  "socket_props [] ep st = (ep, st)"
| "socket_props (p # ps) (endpoint, protocol) st =
     (if xp_Name p = ''endpoint'' then socket_props ps (trim_value (xp_Value p), protocol) st
      else if xp_Name p = ''protocol'' then socket_props ps (endpoint, trim_value (xp_Value p)) st
      else socket_props ps (endpoint, protocol) (stderr_line (unknown_prop ''file'' (xp_Name p)) st))"

definition xmlToSocketLogWriter ::
  "(string \<Rightarrow> string \<Rightarrow> bool) \<Rightarrow> XmlProperty list \<Rightarrow> bool \<Rightarrow> dstate \<Rightarrow> (nat option \<times> bool) \<times> dstate" where
  "xmlToSocketLogWriter dial props enabled st =
     (case socket_props props ([], ''udp'') st of ((endpoint, protocol), st) \<Rightarrow>
        if endpoint = [] then ((None, False), st)
        else if \<not> enabled then ((None, True), st)
        else (case new_writer (WSocket (NewSocketLogWriter (dial protocol endpoint))) st of (a, st) \<Rightarrow> ((Some a, True), st)))"

section \<open>Loading\<close>

definition level_of_name :: "string \<Rightarrow> Level option" where
  "level_of_name s =
     map_of [(''FINEST'', FINEST), (''FINE'', FINE), (''DEBUG'', DEBUG), (''TRACE'', TRACE), (''INFO'', INFO),
             (''WARNING'', WARNING), (''ERROR'', ERROR), (''CRITICAL'', CRITICAL)] s"

definition set_category :: "string \<Rightarrow> nat option \<Rightarrow> dstate \<Rightarrow> dstate" where
  "set_category cat ao st =
     (case ao of
        None \<Rightarrow> st
      | Some a \<Rightarrow>
          (case ds_heap st a of
             WFile w \<Rightarrow> st\<lparr>ds_heap := (ds_heap st)(a := WFile (w\<lparr>fw_ScribeCategory := cat\<rparr>))\<rparr>
           | _ \<Rightarrow> st))"

definition make_writer ::
  "'a runtime \<Rightarrow> (string \<Rightarrow> string \<Rightarrow> bool) \<Rightarrow> string \<Rightarrow> XmlFilter \<Rightarrow> bool \<Rightarrow> dstate \<Rightarrow> ((nat option \<times> bool) \<times> dstate) outcome" where
  "make_writer R dial cat x enabled st =
     (if xf_Type x = ''console'' then Ret (xmlToConsoleLogWriter (xf_Property x) enabled st)
      else if xf_Type x = ''file''
      then obind (xmlToFileLogWriter R (xf_Property x) enabled st) (\<lambda>((ao, good), st).
             Ret ((ao, good), if good then set_category cat ao st else st))
      else if xf_Type x = ''xml'' then xmlToXMLLogWriter R (xf_Property x) enabled st
      else if xf_Type x = ''socket'' then Ret (xmlToSocketLogWriter dial (xf_Property x) enabled st)
      else Exits 1)"

definition load_filter ::
  "'a runtime \<Rightarrow> (string \<Rightarrow> string \<Rightarrow> bool) \<Rightarrow> string \<Rightarrow> XmlFilter \<Rightarrow> Logger \<times> dstate \<Rightarrow> (Logger \<times> dstate) outcome" where
  "load_filter R dial cat x = (\<lambda>(new, st).
     (let enabled = (xf_Enabled x \<noteq> ''false'')
      in if xf_Enabled x = [] \<or> xf_Tag x = [] \<or> xf_Type x = [] \<or> xf_Level x = [] then Exits 1
         else (case level_of_name (xf_Level x) of
                 None \<Rightarrow> Exits 1
               | Some lvl \<Rightarrow>
                   obind (make_writer R dial cat x enabled st) (\<lambda>((ao, good), st).
                     if \<not> good then Exits 1
                     else (case ao of
                             None \<Rightarrow> Ret (new, st)
                           | Some a \<Rightarrow> if enabled then Ret (al_set (xf_Tag x) \<lparr>fi_Level = lvl, fi_writer = a\<rparr> new, st)
                                       else Ret (new, st))))))"

fun load_filters ::
  "'a runtime \<Rightarrow> (string \<Rightarrow> string \<Rightarrow> bool) \<Rightarrow> string \<Rightarrow> XmlFilter list \<Rightarrow> Logger \<times> dstate \<Rightarrow> (Logger \<times> dstate) outcome" where
  "load_filters R dial cat [] s = Ret s"
| "load_filters R dial cat (x # xs) s = obind (load_filter R dial cat x s) (load_filters R dial cat xs)"

definition loadConfiguration ::
  "'a runtime \<Rightarrow> (string \<Rightarrow> string \<Rightarrow> bool) \<Rightarrow> XmlLoggerConfig \<Rightarrow> Logger \<Rightarrow> dstate \<Rightarrow> (Logger \<times> dstate) outcome" where
  "loadConfiguration R dial xc log st =
     obind (Logger_Close R log st) (\<lambda>st.
     obind (load_filters R dial (xc_ScribeCategory xc) (xc_Filter xc) ([], st)) (\<lambda>(new, st).
       Ret (foldl (\<lambda>log (k, v). al_set k v log) [] (rt_order R new), st)))"

definition LoadConfigurationByXml ::
  "'a runtime \<Rightarrow> (string \<Rightarrow> string \<Rightarrow> bool) \<Rightarrow> XmlLoggerConfig \<Rightarrow> dstate \<Rightarrow> dstate outcome" where
  "LoadConfigurationByXml R dial xc st =
     obind (loadConfiguration R dial xc (ds_Global st) st) (\<lambda>(log, st). Ret (st\<lparr>ds_Global := log\<rparr>))"

definition LoadConfiguration ::
  "'a runtime \<Rightarrow> (string \<Rightarrow> string \<Rightarrow> bool) \<Rightarrow> (string \<Rightarrow> XmlLoggerConfig option) \<Rightarrow> string \<Rightarrow> dstate \<Rightarrow> dstate outcome" where
  "LoadConfiguration R dial unmarshal filename st =
     (case fs_files (ds_fs st) filename of
        None \<Rightarrow> Exits 1
      | Some contents \<Rightarrow> (case unmarshal contents of None \<Rightarrow> Exits 1 | Some xc \<Rightarrow> LoadConfigurationByXml R dial xc st))"

section \<open>The settings of an application\<close>

record gdConfig =
  g_BinName :: string
  g_Port :: int
  g_LogLevel :: string
  g_LogDir :: string
  g_Stdout :: string
  g_Format :: string
  g_Rotate :: string
  g_Maxsize :: string
  g_MaxLines :: string
  g_RotateType :: string

definition getInfoFileName :: "string \<Rightarrow> int \<Rightarrow> string" where
  "getInfoFileName binName port =
     (if port = 0 then binName @ ''.log'' else binName @ ''_'' @ Itoa port @ ''.log'')"

definition getWarnFileName :: "string \<Rightarrow> int \<Rightarrow> string" where
  "getWarnFileName binName port =
     (if port = 0 then binName @ ''_err.log'' else binName @ ''_err_'' @ Itoa port @ ''.log'')"

text \<open>\<open>filepath.Dir\<close> of a clean path.\<close>

definition path_Dir :: "string \<Rightarrow> string" where
  "path_Dir path =
     (case dir_of path of None \<Rightarrow> ''.'' | Some d \<Rightarrow> if d = [] then ''/'' else d)"

definition bin_name :: "string \<Rightarrow> string go" where
  "bin_name ex =
     (let exPath = path_Dir ex
      in if strings_Contains exPath ''/''
         then (if length exPath + 1 \<le> length ex then Inr (drop (length exPath + 1) ex) else Inl IndexOutOfRange)
         else Inr ex)"

definition gd_filters :: "gdConfig \<Rightarrow> XmlFilter list" where
  "gd_filters g =
     (let toFile = (if length (g_LogDir g) > 0 then ''true'' else ''false'');
          file = (\<lambda>name.
            [\<lparr>xp_Name = ''filename'', xp_Value = g_LogDir g @ ''/'' @ name\<rparr>,
             \<lparr>xp_Name = ''format'', xp_Value = g_Format g\<rparr>,
             \<lparr>xp_Name = ''rotate'', xp_Value = g_Rotate g\<rparr>,
             \<lparr>xp_Name = ''maxsize'', xp_Value = g_Maxsize g\<rparr>,
             \<lparr>xp_Name = ''maxLines'', xp_Value = g_MaxLines g\<rparr>,
             \<lparr>xp_Name = g_RotateType g, xp_Value = ''true''\<rparr>])
      in [\<lparr>xf_Enabled = g_Stdout g, xf_Tag = ''stdout'', xf_Level = ''INFO'', xf_Type = ''console'',
           xf_Property = [\<lparr>xp_Name = ''format'', xp_Value = g_Format g\<rparr>]\<rparr>,
          \<lparr>xf_Enabled = toFile, xf_Tag = ''service'', xf_Level = g_LogLevel g, xf_Type = ''file'',
           xf_Property = file (getInfoFileName (g_BinName g) (g_Port g))\<rparr>,
          \<lparr>xf_Enabled = toFile, xf_Tag = ''service_err'', xf_Level = ''WARNING'', xf_Type = ''file'',
           xf_Property = file (getWarnFileName (g_BinName g) (g_Port g))\<rparr>])"

definition initLogConfig ::
  "'a runtime \<Rightarrow> (string \<Rightarrow> string \<Rightarrow> bool) \<Rightarrow> (string + string) \<Rightarrow> gdConfig \<Rightarrow> dstate \<Rightarrow> (string option \<times> gdConfig \<times> dstate) outcome" where
  "initLogConfig R dial exe g st =
     (let start = (\<lambda>g.
        if g_LogLevel g \<notin> {''DEBUG'', ''INFO'', ''WARNING'', ''ERROR''}
        then Ret (Some (''invalid log level '' @ g_LogLevel g), g, st)
        else obind (LoadConfigurationByXml R dial \<lparr>xc_ScribeCategory = [], xc_Filter = gd_filters g\<rparr> st) (\<lambda>st. Ret (None, g, st)))
      in if g_BinName g = []
         then (case exe of
                 Inl err \<Rightarrow> Ret (Some err, g, st)
               | Inr ex \<Rightarrow> obind (of_go (bin_name ex)) (\<lambda>b. start (g\<lparr>g_BinName := b\<rparr>)))
         else start g)"

section \<open>Where the records of an application go\<close>

lemma obind_Ret_iff [simp]: "obind m k = Ret y \<longleftrightarrow> (\<exists>x. m = Ret x \<and> k x = Ret y)"
  by (cases m) auto

lemma of_go_Ret_iff [simp]: "of_go m = Ret y \<longleftrightarrow> m = Inr y"
  by (cases m) auto

lemma fw_mark_filename: "fw_mark os tz s t w f = Inr (w', f') \<Longrightarrow> fw_filename w' = fw_filename w"
  by (auto simp: fw_mark_def)

lemma close_file_filename: "close_file os tz w f = Inr (w', f') \<Longrightarrow> fw_filename w' = fw_filename w"
  by (auto simp: close_file_def split: if_splits prod.splits dest: fw_mark_filename)

lemma intRotateTime_filename:
  assumes "intRotateTime os tz now w f = Inr (e, w', f')"
  shows "fw_filename w' = fw_filename w"
proof -
  obtain w1 f1 where c: "close_file os tz w f = Inr (w1, f1)"
    using assms by (cases "close_file os tz w f") (auto simp: intRotateTime_def)
  obtain e2 f2 where r: "rotate_away os tz now w1 f1 = (e2, f2)" by fastforce
  obtain e3 f3 where o3: "open_log os (fw_filename w1) f2 = (e3, f3)" by fastforce
  show ?thesis
  proof (cases "e2 = None \<and> e3 = None")
    case True
    then obtain w4 f4 where m: "fw_mark os tz (fw_header w1) now (w1\<lparr>fw_file := Some True\<rparr>) f3 = Inr (w4, f4)"
      using assms c r o3
      by (cases "fw_mark os tz (fw_header w1) now (w1\<lparr>fw_file := Some True\<rparr>) f3") (auto simp: intRotateTime_def)
    show ?thesis
      using assms c r o3 True m fw_mark_filename [OF m] close_file_filename [OF c] by (auto simp: intRotateTime_def)
  next
    case False
    then show ?thesis
      using assms c r o3 close_file_filename [OF c] by (auto simp: intRotateTime_def split: option.splits)
  qed
qed

lemma NewFileLogWriter_filename:
  assumes "NewFileLogWriter os tz name rot daily hourly f = Inr (Some w, f')"
  shows "fw_filename w = name"
proof -
  obtain t h where t: "os_Now os f = (t, h)" by fastforce
  let ?w = "\<lparr>fw_rec = [], fw_stop = False, fw_running = False, fw_filename = name, fw_file = None,
        fw_format = FORMAT_DEFAULT, fw_header = [], fw_trailer = [], fw_maxLines = 0, fw_maxLinesCurLines = 0,
        fw_maxsize = 0, fw_maxsizeCurSize = 0, fw_daily = daily, fw_dailyOpenDate = 0, fw_hourly = hourly,
        fw_hourlyOpenHour = 0, fw_rotate = rot, fw_ScribeCategory = [], fw_cache = empty_cache\<rparr>"
  obtain e w1 g where i: "intRotateTime os tz t ?w h = Inr (e, w1, g)"
    using assms t by (cases "intRotateTime os tz t ?w h") (auto simp: NewFileLogWriter_def intRotate_def)
  then show ?thesis
    using assms t intRotateTime_filename [OF i] by (auto simp: NewFileLogWriter_def intRotate_def split: option.splits)
qed

text \<open>States that differ in what was printed only.\<close>

definition same_writers :: "dstate \<Rightarrow> dstate \<Rightarrow> bool" where
  "same_writers st st' = (ds_heap st' = ds_heap st \<and> ds_next st' = ds_next st \<and> ds_Global st' = ds_Global st)"

text \<open>
  The properties \<open>log.go\<close> gives its files name the file; the type of rotation is a switch, or a complaint on
  \<open>stderr\<close> when it is no property of files.
\<close>

lemma gd_file_props:
  assumes "rt \<noteq> ''filename''"
  shows "\<exists>f st0. props_loop ''file'' file_prop
      [\<lparr>xp_Name = ''filename'', xp_Value = name\<rparr>, \<lparr>xp_Name = ''format'', xp_Value = fmt\<rparr>, \<lparr>xp_Name = ''rotate'', xp_Value = rot\<rparr>,
       \<lparr>xp_Name = ''maxsize'', xp_Value = sz\<rparr>, \<lparr>xp_Name = ''maxLines'', xp_Value = lines\<rparr>, \<lparr>xp_Name = rt, xp_Value = ''true''\<rparr>]
      no_props st = (f, st0) \<and> same_writers st st0 \<and> p_file f = trim_value name"
  using assms by (simp add: file_prop_def Let_def no_props_def same_writers_def stderr_line_def)

text \<open>A state after a writer has been made at the next address.\<close>

definition allocated :: "dstate \<Rightarrow> LogWriter \<Rightarrow> dstate \<Rightarrow> bool" where
  "allocated st w st' =
     (ds_heap st' = (ds_heap st)(ds_next st := w) \<and> ds_next st' = ds_next st + 1 \<and> ds_Global st' = ds_Global st)"

lemma file_writer_made:
  assumes "xmlToFileLogWriter R props True st = Ret ((ao, good), st')"
    and "props_loop ''file'' file_prop props no_props st = (f, st0)" "same_writers st st0" "good"
  shows "\<exists>w. ao = Some (ds_next st) \<and> allocated st (WFile w) st' \<and> fw_filename w = p_file f"
proof -
  have ne: "p_file f \<noteq> []" using assms by (auto simp: xmlToFileLogWriter_def)
  obtain wo fs where n: "NewFileLogWriter (rt_os R) (rt_tz R) (p_file f) (p_rotate f) (p_daily f) (p_hourly f) (ds_fs st0) = Inr (wo, fs)"
    using assms(1,2) ne
    by (cases "NewFileLogWriter (rt_os R) (rt_tz R) (p_file f) (p_rotate f) (p_daily f) (p_hourly f) (ds_fs st0)")
      (auto simp: xmlToFileLogWriter_def)
  then obtain w where w: "wo = Some w" using assms(1,2) ne by (cases wo) (auto simp: xmlToFileLogWriter_def)
  have "fw_filename w = p_file f" using NewFileLogWriter_filename n w by blast
  then have "fw_filename (set_limits f (flw_SetFormat (p_format f) w)) = p_file f"
    by (simp add: set_limits_def flw_SetRotateHourly_def flw_SetRotateDaily_def flw_SetRotateSize_def flw_SetRotateLines_def flw_SetFormat_def)
  then show ?thesis using assms(1-3) ne n w by (auto simp: xmlToFileLogWriter_def new_writer_def allocated_def same_writers_def)
qed

lemma load_file_filter:
  assumes "load_filter R dial cat x (new, st) = Ret (new', st')" "xf_Type x = ''file''" "xf_Enabled x \<noteq> ''false''"
    and "props_loop ''file'' file_prop (xf_Property x) no_props st = (f, st0)" "same_writers st st0"
  shows "\<exists>lvl w. level_of_name (xf_Level x) = Some lvl \<and> allocated st (WFile w) st' \<and> fw_filename w = p_file f
           \<and> new' = al_set (xf_Tag x) \<lparr>fi_Level = lvl, fi_writer = ds_next st\<rparr> new"
proof -
  obtain lvl where lvl: "level_of_name (xf_Level x) = Some lvl"
    using assms(1) by (cases "level_of_name (xf_Level x)") (auto simp: load_filter_def Let_def split: if_splits)
  obtain ao good st1 where mk: "xmlToFileLogWriter R (xf_Property x) True st = Ret ((ao, good), st1)"
    using assms(1-3) lvl
    by (cases "xmlToFileLogWriter R (xf_Property x) True st") (auto simp: load_filter_def make_writer_def Let_def split: if_splits)
  have g: "good" using assms(1-3) lvl mk by (auto simp: load_filter_def make_writer_def Let_def split: if_splits)
  from file_writer_made [OF mk assms(4,5) g] obtain w where
    w: "ao = Some (ds_next st)" "allocated st (WFile w) st1" "fw_filename w = p_file f" by blast
  have "new' = al_set (xf_Tag x) \<lparr>fi_Level = lvl, fi_writer = ds_next st\<rparr> new \<and> st' = set_category cat ao st1"
    using assms(1-3) lvl mk g w(1) by (auto simp: load_filter_def make_writer_def Let_def split: if_splits)
  moreover have "allocated st (WFile (w\<lparr>fw_ScribeCategory := cat\<rparr>)) (set_category cat ao st1)"
    using w(1,2) by (simp add: set_category_def allocated_def)
  ultimately show ?thesis using lvl w(3) by (metis FileLogWriter.select_convs(4) FileLogWriter.surjective FileLogWriter.update_convs(18))
qed

lemma foldl_al_set: "distinct (map fst (log @ xs)) \<Longrightarrow> foldl (\<lambda>log (k, v). al_set k v log) log xs = log @ xs"
proof (induction xs arbitrary: log)
  case (Cons kv xs)
  obtain k v where kv: "kv = (k, v)" by fastforce
  then have "k \<notin> fst ` set log" using Cons.prems by auto
  then show ?case using Cons.IH [of "log @ [(k, v)]"] Cons.prems kv by (simp add: al_set_notin)
qed simp

lemma load_console_filter:
  assumes "load_filter R dial cat x (new, st) = Ret (new', st')" "xf_Type x = ''console''" "xf_Enabled x \<noteq> ''false''"
    and "xf_Property x = [\<lparr>xp_Name = ''format'', xp_Value = fmt\<rparr>]"
  shows "\<exists>lvl. level_of_name (xf_Level x) = Some lvl
           \<and> allocated st (WConsole (cw_SetFormat (trim_value fmt) NewConsoleLogWriter)) st'
           \<and> new' = al_set (xf_Tag x) \<lparr>fi_Level = lvl, fi_writer = ds_next st\<rparr> new"
  using assms
  by (auto simp: load_filter_def make_writer_def xmlToConsoleLogWriter_def new_writer_def allocated_def Let_def
      split: if_splits option.splits)

lemma load_console_off:
  assumes "load_filter R dial cat x (new, st) = Ret (new', st')" "xf_Type x = ''console''" "xf_Enabled x = ''false''"
    and "xf_Property x = [\<lparr>xp_Name = ''format'', xp_Value = fmt\<rparr>]"
  shows "new' = new \<and> same_writers st st'"
  using assms
  by (auto simp: load_filter_def make_writer_def xmlToConsoleLogWriter_def new_writer_def same_writers_def Let_def
      split: if_splits option.splits)

text \<open>The names of the two log files.\<close>

definition info_path :: "gdConfig \<Rightarrow> string" where
  "info_path g = trim_value (g_LogDir g @ ''/'' @ getInfoFileName (g_BinName g) (g_Port g))"

definition warn_path :: "gdConfig \<Rightarrow> string" where
  "warn_path g = trim_value (g_LogDir g @ ''/'' @ getWarnFileName (g_BinName g) (g_Port g))"

text \<open>The logger, with the console or without.\<close>

definition gd_logger :: "bool \<Rightarrow> Level \<Rightarrow> nat \<Rightarrow> nat \<Rightarrow> Logger" where
  "gd_logger stdout lvl a b =
     (if stdout then [(''stdout'', \<lparr>fi_Level = INFO, fi_writer = a\<rparr>)] else []) @
     [(''service'', \<lparr>fi_Level = lvl, fi_writer = b\<rparr>), (''service_err'', \<lparr>fi_Level = WARNING, fi_writer = b + 1\<rparr>)]"

lemma gd_console_loaded:
  assumes "load_filter R dial cat (gd_filters g ! 0) ([], st) = Ret (new, st')"
  shows "\<exists>a c. a \<noteq> ds_next st' \<and> a \<noteq> ds_next st' + 1 \<and> (g_Stdout g \<noteq> ''false'' \<longrightarrow> ds_heap st' a = WConsole c)
    \<and> new = (if g_Stdout g \<noteq> ''false'' then [(''stdout'', \<lparr>fi_Level = INFO, fi_writer = a\<rparr>)] else [])"
proof -
  define x where "x = gd_filters g ! 0"
  have x: "xf_Type x = ''console''" "xf_Enabled x = g_Stdout g" "xf_Level x = ''INFO''" "xf_Tag x = ''stdout''"
    "xf_Property x = [\<lparr>xp_Name = ''format'', xp_Value = g_Format g\<rparr>]"
    by (simp_all add: x_def gd_filters_def Let_def)
  note l = assms [folded x_def]
  show ?thesis
  proof (cases "g_Stdout g = ''false''")
    case True
    with load_console_off [OF l x(1) _ x(5)] x(2) show ?thesis by (intro exI [of _ "ds_next st' + 2"]) simp
  next
    case False
    with load_console_filter [OF l x(1) _ x(5)] x(2-4) show ?thesis
      by (intro exI [of _ "ds_next st"]) (auto simp: allocated_def level_of_name_def)
  qed
qed

lemma gd_filters_loaded:
  assumes "g_LogDir g \<noteq> []" "g_RotateType g \<noteq> ''filename''"
    and "load_filters R dial cat (gd_filters g) ([], st) = Ret (new, st')"
  shows "\<exists>lvl a b c w1 w2. level_of_name (g_LogLevel g) = Some lvl \<and> new = gd_logger (g_Stdout g \<noteq> ''false'') lvl a b
    \<and> a \<noteq> b \<and> a \<noteq> b + 1 \<and> (g_Stdout g \<noteq> ''false'' \<longrightarrow> ds_heap st' a = WConsole c)
    \<and> ds_heap st' b = WFile w1 \<and> fw_filename w1 = info_path g
    \<and> ds_heap st' (b + 1) = WFile w2 \<and> fw_filename w2 = warn_path g"
proof -
  define x1 x2 x3 where xs: "x1 = gd_filters g ! 0" "x2 = gd_filters g ! 1" "x3 = gd_filters g ! 2"
  have x: "gd_filters g = [x1, x2, x3]" by (simp add: xs gd_filters_def Let_def)
  have X2: "xf_Type x2 = ''file''" "xf_Enabled x2 \<noteq> ''false''" "xf_Level x2 = g_LogLevel g" "xf_Tag x2 = ''service''"
    and X3: "xf_Type x3 = ''file''" "xf_Enabled x3 \<noteq> ''false''" "xf_Level x3 = ''WARNING''" "xf_Tag x3 = ''service_err''"
    using assms(1) by (simp_all add: xs gd_filters_def Let_def)
  obtain n1 s1 n2 s2 where
    1: "load_filter R dial cat x1 ([], st) = Ret (n1, s1)" and
    2: "load_filter R dial cat x2 (n1, s1) = Ret (n2, s2)" and
    3: "load_filter R dial cat x3 (n2, s2) = Ret (new, st')"
    using assms(3) by (auto simp: x)
  obtain f2 t2 where p2: "props_loop ''file'' file_prop (xf_Property x2) no_props s1 = (f2, t2)" "same_writers s1 t2" "p_file f2 = info_path g"
    using gd_file_props [OF assms(2)] unfolding info_path_def xs gd_filters_def Let_def by fastforce
  obtain f3 t3 where p3: "props_loop ''file'' file_prop (xf_Property x3) no_props s2 = (f3, t3)" "same_writers s2 t3" "p_file f3 = warn_path g"
    using gd_file_props [OF assms(2)] unfolding warn_path_def xs gd_filters_def Let_def by fastforce
  obtain a c where a1: "a \<noteq> ds_next s1" "a \<noteq> ds_next s1 + 1" "g_Stdout g \<noteq> ''false'' \<longrightarrow> ds_heap s1 a = WConsole c"
    "n1 = (if g_Stdout g \<noteq> ''false'' then [(''stdout'', \<lparr>fi_Level = INFO, fi_writer = a\<rparr>)] else [])"
    using gd_console_loaded [of R dial cat g st n1 s1] 1 xs(1) by blast
  obtain l2 w1 where a2: "level_of_name (g_LogLevel g) = Some l2" "allocated s1 (WFile w1) s2" "fw_filename w1 = info_path g"
    "n2 = al_set ''service'' \<lparr>fi_Level = l2, fi_writer = ds_next s1\<rparr> n1"
    using load_file_filter [OF 2 X2(1,2) p2(1,2)] p2(3) X2 by auto
  obtain l3 w2 where a3: "level_of_name ''WARNING'' = Some l3" "allocated s2 (WFile w2) st'" "fw_filename w2 = warn_path g"
    "new = al_set ''service_err'' \<lparr>fi_Level = l3, fi_writer = ds_next s2\<rparr> n2"
    using load_file_filter [OF 3 X3(1,2) p3(1,2)] p3(3) X3 by auto
  have "l3 = WARNING" using a3(1) by (simp add: level_of_name_def)
  then have "new = gd_logger (g_Stdout g \<noteq> ''false'') l2 a (ds_next s1)"
    using a1(4) a2(2,4) a3(4) by (simp add: allocated_def gd_logger_def)
  moreover have "ds_heap st' (ds_next s1) = WFile w1" "ds_heap st' (ds_next s1 + 1) = WFile w2"
    "g_Stdout g \<noteq> ''false'' \<longrightarrow> ds_heap st' a = WConsole c"
    using a1(1-3) a2(2) a3(2) by (simp_all add: allocated_def)
  ultimately show ?thesis using a1(1,2) a2(1,3) a3(3) by blast
qed

lemma gd_logger_passing:
  assumes "a \<noteq> b" "a \<noteq> b + 1"
  shows "passing l a (gd_logger stdout lvl a b) = (if stdout \<and> INFO \<le> l then 1 else 0)"
    and "passing l b (gd_logger stdout lvl a b) = (if lvl \<le> l then 1 else 0)"
    and "passing l (b + 1) (gd_logger stdout lvl a b) = (if WARNING \<le> l then 1 else 0)"
  using assms by (auto simp: gd_logger_def passing_def)

lemma initLogConfig_loads:
  assumes "initLogConfig R dial exe g st = Ret (None, g', st')"
  shows "\<exists>s1 new s2. load_filters R dial [] (gd_filters g') ([], s1) = Ret (new, s2)
    \<and> st' = s2\<lparr>ds_Global := foldl (\<lambda>log (k, v). al_set k v log) [] (rt_order R new)\<rparr> \<and> g' = g\<lparr>g_BinName := g_BinName g'\<rparr>"
proof -
  have L: "LoadConfigurationByXml R dial \<lparr>xc_ScribeCategory = [], xc_Filter = gd_filters g'\<rparr> st = Ret st'" and g: "g' = g\<lparr>g_BinName := g_BinName g'\<rparr>"
    using assms by (auto simp: initLogConfig_def Let_def split: if_splits sum.splits)
  from L obtain s1 new s2 where "load_filters R dial [] (gd_filters g') ([], s1) = Ret (new, s2)"
    "st' = s2\<lparr>ds_Global := foldl (\<lambda>log (k, v). al_set k v log) [] (rt_order R new)\<rparr>"
    by (auto simp: LoadConfigurationByXml_def loadConfiguration_def)
  with g show ?thesis by blast
qed

text \<open>
  C34.  When \<open>initLogConfig\<close> returns without an error for an application that logs to a directory (and whose type of rotation
  is not the property \<open>filename\<close>), the logger has exactly these filters: the console from \<open>INFO\<close> on, unless
  \<open>stdout\<close> is \<open>false\<close>, the service file from the configured level on and the error file from \<open>WARNING\<close> on, each with a writer
  of its own, the files under the names built from the directory, the program (configured, or found from the
  executable) and the port.  Hence a record of level \<open>l\<close> reaches each of the writers once or not at all, by these levels.
\<close>

theorem init_log_routes:
  assumes "\<forall>log. mset (rt_order R log) = mset log" "g_LogDir g \<noteq> []" "g_RotateType g \<noteq> ''filename''"
    and "initLogConfig R dial exe g st = Ret (None, g', st')"
  shows "\<exists>lvl a b c w1 w2. level_of_name (g_LogLevel g) = Some lvl
     \<and> mset (ds_Global st') = mset (gd_logger (g_Stdout g \<noteq> ''false'') lvl a b)
     \<and> a \<noteq> b \<and> a \<noteq> b + 1 \<and> (g_Stdout g \<noteq> ''false'' \<longrightarrow> ds_heap st' a = WConsole c)
     \<and> ds_heap st' b = WFile w1 \<and> fw_filename w1 = info_path g'
     \<and> ds_heap st' (b + 1) = WFile w2 \<and> fw_filename w2 = warn_path g'
     \<and> (\<forall>l. passing l a (ds_Global st') = (if g_Stdout g \<noteq> ''false'' \<and> INFO \<le> l then 1 else 0)
          \<and> passing l b (ds_Global st') = (if lvl \<le> l then 1 else 0)
          \<and> passing l (b + 1) (ds_Global st') = (if WARNING \<le> l then 1 else 0))"
proof -
  obtain s1 new s2 where l: "load_filters R dial [] (gd_filters g') ([], s1) = Ret (new, s2)"
    "st' = s2\<lparr>ds_Global := foldl (\<lambda>log (k, v). al_set k v log) [] (rt_order R new)\<rparr>" "g' = g\<lparr>g_BinName := g_BinName g'\<rparr>"
    using initLogConfig_loads [OF assms(4)] by blast
  have g': "g_LogDir g' = g_LogDir g" "g_RotateType g' = g_RotateType g" "g_Stdout g' = g_Stdout g" "g_LogLevel g' = g_LogLevel g"
    by (subst l(3), simp)+
  from gd_filters_loaded [of g' R dial "[]" s1 new s2] assms(2,3) g' l(1) obtain lvl a b c w1 w2 where
    w: "level_of_name (g_LogLevel g) = Some lvl" "new = gd_logger (g_Stdout g \<noteq> ''false'') lvl a b" "a \<noteq> b" "a \<noteq> b + 1"
    "g_Stdout g \<noteq> ''false'' \<longrightarrow> ds_heap s2 a = WConsole c"
    "ds_heap s2 b = WFile w1" "fw_filename w1 = info_path g'" "ds_heap s2 (b + 1) = WFile w2" "fw_filename w2 = warn_path g'" by metis
  have p: "mset (rt_order R new) = mset new" using assms(1) by blast
  have "distinct (map fst new)" by (simp add: w(2) gd_logger_def)
  then have "distinct (map fst (rt_order R new))" using p by (metis mset_eq_imp_distinct_iff mset_map)
  then have G: "ds_Global st' = rt_order R new" using foldl_al_set [of "[]" "rt_order R new"] l(2) by simp
  then have m: "mset (ds_Global st') = mset (gd_logger (g_Stdout g \<noteq> ''false'') lvl a b)" using p w(2) by simp
  have h: "ds_heap st' = ds_heap s2" using l(2) by simp
  have pas: "\<forall>l. passing l a (ds_Global st') = (if g_Stdout g \<noteq> ''false'' \<and> INFO \<le> l then 1 else 0)
          \<and> passing l b (ds_Global st') = (if lvl \<le> l then 1 else 0)
          \<and> passing l (b + 1) (ds_Global st') = (if WARNING \<le> l then 1 else 0)"
    unfolding passing_perm [OF m] gd_logger_passing [OF w(3,4)] by simp
  show ?thesis unfolding h using w(1,3-9) m pas by blast
qed

definition demo_config :: gdConfig where
  "demo_config = \<lparr>g_BinName = ''app'', g_Port = 0, g_LogLevel = ''INFO'', g_LogDir = ''log'', g_Stdout = ''true'',
     g_Format = ''%M'', g_Rotate = ''false'', g_Maxsize = [], g_MaxLines = [], g_RotateType = ''daily''\<rparr>"

lemma demo_config_loads:
  "case initLogConfig demo_runtime (\<lambda>p e. False) (Inl []) demo_config demo_state of
     Ret (e, g, st) \<Rightarrow> e = None | _ \<Rightarrow> False"
  by code_simp

theorem init_log_routes_witness:
  "\<exists>g st b w. initLogConfig demo_runtime (\<lambda>p e. False) (Inl []) demo_config demo_state = Ret (None, g, st)
     \<and> ds_heap st b = WFile w \<and> fw_filename w = ''log/app.log''
     \<and> passing INFO b (ds_Global st) = 1 \<and> passing DEBUG b (ds_Global st) = 0"
proof -
  obtain g st where r: "initLogConfig demo_runtime (\<lambda>p e. False) (Inl []) demo_config demo_state = Ret (None, g, st)"
    using demo_config_loads
    by (cases "initLogConfig demo_runtime (\<lambda>p e. False) (Inl []) demo_config demo_state") auto
  have o: "\<forall>log. mset (rt_order demo_runtime log) = mset log" by (simp add: demo_runtime_def)
  have lvl: "level_of_name (g_LogLevel demo_config) = Some INFO" by (simp add: demo_config_def level_of_name_def)
  have path: "info_path demo_config = ''log/app.log''"
    by (simp add: info_path_def demo_config_def getInfoFileName_def trim_value_def strings_Trim_def strings_TrimLeft_def strings_TrimRight_def)
  have d: "g_LogDir demo_config \<noteq> []" "g_RotateType demo_config \<noteq> ''filename''" by (simp_all add: demo_config_def)
  have g: "g = demo_config" using r by (auto simp: initLogConfig_def Let_def demo_config_def split: if_splits)
  from init_log_routes [OF o d r] show ?thesis
  proof (elim exE conjE)
    fix l a b c w1 w2
    assume "level_of_name (g_LogLevel demo_config) = Some l" "ds_heap st b = WFile w1" "fw_filename w1 = info_path g"
      and p: "\<forall>l'. passing l' a (ds_Global st) = (if g_Stdout demo_config \<noteq> ''false'' \<and> INFO \<le> l' then 1 else 0)
          \<and> passing l' b (ds_Global st) = (if l \<le> l' then 1 else 0)
          \<and> passing l' (b + 1) (ds_Global st) = (if WARNING \<le> l' then 1 else 0)"
    moreover have "passing INFO b (ds_Global st) = 1" "passing DEBUG b (ds_Global st) = 0"
      using p calculation(1) lvl by (simp_all add: level_defs)
    ultimately show ?thesis using r path g by (intro exI [of _ g] exI [of _ st] exI [of _ b] exI [of _ w1]) simp
  qed
qed

text \<open>A configuration that leaves \<open>stdout\<close> out ends the process.\<close>

lemma missing_stdout_exits:
  assumes "g_BinName g \<noteq> []" "g_LogLevel g = ''INFO''" "g_Stdout g = []" "Logger_Close R (ds_Global st) st = Ret st1"
  shows "initLogConfig R dial exe g st = Exits 1"
  using assms
  by (simp add: initLogConfig_def LoadConfigurationByXml_def loadConfiguration_def gd_filters_def load_filter_def Let_def)

text \<open>The name of a program in the root directory loses its first letter.\<close>

lemma root_program_name: "bin_name ''/gd'' = Inr ''d''"
  by code_simp

text \<open>A rotation limit that is only a suffix is no limit.\<close>

lemma suffix_without_number: "strToNumSuffix ''K'' 1000 = 0"
  by code_simp

end
