(* ===== verification/HelperStats.thy ===== *)
theory HelperStats
  imports Utls
begin

text \<open>
  The run-time figures of the operations console (\<open>runtime/helper/runtime_stats.go\<close>), and
  \<open>HumanSize\<close> of \<open>utls/utls.go\<close>.

  The memory statistics are the fields of \<open>runtime.MemStats\<close> the code reads; counters have the width
  they have in Go.  Floating-point division and its printing, \<open>json.Marshal\<close> and \<open>Time.String\<close> are arguments.

  The property of this theory says that the lines of \<open>RuntimeStats\<close> report every pause of the collector once.
\<close>

section \<open>Figures\<close>

record MemStats =
  ms_Alloc :: uint64
  ms_Sys :: uint64
  ms_Mallocs :: uint64
  ms_HeapAlloc :: uint64
  ms_HeapSys :: uint64
  ms_HeapIdle :: uint64
  ms_HeapReleased :: uint64
  ms_HeapObjects :: uint64
  ms_LastGC :: uint64
  ms_PauseNs :: "uint64 list"
  ms_NumGC :: uint32

text \<open>\<open>float64(_)\<close>, \<open>/\<close> and the verb \<open>%.nf\<close>.\<close>

record 'f printer =
  fp_of :: "uint64 \<Rightarrow> 'f"
  fp_div :: "'f \<Rightarrow> 'f \<Rightarrow> 'f"
  fp_text :: "nat \<Rightarrow> 'f \<Rightarrow> string"

definition HumanSize :: "'f printer \<Rightarrow> uint64 \<Rightarrow> string" where
  "HumanSize F s =
     (let k = 1024; m = 1024 * k; g = 1024 * m
      in if s div g > 0 then fp_text F 1 (fp_div F (fp_of F s) (fp_of F g)) @ ''GB''
         else if s div m > 0 then fp_text F 1 (fp_div F (fp_of F s) (fp_of F m)) @ ''MB''
         else if s div k > 0 then fp_text F 1 (fp_div F (fp_of F s) (fp_of F k)) @ ''KB''
         else itoa_nat (unat s) @ ''B'')"

definition nsToMs :: "'f printer \<Rightarrow> uint64 \<Rightarrow> 'f" where
  "nsToMs F ns = fp_div F (fp_of F ns) (fp_of F 1000000)"

text \<open>The loop over \<open>i\<close> of type \<open>uint32\<close>, with \<open>left\<close> turns to go.\<close>

fun pause_loop :: "MemStats \<Rightarrow> uint32 \<Rightarrow> nat \<Rightarrow> uint64 list \<Rightarrow> uint64 list" where
  "pause_loop m2 i 0 p = p"
| "pause_loop m2 i (Suc left) p =
     pause_loop m2 (i + 1) left (p @ [ms_PauseNs m2 ! unat ((ms_NumGC m2 - i + 255) mod 256)])"

definition gcPause :: "MemStats \<Rightarrow> MemStats \<Rightarrow> uint64 list" where
  "gcPause m1 m2 =
     (let gc = ms_NumGC m2 - ms_NumGC m1 in if gc > 0 then pause_loop m2 0 (unat gc) [] else [])"

fun max_avg_loop :: "uint64 list \<Rightarrow> uint64 \<Rightarrow> uint64 \<Rightarrow> uint64 \<times> uint64" where
  "max_avg_loop [] mx avg = (mx, avg)"
| "max_avg_loop (u # a) mx avg = max_avg_loop a (if u > mx then u else mx) (avg + u)"

definition calcMaxAvg :: "uint64 list \<Rightarrow> uint64 \<times> uint64" where
  "calcMaxAvg a =
     (if length a = 0 then (0, 0)
      else (case max_avg_loop a 0 0 of (mx, avg) \<Rightarrow> (mx, avg div of_nat (length a))))"

definition formatGCPause :: "'f printer \<Rightarrow> MemStats \<Rightarrow> MemStats \<Rightarrow> string" where
  "formatGCPause F m1 m2 =
     (case calcMaxAvg (gcPause m1 m2) of (mx, avg) \<Rightarrow>
        fp_text F 2 (nsToMs F mx) @ ''+'' @ fp_text F 2 (nsToMs F avg) @ ''ms'')"

definition FormatMemStats :: "'f printer \<Rightarrow> nat \<Rightarrow> MemStats \<Rightarrow> MemStats \<Rightarrow> string" where
  "FormatMemStats F goroutines m1 m2 =
     ''Goroutines: '' @ itoa_nat goroutines @ '', GCPause: '' @ formatGCPause F m1 m2
     @ '', HeapObjects: '' @ itoa_nat (unat (ms_HeapObjects m2)) @ '', HeapAlloc: '' @ HumanSize F (ms_HeapAlloc m2)
     @ '', Mallocs: '' @ itoa_nat (unat (ms_Mallocs m2))"

text \<open>
  \<open>RuntimeStats\<close> never returns; the lines it has handed out after the readings of the first turns, each with
  the number of goroutines.
\<close>

fun stats_turns :: "'f printer \<Rightarrow> MemStats \<Rightarrow> (nat \<times> MemStats) list \<Rightarrow> string list" where
  "stats_turns F m1 [] = []"
| "stats_turns F m1 ((n, m2) # rs) = FormatMemStats F n m1 m2 # stats_turns F m2 rs"

definition RuntimeStats :: "'f printer \<Rightarrow> MemStats \<Rightarrow> (nat \<times> MemStats) list \<Rightarrow> string list" where
  "RuntimeStats F m1 readings = stats_turns F m1 readings"

definition GcStats :: "(int64 \<Rightarrow> string) \<Rightarrow> MemStats \<Rightarrow> string" where
  "GcStats time_string m =
     (let lastPause = ms_PauseNs m ! unat ((ms_NumGC m + 255) mod 256) div 1000 div 1000
      in Itoa (sint lastPause) @ ''ms,'' @ time_string (ms_LastGC m div 1000 div 1000 div 1000))"

definition MemStats2 :: "(MemStats \<Rightarrow> string) \<Rightarrow> MemStats \<Rightarrow> string" where
  "MemStats2 marshal m = marshal m"

definition mbytes :: "uint64 \<Rightarrow> string" where
  "mbytes v = Itoa (sint (v div 1024 div 1024))"

definition MemStats_line :: "MemStats \<Rightarrow> string" where
  "MemStats_line m =
     strings_Join (map mbytes [ms_Sys m, ms_Alloc m, ms_HeapSys m, ms_HeapAlloc m, ms_HeapIdle m, ms_HeapReleased m]) '',''"

section \<open>Every pause is reported once\<close>

text \<open>
  What \<open>runtime.MemStats\<close> documents: \<open>NumGC\<close> counts the collections, here \<open>n\<close> of them, in 32 bits, and
  \<open>PauseNs\<close> is a circular buffer in which the pause of collection \<open>k\<close> of the last 256 is found at
  \<open>(k + 255) % 256\<close>.
\<close>

definition pause_ring :: "(nat \<Rightarrow> uint64) \<Rightarrow> nat \<Rightarrow> MemStats \<Rightarrow> bool" where
  "pause_ring hist n m \<longleftrightarrow>
     ms_NumGC m = of_nat n \<and> length (ms_PauseNs m) = 256
     \<and> (\<forall>k. 0 < k \<and> k \<le> n \<and> n < k + 256 \<longrightarrow> ms_PauseNs m ! ((k + 255) mod 256) = hist k)"

lemma pause_loop_map:
  "pause_loop m2 i left p =
     p @ map (\<lambda>j. ms_PauseNs m2 ! unat ((ms_NumGC m2 - (i + of_nat j) + 255) mod 256)) [0..<left]"
proof (induction left arbitrary: i p)
  case (Suc left)
  have "[0..<Suc left] = 0 # map Suc [0..<left]" by (simp add: upt_conv_Cons map_Suc_upt)
  then show ?case by (simp add: Suc.IH o_def algebra_simps)
qed simp

text \<open>The index survives the wrap-around of the counter since 256 divides \<open>2 ^ 32\<close>.\<close>

lemma mod_256_wrap: "(x mod 4294967296) mod 256 = (x :: nat) mod 256"
  by (rule mod_mod_cancel) simp

lemma ring_index:
  assumes "j \<le> n"
  shows "unat ((of_nat n - of_nat j + 255 :: uint32) mod 256) = (n - j + 255) mod 256"
proof -
  have "(of_nat n - of_nat j + 255 :: uint32) = of_nat (n - j + 255)" using assms by (simp add: of_nat_diff)
  moreover have "unat (of_nat k mod 256 :: uint32) = k mod 256" for k
    by (simp add: unat_mod unat_of_nat mod_256_wrap)
  ultimately show ?thesis by (simp only:)
qed

lemma gcPause_history:
  assumes "pause_ring hist n m1" "pause_ring hist n' m2" "n \<le> n'" "n' - n \<le> 256"
  shows "gcPause m1 m2 = map hist (rev [n + 1..<n' + 1])"
proof -
  have gc: "ms_NumGC m2 - ms_NumGC m1 = of_nat (n' - n)" using assms by (simp add: pause_ring_def of_nat_diff)
  have u: "unat (of_nat (n' - n) :: uint32) = n' - n"
    using assms(4) by (simp add: unat_of_nat)
  have slot: "ms_PauseNs m2 ! unat ((ms_NumGC m2 - (0 + of_nat j) + 255) mod 256) = hist (n' - j)" if "j < n' - n" for j
  proof -
    have "unat ((ms_NumGC m2 - (0 + of_nat j) + 255) mod 256) = (n' - j + 255) mod 256"
      using ring_index [of j n'] that assms(2) by (simp add: pause_ring_def)
    moreover have "ms_PauseNs m2 ! ((n' - j + 255) mod 256) = hist (n' - j)"
    proof -
      have "0 < n' - j \<and> n' - j \<le> n' \<and> n' < n' - j + 256" using assms(4) that by linarith
      then show ?thesis using assms(2) unfolding pause_ring_def by blast
    qed
    ultimately show ?thesis by simp
  qed
  have "pause_loop m2 0 (n' - n) [] = map (\<lambda>j. hist (n' - j)) [0..<n' - n]"
    using slot by (simp add: pause_loop_map)
  also have "\<dots> = map hist (rev [n + 1..<n' + 1])"
    by (rule nth_equalityI) (use assms(3) in \<open>auto simp: rev_nth Suc_diff_Suc simp del: upt_Suc\<close>)
  finally have run: "pause_loop m2 0 (n' - n) [] = map hist (rev [n + 1..<n' + 1])" .
  show ?thesis
  proof (cases "n' = n")
    case True
    then show ?thesis using gc by (simp add: gcPause_def)
  next
    case False
    then have "unat (of_nat (n' - n) :: uint32) \<noteq> 0" using u assms(3) by simp
    then have "(of_nat (n' - n) :: uint32) > 0" unfolding word_greater_zero_iff by (metis unat_0)
    then show ?thesis using run gc u by (simp add: gcPause_def Let_def)
  qed
qed

lemma max_avg_loop_eq: "max_avg_loop a mx avg = (fold max a mx, avg + sum_list a)"
  by (induction a arbitrary: mx avg) (auto simp: max_def algebra_simps not_less intro!: arg_cong [of _ _ "fold max _"])

text \<open>The longest pause and the average of some collections, rounded down.\<close>

definition longest :: "uint64 list \<Rightarrow> uint64" where
  "longest a = foldr max a 0"

lemma fold_max_longest: "fold max a (mx :: uint64) = max mx (longest a)"
  by (induction a arbitrary: mx) (simp_all add: longest_def max.assoc max.left_commute max.commute)

lemma of_nat_div_word:
  assumes "x < 2 ^ 64" "y < 2 ^ 64"
  shows "(of_nat x :: uint64) div of_nat y = of_nat (x div y)"
proof -
  have "unat ((of_nat x :: uint64) div of_nat y) = x div y"
    using assms by (simp add: unat_div unat_of_nat)
  then show ?thesis by (metis of_nat_unat ucast_id)
qed

lemma calcMaxAvg_eq:
  assumes "sum_list (map unat a) < 2 ^ 64" "length a < 2 ^ 64"
  shows "calcMaxAvg a = (longest a, of_nat (sum_list (map unat a) div length a))"
proof (cases "a = []")
  case False
  have "sum_list a = of_nat (sum_list (map unat a))" by (induction a) simp_all
  then show ?thesis
    using False assms by (simp add: calcMaxAvg_def max_avg_loop_eq fold_max_longest of_nat_div_word)
qed (simp add: calcMaxAvg_def longest_def)

text \<open>
  The readings of a run: the number of goroutines, the number of collections so far and the statistics. Between two
  readings there are at most 256 collections, and their pauses add up to less than \<open>2 ^ 64\<close> nanoseconds.
\<close>

fun readings_ok :: "(nat \<Rightarrow> uint64) \<Rightarrow> nat \<Rightarrow> (nat \<times> nat \<times> MemStats) list \<Rightarrow> bool" where
  "readings_ok hist n [] = True"
| "readings_ok hist n ((goroutines, n', m) # rs) =
     (pause_ring hist n' m \<and> n \<le> n' \<and> n' - n \<le> 256 \<and> sum_list (map (\<lambda>k. unat (hist k)) [n + 1..<n' + 1]) < 2 ^ 64
      \<and> readings_ok hist n' rs)"

text \<open>The collections each line of the run is about.\<close>

fun since_last :: "nat \<Rightarrow> (nat \<times> nat \<times> MemStats) list \<Rightarrow> nat list list" where
  "since_last n [] = []"
| "since_last n ((goroutines, n', m) # rs) = [n + 1..<n' + 1] # since_last n' rs"

definition stats_line :: "'f printer \<Rightarrow> (nat \<Rightarrow> uint64) \<Rightarrow> nat list \<Rightarrow> nat \<times> nat \<times> MemStats \<Rightarrow> string" where
  "stats_line F hist ks r =
     (case r of (goroutines, n', m) \<Rightarrow>
        ''Goroutines: '' @ itoa_nat goroutines
        @ '', GCPause: '' @ fp_text F 2 (nsToMs F (longest (map hist ks)))
        @ ''+'' @ fp_text F 2 (nsToMs F (of_nat (sum_list (map (\<lambda>k. unat (hist k)) ks) div length ks))) @ ''ms''
        @ '', HeapObjects: '' @ itoa_nat (unat (ms_HeapObjects m)) @ '', HeapAlloc: '' @ HumanSize F (ms_HeapAlloc m)
        @ '', Mallocs: '' @ itoa_nat (unat (ms_Mallocs m)))"

fun final_count :: "nat \<Rightarrow> (nat \<times> nat \<times> MemStats) list \<Rightarrow> nat" where
  "final_count n [] = n"
| "final_count n ((goroutines, n', m) # rs) = final_count n' rs"

lemma since_last_partition:
  "readings_ok hist n rs \<Longrightarrow> concat (since_last n rs) = [n + 1..<final_count n rs + 1] \<and> n \<le> final_count n rs"
proof (induction hist n rs rule: readings_ok.induct)
  case (2 hist n goroutines n' m rs)
  then have "concat (since_last n' rs) = [n' + 1..<final_count n' rs + 1]" "n \<le> n'" "n' \<le> final_count n' rs" by simp_all
  moreover have "[n + 1..<final_count n' rs + 1] = [n + 1..<n' + 1] @ [n' + 1..<final_count n' rs + 1]"
    using calculation(2,3) upt_add_eq_append [of "n + 1" "n' + 1" "final_count n' rs - n'"] by simp
  ultimately show ?case by (simp del: upt_Suc)
qed simp

lemma longest_append: "longest (a @ b) = max (longest a) (longest b)"
  by (induction a) (simp_all add: longest_def max.assoc)

lemma longest_rev: "longest (rev a) = longest a"
  by (induction a) (simp_all add: longest_append max.commute, simp add: longest_def max.commute)

lemma formatGCPause_history:
  assumes "pause_ring hist n m1" "pause_ring hist n' m2" "n \<le> n'" "n' - n \<le> 256"
    "sum_list (map (\<lambda>k. unat (hist k)) [n + 1..<n' + 1]) < 2 ^ 64"
  shows "formatGCPause F m1 m2 =
    fp_text F 2 (nsToMs F (longest (map hist [n + 1..<n' + 1])))
    @ ''+'' @ fp_text F 2 (nsToMs F (of_nat (sum_list (map (\<lambda>k. unat (hist k)) [n + 1..<n' + 1]) div length [n + 1..<n' + 1]))) @ ''ms''"
proof -
  let ?ks = "[n + 1..<n' + 1]"
  have sum: "sum_list (map unat (map hist (rev ?ks))) = sum_list (map (\<lambda>k. unat (hist k)) ?ks)"
    by (simp only: rev_map [symmetric] sum_list_rev map_map comp_def)
  have "calcMaxAvg (map hist (rev ?ks)) = (longest (map hist (rev ?ks)), of_nat (sum_list (map unat (map hist (rev ?ks))) div length (map hist (rev ?ks))))"
  proof (rule calcMaxAvg_eq)
    show "sum_list (map unat (map hist (rev ?ks))) < 2 ^ 64" using assms(5) by (simp only: sum)
    show "length (map hist (rev ?ks)) < 2 ^ 64" using assms(4) by (simp del: upt_Suc)
  qed
  then have "calcMaxAvg (gcPause m1 m2) = (longest (map hist ?ks), of_nat (sum_list (map (\<lambda>k. unat (hist k)) ?ks) div length ?ks))"
    unfolding gcPause_history [OF assms(1-4)] sum by (simp only: rev_map [symmetric] longest_rev length_map length_rev)
  then show ?thesis by (simp only: formatGCPause_def prod.case)
qed

lemma stats_turns_lines:
  "pause_ring hist n m0 \<Longrightarrow> readings_ok hist n rs \<Longrightarrow>
   stats_turns F m0 (map (\<lambda>(goroutines, n', m). (goroutines, m)) rs) = map2 (stats_line F hist) (since_last n rs) rs"
proof (induction hist n rs arbitrary: m0 rule: readings_ok.induct)
  case (2 hist n goroutines n' m rs)
  from 2(3) have ok: "pause_ring hist n' m" "n \<le> n'" "n' - n \<le> 256"
    "sum_list (map (\<lambda>k. unat (hist k)) [n + 1..<n' + 1]) < 2 ^ 64" "readings_ok hist n' rs" by (simp_all del: upt_Suc)
  show ?case
    using formatGCPause_history [OF 2(2) ok(1-4), of F] 2(1) [OF ok(1,5)]
    by (simp add: FormatMemStats_def stats_line_def del: upt_Suc)
qed simp

text \<open>
  C10.  The report of the collector's pauses.  While \<open>RuntimeStats\<close> runs, the collections between two of its
  readings number at most 256, and the statistics are as \<open>runtime.MemStats\<close> documents them.  Then
  each line has the longest and the average pause of exactly the collections since the line before it, and
  together the lines are about every collection since the first reading once, also when the 32-bit counter of collections
  wraps around.
\<close>

theorem RuntimeStats_reports_pauses_once:
  assumes "pause_ring hist n m0" "readings_ok hist n rs"
  shows "RuntimeStats F m0 (map (\<lambda>(goroutines, n', m). (goroutines, m)) rs) = map2 (stats_line F hist) (since_last n rs) rs
    \<and> concat (since_last n rs) = [n + 1..<final_count n rs + 1]"
  using stats_turns_lines [OF assms] since_last_partition [OF assms(2)] by (simp add: RuntimeStats_def)

text \<open>For the witness: pause \<open>k\<close> takes \<open>k\<close> milliseconds, and the counter wraps between the readings.\<close>

definition demo_hist :: "nat \<Rightarrow> uint64" where
  "demo_hist k = of_nat (k mod 256 * 1000000)"

definition demo_pauses :: "uint64 list" where
  "demo_pauses = map (\<lambda>i. of_nat ((i + 1) mod 256 * 1000000)) [0..<256]"

definition demo_stats :: "nat \<Rightarrow> MemStats" where
  "demo_stats n =
     \<lparr>ms_Alloc = 0, ms_Sys = 0, ms_Mallocs = 7, ms_HeapAlloc = 5, ms_HeapSys = 0, ms_HeapIdle = 0, ms_HeapReleased = 0,
      ms_HeapObjects = 3, ms_LastGC = 0, ms_PauseNs = demo_pauses, ms_NumGC = of_nat n\<rparr>"

lemma demo_ring: "pause_ring demo_hist n (demo_stats n)"
proof -
  have "demo_pauses ! ((k + 255) mod 256) = demo_hist k" for k
  proof -
    have "((k + 255) mod 256 + 1) mod 256 = (k + 255 + 1) mod (256 :: nat)" by (rule mod_add_left_eq)
    also have "\<dots> = k mod 256" by simp
    finally have "((k + 255) mod 256 + 1) mod 256 = k mod (256 :: nat)" .
    then show ?thesis unfolding demo_pauses_def demo_hist_def by (subst nth_map_upt) (simp, simp only: add_0)
  qed
  moreover have "length demo_pauses = 256" unfolding demo_pauses_def by (simp only: length_map length_upt)
  ultimately show ?thesis by (simp add: pause_ring_def demo_stats_def)
qed

definition demo_printer :: "nat printer" where
  "demo_printer = \<lparr>fp_of = unat, fp_div = (div), fp_text = (\<lambda>d x. itoa_nat x)\<rparr>"

lemma demo_hist_wrap:
  "map demo_hist [2 ^ 32, 2 ^ 32 + 1, 2 ^ 32 + 2, 2 ^ 32 + 3] = [0, 1000000, 2000000, 3000000]"
  by (simp add: demo_hist_def)

lemma demo_digits: "itoa_nat 1 = ''1''" "itoa_nat 3 = ''3''" "itoa_nat 4 = ''4''" "itoa_nat 5 = ''5''" "itoa_nat 7 = ''7''"
  by code_simp+

lemma demo_line:
  "stats_line demo_printer demo_hist [2 ^ 32, 2 ^ 32 + 1, 2 ^ 32 + 2, 2 ^ 32 + 3] (4, 2 ^ 32 + 3, demo_stats (2 ^ 32 + 3))
     = ''Goroutines: 4, GCPause: 3+1ms, HeapObjects: 3, HeapAlloc: 5B, Mallocs: 7''"
proof -
  have "map (\<lambda>k. unat (demo_hist k)) [2 ^ 32, 2 ^ 32 + 1, 2 ^ 32 + 2, 2 ^ 32 + 3] = [0, 1000000, 2000000, 3000000]"
    using demo_hist_wrap by simp
  then show ?thesis
    by (simp only: stats_line_def demo_hist_wrap prod.case)
       (simp add: longest_def max_def nsToMs_def demo_printer_def demo_stats_def HumanSize_def demo_digits [simplified])
qed

lemma demo_span: "[2 ^ 32 - 1 + 1..<2 ^ 32 + 3 + 1] = [2 ^ 32, 2 ^ 32 + 1, 2 ^ 32 + 2, 2 ^ 32 + (3 :: nat)]"
  by simp

lemma demo_readings: "readings_ok demo_hist (2 ^ 32 - 1) [(4, 2 ^ 32 + 3, demo_stats (2 ^ 32 + 3))]"
  unfolding readings_ok.simps demo_span using demo_hist_wrap by (simp add: demo_ring)

theorem RuntimeStats_reports_pauses_once_witness:
  "RuntimeStats demo_printer (demo_stats (2 ^ 32 - 1)) [(4, demo_stats (2 ^ 32 + 3))]
     = [''Goroutines: 4, GCPause: 3+1ms, HeapObjects: 3, HeapAlloc: 5B, Mallocs: 7'']
   \<and> ms_NumGC (demo_stats (2 ^ 32 + 3)) < ms_NumGC (demo_stats (2 ^ 32 - 1))"
proof -
  have "since_last (2 ^ 32 - 1) [(4, 2 ^ 32 + 3, demo_stats (2 ^ 32 + 3))] = [[2 ^ 32, 2 ^ 32 + 1, 2 ^ 32 + 2, 2 ^ 32 + 3]]"
    unfolding since_last.simps demo_span ..
  then have "RuntimeStats demo_printer (demo_stats (2 ^ 32 - 1)) [(4, demo_stats (2 ^ 32 + 3))]
      = [stats_line demo_printer demo_hist [2 ^ 32, 2 ^ 32 + 1, 2 ^ 32 + 2, 2 ^ 32 + 3] (4, 2 ^ 32 + 3, demo_stats (2 ^ 32 + 3))]"
    using RuntimeStats_reports_pauses_once [OF demo_ring demo_readings, of demo_printer] by simp
  moreover have "ms_NumGC (demo_stats (2 ^ 32 + 3)) < ms_NumGC (demo_stats (2 ^ 32 - 1))" by (simp add: demo_stats_def)
  ultimately show ?thesis unfolding demo_line by blast
qed

end
