(* ===== verification/Helper.thy ===== *)
theory Helper
  imports DlogWrapper HelperStats
begin

text \<open>
  The operations console (\<open>runtime/helper/helper.go\<close>): a TCP port that takes one command per line, sets the
  level of the logger, writes profiles to files and calls functions of the application.

  The functions of the application are arguments that return or panic with a new state of theirs.  What the profiler,
  the tracer and the memory statistics of the run-time give is read from \<open>Console\<close> at the clock of the
  file system.  A command that panics ends its connection, and \<open>WithRecover\<close> keeps the process.  If the logger
  itself panics or blocks, the outcome of the session says so.

  The property of this theory is about sessions: which level the logger has after one.
\<close>

section \<open>State\<close>

record 'w Helper =
  h_Host :: int
  h_listener :: "bool option"
  h_Updater :: "(string \<Rightarrow> string \<Rightarrow> string \<Rightarrow> int \<Rightarrow> 'w \<Rightarrow> bool go \<times> 'w) option"
  h_Finder :: "(string \<Rightarrow> 'w \<Rightarrow> (string \<times> string option) go \<times> 'w) option"
  h_Perfer :: "('w \<Rightarrow> string go \<times> 'w) option"
  h_Stater :: "('w \<Rightarrow> string go \<times> 'w) option"
  h_Deployer :: "(string list \<Rightarrow> 'w \<Rightarrow> string go \<times> 'w) option"

text \<open>
  The process around a session: the logger, values as the logger's \<open>fmt\<close> takes them, the contents the
  profiler gives by name and time, the error or contents of a trace and of a CPU profile, and the figures of the run-time.
\<close>

record 'a Console =
  co_W :: "'a caller"
  co_int :: "int \<Rightarrow> 'a"
  co_err :: "string \<Rightarrow> 'a"
  co_file :: "string \<Rightarrow> 'a"
  co_pprof :: "string \<Rightarrow> nat \<Rightarrow> string"
  co_trace :: "nat \<Rightarrow> string + string"
  co_cpu :: "nat \<Rightarrow> string + string"
  co_mem :: "nat \<Rightarrow> MemStats"
  co_goroutines :: "nat \<Rightarrow> nat"
  co_marshal :: "MemStats \<Rightarrow> string"
  co_time :: "int64 \<Rightarrow> string"
  co_numerr :: "string \<Rightarrow> string"

record 'w session =
  se_d :: dstate
  se_app :: 'w
  se_out :: string
  se_closed :: bool
  se_gcs :: nat
  se_slept :: "int64 list"

definition client_Write :: "string \<Rightarrow> 'w session \<Rightarrow> 'w session" where
  "client_Write s st = st\<lparr>se_out := se_out st @ s\<rparr>"

definition log_with :: "(dstate \<Rightarrow> dstate outcome) \<Rightarrow> 'w session \<Rightarrow> 'w session outcome" where
  "log_with call st = obind (call (se_d st)) (\<lambda>d. Ret (st\<lparr>se_d := d\<rparr>))"

definition set_fs :: "fs \<Rightarrow> 'w session \<Rightarrow> 'w session" where
  "set_fs f st = st\<lparr>se_d := (se_d st)\<lparr>ds_fs := f\<rparr>\<rparr>"

definition se_fs :: "'w session \<Rightarrow> fs" where
  "se_fs st = ds_fs (se_d st)"

definition co_os :: "'a Console \<Rightarrow> osenv" where
  "co_os C = rt_os (wr_R (co_W C))"

section \<open>Profiles\<close>

text \<open>The layout \<open>2006_01_02_03_04_05\<close>: \<open>03\<close> is the hour of a clock of twelve hours.\<close>

definition prof_stamp :: "int \<Rightarrow> int \<Rightarrow> string" where
  "prof_stamp tz t =
     (let c = civil_of tz t; h = c_hour c mod 12
      in strings_Join [fmt_0d 4 (c_year c), fmt_0d 2 (c_month c), fmt_0d 2 (c_day c), fmt_0d 2 (if h = 0 then 12 else h),
                       fmt_0d 2 (c_minute c), fmt_0d 2 (c_second c)] ''_'')"

definition prof_file :: "string \<Rightarrow> string \<Rightarrow> int \<Rightarrow> int \<Rightarrow> string" where
  "prof_file kind ext tz t = ''prof/'' @ kind @ ''_'' @ prof_stamp tz t @ ext"

text \<open>What is written to an open file; a write that fails is not noticed.\<close>

definition put_contents :: "'a Console \<Rightarrow> string \<Rightarrow> string \<Rightarrow> fs \<Rightarrow> fs" where
  "put_contents C fn s f =
     (case os_call (co_os C) SWrite f of
        (Some e, f') \<Rightarrow> f'
      | (None, f') \<Rightarrow> f'\<lparr>fs_files := (fs_files f)(fn \<mapsto> s)\<rparr>)"

text \<open>The name for the present moment and \<open>os.Create\<close>.\<close>

definition create_prof :: "'a Console \<Rightarrow> string \<Rightarrow> string \<Rightarrow> fs \<Rightarrow> string \<times> string option \<times> fs" where
  "create_prof C kind ext f =
     (case os_Now (co_os C) f of (now, f) \<Rightarrow>
        let fn = prof_file kind ext (rt_tz (wr_R (co_W C))) now
        in (fn, os_Create (co_os C) fn f))"

text \<open>The common body of the functions that write a profile of \<open>pprof.Lookup\<close>.\<close>

definition dump_lookup :: "'a Console \<Rightarrow> string list \<Rightarrow> string \<Rightarrow> string \<Rightarrow> string \<Rightarrow> string \<Rightarrow> 'w session \<Rightarrow> 'w session outcome" where
  "dump_lookup C stk kind prof failed done st =
     (case create_prof C kind ''.prof'' (se_fs st) of
        (fn, Some e, f) \<Rightarrow> log_with (dlog_Error (co_W C) stk (ArgString failed) [co_err C e]) (set_fs f st)
      | (fn, None, f) \<Rightarrow>
          log_with (dlog_Info (co_W C) stk (ArgString done) [co_file C fn])
            (set_fs (put_contents C fn (co_pprof C prof (fs_tick f)) f) st))"

definition writeHeap :: "'a Console \<Rightarrow> string list \<Rightarrow> bool \<Rightarrow> 'w session \<Rightarrow> 'w session outcome" where
  "writeHeap C stk forceGc st =
     (let st = (if forceGc then st\<lparr>se_gcs := se_gcs st + 1\<rparr> else st)
      in dump_lookup C (''helper.writeHeap'' # stk) ''heap'' ''heap'' ''write heap fail, %s'' ''write heap to file %s'' st)"

definition WriteHeap :: "'a Console \<Rightarrow> string list \<Rightarrow> 'w session \<Rightarrow> 'w session outcome" where
  "WriteHeap C stk st = writeHeap C (''helper.WriteHeap'' # stk) True st"

text \<open>\<open>time.Duration(s) * time.Second\<close> in 64 bits.\<close>

definition sleep_secs :: "int64 \<Rightarrow> 'w session \<Rightarrow> 'w session" where
  "sleep_secs s st = st\<lparr>se_slept := se_slept st @ [s * 1000000000]\<rparr>"

definition writeTrace :: "'a Console \<Rightarrow> string list \<Rightarrow> int64 \<Rightarrow> 'w session \<Rightarrow> 'w session outcome" where
  "writeTrace C stk s st =
     (let stk = ''helper.writeTrace'' # stk in
      case create_prof C ''trace'' ''.out'' (se_fs st) of
        (fn, Some e, f) \<Rightarrow> log_with (dlog_Error (co_W C) stk (ArgString ''write trace fail, %s'') [co_err C e]) (set_fs f st)
      | (fn, None, f) \<Rightarrow>
          (case co_trace C (fs_tick f) of
             Inl e \<Rightarrow> log_with (dlog_Error (co_W C) stk (ArgString ''start trace fail, %s'') [co_err C e]) (set_fs f st)
           | Inr dump \<Rightarrow>
               obind (log_with (dlog_Info (co_W C) stk (ArgString ''write trace to file %s'') [rt_str (wr_R (co_W C)) fn])
                        (sleep_secs s (set_fs f st))) (\<lambda>st.
                 Ret (set_fs (put_contents C fn dump (se_fs st)) st))))"

definition WriteMutex :: "'a Console \<Rightarrow> string list \<Rightarrow> 'w session \<Rightarrow> 'w session outcome" where
  "WriteMutex C stk st =
     dump_lookup C (''helper.WriteMutex'' # stk) ''mutex'' ''mutex'' ''write mutex fail, %s'' ''write mutex to file %s'' st"

definition WriteThreadCreate :: "'a Console \<Rightarrow> string list \<Rightarrow> 'w session \<Rightarrow> 'w session outcome" where
  "WriteThreadCreate C stk st =
     dump_lookup C (''helper.WriteThreadCreate'' # stk) ''threadCreate'' ''threadcreate'' ''write threadCreate fail, %s''
       ''write threadCreate to file %s'' st"

definition WriteBlock :: "'a Console \<Rightarrow> string list \<Rightarrow> 'w session \<Rightarrow> 'w session outcome" where
  "WriteBlock C stk st =
     dump_lookup C (''helper.WriteBlock'' # stk) ''block'' ''block'' ''write block fail, %s'' ''write block to file %s'' st"

definition writeGoroutine :: "'a Console \<Rightarrow> string list \<Rightarrow> 'w session \<Rightarrow> 'w session outcome" where
  "writeGoroutine C stk st =
     dump_lookup C (''helper.writeGoroutine'' # stk) ''goroutine'' ''goroutine'' ''write goroutine fail, %s''
       ''write gouroutine to file %s'' st"

definition WriteGoroutine :: "'a Console \<Rightarrow> string list \<Rightarrow> 'w session \<Rightarrow> 'w session outcome" where
  "WriteGoroutine C stk st =
     dump_lookup C (''helper.WriteGoroutine'' # stk) ''goroutine'' ''goroutine'' ''write goroutine fail, %s''
       ''write goroutine to file %s'' st"

definition cpuProfiling :: "'a Console \<Rightarrow> string list \<Rightarrow> int64 \<Rightarrow> 'w session \<Rightarrow> 'w session outcome" where
  "cpuProfiling C stk s st =
     (let stk = ''helper.cpuProfiling'' # stk; failed = ArgString ''write cpuprofile fail, %s'' in
      case create_prof C ''cpuprofile'' ''.prof'' (se_fs st) of
        (fn, Some e, f) \<Rightarrow> log_with (dlog_Error (co_W C) stk failed [co_err C e]) (set_fs f st)
      | (fn, None, f) \<Rightarrow>
          (case co_cpu C (fs_tick f) of
             Inl e \<Rightarrow> log_with (dlog_Error (co_W C) stk failed [co_err C e]) (set_fs f st)
           | Inr dump \<Rightarrow> Ret (set_fs (put_contents C fn dump f) (sleep_secs s (set_fs f st)))))"

definition CpuProfiling :: "'a Console \<Rightarrow> string list \<Rightarrow> int64 \<Rightarrow> 'w session \<Rightarrow> 'w session outcome" where
  "CpuProfiling C stk s st = cpuProfiling C (''helper.CpuProfiling'' # stk) s st"

section \<open>Commands\<close>

definition TAB :: string where "TAB = [CHR 0x09]"
definition NL :: string where "NL = [CHR 0x0A]"

definition help_text :: string where
  "help_text = concat
     [''THIS IS HELP'' @ NL @ ''--------------------------------------------------------------'' @ NL,
      ''  add'' @ TAB @ TAB @ ''<id> <key> <sec> <min> <hour> <day> <month> <week> <year>'' @ NL,
      ''  del'' @ TAB @ TAB @ ''<id> <key> <sec> <min> <hour> <day> <month> <week> <year>'' @ NL,
      ''  status'' @ TAB @ ''return status'' @ NL,
      ''  find'' @ TAB @ TAB @ ''<id> <key>'' @ NL,
      ''  trace n '' @ TAB @ TAB @ ''dump n second trace info to prof/trace_xxx.out'' @ NL,
      ''  heap <nogc>'' @ TAB @ TAB @ ''dump current heap to prof/heap_xxx.prof'' @ NL,
      ''  dlog'' @ TAB @ TAB @ ''-1:CURRENT,0:FNST,1:FINE,2:DEBG,3:TRAC,4:INFO,5:WARN,6:EROR,7:CRIT'' @ NL,
      ''  deploy'' @ TAB @ ''<file1> <file2> ;'' @ [CHR 0x22] @ ''deploy all'' @ [CHR 0x22]
        @ '' means deploy all accessable file'' @ NL]"

definition helper_help :: "'w session \<Rightarrow> 'w session" where
  "helper_help st = client_Write help_text st"

text \<open>How the body of the loop ends: at \<open>continue\<close>, at its bottom with \<open>ret\<close>, or in a panic.\<close>

datatype flow = Continue | Bottom bool | Panicked go_panic

definition cmd_update :: "'w Helper \<Rightarrow> string \<Rightarrow> string list \<Rightarrow> 'w session \<Rightarrow> flow \<times> 'w session" where
  "cmd_update h tpe arr st =
     (if length arr \<noteq> 10 then (Continue, client_Write (''<invalid len'' @ NL) (helper_help st))
      else case h_Updater h of
             None \<Rightarrow> (Panicked NilDeref, st)
           | Some updater \<Rightarrow>
               (case updater (arr ! 1 @ '' '' @ arr ! 2) (strings_Join (drop 3 arr) '' '') tpe (-1) (se_app st) of
                  (Inl p, w) \<Rightarrow> (Panicked p, st\<lparr>se_app := w\<rparr>)
                | (Inr ret, w) \<Rightarrow> (Bottom ret, st\<lparr>se_app := w\<rparr>)))"

definition cmd_dlog :: "'a Console \<Rightarrow> string list \<Rightarrow> 'w session \<Rightarrow> (flow \<times> 'w session) outcome" where
  "cmd_dlog C arr st =
     (if length arr \<noteq> 2 then Ret (Continue, helper_help st)
      else case Atoi (arr ! 1) of
             None \<Rightarrow> Ret (Bottom False, client_Write (''<'' @ co_numerr C (arr ! 1) @ NL) st)
           | Some lvl \<Rightarrow>
               if lvl = -1
               then (case dlog_GetLevel (wr_R (co_W C)) (se_d st) of
                       Inl p \<Rightarrow> Ret (Panicked p, st)
                     | Inr s \<Rightarrow> Ret (Bottom True, client_Write (''<dlog:'' @ s @ NL) st))
               else obind (log_with (dlog_Debug (co_W C) [''helper.dealCommand'', ''helper.waitTcp.func1'']
                                       (ArgString ''SetLogLevel:%d'') [co_int C lvl]) st) (\<lambda>st.
                      Ret (Bottom True, st\<lparr>se_d := dlog_SetLevel lvl (se_d st)\<rparr>)))"

definition cmd_heap :: "'a Console \<Rightarrow> string list \<Rightarrow> 'w session \<Rightarrow> (flow \<times> 'w session) outcome" where
  "cmd_heap C arr st =
     obind (writeHeap C [''helper.dealCommand''] (\<not> (length arr = 2 \<and> arr ! 1 = ''nogc'')) st) (\<lambda>st.
     obind (writeGoroutine C [''helper.dealCommand''] st) (\<lambda>st. Ret (Bottom True, st)))"

text \<open>The seconds of \<open>trace\<close> and \<open>profile\<close>.\<close>

definition secs_arg :: "int64 \<Rightarrow> string list \<Rightarrow> int64" where
  "secs_arg absent arr =
     (if length arr < 2 then absent else case ParseInt (arr ! 1) of None \<Rightarrow> 30 | Some st \<Rightarrow> st)"

definition call_text :: "('w \<Rightarrow> string go \<times> 'w) option \<Rightarrow> 'w session \<Rightarrow> string go \<times> 'w session" where
  "call_text fn st =
     (case fn of
        None \<Rightarrow> (Inr [], st)
      | Some fn \<Rightarrow> (case fn (se_app st) of (r, w) \<Rightarrow> (r, st\<lparr>se_app := w\<rparr>)))"

definition cmd_status :: "'a Console \<Rightarrow> 'w Helper \<Rightarrow> 'w session \<Rightarrow> flow \<times> 'w session" where
  "cmd_status C h st =
     (let t = fs_tick (se_fs st); m = co_mem C t in
      case call_text (h_Stater h) st of
        (Inl p, st) \<Rightarrow> (Panicked p, st)
      | (Inr lc, st) \<Rightarrow>
          (case call_text (h_Perfer h) st of
             (Inl p, st) \<Rightarrow> (Panicked p, st)
           | (Inr perf, st) \<Rightarrow>
               (Bottom True,
                client_Write (''mem:'' @ MemStats_line m @ NL @ ''mem2:'' @ MemStats2 (co_marshal C) m @ NL
                  @ ''gc:'' @ GcStats (co_time C) m @ NL @ ''numGos:'' @ itoa_nat (co_goroutines C t) @ NL
                  @ ''stater:'' @ lc @ NL @ perf @ NL) st)))"

definition cmd_find :: "'w Helper \<Rightarrow> string list \<Rightarrow> 'w session \<Rightarrow> flow \<times> 'w session" where
  "cmd_find h arr st =
     (case go_slice arr 1 3 of
        Inl p \<Rightarrow> (Panicked p, st)
      | Inr ks \<Rightarrow>
          let key = strings_Join ks '' '' in
          (case h_Finder h of
             None \<Rightarrow> (Panicked NilDeref, st)
           | Some finder \<Rightarrow>
               (case finder key (se_app st) of
                  (Inl p, w) \<Rightarrow> (Panicked p, st\<lparr>se_app := w\<rparr>)
                | (Inr (fvalue, Some ferr), w) \<Rightarrow> (Bottom True, client_Write (''err:'' @ ferr @ '',key='' @ key @ NL) (st\<lparr>se_app := w\<rparr>))
                | (Inr (fvalue, None), w) \<Rightarrow> (Bottom True, client_Write (''found:'' @ fvalue @ '',key='' @ key @ NL) (st\<lparr>se_app := w\<rparr>)))))"

definition cmd_deploy :: "'w Helper \<Rightarrow> string list \<Rightarrow> 'w session \<Rightarrow> flow \<times> 'w session" where
  "cmd_deploy h arr st =
     (case h_Deployer h of
        None \<Rightarrow> (Bottom True, client_Write ''err: not support deploy for helper project'' st)
      | Some deployer \<Rightarrow>
          (case deployer (drop 1 arr) (se_app st) of
             (Inl p, w) \<Rightarrow> (Panicked p, st\<lparr>se_app := w\<rparr>)
           | (Inr r, w) \<Rightarrow> (Bottom True, client_Write (''deploy: finished result is '' @ r) (st\<lparr>se_app := w\<rparr>))))"

definition words_of :: "string \<Rightarrow> string list" where
  "words_of data = split_byte (CHR '' '') (TrimSpace data)"

definition command :: "'a Console \<Rightarrow> 'w Helper \<Rightarrow> string \<Rightarrow> 'w session \<Rightarrow> (flow \<times> 'w session) outcome" where
  "command C h data st =
     (let arr = words_of data; tpe = arr ! 0
      in if tpe = ''add'' \<or> tpe = ''del'' then Ret (cmd_update h tpe arr st)
         else if tpe = ''dlog'' then cmd_dlog C arr st
         else if tpe = ''heap'' then cmd_heap C arr st
         else if tpe = ''trace''
         then obind (writeTrace C [''helper.dealCommand''] (secs_arg 10 arr) st) (\<lambda>st. Ret (Bottom True, st))
         else if tpe = ''status'' then Ret (cmd_status C h st)
         else if tpe = ''find'' then Ret (cmd_find h arr st)
         else if tpe = ''deploy'' then Ret (cmd_deploy h arr st)
         else if tpe = ''profile''
         then obind (cpuProfiling C [''helper.dealCommand''] (secs_arg 30 arr) st) (\<lambda>st.
                Ret (Bottom True, client_Write ''profile: finished'' st))
         else Ret (Bottom True, helper_help st))"

section \<open>Sessions\<close>

text \<open>\<open>bufio.Reader.ReadString\<close>: a line with its end and the rest, or \<open>None\<close> when the input ends before.\<close>

definition ReadString :: "string \<Rightarrow> (string \<times> string) option" where
  "ReadString inp =
     (case dropWhile (\<lambda>c. c \<noteq> CHR 0x0A) inp of
        [] \<Rightarrow> None
      | c # rest \<Rightarrow> Some (takeWhile (\<lambda>c. c \<noteq> CHR 0x0A) inp @ [c], rest))"

lemma ReadString_shorter: "ReadString inp = Some (data, rest) \<Longrightarrow> length rest < length inp"
  unfolding ReadString_def using length_dropWhile_le [of "\<lambda>c. c \<noteq> CHR 0x0A" inp]
  by (auto split: list.splits)

text \<open>The loop, with the bytes the client sends and the error its connection ends with, \<open>None\<close> for end of file.\<close>

function deal_loop :: "'a Console \<Rightarrow> 'w Helper \<Rightarrow> string \<Rightarrow> string option \<Rightarrow> 'w session \<Rightarrow> (go_panic option \<times> 'w session) outcome" where
  "deal_loop C h inp fin st =
     (case ReadString inp of
        None \<Rightarrow> Ret (None, client_Write (case fin of None \<Rightarrow> ''<end'' @ NL | Some err \<Rightarrow> ''<'' @ err @ NL) st)
      | Some (data, rest) \<Rightarrow>
          if data = CHR 0x0D # NL \<or> data = NL then Ret (None, client_Write (''<<'' @ NL) st)
          else obind (command C h data st) (\<lambda>(fl, st).
                 case fl of
                   Continue \<Rightarrow> deal_loop C h rest fin st
                 | Bottom ret \<Rightarrow> deal_loop C h rest fin (client_Write (if ret then ''<ok'' @ NL else ''<err'' @ NL) st)
                 | Panicked p \<Rightarrow> Ret (Some p, st)))"
  by pat_completeness auto

termination
  by (relation "measure (\<lambda>(C, h, inp, fin, st). length inp)") (auto simp: ReadString_shorter)

declare deal_loop.simps [simp del]

definition dealCommand :: "'a Console \<Rightarrow> 'w Helper \<Rightarrow> string \<Rightarrow> string option \<Rightarrow> 'w session \<Rightarrow> (go_panic option \<times> 'w session) outcome" where
  "dealCommand C h inp fin st =
     obind (deal_loop C h inp fin st) (\<lambda>(p, st). Ret (p, st\<lparr>se_closed := True\<rparr>))"

text \<open>\<open>utls.WithRecover\<close> around the session, with no handler.\<close>

definition WithRecover :: "('s \<Rightarrow> (go_panic option \<times> 's) outcome) \<Rightarrow> (string \<Rightarrow> 's \<Rightarrow> 's) \<Rightarrow> 's \<Rightarrow> (go_panic option \<times> 's) outcome" where
  "WithRecover fn on_stderr st =
     obind (fn st) (\<lambda>(err, st).
       case err of None \<Rightarrow> Ret (None, st) | Some p \<Rightarrow> Ret (Some p, on_stderr ''panic_recovered'' st))"

definition serve :: "'a Console \<Rightarrow> 'w Helper \<Rightarrow> string \<Rightarrow> string option \<Rightarrow> 'w session \<Rightarrow> (go_panic option \<times> 'w session) outcome" where
  "serve C h inp fin st =
     WithRecover (dealCommand C h inp fin) (\<lambda>s st. st\<lparr>se_d := stderr_line s (se_d st)\<rparr>) st"

text \<open>The accept loop over what \<open>Accept\<close> returns: the connections served and whether the loop has ended.\<close>

datatype 'c accepted = Conn 'c | AcceptErr "string option" string

fun waitTcp :: "'a Console \<Rightarrow> 'c accepted list \<Rightarrow> dstate \<Rightarrow> ('c list \<times> bool \<times> dstate) outcome" where
  "waitTcp C [] d = Ret ([], False, d)"
| "waitTcp C (Conn c # evs) d = obind (waitTcp C evs d) (\<lambda>(cs, stopped, d). Ret (c # cs, stopped, d))"
| "waitTcp C (AcceptErr op err # evs) d =
     (if op = Some ''accept''
      then obind (dlog_Info (co_W C) [''helper.waitTcp''] (ArgString ''Stoping Tcp Accept'') [] d) (\<lambda>d. Ret ([], True, d))
      else obind (dlog_Warn (co_W C) [''helper.waitTcp''] (ArgString ''Accept failed: %v'') [co_err C err] d) (\<lambda>d. waitTcp C evs d))"

definition ProfDumpDir :: string where "ProfDumpDir = ''prof''"
definition ProfDumpBackupDir :: string where "ProfDumpBackupDir = ''./prof''"

text \<open>\<open>Start\<close> up to the accept loop; \<open>listen\<close> is the error of \<open>net.Listen\<close>.\<close>

definition make_dir :: "'a Console \<Rightarrow> string \<Rightarrow> dstate \<Rightarrow> dstate outcome" where
  "make_dir C dir d =
     (case os_MkdirAll (co_os C) dir (ds_fs d) of
        (None, f) \<Rightarrow> Ret (d\<lparr>ds_fs := f\<rparr>)
      | (Some e, f) \<Rightarrow>
          dlog_Info (co_W C) [''helper.Start''] (ArgString ''Helper create dir fail, path:%s, err:%v'')
            [rt_str (wr_R (co_W C)) ProfDumpDir, co_err C e] (d\<lparr>ds_fs := f\<rparr>))"

definition helper_Start :: "'a Console \<Rightarrow> (string \<Rightarrow> string option) \<Rightarrow> 'w Helper \<Rightarrow> dstate \<Rightarrow> (string option \<times> 'w Helper \<times> dstate) outcome" where
  "helper_Start C listen h d =
     (case listen ('':'' @ Itoa (h_Host h)) of
        Some err \<Rightarrow> Ret (Some (''host='' @ Itoa (h_Host h) @ '','' @ err), h, d)
      | None \<Rightarrow>
          obind (make_dir C ProfDumpDir d) (\<lambda>d.
          obind (make_dir C ProfDumpBackupDir d) (\<lambda>d.
            Ret (None, h\<lparr>h_listener := Some True\<rparr>, d))))"

definition helper_Close :: "'w Helper \<Rightarrow> 'w Helper go" where
  "helper_Close h = (case h_listener h of None \<Rightarrow> Inl NilDeref | Some open_ \<Rightarrow> Inr (h\<lparr>h_listener := Some False\<rparr>))"

section \<open>The level after a session\<close>

text \<open>The logger accepts records and has room for \<open>n\<close> of them; no filter has the level \<open>GetLevel\<close> panics at.\<close>

definition console_ok :: "nat \<Rightarrow> 'a Console \<Rightarrow> dstate \<Rightarrow> bool" where
  "console_ok n C d \<longleftrightarrow>
     gl_inv (wr_gl (co_W C)) \<and> log_room n (wr_R (co_W C)) d \<and> (\<forall>(name, filt)\<in>set (ds_Global d). fi_Level filt \<noteq> 8)"

lemma console_ok_fs [simp]: "console_ok n C (d\<lparr>ds_fs := f\<rparr>) = console_ok n C d"
  by (simp add: console_ok_def)

lemma console_ok_weaken: "console_ok n C d \<Longrightarrow> m \<le> n \<Longrightarrow> console_ok m C d"
  unfolding console_ok_def using log_room_weaken by blast

lemma tag_at_ok:
  assumes "console_ok (Suc n) C d"
  shows "\<exists>d'. tag_at site lvl (co_W C) stk tag (ArgString s) args d = Ret d' \<and> ds_Global d' = ds_Global d \<and> console_ok n C d'"
  using tag_at_room [of n "co_W C" d site lvl stk tag "ArgString s" args] assms by (auto simp: console_ok_def)

lemma log_with_ok:
  assumes "console_ok (Suc n) C (se_d st)" "call = tag_at site lvl (co_W C) stk tag (ArgString s) args"
  shows "\<exists>st'. log_with call st = Ret st' \<and> ds_Global (se_d st') = ds_Global (se_d st) \<and> console_ok n C (se_d st')"
  using tag_at_ok [OF assms(1), of site lvl stk tag s args] assms(2) by (auto simp: log_with_def)

lemma dlog_call_ok:
  assumes "console_ok (Suc n) C (se_d st)"
  shows "\<exists>st'. log_with (dlog_Info (co_W C) stk (ArgString s) args) st = Ret st'
      \<and> ds_Global (se_d st') = ds_Global (se_d st) \<and> console_ok n C (se_d st')"
    and "\<exists>st'. log_with (dlog_Error (co_W C) stk (ArgString s) args) st = Ret st'
      \<and> ds_Global (se_d st') = ds_Global (se_d st) \<and> console_ok n C (se_d st')"
    and "\<exists>st'. log_with (dlog_Debug (co_W C) stk (ArgString s) args) st = Ret st'
      \<and> ds_Global (se_d st') = ds_Global (se_d st) \<and> console_ok n C (se_d st')"
  by (rule log_with_ok [OF assms], rule ext, simp add: dlog_Info_def dlog_Error_def dlog_Debug_def)+

lemma set_fs_simps [simp]:
  "ds_Global (se_d (set_fs f st)) = ds_Global (se_d st)" "console_ok n C (se_d (set_fs f st)) = console_ok n C (se_d st)"
  "se_d (sleep_secs k st) = se_d st" "se_d (client_Write s st) = se_d st" "se_d (helper_help st) = se_d st"
  by (simp_all add: set_fs_def sleep_secs_def client_Write_def helper_help_def)

lemma dump_lookup_ok:
  assumes "console_ok (Suc n) C (se_d st)"
  shows "\<exists>st'. dump_lookup C stk kind prof failed fin st = Ret st' \<and> ds_Global (se_d st') = ds_Global (se_d st)
    \<and> console_ok n C (se_d st')"
proof (cases "create_prof C kind ''.prof'' (se_fs st)")
  case (fields fn e f)
  show ?thesis
  proof (cases e)
    case None
    then show ?thesis
      using dlog_call_ok(1) [of n C "set_fs (put_contents C fn (co_pprof C prof (fs_tick f)) f) st"] assms fields
      by (simp add: dump_lookup_def)
  next
    case (Some e)
    then show ?thesis using dlog_call_ok(2) [of n C "set_fs f st"] assms fields by (simp add: dump_lookup_def)
  qed
qed

lemma writeHeap_ok:
  assumes "console_ok (Suc n) C (se_d st)"
  shows "\<exists>st'. writeHeap C stk forceGc st = Ret st' \<and> ds_Global (se_d st') = ds_Global (se_d st) \<and> console_ok n C (se_d st')"
  using dump_lookup_ok [of n C "if forceGc then st\<lparr>se_gcs := se_gcs st + 1\<rparr> else st"] assms
  unfolding writeHeap_def Let_def by (cases forceGc) simp_all

lemma writeTrace_ok:
  assumes "console_ok (Suc n) C (se_d st)"
  shows "\<exists>st'. writeTrace C stk s st = Ret st' \<and> ds_Global (se_d st') = ds_Global (se_d st) \<and> console_ok n C (se_d st')"
proof (cases "create_prof C ''trace'' ''.out'' (se_fs st)")
  case (fields fn e f)
  note ok = dlog_call_ok [of n C "set_fs f st"] dlog_call_ok(1) [of n C "sleep_secs s (set_fs f st)"]
  show ?thesis
  proof (cases e)
    case None
    show ?thesis
    proof (cases "co_trace C (fs_tick f)")
      case (Inl err)
      then show ?thesis using ok(2) assms fields None by (simp add: writeTrace_def)
    next
      case (Inr dump)
      obtain st1 where "log_with (dlog_Info (co_W C) (''helper.writeTrace'' # stk) (ArgString ''write trace to file %s'')
          [rt_str (wr_R (co_W C)) fn]) (sleep_secs s (set_fs f st)) = Ret st1"
        "ds_Global (se_d st1) = ds_Global (se_d st)" "console_ok n C (se_d st1)"
        using ok(4) [of "''helper.writeTrace'' # stk" "''write trace to file %s''" "[rt_str (wr_R (co_W C)) fn]"] assms by auto
      then show ?thesis using fields None Inr by (simp add: writeTrace_def)
    qed
  next
    case (Some e)
    then show ?thesis using ok(2) assms fields by (simp add: writeTrace_def)
  qed
qed

lemma cpuProfiling_ok:
  assumes "console_ok (Suc n) C (se_d st)"
  shows "\<exists>st'. cpuProfiling C stk s st = Ret st' \<and> ds_Global (se_d st') = ds_Global (se_d st) \<and> console_ok n C (se_d st')"
proof (cases "create_prof C ''cpuprofile'' ''.prof'' (se_fs st)")
  case (fields fn e f)
  note ok = dlog_call_ok(2) [of n C "set_fs f st"]
  show ?thesis
    using fields ok assms console_ok_weaken [OF assms, of n]
    by (cases e; cases "co_cpu C (fs_tick f)") (simp_all add: cpuProfiling_def)
qed

text \<open>Levels that \<open>GetLevel\<close> can print.\<close>

lemma level_list_ok: "\<forall>(name, filt)\<in>set fs. fi_Level filt \<noteq> 8 \<Longrightarrow> \<exists>t. level_list fs ret = Inr t"
proof (induction fs arbitrary: ret)
  case (Cons x fs)
  obtain tag filt where x: "x = (tag, filt)" by (cases x)
  have "\<exists>l. Level_String (fi_Level filt) = Inr l"
    using Cons.prems x by (auto simp: Level_String_def level_index_def levelStrings_def)
  then show ?case using Cons.IH Cons.prems x by auto
qed simp

lemma GetLevel_ok: "console_ok n C d \<Longrightarrow> \<exists>t. dlog_GetLevel (wr_R (co_W C)) d = Inr t"
  unfolding dlog_GetLevel_def
proof (rule level_list_ok)
  assume ok: "console_ok n C d"
  then have "set (rt_order (wr_R (co_W C)) (ds_Global d)) = set (ds_Global d)"
    unfolding console_ok_def log_room_def by (metis set_mset_mset)
  then show "\<forall>(name, filt)\<in>set (rt_order (wr_R (co_W C)) (ds_Global d)). fi_Level filt \<noteq> 8"
    using ok by (auto simp: console_ok_def)
qed

lemma SetLevel_ok: "console_ok n C d \<Longrightarrow> lvl \<noteq> 8 \<Longrightarrow> console_ok n C (dlog_SetLevel lvl d)"
  by (fastforce simp: console_ok_def log_room_def dlog_SetLevel_def)

text \<open>The level a command asks for, and all filters at a level.\<close>

definition level_of :: "string \<Rightarrow> int option" where
  "level_of data =
     (let arr = words_of data
      in if arr ! 0 = ''dlog'' \<and> length arr = 2
         then (case Atoi (arr ! 1) of None \<Rightarrow> None | Some lvl \<Rightarrow> if lvl = -1 then None else Some lvl)
         else None)"

definition relevel :: "int option \<Rightarrow> Logger \<Rightarrow> Logger" where
  "relevel l log = (case l of None \<Rightarrow> log | Some lvl \<Rightarrow> map (\<lambda>(name, filt). (name, filt\<lparr>fi_Level := lvl\<rparr>)) log)"

text \<open>The application gave the functions its commands need, and they return.\<close>

definition calls_return :: "'w Helper \<Rightarrow> bool" where
  "calls_return h \<longleftrightarrow>
     (\<exists>u. h_Updater h = Some u \<and> (\<forall>k v t off w. \<not> isl (fst (u k v t off w))))
     \<and> (\<exists>u. h_Finder h = Some u \<and> (\<forall>k w. \<not> isl (fst (u k w))))
     \<and> (\<forall>u. h_Perfer h = Some u \<longrightarrow> (\<forall>w. \<not> isl (fst (u w))))
     \<and> (\<forall>u. h_Stater h = Some u \<longrightarrow> (\<forall>w. \<not> isl (fst (u w))))
     \<and> (\<forall>u. h_Deployer h = Some u \<longrightarrow> (\<forall>ws w. \<not> isl (fst (u ws w))))"

text \<open>A line the console can execute.\<close>

definition good_command :: "string \<Rightarrow> bool" where
  "good_command data \<longleftrightarrow> (words_of data ! 0 = ''find'' \<longrightarrow> 3 \<le> length (words_of data)) \<and> level_of data \<noteq> Some 8"

definition no_panic :: "flow \<Rightarrow> bool" where
  "no_panic fl = (case fl of Panicked p \<Rightarrow> False | _ \<Rightarrow> True)"

text \<open>Commands that only call the application.\<close>

lemma app_commands_ok:
  assumes "calls_return h"
  shows "no_panic (fst (cmd_update h tpe arr st)) \<and> se_d (snd (cmd_update h tpe arr st)) = se_d st"
    and "no_panic (fst (cmd_status C h st)) \<and> se_d (snd (cmd_status C h st)) = se_d st"
    and "3 \<le> length arr \<Longrightarrow> no_panic (fst (cmd_find h arr st)) \<and> se_d (snd (cmd_find h arr st)) = se_d st"
    and "no_panic (fst (cmd_deploy h arr st)) \<and> se_d (snd (cmd_deploy h arr st)) = se_d st"
proof -
  obtain u where u: "h_Updater h = Some u" "\<And>k v t off w. \<not> isl (fst (u k v t off w))" using assms by (auto simp: calls_return_def)
  show "no_panic (fst (cmd_update h tpe arr st)) \<and> se_d (snd (cmd_update h tpe arr st)) = se_d st"
    using u(1) u(2) [of "arr ! 1 @ '' '' @ arr ! 2" "strings_Join (drop 3 arr) '' ''" tpe "-1" "se_app st"]
    by (auto simp: cmd_update_def no_panic_def split: prod.splits sum.splits)
next
  have app: "\<not> isl (fst (call_text fn st)) \<and> se_d (snd (call_text fn st)) = se_d st" if "\<And>u w. fn = Some u \<Longrightarrow> \<not> isl (fst (u w))" for fn and st :: "'a session"
    using that by (auto simp: call_text_def split: option.splits prod.splits) (metis fst_conv)
  have a: "\<not> isl (fst (call_text (h_Stater h) st)) \<and> se_d (snd (call_text (h_Stater h) st)) = se_d st" for st
    using assms by (intro app) (simp add: calls_return_def)
  have b: "\<not> isl (fst (call_text (h_Perfer h) st)) \<and> se_d (snd (call_text (h_Perfer h) st)) = se_d st" for st
    using assms by (intro app) (simp add: calls_return_def)
  show "no_panic (fst (cmd_status C h st)) \<and> se_d (snd (cmd_status C h st)) = se_d st"
    using a [of st] b [of "snd (call_text (h_Stater h) st)"]
    by (auto simp: cmd_status_def no_panic_def Let_def split: prod.splits sum.splits)
next
  obtain u where u: "h_Finder h = Some u" "\<And>k w. \<not> isl (fst (u k w))" using assms by (auto simp: calls_return_def)
  assume len: "3 \<le> length arr"
  then have sl: "go_slice arr 1 3 = Inr (take 2 (drop 1 arr))" by (simp add: go_slice_def)
  show "no_panic (fst (cmd_find h arr st)) \<and> se_d (snd (cmd_find h arr st)) = se_d st"
    using u(1) u(2) [of "strings_Join (take 2 (drop 1 arr)) '' ''" "se_app st"]
    by (auto simp: cmd_find_def sl no_panic_def Let_def split: prod.splits sum.splits option.splits)
next
  show "no_panic (fst (cmd_deploy h arr st)) \<and> se_d (snd (cmd_deploy h arr st)) = se_d st"
  proof (cases "h_Deployer h")
    case (Some u)
    then have "\<not> isl (fst (u (drop 1 arr) (se_app st)))" using assms by (simp add: calls_return_def)
    then show ?thesis using Some by (auto simp: cmd_deploy_def no_panic_def split: prod.splits sum.splits)
  qed (simp add: cmd_deploy_def no_panic_def)
qed

lemma cmd_dlog_ok:
  assumes "console_ok (Suc n) C (se_d st)" "arr = words_of data" "arr ! 0 = ''dlog''" "level_of data \<noteq> Some 8"
  shows "\<exists>fl st'. cmd_dlog C arr st = Ret (fl, st') \<and> no_panic fl
    \<and> ds_Global (se_d st') = relevel (level_of data) (ds_Global (se_d st)) \<and> console_ok n C (se_d st')"
proof -
  have weak: "console_ok n C (se_d st)" using console_ok_weaken [OF assms(1)] by simp
  consider "length arr \<noteq> 2" | "length arr = 2" "Atoi (arr ! 1) = None" | "length arr = 2" "Atoi (arr ! 1) = Some (-1)"
    | lvl where "length arr = 2" "Atoi (arr ! 1) = Some lvl" "lvl \<noteq> -1" by fastforce
  then show ?thesis
  proof cases
    case 1
    then show ?thesis using weak assms(2,3) by (simp add: cmd_dlog_def level_of_def relevel_def no_panic_def)
  next
    case 2
    then show ?thesis using weak assms(2,3) by (simp add: cmd_dlog_def level_of_def relevel_def no_panic_def)
  next
    case 3
    then show ?thesis using weak assms(2,3) GetLevel_ok [OF weak]
      by (auto simp: cmd_dlog_def level_of_def relevel_def no_panic_def)
  next
    case (4 lvl)
    have lv: "level_of data = Some lvl" using 4 assms(2,3) by (simp add: level_of_def)
    obtain st1 where "log_with (dlog_Debug (co_W C) [''helper.dealCommand'', ''helper.waitTcp.func1'']
        (ArgString ''SetLogLevel:%d'') [co_int C lvl]) st = Ret st1" "ds_Global (se_d st1) = ds_Global (se_d st)" "console_ok n C (se_d st1)"
      using dlog_call_ok(3) [OF assms(1)] by blast
    then show ?thesis
      using 4 lv assms(4) SetLevel_ok [of n C "se_d st1" lvl]
      by (simp add: cmd_dlog_def relevel_def no_panic_def dlog_SetLevel_def)
  qed
qed

lemma level_of_other: "words_of data ! 0 \<noteq> ''dlog'' \<Longrightarrow> relevel (level_of data) log = log"
  by (simp add: level_of_def relevel_def Let_def)

text \<open>Every command uses at most two records of the logger.\<close>

lemma command_ok:
  assumes "console_ok (Suc (Suc n)) C (se_d st)" "calls_return h" "good_command data"
  shows "\<exists>fl st'. command C h data st = Ret (fl, st') \<and> no_panic fl
    \<and> ds_Global (se_d st') = relevel (level_of data) (ds_Global (se_d st)) \<and> console_ok n C (se_d st')"
proof -
  define arr where "arr = words_of data"
  note weak = console_ok_weaken [OF assms(1)]
  have ok: "console_ok n C (se_d st)" "console_ok (Suc n) C (se_d st)" using weak by simp_all
  have pure: ?thesis if "command C h data st = Ret x" "no_panic (fst x)" "se_d (snd x) = se_d st" "arr ! 0 \<noteq> ''dlog''" for x
    using that ok level_of_other [of data] by (cases x) (simp add: arr_def)
  have effect: ?thesis if "m = Ret st1" "ds_Global (se_d st1) = ds_Global (se_d st)" "console_ok n C (se_d st1)"
      "command C h data st = obind m (\<lambda>st. Ret (Bottom True, f st))" "\<And>st. se_d (f st) = se_d st" "arr ! 0 \<noteq> ''dlog''" for m st1 f
    using that level_of_other [of data] by (simp add: arr_def no_panic_def)
  consider "arr ! 0 = ''add'' \<or> arr ! 0 = ''del''" | "arr ! 0 = ''dlog''" | "arr ! 0 = ''heap''" | "arr ! 0 = ''trace''"
    | "arr ! 0 = ''status''" | "arr ! 0 = ''find''" | "arr ! 0 = ''deploy''" | "arr ! 0 = ''profile''"
    | "arr ! 0 \<notin> {''add'', ''del'', ''dlog'', ''heap'', ''trace'', ''status'', ''find'', ''deploy'', ''profile''}" by blast
  then show ?thesis
  proof cases
    case 1
    then show ?thesis using pure [of "cmd_update h (arr ! 0) arr st"] app_commands_ok(1) [OF assms(2)]
      by (auto simp: command_def arr_def)
  next
    case 2
    then have "level_of data \<noteq> Some 8" using assms(3) by (simp add: good_command_def)
    then show ?thesis using cmd_dlog_ok [OF ok(2) arr_def 2] 2 by (simp add: command_def Let_def arr_def)
  next
    case 3
    obtain st1 where st1: "writeHeap C [''helper.dealCommand''] (\<not> (length arr = 2 \<and> arr ! 1 = ''nogc'')) st = Ret st1"
      "ds_Global (se_d st1) = ds_Global (se_d st)" "console_ok (Suc n) C (se_d st1)"
      using writeHeap_ok [OF assms(1)] by blast
    obtain st2 where "writeGoroutine C [''helper.dealCommand''] st1 = Ret st2"
      "ds_Global (se_d st2) = ds_Global (se_d st1)" "console_ok n C (se_d st2)"
      using dump_lookup_ok [OF st1(3)] unfolding writeGoroutine_def by blast
    then show ?thesis
      using st1 3 level_of_other [of data] by (simp add: command_def Let_def arr_def [symmetric] cmd_heap_def no_panic_def)
  next
    case 4
    then show ?thesis using writeTrace_ok [OF ok(2), of "[''helper.dealCommand'']" "secs_arg 10 arr"] effect [of _ _ "\<lambda>st. st"]
      by (auto simp: command_def Let_def arr_def)
  next
    case 5
    then show ?thesis using pure [of "cmd_status C h st"] app_commands_ok(2) [OF assms(2)]
      by (auto simp: command_def arr_def)
  next
    case 6
    then have "3 \<le> length arr" using assms(3) by (simp add: good_command_def arr_def)
    then show ?thesis using 6 pure [of "cmd_find h arr st"] app_commands_ok(3) [OF assms(2), of arr]
      by (auto simp: command_def arr_def)
  next
    case 7
    then show ?thesis using pure [of "cmd_deploy h arr st"] app_commands_ok(4) [OF assms(2)]
      by (auto simp: command_def arr_def)
  next
    case 8
    then show ?thesis using cpuProfiling_ok [OF ok(2), of "[''helper.dealCommand'']" "secs_arg 30 arr"]
        effect [of _ _ "client_Write ''profile: finished''"]
      by (auto simp: command_def Let_def arr_def)
  next
    case 9
    then show ?thesis using pure [of "(Bottom True, helper_help st)"] by (auto simp: command_def arr_def Let_def no_panic_def)
  qed
qed

section \<open>Whole sessions\<close>

lemma ReadString_line:
  assumes "CHR 0x0A \<notin> set l"
  shows "ReadString (l @ NL @ rest) = Some (l @ NL, rest)"
proof -
  have "dropWhile (\<lambda>c. c \<noteq> CHR 0x0A) (l @ NL @ rest) = NL @ rest" using assms by (subst dropWhile_append2) (auto simp: NL_def)
  moreover have "takeWhile (\<lambda>c. c \<noteq> CHR 0x0A) (l @ NL @ rest) = l" using assms by (subst takeWhile_append2) (auto simp: NL_def)
  ultimately show ?thesis by (simp add: ReadString_def NL_def)
qed

definition command_line :: "string \<Rightarrow> bool" where
  "command_line l \<longleftrightarrow> CHR 0x0A \<notin> set l \<and> l \<noteq> [] \<and> l \<noteq> [CHR 0x0D] \<and> good_command (l @ NL)"

text \<open>Where the console stops to read, and what it says then.\<close>

definition farewell :: "string \<Rightarrow> string option \<Rightarrow> string option" where
  "farewell inp fin =
     (case ReadString inp of
        None \<Rightarrow> Some (case fin of None \<Rightarrow> ''<end'' @ NL | Some err \<Rightarrow> ''<'' @ err @ NL)
      | Some (data, rest) \<Rightarrow> if data = CHR 0x0D # NL \<or> data = NL then Some (''<<'' @ NL) else None)"

fun asked_level :: "string list \<Rightarrow> int option \<Rightarrow> int option" where
  "asked_level [] l = l"
| "asked_level (c # cs) l = asked_level cs (case level_of (c @ NL) of None \<Rightarrow> l | Some lvl \<Rightarrow> Some lvl)"

lemma relevel_relevel: "relevel a (relevel b log) = relevel (case a of None \<Rightarrow> b | Some lvl \<Rightarrow> Some lvl) log"
  by (auto simp: relevel_def split: option.splits)

lemma asked_level_start: "asked_level cs l = (case asked_level cs None of None \<Rightarrow> l | Some lvl \<Rightarrow> Some lvl)"
proof (induction cs arbitrary: l)
  case (Cons c cs)
  show ?case
    using Cons.IH [of "case level_of (c @ NL) of None \<Rightarrow> l | Some lvl \<Rightarrow> Some lvl"]
      Cons.IH [of "case level_of (c @ NL) of None \<Rightarrow> None | Some lvl \<Rightarrow> Some lvl"]
    by (auto split: option.splits)
qed simp

lemma deal_loop_session:
  assumes "list_all command_line cs" "farewell tail fin = Some bye" "calls_return h" "console_ok (2 * length cs) C (se_d st)"
  shows "\<exists>st' said. deal_loop C h (concat (map (\<lambda>c. c @ NL) cs) @ tail) fin st = Ret (None, st')
    \<and> ds_Global (se_d st') = relevel (asked_level cs None) (ds_Global (se_d st)) \<and> se_out st' = said @ bye"
  using assms(1,4)
proof (induction cs arbitrary: st)
  case Nil
  then show ?case using assms(2)
    by (subst deal_loop.simps) (auto simp: farewell_def relevel_def client_Write_def split: option.splits if_splits)
next
  case (Cons c cs)
  have c: "CHR 0x0A \<notin> set c" "c \<noteq> []" "c \<noteq> [CHR 0x0D]" "good_command (c @ NL)"
    using Cons.prems(1) by (simp_all add: command_line_def)
  let ?rest = "concat (map (\<lambda>c. c @ NL) cs) @ tail"
  have rd: "ReadString (c @ NL @ ?rest) = Some (c @ NL, ?rest)" by (rule ReadString_line [OF c(1)])
  have blank: "\<not> (c @ NL = CHR 0x0D # NL \<or> c @ NL = NL)" using c(2,3) by (cases c) (auto simp: NL_def)
  have "console_ok (Suc (Suc (2 * length cs))) C (se_d st)" using Cons.prems(2) by simp
  from command_ok [OF this assms(3) c(4)] obtain fl st1 where
    st1: "command C h (c @ NL) st = Ret (fl, st1)" "no_panic fl"
    "ds_Global (se_d st1) = relevel (level_of (c @ NL)) (ds_Global (se_d st))" "console_ok (2 * length cs) C (se_d st1)" by blast
  define st2 where "st2 = (case fl of Bottom ret \<Rightarrow> client_Write (if ret then ''<ok'' @ NL else ''<err'' @ NL) st1 | _ \<Rightarrow> st1)"
  have run: "deal_loop C h (c @ NL @ ?rest) fin st = deal_loop C h ?rest fin st2"
    using rd blank st1(1,2) by (subst deal_loop.simps) (simp add: st2_def no_panic_def split: flow.splits)
  have "se_d st2 = se_d st1" by (simp add: st2_def split: flow.splits)
  then obtain st' said where
    "deal_loop C h ?rest fin st2 = Ret (None, st')" "ds_Global (se_d st') = relevel (asked_level cs None) (ds_Global (se_d st1))"
    "se_out st' = said @ bye"
    using Cons.IH [of st2] Cons.prems(1) st1(4) by auto
  moreover have "relevel (asked_level (c # cs) None) log = relevel (asked_level cs None) (relevel (level_of (c @ NL)) log)" for log
    using asked_level_start [of cs "level_of (c @ NL)"] by (simp add: relevel_relevel option.case_eq_if split: option.splits)
  ultimately show ?case using run st1(3) by simp
qed

text \<open>
  C27.  A session of the operations console whose commands the console can execute, with an application whose functions
  return and a logger with room for two records per command.  The session returns without a panic, the
  connection is closed, and the logger has the filters and writers it had, all at the level the last
  \<open>dlog\<close> command asked for, or at their old levels if none did.  Only the lines before the first empty line or
  the end of the input count: a last line that is not terminated and everything after an empty line is not executed, and the
  client is told why the session ended.
\<close>

theorem console_session_sets_level:
  assumes "list_all command_line cs" "farewell tail fin = Some bye" "calls_return h" "console_ok (2 * length cs) C (se_d st)"
  shows "\<exists>st' said. serve C h (concat (map (\<lambda>c. c @ NL) cs) @ tail) fin st = Ret (None, st') \<and> se_closed st'
    \<and> ds_Global (se_d st') = relevel (asked_level cs None) (ds_Global (se_d st)) \<and> se_out st' = said @ bye"
  using deal_loop_session [OF assms] by (auto simp: serve_def WithRecover_def dealCommand_def)

definition demo_helper :: "nat Helper" where
  "demo_helper =
     \<lparr>h_Host = 8080, h_listener = None, h_Updater = Some (\<lambda>k v t off w. (Inr True, w + 1)), h_Finder = Some (\<lambda>k w. (Inr (k, None), w)),
      h_Perfer = None, h_Stater = None, h_Deployer = None\<rparr>"

definition demo_console :: "string Console" where
  "demo_console =
     \<lparr>co_W = demo_caller, co_int = Itoa, co_err = id, co_file = id, co_pprof = (\<lambda>name t. name), co_trace = (\<lambda>t. Inl ''busy''),
      co_cpu = (\<lambda>t. Inl ''busy''), co_mem = (\<lambda>t. demo_stats 1), co_goroutines = (\<lambda>t. 3), co_marshal = (\<lambda>m. ''{}''),
      co_time = (\<lambda>s. ''now''), co_numerr = (\<lambda>s. ''invalid syntax'')\<rparr>"

definition demo_session :: "nat session" where
  "demo_session = \<lparr>se_d = demo_state, se_app = 0, se_out = [], se_closed = False, se_gcs = 0, se_slept = []\<rparr>"

lemma demo_console_ok: "n \<le> 1000 \<Longrightarrow> console_ok n demo_console (se_d demo_session)"
  using demo_ready(2)
  by (simp add: console_ok_def log_room_def demo_console_def demo_session_def demo_state_def NewConsoleLogWriter_def rc_new_def level_defs
       LogBufferLength_def demo_caller_def demo_runtime_def)

lemma demo_lines:
  "list_all command_line [''dlog 5'', ''dlog -1'']"
  "farewell (NL @ ''dlog 0'' @ NL) None = Some (''<<'' @ NL)" "asked_level [''dlog 5'', ''dlog -1''] None = Some 5"
  by code_simp+

theorem console_session_sets_level_witness:
  "\<exists>st' said. serve demo_console demo_helper (concat (map (\<lambda>c. c @ NL) [''dlog 5'', ''dlog -1'']) @ NL @ ''dlog 0'' @ NL) None demo_session
      = Ret (None, st') \<and> map (fi_Level \<circ> snd) (ds_Global (se_d st')) = [WARNING, WARNING] \<and> se_out st' = said @ ''<<'' @ NL"
proof -
  have "calls_return demo_helper" by (simp add: calls_return_def demo_helper_def)
  from console_session_sets_level [OF demo_lines(1,2) this demo_console_ok] obtain st' said where
    "serve demo_console demo_helper (concat (map (\<lambda>c. c @ NL) [''dlog 5'', ''dlog -1'']) @ NL @ ''dlog 0'' @ NL) None demo_session
      = Ret (None, st')" "se_out st' = said @ ''<<'' @ NL"
    "ds_Global (se_d st') = relevel (Some 5) (ds_Global (se_d demo_session))" unfolding demo_lines(3) by auto
  then show ?thesis by (auto simp: relevel_def demo_session_def demo_state_def level_defs)
qed

section \<open>What goes wrong\<close>

text \<open>\<open>find\<close> with fewer than two arguments slices beyond the words of the line: the session ends in a panic.\<close>

lemma find_without_key_panics:
  assumes "words_of data ! 0 = ''find''" "length (words_of data) < 3"
  shows "command C h data st = Ret (Panicked IndexOutOfRange, st)"
  using assms by (simp add: command_def Let_def cmd_find_def go_slice_def)

lemma find_ends_session:
  "serve C h (''find key'' @ NL @ rest) fin st
     = Ret (Some IndexOutOfRange, st\<lparr>se_d := stderr_line ''panic_recovered'' (se_d st), se_closed := True\<rparr>)"
proof -
  have "words_of (''find key'' @ NL) = [''find'', ''key'']" by code_simp
  then have c: "command C h (''find key'' @ NL) st = Ret (Panicked IndexOutOfRange, st)"
    by (intro find_without_key_panics) simp_all
  have rd: "ReadString (''find key'' @ NL @ rest) = Some (''find key'' @ NL, rest)" by (rule ReadString_line) simp
  have "deal_loop C h (''find key'' @ NL @ rest) fin st = Ret (Some IndexOutOfRange, st)"
    by (subst deal_loop.simps) (simp only: rd option.case prod.case c obind.simps flow.case, simp add: NL_def)
  then show ?thesis by (simp add: serve_def WithRecover_def dealCommand_def)
qed

text \<open>
  The console accepts the level 8, one above \<open>CRIT\<close>, and then panics when it is asked for the level.
\<close>

lemma level_eight_panics:
  assumes "words_of data = [''dlog'', ''-1'']" "\<And>l. rt_order (wr_R (co_W C)) l = l" "ds_Global (se_d st) \<noteq> []"
  shows "command C h data (st\<lparr>se_d := dlog_SetLevel 8 (se_d st)\<rparr>)
    = Ret (Panicked IndexOutOfRange, st\<lparr>se_d := dlog_SetLevel 8 (se_d st)\<rparr>)"
proof -
  have a: "Atoi ''-1'' = Some (-1)" by code_simp
  obtain tag filt fs where "ds_Global (se_d st) = (tag, filt) # fs" using assms(3) by (cases "ds_Global (se_d st)") auto
  then have "dlog_GetLevel (wr_R (co_W C)) (dlog_SetLevel 8 (se_d st)) = Inl IndexOutOfRange"
    using assms(2) by (simp add: dlog_GetLevel_def dlog_SetLevel_def Level_String_def level_index_def levelStrings_def)
  then show ?thesis using assms(1) a by (simp add: command_def cmd_dlog_def)
qed

text \<open>
  The names of profiles have the hour of a clock of twelve hours: a profile of the afternoon overwrites the one
  taken twelve hours earlier.
\<close>

lemma civil_twelve_hours:
  assumes "c_hour (civil_of tz t) < 12"
  shows "civil_of tz (t + 43200 * 1000000000) = (civil_of tz t)\<lparr>c_hour := c_hour (civil_of tz t) + 12\<rparr>"
proof -
  let ?s = "local_secs tz t"
  have s: "local_secs tz (t + 43200 * 1000000000) = ?s + 43200" by (simp add: local_secs_def)
  have r: "?s mod 86400 < 43200" using assms by (simp add: civil_of_def Let_def split: prod.splits)
  have q: "?s + 43200 = 86400 * (?s div 86400) + (?s mod 86400 + 43200)" by simp
  have m: "(?s + 43200) div 86400 = ?s div 86400" "(?s + 43200) mod 86400 = ?s mod 86400 + 43200"
    using r by (intro int_div_pos_eq [OF q] int_mod_pos_eq [OF q]; simp)+
  have sixty: "(x + 43200) div 60 = x div 60 + 12 * 60" "(x + 43200) div 3600 = x div 3600 + 12" "(x + 43200) mod 60 = x mod 60" for x :: int
    using div_mult_self1 [of 60 x 720] div_mult_self1 [of 3600 x 12] mod_mult_self1 [of x 720 60] by simp_all
  obtain y mo dy where date: "date_of_day (?s div 86400) = (y, mo, dy)" by (cases "date_of_day (?s div 86400)")
  show ?thesis unfolding civil_of_def Let_def s m date sixty mod_mult_self1 prod.case by simp
qed

lemma afternoon_overwrites_morning:
  assumes "c_hour (civil_of tz t) < 12"
  shows "prof_file kind ext tz (t + 43200 * 1000000000) = prof_file kind ext tz t"
  unfolding prof_file_def prof_stamp_def civil_twelve_hours [OF assms] Let_def by simp

text \<open>Every error of a TCP listener has the operation \<open>accept\<close>, so that the first one ends the console for good.\<close>

lemma accept_error_ends_console:
  "waitTcp C (map Conn cs @ AcceptErr (Some ''accept'') err # evs) d = Ret (served, stopped, d') \<Longrightarrow> served = cs \<and> stopped"
proof (induction cs arbitrary: served d')
  case Nil
  then show ?case by (cases "dlog_Info (co_W C) [''helper.waitTcp''] (ArgString ''Stoping Tcp Accept'') [] d") simp_all
next
  case (Cons c cs)
  then show ?case by (cases "waitTcp C (map Conn cs @ AcceptErr (Some ''accept'') err # evs) d") auto
qed

end
