(* ===== verification/Pc.thy ===== *)
theory Pc
  imports Utls
begin

text \<open>
  Performance counters (\<open>runtime/pc/pc.go\<close>): increments travel through a channel to one goroutine that adds
  them to counters, and once a minute a report swaps every counter with zero and sends the values in
  groups.

  The concurrent map of counters and the registry of timers are third-party packages: arguments
  (\<open>cmap\<close>, and the snapshots a report finds), with what the code relies on as the predicate
  \<open>cmap_laws\<close>.  A counter is a pointer: the package's own (\<open>Mine\<close>) or a variable of the application that the
  updater handed over (\<open>App\<close>).  Values are 64-bit words and wrap.  A report is one step: its swaps and the
  additions of the other goroutine are atomic operations on the same words.
\<close>

section \<open>State\<close>

datatype ptr = Mine nat | App nat

type_synonym pval = "ptr option"

record 'm cmap =
  mp_new :: 'm
  mp_get :: "string \<Rightarrow> 'm \<Rightarrow> pval option"
  mp_set :: "string \<Rightarrow> pval \<Rightarrow> 'm \<Rightarrow> 'm"
  mp_iter :: "'m \<Rightarrow> (string \<times> pval) list"

definition cmap_laws :: "'m cmap \<Rightarrow> bool" where
  "cmap_laws C =
     ((\<forall>k. mp_get C k (mp_new C) = None)
      \<and> (\<forall>k k' v m. mp_get C k (mp_set C k' v m) = (if k = k' then Some v else mp_get C k m))
      \<and> (\<forall>m. distinct (map fst (mp_iter C m)) \<and> map_of (mp_iter C m) = (\<lambda>k. mp_get C k m)))"

record pcReq =
  pr_Key :: string
  pr_Val :: int64

record costTimer =
  ct_Name :: string
  ct_Cost :: int64

record json =
  j_endpoint :: string
  j_timestamp :: int
  j_value :: int64
  j_tags :: string

type_synonym updater = "(string \<times> pval) list option"

record 'm pc_state =
  pc_initOnce :: bool
  pc_closeOnce :: bool
  pc_closed :: int
  pc_stopped :: bool
  pc_kMap :: 'm
  pc_heap :: "ptr \<Rightarrow> int64"
  pc_next :: nat
  pc_updater :: "updater option"
  pc_suffix :: "(string \<Rightarrow> string) option"
  pc_costTimerC :: "costTimer list"
  pc_perfCounterC :: "pcReq list"
  pc_costs :: "costTimer list"
  pc_url :: string
  pc_alerts :: nat
  pc_accepted :: "pcReq list"
  pc_swaps :: "(string \<times> int64) list"
  pc_sent :: "json list list"

definition defaultWorkerCount :: nat where "defaultWorkerCount = 512000"
definition defaultCostHandlerCount :: nat where "defaultCostHandlerCount = 2"
definition DefaultSendCountOnce :: int where "DefaultSendCountOnce = 35"

definition pc_init :: "'m cmap \<Rightarrow> 'm pc_state" where
  "pc_init C =
     \<lparr>pc_initOnce = False, pc_closeOnce = False, pc_closed = 0, pc_stopped = False, pc_kMap = mp_new C,
      pc_heap = (\<lambda>_. 0), pc_next = 0, pc_updater = None, pc_suffix = None, pc_costTimerC = [], pc_perfCounterC = [],
      pc_costs = [], pc_url = ''http://127.0.0.1:1988/v1/push'', pc_alerts = 0, pc_accepted = [], pc_swaps = [], pc_sent = []\<rparr>"

text \<open>
  \<open>pc_accepted\<close>, \<open>pc_swaps\<close> and \<open>pc_sent\<close> record what the goroutines exchanged: the requests put into the channel,
  the values swapped out of the counters and the groups handed to \<open>sendPcReport\<close>.
\<close>

text \<open>A new \<open>int64\<close> with a value, put into the map under a key.\<close>

definition set_new :: "'m cmap \<Rightarrow> string \<Rightarrow> int64 \<Rightarrow> 'm pc_state \<Rightarrow> 'm pc_state" where
  "set_new C k v s =
     s\<lparr>pc_heap := (pc_heap s)(Mine (pc_next s) := v), pc_next := pc_next s + 1,
       pc_kMap := mp_set C k (Some (Mine (pc_next s))) (pc_kMap s)\<rparr>"

definition SetSuffixDecider :: "(string \<Rightarrow> string) option \<Rightarrow> 'm pc_state \<Rightarrow> 'm pc_state" where
  "SetSuffixDecider d s = s\<lparr>pc_suffix := d\<rparr>"

definition SetUpdater :: "updater option \<Rightarrow> 'm pc_state \<Rightarrow> 'm pc_state" where
  "SetUpdater upd s = s\<lparr>pc_updater := upd\<rparr>"

definition initPerfCounter ::
  "'m cmap \<Rightarrow> string \<Rightarrow> updater option \<Rightarrow> string list \<Rightarrow> (string \<Rightarrow> string) option \<Rightarrow> 'm pc_state \<Rightarrow> 'm pc_state" where
  "initPerfCounter C tar upd initKeys decideSuffix s =
     (let s = s\<lparr>pc_costTimerC := [], pc_perfCounterC := []\<rparr>;
          s = (if tar \<noteq> [] then s\<lparr>pc_url := tar\<rparr> else s);
          s = s\<lparr>pc_updater := upd\<rparr>;
          s = foldl (\<lambda>s k. set_new C k 0 s) s initKeys
      in s\<lparr>pc_suffix := decideSuffix\<rparr>)"

definition InitPerfCounter :: "'m cmap \<Rightarrow> string \<Rightarrow> updater option \<Rightarrow> string list \<Rightarrow> 'm pc_state \<Rightarrow> 'm pc_state" where
  "InitPerfCounter C tar upd initKeys s =
     (let decideSuffix = (\<lambda>key. []);
          s = (if pc_initOnce s then s
               else (initPerfCounter C tar upd initKeys (Some decideSuffix) (s\<lparr>pc_initOnce := True\<rparr>))\<lparr>pc_closed := pc_closed s + 1\<rparr>)
      in SetUpdater upd (SetSuffixDecider (Some decideSuffix) s))"

definition pc_Init :: "'m cmap \<Rightarrow> 'm pc_state \<Rightarrow> 'm pc_state" where
  "pc_Init C s = InitPerfCounter C [] None [] s"

definition SetRunPort :: "int \<Rightarrow> 'm pc_state \<Rightarrow> 'm pc_state" where
  "SetRunPort runPort s = SetSuffixDecider (Some (\<lambda>key. ''-'' @ Itoa runPort)) s"

definition ClosePerfCounter :: "'m pc_state \<Rightarrow> 'm pc_state" where
  "ClosePerfCounter s =
     (if pc_closeOnce s then s else s\<lparr>pc_closeOnce := True, pc_closed := 0, pc_stopped := True\<rparr>)"

section \<open>Counting\<close>

definition pc_Incr :: "string \<Rightarrow> int64 \<Rightarrow> 'm pc_state \<Rightarrow> 'm pc_state" where
  "pc_Incr key val s =
     (if pc_closed s = 0 then s
      else if length (pc_perfCounterC s) < defaultWorkerCount
      then s\<lparr>pc_perfCounterC := pc_perfCounterC s @ [\<lparr>pr_Key = key, pr_Val = val\<rparr>],
             pc_accepted := pc_accepted s @ [\<lparr>pr_Key = key, pr_Val = val\<rparr>]\<rparr>
      else s\<lparr>pc_alerts := pc_alerts s + 1\<rparr>)"

definition CostFail :: "string \<Rightarrow> int64 \<Rightarrow> 'm pc_state \<Rightarrow> 'm pc_state" where
  "CostFail key val s = pc_Incr (key @ '',sum=fail'') val s"

definition ErrorIncr :: "string \<Rightarrow> int64 \<Rightarrow> 'm pc_state \<Rightarrow> 'm pc_state" where
  "ErrorIncr key val s = pc_Incr (key @ '',type=exceptionReport'') val s"

definition Cost :: "string \<Rightarrow> int64 \<Rightarrow> 'm pc_state \<Rightarrow> 'm pc_state" where
  "Cost name cost s =
     (if pc_closed s = 0 then s
      else if length (pc_costTimerC s) < defaultWorkerCount
      then s\<lparr>pc_costTimerC := pc_costTimerC s @ [\<lparr>ct_Name = name, ct_Cost = cost\<rparr>]\<rparr>
      else s\<lparr>pc_alerts := pc_alerts s + 1\<rparr>)"

definition incr :: "'m cmap \<Rightarrow> string \<Rightarrow> int64 \<Rightarrow> 'm pc_state \<Rightarrow> 'm pc_state go" where
  "incr C key val s =
     (case mp_get C key (pc_kMap s) of
        None \<Rightarrow> Inr s
      | Some None \<Rightarrow> Inl NilDeref
      | Some (Some p) \<Rightarrow> Inr (s\<lparr>pc_heap := (pc_heap s)(p := pc_heap s p + val)\<rparr>))"

text \<open>One turn of \<open>handlePc\<close> and of \<open>handleCostsNoPool\<close>; \<open>pc_costs\<close> are the updates of the timers so far.\<close>

definition handlePc :: "'m cmap \<Rightarrow> 'm pc_state \<Rightarrow> 'm pc_state go" where
  "handlePc C s =
     (case pc_perfCounterC s of
        [] \<Rightarrow> Inr s
      | c # q \<Rightarrow>
          (let s = s\<lparr>pc_perfCounterC := q\<rparr>;
               s = (if mp_get C (pr_Key c) (pc_kMap s) = None then set_new C (pr_Key c) 0 s else s)
           in incr C (pr_Key c) (pr_Val c) s))"

definition handleCostsNoPool :: "'m pc_state \<Rightarrow> 'm pc_state" where
  "handleCostsNoPool s =
     (case pc_costTimerC s of [] \<Rightarrow> s | c # q \<Rightarrow> s\<lparr>pc_costTimerC := q, pc_costs := pc_costs s @ [c]\<rparr>)"

section \<open>Reporting\<close>

text \<open>
  What a report finds: the timers of the registry with a snapshot (the rate times 60 and four percentiles
  as \<open>int64\<close>), the order in which it walks its maps, the number of goroutines, host name and time; the
  rate of failures is computed in floating point.
\<close>

record snapshot =
  sn_count :: int64
  sn_p95 :: int64
  sn_p99 :: int64
  sn_p995 :: int64
  sn_p999 :: int64

record report_env =
  re_timers :: "(string \<times> snapshot option) list"
  re_order :: "(string \<times> int64) list \<Rightarrow> (string \<times> int64) list"
  re_rate :: "int64 \<Rightarrow> int64 \<Rightarrow> int64"
  re_goroutines :: int64
  re_host :: "string option"
  re_now :: int

definition to_ms :: "int64 \<Rightarrow> int64" where
  "to_ms p = word_of_int (go_quot (sint p) 1000000)"

definition timer_entries :: "'m cmap \<Rightarrow> report_env \<Rightarrow> 'm pc_state \<Rightarrow> string \<Rightarrow> snapshot \<Rightarrow> (string \<times> int64) list" where
  "timer_entries C e s name snap =
     (let count = sn_count snap;
          skip = sint count < 30;
          cost = (if skip then '',sum=skipCost_ms_'' else '',sum=cost_ms_'')
      in [(name @ '',sum=count'', count),
          (name @ cost @ ''p95'', to_ms (sn_p95 snap)), (name @ cost @ ''p99'', to_ms (sn_p99 snap)),
          (name @ cost @ ''p995'', to_ms (sn_p995 snap)), (name @ cost @ ''p999'', to_ms (sn_p999 snap))]
         @ (case mp_get C (name @ '',sum=fail'') (pc_kMap s) of
              Some (Some p) \<Rightarrow>
                if sint count > 0
                then [(name @ (if skip then '',sum=skipFailRate'' else '',sum=failRate''), re_rate e (pc_heap s p) count)]
                else []
            | _ \<Rightarrow> []))"

definition timer_map :: "'m cmap \<Rightarrow> report_env \<Rightarrow> 'm pc_state \<Rightarrow> (string \<times> int64) list" where
  "timer_map C e s =
     foldl (\<lambda>acc (k, v). al_set k v acc) []
       (concat (map (\<lambda>(name, snap). case snap of Some sn \<Rightarrow> if name = [] then [] else timer_entries C e s name sn | None \<Rightarrow> [])
          (re_timers e)))"

definition set_updates :: "'m cmap \<Rightarrow> (string \<times> pval) list \<Rightarrow> 'm pc_state \<Rightarrow> 'm pc_state" where
  "set_updates C ups s = foldl (\<lambda>s (k, v). s\<lparr>pc_kMap := mp_set C k v (pc_kMap s)\<rparr>) s ups"

definition run_port :: "(string \<Rightarrow> string) option \<Rightarrow> int" where
  "run_port sufDecider =
     (case sufDecider of
        None \<Rightarrow> - 1
      | Some d \<Rightarrow>
          if HasPrefix (d []) ''-''
          then (case Atoi (drop 1 (d [])) of Some rp \<Rightarrow> if rp > 0 then rp else - 1 | None \<Rightarrow> - 1)
          else - 1)"

definition pc_tags :: "int \<Rightarrow> string \<Rightarrow> string" where
  "pc_tags runPort k = ''attr='' @ (if runPort > 0 then k @ '',port='' @ Itoa runPort else k)"

fun swap_loop :: "(string \<times> pval) list \<Rightarrow> (ptr \<Rightarrow> int64) \<Rightarrow> ((string \<times> int64) list \<times> (ptr \<Rightarrow> int64)) go" where
  "swap_loop [] h = Inr ([], h)"
| "swap_loop ((k, pv) # kvs) h =
     (case pv of
        None \<Rightarrow> Inl NilDeref
      | Some p \<Rightarrow> go_bind (swap_loop kvs (h(p := 0))) (\<lambda>(sw, h'). Inr ((k, h p) # sw, h')))"

definition pc_report :: "'m cmap \<Rightarrow> report_env \<Rightarrow> 'm pc_state \<Rightarrow> 'm pc_state go" where
  "pc_report C e s =
     (let s = foldl (\<lambda>s (k, v). set_new C k v s) s (re_order e (timer_map C e s));
          s = (case pc_updater s of Some (Some ups) \<Rightarrow> set_updates C ups s | _ \<Rightarrow> s);
          s = set_new C ''go_projects_goroutine_num'' (re_goroutines e) s
      in case re_host e of
           None \<Rightarrow> Inr s
         | Some hn \<Rightarrow>
             (let port = run_port (pc_suffix s)
              in go_bind (swap_loop (mp_iter C (pc_kMap s)) (pc_heap s)) (\<lambda>(sw, h).
                 let send = map (\<lambda>(k, v). \<lparr>j_endpoint = hn, j_timestamp = re_now e, j_value = v, j_tags = pc_tags port k\<rparr>) sw
                 in go_bind (SliceCutter send DefaultSendCountOnce) (\<lambda>reports.
                      Inr (s\<lparr>pc_heap := h, pc_swaps := pc_swaps s @ sw, pc_sent := pc_sent s @ reports\<rparr>)))))"

text \<open>
  \<open>sendPcReport\<close>: \<open>req\<close> says whether the request could be made of the url, \<open>resp\<close> is the status, the declared
  length and the bytes of one read of the body, \<open>err\<close> the error of the client.  It logs at debug level, or an
  error.
\<close>

datatype pc_log = PcOk "int \<times> string" | PcFail "int \<times> string" | PcMarshal

definition sendPcReport ::
  "bool \<Rightarrow> bool \<Rightarrow> (int \<times> int \<times> string) option \<Rightarrow> bool \<Rightarrow> pc_log go" where
  "sendPcReport marshalled req resp err =
     (if \<not> marshalled then Inr PcMarshal
      else if \<not> req then Inl NilDeref
      else (case resp of
              None \<Rightarrow> Inr (if err then PcFail (0, []) else PcOk (0, []))
            | Some (status, len, body) \<Rightarrow>
                if len < 0 then Inl IndexOutOfRange
                else (let bodyStr = take (nat len) body
                      in Inr (if err then PcFail (status, bodyStr) else PcOk (status, bodyStr)))))"

section \<open>Runs\<close>

datatype pc_event =
    PInit string "updater option" "string list" | PIncr string int64 | PCost string int64 | PTake | PTakeCost
  | PReport report_env | PSetUpdater "updater option" | PSetPort int | PSetSuffix "(string \<Rightarrow> string) option" | PClose

definition pc_step :: "'m cmap \<Rightarrow> pc_event \<Rightarrow> 'm pc_state \<Rightarrow> 'm pc_state go" where
  "pc_step C ev s =
     (case ev of
        PInit tar upd ks \<Rightarrow> Inr (InitPerfCounter C tar upd ks s)
      | PIncr k v \<Rightarrow> Inr (pc_Incr k v s)
      | PCost k v \<Rightarrow> Inr (Cost k v s)
      | PTake \<Rightarrow> handlePc C s
      | PTakeCost \<Rightarrow> Inr (handleCostsNoPool s)
      | PReport e \<Rightarrow> pc_report C e s
      | PSetUpdater upd \<Rightarrow> Inr (SetUpdater upd s)
      | PSetPort p \<Rightarrow> Inr (SetRunPort p s)
      | PSetSuffix d \<Rightarrow> Inr (SetSuffixDecider d s)
      | PClose \<Rightarrow> Inr (ClosePerfCounter s))"

fun pc_run :: "'m cmap \<Rightarrow> pc_event list \<Rightarrow> 'm pc_state \<Rightarrow> 'm pc_state go" where
  "pc_run C [] s = Inr s"
| "pc_run C (ev # evs) s = go_bind (pc_step C ev s) (pc_run C evs)"

section \<open>Every increment is reported once\<close>

text \<open>The updaters of the application hand over variables of their own, and not under the key \<open>k\<close>.\<close>

definition updater_ok :: "string \<Rightarrow> updater option \<Rightarrow> bool" where
  "updater_ok k upd =
     (case upd of Some (Some ups) \<Rightarrow> (\<forall>(k', v)\<in>set ups. k' \<noteq> k \<and> (\<exists>a. v = Some (App a))) | _ \<Rightarrow> True)"

definition timer_suffixes :: "string list" where
  "timer_suffixes =
     ['',sum=count'', '',sum=cost_ms_p95'', '',sum=cost_ms_p99'', '',sum=cost_ms_p995'', '',sum=cost_ms_p999'',
      '',sum=skipCost_ms_p95'', '',sum=skipCost_ms_p99'', '',sum=skipCost_ms_p995'', '',sum=skipCost_ms_p999'',
      '',sum=failRate'', '',sum=skipFailRate'']"

definition leaves_alone :: "string \<Rightarrow> pc_event \<Rightarrow> bool" where
  "leaves_alone k ev =
     (case ev of
        PInit tar upd ks \<Rightarrow> updater_ok k upd
      | PSetUpdater upd \<Rightarrow> updater_ok k upd
      | PReport e \<Rightarrow>
          k \<noteq> ''go_projects_goroutine_num'' \<and> (\<forall>xs. set (re_order e xs) = set xs)
          \<and> (\<forall>(name, sn)\<in>set (re_timers e). \<forall>suf\<in>set timer_suffixes. k \<noteq> name @ suf)
      | _ \<Rightarrow> True)"

definition total_of :: "string \<Rightarrow> (string \<times> int64) list \<Rightarrow> int64" where
  "total_of k xs = sum_list (map snd (filter (\<lambda>(k', v). k' = k) xs))"

abbreviation requests :: "pcReq list \<Rightarrow> (string \<times> int64) list" where
  "requests rs \<equiv> map (\<lambda>r. (pr_Key r, pr_Val r)) rs"

definition current :: "'m cmap \<Rightarrow> string \<Rightarrow> 'm pc_state \<Rightarrow> int64" where
  "current C k s = (case mp_get C k (pc_kMap s) of Some (Some p) \<Rightarrow> pc_heap s p | _ \<Rightarrow> 0)"

definition counters_ok :: "'m cmap \<Rightarrow> string \<Rightarrow> 'm pc_state \<Rightarrow> bool" where
  "counters_ok C k s =
     ((\<forall>k' a. mp_get C k' (pc_kMap s) = Some (Some (Mine a)) \<longrightarrow> a < pc_next s)
      \<and> (\<forall>k1 k2 a. mp_get C k1 (pc_kMap s) = Some (Some (Mine a)) \<longrightarrow> mp_get C k2 (pc_kMap s) = Some (Some (Mine a)) \<longrightarrow> k1 = k2)
      \<and> (\<forall>k'. mp_get C k' (pc_kMap s) \<noteq> Some None)
      \<and> (\<forall>a. mp_get C k (pc_kMap s) \<noteq> Some (Some (App a)))
      \<and> updater_ok k (pc_updater s)
      \<and> (\<not> pc_initOnce s \<longrightarrow> pc_closed s = 0 \<and> pc_perfCounterC s = [] \<and> mp_get C k (pc_kMap s) = None))"

definition conserved :: "'m cmap \<Rightarrow> string \<Rightarrow> 'm pc_state \<Rightarrow> bool" where
  "conserved C k s =
     (total_of k (requests (pc_accepted s))
        = total_of k (pc_swaps s) + current C k s + total_of k (requests (pc_perfCounterC s)))"

definition groups_ok :: "'m pc_state \<Rightarrow> bool" where
  "groups_ok s = ((\<forall>g\<in>set (pc_sent s). g \<noteq> [] \<and> length g \<le> 35) \<and> map j_value (concat (pc_sent s)) = map snd (pc_swaps s))"

lemma total_of_simps [simp]:
  "total_of k [] = 0"
  "total_of k ((k', v) # xs) = (if k' = k then v else 0) + total_of k xs"
  "total_of k (xs @ ys) = total_of k xs + total_of k ys"
  by (simp_all add: total_of_def)

lemma total_of_distinct: "distinct (map fst xs) \<Longrightarrow> total_of k xs = (case map_of xs k of Some v \<Rightarrow> v | None \<Rightarrow> 0)"
proof (induction xs)
  case (Cons kv xs)
  obtain k' v where kv: "kv = (k', v)" by fastforce
  have "k' \<notin> fst ` set xs" using Cons.prems kv by simp
  then have "k' = k \<Longrightarrow> map_of xs k = None" by (auto simp: map_of_eq_None_iff)
  then show ?case using Cons kv by auto
qed simp

lemma cmap_get_set: "cmap_laws C \<Longrightarrow> mp_get C k (mp_set C k' v m) = (if k = k' then Some v else mp_get C k m)"
  by (simp add: cmap_laws_def)

text \<open>A step that does not count: the counter of \<open>k\<close> and the records of the exchange stay.\<close>

definition keeps :: "'m cmap \<Rightarrow> string \<Rightarrow> 'm pc_state \<Rightarrow> 'm pc_state \<Rightarrow> bool" where
  "keeps C k s s' =
     (counters_ok C k s' \<and> current C k s' = current C k s \<and> pc_accepted s' = pc_accepted s \<and> pc_swaps s' = pc_swaps s
      \<and> pc_sent s' = pc_sent s \<and> pc_perfCounterC s' = pc_perfCounterC s \<and> pc_updater s' = pc_updater s
      \<and> pc_initOnce s' = pc_initOnce s)"

lemma keeps_trans: "keeps C k s s1 \<Longrightarrow> keeps C k s1 s2 \<Longrightarrow> keeps C k s s2"
  by (simp add: keeps_def)

lemma keeps_refl: "counters_ok C k s \<Longrightarrow> keeps C k s s"
  by (simp add: keeps_def)

lemma counters_okD:
  assumes "counters_ok C k s"
  shows "mp_get C k' (pc_kMap s) = Some (Some (Mine a)) \<Longrightarrow> a < pc_next s"
    and "mp_get C k1 (pc_kMap s) = Some (Some (Mine a)) \<Longrightarrow> mp_get C k2 (pc_kMap s) = Some (Some (Mine a)) \<Longrightarrow> k1 = k2"
    and "mp_get C k' (pc_kMap s) \<noteq> Some None"
    and "mp_get C k (pc_kMap s) \<noteq> Some (Some (App b))"
    and "updater_ok k (pc_updater s)"
    and "\<not> pc_initOnce s \<Longrightarrow> pc_closed s = 0 \<and> pc_perfCounterC s = [] \<and> mp_get C k (pc_kMap s) = None"
  using assms unfolding counters_ok_def by blast+

lemma own_counter:
  assumes "counters_ok C k s"
  obtains "mp_get C k (pc_kMap s) = None" | a where "mp_get C k (pc_kMap s) = Some (Some (Mine a))" "a < pc_next s"
proof (cases "mp_get C k (pc_kMap s)")
  case (Some pv)
  then obtain p where p: "pv = Some p" using counters_okD(3) [OF assms] by (cases pv) auto
  then obtain a where "p = Mine a" using counters_okD(4) [OF assms] Some by (cases p) auto
  then show ?thesis using that(2) Some p counters_okD(1) [OF assms] by blast
qed (use that in blast)

lemma current_get:
  "mp_get C k (pc_kMap s) = Some (Some p) \<Longrightarrow> current C k s = pc_heap s p"
  "mp_get C k (pc_kMap s) = None \<Longrightarrow> current C k s = 0"
  by (simp_all add: current_def)

lemma set_new_keeps:
  assumes C: "cmap_laws C" and ok: "counters_ok C k s" and kk: "k' = k \<Longrightarrow> pc_initOnce s \<and> v = current C k s"
  shows "keeps C k s (set_new C k' v s)"
proof -
  let ?s = "set_new C k' v s"
  have get: "mp_get C j (pc_kMap ?s) = (if j = k' then Some (Some (Mine (pc_next s))) else mp_get C j (pc_kMap s))" for j
    by (simp add: set_new_def cmap_get_set [OF C])
  have nx: "pc_next ?s = Suc (pc_next s)" by (simp add: set_new_def)
  have "counters_ok C k ?s"
    unfolding counters_ok_def
  proof (intro conjI allI impI)
    fix j a assume "mp_get C j (pc_kMap ?s) = Some (Some (Mine a))"
    then show "a < pc_next ?s" using counters_okD(1) [OF ok, of j a] by (auto simp: get nx split: if_splits)
  next
    fix j1 j2 a
    assume "mp_get C j1 (pc_kMap ?s) = Some (Some (Mine a))" "mp_get C j2 (pc_kMap ?s) = Some (Some (Mine a))"
    then show "j1 = j2"
      using counters_okD(1) [OF ok, of j1 a] counters_okD(1) [OF ok, of j2 a] counters_okD(2) [OF ok, of j1 a j2]
      by (auto simp: get split: if_splits)
  next
    fix j show "mp_get C j (pc_kMap ?s) \<noteq> Some None" using counters_okD(3) [OF ok, of j] by (simp add: get)
  next
    fix a show "mp_get C k (pc_kMap ?s) \<noteq> Some (Some (App a))" using counters_okD(4) [OF ok, of a] by (simp add: get)
  next
    show "updater_ok k (pc_updater ?s)" using counters_okD(5) [OF ok] by (simp add: set_new_def)
  next
    assume "\<not> pc_initOnce ?s"
    then have n: "\<not> pc_initOnce s" by (simp add: set_new_def)
    then have "k' \<noteq> k" using kk by blast
    then show "pc_closed ?s = 0" "pc_perfCounterC ?s = []" "mp_get C k (pc_kMap ?s) = None"
      using counters_okD(6) [OF ok n] by (simp_all add: get) (simp_all add: set_new_def)
  qed
  moreover have "current C k ?s = current C k s"
  proof (cases "k' = k")
    case True
    have "pc_heap ?s (Mine (pc_next s)) = v" by (simp add: set_new_def)
    then show ?thesis using kk True current_get(1) [of C k ?s "Mine (pc_next s)"] get by simp
  next
    case False
    from ok show ?thesis
    proof (rule own_counter)
      assume "mp_get C k (pc_kMap s) = None"
      then show ?thesis using False get current_get(2) by metis
    next
      fix a assume a: "mp_get C k (pc_kMap s) = Some (Some (Mine a))" "a < pc_next s"
      have "pc_heap ?s (Mine a) = pc_heap s (Mine a)" using a(2) by (simp add: set_new_def)
      then show ?thesis using a(1) False get current_get(1) by metis
    qed
  qed
  ultimately show ?thesis by (simp add: keeps_def set_new_def)
qed

lemma set_news_keep:
  assumes C: "cmap_laws C"
  shows "counters_ok C k s \<Longrightarrow> k \<notin> fst ` set kvs \<Longrightarrow> keeps C k s (foldl (\<lambda>s (j, v). set_new C j v s) s kvs)"
proof (induction kvs arbitrary: s)
  case Nil
  then show ?case by (simp add: keeps_refl)
next
  case (Cons jv kvs)
  obtain j v where jv: "jv = (j, v)" by fastforce
  have 1: "keeps C k s (set_new C j v s)" using set_new_keeps [OF C Cons.prems(1), of j v] Cons.prems(2) jv by auto
  then have "keeps C k (set_new C j v s) (foldl (\<lambda>s (j, v). set_new C j v s) (set_new C j v s) kvs)"
    using Cons.IH Cons.prems(2) by (auto simp: keeps_def)
  then show ?case using keeps_trans [OF 1] jv by simp
qed

lemma init_keys_keep:
  assumes C: "cmap_laws C"
  shows "counters_ok C k s \<Longrightarrow> pc_initOnce s \<Longrightarrow> current C k s = 0 \<Longrightarrow> keeps C k s (foldl (\<lambda>s j. set_new C j 0 s) s ks)"
proof (induction ks arbitrary: s)
  case Nil
  then show ?case by (simp add: keeps_refl)
next
  case (Cons j ks)
  have 1: "keeps C k s (set_new C j 0 s)" using set_new_keeps [OF C Cons.prems(1), of j 0] Cons.prems(2,3) by simp
  then have "keeps C k (set_new C j 0 s) (foldl (\<lambda>s j. set_new C j 0 s) (set_new C j 0 s) ks)"
    using Cons.IH [of "set_new C j 0 s"] Cons.prems(2,3) by (simp add: keeps_def)
  then show ?case using keeps_trans [OF 1] by simp
qed

lemma set_updates_keep:
  assumes C: "cmap_laws C"
  shows "counters_ok C k s \<Longrightarrow> \<forall>(j, v)\<in>set ups. j \<noteq> k \<and> (\<exists>a. v = Some (App a)) \<Longrightarrow> keeps C k s (set_updates C ups s)"
proof (induction ups arbitrary: s)
  case Nil
  then show ?case by (simp add: keeps_refl set_updates_def)
next
  case (Cons jv ups)
  obtain j a where jv: "jv = (j, Some (App a))" "j \<noteq> k" using Cons.prems(2) by (cases jv) auto
  let ?s = "s\<lparr>pc_kMap := mp_set C j (Some (App a)) (pc_kMap s)\<rparr>"
  have get: "mp_get C i (pc_kMap ?s) = (if i = j then Some (Some (App a)) else mp_get C i (pc_kMap s))" for i
    by (simp add: cmap_get_set [OF C])
  have "counters_ok C k ?s"
    unfolding counters_ok_def get using Cons.prems(1) jv(2) by (auto simp: counters_ok_def split: if_splits)
  then have 1: "keeps C k s ?s" using jv(2) by (simp add: keeps_def current_def cmap_get_set [OF C] split: option.split)
  then have "keeps C k ?s (set_updates C ups ?s)" using Cons.IH Cons.prems(2) by (auto simp: keeps_def)
  then show ?case using keeps_trans [OF 1] jv by (simp add: set_updates_def)
qed

text \<open>The invariant of a run, and the steps that change the counter of \<open>k\<close>.\<close>

definition pc_inv :: "'m cmap \<Rightarrow> string \<Rightarrow> 'm pc_state \<Rightarrow> bool" where
  "pc_inv C k s = (counters_ok C k s \<and> conserved C k s \<and> groups_ok s)"

lemma keeps_inv: "pc_inv C k s \<Longrightarrow> keeps C k s s' \<Longrightarrow> pc_inv C k s'"
  by (simp add: pc_inv_def keeps_def conserved_def groups_ok_def)

lemma handlePc_inv:
  assumes C: "cmap_laws C" and inv: "pc_inv C k s"
  shows "\<exists>s'. handlePc C s = Inr s' \<and> pc_inv C k s'"
proof (cases "pc_perfCounterC s")
  case Nil
  then show ?thesis using inv by (simp add: handlePc_def)
next
  case (Cons c q)
  let ?k = "pr_Key c" let ?v = "pr_Val c"
  define s1 where "s1 = s\<lparr>pc_perfCounterC := q\<rparr>"
  define s2 where "s2 = (if mp_get C ?k (pc_kMap s1) = None then set_new C ?k 0 s1 else s1)"
  have ok: "counters_ok C k s" using inv by (simp add: pc_inv_def)
  have started: "pc_initOnce s" using counters_okD(6) [OF ok] Cons by auto
  have ok1: "counters_ok C k s1" using ok started by (auto simp: counters_ok_def s1_def)
  have k2: "keeps C k s1 s2"
  proof (cases "mp_get C ?k (pc_kMap s1) = None")
    case True
    have "keeps C k s1 (set_new C ?k 0 s1)"
      by (rule set_new_keeps [OF C ok1]) (use True current_get(2) [of C k s1] started in \<open>simp add: s1_def\<close>)
    then show ?thesis using True by (simp add: s2_def)
  next
    case False
    then have "s2 = s1" unfolding s2_def by (rule if_not_P)
    then show ?thesis using keeps_refl [OF ok1] by simp
  qed
  have ok2: "counters_ok C k s2" using k2 by (simp add: keeps_def)
  have "mp_get C ?k (pc_kMap s2) \<noteq> None"
    by (auto simp: s2_def set_new_def cmap_get_set [OF C])
  then obtain p where p: "mp_get C ?k (pc_kMap s2) = Some (Some p)" using counters_okD(3) [OF ok2, of ?k] by auto
  let ?s = "s2\<lparr>pc_heap := (pc_heap s2)(p := pc_heap s2 p + ?v)\<rparr>"
  have "handlePc C s = incr C ?k ?v s2" using Cons by (simp add: handlePc_def Let_def s1_def s2_def)
  then have run: "handlePc C s = Inr ?s" using p by (simp add: incr_def)
  have cur: "current C k ?s = current C k s2 + (if ?k = k then ?v else 0)"
  proof (cases "?k = k")
    case True
    then show ?thesis using current_get(1) [of C k s2 p] current_get(1) [of C k ?s p] p by simp
  next
    case False
    from ok2 show ?thesis
    proof (rule own_counter)
      assume "mp_get C k (pc_kMap s2) = None"
      then show ?thesis using False current_get(2) [of C k s2] current_get(2) [of C k ?s] by simp
    next
      fix a assume a: "mp_get C k (pc_kMap s2) = Some (Some (Mine a))"
      then have "p \<noteq> Mine a" using p counters_okD(2) [OF ok2, of k a ?k] False by auto
      then show ?thesis using False a current_get(1) [of C k s2 "Mine a"] current_get(1) [of C k ?s "Mine a"] by simp
    qed
  qed
  have "current C k s1 = current C k s" by (simp add: current_def s1_def split: option.split)
  then have "current C k s2 = current C k s" using k2 by (simp add: keeps_def)
  then have "pc_inv C k ?s"
    using inv k2 ok2 cur Cons by (auto simp: pc_inv_def keeps_def s1_def conserved_def counters_ok_def groups_ok_def)
  then show ?thesis using run by blast
qed

lemma swap_loop_values:
  assumes "\<forall>(k, v)\<in>set kvs. v \<noteq> None" "distinct (map fst kvs)"
  shows "\<exists>sw h'. swap_loop kvs h = Inr (sw, h') \<and> map fst sw = map fst kvs
    \<and> (\<forall>p. h' p = (if Some p \<in> snd ` set kvs then 0 else h p))
    \<and> (\<forall>k p. (k, Some p) \<in> set kvs \<longrightarrow> (\<forall>k'. (k', Some p) \<in> set kvs \<longrightarrow> k' = k) \<longrightarrow> map_of sw k = Some (h p))"
  using assms
proof (induction kvs arbitrary: h)
  case (Cons kv kvs)
  obtain j q where kv: "kv = (j, Some q)" using Cons.prems(1) by (cases kv) auto
  have pre: "\<forall>(k, v)\<in>set kvs. v \<noteq> None" "distinct (map fst kvs)" "j \<notin> fst ` set kvs" using Cons.prems kv by auto
  from Cons.IH [OF pre(1,2), of "h(q := 0)"] obtain sw h' where
    sw: "swap_loop kvs (h(q := 0)) = Inr (sw, h')" "map fst sw = map fst kvs"
    "\<forall>p. h' p = (if Some p \<in> snd ` set kvs then 0 else (h(q := 0)) p)"
    "\<forall>k p. (k, Some p) \<in> set kvs \<longrightarrow> (\<forall>k'. (k', Some p) \<in> set kvs \<longrightarrow> k' = k) \<longrightarrow> map_of sw k = Some ((h(q := 0)) p)"
    by blast
  have "swap_loop (kv # kvs) h = Inr ((j, h q) # sw, h')" using sw(1) kv by simp
  moreover have "map fst ((j, h q) # sw) = map fst (kv # kvs)" using sw(2) kv by simp
  moreover have "\<forall>p. h' p = (if Some p \<in> snd ` set (kv # kvs) then 0 else h p)" using sw(3) kv by auto
  moreover have "map_of ((j, h q) # sw) k = Some (h p)"
    if "(k, Some p) \<in> set (kv # kvs)" "\<forall>k'. (k', Some p) \<in> set (kv # kvs) \<longrightarrow> k' = k" for k p
  proof (cases "k = j")
    case True
    then have "(k, Some p) \<notin> set kvs" using pre(3) by force
    then show ?thesis using that(1) kv True by auto
  next
    case False
    then have "(k, Some p) \<in> set kvs" using that(1) kv by auto
    moreover have "p \<noteq> q" using that(2) kv False by auto
    moreover have "\<forall>k'. (k', Some p) \<in> set kvs \<longrightarrow> k' = k" using that(2) by simp
    ultimately show ?thesis using sw(4) False by (metis fun_upd_other map_of_Cons_code(2))
  qed
  ultimately show ?case by blast
qed simp

lemma timer_entries_keys: "fst ` set (timer_entries C e s name sn) \<subseteq> (\<lambda>suf. name @ suf) ` set timer_suffixes"
  by (auto simp: timer_entries_def timer_suffixes_def Let_def split: option.splits if_splits)

lemma keys_foldl_al_set: "fst ` set (foldl (\<lambda>acc (k, v). al_set k v acc) acc xs) = fst ` set acc \<union> fst ` set xs"
proof (induction xs arbitrary: acc)
  case (Cons x xs)
  then show ?case by (cases x) (simp add: keys_al_set)
qed simp

lemma timer_map_keys:
  assumes "\<forall>(name, sn)\<in>set (re_timers e). \<forall>suf\<in>set timer_suffixes. k \<noteq> name @ suf"
  shows "k \<notin> fst ` set (timer_map C e s)"
proof -
  define G where "G = (\<lambda>name snap. case snap of Some sn \<Rightarrow> if name = [] then [] else timer_entries C e s name sn | None \<Rightarrow> [])"
  have "k \<notin> fst ` set (G name snap)" if "(name, snap) \<in> set (re_timers e)" for name snap
  proof (cases snap)
    case (Some sn)
    have "k \<notin> (\<lambda>suf. name @ suf) ` set timer_suffixes" using assms that by auto
    then have "k \<notin> fst ` set (timer_entries C e s name sn)" using timer_entries_keys [of C e s name sn] by blast
    then show ?thesis using Some by (simp add: G_def)
  qed (simp add: G_def)
  then have G: "k \<notin> fst ` set (case_prod G x)" if "x \<in> set (re_timers e)" for x using that by (cases x) simp
  have "k \<notin> fst ` set (concat (map (\<lambda>(name, snap). G name snap) (re_timers e)))"
  proof
    assume "k \<in> fst ` set (concat (map (\<lambda>(name, snap). G name snap) (re_timers e)))"
    then obtain x where "x \<in> set (re_timers e)" "k \<in> fst ` set (case_prod G x)" by force
    then show False using G by blast
  qed
  then show ?thesis unfolding timer_map_def keys_foldl_al_set G_def by simp
qed

lemma report_inv:
  assumes C: "cmap_laws C" and inv: "pc_inv C k s" and e: "leaves_alone k (PReport e)"
  shows "\<exists>s'. pc_report C e s = Inr s' \<and> pc_inv C k s'"
proof -
  define s1 where "s1 = foldl (\<lambda>s (k, v). set_new C k v s) s (re_order e (timer_map C e s))"
  define s2 where "s2 = (case pc_updater s1 of Some (Some ups) \<Rightarrow> set_updates C ups s1 | _ \<Rightarrow> s1)"
  define s3 where "s3 = set_new C ''go_projects_goroutine_num'' (re_goroutines e) s2"
  have ok: "counters_ok C k s" using inv by (simp add: pc_inv_def)
  have "k \<notin> fst ` set (re_order e (timer_map C e s))"
    using timer_map_keys [of e k C s] e by (simp add: leaves_alone_def)
  then have k1: "keeps C k s s1" unfolding s1_def by (rule set_news_keep [OF C ok])
  then have ok1: "counters_ok C k s1" by (simp add: keeps_def)
  have k2: "keeps C k s1 s2"
    using set_updates_keep [OF C ok1] keeps_refl [OF ok1] counters_okD(5) [OF ok1]
    by (auto simp: s2_def updater_ok_def split: option.splits)
  then have ok2: "counters_ok C k s2" by (simp add: keeps_def)
  have k3: "keeps C k s2 s3" unfolding s3_def by (rule set_new_keeps [OF C ok2]) (use e in \<open>simp add: leaves_alone_def\<close>)
  have inv3: "pc_inv C k s3" using keeps_inv [OF inv] keeps_trans [OF k1] keeps_trans [OF k2] k3 by blast
  then have ok3: "counters_ok C k s3" by (simp add: pc_inv_def)
  have R: "pc_report C e s =
        (case re_host e of None \<Rightarrow> Inr s3
         | Some hn \<Rightarrow> go_bind (swap_loop (mp_iter C (pc_kMap s3)) (pc_heap s3)) (\<lambda>(sw, h).
             go_bind (SliceCutter (map (\<lambda>(k, v). \<lparr>j_endpoint = hn, j_timestamp = re_now e, j_value = v,
                                     j_tags = pc_tags (run_port (pc_suffix s3)) k\<rparr>) sw) DefaultSendCountOnce) (\<lambda>reports.
               Inr (s3\<lparr>pc_heap := h, pc_swaps := pc_swaps s3 @ sw, pc_sent := pc_sent s3 @ reports\<rparr>))))"
    unfolding pc_report_def Let_def s1_def s2_def s3_def ..
  show ?thesis
  proof (cases "re_host e")
    case None
    then have "pc_report C e s = Inr s3" using R by simp
    then show ?thesis using inv3 by blast
  next
    case (Some hn)
    let ?kvs = "mp_iter C (pc_kMap s3)"
    have it: "distinct (map fst ?kvs)" "map_of ?kvs = (\<lambda>k. mp_get C k (pc_kMap s3))" using C by (simp_all add: cmap_laws_def)
    have nn: "\<forall>(j, v)\<in>set ?kvs. v \<noteq> None"
    proof
      fix x assume x: "x \<in> set ?kvs"
      obtain j v where jv: "x = (j, v)" by fastforce
      then have "mp_get C j (pc_kMap s3) = Some v" using map_of_is_SomeI [OF it(1)] it(2) x by metis
      then show "case x of (j, v) \<Rightarrow> v \<noteq> None" using counters_okD(3) [OF ok3, of j] jv by auto
    qed
    from swap_loop_values [OF nn it(1), of "pc_heap s3"] obtain sw h' where
      sw: "swap_loop ?kvs (pc_heap s3) = Inr (sw, h')" "map fst sw = map fst ?kvs"
      "\<forall>p. h' p = (if Some p \<in> snd ` set ?kvs then 0 else pc_heap s3 p)"
      "\<forall>j p. (j, Some p) \<in> set ?kvs \<longrightarrow> (\<forall>k'. (k', Some p) \<in> set ?kvs \<longrightarrow> k' = j) \<longrightarrow> map_of sw j = Some (pc_heap s3 p)"
      by blast
    define send where "send = map (\<lambda>(k, v). \<lparr>j_endpoint = hn, j_timestamp = re_now e, j_value = v,
                                     j_tags = pc_tags (run_port (pc_suffix s3)) k\<rparr>) sw"
    let ?s = "s3\<lparr>pc_heap := h', pc_swaps := pc_swaps s3 @ sw, pc_sent := pc_sent s3 @ chunks 35 send\<rparr>"
    have cut: "SliceCutter send DefaultSendCountOnce = Inr (chunks 35 send)"
      using SliceCutter_chunks [of 35 send] by (simp add: DefaultSendCountOnce_def)
    have run: "pc_report C e s = Inr ?s" using R Some sw(1) cut by (simp add: send_def)
    have tot: "total_of k sw = current C k s3 \<and> current C k ?s = 0"
    proof -
      have d: "total_of k sw = (case map_of sw k of Some v \<Rightarrow> v | None \<Rightarrow> 0)" using total_of_distinct [of sw k] sw(2) it(1) by simp
      from ok3 show ?thesis
      proof (rule own_counter)
        assume n: "mp_get C k (pc_kMap s3) = None"
        then have "k \<notin> fst ` set ?kvs" using it(2) by (metis map_of_eq_None_iff)
        then have "map_of sw k = None" using sw(2) by (metis list.set_map map_of_eq_None_iff)
        then show ?thesis using d n current_get(2) [of C k s3] current_get(2) [of C k ?s] by simp
      next
        fix a assume a: "mp_get C k (pc_kMap s3) = Some (Some (Mine a))"
        have mem: "(k, Some (Mine a)) \<in> set ?kvs" using a it(2) by (metis map_of_SomeD)
        have "j = k" if "(j, Some (Mine a)) \<in> set ?kvs" for j
          using map_of_is_SomeI [OF it(1) that] a it(2) counters_okD(2) [OF ok3, of j a k] by simp
        then have v: "map_of sw k = Some (pc_heap s3 (Mine a))" using sw(4) mem by blast
        have z: "h' (Mine a) = 0" using sw(3) mem by force
        show ?thesis using d v a z current_get(1) [of C k s3 "Mine a"] current_get(1) [of C k ?s "Mine a"] by simp
      qed
    qed
    have vals: "map j_value (concat (chunks 35 send)) = map snd sw"
      by (simp add: chunks_concat send_def split_def comp_def)
    have "pc_inv C k ?s"
      using inv3 tot vals chunks_length [of _ 35 send]
      by (auto simp: pc_inv_def conserved_def groups_ok_def counters_ok_def)
    then show ?thesis using run by blast
  qed
qed

lemma init_inv:
  assumes C: "cmap_laws C" and inv: "pc_inv C k s" and upd: "updater_ok k upd"
  shows "pc_inv C k (InitPerfCounter C tar upd ks s)"
proof (cases "pc_initOnce s")
  case True
  then show ?thesis
    using inv upd by (simp add: InitPerfCounter_def SetUpdater_def SetSuffixDecider_def Let_def pc_inv_def counters_ok_def
      conserved_def groups_ok_def current_def split: option.split)
next
  case False
  have ok: "counters_ok C k s" using inv by (simp add: pc_inv_def)
  note fresh = counters_okD(6) [OF ok False]
  define s1 where "s1 = s\<lparr>pc_initOnce := True, pc_costTimerC := [], pc_perfCounterC := [],
                          pc_url := (if tar \<noteq> [] then tar else pc_url s), pc_updater := upd\<rparr>"
  have i1: "pc_inv C k s1" using inv upd fresh
    by (simp add: s1_def pc_inv_def counters_ok_def conserved_def groups_ok_def current_def)
  have "current C k s1 = 0" using fresh by (simp add: current_def s1_def)
  then have k2: "keeps C k s1 (foldl (\<lambda>s j. set_new C j 0 s) s1 ks)"
    using init_keys_keep [OF C, of k s1 ks] i1 by (simp add: pc_inv_def s1_def)
  let ?s2 = "foldl (\<lambda>s j. set_new C j 0 s) s1 ks"
  have i2: "pc_inv C k ?s2" by (rule keeps_inv [OF i1 k2])
  have st: "pc_initOnce ?s2" using k2 by (simp add: keeps_def s1_def)
  have "InitPerfCounter C tar upd ks s = ?s2\<lparr>pc_suffix := Some (\<lambda>key. []), pc_closed := pc_closed s + 1, pc_updater := upd\<rparr>"
    using False by (simp add: InitPerfCounter_def initPerfCounter_def SetUpdater_def SetSuffixDecider_def Let_def s1_def)
  then show ?thesis using i2 st upd
    by (simp add: pc_inv_def counters_ok_def conserved_def groups_ok_def current_def split: option.split)
qed

lemma pc_step_inv:
  assumes C: "cmap_laws C" and inv: "pc_inv C k s" and e: "leaves_alone k ev"
  shows "\<exists>s'. pc_step C ev s = Inr s' \<and> pc_inv C k s'"
proof (cases ev)
  case (PInit tar upd ks)
  then show ?thesis using init_inv [OF C inv] e by (simp add: pc_step_def leaves_alone_def)
next
  case (PIncr j v)
  have "pc_closed s \<noteq> 0 \<Longrightarrow> pc_initOnce s" using inv by (auto simp: pc_inv_def counters_ok_def)
  then show ?thesis using inv PIncr
    by (simp add: pc_step_def pc_Incr_def pc_inv_def counters_ok_def conserved_def groups_ok_def current_def add_ac split: option.split)
next
  case PTake
  then show ?thesis using handlePc_inv [OF C inv] by (simp add: pc_step_def)
next
  case (PReport r)
  then show ?thesis using report_inv [OF C inv] e by (simp add: pc_step_def)
next
  case (PSetUpdater upd)
  then show ?thesis using inv e
    by (simp add: pc_step_def SetUpdater_def leaves_alone_def pc_inv_def counters_ok_def conserved_def groups_ok_def current_def split: option.split)
next
  case (PCost j v)
  then show ?thesis using inv
    by (simp add: pc_step_def Cost_def pc_inv_def counters_ok_def conserved_def groups_ok_def current_def split: option.split)
next
  case PTakeCost
  then show ?thesis using inv
    by (cases "pc_costTimerC s")
      (simp_all add: pc_step_def handleCostsNoPool_def pc_inv_def counters_ok_def conserved_def groups_ok_def current_def split: option.split)
next
  case (PSetPort p)
  then show ?thesis using inv
    by (simp add: pc_step_def SetRunPort_def SetSuffixDecider_def pc_inv_def counters_ok_def conserved_def groups_ok_def current_def split: option.split)
next
  case (PSetSuffix d)
  then show ?thesis using inv
    by (simp add: pc_step_def SetSuffixDecider_def pc_inv_def counters_ok_def conserved_def groups_ok_def current_def split: option.split)
next
  case PClose
  then show ?thesis using inv
    by (simp add: pc_step_def ClosePerfCounter_def pc_inv_def counters_ok_def conserved_def groups_ok_def current_def split: option.split)
qed

lemma pc_run_inv:
  assumes "cmap_laws C"
  shows "pc_inv C k s \<Longrightarrow> \<forall>ev\<in>set evs. leaves_alone k ev \<Longrightarrow> \<exists>s'. pc_run C evs s = Inr s' \<and> pc_inv C k s'"
proof (induction evs arbitrary: s)
  case (Cons ev evs)
  from pc_step_inv [OF assms Cons.prems(1), of ev] Cons.prems(2) obtain s1 where
    "pc_step C ev s = Inr s1" "pc_inv C k s1" by auto
  then show ?case using Cons.IH [of s1] Cons.prems(2) by simp
qed simp

lemma sendPcReport_panics:
  "isl (sendPcReport marshalled req resp err) \<longleftrightarrow>
     marshalled \<and> (\<not> req \<or> (\<exists>status len body. resp = Some (status, len, body) \<and> len < 0))"
  by (auto simp: sendPcReport_def Let_def split: option.splits prod.splits)


text \<open>A map for witnesses: an association list.\<close>

definition al_cmap :: "(string \<times> pval) list cmap" where
  "al_cmap = \<lparr>mp_new = [], mp_get = (\<lambda>k m. map_of m k), mp_set = al_set, mp_iter = (\<lambda>m. map (\<lambda>k. (k, the (map_of m k))) (remdups (map fst m)))\<rparr>"

lemma al_cmap_laws: "cmap_laws al_cmap"
proof -
  have "map_of (map (\<lambda>k. (k, the (map_of m k))) (remdups (map fst m))) k = map_of m k" for m :: "(string \<times> pval) list" and k
  proof (cases "map_of m k")
    case None
    then have "k \<notin> fst ` set (map (\<lambda>k. (k, the (map_of m k))) (remdups (map fst m)))"
      by (auto simp: map_of_eq_None_iff image_iff)
    then show ?thesis using None by (metis map_of_eq_None_iff)
  next
    case (Some v)
    then have "k \<in> fst ` set m" by (metis map_of_eq_None_iff option.distinct(1))
    then have "(k, v) \<in> set (map (\<lambda>k. (k, the (map_of m k))) (remdups (map fst m)))" using Some by (auto simp: image_iff)
    then show ?thesis using Some by (simp add: comp_def)
  qed
  then show ?thesis by (auto simp: cmap_laws_def al_cmap_def map_of_al_set comp_def)
qed

definition demo_report :: report_env where
  "demo_report = \<lparr>re_timers = [(''t'', Some \<lparr>sn_count = 40, sn_p95 = 0, sn_p99 = 0, sn_p995 = 0, sn_p999 = 0\<rparr>)], re_order = id,
     re_rate = (\<lambda>f c. 0), re_goroutines = 3, re_host = Some ''h'', re_now = 0\<rparr>"

definition demo_events :: "pc_event list" where
  "demo_events = [PInit [] None [], PIncr ''t,sum=fail'' 2, PTake, PReport demo_report, PIncr ''t,sum=fail'' 5, PTake, PIncr ''t,sum=fail'' 1]"


text \<open>
  A second initialisation drops the port and the updater that were set before, and a reply without a
  declared length ends the process.
\<close>

lemma second_init_resets: "pc_suffix (InitPerfCounter C tar None ks s) = Some (\<lambda>key. []) \<and> pc_updater (InitPerfCounter C tar None ks s) = None"
  by (simp add: InitPerfCounter_def SetUpdater_def SetSuffixDecider_def Let_def)

lemma chunked_reply_panics: "sendPcReport True True (Some (200, - 1, ''ok'')) False = Inl IndexOutOfRange"
  by (simp add: sendPcReport_def)

end
