(* ===== verification/Process.thy ===== *)
theory Process
  imports DlogWrapper Pc
begin

text \<open>
  The state of the process that packages above the run-time share: goroutine-local storage, performance counters and the
  logger; and computations on it that can panic and defer calls.  When the logger itself does not return, the state is
  the one before its call.
\<close>

section \<open>Computations with panics and deferred calls\<close>

type_synonym ('s, 'x) comp = "'s \<Rightarrow> 'x outcome \<times> 's"

definition creturn :: "'x \<Rightarrow> ('s, 'x) comp" where
  "creturn x s = (Ret x, s)"

definition cbind :: "('s, 'x) comp \<Rightarrow> ('x \<Rightarrow> ('s, 'y) comp) \<Rightarrow> ('s, 'y) comp" where
  "cbind m k s =
     (case m s of
        (Ret x, s) \<Rightarrow> k x s | (Panics p, s) \<Rightarrow> (Panics p, s) | (Blocks, s) \<Rightarrow> (Blocks, s) | (Exits n, s) \<Rightarrow> (Exits n, s))"

text \<open>A deferred call runs after a return and after a panic.\<close>

definition cdefer :: "('s, 'x) comp \<Rightarrow> ('s, unit) comp \<Rightarrow> ('s, 'x) comp" where
  "cdefer m fin s =
     (case m s of
        (Blocks, s) \<Rightarrow> (Blocks, s)
      | (Exits n, s) \<Rightarrow> (Exits n, s)
      | (r, s) \<Rightarrow> (case fin s of (Ret u, s) \<Rightarrow> (r, s) | (Panics p, s) \<Rightarrow> (Panics p, s) | (Blocks, s) \<Rightarrow> (Blocks, s) | (Exits n, s) \<Rightarrow> (Exits n, s)))"

section \<open>State\<close>

record 'm process =
  g_gl :: gl_state
  g_pc :: "'m pc_state"
  g_d :: dstate

text \<open>Calls of the other packages.\<close>

definition on_gl :: "(gl_state \<Rightarrow> ('x \<times> gl_state) go) \<Rightarrow> (('m, 'z) process_scheme, 'x) comp" where
  "on_gl f s = (case f (g_gl s) of Inl p \<Rightarrow> (Panics p, s) | Inr (x, g) \<Rightarrow> (Ret x, s\<lparr>g_gl := g\<rparr>))"

definition ask_gl :: "(gl_state \<Rightarrow> 'x go) \<Rightarrow> (('m, 'z) process_scheme, 'x) comp" where
  "ask_gl f s = (case f (g_gl s) of Inl p \<Rightarrow> (Panics p, s) | Inr x \<Rightarrow> (Ret x, s))"

definition do_gl :: "(gl_state \<Rightarrow> gl_state go) \<Rightarrow> (('m, 'z) process_scheme, unit) comp" where
  "do_gl f = on_gl (\<lambda>g. go_bind (f g) (\<lambda>g. Inr ((), g)))"

definition on_pc :: "('m pc_state \<Rightarrow> 'm pc_state) \<Rightarrow> (('m, 'z) process_scheme, unit) comp" where
  "on_pc f s = (Ret (), s\<lparr>g_pc := f (g_pc s)\<rparr>)"

definition caller_of :: "'a runtime \<Rightarrow> int \<Rightarrow> ('m, 'z) process_scheme \<Rightarrow> 'a caller" where
  "caller_of R goid s = \<lparr>wr_R = R, wr_goid = goid, wr_gl = g_gl s\<rparr>"

definition log_as :: "'a runtime \<Rightarrow> int \<Rightarrow> ('a caller \<Rightarrow> dstate \<Rightarrow> dstate outcome) \<Rightarrow> (('m, 'z) process_scheme, unit) comp" where
  "log_as R goid call s =
     (case call (caller_of R goid s) (g_d s) of
        Ret d \<Rightarrow> (Ret (), s\<lparr>g_d := d\<rparr>) | Panics p \<Rightarrow> (Panics p, s) | Blocks \<Rightarrow> (Blocks, s) | Exits n \<Rightarrow> (Exits n, s))"

text \<open>\<open>time.Now\<close>.\<close>

definition clock :: "'a runtime \<Rightarrow> (('m, 'z) process_scheme, int) comp" where
  "clock R s = (case st_Now R (g_d s) of (t, d) \<Rightarrow> (Ret t, s\<lparr>g_d := d\<rparr>))"

text \<open>\<open>Time.Sub\<close> saturates.\<close>

definition time_Sub :: "int \<Rightarrow> int \<Rightarrow> int64" where
  "time_Sub t u = word_of_int (max (- (2 ^ 63)) (min (2 ^ 63 - 1) (t - u)))"

section \<open>What reaches the writers\<close>

text \<open>Records with these levels and tags reached the writers, each once per filter that lets it pass, and nothing else did.\<close>

definition records_sent :: "(Level \<times> string) list \<Rightarrow> dstate \<Rightarrow> dstate \<Rightarrow> bool" where
  "records_sent ls d d' \<longleftrightarrow>
     ds_Global d' = ds_Global d
     \<and> (\<exists>rs. map (\<lambda>r. (lr_Level r, lr_Tag r)) rs = ls
          \<and> (\<forall>a. w_queue (ds_heap d' a) = w_queue (ds_heap d a) @ concat (map (\<lambda>r. replicate (passing (lr_Level r) a (ds_Global d)) r) rs)))"

lemma records_sent_none: "ds_Global d' = ds_Global d \<Longrightarrow> ds_heap d' = ds_heap d \<Longrightarrow> records_sent [] d d'"
  by (simp add: records_sent_def)

lemma records_sent_one:
  "ds_Global d' = ds_Global d \<Longrightarrow> (\<And>a. w_queue (ds_heap d' a) = w_queue (ds_heap d a) @ replicate (passing (lr_Level r) a (ds_Global d)) r)
   \<Longrightarrow> records_sent [(lr_Level r, lr_Tag r)] d d'"
  unfolding records_sent_def by (intro conjI exI [of _ "[r]"]) simp_all

lemma records_sent_append: "records_sent ls d d1 \<Longrightarrow> records_sent ls' d1 d2 \<Longrightarrow> records_sent (ls @ ls') d d2"
proof -
  assume "records_sent ls d d1" "records_sent ls' d1 d2"
  then obtain rs rs' where rs: "map (\<lambda>r. (lr_Level r, lr_Tag r)) rs = ls" "map (\<lambda>r. (lr_Level r, lr_Tag r)) rs' = ls'"
    and q: "\<And>a. w_queue (ds_heap d1 a) = w_queue (ds_heap d a) @ concat (map (\<lambda>r. replicate (passing (lr_Level r) a (ds_Global d)) r) rs)"
      "\<And>a. w_queue (ds_heap d2 a) = w_queue (ds_heap d1 a) @ concat (map (\<lambda>r. replicate (passing (lr_Level r) a (ds_Global d1)) r) rs')"
    and g: "ds_Global d1 = ds_Global d" "ds_Global d2 = ds_Global d1" unfolding records_sent_def by blast
  show ?thesis unfolding records_sent_def
    by (rule conjI, simp add: g, rule exI [of _ "rs @ rs'"]) (use rs q g in simp)
qed

lemma records_sent_fs [simp]: "records_sent ls d (d'\<lparr>ds_fs := f\<rparr>) = records_sent ls d d'" "records_sent ls (d\<lparr>ds_fs := f\<rparr>) d' = records_sent ls d d'"
  by (simp_all add: records_sent_def)

section \<open>Runs\<close>

lemma cbind_Ret [simp]: "m s = (Ret x, s') \<Longrightarrow> cbind m k s = k x s'"
  by (simp add: cbind_def)

lemma creturn_run [simp]: "creturn x s = (Ret x, s)"
  by (simp add: creturn_def)

lemma clock_run: "\<exists>t f. clock R s = (Ret t, s\<lparr>g_d := (g_d s)\<lparr>ds_fs := f\<rparr>\<rparr>)"
  by (simp add: clock_def st_Now_def os_Now_def) blast

lemma gl_Set_run:
  assumes "gl_inv (g_gl s)" "gl_private goid (g_gl s) = Some mp"
  shows "\<exists>g. on_gl (gl_Set goid k v) s = (Ret (), s\<lparr>g_gl := g\<rparr>) \<and> gl_inv g \<and> gl_private goid g = Some (mp(k \<mapsto> v))"
proof -
  obtain a where a: "gl_addr goid (g_gl s) = Some a" "mp = map_of (gl_heap (g_gl s) a)" using assms(2) by (auto simp: gl_private_def)
  obtain g where "gl_Set goid k v (g_gl s) = Inr ((), g)" "gl_inv g" "gl_private goid g = Some (map_of (al_set k v (gl_heap (g_gl s) a)))"
    unfolding gl_Set_def by (rule gl_update_step [OF assms(1), of goid "()" "\<lambda>cc. ((), al_set k v cc)"]) (use a(1) in simp)
  then show ?thesis using a(2) by (auto simp: on_gl_def map_of_al_set)
qed

lemma log_as_run:
  assumes "log_room (Suc n) R (g_d s)" "gl_inv (g_gl s)"
  shows "\<exists>d. log_as R goid (\<lambda>W. tag_at site lvl W stk tag arg0 args) s = (Ret (), s\<lparr>g_d := d\<rparr>) \<and> log_room n R d
    \<and> records_sent [(lvl, tag)] (g_d s) d"
proof -
  define r where "r = \<lparr>lr_Level = lvl, lr_Created = os_now (rt_os R) (fs_tick (ds_fs (g_d s))), lr_Source = caller_src (site # stk),
           lr_Message = message_of R arg0 args, lr_Tag = tag, lr_Ip = gl_str (caller_of R goid s) ''glClientIp'',
           lr_LogId = gl_str (caller_of R goid s) ''glLogId'', lr_Url = []\<rparr>"
  have W: "wr_R (caller_of R goid s) = R" "wr_gl (caller_of R goid s) = g_gl s" by (simp_all add: caller_of_def)
  obtain d where d: "tag_at site lvl (caller_of R goid s) stk tag arg0 args (g_d s) = Ret d" "ds_Global d = ds_Global (g_d s)" "log_room n R d"
    "\<forall>a. w_queue (ds_heap d a) = w_queue (ds_heap (g_d s) a) @ replicate (passing lvl a (ds_Global (g_d s))) r"
    using tag_at_room [of n "caller_of R goid s" "g_d s" site lvl stk tag arg0 args] assms unfolding W r_def by blast
  have "records_sent [(lr_Level r, lr_Tag r)] (g_d s) d" by (rule records_sent_one) (use d in \<open>simp_all add: r_def\<close>)
  then have "records_sent [(lvl, tag)] (g_d s) d" by (simp add: r_def)
  with d show ?thesis by (intro exI [of _ d]) (simp add: log_as_def)
qed

lemma dlog_calls:
  "dlog_WarnT W stk tag (ArgString x) args = tag_at ''dlog.WarnT'' WARNING W stk tag (ArgString x) args"
  "dlog_InfoT W stk tag (ArgString x) args = tag_at ''dlog.InfoT'' INFO W stk tag (ArgString x) args"
  "dlog_Critical W stk (ArgString x) args = tag_at ''dlog.Critical'' CRITICAL W stk [] (ArgString x) args"
  "dlog_Warn W stk (ArgString x) args = tag_at ''dlog.Warn'' WARNING W stk [] (ArgString x) args"
  "dlog_Error W stk (ArgString x) args = tag_at ''dlog.Error'' ERROR W stk [] (ArgString x) args"
  "dlog_Info W stk (ArgString x) args = tag_at ''dlog.Info'' INFO W stk [] (ArgString x) args"
  by (rule ext, simp add: dlog_WarnT_def dlog_InfoT_def dlog_Critical_def dlog_Warn_def dlog_Error_def dlog_Info_def)+

end
