(* ===== verification/Dgrpc.thy ===== *)
theory Dgrpc
  imports Process
begin

text \<open>
  The gRPC package (\<open>net/dgrpc\<close>): the interceptors a server and a client are built with.

  An interceptor takes the method and the next handler and gives a handler, a computation on the state of the process
  (\<open>Process\<close>) extended by cancelled contexts and the headers of streams (\<open>grpc_state\<close>).

  The gRPC library and its middleware are third-party: arguments collected in \<open>grpc_lib\<close>.  What the properties rely on,
  the order of a chain, recovery, and the code of an internal error, is stated as \<open>lib_laws\<close>.
\<close>

section \<open>State\<close>

text \<open>Metadata is a Go map; a context carries the metadata of both directions, a peer, a deadline and its cancel functions.\<close>

type_synonym md = "string \<Rightarrow> string list option"

record ctx =
  cx_incoming :: "md option"
  cx_outgoing :: "md option"
  cx_peer :: "string option option"
  cx_deadline :: "int option"
  cx_cancels :: "nat list"

record 'm grpc_state = "'m process" +
  g_cancelled :: "nat list"
  g_nextctx :: nat
  g_headers :: "md list"

type_synonym ('m, 'c, 'x) handler = "'c \<Rightarrow> ('m grpc_state, 'x) comp"
type_synonym ('m, 'c, 'x) interceptor = "string \<Rightarrow> ('m, 'c, 'x) handler \<Rightarrow> ('m, 'c, 'x) handler"

datatype ('q, 'r) logval = LReq 'q | LResp "'r option" | LText string | LCost int64 | LGl "(string \<times> gany) list"

text \<open>A unary call has a context and a request, its result a response and an error; a stream has a context and results in an error.\<close>

type_synonym ('q, 'r, 'e, 'm) unary_server = "('m, ctx \<times> 'q, 'r option \<times> 'e option) interceptor"
type_synonym ('e, 'm) stream_server = "('m, ctx, 'e option) interceptor"
type_synonym ('q, 'e, 'm) unary_client = "('m, ctx \<times> 'q, 'e option) interceptor"
type_synonym ('cs, 'e, 'm) stream_client = "('m, ctx, 'cs option \<times> 'e option) interceptor"

record ('a, 'q, 'r, 'e, 'cs, 'm) grpc_lib =
  l_R :: "'a runtime"
  l_goid :: int
  l_F :: "nat floats"
  l_err :: "'e \<Rightarrow> string"
  l_Code :: "'e option \<Rightarrow> nat"
  l_CodeName :: "nat \<Rightarrow> string"
  l_Internal :: "go_panic \<Rightarrow> 'e"
  l_MdSet :: "string \<Rightarrow> string list \<Rightarrow> md \<Rightarrow> md"
  l_MdPairs :: "(string \<times> string) list \<Rightarrow> md"
  l_marshal :: "(string \<times> ('q, 'r) logval) list \<Rightarrow> string + string"
  l_sprintKey :: "gany \<Rightarrow> string"
  l_order :: "(gany \<times> gany) list \<Rightarrow> (gany \<times> gany) list"
  l_md5 :: "string \<Rightarrow> byte list"
  l_rand :: "int \<Rightarrow> nat \<Rightarrow> nat"
  l_stack :: "go_panic \<Rightarrow> string"
  l_str :: "string \<Rightarrow> 'a"
  l_sprint :: "'a list \<Rightarrow> string"
  l_chainUS :: "('q, 'r, 'e, 'm) unary_server list \<Rightarrow> ('q, 'r, 'e, 'm) unary_server"
  l_chainSS :: "('e, 'm) stream_server list \<Rightarrow> ('e, 'm) stream_server"
  l_recoverU :: "(go_panic \<Rightarrow> ('m grpc_state, 'e) comp) \<Rightarrow> ('q, 'r, 'e, 'm) unary_server"
  l_recoverS :: "(go_panic \<Rightarrow> ('m grpc_state, 'e) comp) \<Rightarrow> ('e, 'm) stream_server"
  l_retryU :: "nat \<Rightarrow> int64 \<Rightarrow> nat list \<Rightarrow> ('q, 'e, 'm) unary_client"
  l_retryS :: "nat \<Rightarrow> int64 \<Rightarrow> nat list \<Rightarrow> ('cs, 'e, 'm) stream_client"

definition on_log :: "('a, 'q, 'r, 'e, 'cs, 'm) grpc_lib \<Rightarrow> ('a caller \<Rightarrow> dstate \<Rightarrow> dstate outcome) \<Rightarrow> ('m grpc_state, unit) comp" where
  "on_log L call = log_as (l_R L) (l_goid L) call"

definition Now :: "('a, 'q, 'r, 'e, 'cs, 'm) grpc_lib \<Rightarrow> ('m grpc_state, int) comp" where
  "Now L = clock (l_R L)"

section \<open>Helpers\<close>

definition GetClientIP :: "ctx \<Rightarrow> string" where
  "GetClientIP c =
     (case cx_peer c of
        None \<Rightarrow> []
      | Some None \<Rightarrow> []
      | Some (Some addr) \<Rightarrow>
          let addSlice = strings_Split addr '':''
          in if length addSlice < 1 then [] else if addSlice ! 0 = ''['' then ''127.0.0.1'' else addSlice ! 0)"

definition ShouldFail4Code :: "nat \<Rightarrow> bool" where
  "ShouldFail4Code c = (c = 8 \<or> c = 2 \<or> c = 13 \<or> c = 12 \<or> c = 4)"

definition hex_digit :: "nat \<Rightarrow> char" where
  "hex_digit n = (if n < 10 then char_of (48 + n) else char_of (87 + n))"

definition hex_EncodeToString :: "byte list \<Rightarrow> string" where
  "hex_EncodeToString bs = concat (map (\<lambda>b. [hex_digit (unat b div 16), hex_digit (unat b mod 16)]) bs)"

text \<open>\<open>utls.TraceId\<close>: two random numbers and the clock, hashed; \<open>Sum\<close> appends the hash to its argument.\<close>

definition TraceId :: "('a, 'q, 'r, 'e, 'cs, 'm) grpc_lib \<Rightarrow> ('m grpc_state, string) comp" where
  "TraceId L =
     cbind (Now L) (\<lambda>t.
     cbind (Now L) (\<lambda>u s.
       (Ret (hex_EncodeToString ([0x67, 0x64] @ l_md5 L
               (itoa_nat (l_rand L t 0) @ ''-'' @ Itoa u @ ''-'' @ itoa_nat (l_rand L t 1)))), s)))"

text \<open>\<open>utls.MustString\<close> of a value found in goroutine-local storage.\<close>

definition gval_of :: "gany option \<Rightarrow> 'f gval" where
  "gval_of v =
     (case v of
        Some (AStr s) \<Rightarrow> GString s | Some (ABool b) \<Rightarrow> gval.GBool b | Some (AInt64 n) \<Rightarrow> GInt64 n
      | Some ANil \<Rightarrow> GNil | None \<Rightarrow> GNil | _ \<Rightarrow> GOther)"

section \<open>Goroutine-local storage\<close>

text \<open>The client interceptors for unary calls and streams differ in their types only, and so do the server's.\<close>

definition ClientCtxInterceptor :: "('a, 'q, 'r, 'e, 'cs, 'm) grpc_lib \<Rightarrow> ('m, 'c, 'x) interceptor" where
  "ClientCtxInterceptor L m invoker c =
     cbind (ask_gl (gl_Exist (l_goid L))) (\<lambda>there.
       if \<not> there
       then cbind (do_gl (gl_Init (l_goid L))) (\<lambda>u. cdefer (invoker c) (do_gl (gl_Close (l_goid L))))
       else invoker c)"

definition ServerCtxInterceptor :: "('a, 'q, 'r, 'e, 'cs, 'm) grpc_lib \<Rightarrow> ('m, 'c, 'x) interceptor" where
  "ServerCtxInterceptor L m handler c =
     cbind (do_gl (gl_Init (l_goid L))) (\<lambda>u. cdefer (handler c) (do_gl (gl_Close (l_goid L))))"

definition UnaryClientCtxInterceptor :: "('a, 'q, 'r, 'e, 'cs, 'm) grpc_lib \<Rightarrow> ('q, 'e, 'm) unary_client" where
  "UnaryClientCtxInterceptor L = ClientCtxInterceptor L"

definition StreamClientCtxInterceptor :: "('a, 'q, 'r, 'e, 'cs, 'm) grpc_lib \<Rightarrow> ('cs, 'e, 'm) stream_client" where
  "StreamClientCtxInterceptor L = ClientCtxInterceptor L"

definition StreamServerCtxInterceptor :: "('a, 'q, 'r, 'e, 'cs, 'm) grpc_lib \<Rightarrow> ('e, 'm) stream_server" where
  "StreamServerCtxInterceptor L = ServerCtxInterceptor L"

definition UnaryServerCtxInterceptor :: "('a, 'q, 'r, 'e, 'cs, 'm) grpc_lib \<Rightarrow> ('q, 'r, 'e, 'm) unary_server" where
  "UnaryServerCtxInterceptor L = ServerCtxInterceptor L"

section \<open>Performance counters and trace ids\<close>

definition metaTraceId :: string where "metaTraceId = ''_traceId''"

text \<open>The trace id of the incoming metadata; the index is the key as it is written.\<close>

definition incoming_trace :: "ctx \<Rightarrow> string" where
  "incoming_trace c =
     (case cx_incoming c of
        None \<Rightarrow> []
      | Some md \<Rightarrow> (case md metaTraceId of Some (t # ts) \<Rightarrow> t | _ \<Rightarrow> []))"

text \<open>The id of the goroutine or a new one; \<open>TraceId\<close> is called in any case, as an argument.\<close>

definition local_trace :: "('a, 'q, 'r, 'e, 'cs, 'm) grpc_lib \<Rightarrow> ('m grpc_state, string) comp" where
  "local_trace L =
     cbind (ask_gl (gl_Get (l_goid L) (AStr ''glLogId''))) (\<lambda>logId.
     cbind (TraceId L) (\<lambda>fresh. creturn (MustString (l_F L) (gval_of logId) fresh)))"

definition set_trace :: "('a, 'q, 'r, 'e, 'cs, 'm) grpc_lib \<Rightarrow> string \<Rightarrow> ('m grpc_state, unit) comp" where
  "set_trace L traceId =
     cbind (on_gl (gl_Set (l_goid L) (AStr metaTraceId) (AStr traceId))) (\<lambda>u.
       on_gl (gl_Set (l_goid L) (AStr ''glLogId'') (AStr traceId)))"

definition ensureTraceId :: "('a, 'q, 'r, 'e, 'cs, 'm) grpc_lib \<Rightarrow> ctx \<Rightarrow> ('m grpc_state, ctx) comp" where
  "ensureTraceId L c =
     (let traceId = incoming_trace c;
          md = (case cx_incoming c of None \<Rightarrow> l_MdPairs L [] | Some md \<Rightarrow> md)
      in if traceId = []
         then cbind (local_trace L) (\<lambda>traceId.
              cbind (set_trace L traceId) (\<lambda>u.
                creturn (c\<lparr>cx_outgoing := Some (l_MdSet L metaTraceId [traceId] md)\<rparr>)))
         else cbind (set_trace L traceId) (\<lambda>u. creturn c))"

definition ensureTraceIdStream :: "('a, 'q, 'r, 'e, 'cs, 'm) grpc_lib \<Rightarrow> ctx \<Rightarrow> ('m grpc_state, unit) comp" where
  "ensureTraceIdStream L c =
     (if incoming_trace c = []
      then cbind (local_trace L) (\<lambda>traceId.
           cbind (\<lambda>s. (Ret (), s\<lparr>g_headers := g_headers s @ [l_MdPairs L [(metaTraceId, traceId)]]\<rparr>)) (\<lambda>u.
             set_trace L traceId))
      else set_trace L (incoming_trace c))"

definition pc_key :: "string \<Rightarrow> string \<Rightarrow> string \<Rightarrow> string" where
  "pc_key service m st = ''service='' @ service @ '',method='' @ m @ '',st='' @ st"

text \<open>What is counted after the call of a client and of a server.\<close>

definition client_counts :: "('a, 'q, 'r, 'e, 'cs, 'm) grpc_lib \<Rightarrow> string \<Rightarrow> string \<Rightarrow> int64 \<Rightarrow> 'e option \<Rightarrow> ('m grpc_state, unit) comp" where
  "client_counts L service m cost err =
     cbind (on_pc (Cost (pc_key service m ''client'') cost)) (\<lambda>u.
     cbind (on_gl (gl_IncrCountKey (l_goid L) m 1)) (\<lambda>n.
     cbind (on_gl (gl_IncrCostKey (l_goid L) m cost)) (\<lambda>n.
       if err \<noteq> None
       then cbind (on_pc (CostFail (pc_key service m ''client'') 1)) (\<lambda>u.
            cbind (on_gl (gl_IncrFailKey (l_goid L) m 1)) (\<lambda>n. creturn ()))
       else creturn ())))"

definition server_counts :: "string \<Rightarrow> string \<Rightarrow> int64 \<Rightarrow> 'e option \<Rightarrow> ('m grpc_state, unit) comp" where
  "server_counts service m cost err =
     cbind (on_pc (Cost (pc_key service m ''server'') cost)) (\<lambda>u.
       if err \<noteq> None then on_pc (CostFail (pc_key service m ''server'') 1) else creturn ())"

definition UnaryClientPerfCounterInterceptor :: "('a, 'q, 'r, 'e, 'cs, 'm) grpc_lib \<Rightarrow> string \<Rightarrow> ('q, 'e, 'm) unary_client" where
  "UnaryClientPerfCounterInterceptor L service m invoker cq =
     cbind (Now L) (\<lambda>st.
     cbind (ensureTraceId L (fst cq)) (\<lambda>c.
     cbind (invoker (c, snd cq)) (\<lambda>err.
     cbind (Now L) (\<lambda>t.
     cbind (client_counts L service m (time_Sub t st) err) (\<lambda>u. creturn err)))))"

definition StreamClientPerfCounterInterceptor :: "('a, 'q, 'r, 'e, 'cs, 'm) grpc_lib \<Rightarrow> string \<Rightarrow> ('cs, 'e, 'm) stream_client" where
  "StreamClientPerfCounterInterceptor L service m streamer c =
     cbind (Now L) (\<lambda>st.
     cbind (ensureTraceId L c) (\<lambda>c.
     cbind (streamer c) (\<lambda>(cs, err).
     cbind (Now L) (\<lambda>t.
     cbind (client_counts L service m (time_Sub t st) err) (\<lambda>u. creturn (cs, err))))))"

definition StreamServerPerfCounterInterceptor :: "('a, 'q, 'r, 'e, 'cs, 'm) grpc_lib \<Rightarrow> string \<Rightarrow> ('e, 'm) stream_server" where
  "StreamServerPerfCounterInterceptor L service m handler c =
     cbind (Now L) (\<lambda>st.
     cbind (ensureTraceIdStream L c) (\<lambda>u.
     cbind (handler c) (\<lambda>err.
     cbind (Now L) (\<lambda>t.
     cbind (server_counts service m (time_Sub t st) err) (\<lambda>u. creturn err)))))"

definition UnaryServerPerfCounterInterceptor :: "('a, 'q, 'r, 'e, 'cs, 'm) grpc_lib \<Rightarrow> string \<Rightarrow> ('q, 'r, 'e, 'm) unary_server" where
  "UnaryServerPerfCounterInterceptor L service m handler cq =
     cbind (Now L) (\<lambda>st.
     cbind (ensureTraceId L (fst cq)) (\<lambda>c.
     cbind (handler (c, snd cq)) (\<lambda>(resp, err).
     cbind (Now L) (\<lambda>t.
     cbind (server_counts service m (time_Sub t st) err) (\<lambda>u. creturn (resp, err))))))"

section \<open>Session log\<close>

text \<open>Client address and method in goroutine-local storage.\<close>

definition note_session :: "('a, 'q, 'r, 'e, 'cs, 'm) grpc_lib \<Rightarrow> string \<Rightarrow> ctx \<Rightarrow> ('m grpc_state, unit) comp" where
  "note_session L m c =
     cbind (if GetClientIP c \<noteq> [] then on_gl (gl_Set (l_goid L) (AStr ''glClientIp'') (AStr (GetClientIP c))) else creturn ()) (\<lambda>u.
       on_gl (gl_Set (l_goid L) (AStr ''glUrl'') (AStr m)))"

definition gl_dump :: "('a, 'q, 'r, 'e, 'cs, 'm) grpc_lib \<Rightarrow> bool \<Rightarrow> ('m grpc_state, (string \<times> ('q, 'r) logval) list) comp" where
  "gl_dump L wanted =
     (if wanted
      then cbind (ask_gl (JsonCurrentGlData (l_sprintKey L) (l_order L) (l_goid L))) (\<lambda>kvs. creturn [(''gl'', LGl kvs)])
      else creturn [])"

definition err_field :: "('a, 'q, 'r, 'e, 'cs, 'm) grpc_lib \<Rightarrow> 'e option \<Rightarrow> (string \<times> ('q, 'r) logval) list" where
  "err_field L err = (case err of None \<Rightarrow> [] | Some e \<Rightarrow> [(''err'', LText (l_err L e))])"

text \<open>The end of both interceptors: the record of the session, or a warning when it cannot be marshalled.\<close>

definition log_session ::
  "('a, 'q, 'r, 'e, 'cs, 'm) grpc_lib \<Rightarrow> string list \<Rightarrow> bool \<Rightarrow> string \<Rightarrow> (string \<times> ('q, 'r) logval) list \<Rightarrow> ('m grpc_state, unit) comp" where
  "log_session L stk warn m logData =
     (case l_marshal L logData of
        Inl e \<Rightarrow> on_log L (\<lambda>W. dlog_Warn W stk (ArgString ''logData json marshal fail, error:%s'') [l_str L e])
      | Inr js \<Rightarrow>
          if warn then on_log L (\<lambda>W. dlog_WarnT W stk ''SESSION'' (ArgString (m @ '' '' @ js)) [])
          else on_log L (\<lambda>W. dlog_InfoT W stk ''SESSION'' (ArgString (m @ '' '' @ js)) []))"

definition StreamServerLoggerInterceptor :: "('a, 'q, 'r, 'e, 'cs, 'm) grpc_lib \<Rightarrow> ('e, 'm) stream_server" where
  "StreamServerLoggerInterceptor L m handler c =
     cbind (Now L) (\<lambda>st.
     cbind (note_session L m c) (\<lambda>u.
     cbind (handler c) (\<lambda>err.
     cbind (Now L) (\<lambda>t.
       let costMs = duration_ms (time_Sub t st); code = l_Code L err
       in cbind (gl_dump L (50 \<le> sint costMs \<or> err \<noteq> None)) (\<lambda>gld.
          cbind (log_session L [''dgrpc.StreamServerLogger''] True m
                   ([(''code'', LText (l_CodeName L code))] @ err_field L err @ [(''cost'', LCost costMs)] @ gld)) (\<lambda>u.
            creturn err))))))"

definition UnaryServerLoggerInterceptor :: "('a, 'q, 'r, 'e, 'cs, 'm) grpc_lib \<Rightarrow> ('q, 'r, 'e, 'm) unary_server" where
  "UnaryServerLoggerInterceptor L m handler cq =
     cbind (Now L) (\<lambda>st.
     cbind (note_session L m (fst cq)) (\<lambda>u.
     cbind (handler cq) (\<lambda>(resp, err).
     cbind (Now L) (\<lambda>t.
       let costMs = duration_ms (time_Sub t st); code = l_Code L err
       in cbind (gl_dump L (50 < sint costMs \<or> err \<noteq> None)) (\<lambda>gld.
          cbind (log_session L [''dgrpc.UnaryServerLogger''] (ShouldFail4Code code) m
                   ([(''args'', LReq (snd cq))] @ gld @ [(''ret'', LResp resp), (''code'', LText (l_CodeName L code))]
                    @ err_field L err @ [(''cost'', LCost costMs)])) (\<lambda>u.
            creturn (resp, err)))))))"

section \<open>Recovery and time-outs\<close>

definition DefaultRecoveryHandler :: "('a, 'q, 'r, 'e, 'cs, 'm) grpc_lib \<Rightarrow> go_panic \<Rightarrow> ('m grpc_state, 'e) comp" where
  "DefaultRecoveryHandler L p =
     cbind (on_log L (\<lambda>W. dlog_Critical W [''dgrpc.DefaultRecoveryHandler''] (ArgString (''panic_recoverd!'' @ l_stack L p)) [])) (\<lambda>u.
     cbind (\<lambda>s. (Ret (), s\<lparr>g_d := stderr_line (''panic_recovered: '' @ l_stack L p) (g_d s)\<rparr>)) (\<lambda>u.
       creturn (l_Internal L p)))"

text \<open>A context with a deadline and a cancel function of its own.\<close>

definition WithTimeout :: "('a, 'q, 'r, 'e, 'cs, 'm) grpc_lib \<Rightarrow> ctx \<Rightarrow> int64 \<Rightarrow> ('m grpc_state, ctx \<times> nat) comp" where
  "WithTimeout L c d =
     cbind (Now L) (\<lambda>t s.
       (Ret (c\<lparr>cx_deadline := Some (t + sint d), cx_cancels := g_nextctx s # cx_cancels c\<rparr>, g_nextctx s),
        s\<lparr>g_nextctx := g_nextctx s + 1\<rparr>))"

definition ctx_cancel :: "nat \<Rightarrow> ('m grpc_state, unit) comp" where
  "ctx_cancel i s = (Ret (), s\<lparr>g_cancelled := i # g_cancelled s\<rparr>)"

definition ctx_done :: "ctx \<Rightarrow> 'm grpc_state \<Rightarrow> bool" where
  "ctx_done c s = (\<exists>i\<in>set (cx_cancels c). i \<in> set (g_cancelled s))"

definition with_deadline :: "('a, 'q, 'r, 'e, 'cs, 'm) grpc_lib \<Rightarrow> int64 \<Rightarrow> ctx \<Rightarrow> (ctx \<Rightarrow> ('m grpc_state, 'x) comp) \<Rightarrow> ('m grpc_state, 'x) comp" where
  "with_deadline L defaultTimeout c k =
     (if cx_deadline c = None
      then cbind (WithTimeout L c defaultTimeout) (\<lambda>(c, i). cdefer (k c) (ctx_cancel i))
      else k c)"

definition UnaryClientTimeOutInterceptor :: "('a, 'q, 'r, 'e, 'cs, 'm) grpc_lib \<Rightarrow> int64 \<Rightarrow> ('q, 'e, 'm) unary_client" where
  "UnaryClientTimeOutInterceptor L defaultTimeout m invoker cq =
     with_deadline L defaultTimeout (fst cq) (\<lambda>c. invoker (c, snd cq))"

definition StreamClientTimeOutInterceptor :: "('a, 'q, 'r, 'e, 'cs, 'm) grpc_lib \<Rightarrow> int64 \<Rightarrow> ('cs, 'e, 'm) stream_client" where
  "StreamClientTimeOutInterceptor L defaultTimeout m streamer c = with_deadline L defaultTimeout c streamer"

section \<open>Options\<close>

record ('q, 'r, 'e, 'cs, 'm) OptionHolder =
  UnaryServerInterceptors :: "('q, 'r, 'e, 'm) unary_server list"
  StreamServerInterceptors :: "('e, 'm) stream_server list"
  UnaryClientInterceptors :: "('q, 'e, 'm) unary_client list"
  StreamClientInterceptors :: "('cs, 'e, 'm) stream_client list"

type_synonym ('q, 'r, 'e, 'cs, 'm) InterceptorOption = "('q, 'r, 'e, 'cs, 'm) OptionHolder \<Rightarrow> ('q, 'r, 'e, 'cs, 'm) OptionHolder"

definition GetOptionHolder :: "('q, 'r, 'e, 'cs, 'm) InterceptorOption list \<Rightarrow> ('q, 'r, 'e, 'cs, 'm) OptionHolder" where
  "GetOptionHolder option =
     foldl (\<lambda>holder v. v holder)
       \<lparr>UnaryServerInterceptors = [], StreamServerInterceptors = [], UnaryClientInterceptors = [], StreamClientInterceptors = []\<rparr> option"

definition WithGlInterceptor :: "('a, 'q, 'r, 'e, 'cs, 'm) grpc_lib \<Rightarrow> ('q, 'r, 'e, 'cs, 'm) InterceptorOption" where
  "WithGlInterceptor L h =
     h\<lparr>UnaryClientInterceptors := UnaryClientInterceptors h @ [UnaryClientCtxInterceptor L],
       UnaryServerInterceptors := UnaryServerInterceptors h @ [UnaryServerCtxInterceptor L],
       StreamClientInterceptors := StreamClientInterceptors h @ [StreamClientCtxInterceptor L],
       StreamServerInterceptors := StreamServerInterceptors h @ [StreamServerCtxInterceptor L]\<rparr>"

definition WithPerfCounterInterceptor :: "('a, 'q, 'r, 'e, 'cs, 'm) grpc_lib \<Rightarrow> string \<Rightarrow> ('q, 'r, 'e, 'cs, 'm) InterceptorOption" where
  "WithPerfCounterInterceptor L service h =
     h\<lparr>UnaryClientInterceptors := UnaryClientInterceptors h @ [UnaryClientPerfCounterInterceptor L service],
       UnaryServerInterceptors := UnaryServerInterceptors h @ [UnaryServerPerfCounterInterceptor L service],
       StreamClientInterceptors := StreamClientInterceptors h @ [StreamClientPerfCounterInterceptor L service],
       StreamServerInterceptors := StreamServerInterceptors h @ [StreamServerPerfCounterInterceptor L service]\<rparr>"

definition WithLogInterceptor :: "('a, 'q, 'r, 'e, 'cs, 'm) grpc_lib \<Rightarrow> ('q, 'r, 'e, 'cs, 'm) InterceptorOption" where
  "WithLogInterceptor L h =
     h\<lparr>UnaryServerInterceptors := UnaryServerInterceptors h @ [UnaryServerLoggerInterceptor L],
       StreamServerInterceptors := StreamServerInterceptors h @ [StreamServerLoggerInterceptor L]\<rparr>"

definition WithRecoveryInterceptor ::
  "('a, 'q, 'r, 'e, 'cs, 'm) grpc_lib \<Rightarrow> (go_panic \<Rightarrow> ('m grpc_state, 'e) comp) option \<Rightarrow> ('q, 'r, 'e, 'cs, 'm) InterceptorOption" where
  "WithRecoveryInterceptor L handler h =
     (let handler = (case handler of None \<Rightarrow> DefaultRecoveryHandler L | Some f \<Rightarrow> f)
      in h\<lparr>UnaryServerInterceptors := UnaryServerInterceptors h @ [l_recoverU L handler],
           StreamServerInterceptors := StreamServerInterceptors h @ [l_recoverS L handler]\<rparr>)"

definition WithClientTimeOutInterceptor :: "('a, 'q, 'r, 'e, 'cs, 'm) grpc_lib \<Rightarrow> int64 \<Rightarrow> ('q, 'r, 'e, 'cs, 'm) InterceptorOption" where
  "WithClientTimeOutInterceptor L defaultTimeout h =
     h\<lparr>UnaryClientInterceptors := UnaryClientInterceptors h @ [UnaryClientTimeOutInterceptor L defaultTimeout],
       StreamClientInterceptors := StreamClientInterceptors h @ [StreamClientTimeOutInterceptor L defaultTimeout]\<rparr>"

definition WithRetryInterceptor :: "('a, 'q, 'r, 'e, 'cs, 'm) grpc_lib \<Rightarrow> nat \<Rightarrow> int64 \<Rightarrow> nat list \<Rightarrow> ('q, 'r, 'e, 'cs, 'm) InterceptorOption" where
  "WithRetryInterceptor L retries perRetry codes h =
     h\<lparr>UnaryClientInterceptors := UnaryClientInterceptors h @ [l_retryU L retries perRetry codes],
       StreamClientInterceptors := StreamClientInterceptors h @ [l_retryS L retries perRetry codes]\<rparr>"

section \<open>What is relied on\<close>

text \<open>
  The documented behaviour of the middleware: a chain runs its interceptors from the first to the last, recovery turns a panic
  into the error of its handler with a \<open>nil\<close> response, and the code of \<open>status.Errorf(codes.Internal, ...)\<close> is \<open>Internal\<close>.
\<close>

definition lib_laws :: "('a, 'q, 'r, 'e, 'cs, 'm) grpc_lib \<Rightarrow> bool" where
  "lib_laws L \<longleftrightarrow>
     (\<forall>is m h. l_chainUS L is m h = foldr (\<lambda>i k. i m k) is h)
     \<and> (\<forall>rh m h c s. l_recoverU L rh m h c s =
          (case h c s of (Panics p, s) \<Rightarrow> cbind (rh p) (\<lambda>e. creturn (None, Some e)) s | (r, s) \<Rightarrow> (r, s)))
     \<and> (\<forall>p. l_Code L (Some (l_Internal L p)) = 13)"

text \<open>
  A method of the service: it returns or panics, and logs at most \<open>k\<close> records for each filter; what it does to goroutine-local
  storage it does with the functions of the package.  It may count, and do anything else with the state.
\<close>

definition method_ok :: "nat \<Rightarrow> 'a runtime \<Rightarrow> ('m, 'c, 'x) handler \<Rightarrow> bool" where
  "method_ok k R h \<longleftrightarrow>
     (\<forall>c s n. gl_inv (g_gl s) \<and> log_room (k + n) R (g_d s) \<longrightarrow>
        (\<exists>r s'. h c s = (r, s') \<and> (\<forall>n. r \<noteq> Exits n) \<and> r \<noteq> Blocks \<and> gl_inv (g_gl s') \<and> log_room n R (g_d s')))"

text \<open>What the client gets of a method that returns or panics.\<close>

definition answer :: "('a, 'q, 'r, 'e, 'cs, 'm) grpc_lib \<Rightarrow> ('r option \<times> 'e option) outcome \<Rightarrow> 'r option \<times> 'e option" where
  "answer L r = (case r of Ret x \<Rightarrow> x | Panics p \<Rightarrow> (None, Some (l_Internal L p)) | _ \<Rightarrow> (None, None))"

section \<open>Running the interceptors\<close>

lemma Now_run: "\<exists>t f. Now L s = (Ret t, s\<lparr>g_d := (g_d s)\<lparr>ds_fs := f\<rparr>\<rparr>)"
  unfolding Now_def by (rule clock_run)

lemma note_session_run:
  assumes "gl_inv (g_gl s)" "gl_private (l_goid L) (g_gl s) = Some mp"
  shows "\<exists>g. note_session L m c s = (Ret (), s\<lparr>g_gl := g\<rparr>) \<and> gl_inv g
    \<and> gl_private (l_goid L) g
        = Some ((if GetClientIP c \<noteq> [] then mp(AStr ''glClientIp'' \<mapsto> AStr (GetClientIP c)) else mp)(AStr ''glUrl'' \<mapsto> AStr m))"
proof (cases "GetClientIP c = []")
  case True
  then show ?thesis using gl_Set_run [OF assms] by (simp add: note_session_def)
next
  case False
  obtain g1 where g1: "on_gl (gl_Set (l_goid L) (AStr ''glClientIp'') (AStr (GetClientIP c))) s = (Ret (), s\<lparr>g_gl := g1\<rparr>)" "gl_inv g1"
    "gl_private (l_goid L) g1 = Some (mp(AStr ''glClientIp'' \<mapsto> AStr (GetClientIP c)))" using gl_Set_run [OF assms] by blast
  then show ?thesis using False gl_Set_run [of "s\<lparr>g_gl := g1\<rparr>" "l_goid L" _ "AStr ''glUrl''" "AStr m"] by (simp add: note_session_def)
qed

lemma set_trace_run:
  assumes "gl_inv (g_gl s)" "gl_private (l_goid L) (g_gl s) = Some mp"
  shows "\<exists>g. set_trace L t s = (Ret (), s\<lparr>g_gl := g\<rparr>) \<and> gl_inv g
    \<and> gl_private (l_goid L) g = Some (mp(AStr metaTraceId \<mapsto> AStr t, AStr ''glLogId'' \<mapsto> AStr t))"
proof -
  obtain g1 where g1: "on_gl (gl_Set (l_goid L) (AStr metaTraceId) (AStr t)) s = (Ret (), s\<lparr>g_gl := g1\<rparr>)" "gl_inv g1"
    "gl_private (l_goid L) g1 = Some (mp(AStr metaTraceId \<mapsto> AStr t))" using gl_Set_run [OF assms] by blast
  then show ?thesis using gl_Set_run [of "s\<lparr>g_gl := g1\<rparr>" "l_goid L" _ "AStr ''glLogId''" "AStr t"] by (simp add: set_trace_def)
qed

lemma TraceId_run: "\<exists>t f. TraceId L s = (Ret t, s\<lparr>g_d := (g_d s)\<lparr>ds_fs := f\<rparr>\<rparr>) \<and> t \<noteq> []"
proof -
  obtain t f where 1: "Now L s = (Ret t, s\<lparr>g_d := (g_d s)\<lparr>ds_fs := f\<rparr>\<rparr>)" using Now_run by blast
  obtain u f' where 2: "Now L (s\<lparr>g_d := (g_d s)\<lparr>ds_fs := f\<rparr>\<rparr>) = (Ret u, s\<lparr>g_d := (g_d s)\<lparr>ds_fs := f'\<rparr>\<rparr>)"
    using Now_run [of L "s\<lparr>g_d := (g_d s)\<lparr>ds_fs := f\<rparr>\<rparr>"] by auto
  show ?thesis using 1 2 by (intro exI conjI) (auto simp: TraceId_def hex_EncodeToString_def)
qed

lemma local_trace_run:
  assumes "gl_inv (g_gl s)" "gl_private (l_goid L) (g_gl s) = Some mp" "mp (AStr ''glLogId'') = None"
  shows "\<exists>t f. local_trace L s = (Ret t, s\<lparr>g_d := (g_d s)\<lparr>ds_fs := f\<rparr>\<rparr>) \<and> t \<noteq> []"
proof -
  have "gl_Get (l_goid L) (AStr ''glLogId'') (g_gl s) = Inr None"
    using assms by (auto simp: gl_Get_def getGl_addr gl_private_def)
  then have "ask_gl (gl_Get (l_goid L) (AStr ''glLogId'')) s = (Ret None, s)" by (simp add: ask_gl_def)
  then show ?thesis using TraceId_run [of L s] by (auto simp: local_trace_def gval_of_def MustString_def)
qed

lemma ensureTraceId_run:
  assumes "gl_inv (g_gl s)" "gl_private (l_goid L) (g_gl s) = Some mp" "mp (AStr ''glLogId'') = None"
  shows "\<exists>c' t g f. ensureTraceId L c s = (Ret c', s\<lparr>g_gl := g, g_d := (g_d s)\<lparr>ds_fs := f\<rparr>\<rparr>) \<and> gl_inv g
    \<and> gl_private (l_goid L) g = Some (mp(AStr metaTraceId \<mapsto> AStr t, AStr ''glLogId'' \<mapsto> AStr t)) \<and> t \<noteq> [] \<and> cx_peer c' = cx_peer c"
proof (cases "incoming_trace c = []")
  case True
  obtain t f where t: "local_trace L s = (Ret t, s\<lparr>g_d := (g_d s)\<lparr>ds_fs := f\<rparr>\<rparr>)" "t \<noteq> []" using local_trace_run [OF assms] by blast
  from set_trace_run [of "s\<lparr>g_d := (g_d s)\<lparr>ds_fs := f\<rparr>\<rparr>" L mp t] assms(1,2) obtain g where
    "set_trace L t (s\<lparr>g_d := (g_d s)\<lparr>ds_fs := f\<rparr>\<rparr>) = (Ret (), s\<lparr>g_d := (g_d s)\<lparr>ds_fs := f\<rparr>, g_gl := g\<rparr>)" "gl_inv g"
    "gl_private (l_goid L) g = Some (mp(AStr metaTraceId \<mapsto> AStr t, AStr ''glLogId'' \<mapsto> AStr t))" by auto
  then show ?thesis
    using t True
    by (intro exI [of _ "c\<lparr>cx_outgoing := Some (l_MdSet L metaTraceId [t] (case cx_incoming c of None \<Rightarrow> l_MdPairs L [] | Some md \<Rightarrow> md))\<rparr>"]
          exI [of _ t] exI [of _ g] exI [of _ f]) (simp add: ensureTraceId_def Let_def)
next
  case False
  then obtain g where "set_trace L (incoming_trace c) s = (Ret (), s\<lparr>g_gl := g\<rparr>)" "gl_inv g"
    "gl_private (l_goid L) g = Some (mp(AStr metaTraceId \<mapsto> AStr (incoming_trace c), AStr ''glLogId'' \<mapsto> AStr (incoming_trace c)))"
    using set_trace_run [OF assms(1,2)] by blast
  then show ?thesis using False by (intro exI [of _ c] exI [of _ "incoming_trace c"] exI [of _ g] exI [of _ "ds_fs (g_d s)"]) (simp add: ensureTraceId_def Let_def)
qed

lemma on_log_run:
  assumes "log_room (Suc n) (l_R L) (g_d s)" "gl_inv (g_gl s)"
  shows "\<exists>d. on_log L (\<lambda>W. tag_at site lvl W stk tag arg0 args) s = (Ret (), s\<lparr>g_d := d\<rparr>) \<and> log_room n (l_R L) d
    \<and> records_sent [(lvl, tag)] (g_d s) d"
  unfolding on_log_def by (rule log_as_run [OF assms])

text \<open>Recovery around a method: what it adds to the state \<open>s2\<close> that the method leaves.\<close>

definition panic_records :: "'x outcome \<Rightarrow> (Level \<times> string) list" where
  "panic_records r = (case r of Panics p \<Rightarrow> [(CRITICAL, [])] | _ \<Rightarrow> [])"

lemma recover_run:
  assumes "lib_laws L" "method_ok k (l_R L) h" "gl_inv (g_gl s)" "log_room (k + Suc n) (l_R L) (g_d s)"
  shows "\<exists>r s2 s'. h cq s = (r, s2) \<and> l_recoverU L (DefaultRecoveryHandler L) m h cq s = (Ret (answer L r), s')
    \<and> gl_inv (g_gl s') \<and> g_pc s' = g_pc s2 \<and> log_room n (l_R L) (g_d s') \<and> records_sent (panic_records r) (g_d s2) (g_d s')"
proof -
  obtain r s2 where r: "h cq s = (r, s2)" "\<forall>n. r \<noteq> Exits n" "r \<noteq> Blocks" "gl_inv (g_gl s2)" "log_room (Suc n) (l_R L) (g_d s2)"
    using assms(2-4) unfolding method_ok_def by metis
  have rec: "l_recoverU L rh m h cq s =
      (case h cq s of (Panics p, s) \<Rightarrow> cbind (rh p) (\<lambda>e. creturn (None, Some e)) s | (r, s) \<Rightarrow> (r, s))" for rh
    using assms(1) unfolding lib_laws_def by blast
  show ?thesis
  proof (cases r)
    case (Ret x)
    then show ?thesis using r(1,4) rec log_room_weaken [OF r(5), of n] by (simp add: answer_def panic_records_def records_sent_none)
  next
    case (Panics p)
    obtain d where d: "on_log L (\<lambda>W. dlog_Critical W [''dgrpc.DefaultRecoveryHandler''] (ArgString (''panic_recoverd!'' @ l_stack L p)) []) s2
        = (Ret (), s2\<lparr>g_d := d\<rparr>)" "log_room n (l_R L) d" "records_sent [(CRITICAL, [])] (g_d s2) d"
      using on_log_run [OF r(5,4), of "''dlog.Critical''" CRITICAL] unfolding dlog_calls by blast
    let ?s' = "s2\<lparr>g_d := stderr_line (''panic_recovered: '' @ l_stack L p) d\<rparr>"
    have "l_recoverU L (DefaultRecoveryHandler L) m h cq s = (Ret (answer L r), ?s')"
      using d(1) r(1) Panics by (simp add: rec DefaultRecoveryHandler_def cbind_def answer_def)
    then show ?thesis using r(1,4) d(2,3) Panics
      by (intro exI [of _ r] exI [of _ s2] exI [of _ ?s']) (simp add: stderr_line_def panic_records_def)
  qed (use r(2,3) in auto)
qed

text \<open>The session log around it; the record is another one when the data of the session cannot be marshalled.\<close>

definition session_level :: "('a, 'q, 'r, 'e, 'cs, 'm) grpc_lib \<Rightarrow> 'e option \<Rightarrow> Level" where
  "session_level L err = (if ShouldFail4Code (l_Code L err) then WARNING else INFO)"

definition session_data ::
  "('a, 'q, 'r, 'e, 'cs, 'm) grpc_lib \<Rightarrow> 'q \<Rightarrow> 'r option \<times> 'e option \<Rightarrow> (string \<times> ('q, 'r) logval) list \<Rightarrow> int64 \<Rightarrow> (string \<times> ('q, 'r) logval) list" where
  "session_data L q ans gld costMs =
     [(''args'', LReq q)] @ gld @ [(''ret'', LResp (fst ans)), (''code'', LText (l_CodeName L (l_Code L (snd ans))))]
     @ err_field L (snd ans) @ [(''cost'', LCost costMs)]"

definition session_record :: "('a, 'q, 'r, 'e, 'cs, 'm) grpc_lib \<Rightarrow> (string \<times> ('q, 'r) logval) list \<Rightarrow> Level \<Rightarrow> Level \<times> string" where
  "session_record L kvs lvl = (case l_marshal L kvs of Inl e \<Rightarrow> (WARNING, []) | Inr js \<Rightarrow> (lvl, ''SESSION''))"

lemma gl_dump_run: "gl_inv (g_gl s) \<Longrightarrow> \<exists>kvs. gl_dump L wanted s = (Ret kvs, s)"
  by (simp add: gl_dump_def ask_gl_def JsonCurrentGlData_def getGl_addr cbind_def)

lemma log_session_run:
  assumes "log_room (Suc n) (l_R L) (g_d s)" "gl_inv (g_gl s)"
  shows "\<exists>d. log_session L stk warn m kvs s = (Ret (), s\<lparr>g_d := d\<rparr>) \<and> log_room n (l_R L) d
    \<and> records_sent [session_record L kvs (if warn then WARNING else INFO)] (g_d s) d"
proof (cases "l_marshal L kvs")
  case (Inl e)
  show ?thesis
    using on_log_run [OF assms, of "''dlog.Warn''" WARNING stk "[]" "ArgString ''logData json marshal fail, error:%s''" "[l_str L e]"]
    by (simp add: log_session_def session_record_def Inl dlog_calls)
next
  case (Inr js)
  show ?thesis
    using on_log_run [OF assms, of "''dlog.WarnT''" WARNING stk "''SESSION''" "ArgString (m @ '' '' @ js)" "[]"]
      on_log_run [OF assms, of "''dlog.InfoT''" INFO stk "''SESSION''" "ArgString (m @ '' '' @ js)" "[]"]
    by (cases warn) (simp_all add: log_session_def session_record_def Inr dlog_calls)
qed

lemma logger_run:
  assumes "lib_laws L" "method_ok k (l_R L) h" "gl_inv (g_gl s)" "gl_private (l_goid L) (g_gl s) = Some mp"
    and "log_room (k + Suc (Suc n)) (l_R L) (g_d s)"
  shows "\<exists>s1 r s2 s' gld costMs. gl_private (l_goid L) (g_gl s1)
        = Some ((if GetClientIP (fst cq) \<noteq> [] then mp(AStr ''glClientIp'' \<mapsto> AStr (GetClientIP (fst cq))) else mp)(AStr ''glUrl'' \<mapsto> AStr m))
    \<and> g_pc s1 = g_pc s \<and> records_sent [] (g_d s) (g_d s1) \<and> h cq s1 = (r, s2)
    \<and> UnaryServerLoggerInterceptor L m (l_recoverU L (DefaultRecoveryHandler L) m h) cq s = (Ret (answer L r), s')
    \<and> gl_inv (g_gl s') \<and> g_pc s' = g_pc s2
    \<and> records_sent (panic_records r @ [session_record L (session_data L (snd cq) (answer L r) gld costMs) (session_level L (snd (answer L r)))]) (g_d s2) (g_d s')"
proof -
  obtain st f where 1: "Now L s = (Ret st, s\<lparr>g_d := (g_d s)\<lparr>ds_fs := f\<rparr>\<rparr>)" using Now_run by blast
  obtain g where 2: "note_session L m (fst cq) (s\<lparr>g_d := (g_d s)\<lparr>ds_fs := f\<rparr>\<rparr>) = (Ret (), s\<lparr>g_d := (g_d s)\<lparr>ds_fs := f\<rparr>, g_gl := g\<rparr>)" "gl_inv g"
    "gl_private (l_goid L) g
        = Some ((if GetClientIP (fst cq) \<noteq> [] then mp(AStr ''glClientIp'' \<mapsto> AStr (GetClientIP (fst cq))) else mp)(AStr ''glUrl'' \<mapsto> AStr m))"
    using note_session_run [of "s\<lparr>g_d := (g_d s)\<lparr>ds_fs := f\<rparr>\<rparr>" L mp m "fst cq"] assms(3,4) by auto
  define s1 where "s1 = s\<lparr>g_d := (g_d s)\<lparr>ds_fs := f\<rparr>, g_gl := g\<rparr>"
  have "gl_inv (g_gl s1)" "log_room (k + Suc (Suc n)) (l_R L) (g_d s1)" using 2(2) assms(5) by (simp_all add: s1_def)
  from recover_run [OF assms(1,2) this] obtain r s2 s3 where
    3: "h cq s1 = (r, s2)" "l_recoverU L (DefaultRecoveryHandler L) m h cq s1 = (Ret (answer L r), s3)" "gl_inv (g_gl s3)" "g_pc s3 = g_pc s2"
    "log_room (Suc n) (l_R L) (g_d s3)" "records_sent (panic_records r) (g_d s2) (g_d s3)" by blast
  obtain resp err where ans: "answer L r = (resp, err)" by (cases "answer L r")
  obtain t f' where 4: "Now L s3 = (Ret t, s3\<lparr>g_d := (g_d s3)\<lparr>ds_fs := f'\<rparr>\<rparr>)" using Now_run by blast
  define s4 where "s4 = s3\<lparr>g_d := (g_d s3)\<lparr>ds_fs := f'\<rparr>\<rparr>"
  define costMs where "costMs = duration_ms (time_Sub t st)"
  have g4: "gl_inv (g_gl s4)" "log_room (Suc n) (l_R L) (g_d s4)" using 3(3,5) by (simp_all add: s4_def)
  obtain kvs where 5: "gl_dump L (50 < sint costMs \<or> err \<noteq> None) s4 = (Ret kvs, s4)" using gl_dump_run [OF g4(1)] by blast
  define rec where "rec = session_record L (session_data L (snd cq) (answer L r) kvs costMs) (session_level L err)"
  obtain d where 6: "log_session L [''dgrpc.UnaryServerLogger''] (ShouldFail4Code (l_Code L err)) m (session_data L (snd cq) (answer L r) kvs costMs) s4
        = (Ret (), s4\<lparr>g_d := d\<rparr>)" "records_sent [rec] (g_d s4) d"
    using log_session_run [OF g4(2,1)] unfolding rec_def session_level_def by blast
  have "UnaryServerLoggerInterceptor L m (l_recoverU L (DefaultRecoveryHandler L) m h) cq s = (Ret (answer L r), s4\<lparr>g_d := d\<rparr>)"
    using 1 2(1) 3(2) 4 5 6(1) ans
    by (simp add: UnaryServerLoggerInterceptor_def s1_def [symmetric] s4_def [symmetric] costMs_def [symmetric] Let_def session_data_def)
  moreover have "records_sent (panic_records r @ [rec]) (g_d s2) d"
    using records_sent_append [OF 3(6), of "[rec]" d] 6(2) by (simp add: s4_def)
  moreover have "records_sent [] (g_d s) (g_d s1)" "g_pc s1 = g_pc s" by (simp_all add: s1_def records_sent_none)
  ultimately show ?thesis
    using 2(3) 3(1,3,4) ans unfolding rec_def
    by (intro exI [of _ s1] exI [of _ r] exI [of _ s2] exI [of _ "s4\<lparr>g_d := d\<rparr>"] exI [of _ kvs] exI [of _ costMs]) (simp add: s1_def s4_def)
qed

end
