(* ===== verification/DgrpcPeer.thy ===== *)
theory DgrpcPeer
  imports Dgrpc
begin

text \<open>
  The gRPC server and client of \<open>net/dgrpc\<close> (\<open>server.go\<close>, \<open>client.go\<close>) and the logger of the gRPC library
  (\<open>log.go\<close>).  Certificates, listening and dialling are arguments; a connection keeps the interceptors it was dialled with.

  The property of this theory is about a request to a server: what the client gets, what is counted and logged, and
  what the handler finds in goroutine-local storage.
\<close>

section \<open>Certificates\<close>

record creds =
  cr_cert :: string
  cr_ca :: string
  cr_ServerName :: string
  cr_RequireClient :: bool
  cr_SkipVerify :: bool

record tls_lib =
  t_LoadX509KeyPair :: "string \<Rightarrow> string \<Rightarrow> string + string"
  t_ReadFile :: "string \<Rightarrow> string + string"
  t_AppendCertsFromPEM :: "string \<Rightarrow> bool"
  t_ServerTLSFromFile :: "string \<Rightarrow> string \<Rightarrow> string + creds"
  t_ClientTLSFromFile :: "string \<Rightarrow> string \<Rightarrow> string + creds"

section \<open>The server\<close>

record ('q, 'r, 'e, 'm) grpc_Server =
  sv_creds :: "creds option"
  sv_unary :: "('q, 'r, 'e, 'm) unary_server"
  sv_stream :: "('e, 'm) stream_server"

record ('q, 'r, 'e, 'm) GrpcServer =
  gs_s :: "('q, 'r, 'e, 'm) grpc_Server option"
  gs_l :: bool
  gs_startOnce :: bool
  gs_closeOnce :: bool
  gs_GrpcRunHost :: int
  gs_RegisterHandler :: "(('q, 'r, 'e, 'm) grpc_Server \<Rightarrow> string option) option"
  gs_ServiceName :: string
  gs_UseTls :: bool
  gs_GrpcCaPemFile :: string
  gs_GrpcServerKeyFile :: string
  gs_GrpcServerPemFile :: string
  gs_serving :: bool
  gs_stopped :: bool

definition DefaultCertServiceName :: string where "DefaultCertServiceName = ''gd''"

definition or_default :: "string \<Rightarrow> string \<Rightarrow> string" where
  "or_default s d = (if s = [] then d else s)"

definition srv_GetCredentialsByCA :: "tls_lib \<Rightarrow> ('q, 'r, 'e, 'm) GrpcServer \<Rightarrow> string + creds" where
  "srv_GetCredentialsByCA T s =
     (case t_LoadX509KeyPair T (gs_GrpcServerPemFile s) (gs_GrpcServerKeyFile s) of
        Inl e \<Rightarrow> Inl e
      | Inr cert \<Rightarrow>
          (case t_ReadFile T (gs_GrpcCaPemFile s) of
             Inl e \<Rightarrow> Inl e
           | Inr ca \<Rightarrow>
               if \<not> t_AppendCertsFromPEM T ca then Inl ''certPool.AppendCertsFromPEM err''
               else Inr \<lparr>cr_cert = cert, cr_ca = ca, cr_ServerName = gs_ServiceName s, cr_RequireClient = True, cr_SkipVerify = False\<rparr>))"

definition srv_GetTLSCredentials :: "tls_lib \<Rightarrow> ('q, 'r, 'e, 'm) GrpcServer \<Rightarrow> string + creds" where
  "srv_GetTLSCredentials T s = t_ServerTLSFromFile T (gs_GrpcServerPemFile s) (gs_GrpcServerKeyFile s)"

definition server_options :: "('a, 'q, 'r, 'e, 'cs, 'm) grpc_lib \<Rightarrow> string \<Rightarrow> ('q, 'r, 'e, 'cs, 'm) OptionHolder" where
  "server_options L service =
     GetOptionHolder
       [WithGlInterceptor L, WithPerfCounterInterceptor L service, WithLogInterceptor L, WithRecoveryInterceptor L None]"

definition NewServer :: "('a, 'q, 'r, 'e, 'cs, 'm) grpc_lib \<Rightarrow> creds option \<Rightarrow> ('q, 'r, 'e, 'cs, 'm) OptionHolder \<Rightarrow> ('q, 'r, 'e, 'm) grpc_Server" where
  "NewServer L c options =
     \<lparr>sv_creds = c, sv_unary = l_chainUS L (UnaryServerInterceptors options), sv_stream = l_chainSS L (StreamServerInterceptors options)\<rparr>"

definition DefaultServer ::
  "('a, 'q, 'r, 'e, 'cs, 'm) grpc_lib \<Rightarrow> tls_lib \<Rightarrow> ('q, 'r, 'e, 'm) GrpcServer
   \<Rightarrow> (string + ('q, 'r, 'e, 'm) grpc_Server) \<times> ('q, 'r, 'e, 'm) GrpcServer" where
  "DefaultServer L T s =
     (let options = server_options L (gs_ServiceName s)
      in if gs_UseTls s
         then (let s = s\<lparr>gs_GrpcCaPemFile := or_default (gs_GrpcCaPemFile s) ''conf/ca.pem'',
                         gs_GrpcServerKeyFile := or_default (gs_GrpcServerKeyFile s) ''conf/server.key'',
                         gs_GrpcServerPemFile := or_default (gs_GrpcServerPemFile s) ''conf/server.pem'',
                         gs_ServiceName := or_default (gs_ServiceName s) DefaultCertServiceName\<rparr>
               in case srv_GetCredentialsByCA T s of
                    Inl e \<Rightarrow> (Inl e, s)
                  | Inr c \<Rightarrow> (Inr (NewServer L (Some c) options), s))
         else (Inr (NewServer L None options), s))"

definition grpc_start ::
  "('a, 'q, 'r, 'e, 'cs, 'm) grpc_lib \<Rightarrow> tls_lib \<Rightarrow> (string \<Rightarrow> string option) \<Rightarrow> ('q, 'r, 'e, 'm) GrpcServer
   \<Rightarrow> string option go \<times> ('q, 'r, 'e, 'm) GrpcServer" where
  "grpc_start L T listen s =
     (case DefaultServer L T s of
        (Inl e, s) \<Rightarrow> (Inr (Some (''init server fail,err='' @ e)), s)
      | (Inr server, s) \<Rightarrow>
          (case listen ('':'' @ Itoa (gs_GrpcRunHost s)) of
             Some e \<Rightarrow> (Inr (Some (''failed to listen: '' @ e)), s)
           | None \<Rightarrow>
               let s = s\<lparr>gs_s := Some server, gs_l := True\<rparr> in
               (case gs_RegisterHandler s of
                  None \<Rightarrow> (Inl NilDeref, s)
                | Some register \<Rightarrow>
                    (case register server of
                       Some e \<Rightarrow> (Inr (Some e), s)
                     | None \<Rightarrow> (Inr None, s\<lparr>gs_serving := True\<rparr>)))))"

definition grpc_Start where
  "grpc_Start L T listen s =
     (if gs_startOnce s then (Inr None, s) else grpc_start L T listen (s\<lparr>gs_startOnce := True\<rparr>))"

text \<open>The goroutine of \<open>startRun\<close> when \<open>Serve\<close> returns; a panic there ends the process.\<close>

definition serve_ends :: "'a runtime \<Rightarrow> 'a \<Rightarrow> (int \<Rightarrow> 'a) \<Rightarrow> 'a option \<Rightarrow> int \<Rightarrow> dstate \<Rightarrow> dstate outcome" where
  "serve_ends R format int_arg err host d =
     (case err of
        None \<Rightarrow> Ret d
      | Some e \<Rightarrow> dlog_Crash R [''dgrpc.startRun''] [format, int_arg host, e] d)"

definition grpc_Close :: "('q, 'r, 'e, 'm) GrpcServer \<Rightarrow> unit go \<times> ('q, 'r, 'e, 'm) GrpcServer" where
  "grpc_Close s =
     (if gs_closeOnce s then (Inr (), s)
      else let s = s\<lparr>gs_closeOnce := True\<rparr> in
           (case gs_s s of None \<Rightarrow> (Inl NilDeref, s) | Some server \<Rightarrow> (Inr (), s\<lparr>gs_stopped := True\<rparr>)))"

section \<open>The client\<close>

record ('q, 'e, 'cs, 'm) ClientConn =
  cn_target :: string
  cn_creds :: "creds option option"
  cn_config :: string
  cn_unary :: "('q, 'e, 'm) unary_client list"
  cn_stream :: "('cs, 'e, 'm) stream_client list"

record ('q, 'e, 'cs, 'm, 'raw) GrpcClient =
  gc_Target :: string
  gc_ServiceName :: string
  gc_Timeout :: int
  gc_MaxRetries :: int
  gc_PerCallTimeoutInMs :: int
  gc_RetryCodes :: "nat list"
  gc_WaitReady :: bool
  gc_UseTls :: bool
  gc_CertServerName :: string
  gc_GrpcCaPemFile :: string
  gc_GrpcClientKeyFile :: string
  gc_GrpcClientPemFile :: string
  gc_startOnce :: bool
  gc_stopOnce :: bool
  gc_connect :: "('q, 'e, 'cs, 'm) ClientConn option"
  gc_rawClient :: "'raw option"
  gc_closed :: bool

text \<open>The credentials may be \<open>nil\<close> without an error.\<close>

definition cli_GetCredentialsByCA :: "tls_lib \<Rightarrow> ('q, 'e, 'cs, 'm, 'raw) GrpcClient \<Rightarrow> creds option \<times> string option" where
  "cli_GetCredentialsByCA T c =
     (case t_LoadX509KeyPair T (gc_GrpcClientPemFile c) (gc_GrpcClientKeyFile c) of
        Inl e \<Rightarrow> (None, Some e)
      | Inr cert \<Rightarrow>
          (case t_ReadFile T (gc_GrpcCaPemFile c) of
             Inl e \<Rightarrow> (None, Some e)
           | Inr ca \<Rightarrow>
               if \<not> t_AppendCertsFromPEM T ca then (None, None)
               else (Some \<lparr>cr_cert = cert, cr_ca = ca, cr_ServerName = gc_CertServerName c, cr_RequireClient = False, cr_SkipVerify = True\<rparr>,
                     None)))"

definition cli_GetTLSCredentials :: "tls_lib \<Rightarrow> ('q, 'e, 'cs, 'm, 'raw) GrpcClient \<Rightarrow> string + creds" where
  "cli_GetTLSCredentials T c = t_ClientTLSFromFile T (gc_GrpcClientPemFile c) (gc_GrpcClientKeyFile c)"

definition client_retry_codes :: "nat list \<Rightarrow> ('q, 'e, 'cs, 'm, 'raw) GrpcClient \<Rightarrow> ('q, 'e, 'cs, 'm, 'raw) GrpcClient" where
  "client_retry_codes retriable c =
     (if gc_MaxRetries c > 0 \<and> gc_RetryCodes c = [] then c\<lparr>gc_RetryCodes := retriable\<rparr> else c)"

definition client_options :: "('a, 'q, 'r, 'e, 'cs, 'm) grpc_lib \<Rightarrow> ('q, 'e, 'cs, 'm, 'raw) GrpcClient \<Rightarrow> ('q, 'r, 'e, 'cs, 'm) OptionHolder" where
  "client_options L c =
     GetOptionHolder
       ([WithGlInterceptor L, WithPerfCounterInterceptor L (gc_ServiceName c),
         WithClientTimeOutInterceptor L (if gc_Timeout c > 0 then word_of_int (gc_Timeout c) else 1000000000)]
        @ (if gc_MaxRetries c > 0
           then [WithRetryInterceptor L (nat (gc_MaxRetries c)) (word_of_int (gc_PerCallTimeoutInMs c) * 1000000) (gc_RetryCodes c)]
           else []))"

text \<open>
  The readings of \<open>WaitClientReady\<close>: the state of the connection (2 is \<open>Ready\<close>) and whether it changed before the
  context ended; \<open>None\<close> while it still waits.
\<close>

fun WaitClientReady :: "string \<Rightarrow> (nat \<times> bool) list \<Rightarrow> string option option" where
  "WaitClientReady ctxErr [] = None"
| "WaitClientReady ctxErr ((s, changed) # rs) =
     (if s = 2 then Some None else if \<not> changed then Some (Some ctxErr) else WaitClientReady ctxErr rs)"

definition service_config :: "string \<Rightarrow> string" where
  "service_config policy =
     CHR ''{'' # CHR 0x22 # ''LoadBalancingPolicy'' @ [CHR 0x22] @ '': '' @ [CHR 0x22] @ policy @ [CHR 0x22] @ ''}''"

definition new_conn ::
  "('q, 'e, 'cs, 'm, 'raw) GrpcClient \<Rightarrow> creds option option \<Rightarrow> ('q, 'r, 'e, 'cs, 'm) OptionHolder \<Rightarrow> ('q, 'e, 'cs, 'm) ClientConn" where
  "new_conn c cr options =
     \<lparr>cn_target = gc_Target c, cn_creds = cr, cn_config = service_config ''round_robin'',
      cn_unary = UnaryClientInterceptors options, cn_stream = StreamClientInterceptors options\<rparr>"

text \<open>The end of \<open>DefaultClient\<close>, with the variables \<open>cc\<close> and \<open>err\<close> of the function.\<close>

definition finish_client ::
  "(nat \<times> bool) list \<Rightarrow> ('q, 'e, 'cs, 'm, 'raw) GrpcClient \<Rightarrow> ('q, 'e, 'cs, 'm) ClientConn option \<Rightarrow> string option
   \<Rightarrow> (('q, 'e, 'cs, 'm) ClientConn option \<times> string option) outcome" where
  "finish_client waits c cc err =
     (case err of
        Some e \<Rightarrow> Ret (None, Some (''grpc dail fail,target='' @ gc_ServiceName c @ '',err='' @ e))
      | None \<Rightarrow>
          if gc_WaitReady c
          then (case cc of
                  None \<Rightarrow> Panics NilDeref
                | Some _ \<Rightarrow>
                    (case WaitClientReady ''context deadline exceeded'' waits of
                       None \<Rightarrow> Blocks
                     | Some (Some e) \<Rightarrow> Ret (None, Some (''wait client ready fail,target='' @ gc_ServiceName c @ '',err='' @ e))
                     | Some None \<Rightarrow> Ret (cc, None)))
          else Ret (cc, None))"

text \<open>With TLS the result of \<open>Dial\<close> is assigned to an \<open>err\<close> of the inner block.\<close>

definition DefaultClient ::
  "('a, 'q, 'r, 'e, 'cs, 'm) grpc_lib \<Rightarrow> tls_lib \<Rightarrow> nat list \<Rightarrow> (('q, 'e, 'cs, 'm) ClientConn \<Rightarrow> string option) \<Rightarrow> (nat \<times> bool) list
   \<Rightarrow> ('q, 'e, 'cs, 'm, 'raw) GrpcClient
   \<Rightarrow> (('q, 'e, 'cs, 'm) ClientConn option \<times> string option) outcome \<times> ('q, 'e, 'cs, 'm, 'raw) GrpcClient" where
  "DefaultClient L T retriable dial waits c =
     (let c = client_retry_codes retriable c; options = client_options L c
      in if gc_UseTls c
         then (let c = c\<lparr>gc_GrpcCaPemFile := or_default (gc_GrpcCaPemFile c) ''conf/ca.pem'',
                         gc_GrpcClientKeyFile := or_default (gc_GrpcClientKeyFile c) ''conf/client.key'',
                         gc_GrpcClientPemFile := or_default (gc_GrpcClientPemFile c) ''conf/client.pem'',
                         gc_CertServerName := or_default (gc_CertServerName c) DefaultCertServiceName\<rparr>
               in case cli_GetCredentialsByCA T c of
                    (cr, Some e) \<Rightarrow> (Ret (None, Some e), c)
                  | (cr, None) \<Rightarrow>
                      let conn = new_conn c (Some cr) options
                      in (finish_client waits c (if dial conn = None then Some conn else None) None, c))
         else (let conn = new_conn c None options
               in (finish_client waits c (if dial conn = None then Some conn else None) (dial conn), c)))"

definition client_start where
  "client_start L T retriable dial waits makeRawClient c =
     (case DefaultClient L T retriable dial waits c of
        (Ret (cc, Some e), c) \<Rightarrow> (Ret (Some e), c\<lparr>gc_connect := cc\<rparr>)
      | (Ret (cc, None), c) \<Rightarrow>
          (case makeRawClient cc of
             (raw, Some e) \<Rightarrow> (Ret (Some e), c\<lparr>gc_connect := cc, gc_rawClient := raw\<rparr>)
           | (raw, None) \<Rightarrow> (Ret None, c\<lparr>gc_connect := cc, gc_rawClient := raw\<rparr>))
      | (Panics p, c) \<Rightarrow> (Panics p, c) | (Blocks, c) \<Rightarrow> (Blocks, c) | (Exits n, c) \<Rightarrow> (Exits n, c))"

definition client_Start where
  "client_Start L T retriable dial waits makeRawClient c =
     (if gc_startOnce c then (Ret (None :: string option), c)
      else client_start L T retriable dial waits makeRawClient (c\<lparr>gc_startOnce := True\<rparr>))"

definition client_Stop :: "('q, 'e, 'cs, 'm, 'raw) GrpcClient \<Rightarrow> unit go \<times> ('q, 'e, 'cs, 'm, 'raw) GrpcClient" where
  "client_Stop c =
     (if gc_stopOnce c then (Inr (), c)
      else let c = c\<lparr>gc_stopOnce := True\<rparr> in
           (case gc_connect c of None \<Rightarrow> (Inl NilDeref, c) | Some cc \<Rightarrow> (Inr (), c\<lparr>gc_closed := True\<rparr>)))"

definition GetRawClient :: "('q, 'e, 'cs, 'm, 'raw) GrpcClient \<Rightarrow> 'raw option" where
  "GetRawClient c = gc_rawClient c"

section \<open>The logger of the library\<close>

definition LogTag :: string where "LogTag = ''GRPC_PROCESS''"

definition batchGetCtx :: "int \<Rightarrow> gl_state \<Rightarrow> (string \<times> string \<times> string) go" where
  "batchGetCtx goid g =
     go_bind (gl_BatchGet goid [AStr ''glLogId'', AStr ''glUrl'', AStr ''glClientIp''] g) (\<lambda>vs.
       case vs of
         None \<Rightarrow> Inr ([], [], [])
       | Some vs \<Rightarrow>
           Inr (str_or_empty (map_of vs (AStr ''glUrl'')), str_or_empty (map_of vs (AStr ''glClientIp'')),
                str_or_empty (map_of vs (AStr ''glLogId''))))"

text \<open>Every caller passes one string.\<close>

definition LogWithDepthAndLevel :: "'a caller \<Rightarrow> string list \<Rightarrow> Level \<Rightarrow> string \<Rightarrow> dstate \<Rightarrow> dstate outcome" where
  "LogWithDepthAndLevel W stk level first d =
     obind (of_go (batchGetCtx (wr_goid W) (wr_gl W))) (\<lambda>(url, ip, logId).
       IntLogfTagUrl (wr_R W) (''dgrpc.LogWithDepthAndLevel'' # stk) LogTag ip logId url level first [] (ds_Global d) d)"

definition gl_Info where
  "gl_Info L W stk args d = LogWithDepthAndLevel W (''dgrpc.Info'' # stk) INFO (l_sprint L args) d"

definition gl_Infoln where
  "gl_Infoln L W stk args d = LogWithDepthAndLevel W (''dgrpc.Infoln'' # stk) INFO (l_sprint L args) d"

definition gl_Infof where
  "gl_Infof W stk format args d = LogWithDepthAndLevel W (''dgrpc.Infof'' # stk) INFO (rt_sprintf (wr_R W) format args) d"

definition gl_Warning where
  "gl_Warning L W stk args d = LogWithDepthAndLevel W (''dgrpc.Warning'' # stk) WARNING (l_sprint L args) d"

definition gl_Warningln where
  "gl_Warningln L W stk args d = LogWithDepthAndLevel W (''dgrpc.Warningln'' # stk) WARNING (l_sprint L args) d"

definition gl_Warningf where
  "gl_Warningf W stk format args d = LogWithDepthAndLevel W (''dgrpc.Warningf'' # stk) WARNING (rt_sprintf (wr_R W) format args) d"

definition gl_Error where
  "gl_Error L W stk args d = LogWithDepthAndLevel W (''dgrpc.Error'' # stk) ERROR (l_sprint L args) d"

definition gl_Errorln where
  "gl_Errorln L W stk args d = LogWithDepthAndLevel W (''dgrpc.Errorln'' # stk) ERROR (l_sprint L args) d"

definition gl_Errorf where
  "gl_Errorf W stk format args d = LogWithDepthAndLevel W (''dgrpc.Errorf'' # stk) ERROR (rt_sprintf (wr_R W) format args) d"

definition gl_Fatal :: "'a caller \<Rightarrow> string list \<Rightarrow> 'a list \<Rightarrow> dstate \<Rightarrow> dstate outcome" where
  "gl_Fatal W stk args d = dlog_Crash (wr_R W) (''dgrpc.Fatal'' # stk) args d"

definition gl_Fatalln :: "'a caller \<Rightarrow> string list \<Rightarrow> 'a list \<Rightarrow> dstate \<Rightarrow> dstate outcome" where
  "gl_Fatalln W stk args d = dlog_Crash (wr_R W) (''dgrpc.Fatalln'' # stk) args d"

definition gl_Fatalf :: "'a caller \<Rightarrow> string list \<Rightarrow> string \<Rightarrow> 'a list \<Rightarrow> dstate \<Rightarrow> dstate outcome" where
  "gl_Fatalf W stk format args d = dlog_Crash (wr_R W) (''dgrpc.Fatalf'' # stk) args d"

definition gl_V :: "'a runtime \<Rightarrow> int \<Rightarrow> dstate \<Rightarrow> bool" where
  "gl_V R level d =
     (if level = 0 then dlog_IsEnabledFor R INFO d
      else if level = 1 then dlog_IsEnabledFor R WARNING d
      else if level = 2 then dlog_IsEnabledFor R ERROR d
      else level = 3)"

section \<open>A request to the server\<close>

definition counted :: "string \<Rightarrow> string \<Rightarrow> int64 \<Rightarrow> 'e option \<Rightarrow> 'm pc_state \<Rightarrow> 'm pc_state" where
  "counted service m cost err p =
     (let p = Cost (pc_key service m ''server'') cost p
      in if err = None then p else CostFail (pc_key service m ''server'') 1 p)"

lemma server_counts_run: "server_counts service m cost err s = (Ret (), s\<lparr>g_pc := counted service m cost err (g_pc s)\<rparr>)"
  by (cases err) (simp_all add: server_counts_def on_pc_def cbind_def counted_def)

text \<open>What a method finds in the storage of its goroutine.\<close>

definition request_storage :: "ctx \<Rightarrow> string \<Rightarrow> string \<Rightarrow> gany \<rightharpoonup> gany" where
  "request_storage c m t =
     (let mp = [AStr metaTraceId \<mapsto> AStr t, AStr ''glLogId'' \<mapsto> AStr t]
      in (if GetClientIP c \<noteq> [] then mp(AStr ''glClientIp'' \<mapsto> AStr (GetClientIP c)) else mp)(AStr ''glUrl'' \<mapsto> AStr m))"

definition request_records ::
  "('a, 'q, 'r, 'e, 'cs, 'm) grpc_lib \<Rightarrow> (string \<times> ('q, 'r) logval) list \<Rightarrow> ('r option \<times> 'e option) outcome \<Rightarrow> (Level \<times> string) list" where
  "request_records L kvs r = panic_records r @ [session_record L kvs (session_level L (snd (answer L r)))]"

lemma perf_run:
  assumes "lib_laws L" "method_ok k (l_R L) h" "gl_inv (g_gl s)" "gl_private (l_goid L) (g_gl s) = Some Map.empty"
    and "log_room (k + 2) (l_R L) (g_d s)"
  shows "\<exists>c' t s1 r s2 s' cost gld costMs. t \<noteq> [] \<and> gl_private (l_goid L) (g_gl s1) = Some (request_storage c m t)
    \<and> g_pc s1 = g_pc s \<and> records_sent [] (g_d s) (g_d s1) \<and> h (c', q) s1 = (r, s2)
    \<and> UnaryServerPerfCounterInterceptor L service m
         (UnaryServerLoggerInterceptor L m (l_recoverU L (DefaultRecoveryHandler L) m h)) (c, q) s = (Ret (answer L r), s')
    \<and> gl_inv (g_gl s') \<and> g_pc s' = counted service m cost (snd (answer L r)) (g_pc s2)
    \<and> records_sent (request_records L (session_data L q (answer L r) gld costMs) r) (g_d s2) (g_d s')"
proof -
  obtain st f where 1: "Now L s = (Ret st, s\<lparr>g_d := (g_d s)\<lparr>ds_fs := f\<rparr>\<rparr>)" using Now_run by blast
  obtain c' t g f2 where 2: "ensureTraceId L c (s\<lparr>g_d := (g_d s)\<lparr>ds_fs := f\<rparr>\<rparr>) = (Ret c', s\<lparr>g_gl := g, g_d := (g_d s)\<lparr>ds_fs := f2\<rparr>\<rparr>)"
    "gl_inv g" "gl_private (l_goid L) g = Some [AStr metaTraceId \<mapsto> AStr t, AStr ''glLogId'' \<mapsto> AStr t]" "t \<noteq> []" "cx_peer c' = cx_peer c"
    using ensureTraceId_run [of "s\<lparr>g_d := (g_d s)\<lparr>ds_fs := f\<rparr>\<rparr>" L Map.empty c] assms(3,4) by auto
  define s0 where "s0 = s\<lparr>g_gl := g, g_d := (g_d s)\<lparr>ds_fs := f2\<rparr>\<rparr>"
  have s0: "gl_inv (g_gl s0)" "gl_private (l_goid L) (g_gl s0) = Some [AStr metaTraceId \<mapsto> AStr t, AStr ''glLogId'' \<mapsto> AStr t]"
    "log_room (k + Suc (Suc 0)) (l_R L) (g_d s0)" using 2(2,3) assms(5) by (simp_all add: s0_def numeral_2_eq_2)
  have ip: "GetClientIP c' = GetClientIP c" using 2(5) by (simp add: GetClientIP_def)
  from logger_run [OF assms(1,2) s0, of "(c', q)" m] obtain s1 r s2 s3 gld costMs where
    3: "gl_private (l_goid L) (g_gl s1) = Some (request_storage c m t)" "g_pc s1 = g_pc s0" "records_sent [] (g_d s0) (g_d s1)" "h (c', q) s1 = (r, s2)"
    "UnaryServerLoggerInterceptor L m (l_recoverU L (DefaultRecoveryHandler L) m h) (c', q) s0 = (Ret (answer L r), s3)"
    "gl_inv (g_gl s3)" "g_pc s3 = g_pc s2" "records_sent (request_records L (session_data L q (answer L r) gld costMs) r) (g_d s2) (g_d s3)"
    unfolding request_storage_def request_records_def Let_def fst_conv snd_conv ip by blast
  obtain resp err where ans: "answer L r = (resp, err)" by (cases "answer L r")
  obtain u f3 where 4: "Now L s3 = (Ret u, s3\<lparr>g_d := (g_d s3)\<lparr>ds_fs := f3\<rparr>\<rparr>)" using Now_run by blast
  define s' where "s' = s3\<lparr>g_d := (g_d s3)\<lparr>ds_fs := f3\<rparr>, g_pc := counted service m (time_Sub u st) err (g_pc s3)\<rparr>"
  have "UnaryServerPerfCounterInterceptor L service m
         (UnaryServerLoggerInterceptor L m (l_recoverU L (DefaultRecoveryHandler L) m h)) (c, q) s = (Ret (answer L r), s')"
    using 1 2(1) 3(5) 4 ans
    by (simp add: UnaryServerPerfCounterInterceptor_def s0_def [symmetric] server_counts_run s'_def)
  moreover have "g_pc s' = counted service m (time_Sub u st) (snd (answer L r)) (g_pc s2)" using 3(7) ans by (simp add: s'_def)
  moreover have "records_sent (request_records L (session_data L q (answer L r) gld costMs) r) (g_d s2) (g_d s')" using 3(8) by (simp add: s'_def)
  moreover have "gl_inv (g_gl s')" using 3(6) by (simp add: s'_def)
  moreover have "g_pc s1 = g_pc s" "records_sent [] (g_d s) (g_d s1)" using 3(2,3) by (simp_all add: s0_def)
  ultimately show ?thesis using 2(4) 3(1,4) by blast
qed

lemma DefaultServer_unary:
  assumes "lib_laws L" "DefaultServer L T gs = (Inr server, gs')"
  shows "sv_unary server m h = UnaryServerCtxInterceptor L m (UnaryServerPerfCounterInterceptor L (gs_ServiceName gs) m
    (UnaryServerLoggerInterceptor L m (l_recoverU L (DefaultRecoveryHandler L) m h)))"
proof -
  obtain cr where "server = NewServer L cr (server_options L (gs_ServiceName gs))"
    using assms(2) by (auto simp: DefaultServer_def Let_def split: if_splits sum.splits)
  then show ?thesis using assms(1)
    by (simp add: lib_laws_def NewServer_def server_options_def GetOptionHolder_def WithGlInterceptor_def WithPerfCounterInterceptor_def
        WithLogInterceptor_def WithRecoveryInterceptor_def Let_def)
qed

text \<open>
  C19.  A unary request to a server built by \<open>DefaultServer\<close>, whatever the certificates, for a method that returns or
  panics, uses goroutine-local storage through its package, may count, and logs at most \<open>k\<close> records, with
  room for two more at the writers.  The method is called once; the client gets its response and error, or an internal
  error when it panicked, and nothing but a return reaches the gRPC library.  The method finds in the storage of
  its goroutine a trace id that is not empty, as the log id too, the name of the method and the address of the client, and nothing else;
  nothing is counted or logged before it runs, and afterwards the storage is gone.  After it, the time of the request is
  counted once under the service and method, and a failure once exactly if there is an error; and one record is logged,
  after a critical one if the method panicked: the session, as a warning for the codes that count
  as failures, or a warning without a tag when the data of the session cannot be marshalled.
\<close>

theorem unary_request_served:
  assumes "lib_laws L" "DefaultServer L T gs = (Inr server, gs')" "method_ok k (l_R L) h" "gl_inv (g_gl s)" "log_room (k + 2) (l_R L) (g_d s)"
  shows "\<exists>c' t s1 r s2 s' cost gld costMs. t \<noteq> [] \<and> gl_private (l_goid L) (g_gl s1) = Some (request_storage c m t)
    \<and> g_pc s1 = g_pc s \<and> records_sent [] (g_d s) (g_d s1) \<and> h (c', q) s1 = (r, s2)
    \<and> sv_unary server m h (c, q) s = (Ret (answer L r), s') \<and> gl_private (l_goid L) (g_gl s') = None
    \<and> g_pc s' = counted (gs_ServiceName gs) m cost (snd (answer L r)) (g_pc s2)
    \<and> records_sent (request_records L (session_data L q (answer L r) gld costMs) r) (g_d s2) (g_d s')"
proof -
  obtain g where g: "gl_Init (l_goid L) (g_gl s) = Inr g" "gl_inv g" "gl_private (l_goid L) g = Some Map.empty"
    using gl_Init_step [OF assms(4), of "l_goid L"] by metis
  let ?s = "s\<lparr>g_gl := g\<rparr>"
  let ?k = "UnaryServerPerfCounterInterceptor L (gs_ServiceName gs) m (UnaryServerLoggerInterceptor L m (l_recoverU L (DefaultRecoveryHandler L) m h))"
  from perf_run [OF assms(1,3), of ?s c m q "gs_ServiceName gs"] g(2,3) assms(5) obtain c' t s1 r s2 s3 cost gld costMs where
    k: "t \<noteq> []" "gl_private (l_goid L) (g_gl s1) = Some (request_storage c m t)" "g_pc s1 = g_pc s" "records_sent [] (g_d s) (g_d s1)"
    "h (c', q) s1 = (r, s2)" "?k (c, q) ?s = (Ret (answer L r), s3)"
    "gl_inv (g_gl s3)" "g_pc s3 = counted (gs_ServiceName gs) m cost (snd (answer L r)) (g_pc s2)"
    "records_sent (request_records L (session_data L q (answer L r) gld costMs) r) (g_d s2) (g_d s3)" by auto
  obtain g' where g': "gl_Close (l_goid L) (g_gl s3) = Inr g'" "gl_private (l_goid L) g' = None"
    using gl_Close_step [OF k(7), of "l_goid L"] by metis
  have "sv_unary server m h (c, q) s = (Ret (answer L r), s3\<lparr>g_gl := g'\<rparr>)"
    unfolding DefaultServer_unary [OF assms(1,2)] UnaryServerCtxInterceptor_def ServerCtxInterceptor_def
    using g(1) k(6) g'(1) by (simp add: cbind_def cdefer_def do_gl_def on_gl_def)
  then show ?thesis using k(1-5,8,9) g'(2)
    by (intro exI [of _ c'] exI [of _ t] exI [of _ s1] exI [of _ r] exI [of _ s2] exI [of _ "s3\<lparr>g_gl := g'\<rparr>"] exI [of _ cost]
        exI [of _ gld] exI [of _ costMs]) simp
qed

text \<open>For the witness: a method that counts its calls and panics on one request.\<close>

definition demo_recover :: "(go_panic \<Rightarrow> (unit grpc_state, nat) comp) \<Rightarrow> (string, string, nat, unit) unary_server" where
  "demo_recover rh m h c s =
     (case h c s of (Panics p, s) \<Rightarrow> cbind (rh p) (\<lambda>e. creturn (None, Some e)) s | (r, s) \<Rightarrow> (r, s))"

definition demo_lib :: "(string, string, string, nat, unit, unit) grpc_lib" where
  "demo_lib =
     \<lparr>l_R = demo_runtime, l_goid = 1, l_F = \<lparr>ff_text = (\<lambda>_. []), ff_big = (\<lambda>_. False), ff_int64 = (\<lambda>_. 0)\<rparr>,
      l_err = itoa_nat, l_Code = (\<lambda>e. case e of None \<Rightarrow> 0 | Some n \<Rightarrow> n), l_CodeName = itoa_nat, l_Internal = (\<lambda>p. 13),
      l_MdSet = (\<lambda>k v md. md(k \<mapsto> v)), l_MdPairs = (\<lambda>kvs. map_of (map (\<lambda>(k, v). (k, [v])) kvs)), l_marshal = (\<lambda>kvs. Inr ''{}''),
      l_sprintKey = (\<lambda>k. ''k''), l_order = id, l_md5 = (\<lambda>s. []), l_rand = (\<lambda>seed i. 7), l_stack = (\<lambda>p. ''stack''), l_str = id, l_sprint = concat,
      l_chainUS = (\<lambda>is m h. foldr (\<lambda>i k. i m k) is h), l_chainSS = (\<lambda>is m h. foldr (\<lambda>i k. i m k) is h),
      l_recoverU = demo_recover, l_recoverS = (\<lambda>rh m h. h), l_retryU = (\<lambda>n t codes m h. h), l_retryS = (\<lambda>n t codes m h. h)\<rparr>"

definition demo_method :: "(unit, ctx \<times> string, string option \<times> nat option) handler" where
  "demo_method cq =
     cbind (on_pc (pc_Incr ''calls'' 1)) (\<lambda>u s. if snd cq = ''boom'' then (Panics NilDeref, s) else (Ret (Some (snd cq), None), s))"

definition demo_grpc :: "(string, string, nat, unit) GrpcServer" where
  "demo_grpc =
     \<lparr>gs_s = None, gs_l = False, gs_startOnce = False, gs_closeOnce = False, gs_GrpcRunHost = 9000, gs_RegisterHandler = None,
      gs_ServiceName = ''svc'', gs_UseTls = False, gs_GrpcCaPemFile = [], gs_GrpcServerKeyFile = [], gs_GrpcServerPemFile = [],
      gs_serving = False, gs_stopped = False\<rparr>"

definition demo_tls :: tls_lib where
  "demo_tls =
     \<lparr>t_LoadX509KeyPair = (\<lambda>p k. Inl ''no file''), t_ReadFile = (\<lambda>f. Inl ''no file''), t_AppendCertsFromPEM = (\<lambda>ca. False),
      t_ServerTLSFromFile = (\<lambda>p k. Inl ''no file''), t_ClientTLSFromFile = (\<lambda>p k. Inl ''no file'')\<rparr>"

definition demo_ctx :: ctx where
  "demo_ctx = \<lparr>cx_incoming = None, cx_outgoing = None, cx_peer = Some (Some ''10.0.0.9:5000''), cx_deadline = None, cx_cancels = []\<rparr>"

definition demo_pc :: "unit pc_state" where
  "demo_pc = (pc_init \<lparr>mp_new = (), mp_get = (\<lambda>k m. None), mp_set = (\<lambda>k v m. m), mp_iter = (\<lambda>m. [])\<rparr>)\<lparr>pc_closed := 1\<rparr>"

definition demo_gstate :: "unit grpc_state" where
  "demo_gstate = \<lparr>g_gl = newGoroutineLocal, g_pc = demo_pc, g_d = demo_state, g_cancelled = [], g_nextctx = 0, g_headers = []\<rparr>"

lemma demo_lib_laws: "lib_laws demo_lib"
proof -
  have "l_recoverU demo_lib = demo_recover" by (simp add: demo_lib_def)
  then show ?thesis unfolding lib_laws_def
    by (intro conjI allI) (simp_all add: demo_recover_def, simp_all add: demo_lib_def)
qed

lemma demo_request:
  "method_ok 0 (l_R demo_lib) demo_method" "gl_inv (g_gl demo_gstate)" "log_room (0 + 2) (l_R demo_lib) (g_d demo_gstate)"
  by (auto simp: method_ok_def demo_method_def cbind_def on_pc_def demo_gstate_def newGoroutineLocal_inv log_room_def demo_lib_def demo_runtime_def
       demo_state_def NewConsoleLogWriter_def rc_new_def LogBufferLength_def)

theorem unary_request_served_witness:
  "\<exists>s' rs. sv_unary (NewServer demo_lib None (server_options demo_lib ''svc'')) ''/svc/Do'' demo_method (demo_ctx, ''boom'') demo_gstate = (Ret (None, Some 13), s')
     \<and> pc_perfCounterC (g_pc s') = [\<lparr>pr_Key = ''calls'', pr_Val = 1\<rparr>, \<lparr>pr_Key = ''service=svc,method=/svc/Do,st=server,sum=fail'', pr_Val = 1\<rparr>]
     \<and> w_queue (ds_heap (g_d s') 0) = rs \<and> map lr_Level rs = [CRITICAL, WARNING] \<and> length (w_queue (ds_heap (g_d s') 1)) = 1"
proof -
  let ?server = "NewServer demo_lib None (server_options demo_lib ''svc'')"
  have "DefaultServer demo_lib demo_tls demo_grpc = (Inr ?server, demo_grpc)" by (simp add: DefaultServer_def demo_grpc_def)
  from unary_request_served [OF demo_lib_laws this demo_request, of demo_ctx "''/svc/Do''" "''boom''"] obtain c' s1 r s2 s' cost gld costMs where
    w: "g_pc s1 = g_pc demo_gstate" "records_sent [] (g_d demo_gstate) (g_d s1)" "demo_method (c', ''boom'') s1 = (r, s2)"
    "sv_unary ?server ''/svc/Do'' demo_method (demo_ctx, ''boom'') demo_gstate = (Ret (answer demo_lib r), s')"
    "g_pc s' = counted ''svc'' ''/svc/Do'' cost (snd (answer demo_lib r)) (g_pc s2)"
    "records_sent (request_records demo_lib (session_data demo_lib ''boom'' (answer demo_lib r) gld costMs) r) (g_d s2) (g_d s')"
    by (auto simp: demo_grpc_def)
  have r: "r = Panics NilDeref" and s2: "g_pc s2 = pc_Incr ''calls'' 1 (g_pc demo_gstate)" "g_d s2 = g_d s1"
    using w(1,3) by (auto simp: demo_method_def cbind_def on_pc_def)
  have ans: "answer demo_lib r = (None, Some 13)" by (simp add: r answer_def demo_lib_def)
  have "request_records demo_lib kvs r = [(CRITICAL, []), (WARNING, ''SESSION'')]" for kvs
    unfolding request_records_def ans by (simp add: r panic_records_def session_record_def session_level_def ShouldFail4Code_def demo_lib_def)
  with w(2,6) s2(2) have "records_sent ([] @ [(CRITICAL, []), (WARNING, ''SESSION'')]) (g_d demo_gstate) (g_d s')"
    by (metis records_sent_append)
  then obtain rs where rs: "map (\<lambda>r. (lr_Level r, lr_Tag r)) rs = [(CRITICAL, []), (WARNING, ''SESSION'')]"
    "\<forall>a. w_queue (ds_heap (g_d s') a) = w_queue (ds_heap (g_d demo_gstate) a)
           @ concat (map (\<lambda>r. replicate (passing (lr_Level r) a (ds_Global (g_d demo_gstate))) r) rs)" unfolding records_sent_def append_Nil by (elim conjE exE) (rule that)
  obtain r1 r2 where rs12: "rs = [r1, r2]" "lr_Level r1 = CRITICAL" "lr_Level r2 = WARNING" using rs(1) by auto
  have "w_queue (ds_heap (g_d s') 0) = [r1, r2]" "w_queue (ds_heap (g_d s') 1) = [r1]"
    using rs(2) rs12 by (simp_all add: demo_gstate_def demo_state_def NewConsoleLogWriter_def rc_new_def passing_def level_defs)
  moreover have "pc_perfCounterC (g_pc s') = [\<lparr>pr_Key = ''calls'', pr_Val = 1\<rparr>, \<lparr>pr_Key = ''service=svc,method=/svc/Do,st=server,sum=fail'', pr_Val = 1\<rparr>]"
    using w(5) ans s2(1) by (simp add: counted_def Cost_def CostFail_def pc_Incr_def demo_gstate_def demo_pc_def pc_init_def pc_key_def defaultWorkerCount_def)
  ultimately show ?thesis using w(4) ans rs12 by auto
qed

section \<open>What goes wrong\<close>

text \<open>
  \<open>metadata\<close> keeps its keys in lower case, so that the lookup of \<open>_traceId\<close> as it is written never finds the trace id of a
  caller: every server starts a new one.
\<close>

definition upper_case :: "char \<Rightarrow> bool" where
  "upper_case ch \<longleftrightarrow> 65 \<le> (of_char ch :: nat) \<and> of_char ch < (91 :: nat)"

lemma incoming_trace_never_found:
  assumes "cx_incoming c = Some md" "\<And>k. md k \<noteq> None \<Longrightarrow> list_all (\<lambda>ch. \<not> upper_case ch) k"
  shows "incoming_trace c = []"
proof -
  have "\<not> list_all (\<lambda>ch. \<not> upper_case ch) metaTraceId" by code_simp
  then have "md metaTraceId = None" using assms(2) by blast
  then show ?thesis using assms(1) by (simp add: incoming_trace_def)
qed

text \<open>A stream opened without a deadline is cancelled when the interceptor returns it.\<close>

lemma client_stream_cancelled:
  assumes "cx_deadline c = None" "\<And>c s. \<exists>cs s'. streamer c s = (Ret (Some cs, None), s') \<and> g_cancelled s' = g_cancelled s"
  shows "\<exists>c' cs s1 s2 s'. streamer c' s1 = (Ret (Some cs, None), s2)
    \<and> StreamClientTimeOutInterceptor L d m streamer c s = (Ret (Some cs, None), s') \<and> ctx_done c' s'"
proof -
  obtain t f where 1: "Now L s = (Ret t, s\<lparr>g_d := (g_d s)\<lparr>ds_fs := f\<rparr>\<rparr>)" using Now_run by blast
  let ?s1 = "s\<lparr>g_d := (g_d s)\<lparr>ds_fs := f\<rparr>, g_nextctx := g_nextctx s + 1\<rparr>"
  let ?c = "c\<lparr>cx_deadline := Some (t + sint d), cx_cancels := g_nextctx s # cx_cancels c\<rparr>"
  obtain cs s2 where 2: "streamer ?c ?s1 = (Ret (Some cs, None), s2)" using assms(2) by blast
  have "StreamClientTimeOutInterceptor L d m streamer c s = (Ret (Some cs, None), s2\<lparr>g_cancelled := g_nextctx s # g_cancelled s2\<rparr>)"
    using assms(1) 1 2 by (simp add: StreamClientTimeOutInterceptor_def with_deadline_def WithTimeout_def cbind_def cdefer_def ctx_cancel_def)
  then show ?thesis using 2 by (intro exI conjI) (auto simp: ctx_done_def)
qed

text \<open>With TLS an error of \<open>Dial\<close> is lost: the client has a nil connection and no error.\<close>

lemma tls_dial_error_lost:
  assumes "gc_UseTls c" "\<not> gc_WaitReady c" "\<And>conn. dial conn = Some (failure conn)" "\<And>p k. t_LoadX509KeyPair T p k = Inr (certs p k)"
    and "\<And>file. t_ReadFile T file = Inr (contents file)"
  shows "fst (DefaultClient L T retriable dial waits c) = Ret (None, None)"
  using assms by (simp add: DefaultClient_def Let_def cli_GetCredentialsByCA_def finish_client_def client_retry_codes_def)

text \<open>The address of a client over IPv6 is cut at its first colon.\<close>

lemma ipv6_address_cut: "GetClientIP (demo_ctx\<lparr>cx_peer := Some (Some ''[2001:db8::7]:443'')\<rparr>) = ''[2001''"
  by code_simp

lemma ipv6_address_local: "GetClientIP (demo_ctx\<lparr>cx_peer := Some (Some ''[::ffff:10.0.0.9]:443'')\<rparr>) = ''127.0.0.1''"
  by code_simp

text \<open>\<open>Close\<close> of a server that never started panics, once.\<close>

lemma close_before_start:
  "gs_s s = None \<Longrightarrow> \<not> gs_closeOnce s \<Longrightarrow> grpc_Close s = (Inl NilDeref, s\<lparr>gs_closeOnce := True\<rparr>)"
  by (simp add: grpc_Close_def)

text \<open>A second \<open>Start\<close> after a failed one reports success.\<close>

lemma second_start_succeeds:
  assumes "listen ('':'' @ Itoa (gs_GrpcRunHost s)) = Some e" "\<not> gs_UseTls s" "\<not> gs_startOnce s"
  shows "\<exists>s' err. grpc_Start L T listen s = (Inr (Some err), s') \<and> grpc_Start L T listen s' = (Inr None, s') \<and> \<not> gs_serving s' = (\<not> gs_serving s)"
  using assms by (simp add: grpc_Start_def grpc_start_def DefaultServer_def Let_def)

end
