(* ===== verification/Mongo.thy ===== *)
theory Mongo
  imports Process
begin

text \<open>
  The MongoDB client (\<open>databases/mongodb/db.go\<close>): configuration and connection string, the accounting of a call, and the
  commands.

  The driver and the ini parser are third-party: arguments.  The database is a state of its own (\<open>g_db\<close>) that the
  driver's commands act on; \<open>connect\<close> is the error of \<open>mongo.Connect\<close>.
\<close>

section \<open>Configuration\<close>

record MongoConfig =
  mc_Hosts :: "string list"
  mc_User :: string
  mc_Password :: string
  mc_DataBase :: string
  mc_ReplicaSet :: string
  mc_ConnTimeoutMs :: int64
  mc_SocketTimeoutMs :: int64
  mc_WTimeoutMs :: int64
  mc_MaxPoolSize :: int64
  mc_MinPoolSize :: int64
  mc_MaxIdleTimeMs :: int64
  mc_W :: int64
  mc_Journal :: string
  mc_Safe :: string

text \<open>A parsed ini file: the value of a key as text, as a list, and as a number, 0 where it is none.\<close>

record ini =
  i_String :: "string \<Rightarrow> string \<Rightarrow> string"
  i_Strings :: "string \<Rightarrow> string \<Rightarrow> string \<Rightarrow> string list"
  i_Int :: "string \<Rightarrow> string \<Rightarrow> int64"

record MongoClient =
  mg_DbConfig :: "MongoConfig option"
  mg_DbConf :: "ini option"
  mg_DbConfPath :: string
  mg_DataBase :: string
  mg_client :: "string option"
  mg_startOnce :: bool
  mg_closeOnce :: bool

definition mongo_defaultConf :: string where "mongo_defaultConf = ''conf/conf.ini''"

definition num_option :: "string \<Rightarrow> int64 \<Rightarrow> string" where
  "num_option name v = (if 0 < sint v then name @ ''='' @ Itoa (sint v) else [])"

definition text_option :: "string \<Rightarrow> string \<Rightarrow> string" where
  "text_option name v = (if length v > 0 then name @ ''='' @ v else [])"

definition option_parts :: "MongoConfig \<Rightarrow> string list" where
  "option_parts c =
     [text_option ''replicaSet'' (mc_ReplicaSet c), num_option ''connectTimeoutMs'' (mc_ConnTimeoutMs c),
      num_option ''socketTimeoutMs'' (mc_SocketTimeoutMs c), num_option ''wTimeoutMs'' (mc_WTimeoutMs c),
      num_option ''maxpoolSize'' (mc_MaxPoolSize c), num_option ''minpoolSize'' (mc_MinPoolSize c),
      num_option ''maxIdleTimeMs'' (mc_MaxIdleTimeMs c), num_option ''w'' (mc_W c),
      text_option ''journal'' (mc_Journal c), text_option ''safe'' (mc_Safe c)]"

definition optionStr :: "MongoConfig \<Rightarrow> string" where
  "optionStr c = concat (option_parts c)"

definition connStr :: "MongoConfig \<Rightarrow> string" where
  "connStr c =
     (let hostStr = strings_Join (mc_Hosts c) '',''
      in if length (mc_User c) > 0 \<and> length (mc_Password c) > 0
         then ''mongodb://'' @ mc_User c @ '':'' @ mc_Password c @ ''@'' @ hostStr @ ''/'' @ mc_DataBase c @ ''?'' @ optionStr c
         else ''mongodb://'' @ hostStr @ ''/'' @ mc_DataBase c @ ''?'' @ optionStr c)"

text \<open>The configuration is a pointer: the default of its database is written to it in any case; the second result is what the caller's \<open>c\<close> holds.\<close>

definition initWithMongoConfig :: "(string \<Rightarrow> string option) \<Rightarrow> MongoConfig \<Rightarrow> MongoClient \<Rightarrow> string option \<times> MongoConfig \<times> MongoClient" where
  "initWithMongoConfig connect c m =
     (if length (mc_Hosts c) = 0 then (Some ''mongo Config No Hosts'', c, m)
      else let c = (if length (mc_DataBase c) = 0 then c\<lparr>mc_DataBase := ''admin''\<rparr> else c)
           in case connect (connStr c) of
                Some err \<Rightarrow> (Some err, c, m)
              | None \<Rightarrow> (None, c, m\<lparr>mg_DbConfig := Some c, mg_client := Some (connStr c)\<rparr>))"

definition mongo_section :: "ini \<Rightarrow> string \<Rightarrow> MongoConfig" where
  "mongo_section f db =
     (let sec = ''Mongo.'' @ db
      in \<lparr>mc_Hosts = i_Strings f sec ''hosts'' '','', mc_User = i_String f sec ''user'', mc_Password = i_String f sec ''password'',
          mc_DataBase = db, mc_ReplicaSet = i_String f sec ''replicaSet'', mc_ConnTimeoutMs = i_Int f sec ''connTimeoutMs'',
          mc_SocketTimeoutMs = i_Int f sec ''socketTimeoutMs'', mc_WTimeoutMs = i_Int f sec ''wTimeoutMs'',
          mc_MaxPoolSize = i_Int f sec ''maxPoolSize'', mc_MinPoolSize = i_Int f sec ''minPoolSize'',
          mc_MaxIdleTimeMs = i_Int f sec ''maxIdleTimeMs'', mc_W = i_Int f sec ''w'', mc_Journal = i_String f sec ''journal'',
          mc_Safe = i_String f sec ''safe''\<rparr>)"

definition mongo_initDbs :: "(string \<Rightarrow> string option) \<Rightarrow> ini \<Rightarrow> string \<Rightarrow> MongoClient \<Rightarrow> string option \<times> MongoClient" where
  "mongo_initDbs connect f db m =
     (case initWithMongoConfig connect (mongo_section f db) m of (err, c, m) \<Rightarrow> (err, m))"

definition initObjForMongoDb :: "(string \<Rightarrow> string option) \<Rightarrow> (string \<Rightarrow> string + ini) \<Rightarrow> string \<Rightarrow> MongoClient \<Rightarrow> string option \<times> MongoClient" where
  "initObjForMongoDb connect ini_Load filePath m =
     (if filePath = [] then (Some ''dbConf not set'', m)
      else if \<not> HasSuffix filePath ''.ini'' then (Some ''dbConf not an ini file'', m)
      else case ini_Load filePath of
             Inl err \<Rightarrow> (Some err, m)
           | Inr dbConf \<Rightarrow> mongo_initDbs connect dbConf (mg_DataBase m) m)"

definition mongo_Start :: "(string \<Rightarrow> string option) \<Rightarrow> (string \<Rightarrow> string + ini) \<Rightarrow> MongoClient \<Rightarrow> string option \<times> MongoClient" where
  "mongo_Start connect ini_Load m =
     (if mg_startOnce m then (None, m)
      else let m = m\<lparr>mg_startOnce := True\<rparr> in
           case mg_DbConfig m of
             Some c \<Rightarrow> (case initWithMongoConfig connect c m of (err, c, m) \<Rightarrow> (err, m\<lparr>mg_DbConfig := Some c\<rparr>))
           | None \<Rightarrow>
               (case mg_DbConf m of
                  Some f \<Rightarrow> mongo_initDbs connect f (mg_DataBase m) m
                | None \<Rightarrow>
                    let m = (if mg_DbConfPath m = [] then m\<lparr>mg_DbConfPath := mongo_defaultConf\<rparr> else m)
                    in initObjForMongoDb connect ini_Load (mg_DbConfPath m) m))"

section \<open>Accounting\<close>

text \<open>Values as the logger's \<open>fmt\<close> takes them, and the goroutine of the caller.\<close>

record 'a mongo_env =
  me_R :: "'a runtime"
  me_goid :: int
  me_err :: "string \<Rightarrow> 'a"
  me_str :: "string \<Rightarrow> 'a"
  me_strs :: "string list \<Rightarrow> 'a"
  me_dur :: "int64 \<Rightarrow> 'a"

definition MongoCommonCostMax :: int where "MongoCommonCostMax = 20"
definition MongoNormalSlowCount :: string where "MongoNormalSlowCount = ''mongo_common_slow_count''"
definition MongoCmdSlowCount :: string where "MongoCmdSlowCount = ''mongo_%v_slow_count''"

text \<open>The verbs \<open>%v\<close> and \<open>%s\<close> of a list of strings.\<close>

definition fmt_strs :: "string list \<Rightarrow> string" where
  "fmt_strs xs = ''['' @ strings_Join xs '' '' @ '']''"

definition mongo_key :: "MongoConfig \<Rightarrow> string \<Rightarrow> string" where
  "mongo_key c cmd = ''mongo,name='' @ fmt_strs (mc_Hosts c) @ '',cmd='' @ cmd"

definition slow_call :: "'a mongo_env \<Rightarrow> MongoConfig \<Rightarrow> string \<Rightarrow> int64 \<Rightarrow> (('m, 'z) process_scheme, unit) comp" where
  "slow_call E c cmd cost =
     cbind (on_pc (pc_Incr MongoNormalSlowCount 1)) (\<lambda>u.
     cbind (if 100 < sint (duration_ms cost)
            then log_as (me_R E) (me_goid E) (\<lambda>W. dlog_Warn W [''mongodb.pcAndGl''] (ArgString ''mongo slow, pool:%v, cmd:%v, cost:%v'')
                   [me_strs E (mc_Hosts c), me_str E cmd, me_dur E cost])
            else creturn ()) (\<lambda>u.
       on_pc (Cost (mongo_key c MongoCmdSlowCount) cost)))"

definition pcAndGl :: "'a mongo_env \<Rightarrow> MongoClient \<Rightarrow> int \<Rightarrow> string \<Rightarrow> string option \<Rightarrow> (('m, 'z) process_scheme, unit) comp" where
  "pcAndGl E m sTime cmd err =
     cbind (clock (me_R E)) (\<lambda>t.
       let cost = time_Sub t sTime; pcKey = ''mongo_cmd_'' @ cmd in
       case mg_DbConfig m of
         None \<Rightarrow> (\<lambda>s. (Panics NilDeref, s))
       | Some c \<Rightarrow>
           cbind (on_pc (Cost (mongo_key c pcKey) cost)) (\<lambda>u.
           cbind (on_pc (Cost (mongo_key c pcKey) cost)) (\<lambda>u.
           cbind (on_gl (gl_Incr (me_goid E) (AStr ''mongo_call'') 1)) (\<lambda>n.
           cbind (on_gl (gl_IncrCost (me_goid E) (AStr ''mongo_cost'') cost)) (\<lambda>n.
           cbind (if MongoCommonCostMax < sint (duration_ms cost) then slow_call E c cmd cost else creturn ()) (\<lambda>u.
             if err \<noteq> None
             then cbind (on_pc (CostFail (''mongo,name='' @ fmt_strs (mc_Hosts c)) 1)) (\<lambda>u.
                  cbind (on_gl (gl_Incr (me_goid E) (AStr ''mongo_call_fail'') 1)) (\<lambda>n. creturn ()))
             else creturn ()))))))"

section \<open>Commands\<close>

text \<open>\<open>act\<close> is the command of the driver on a collection of a database: an error or a result.\<close>

record ('m, 'db) mongo_state = "'m process" +
  g_db :: 'db

type_synonym ('db, 'r) driver = "string \<Rightarrow> string \<Rightarrow> 'db \<Rightarrow> (string + 'r) \<times> 'db"

definition driver_run :: "MongoClient \<Rightarrow> ('db, 'r) driver \<Rightarrow> string \<Rightarrow> (('m, 'db) mongo_state, string + 'r) comp" where
  "driver_run m act collection s =
     (case mg_client m of
        None \<Rightarrow> (Panics NilDeref, s)
      | Some uri \<Rightarrow> (case act (mg_DataBase m) collection (g_db s) of (r, db) \<Rightarrow> (Ret r, s\<lparr>g_db := db\<rparr>)))"

text \<open>A command with the deferred accounting, which sees the error that is returned, or none after a panic.\<close>

definition accounted :: "'a mongo_env \<Rightarrow> MongoClient \<Rightarrow> string \<Rightarrow> (('m, 'z) process_scheme, 'x \<times> string option) comp
    \<Rightarrow> (('m, 'z) process_scheme, 'x \<times> string option) comp" where
  "accounted E m cmd body =
     cbind (clock (me_R E)) (\<lambda>sTime s.
       case body s of
         (Ret (x, err), s) \<Rightarrow> cbind (pcAndGl E m sTime cmd err) (\<lambda>u. creturn (x, err)) s
       | (Panics p, s) \<Rightarrow> cbind (pcAndGl E m sTime cmd None) (\<lambda>u s. (Panics p, s)) s
       | r \<Rightarrow> r)"

definition command_body :: "'a mongo_env \<Rightarrow> MongoClient \<Rightarrow> string \<Rightarrow> ('db, 'r) driver \<Rightarrow> string \<Rightarrow> 'x \<Rightarrow> ('r \<Rightarrow> 'x)
    \<Rightarrow> (('m, 'db) mongo_state, 'x \<times> string option) comp" where
  "command_body E m name act collection failed result =
     cbind (driver_run m act collection) (\<lambda>r.
       case r of
         Inl err \<Rightarrow>
           cbind (log_as (me_R E) (me_goid E) (\<lambda>W. dlog_Error W [''mongodb.'' @ name]
                    (ArgString (''mongoClient '' @ name @ '' occur error:%v, collection:%s'')) [me_err E err, me_str E collection])) (\<lambda>u.
             creturn (failed, Some err))
       | Inr x \<Rightarrow> creturn (result x, None))"

definition mongo_Insert where
  "mongo_Insert E m insertMany collection =
     accounted E m ''insert'' (command_body E m ''Insert'' insertMany collection None (\<lambda>ids. Some ids))"

definition mongo_UpdateOne where
  "mongo_UpdateOne E m updateOne collection =
     accounted E m ''updateOne'' (command_body E m ''UpdateOne'' updateOne collection None (\<lambda>upserted. upserted))"

definition mongo_UpdateMany where
  "mongo_UpdateMany E m updateMany collection =
     accounted E m ''updateMany'' (command_body E m ''UpdateMany'' updateMany collection None (\<lambda>upserted. upserted))"

definition mongo_DeleteOne where
  "mongo_DeleteOne E m deleteOne collection =
     accounted E m ''deleteOne'' (command_body E m ''DeleteOne'' deleteOne collection (0 :: int64) (\<lambda>count. count))"

definition mongo_DeleteMany where
  "mongo_DeleteMany E m deleteMany collection =
     accounted E m ''deleteMany'' (command_body E m ''DeleteMany'' deleteMany collection (0 :: int64) (\<lambda>count. count))"

text \<open>\<open>FindOne\<close> returns the driver's result, which holds the error, and no error of its own.\<close>

definition mongo_FindOne where
  "mongo_FindOne E m findOne collection =
     accounted E m ''findOne'' (cbind (driver_run m findOne collection) (\<lambda>r. creturn (Some r, None)))"

definition mongo_Find where
  "mongo_Find E m query collection =
     accounted E m ''find'' (command_body E m ''Find'' query collection None (\<lambda>cur. Some cur))"

definition close_body :: "'a mongo_env \<Rightarrow> string option \<Rightarrow> MongoClient \<Rightarrow> (('m, 'z) process_scheme, unit) comp" where
  "close_body E disconnect m =
     (case mg_client m of
        None \<Rightarrow> (\<lambda>s. (Panics NilDeref, s))
      | Some uri \<Rightarrow>
          cbind (case disconnect of
                   None \<Rightarrow> creturn ()
                 | Some err \<Rightarrow> log_as (me_R E) (me_goid E) (\<lambda>W. dlog_Warn W [''mongodb.Close''] (ArgString ''mongoClient close err, %v'') [me_err E err])) (\<lambda>u.
            log_as (me_R E) (me_goid E) (\<lambda>W. dlog_Info W [''mongodb.Close''] (ArgString ''mongoClient close finish'') [])))"

text \<open>The function of a \<open>sync.Once\<close> counts as called also when it panics.\<close>

definition mongo_Close where
  "mongo_Close E disconnect m s =
     (if mg_closeOnce m then ((Ret (), s), m) else (close_body E disconnect m s, m\<lparr>mg_closeOnce := True\<rparr>))"

section \<open>Every command is accounted for\<close>

definition bump :: "gany \<Rightarrow> int64 \<Rightarrow> (gany \<rightharpoonup> gany) \<Rightarrow> (gany \<rightharpoonup> gany)" where
  "bump k d m = m(k \<mapsto> AInt64 (private_counter m k + d))"

lemma gl_Incr_run:
  assumes "gl_inv (g_gl s)"
  shows "\<exists>n g. on_gl (gl_Incr goid k d) s = (Ret n, s\<lparr>g_gl := g\<rparr>) \<and> gl_inv g
    \<and> gl_private goid g = map_option (bump k d) (gl_private goid (g_gl s))"
proof -
  obtain g where "gl_Incr goid k d (g_gl s) = Inr (case gl_private goid (g_gl s) of None \<Rightarrow> - 1 | Some m \<Rightarrow> private_counter m k, g)" "gl_inv g"
    "gl_private goid g = map_option (\<lambda>m. m(k \<mapsto> AInt64 (private_counter m k + d))) (gl_private goid (g_gl s))"
    unfolding gl_Incr_counter by (rule gl_counter_step [OF assms, of _ k "\<lambda>v. v + d" goid]) auto
  then show ?thesis by (auto simp: on_gl_def bump_def [abs_def])
qed

text \<open>What a call adds to the counters of the process and of the goroutine, and the levels of the records it logs.\<close>

definition mongo_pc :: "MongoConfig \<Rightarrow> string \<Rightarrow> int64 \<Rightarrow> string option \<Rightarrow> 'm pc_state \<Rightarrow> 'm pc_state" where
  "mongo_pc c cmd cost err p =
     (let p = Cost (mongo_key c (''mongo_cmd_'' @ cmd)) cost (Cost (mongo_key c (''mongo_cmd_'' @ cmd)) cost p);
          p = (if 20 < sint (duration_ms cost) then Cost (mongo_key c MongoCmdSlowCount) cost (pc_Incr MongoNormalSlowCount 1 p) else p)
      in if err = None then p else CostFail (''mongo,name='' @ fmt_strs (mc_Hosts c)) 1 p)"

definition mongo_gl :: "int64 \<Rightarrow> string option \<Rightarrow> (gany \<rightharpoonup> gany) \<Rightarrow> (gany \<rightharpoonup> gany)" where
  "mongo_gl cost err mp =
     (let mp = bump (AStr ''mongo_cost'') (duration_ms cost) (bump (AStr ''mongo_call'') 1 mp)
      in if err = None then mp else bump (AStr ''mongo_call_fail'') 1 mp)"

definition mongo_records :: "int64 \<Rightarrow> (Level \<times> string) list" where
  "mongo_records cost = (if 100 < sint (duration_ms cost) then [(WARNING, [])] else [])"

lemma slow_call_run:
  assumes "log_room (Suc n) (me_R E) (g_d s)" "gl_inv (g_gl s)"
  shows "\<exists>d. slow_call E c cmd cost s
      = (Ret (), s\<lparr>g_pc := Cost (mongo_key c MongoCmdSlowCount) cost (pc_Incr MongoNormalSlowCount 1 (g_pc s)), g_d := d\<rparr>)
    \<and> records_sent (mongo_records cost) (g_d s) d"
proof (cases "100 < sint (duration_ms cost)")
  case True
  obtain d where "log_as (me_R E) (me_goid E) (\<lambda>W. dlog_Warn W [''mongodb.pcAndGl''] (ArgString ''mongo slow, pool:%v, cmd:%v, cost:%v'')
      [me_strs E (mc_Hosts c), me_str E cmd, me_dur E cost]) (s\<lparr>g_pc := pc_Incr MongoNormalSlowCount 1 (g_pc s)\<rparr>)
      = (Ret (), s\<lparr>g_pc := pc_Incr MongoNormalSlowCount 1 (g_pc s), g_d := d\<rparr>)" "records_sent [(WARNING, [])] (g_d s) d"
    using log_as_run [of n "me_R E" "s\<lparr>g_pc := pc_Incr MongoNormalSlowCount 1 (g_pc s)\<rparr>" "me_goid E" "''dlog.Warn''" WARNING
        "[''mongodb.pcAndGl'']" "[]" "ArgString ''mongo slow, pool:%v, cmd:%v, cost:%v''"
        "[me_strs E (mc_Hosts c), me_str E cmd, me_dur E cost]"] assms
    unfolding dlog_calls by auto
  then show ?thesis using True by (intro exI [of _ d]) (simp add: slow_call_def on_pc_def cbind_def mongo_records_def)
next
  case False
  then show ?thesis
    by (intro exI [of _ "g_d s"]) (simp add: slow_call_def on_pc_def cbind_def creturn_def mongo_records_def records_sent_none)
qed

lemma pcAndGl_run:
  assumes "mg_DbConfig m = Some c" "log_room (Suc n) (me_R E) (g_d s)" "gl_inv (g_gl s)"
  shows "\<exists>t g d. let cost = time_Sub t sTime in
      pcAndGl E m sTime cmd err s = (Ret (), s\<lparr>g_gl := g, g_pc := mongo_pc c cmd cost err (g_pc s), g_d := d\<rparr>) \<and> gl_inv g
    \<and> gl_private (me_goid E) g = map_option (mongo_gl cost err) (gl_private (me_goid E) (g_gl s))
    \<and> records_sent (mongo_records cost) (g_d s) d"
proof -
  obtain t f where 1: "clock (me_R E) s = (Ret t, s\<lparr>g_d := (g_d s)\<lparr>ds_fs := f\<rparr>\<rparr>)" using clock_run by blast
  define cost where "cost = time_Sub t sTime"
  define p1 where "p1 = Cost (mongo_key c (''mongo_cmd_'' @ cmd)) cost (Cost (mongo_key c (''mongo_cmd_'' @ cmd)) cost (g_pc s))"
  define s1 where "s1 = s\<lparr>g_d := (g_d s)\<lparr>ds_fs := f\<rparr>, g_pc := p1\<rparr>"
  have "gl_inv (g_gl s1)" using assms(3) by (simp add: s1_def)
  from gl_Incr_run [OF this, of "me_goid E" "AStr ''mongo_call''" 1] obtain n1 g1 where
    2: "on_gl (gl_Incr (me_goid E) (AStr ''mongo_call'') 1) s1 = (Ret n1, s1\<lparr>g_gl := g1\<rparr>)" "gl_inv g1"
    "gl_private (me_goid E) g1 = map_option (bump (AStr ''mongo_call'') 1) (gl_private (me_goid E) (g_gl s))" by (auto simp: s1_def)
  from gl_Incr_run [of "s1\<lparr>g_gl := g1\<rparr>" "me_goid E" "AStr ''mongo_cost''" "duration_ms cost"] 2(2) obtain n2 g2 where
    3: "on_gl (gl_Incr (me_goid E) (AStr ''mongo_cost'') (duration_ms cost)) (s1\<lparr>g_gl := g1\<rparr>) = (Ret n2, s1\<lparr>g_gl := g2\<rparr>)" "gl_inv g2"
    "gl_private (me_goid E) g2 = map_option (bump (AStr ''mongo_cost'') (duration_ms cost)) (gl_private (me_goid E) g1)" by auto
  define p2 where "p2 = (if 20 < sint (duration_ms cost) then Cost (mongo_key c MongoCmdSlowCount) cost (pc_Incr MongoNormalSlowCount 1 p1) else p1)"
  let ?s2 = "s1\<lparr>g_gl := g2\<rparr>"
  obtain d where 4: "(if 20 < sint (duration_ms cost) then slow_call E c cmd cost else creturn ()) ?s2 = (Ret (), ?s2\<lparr>g_pc := p2, g_d := d\<rparr>)"
    "records_sent (mongo_records cost) (g_d s) d"
  proof (cases "20 < sint (duration_ms cost)")
    case True
    have "log_room (Suc n) (me_R E) (g_d ?s2)" "gl_inv (g_gl ?s2)" using assms(2) 3(2) by (simp_all add: s1_def)
    from slow_call_run [OF this, of c cmd cost] True that show ?thesis by (auto simp: p2_def s1_def)
  next
    case False
    then have "mongo_records cost = []" by (simp add: mongo_records_def)
    then show ?thesis using False that [of "g_d s1"] by (simp add: p2_def s1_def records_sent_none)
  qed
  let ?s3 = "?s2\<lparr>g_pc := p2, g_d := d\<rparr>"
  have twice: "cbind (on_pc (Cost (mongo_key c (''mongo_cmd_'' @ cmd)) cost)) (\<lambda>u. cbind (on_pc (Cost (mongo_key c (''mongo_cmd_'' @ cmd)) cost)) k)
      (s\<lparr>g_d := (g_d s)\<lparr>ds_fs := f\<rparr>\<rparr>) = k () s1" for k :: "unit \<Rightarrow> (('b, 'c) process_scheme, unit) comp"
    by (simp add: cbind_def on_pc_def s1_def p1_def)
  have head: "pcAndGl E m sTime cmd err s =
      (if err \<noteq> None
       then cbind (on_pc (CostFail (''mongo,name='' @ fmt_strs (mc_Hosts c)) 1)) (\<lambda>u.
            cbind (on_gl (gl_Incr (me_goid E) (AStr ''mongo_call_fail'') 1)) (\<lambda>n. creturn ()))
       else creturn ()) ?s3"
    unfolding pcAndGl_def cbind_Ret [of "clock (me_R E)" s, OF 1] Let_def cost_def [symmetric] assms(1) option.case twice gl_IncrCost_def [abs_def] MongoCommonCostMax_def
      cbind_Ret [of "on_gl (gl_Incr (me_goid E) (AStr ''mongo_call'') 1)" s1, OF 2(1)]
      cbind_Ret [of "on_gl (gl_Incr (me_goid E) (AStr ''mongo_cost'') (duration_ms cost))" "s1\<lparr>g_gl := g1\<rparr>", OF 3(1)]
      cbind_Ret [of "if 20 < sint (duration_ms cost) then slow_call E c cmd cost else creturn ()" ?s2, OF 4(1)] ..
  have priv: "gl_private (me_goid E) g2 = map_option (mongo_gl cost None) (gl_private (me_goid E) (g_gl s))"
    unfolding 3(3) 2(3) by (simp add: mongo_gl_def [abs_def] option.map_comp comp_def)
  show ?thesis
  proof (cases err)
    case None
    then show ?thesis using head priv 3(2) 4(2)
      by (intro exI [of _ t] exI [of _ g2] exI [of _ d]) (simp add: cost_def [symmetric] Let_def mongo_pc_def p2_def p1_def s1_def)
  next
    case (Some e)
    let ?s4 = "?s3\<lparr>g_pc := CostFail (''mongo,name='' @ fmt_strs (mc_Hosts c)) 1 p2\<rparr>"
    obtain n3 g3 where 5: "on_gl (gl_Incr (me_goid E) (AStr ''mongo_call_fail'') 1) ?s4 = (Ret n3, ?s4\<lparr>g_gl := g3\<rparr>)" "gl_inv g3"
      "gl_private (me_goid E) g3 = map_option (bump (AStr ''mongo_call_fail'') 1) (gl_private (me_goid E) g2)"
      using gl_Incr_run [of ?s4 "me_goid E" "AStr ''mongo_call_fail''" 1] 3(2) by auto
    have "pcAndGl E m sTime cmd err s = (Ret (), ?s4\<lparr>g_gl := g3\<rparr>)" using head Some 5(1) by (simp add: on_pc_def cbind_def)
    moreover have "gl_private (me_goid E) g3 = map_option (mongo_gl cost err) (gl_private (me_goid E) (g_gl s))"
      unfolding 5(3) priv using Some by (simp add: mongo_gl_def [abs_def] option.map_comp comp_def Let_def)
    ultimately show ?thesis using 5(2) 4(2) Some
      by (intro exI [of _ t] exI [of _ g3] exI [of _ d]) (simp add: cost_def [symmetric] Let_def mongo_pc_def p2_def p1_def s1_def)
  qed
qed

lemma command_body_run:
  assumes "mg_client m = Some uri" "log_room (Suc n) (me_R E) (g_d s)" "gl_inv (g_gl s)" "act (mg_DataBase m) collection (g_db s) = (r, db)"
  shows "\<exists>d. command_body E m name act collection failed result s =
      (Ret (case r of Inl e \<Rightarrow> (failed, Some e) | Inr x \<Rightarrow> (result x, None)), s\<lparr>g_db := db, g_d := d\<rparr>) \<and> log_room n (me_R E) d
    \<and> records_sent (if isl r then [(ERROR, [])] else []) (g_d s) d"
proof (cases r)
  case (Inl e)
  obtain d where "log_as (me_R E) (me_goid E) (\<lambda>W. dlog_Error W [''mongodb.'' @ name]
      (ArgString (''mongoClient '' @ name @ '' occur error:%v, collection:%s'')) [me_err E e, me_str E collection]) (s\<lparr>g_db := db\<rparr>)
      = (Ret (), s\<lparr>g_db := db, g_d := d\<rparr>)" "log_room n (me_R E) d" "records_sent [(ERROR, [])] (g_d s) d"
    using log_as_run [of n "me_R E" "s\<lparr>g_db := db\<rparr>" "me_goid E" "''dlog.Error''" ERROR "[''mongodb.'' @ name]" "[]"
        "ArgString (''mongoClient '' @ name @ '' occur error:%v, collection:%s'')" "[me_err E e, me_str E collection]"] assms(2,3)
    unfolding dlog_calls by auto
  then show ?thesis using Inl assms(1,4) by (intro exI [of _ d]) (simp add: command_body_def driver_run_def cbind_def creturn_def)
next
  case (Inr x)
  then show ?thesis using assms log_room_weaken [OF assms(2), of n]
    by (intro exI [of _ "g_d s"]) (simp add: command_body_def driver_run_def cbind_def creturn_def records_sent_none)
qed

text \<open>The six commands that differ in their names, the driver's command and the value they fail with.\<close>

lemma command_accounted:
  assumes "mg_client m = Some uri" "mg_DbConfig m = Some c" "log_room 2 (me_R E) (g_d s)" "gl_inv (g_gl s)"
    and "act (mg_DataBase m) collection (g_db s) = (r, db)"
  shows "\<exists>s' cost. let err = (case r of Inl e \<Rightarrow> Some e | Inr x \<Rightarrow> None) in
      accounted E m cmd (command_body E m name act collection failed result) s
        = (Ret (case r of Inl e \<Rightarrow> failed | Inr x \<Rightarrow> result x, err), s')
    \<and> g_db s' = db \<and> g_pc s' = mongo_pc c cmd cost err (g_pc s)
    \<and> gl_private (me_goid E) (g_gl s') = map_option (mongo_gl cost err) (gl_private (me_goid E) (g_gl s))
    \<and> records_sent ((if isl r then [(ERROR, [])] else []) @ mongo_records cost) (g_d s) (g_d s')"
proof -
  let ?x = "case r of Inl e \<Rightarrow> failed | Inr x \<Rightarrow> result x" and ?err = "case r of Inl e \<Rightarrow> Some e | Inr x \<Rightarrow> None"
  obtain t0 f where 1: "clock (me_R E) s = (Ret t0, s\<lparr>g_d := (g_d s)\<lparr>ds_fs := f\<rparr>\<rparr>)" using clock_run by blast
  let ?s1 = "s\<lparr>g_d := (g_d s)\<lparr>ds_fs := f\<rparr>\<rparr>"
  have "log_room (Suc (Suc 0)) (me_R E) (g_d ?s1)" "gl_inv (g_gl ?s1)" "act (mg_DataBase m) collection (g_db ?s1) = (r, db)"
    using assms(3-5) by (simp_all add: numeral_2_eq_2)
  from command_body_run [of m uri "Suc 0" E ?s1 act collection r db name failed result, OF assms(1) this] obtain d where
    2: "command_body E m name act collection failed result ?s1 = (Ret (case r of Inl e \<Rightarrow> (failed, Some e) | Inr x \<Rightarrow> (result x, None)), s\<lparr>g_db := db, g_d := d\<rparr>)"
    "log_room (Suc 0) (me_R E) d" "records_sent (if isl r then [(ERROR, [])] else []) (g_d s) d" by (auto simp: records_sent_def)
  have res: "(case r of Inl e \<Rightarrow> (failed, Some e) | Inr x \<Rightarrow> (result x, None)) = (?x, ?err)" by (cases r) simp_all
  let ?s2 = "s\<lparr>g_db := db, g_d := d\<rparr>"
  have "log_room (Suc 0) (me_R E) (g_d ?s2)" "gl_inv (g_gl ?s2)" using 2(2) assms(4) by simp_all
  from pcAndGl_run [OF assms(2) this, of t0 cmd ?err] obtain t g d' where
    3: "pcAndGl E m t0 cmd ?err ?s2 = (Ret (), ?s2\<lparr>g_gl := g, g_pc := mongo_pc c cmd (time_Sub t t0) ?err (g_pc s), g_d := d'\<rparr>)"
    "gl_private (me_goid E) g = map_option (mongo_gl (time_Sub t t0) ?err) (gl_private (me_goid E) (g_gl s))"
    "records_sent (mongo_records (time_Sub t t0)) d d'" by (auto simp: Let_def)
  have "accounted E m cmd (command_body E m name act collection failed result) s
      = (Ret (?x, ?err), ?s2\<lparr>g_gl := g, g_pc := mongo_pc c cmd (time_Sub t t0) ?err (g_pc s), g_d := d'\<rparr>)"
    using 1 2(1) 3(1) res by (simp add: accounted_def cbind_def creturn_def)
  then show ?thesis using 3(2) records_sent_append [OF 2(3) 3(3)] unfolding Let_def
    by (intro exI [of _ "?s2\<lparr>g_gl := g, g_pc := mongo_pc c cmd (time_Sub t t0) ?err (g_pc s), g_d := d'\<rparr>"] exI [of _ "time_Sub t t0"]) simp
qed

text \<open>\<open>FindOne\<close> hands on what the driver returns, an error too, and reports no error.\<close>

lemma FindOne_accounted:
  assumes "mg_client m = Some uri" "mg_DbConfig m = Some c" "log_room 2 (me_R E) (g_d s)" "gl_inv (g_gl s)"
    and "findOne (mg_DataBase m) collection (g_db s) = (r, db)"
  shows "\<exists>s' cost. mongo_FindOne E m findOne collection s = (Ret (Some r, None), s')
    \<and> g_db s' = db \<and> g_pc s' = mongo_pc c ''findOne'' cost None (g_pc s)
    \<and> gl_private (me_goid E) (g_gl s') = map_option (mongo_gl cost None) (gl_private (me_goid E) (g_gl s))
    \<and> records_sent (mongo_records cost) (g_d s) (g_d s')"
proof -
  obtain t0 f where 1: "clock (me_R E) s = (Ret t0, s\<lparr>g_d := (g_d s)\<lparr>ds_fs := f\<rparr>\<rparr>)" using clock_run by blast
  let ?s = "s\<lparr>g_d := (g_d s)\<lparr>ds_fs := f\<rparr>, g_db := db\<rparr>"
  have "log_room (Suc 1) (me_R E) (g_d ?s)" "gl_inv (g_gl ?s)" using assms(3,4) by (simp_all add: numeral_2_eq_2)
  from pcAndGl_run [OF assms(2) this, of t0 "''findOne''" None] obtain t g d where
    2: "pcAndGl E m t0 ''findOne'' None ?s = (Ret (), ?s\<lparr>g_gl := g, g_pc := mongo_pc c ''findOne'' (time_Sub t t0) None (g_pc s), g_d := d\<rparr>)"
    "gl_private (me_goid E) g = map_option (mongo_gl (time_Sub t t0) None) (gl_private (me_goid E) (g_gl s))"
    "records_sent (mongo_records (time_Sub t t0)) (g_d s) d"
    by (auto simp: Let_def)
  then have "mongo_FindOne E m findOne collection s
      = (Ret (Some r, None), ?s\<lparr>g_gl := g, g_pc := mongo_pc c ''findOne'' (time_Sub t t0) None (g_pc s), g_d := d\<rparr>)"
    using 1 assms(1,5) by (simp add: mongo_FindOne_def accounted_def driver_run_def cbind_def creturn_def)
  with 2(2,3) show ?thesis
    by (intro exI [of _ "?s\<lparr>g_gl := g, g_pc := mongo_pc c ''findOne'' (time_Sub t t0) None (g_pc s), g_d := d\<rparr>"] exI [of _ "time_Sub t t0"]) simp
qed

text \<open>
  The account of a command: \<open>ret\<close> turns what the driver returns into result and error of the method, and \<open>out\<close> is the outcome and the
  state after the method.
\<close>

definition well_accounted ::
  "'a mongo_env \<Rightarrow> MongoClient \<Rightarrow> MongoConfig \<Rightarrow> ('m, 'db) mongo_state \<Rightarrow> string \<Rightarrow> ('db, 'r) driver \<Rightarrow> string
   \<Rightarrow> (string + 'r \<Rightarrow> 'x \<times> string option) \<Rightarrow> ('x \<times> string option) outcome \<times> ('m, 'db) mongo_state \<Rightarrow> bool" where
  "well_accounted E m c s cmd act collection ret out \<longleftrightarrow>
     (\<exists>r db s' cost. act (mg_DataBase m) collection (g_db s) = (r, db) \<and> out = (Ret (ret r), s') \<and> g_db s' = db
        \<and> g_pc s' = mongo_pc c cmd cost (snd (ret r)) (g_pc s)
        \<and> gl_private (me_goid E) (g_gl s') = map_option (mongo_gl cost (snd (ret r))) (gl_private (me_goid E) (g_gl s))
        \<and> records_sent ((if snd (ret r) = None then [] else [(ERROR, [])]) @ mongo_records cost) (g_d s) (g_d s'))"

definition or_error :: "'x \<Rightarrow> ('r \<Rightarrow> 'x) \<Rightarrow> string + 'r \<Rightarrow> 'x \<times> string option" where
  "or_error failed result r = (case r of Inl e \<Rightarrow> (failed, Some e) | Inr x \<Rightarrow> (result x, None))"

lemma command_well_accounted:
  assumes "mg_client m = Some uri" "mg_DbConfig m = Some c" "log_room 2 (me_R E) (g_d s)" "gl_inv (g_gl s)"
  shows "well_accounted E m c s cmd act collection (or_error failed result) (accounted E m cmd (command_body E m name act collection failed result) s)"
proof -
  obtain r db where r: "act (mg_DataBase m) collection (g_db s) = (r, db)" by fastforce
  show ?thesis using command_accounted [where act = act and collection = collection and r = r and db = db, OF assms r, of cmd name failed result] r
    by (cases r) (auto simp: well_accounted_def or_error_def Let_def)
qed

text \<open>
  C25.  The seven commands of a started MongoDB client, whatever the database does, with room for two records at the writers.  A
  command goes once to the database and the collection it names.  \<open>Insert\<close>, \<open>UpdateOne\<close>, \<open>UpdateMany\<close>, \<open>DeleteOne\<close>, \<open>DeleteMany\<close> and \<open>Find\<close>
  return the driver's result, or \<open>nil\<close> (0 for the deletions) with the error, which is logged once and counted once as
  a failure, for the process and for the goroutine; a success is not.  \<open>FindOne\<close> returns what the driver returns and
  no error: a failure of it is neither logged nor counted.  The goroutine counts one call and its milliseconds.  The process
  counts the time, twice under the name of the command, and once more with the slow calls when it took more than
  20 milliseconds; above 100 a warning is logged.
\<close>

theorem mongo_command_accounted:
  assumes "mg_client m = Some uri" "mg_DbConfig m = Some c" "log_room 2 (me_R E) (g_d s)" "gl_inv (g_gl s)"
  shows "well_accounted E m c s ''insert'' insertMany collection (or_error None Some) (mongo_Insert E m insertMany collection s)
    \<and> well_accounted E m c s ''updateOne'' updateOne collection (or_error None id) (mongo_UpdateOne E m updateOne collection s)
    \<and> well_accounted E m c s ''updateMany'' updateMany collection (or_error None id) (mongo_UpdateMany E m updateMany collection s)
    \<and> well_accounted E m c s ''deleteOne'' deleteOne collection (or_error 0 id) (mongo_DeleteOne E m deleteOne collection s)
    \<and> well_accounted E m c s ''deleteMany'' deleteMany collection (or_error 0 id) (mongo_DeleteMany E m deleteMany collection s)
    \<and> well_accounted E m c s ''find'' query collection (or_error None Some) (mongo_Find E m query collection s)
    \<and> well_accounted E m c s ''findOne'' findOne collection (\<lambda>r. (Some r, None)) (mongo_FindOne E m findOne collection s)"
proof -
  obtain r db where "findOne (mg_DataBase m) collection (g_db s) = (r, db)" by fastforce
  then have one: "well_accounted E m c s ''findOne'' findOne collection (\<lambda>r. (Some r, None)) (mongo_FindOne E m findOne collection s)"
    using FindOne_accounted [OF assms, of findOne collection r db] by (auto simp: well_accounted_def)
  show ?thesis
    unfolding mongo_Insert_def mongo_UpdateOne_def mongo_UpdateMany_def mongo_DeleteOne_def mongo_DeleteMany_def mongo_Find_def id_def
    by (intro conjI one command_well_accounted [OF assms])
qed

definition demo_mongo_config :: MongoConfig where
  "demo_mongo_config =
     \<lparr>mc_Hosts = [''h1'', ''h2''], mc_User = [], mc_Password = [], mc_DataBase = ''d'', mc_ReplicaSet = ''rs'', mc_ConnTimeoutMs = 0,
      mc_SocketTimeoutMs = 0, mc_WTimeoutMs = 0, mc_MaxPoolSize = 10, mc_MinPoolSize = 0, mc_MaxIdleTimeMs = 0, mc_W = 0, mc_Journal = [], mc_Safe = []\<rparr>"

definition demo_mongo :: MongoClient where
  "demo_mongo =
     \<lparr>mg_DbConfig = Some demo_mongo_config, mg_DbConf = None, mg_DbConfPath = [], mg_DataBase = ''d'', mg_client = Some ''mongodb://h1,h2/d?'',
      mg_startOnce = True, mg_closeOnce = False\<rparr>"

definition demo_env :: "string mongo_env" where
  "demo_env = \<lparr>me_R = demo_runtime, me_goid = 1, me_err = id, me_str = id, me_strs = concat, me_dur = (\<lambda>d. [])\<rparr>"

definition demo_mstate :: "(unit, nat) mongo_state" where
  "demo_mstate =
     \<lparr>g_gl = newGoroutineLocal,
      g_pc = (pc_init \<lparr>mp_new = (), mp_get = (\<lambda>k m. None), mp_set = (\<lambda>k v m. m), mp_iter = (\<lambda>m. [])\<rparr>)\<lparr>pc_closed := 1\<rparr>,
      g_d = demo_state, g_db = 0\<rparr>"

theorem mongo_command_accounted_witness:
  "\<exists>s'. mongo_DeleteOne demo_env demo_mongo (\<lambda>db coll n. (Inl ''duplicate'', n + 1)) ''users'' demo_mstate = (Ret (0, Some ''duplicate''), s')
     \<and> g_db s' = 1 \<and> length (pc_costTimerC (g_pc s')) \<ge> 2"
proof -
  have m: "mg_client demo_mongo = Some ''mongodb://h1,h2/d?''" "mg_DbConfig demo_mongo = Some demo_mongo_config" by (simp_all add: demo_mongo_def)
  have l: "log_room 2 (me_R demo_env) (g_d demo_mstate)" "gl_inv (g_gl demo_mstate)"
    by (simp_all add: log_room_def demo_env_def demo_mstate_def demo_runtime_def demo_state_def NewConsoleLogWriter_def rc_new_def
        LogBufferLength_def newGoroutineLocal_inv)
  let ?act = "\<lambda>db coll n. (Inl ''duplicate'', n + 1)"
  have "well_accounted demo_env demo_mongo demo_mongo_config demo_mstate ''deleteOne'' ?act ''users'' (or_error 0 id)
      (mongo_DeleteOne demo_env demo_mongo ?act ''users'' demo_mstate)"
    using mongo_command_accounted [OF m l, where collection = "''users''" and deleteOne = ?act] by blast
  then obtain s' cost where s': "mongo_DeleteOne demo_env demo_mongo ?act ''users'' demo_mstate = (Ret (0, Some ''duplicate''), s')"
    "g_db s' = 1" "g_pc s' = mongo_pc demo_mongo_config ''deleteOne'' cost (Some ''duplicate'') (g_pc demo_mstate)"
    by (auto simp: well_accounted_def or_error_def demo_mstate_def)
  have "length (pc_costTimerC (g_pc s')) \<ge> 2"
    unfolding s'(3) by (simp add: mongo_pc_def Let_def Cost_def CostFail_def pc_Incr_def demo_mstate_def pc_init_def defaultWorkerCount_def)
  then show ?thesis using s'(1,2) by blast
qed

section \<open>What goes wrong\<close>

text \<open>Options are put behind each other without a separator.\<close>

lemma options_run_together: "connStr demo_mongo_config = ''mongodb://h1,h2/d?replicaSet=rsmaxpoolSize=10''"
  by code_simp

text \<open>Two options are the same text as one option with a longer value.\<close>

lemma options_ambiguous:
  "optionStr (demo_mongo_config\<lparr>mc_ReplicaSet := ''rsmaxpoolSize=10'', mc_MaxPoolSize := 0\<rparr>) = optionStr demo_mongo_config"
  by code_simp

text \<open>Without a database the connection authenticates against \<open>admin\<close>, but commands name the empty database.\<close>

lemma default_database_not_used:
  assumes "mc_Hosts c \<noteq> []" "mc_DataBase c = []" "mg_DbConfig m = Some c" "\<not> mg_startOnce m" "mg_DataBase m = []" "\<And>uri. connect uri = None"
  shows "\<exists>m' c'. mongo_Start connect load m = (None, m') \<and> mg_DbConfig m' = Some c' \<and> mc_DataBase c' = ''admin'' \<and> mg_DataBase m' = []"
  using assms by (simp add: mongo_Start_def initWithMongoConfig_def Let_def)

text \<open>\<open>Close\<close> of a client that did not start panics.\<close>

lemma close_without_client: "mg_client m = None \<Longrightarrow> \<not> mg_closeOnce m \<Longrightarrow>
   mongo_Close E disconnect m s = ((Panics NilDeref, s), m\<lparr>mg_closeOnce := True\<rparr>)"
  by (simp add: mongo_Close_def close_body_def)

end
