(* ===== verification/OrderedMap.thy ===== *)
theory OrderedMap
  imports Prelude
begin

text \<open>
  \<open>utls/orderedmap\<close>: a map that remembers insertion order, kept as a Go map beside a
  circular doubly linked list with a sentinel root (\<open>list.go\<close>, \<open>orderedmap.go\<close>).
  The nodes live in a heap from addresses to \<open>node\<close> records, so that the pointer updates
  of \<open>Set\<close> and \<open>Delete\<close> and their aliasing are those of the code.
\<close>

section \<open>Nodes and the heap\<close>

type_synonym addr = nat

text \<open>\<open>node\<close>: the sentinel's \<open>Value\<close> is nil.\<close>

record 'k node =
  node_Prev :: addr
  node_Next :: addr
  node_Value :: "'k option"

type_synonym 'k nheap = "addr \<Rightarrow> 'k node"

text \<open>\<open>newRootNode\<close>, allocated at the given address.\<close>

definition newRootNode :: "addr \<Rightarrow> 'k node" where
  "newRootNode a = \<lparr>node_Prev = a, node_Next = a, node_Value = None\<rparr>"

definition newNode :: "addr \<Rightarrow> addr \<Rightarrow> 'k \<Rightarrow> 'k node" where
  "newNode prev next key = \<lparr>node_Prev = prev, node_Next = next, node_Value = Some key\<rparr>"

text \<open>\<open>n.Next = a\<close> and \<open>n.Prev = a\<close>.\<close>

definition setNext :: "addr \<Rightarrow> addr \<Rightarrow> 'k nheap \<Rightarrow> 'k nheap" where
  "setNext n a h = h(n := (h n)\<lparr>node_Next := a\<rparr>)"

definition setPrev :: "addr \<Rightarrow> addr \<Rightarrow> 'k nheap \<Rightarrow> 'k nheap" where
  "setPrev n a h = h(n := (h n)\<lparr>node_Prev := a\<rparr>)"

text \<open>
  The statements both \<open>node.Add\<close> and \<open>OrderedMap.Set\<close> run to append a node, which is
  allocated at \<open>new\<close>: \<open>last := root.Prev; last.Next = newNode(last, root, key);
  root.Prev = last.Next\<close>.
\<close>

definition node_Add :: "addr \<Rightarrow> addr \<Rightarrow> 'k \<Rightarrow> 'k nheap \<Rightarrow> 'k nheap" where
  "node_Add root new key h =
     (let last = node_Prev (h root);
          h1 = h(new := newNode last root key);
          h2 = setNext last new h1
      in setPrev root (node_Next (h2 last)) h2)"

text \<open>
  One call of the closure \<open>node.IterFunc\<close> returns (\<open>None\<close> for \<open>"", false\<close>): the value
  of the current node and the next state of the closure. The value is nil only at a sentinel.
\<close>

definition node_IterFunc :: "addr \<Rightarrow> 'k nheap \<Rightarrow> addr \<Rightarrow> ('k option \<times> addr) option" where
  "node_IterFunc root h cur =
     (if cur \<noteq> root then Some (node_Value (h cur), node_Next (h cur)) else None)"

section \<open>The map\<close>

record ('k, 'v) KVPair =
  kv_Key :: 'k
  kv_Value :: 'v

definition KVPair_Compare :: "('k, 'v) KVPair \<Rightarrow> ('k, 'v) KVPair \<Rightarrow> bool" where
  "KVPair_Compare k kv2 = (kv_Key k = kv_Key kv2 \<and> kv_Value k = kv_Value kv2)"

text \<open>
  \<open>OrderedMap\<close>: \<open>store\<close>, \<open>mapper\<close> and \<open>root\<close> are its fields; \<open>om_heap\<close> holds its
  nodes and \<open>om_free\<close> is the next address the allocator hands out.
\<close>

record ('k, 'v) OrderedMap =
  om_store :: "('k, 'v) fmap"
  om_mapper :: "('k, addr) fmap"
  om_root :: addr
  om_heap :: "'k nheap"
  om_free :: addr

definition NewOrderedMap :: "('k, 'v) OrderedMap" where
  "NewOrderedMap =
     \<lparr>om_store = fmempty, om_mapper = fmempty, om_root = 0, om_heap = (\<lambda>_. newRootNode 0), om_free = 1\<rparr>"

definition om_Set :: "'k \<Rightarrow> 'v \<Rightarrow> ('k, 'v) OrderedMap \<Rightarrow> ('k, 'v) OrderedMap" where
  "om_Set key value om =
     (let om1 =
        (if fmlookup (om_store om) key = None then
           let root = om_root om;
               last = node_Prev (om_heap om root);
               h = node_Add root (om_free om) key (om_heap om)
           in om\<lparr>om_heap := h, om_free := Suc (om_free om),
                  om_mapper := fmupd key (node_Next (h last)) (om_mapper om)\<rparr>
         else om)
      in om1\<lparr>om_store := fmupd key value (om_store om1)\<rparr>)"

definition om_update :: "('k, 'v) KVPair list \<Rightarrow> ('k, 'v) OrderedMap \<Rightarrow> ('k, 'v) OrderedMap" where
  "om_update args om = fold (\<lambda>pair. om_Set (kv_Key pair) (kv_Value pair)) args om"

definition NewOrderedMapWithArgs :: "('k, 'v) KVPair list \<Rightarrow> ('k, 'v) OrderedMap" where
  "NewOrderedMapWithArgs args = om_update args NewOrderedMap"

definition om_Get :: "('k, 'v) OrderedMap \<Rightarrow> 'k \<Rightarrow> 'v option" where
  "om_Get om key = fmlookup (om_store om) key"

definition om_Delete :: "'k \<Rightarrow> ('k, 'v) OrderedMap \<Rightarrow> ('k, 'v) OrderedMap" where
  "om_Delete key om =
     (let om1 = (if fmlookup (om_store om) key \<noteq> None
                 then om\<lparr>om_store := fmdrop key (om_store om)\<rparr> else om)
      in case fmlookup (om_mapper om1) key of
           None \<Rightarrow> om1
         | Some root \<Rightarrow>
             let prev = node_Prev (om_heap om1 root);
                 next = node_Next (om_heap om1 root)
             in om1\<lparr>om_heap := setPrev next prev (setNext prev next (om_heap om1))\<rparr>)"

text \<open>
  One call of the closure \<open>IterFunc\<close> returns; the pair's value is nil when the key has no
  entry in \<open>store\<close>. The loop over it visits nodes until the closure returns false, and may
  not stop on a list that is not circular: then the result is \<open>None\<close>.
\<close>

definition om_IterFunc ::
  "('k, 'v) OrderedMap \<Rightarrow> addr \<Rightarrow> (('k option, 'v option) KVPair \<times> addr) option" where
  "om_IterFunc om cur =
     (if cur \<noteq> om_root om then
        let tmp = cur; v = Option.bind (node_Value (om_heap om tmp)) (fmlookup (om_store om))
        in Some (\<lparr>kv_Key = node_Value (om_heap om tmp), kv_Value = v\<rparr>, node_Next (om_heap om cur))
      else None)"

partial_function (option) om_iterate ::
  "('k, 'v) OrderedMap \<Rightarrow> addr \<Rightarrow> ('k option, 'v option) KVPair list option" where
  "om_iterate om cur =
     (case om_IterFunc om cur of
        None \<Rightarrow> Some []
      | Some (kv, next) \<Rightarrow> Option.bind (om_iterate om next) (\<lambda>kvs. Some (kv # kvs)))"

definition om_Iter :: "('k, 'v) OrderedMap \<Rightarrow> ('k option, 'v option) KVPair list option" where
  "om_Iter om = om_iterate om (node_Next (om_heap om (om_root om)))"

text \<open>
  \<open>RevIterFunc\<close>: the search for the starting node stops at once, since it starts at the
  root; the closure then follows \<open>Prev\<close>.
\<close>

partial_function (option) om_revStart :: "('k, 'v) OrderedMap \<Rightarrow> addr \<Rightarrow> addr option" where
  "om_revStart om cur =
     (if node_Next (om_heap om cur) = cur \<or> cur = om_root om then Some cur
      else om_revStart om (node_Next (om_heap om cur)))"

definition om_RevIterFunc ::
  "('k, 'v) OrderedMap \<Rightarrow> addr \<Rightarrow> addr \<Rightarrow> (('k option, 'v option) KVPair \<times> addr) option" where
  "om_RevIterFunc om start cur =
     (if cur \<noteq> start then
        let tmp = cur; v = Option.bind (node_Value (om_heap om tmp)) (fmlookup (om_store om))
        in Some (\<lparr>kv_Key = node_Value (om_heap om tmp), kv_Value = v\<rparr>, node_Prev (om_heap om cur))
      else None)"

partial_function (option) om_revIterate ::
  "('k, 'v) OrderedMap \<Rightarrow> addr \<Rightarrow> addr \<Rightarrow> ('k option, 'v option) KVPair list option" where
  "om_revIterate om start cur =
     (case om_RevIterFunc om start cur of
        None \<Rightarrow> Some []
      | Some (kv, next) \<Rightarrow> Option.bind (om_revIterate om start next) (\<lambda>kvs. Some (kv # kvs)))"

definition om_RevIter :: "('k, 'v) OrderedMap \<Rightarrow> ('k option, 'v option) KVPair list option" where
  "om_RevIter om =
     Option.bind (om_revStart om (om_root om))
       (\<lambda>start. om_revIterate om start (node_Prev (om_heap om start)))"

definition om_Len :: "('k, 'v) OrderedMap \<Rightarrow> nat" where
  "om_Len om = fmlen (om_store om)"

text \<open>
  \<open>OrderedMap.String\<close> fills a slice of \<open>len(om.store)\<close> entries, one per pair the iterator
  returns (with the value \<open>Get\<close> gives); a pair too many is an index out of range. The model
  keeps the pairs it formats, \<open>None\<close> for an entry left empty.
\<close>

definition om_String :: "('k, 'v) OrderedMap \<Rightarrow> ('k option \<times> 'v option) option list go option" where
  "om_String om =
     map_option
       (\<lambda>kvs. if om_Len om < length kvs then Inl IndexOutOfRange
              else Inr (map (\<lambda>kv. Some (kv_Key kv, Option.bind (kv_Key kv) (om_Get om))) kvs
                        @ replicate (om_Len om - length kvs) None))
       (om_Iter om)"

section \<open>The circular list\<close>

text \<open>\<open>links h xs\<close>: the nodes at \<open>xs\<close> are chained, forwards and backwards.\<close>

fun links :: "'k nheap \<Rightarrow> addr list \<Rightarrow> bool" where
  "links h (x # y # zs) = (node_Next (h x) = y \<and> node_Prev (h y) = x \<and> links h (y # zs))"
| "links h zs = True"

lemma links_append: "links h (xs @ y # ys) \<longleftrightarrow> links h (xs @ [y]) \<and> links h (y # ys)"
  by (induction h xs rule: links.induct) (cases ys, auto)+

lemma links_cong:
  assumes "\<And>x. x \<in> set (butlast xs) \<Longrightarrow> node_Next (h x) = node_Next (h' x)"
    and "\<And>x. x \<in> set (tl xs) \<Longrightarrow> node_Prev (h x) = node_Prev (h' x)"
  shows "links h xs \<longleftrightarrow> links h' xs"
  using assms by (induction h xs rule: links.induct) auto

lemma setNext_sel [simp]:
  "node_Next (setNext n a h x) = (if x = n then a else node_Next (h x))"
  "node_Prev (setNext n a h x) = node_Prev (h x)"
  "node_Value (setNext n a h x) = node_Value (h x)"
  by (simp_all add: setNext_def)

lemma setPrev_sel [simp]:
  "node_Next (setPrev n a h x) = node_Next (h x)"
  "node_Prev (setPrev n a h x) = (if x = n then a else node_Prev (h x))"
  "node_Value (setPrev n a h x) = node_Value (h x)"
  by (simp_all add: setPrev_def)

lemma newNode_sel [simp]:
  "node_Next (newNode p n k) = n" "node_Prev (newNode p n k) = p"
  "node_Value (newNode p n k) = Some k"
  by (simp_all add: newNode_def)

text \<open>A list of nodes closed into a cycle by the root.\<close>

definition ring :: "'k nheap \<Rightarrow> addr \<Rightarrow> addr list \<Rightarrow> bool" where
  "ring h r as \<longleftrightarrow> links h (r # as @ [r]) \<and> distinct (r # as)"

lemma ring_split:
  assumes "r # as = xs @ [p]"
  shows "ring h r (as @ bs) \<longleftrightarrow> links h (xs @ [p]) \<and> links h (p # bs @ [r]) \<and> distinct (r # as @ bs)"
proof -
  have "r # (as @ bs) @ [r] = xs @ p # bs @ [r]"
    using assms by (metis append.assoc append_Cons append_Nil)
  then show ?thesis
    by (simp only: ring_def links_append [of h xs p "bs @ [r]"] conj_assoc append_Cons)
qed

lemma ring_rootE:
  assumes "ring h r as"
  obtains xs p where "r # as = xs @ [p]" and "node_Prev (h r) = p" and "p \<in> set (r # as)"
proof -
  obtain xs p where xs: "r # as = xs @ [p]" by (cases "r # as" rule: rev_cases) auto
  then have "node_Prev (h r) = p"
    using assms ring_split [OF xs, of h "[]"] by simp
  moreover from xs have "p \<in> set (r # as)" by simp
  ultimately show thesis using that xs by blast
qed

lemma ring_Next_root: "ring h r as \<Longrightarrow> node_Next (h r) = hd (as @ [r])"
  by (cases as) (auto simp: ring_def)

text \<open>\<open>node.Add\<close> appends one node to the ring.\<close>

lemma ring_node_Add:
  assumes ring: "ring h r as" and new: "new \<notin> set (r # as)"
  shows "ring (node_Add r new k h) r (as @ [new])"
    and "a \<in> set as \<Longrightarrow> node_Value (node_Add r new k h a) = node_Value (h a)"
    and "node_Value (node_Add r new k h new) = Some k"
    and "node_Next (node_Add r new k h (node_Prev (h r))) = new"
proof -
  let ?h = "node_Add r new k h"
  from ring obtain xs p where xs: "r # as = xs @ [p]" and l: "node_Prev (h r) = p"
    and "p \<in> set (r # as)" by (rule ring_rootE)
  from new \<open>p \<in> set (r # as)\<close> have np: "new \<noteq> p" "new \<noteq> r" by auto
  have dist: "distinct (r # as)" using ring by (simp add: ring_def)
  have h: "?h = setPrev r new (setNext p new (h(new := newNode p r k)))"
    using l by (simp add: node_Add_def Let_def)
  have "links h (xs @ [p]) \<longleftrightarrow> links ?h (xs @ [p])"
  proof (rule links_cong)
    fix x assume "x \<in> set (butlast (xs @ [p]))"
    then have "x \<in> set xs" by simp
    with dist new show "node_Next (h x) = node_Next (?h x)" by (auto simp: h xs)
  next
    fix x assume "x \<in> set (tl (xs @ [p]))"
    then have "x \<in> set as" using xs by (metis list.sel(3))
    with dist new show "node_Prev (h x) = node_Prev (?h x)" by (auto simp: h)
  qed
  moreover have "links h (xs @ [p])" using ring ring_split [OF xs, of h "[]"] by simp
  moreover have "links ?h (p # [new] @ [r])" using np by (auto simp: h)
  ultimately show "ring ?h r (as @ [new])"
    using dist new by (simp add: ring_split [OF xs])
  show "a \<in> set as \<Longrightarrow> node_Value (?h a) = node_Value (h a)" using new by (auto simp: h)
  show "node_Value (?h new) = Some k" by (simp add: h)
  show "node_Next (?h (node_Prev (h r))) = new" by (simp add: h l)
qed

text \<open>Bypassing a node of the ring, as \<open>Delete\<close> does, removes it from the ring.\<close>

lemma ring_bypass:
  assumes ring: "ring h r (as @ a # bs)"
  shows "ring (setPrev (node_Next (h a)) (node_Prev (h a)) (setNext (node_Prev (h a)) (node_Next (h a)) h)) r (as @ bs)"
    (is "ring ?h r _")
proof -
  obtain xs p where xs: "r # as = xs @ [p]" by (cases "r # as" rule: rev_cases) auto
  let ?n = "hd (bs @ [r])"
  have dist: "distinct (r # as @ a # bs)" using ring by (simp add: ring_def)
  have L: "links h (xs @ [p])" "links h (p # a # bs @ [r])"
    using ring ring_split [OF xs, of h "a # bs"] by auto
  then have p: "node_Prev (h a) = p" and n: "node_Next (h a) = ?n" and bs: "links h (bs @ [r])"
    by (cases bs; simp)+
  have "links h (xs @ [p]) \<longleftrightarrow> links ?h (xs @ [p])"
  proof (rule links_cong)
    fix x assume "x \<in> set (butlast (xs @ [p]))"
    moreover have "distinct (xs @ [p])" using dist by (simp add: xs [symmetric])
    ultimately show "node_Next (h x) = node_Next (?h x)" by (auto simp: p)
  next
    fix x assume "x \<in> set (tl (xs @ [p]))"
    then have "x \<in> set as" using xs by (metis list.sel(3))
    with dist have "x \<noteq> ?n" by (cases bs) auto
    then show "node_Prev (h x) = node_Prev (?h x)" by (simp add: n)
  qed
  moreover have "links h (bs @ [r]) \<longleftrightarrow> links ?h (bs @ [r])"
  proof (rule links_cong)
    fix x assume "x \<in> set (butlast (bs @ [r]))"
    moreover have "p \<in> set (r # as)" by (simp add: xs)
    ultimately show "node_Next (h x) = node_Next (?h x)" using dist by (auto simp: p)
  next
    fix x assume "x \<in> set (tl (bs @ [r]))"
    with dist have "x \<noteq> ?n" by (cases bs) auto
    then show "node_Prev (h x) = node_Prev (?h x)" by (simp add: n)
  qed
  then have "links ?h (p # bs @ [r])" using bs by (cases bs) (auto simp: p n)
  ultimately show ?thesis using L dist by (simp add: ring_split [OF xs])
qed

section \<open>The interface of an insertion-ordered map\<close>

text \<open>
  What a client relies on: \<open>rep m xs\<close> says that \<open>m\<close> stands for the association list
  \<open>xs\<close> in insertion order. \<open>known m k\<close> says that \<open>k\<close> was set at some time; a key that
  is known but has no entry was deleted, and \<open>del\<close> promises nothing for it.
\<close>

locale ordered_map =
  fixes empty :: 'm
    and set_entry :: "'k \<Rightarrow> 'v \<Rightarrow> 'm \<Rightarrow> 'm"
    and get_entry :: "'m \<Rightarrow> 'k \<Rightarrow> 'v option"
    and del_entry :: "'k \<Rightarrow> 'm \<Rightarrow> 'm"
    and iter :: "'m \<Rightarrow> 'p list option"
    and rev_iter :: "'m \<Rightarrow> 'p list option"
    and len :: "'m \<Rightarrow> nat"
    and known :: "'m \<Rightarrow> 'k \<Rightarrow> bool"
    and pair :: "'k \<times> 'v \<Rightarrow> 'p"
    and rep :: "'m \<Rightarrow> ('k \<times> 'v) list \<Rightarrow> bool"
  assumes rep_empty: "rep empty []"
    and known_empty: "\<not> known empty k"
    and rep_set: "rep m xs \<Longrightarrow> rep (set_entry k v m) (al_set k v xs)"
    and known_set: "rep m xs \<Longrightarrow> known (set_entry k v m) k' \<longleftrightarrow> known m k' \<or> k' = k"
    and rep_del: "rep m xs \<Longrightarrow> k \<in> fst ` set xs \<or> \<not> known m k \<Longrightarrow> rep (del_entry k m) (al_del k xs)"
    and known_del: "known (del_entry k m) k' \<longleftrightarrow> known m k'"
    and rep_get: "rep m xs \<Longrightarrow> get_entry m k = map_of xs k"
    and rep_distinct: "rep m xs \<Longrightarrow> distinct (map fst xs)"
    and rep_iter: "rep m xs \<Longrightarrow> iter m = Some (map pair xs)"
    and rep_rev_iter: "rep m xs \<Longrightarrow> rev_iter m = Some (map pair (rev xs))"
    and rep_len: "rep m xs \<Longrightarrow> len m = length xs"
begin

lemma fold_set_rep:
  "rep m xs \<Longrightarrow> rep (fold (\<lambda>(k, v). set_entry k v) kvs m) (fold (\<lambda>(k, v). al_set k v) kvs xs)"
  by (induction kvs arbitrary: m xs) (auto intro: rep_set)

lemma get_set: "rep m xs \<Longrightarrow> get_entry (set_entry k v m) k' = (if k' = k then Some v else get_entry m k')"
  using rep_get [OF rep_set, of m xs k v k'] rep_get [of m xs k'] by (simp add: map_of_al_set)

lemma get_del: "rep m xs \<Longrightarrow> k \<in> fst ` set xs \<or> \<not> known m k \<Longrightarrow>
    get_entry (del_entry k m) k' = (if k' = k then None else get_entry m k')"
  using rep_get [OF rep_del, of m xs k k'] rep_get [of m xs k'] by (auto simp: map_of_al_del)

text \<open>Deleting every entry once, in any order, empties the map.\<close>

lemma del_all_rep:
  assumes "rep m xs" and "mset ks = mset (map fst xs)"
  shows "rep (fold del_entry ks m) []"
  using assms
proof (induction ks arbitrary: m xs)
  case Nil
  then show ?case by simp
next
  case (Cons k ks)
  from Cons.prems(2) have "k \<in> set (map fst xs)"
    by (metis list.set_intros(1) set_mset_mset)
  then have rep: "rep (del_entry k m) (al_del k xs)"
    using rep_del [OF Cons.prems(1)] by simp
  have "distinct (map fst xs)" using Cons.prems(1) by (rule rep_distinct)
  then have "removeAll k (map fst xs) = remove1 k (map fst xs)"
    by (rule distinct_remove1_removeAll [symmetric])
  then have "mset (map fst (al_del k xs)) = mset (map fst xs) - {#k#}"
    by (simp add: map_fst_al_del)
  with Cons.prems(2) have "mset ks = mset (map fst (al_del k xs))"
    by (metis add_mset_remove_trivial mset.simps(2))
  with rep show ?case by (simp add: Cons.IH)
qed

end

section \<open>The heap implements the interface\<close>

definition om_pair :: "'k \<times> 'v \<Rightarrow> ('k option, 'v option) KVPair" where
  "om_pair kv = \<lparr>kv_Key = Some (fst kv), kv_Value = Some (snd kv)\<rparr>"

text \<open>\<open>Key.Value\<close> is the key of a node and \<open>mapper\<close> finds that node again.\<close>

definition node_of :: "('k, 'v) OrderedMap \<Rightarrow> addr \<Rightarrow> 'k \<times> 'v \<Rightarrow> bool" where
  "node_of om a kv \<longleftrightarrow>
     node_Value (om_heap om a) = Some (fst kv) \<and> fmlookup (om_mapper om) (fst kv) = Some a"

definition om_rep :: "('k, 'v) OrderedMap \<Rightarrow> ('k \<times> 'v) list \<Rightarrow> bool" where
  "om_rep om xs \<longleftrightarrow>
     (\<exists>as. ring (om_heap om) (om_root om) as \<and> (\<forall>a \<in> set (om_root om # as). a < om_free om)
         \<and> list_all2 (node_of om) as xs)
     \<and> distinct (map fst xs) \<and> fmlookup (om_store om) = map_of xs"

lemma om_repI:
  assumes "ring (om_heap om) (om_root om) as" and "\<forall>a \<in> set (om_root om # as). a < om_free om"
    and "list_all2 (node_of om) as xs" and "distinct (map fst xs)" and "fmlookup (om_store om) = map_of xs"
  shows "om_rep om xs"
  using assms by (auto simp: om_rep_def)

definition om_known :: "('k, 'v) OrderedMap \<Rightarrow> 'k \<Rightarrow> bool" where
  "om_known om k \<longleftrightarrow> fmlookup (om_mapper om) k \<noteq> None"

lemma om_rep_empty: "om_rep NewOrderedMap []"
  by (auto simp: om_rep_def NewOrderedMap_def newRootNode_def ring_def intro!: exI [of _ "[]"])

lemma om_rep_store: "om_rep om xs \<Longrightarrow> fmlookup (om_store om) k = map_of xs k"
  by (simp add: om_rep_def)

lemma om_rep_overwrite:
  assumes "om_rep om xs" and "k \<in> fst ` set xs"
  shows "om_rep (om_Set k v om) (al_set k v xs)"
proof -
  have k: "fmlookup (om_store om) k \<noteq> None" using assms by (simp add: om_rep_store map_of_eq_None_iff)
  have eq: "om_Set k v om = om\<lparr>om_store := fmupd k v (om_store om)\<rparr>" using k by (auto simp: om_Set_def)
  from assms(1) obtain as where as: "ring (om_heap om) (om_root om) as"
    "\<forall>a \<in> set (om_root om # as). a < om_free om" "list_all2 (node_of om) as xs"
    and d: "distinct (map fst xs)" and st: "fmlookup (om_store om) = map_of xs"
    unfolding om_rep_def by blast
  have "list_all2 (\<lambda>a k. node_Value (om_heap om a) = Some k \<and> fmlookup (om_mapper om) k = Some a) as (map fst xs)"
    using as(3) by (simp add: list_all2_map2 node_of_def [abs_def])
  then have "list_all2 (node_of (om_Set k v om)) as (al_set k v xs)"
    unfolding al_set_keys_in [OF assms(2), of v, symmetric]
    by (simp add: list_all2_map2 node_of_def [abs_def] eq)
  then show ?thesis
    using as d st by (intro om_repI) (auto simp: eq distinct_al_set map_of_al_set fun_eq_iff)
qed

lemma om_rep_append:
  assumes "om_rep om xs" and "k \<notin> fst ` set xs"
  shows "om_rep (om_Set k v om) (al_set k v xs)"
proof -
  have k: "fmlookup (om_store om) k = None" using assms by (simp add: om_rep_store map_of_eq_None_iff)
  from assms(1) obtain as where ring: "ring (om_heap om) (om_root om) as"
    and free: "\<forall>a \<in> set (om_root om # as). a < om_free om" and rel: "list_all2 (node_of om) as xs"
    and d: "distinct (map fst xs)" and st: "fmlookup (om_store om) = map_of xs"
    unfolding om_rep_def by blast
  let ?h = "node_Add (om_root om) (om_free om) k (om_heap om)" and ?om = "om_Set k v om"
  have new: "om_free om \<notin> set (om_root om # as)" using free by auto
  note add = ring_node_Add [OF ring new, where k = k]
  have om: "?om = om\<lparr>om_heap := ?h, om_free := Suc (om_free om),
       om_mapper := fmupd k (om_free om) (om_mapper om), om_store := fmupd k v (om_store om)\<rparr>"
    using k add(4) by (simp add: om_Set_def Let_def)
  have "list_all2 (node_of ?om) as xs"
    using rel
  proof (rule list.rel_mono_strong)
    fix a kv assume "a \<in> set as" "kv \<in> set xs" "node_of om a kv"
    with assms(2) show "node_of ?om a kv" by (auto simp: node_of_def om add(2))
  qed
  then have "list_all2 (node_of ?om) (as @ [om_free om]) (xs @ [(k, v)])"
    by (simp add: list_all2_appendI node_of_def om add(3))
  then have "list_all2 (node_of ?om) (as @ [om_free om]) (al_set k v xs)"
    by (simp only: al_set_notin [OF assms(2)])
  then show ?thesis
    using add(1) free d st
    by (intro om_repI) (auto simp: om distinct_al_set map_of_al_set fun_eq_iff less_Suc_eq)
qed

lemma om_rep_Delete_live:
  assumes "om_rep om xs" and "k \<in> fst ` set xs"
  shows "om_rep (om_Delete k om) (al_del k xs)"
proof -
  from assms(1) obtain as where ring: "ring (om_heap om) (om_root om) as"
    and free: "\<forall>a \<in> set (om_root om # as). a < om_free om" and rel: "list_all2 (node_of om) as xs"
    and d: "distinct (map fst xs)" and st: "fmlookup (om_store om) = map_of xs"
    unfolding om_rep_def by blast
  from assms(2) obtain v ys zs where xs: "xs = ys @ (k, v) # zs" by (auto simp: in_set_conv_decomp)
  with rel obtain bs a cs where as: "as = bs @ a # cs" and bs: "list_all2 (node_of om) bs ys"
    and a: "node_of om a (k, v)" and cs: "list_all2 (node_of om) cs zs"
    by (auto simp: list_all2_append2 list_all2_Cons2)
  let ?h = "om_heap om" and ?om = "om_Delete k om"
  have mapper: "fmlookup (om_mapper om) k = Some a" using a by (simp add: node_of_def)
  have st_k: "fmlookup (om_store om) k \<noteq> None" using assms by (simp add: st map_of_eq_None_iff)
  have om: "?om = om\<lparr>om_store := fmdrop k (om_store om),
      om_heap := setPrev (node_Next (?h a)) (node_Prev (?h a)) (setNext (node_Prev (?h a)) (node_Next (?h a)) ?h)\<rparr>"
    using mapper st_k by (auto simp: om_Delete_def Let_def)
  have del: "al_del k xs = ys @ zs" using d by (simp add: xs al_del_Cons al_del_append al_del_notin)
  have "list_all2 (node_of ?om) (bs @ cs) (ys @ zs)"
    using list_all2_appendI [OF bs cs] by (simp add: node_of_def [abs_def] om)
  then have "list_all2 (node_of ?om) (bs @ cs) (al_del k xs)" by (simp only: del)
  then show ?thesis
    using ring_bypass [OF ring [unfolded as]] free d st
    by (intro om_repI) (auto simp: om distinct_al_del map_of_al_del fun_eq_iff as)
qed

lemma om_rep_Delete_unknown:
  assumes "om_rep om xs" and "\<not> om_known om k"
  shows "om_Delete k om = om" and "k \<notin> fst ` set xs"
proof -
  from assms(1) obtain as where rel: "list_all2 (node_of om) as xs" and st: "fmlookup (om_store om) = map_of xs"
    unfolding om_rep_def by blast
  show k: "k \<notin> fst ` set xs"
  proof
    assume "k \<in> fst ` set xs"
    with rel have "fmlookup (om_mapper om) k \<noteq> None"
      by (auto simp: in_set_conv_decomp list_all2_append2 list_all2_Cons2 node_of_def)
    with assms(2) show False by (simp add: om_known_def)
  qed
  then have "fmlookup (om_store om) k = None" by (simp add: st map_of_eq_None_iff)
  with assms(2) show "om_Delete k om = om" by (auto simp: om_Delete_def om_known_def Let_def)
qed

lemma om_iterate_ring:
  assumes "links (om_heap om) (as @ [om_root om])" and "om_root om \<notin> set as"
    and "list_all2 (node_of om) as xs" and "\<And>k v. (k, v) \<in> set xs \<Longrightarrow> fmlookup (om_store om) k = Some v"
  shows "om_iterate om (hd (as @ [om_root om])) = Some (map om_pair xs)"
  using assms
proof (induction as arbitrary: xs)
  case Nil
  then show ?case by (simp add: om_iterate.simps om_IterFunc_def)
next
  case (Cons a as)
  from Cons.prems(3) obtain k v ys where xs: "xs = (k, v) # ys"
    and a: "node_of om a (k, v)" and ys: "list_all2 (node_of om) as ys" by (auto simp: list_all2_Cons1)
  have next': "node_Next (om_heap om a) = hd (as @ [om_root om])"
    and links: "links (om_heap om) (as @ [om_root om])"
    using Cons.prems(1) by (cases as; simp)+
  have "om_iterate om (hd (as @ [om_root om])) = Some (map om_pair ys)"
    using Cons.IH [OF links _ ys] Cons.prems(2,4) by (simp add: xs)
  with a next' Cons.prems(2,4) show ?case
    by (subst om_iterate.simps) (simp add: om_IterFunc_def xs node_of_def om_pair_def)
qed

lemma om_revIterate_ring:
  assumes "links (om_heap om) (om_root om # as)" and "om_root om \<notin> set as"
    and "list_all2 (node_of om) as xs" and "\<And>k v. (k, v) \<in> set xs \<Longrightarrow> fmlookup (om_store om) k = Some v"
  shows "om_revIterate om (om_root om) (last (om_root om # as)) = Some (map om_pair (rev xs))"
  using assms
proof (induction as arbitrary: xs rule: rev_induct)
  case Nil
  then show ?case by (simp add: om_revIterate.simps om_RevIterFunc_def)
next
  case (snoc a as)
  from snoc.prems(3) obtain k v ys where xs: "xs = ys @ [(k, v)]"
    and a: "node_of om a (k, v)" and ys: "list_all2 (node_of om) as ys"
    by (auto simp: list_all2_append1 list_all2_Cons1)
  obtain zs p where zs: "om_root om # as = zs @ [p]" by (cases "om_root om # as" rule: rev_cases) auto
  have "links (om_heap om) (zs @ p # [a])" using snoc.prems(1) zs by (metis append.assoc append_Cons append_Nil)
  then have prev: "node_Prev (om_heap om a) = p" and links: "links (om_heap om) (om_root om # as)"
    unfolding links_append [of _ zs] zs [symmetric] by auto
  have "last (om_root om # as) = p" by (simp only: zs last_snoc)
  with snoc.IH [OF links _ ys] snoc.prems(2,4)
  have "om_revIterate om (om_root om) p = Some (map om_pair (rev ys))" by (simp add: xs)
  with a prev snoc.prems(2,4) show ?case
    by (subst om_revIterate.simps) (simp add: om_RevIterFunc_def xs node_of_def om_pair_def)
qed

lemma om_rep_Iter:
  assumes "om_rep om xs"
  shows "om_Iter om = Some (map om_pair xs)" and "om_RevIter om = Some (map om_pair (rev xs))"
proof -
  from assms obtain as where ring: "ring (om_heap om) (om_root om) as" and rel: "list_all2 (node_of om) as xs"
    and d: "distinct (map fst xs)" and st: "fmlookup (om_store om) = map_of xs"
    unfolding om_rep_def by blast
  have vals: "(k, v) \<in> set xs \<Longrightarrow> fmlookup (om_store om) k = Some v" for k v using d by (simp add: st)
  have nin: "om_root om \<notin> set as" using ring by (simp add: ring_def)
  have "links (om_heap om) (as @ [om_root om])"
    using ring by (cases as) (auto simp: ring_def)
  from om_iterate_ring [OF this nin rel vals] show "om_Iter om = Some (map om_pair xs)"
    by (simp add: om_Iter_def ring_Next_root [OF ring])
  obtain zs p where zs: "om_root om # as = zs @ [p]" and p: "node_Prev (om_heap om (om_root om)) = p"
    using ring_rootE [OF ring] by blast
  have "links (om_heap om) (om_root om # as)"
    using ring ring_split [OF zs, of "om_heap om" "[]"] by (simp add: zs)
  from om_revIterate_ring [OF this nin rel vals]
  have "om_revIterate om (om_root om) p = Some (map om_pair (rev xs))" by (simp only: zs last_snoc)
  then show "om_RevIter om = Some (map om_pair (rev xs))"
    by (simp add: om_RevIter_def om_revStart.simps p)
qed

lemma om_rep_Len: "om_rep om xs \<Longrightarrow> om_Len om = length xs"
  unfolding om_rep_def om_Len_def
  by (auto simp: fmlen_card dom_map_of_conv_image_fst card_image distinct_map distinct_card simp flip: dom_fmlookup)

interpretation om: ordered_map NewOrderedMap om_Set om_Get om_Delete om_Iter om_RevIter om_Len om_known om_pair om_rep
proof unfold_locales
  fix m :: "('k, 'v) OrderedMap" and xs k k' v
  show "om_rep (NewOrderedMap :: ('k, 'v) OrderedMap) []" by (rule om_rep_empty)
  show "\<not> om_known (NewOrderedMap :: ('k, 'v) OrderedMap) k" by (simp add: om_known_def NewOrderedMap_def)
  show "om_known (om_Delete k m) k' = om_known m k'"
    by (auto simp: om_known_def om_Delete_def Let_def split: option.splits)
  show "om_rep m xs \<Longrightarrow> om_rep (om_Set k v m) (al_set k v xs)"
    by (cases "k \<in> fst ` set xs") (auto intro: om_rep_overwrite om_rep_append)
  show "om_rep m xs \<Longrightarrow> om_known (om_Set k v m) k' \<longleftrightarrow> om_known m k' \<or> k' = k"
    using om_rep_Delete_unknown(2) [of m xs k]
    by (auto simp: om_known_def om_Set_def Let_def om_rep_store map_of_eq_None_iff split: if_splits)
  show "om_rep m xs \<Longrightarrow> k \<in> fst ` set xs \<or> \<not> om_known m k \<Longrightarrow> om_rep (om_Delete k m) (al_del k xs)"
    using om_rep_Delete_live om_rep_Delete_unknown by (metis al_del_notin)
  show "om_rep m xs \<Longrightarrow> om_Get m k = map_of xs k" by (simp add: om_Get_def om_rep_store)
  show "om_rep m xs \<Longrightarrow> distinct (map fst xs)" by (simp add: om_rep_def)
  show "om_rep m xs \<Longrightarrow> om_Iter m = Some (map om_pair xs)" by (rule om_rep_Iter)
  show "om_rep m xs \<Longrightarrow> om_RevIter m = Some (map om_pair (rev xs))" by (rule om_rep_Iter)
  show "om_rep m xs \<Longrightarrow> om_Len m = length xs" by (rule om_rep_Len)
qed

section \<open>Sequences of operations\<close>

datatype ('k, 'v) om_op = OpSet 'k 'v | OpDelete 'k

primrec om_apply :: "('k, 'v) om_op \<Rightarrow> ('k, 'v) OrderedMap \<Rightarrow> ('k, 'v) OrderedMap" where
  "om_apply (OpSet k v) om = om_Set k v om"
| "om_apply (OpDelete k) om = om_Delete k om"

primrec al_apply :: "('k, 'v) om_op \<Rightarrow> ('k \<times> 'v) list \<Rightarrow> ('k \<times> 'v) list" where
  "al_apply (OpSet k v) xs = al_set k v xs"
| "al_apply (OpDelete k) xs = al_del k xs"

text \<open>
  \<open>om_ok ks xs ops\<close>: from a map that stands for \<open>xs\<close> and was given the keys \<open>ks\<close> so
  far, no operation of \<open>ops\<close> deletes a key a second time without setting it in between.
\<close>

fun om_ok :: "'k list \<Rightarrow> ('k \<times> 'v) list \<Rightarrow> ('k, 'v) om_op list \<Rightarrow> bool" where
  "om_ok ks xs [] = True"
| "om_ok ks xs (OpSet k v # ops) = om_ok (k # ks) (al_set k v xs) ops"
| "om_ok ks xs (OpDelete k # ops) =
     ((k \<in> set (map fst xs) \<or> k \<notin> set ks) \<and> om_ok ks (al_del k xs) ops)"

lemma om_rep_run:
  assumes "om_rep om xs" and "\<And>k. om_known om k \<longleftrightarrow> k \<in> set ks" and "om_ok ks xs ops"
  shows "om_rep (fold om_apply ops om) (fold al_apply ops xs)"
  using assms
proof (induction ks xs ops arbitrary: om rule: om_ok.induct)
  case (1 ks xs)
  then show ?case by simp
next
  case (2 ks xs k v ops)
  then have "om_rep (om_Set k v om) (al_set k v xs)" by (simp add: om.rep_set)
  moreover have "om_known (om_Set k v om) k' \<longleftrightarrow> k' \<in> set (k # ks)" for k'
    using 2 by (auto simp: om.known_set)
  ultimately show ?case using "2.IH" "2.prems"(3) by simp
next
  case (3 ks xs k ops)
  then have "om_rep (om_Delete k om) (al_del k xs)" by (simp add: om.rep_del)
  moreover have "om_known (om_Delete k om) k' \<longleftrightarrow> k' \<in> set ks" for k'
    using "3.prems"(2) by (simp add: om.known_del)
  ultimately show ?case using "3.IH" "3.prems"(3) by simp
qed

text \<open>
  C1. Starting from \<open>NewOrderedMap\<close>, any sequence of \<open>Set\<close> and \<open>Delete\<close> that deletes no
  key a second time implements the insertion-ordered association list: iteration terminates and
  returns the entries in insertion order, reverse iteration returns them reversed, \<open>Get\<close> is
  lookup and \<open>Len\<close> counts them.
\<close>

theorem OrderedMap_refines:
  fixes ops :: "('k, 'v) om_op list"
  assumes "om_ok [] [] ops"
  defines "om \<equiv> fold om_apply ops NewOrderedMap" and "xs \<equiv> fold al_apply ops []"
  shows "om_Iter om = Some (map om_pair xs) \<and> om_RevIter om = Some (map om_pair (rev xs))
    \<and> om_Get om = map_of xs \<and> om_Len om = length xs \<and> distinct (map fst xs)"
proof -
  have "om_rep om xs"
    unfolding om_def xs_def by (rule om_rep_run [OF om.rep_empty _ assms(1)]) (simp add: om.known_empty)
  then show ?thesis
    by (simp add: om.rep_iter om.rep_rev_iter om.rep_len om.rep_distinct om.rep_get fun_eq_iff)
qed

theorem OrderedMap_refines_witness:
  "om_Iter (fold om_apply [OpSet (1::nat) ''a'', OpSet 2 ''b'', OpDelete 1, OpSet 1 ''c''] NewOrderedMap)
     = Some (map om_pair [(2, ''b''), (1, ''c'')])"
  using OrderedMap_refines [of "[OpSet (1::nat) ''a'', OpSet 2 ''b'', OpDelete 1, OpSet 1 ''c'']"]
  by (simp add: al_del_def)

text \<open>
  \<open>Delete\<close> never removes the key from \<open>mapper\<close>. Deleting a key twice therefore writes
  the links of its stale node into the list: after setting \<open>a\<close> and \<open>b\<close> and deleting
  \<open>a\<close>, \<open>b\<close> and \<open>a\<close> again, the map is empty by \<open>Len\<close> and \<open>Get\<close>, but iteration returns
  the deleted \<open>b\<close> with a nil value and \<open>String\<close> panics with an index out of range.
\<close>

lemma OrderedMap_double_delete:
  fixes a b :: 'k and v w :: 'v
  assumes "a \<noteq> b"
  defines "om \<equiv> om_Delete a (om_Delete b (om_Delete a (om_Set b w (om_Set a v NewOrderedMap))))"
  shows "om_Len om = 0 \<and> om_Get om b = None
    \<and> om_Iter om = Some [\<lparr>kv_Key = Some b, kv_Value = None\<rparr>]
    \<and> om_String om = Some (Inl IndexOutOfRange)"
proof -
  have len: "om_Len om = 0" and get: "om_Get om b = None"
    using assms by (simp_all add: om_def om_Delete_def om_Set_def NewOrderedMap_def Let_def om_Len_def
        om_Get_def node_Add_def newRootNode_def newNode_def setNext_def setPrev_def fmlen_card)
  have iter: "om_Iter om = Some [\<lparr>kv_Key = Some b, kv_Value = None\<rparr>]"
    using assms by (simp add: om_def om_Delete_def om_Set_def NewOrderedMap_def Let_def om_Iter_def
        om_iterate.simps om_IterFunc_def node_Add_def newRootNode_def newNode_def setNext_def setPrev_def)
  show ?thesis by (simp add: len get iter om_String_def)
qed

end
