(* ===== verification/Derror.thy ===== *)
theory Derror
  imports Prelude
begin

text \<open>
  The error values of \<open>derror/error.go\<close>.  A \<open>CodeError\<close> is a heap object: \<open>SetMsg\<close> changes it in
  place and returns the same pointer, and the package-level errors of \<open>net/dogrpc/common.go\<close>
  (\<open>TimeOutError\<close>, \<open>OverflowError\<close>, \<open>InternalServerError\<close>, \<open>InvalidParam\<close>) are single objects every
  caller shares.  The heap of error objects is a function from pointers to objects.
\<close>

section \<open>Codes\<close>

definition RpcSuccess :: int where "RpcSuccess = 0"
definition Success :: int where "Success = 200"
definition BadRequest :: int where "BadRequest = 400"
definition Unauthorized :: int where "Unauthorized = 401"
definition Forbidden :: int where "Forbidden = 403"
definition NotFound :: int where "NotFound = 404"
definition SystemError :: int where "SystemError = 500"
definition ParameterError :: int where "ParameterError = 600"
definition DBError :: int where "DBError = 701"
definition CacheError :: int where "CacheError = 702"
definition RpcTimeout :: int where "RpcTimeout = 10001"
definition RpcOverflow :: int where "RpcOverflow = 10002"
definition RpcInternalServerError :: int where "RpcInternalServerError = 10003"
definition RpcInvalidParam :: int where "RpcInvalidParam = 10004"

lemmas derror_codes = RpcSuccess_def Success_def BadRequest_def Unauthorized_def Forbidden_def
  NotFound_def SystemError_def ParameterError_def DBError_def CacheError_def RpcTimeout_def
  RpcOverflow_def RpcInternalServerError_def RpcInvalidParam_def

definition UnknownError :: string where "UnknownError = ''unknown error''"

definition ErrMap :: "(int \<times> string) list" where
  "ErrMap =
     [(RpcSuccess, ''ok''), (Success, ''ok''), (BadRequest, ''bad request''),
      (Unauthorized, ''Unauthorized''), (Forbidden, ''Forbidden''), (NotFound, ''not found''),
      (SystemError, ''system error''), (ParameterError, ''Parameter error''), (DBError, ''db error''),
      (CacheError, ''cache error''), (RpcTimeout, ''timeout error''), (RpcOverflow, ''overflow error''),
      (RpcInternalServerError, ''interval server error''), (RpcInvalidParam, ''invalid param'')]"

definition GetErrorType :: "int \<Rightarrow> string" where
  "GetErrorType code = (case map_of ErrMap code of Some t \<Rightarrow> t | None \<Rightarrow> UnknownError)"

section \<open>Error objects\<close>

record CodeError =
  errCode :: int
  errType :: string
  errMsg :: string

definition CodeError_Detail :: "CodeError \<Rightarrow> string" where
  "CodeError_Detail e =
     (if errCode e = Success \<or> errCode e = RpcSuccess then errMsg e
      else ''Type: '' @ errType e @ '', Error: '' @ errMsg e)"

definition CodeError_String :: "CodeError \<Rightarrow> string" where
  "CodeError_String e =
     (if errCode e = Success \<or> errCode e = RpcSuccess
      then ''Code: '' @ Itoa (errCode e) @ '', Type: '' @ errType e @ '', Info: '' @ errMsg e
      else ''Code: '' @ Itoa (errCode e) @ '', Type: '' @ errType e @ '', Error: '' @ errMsg e)"

definition CodeError_ToString :: "CodeError \<Rightarrow> string" where
  "CodeError_ToString e = ''MaeError['' @ CodeError_Detail e @ '']''"

definition SetCodeType :: "int \<Rightarrow> string \<Rightarrow> CodeError" where
  "SetCodeType code t = \<lparr>errCode = code, errType = t, errMsg = []\<rparr>"

text \<open>\<open>http.StatusText\<close> is the argument \<open>statusText\<close>.\<close>

definition MakeHttpErrorByStatusCode :: "(int \<Rightarrow> string) \<Rightarrow> int \<Rightarrow> CodeError" where
  "MakeHttpErrorByStatusCode statusText code =
     \<lparr>errCode = code, errType = statusText code, errMsg = statusText code\<rparr>"

text \<open>\<open>fmt.Sprintf\<close> on the variadic arguments is the argument \<open>sprintf\<close>.\<close>

definition NewCodeError :: "(string \<Rightarrow> 'a list \<Rightarrow> string) \<Rightarrow> int \<Rightarrow> string \<Rightarrow> 'a list \<Rightarrow> CodeError" where
  "NewCodeError sprintf code format args =
     \<lparr>errCode = code, errType = GetErrorType code,
      errMsg = (if format \<noteq> [] \<and> args \<noteq> [] then sprintf format args else format)\<rparr>"

definition MakeCodeError :: "int \<Rightarrow> string \<Rightarrow> CodeError" where
  "MakeCodeError code e = \<lparr>errCode = code, errType = GetErrorType code, errMsg = e\<rparr>"

section \<open>Shared error objects\<close>

datatype errptr = TimeOutError | OverflowError | InternalServerError | InvalidParam

type_synonym errheap = "errptr \<Rightarrow> CodeError"

primrec init_errors :: errheap where
  "init_errors TimeOutError = SetCodeType 10001 ''timeout error.''"
| "init_errors OverflowError = SetCodeType 10002 ''overflow error.''"
| "init_errors InternalServerError = SetCodeType 10003 ''interval server error.''"
| "init_errors InvalidParam = SetCodeType 10004 ''invalid param''"

definition CodeError_SetMsg :: "errptr \<Rightarrow> string \<Rightarrow> errheap \<Rightarrow> errptr \<times> errheap" where
  "CodeError_SetMsg p msg h = (p, h(p := (h p)\<lparr>errMsg := msg\<rparr>))"

text \<open>\<open>SetMsg\<close> leaves codes and types alone, so \<open>err.Code()\<close> always identifies the shared object.\<close>

lemma SetMsg_code [simp]:
  "errCode (snd (CodeError_SetMsg p msg h) q) = errCode (h q)"
  "errType (snd (CodeError_SetMsg p msg h) q) = errType (h q)"
  by (simp_all add: CodeError_SetMsg_def)

definition codes_ok :: "errheap \<Rightarrow> bool" where
  "codes_ok h = (errCode (h TimeOutError) = 10001 \<and> errCode (h OverflowError) = 10002 \<and>
                 errCode (h InternalServerError) = 10003 \<and> errCode (h InvalidParam) = 10004)"

lemma codes_ok_init [simp]: "codes_ok init_errors"
  by (simp add: codes_ok_def SetCodeType_def)

lemma codes_ok_SetMsg [simp]: "codes_ok (snd (CodeError_SetMsg p msg h)) = codes_ok h"
  by (simp add: codes_ok_def)

lemma codes_ok_inj: "codes_ok h \<Longrightarrow> errCode (h p) = errCode (h q) \<longleftrightarrow> p = q"
  by (cases p; cases q) (auto simp: codes_ok_def)

end
