(* ===== verification/RpcServer.thy ===== *)
theory RpcServer
  imports Encoding Derror
begin

text \<open>
  The server side of \<open>net/dogrpc\<close>: the filter chain (\<open>filter.go\<close>, \<open>gl_filter.go\<close>,
  \<open>log_filter.go\<close>), the dispatch of both protocols (\<open>rpc_server.go\<close>, \<open>dog_server.go\<close>), the
  reflective handler wrapper (\<open>wrap.go\<close>), the life cycle of \<open>Server\<close> and the reader, worker and
  writer goroutines of a connection (\<open>server.go\<close>) as a step relation.

  A handler is a function from the request body to a panic or a code and a body.  Filters are
  objects linked by their \<open>next\<close> field; the heap of filters maps an object to its kind and link.
\<close>

section \<open>Handlers and filters\<close>

type_synonym body = "byte list option"
type_synonym reply = "uint32 \<times> body"
type_synonym RpcHandlerFunc = "body \<Rightarrow> reply go"

record Context =
  ctx_ClientAddr :: string
  ctx_Seq :: uint32
  ctx_Method :: string
  ctx_Handler :: RpcHandlerFunc
  ctx_Req :: body

text \<open>What the filters of the package do besides calling the next one.\<close>

datatype fevent =
    GlInit | GlSet string | GlClose
  | LogWarn string | LogInfo string

type_synonym fresult = "reply go \<times> fevent list"

definition handlerWithRecover :: "RpcHandlerFunc \<Rightarrow> body \<Rightarrow> reply" where
  "handlerWithRecover f req =
     (case f req of Inl x \<Rightarrow> (10003, None) | Inr (code, resp) \<Rightarrow> (code, resp))"

text \<open>
  The filters of the package and filters of the application.  An application filter gets the call
  of the next filter, if any.
\<close>

datatype FilterKind =
    GlFilter
  | LogFilter int
  | AppFilter "(Context \<Rightarrow> fresult) option \<Rightarrow> Context \<Rightarrow> fresult"

record FilterObj =
  fo_kind :: FilterKind
  fo_next :: "nat option"

record Filters =
  fl_heap :: "nat \<Rightarrow> FilterObj"
  fl_Filters :: "nat list"

definition Filter_SetNext :: "nat \<Rightarrow> nat \<Rightarrow> Filters \<Rightarrow> Filters" where
  "Filter_SetNext f g s = s\<lparr>fl_heap := (fl_heap s)(f := (fl_heap s f)\<lparr>fo_next := Some g\<rparr>)\<rparr>"

fun use_loop :: "nat option \<Rightarrow> nat list \<Rightarrow> Filters \<Rightarrow> Filters" where
  "use_loop front [] s = s"
| "use_loop front (f # fs) s =
     (let s1 = s\<lparr>fl_Filters := fl_Filters s @ [f]\<rparr>;
          s2 = (case front of None \<Rightarrow> s1 | Some p \<Rightarrow> Filter_SetNext p f s1)
      in use_loop (Some f) fs s2)"

definition Use :: "nat list \<Rightarrow> Filters \<Rightarrow> Filters" where
  "Use filters s = use_loop None filters s"

text \<open>\<open>GlFilter.Handle\<close>: the goroutine-local store lives exactly as long as the call.\<close>

definition GlFilter_Handle :: "(Context \<Rightarrow> fresult) option \<Rightarrow> Context \<Rightarrow> fresult" where
  "GlFilter_Handle next ctx =
     (case (case next of
              None \<Rightarrow> (Inr (handlerWithRecover (ctx_Handler ctx) (ctx_Req ctx)), [])
            | Some h \<Rightarrow> h ctx) of
        (r, ev) \<Rightarrow> (r, [GlInit, GlSet ''glLogId'', GlSet ''glClientIp''] @ ev @ [GlClose]))"

text \<open>\<open>LogFilter.Handle\<close>, for a call that takes \<open>cost\<close> nanoseconds.\<close>

definition LogFilter_Handle ::
    "int \<Rightarrow> int \<Rightarrow> (Context \<Rightarrow> fresult) option \<Rightarrow> Context \<Rightarrow> fresult" where
  "LogFilter_Handle slowCostThreshold cost next ctx =
     (case (case next of
              None \<Rightarrow> (Inr (handlerWithRecover (ctx_Handler ctx) (ctx_Req ctx)), [])
            | Some h \<Rightarrow> h ctx) of
        (Inl p, ev) \<Rightarrow> (Inl p, ev)
      | (Inr (code, rsp), ev) \<Rightarrow>
          (Inr (code, rsp),
           ev @ (if code \<noteq> of_int RpcSuccess then [LogWarn ''SESSION''] else [LogInfo ''SESSION'']) @
                (if 0 < slowCostThreshold \<and> slowCostThreshold * 1000000 < cost then [LogWarn ''SERVER_SLOW''] else [])))"

definition Filter_run :: "int \<Rightarrow> FilterKind \<Rightarrow> (Context \<Rightarrow> fresult) option \<Rightarrow> Context \<Rightarrow> fresult" where
  "Filter_run cost k next ctx =
     (case k of
        GlFilter \<Rightarrow> GlFilter_Handle next ctx
      | LogFilter slow \<Rightarrow> LogFilter_Handle slow cost next ctx
      | AppFilter u \<Rightarrow> u next ctx)"

text \<open>
  \<open>Filter.Handle\<close> follows the \<open>next\<close> links; the first argument bounds the depth of the call
  stack, \<open>cost f\<close> is what the clock measures around filter \<open>f\<close>.
\<close>

fun Filter_Handle :: "nat \<Rightarrow> (nat \<Rightarrow> int) \<Rightarrow> (nat \<Rightarrow> FilterObj) \<Rightarrow> nat \<Rightarrow> Context \<Rightarrow> fresult" where
  "Filter_Handle 0 cost h f ctx = (Inl StackOverflow, [])"
| "Filter_Handle (Suc n) cost h f ctx =
     Filter_run (cost f) (fo_kind (h f))
       (case fo_next (h f) of None \<Rightarrow> None | Some g \<Rightarrow> Some (\<lambda>c. Filter_Handle n cost h g c)) ctx"

definition Filters_Handle :: "nat \<Rightarrow> (nat \<Rightarrow> int) \<Rightarrow> Filters \<Rightarrow> Context \<Rightarrow> fresult" where
  "Filters_Handle depth cost s ctx =
     (case fl_Filters s of
        [] \<Rightarrow> (Inr (handlerWithRecover (ctx_Handler ctx) (ctx_Req ctx)), [])
      | f # _ \<Rightarrow> Filter_Handle depth cost (fl_heap s) f ctx)"

section \<open>Dispatch\<close>

text \<open>A handler registered by \<open>AddDogHandler\<close>: what reflection sees of it, and its behaviour.\<close>

datatype refl_kind = KUint32 | KString | KInterface bool | KPtr | KOther

record 'v gofunc =
  gf_isFunc :: bool
  gf_in :: "refl_kind list"
  gf_out :: "refl_kind list"
  gf_unmarshal :: "byte list \<Rightarrow> 'v option"
  gf_call :: "'v option \<Rightarrow> (uint32 \<times> string \<times> string option \<times> 'v) go"

text \<open>
  \<open>Return\<close>: the JSON text of the map with keys \<open>code\<close>, \<open>message\<close> and \<open>result\<close>; \<open>js_string\<close> and
  \<open>js_val\<close> stand for \<open>encoding/json\<close> on a string and on the handler's result (\<open>None\<close>: the value
  cannot be marshalled).
\<close>

definition Return ::
    "(string \<Rightarrow> string) \<Rightarrow> ('v option \<Rightarrow> string option) \<Rightarrow> uint32 \<Rightarrow> string \<Rightarrow> string option \<Rightarrow> 'v option \<Rightarrow> body" where
  "Return js_string js_val code message err result =
     (let msg = (case err of None \<Rightarrow> message | Some e \<Rightarrow> e);
          q = [CHR 0x22]
      in case js_val result of
           None \<Rightarrow> None
         | Some r \<Rightarrow>
             Some (map of_char (''{'' @ q @ ''code'' @ q @ '':'' @ itoa_nat (unat code) @ '','' @
                   q @ ''message'' @ q @ '':'' @ js_string msg @ '','' @ q @ ''result'' @ q @ '':'' @ r @ ''}'')))"

text \<open>
  The function \<open>wrap\<close> returns.  Unmarshalling into a parameter that is not a pointer always fails
  (\<open>json: Unmarshal(non-pointer)\<close>); a failure returns the named results as they are, 0 and nil.
  \<open>reflect.Value.Call\<close> panics on the zero values that stand for further parameters.
\<close>

definition wrapped ::
    "(string \<Rightarrow> string) \<Rightarrow> ('v option \<Rightarrow> string option) \<Rightarrow> 'v gofunc \<Rightarrow> RpcHandlerFunc" where
  "wrapped js_string js_val f req =
     (let ptr = (gf_in f ! 0 = KPtr);
          call = (\<lambda>v. if length (gf_in f) \<noteq> 1 then Inl (PanicValue ''reflect: Call using zero Value argument'')
                  else go_bind (gf_call f v) (\<lambda>(code, message, err, result).
                    if length (gf_out f) \<noteq> 4
                    then Inr (10003, Return js_string js_val 10003 ''ret not 4!'' None None)
                    else Inr (code, Return js_string js_val code message err (Some result))))
      in if bslice req \<noteq> []
         then (case (if ptr then gf_unmarshal f (bslice req) else None) of
                 None \<Rightarrow> Inr (0, None)
               | Some v \<Rightarrow> call (Some v))
         else call None)"

definition wrap ::
    "(string \<Rightarrow> string) \<Rightarrow> ('v option \<Rightarrow> string option) \<Rightarrow> 'v gofunc \<Rightarrow> string + RpcHandlerFunc" where
  "wrap js_string js_val f =
     (if \<not> gf_isFunc f then Inl ''toWrap must be func''
      else if length (gf_in f) < 1 then Inl ''params in count must > 1''
      else if length (gf_out f) < 4 then Inl ''params out count must > 4''
      else if gf_out f ! 0 \<noteq> KUint32 then Inl ''params out 1 must be uint32''
      else if gf_out f ! 1 \<noteq> KString then Inl ''params out 2 must be string''
      else if (case gf_out f ! 2 of KInterface b \<Rightarrow> False | _ \<Rightarrow> True) then Inl ''params out 3 must be interface''
      else if gf_out f ! 2 \<noteq> KInterface True then Inl ''params out 4 must be derror''
      else Inr (wrapped js_string js_val f))"

record 'v RpcServer =
  rs_defaultHandler :: "(uint32 \<rightharpoonup> RpcHandlerFunc) option"
  rs_wrapHandler :: "(uint32 \<rightharpoonup> 'v gofunc) option"

definition nil_map :: "('k \<rightharpoonup> 'v) option \<Rightarrow> 'k \<rightharpoonup> 'v" where
  "nil_map m = (case m of None \<Rightarrow> Map.empty | Some f \<Rightarrow> f)"

definition NewRpcServer :: "'v RpcServer" where
  "NewRpcServer = \<lparr>rs_defaultHandler = Some Map.empty, rs_wrapHandler = None\<rparr>"

definition AddHandler :: "uint32 \<Rightarrow> RpcHandlerFunc \<Rightarrow> 'v RpcServer \<Rightarrow> 'v RpcServer" where
  "AddHandler headCmd f s =
     (let m = nil_map (rs_defaultHandler s)
      in if m headCmd \<noteq> None then s\<lparr>rs_defaultHandler := Some m\<rparr>
         else s\<lparr>rs_defaultHandler := Some (m(headCmd \<mapsto> f))\<rparr>)"

definition AddDogHandler :: "uint32 \<Rightarrow> 'v gofunc \<Rightarrow> 'v RpcServer \<Rightarrow> 'v RpcServer" where
  "AddDogHandler headCmd f s =
     (let m = nil_map (rs_wrapHandler s)
      in if m headCmd \<noteq> None then s\<lparr>rs_wrapHandler := Some m\<rparr>
         else s\<lparr>rs_wrapHandler := Some (m(headCmd \<mapsto> f))\<rparr>)"

text \<open>\<open>DogRpcRegister\<close> ranges over the map in some order \<open>ks\<close> of its keys.\<close>

fun DogRpcRegister ::
    "(string \<Rightarrow> string) \<Rightarrow> ('v option \<Rightarrow> string option) \<Rightarrow> uint32 list \<Rightarrow> 'v RpcServer \<Rightarrow>
     string option \<times> 'v RpcServer" where
  "DogRpcRegister js jv [] s = (None, s)"
| "DogRpcRegister js jv (k # ks) s =
     (case nil_map (rs_wrapHandler s) k of
        None \<Rightarrow> DogRpcRegister js jv ks s
      | Some v \<Rightarrow>
          (case wrap js jv v of
             Inl e \<Rightarrow> (Some e, s)
           | Inr w \<Rightarrow> DogRpcRegister js jv ks (AddHandler k w s)))"

text \<open>
  Both dispatchers take the depth bound, the costs and the filters of \<open>globalFilter\<close>; the events
  of the filters are the second component.
\<close>

definition dispatchPacket ::
    "nat \<Rightarrow> (nat \<Rightarrow> int) \<Rightarrow> Filters \<Rightarrow> 'v RpcServer \<Rightarrow> string \<Rightarrow> Packet \<Rightarrow> Packet go \<times> fevent list" where
  "dispatchPacket depth cost fs s clientAddr req =
     (case req of
        PDog _ \<Rightarrow> (Inl TypeAssertion, [])
      | PRpc packet \<Rightarrow>
          (case nil_map (rs_defaultHandler s) (rp_Cmd packet) of
             None \<Rightarrow> (Inr (PRpc (NewRpcPacketWithRet (rp_Cmd packet) (Some []) (rp_Seq packet) 10004)), [])
           | Some f \<Rightarrow>
               (case Filters_Handle depth cost fs
                       \<lparr>ctx_ClientAddr = clientAddr, ctx_Seq = rp_Seq packet,
                        ctx_Method = itoa_nat (unat (rp_Cmd packet)), ctx_Handler = f, ctx_Req = rp_Body packet\<rparr> of
                  (Inl p, ev) \<Rightarrow> (Inl p, ev)
                | (Inr (code, body), ev) \<Rightarrow>
                    (Inr (PRpc (NewRpcPacketWithRet (rp_Cmd packet) body (rp_Seq packet) code)), ev))))"

definition dogDispatchPacket ::
    "nat \<Rightarrow> (nat \<Rightarrow> int) \<Rightarrow> Filters \<Rightarrow> 'v RpcServer \<Rightarrow> string \<Rightarrow> Packet \<Rightarrow> Packet go \<times> fevent list" where
  "dogDispatchPacket depth cost fs s clientAddr req =
     (case req of
        PRpc _ \<Rightarrow> (Inl TypeAssertion, [])
      | PDog packet \<Rightarrow>
          (let h = dp_Header packet
           in case nil_map (rs_defaultHandler s) (Cmd h) of
                None \<Rightarrow> (Inr (PDog (NewDogPacketWithRet (Cmd h) (Some []) (Seq h) 10004)), [])
              | Some f \<Rightarrow>
                  (case Filters_Handle depth cost fs
                          \<lparr>ctx_ClientAddr = clientAddr, ctx_Seq = Seq h,
                           ctx_Method = itoa_nat (unat (Cmd h)), ctx_Handler = f, ctx_Req = dp_Body packet\<rparr> of
                     (Inl p, ev) \<Rightarrow> (Inl p, ev)
                   | (Inr (code, body), ev) \<Rightarrow>
                       (Inr (PDog (NewDogPacketWithRet (Cmd h) body (Seq h) code)), ev))))"

text \<open>
  \<open>callHandlerWithRecover\<close>: when the handler panics, the deferred function calls \<open>SetErrCode\<close> on
  the named result, which is still the nil interface: a second panic that nothing recovers.
\<close>

definition callHandlerWithRecover :: "(Packet \<Rightarrow> Packet go) \<Rightarrow> Packet \<Rightarrow> Packet go" where
  "callHandlerWithRecover handler req =
     (case handler req of Inl x \<Rightarrow> Inl NilDeref | Inr rsp \<Rightarrow> Inr rsp)"

section \<open>Server life cycle\<close>

record Server =
  sv_hasHandler :: bool
  sv_Concurrency :: int
  sv_FlushDelay :: int
  sv_PendingResponses :: int
  sv_SendBufferSize :: int
  sv_RecvBufferSize :: int
  sv_stopChan :: chan_state
  sv_handlers :: nat

text \<open>\<open>Server.Start\<close>; \<open>listen\<close> is the outcome of \<open>Listener.Init\<close>.\<close>

definition Server_Start :: "string option \<Rightarrow> string \<Rightarrow> Server \<Rightarrow> errheap \<Rightarrow> (errptr option \<times> Server \<times> errheap) go" where
  "Server_Start listen addr s eh =
     (if \<not> sv_hasHandler s then Inl (PanicValue ''Server.Handler cannot be nil'')
      else if sv_stopChan s \<noteq> ChNil
      then Inl (PanicValue ''server is already running. Stop it before starting it again'')
      else
        (let s1 = s\<lparr>sv_stopChan := ChOpen,
                    sv_Concurrency := (if sv_Concurrency s \<le> 0 then 8192 else sv_Concurrency s),
                    sv_FlushDelay := (if sv_FlushDelay s = 0 then -1 else sv_FlushDelay s),
                    sv_PendingResponses := (if sv_PendingResponses s \<le> 0 then 32768 else sv_PendingResponses s),
                    sv_SendBufferSize := (if sv_SendBufferSize s \<le> 0 then 65536 else sv_SendBufferSize s),
                    sv_RecvBufferSize := (if sv_RecvBufferSize s \<le> 0 then 65536 else sv_RecvBufferSize s)\<rparr>
         in case listen of
              Some e \<Rightarrow>
                (case CodeError_SetMsg InternalServerError (''['' @ addr @ '']. Cannot listen to: ['' @ e @ '']'') eh of
                   (ce, eh') \<Rightarrow> Inr (Some ce, s1, eh'))
            | None \<Rightarrow> Inr (None, s1\<lparr>sv_handlers := sv_handlers s1 + 1\<rparr>, eh)))"

text \<open>\<open>Server.Stop\<close>: the wait ends when every handler goroutine has returned.\<close>

definition Server_Stop :: "Server \<Rightarrow> Server go" where
  "Server_Stop s =
     (case sv_stopChan s of
        ChNil \<Rightarrow> Inl (PanicValue ''server must be started before stopping it'')
      | ChClosed \<Rightarrow> Inl CloseOfClosedChannel
      | ChOpen \<Rightarrow> Inr (s\<lparr>sv_stopChan := ChNil, sv_handlers := 0\<rparr>))"

definition isClientDisconnect :: "ioerror \<Rightarrow> bool" where
  "isClientDisconnect e = (e = ErrUnexpectedEOF \<or> e = EOF)"

section \<open>A connection\<close>

record sconn =
  sc_in :: "byte list"
  sc_read :: "Packet list"
  sc_running :: "Packet list"
  sc_respq :: "Packet list"
  sc_sent :: "Packet list"
  sc_workers :: nat
  sc_readerDone :: bool
  sc_writerDone :: bool
  sc_stop :: bool
  sc_crashed :: bool

definition sconn_init :: "byte list \<Rightarrow> sconn" where
  "sconn_init bs = \<lparr>sc_in = bs, sc_read = [], sc_running = [], sc_respq = [], sc_sent = [],
     sc_workers = 0, sc_readerDone = False, sc_writerDone = False, sc_stop = False, sc_crashed = False\<rparr>"

text \<open>
  The goroutines of \<open>serverHandleConnection\<close>: the reader decodes a request and starts a worker when
  \<open>workersCh\<close> has room for \<open>conc\<close> of them; a worker calls the handler and queues the response, or
  gives it up when the connection is stopping; the writer encodes responses in queue order and ends
  when \<open>Encode\<close> fails (\<open>ok p = False\<close>) or the connection stops.
\<close>

inductive sconn_step ::
    "(byte list \<Rightarrow> (ioerror + Packet) \<times> byte list) \<Rightarrow> (Packet \<Rightarrow> Packet go) \<Rightarrow> (Packet \<Rightarrow> bool) \<Rightarrow>
     nat \<Rightarrow> nat \<Rightarrow> sconn \<Rightarrow> sconn \<Rightarrow> bool"
  for dec handler ok conc pend where
  sc_read_req:
    "\<lbrakk>\<not> sc_crashed c; \<not> sc_readerDone c; dec (sc_in c) = (Inr p, r); sc_workers c < conc\<rbrakk> \<Longrightarrow>
     sconn_step dec handler ok conc pend c
       (c\<lparr>sc_in := r, sc_read := sc_read c @ [p], sc_running := sc_running c @ [p],
          sc_workers := sc_workers c + 1\<rparr>)"
| sc_read_err:
    "\<lbrakk>\<not> sc_crashed c; \<not> sc_readerDone c; dec (sc_in c) = (Inl e, r)\<rbrakk> \<Longrightarrow>
     sconn_step dec handler ok conc pend c (c\<lparr>sc_in := r, sc_readerDone := True\<rparr>)"
| sc_read_stop:
    "\<lbrakk>\<not> sc_crashed c; \<not> sc_readerDone c; sc_stop c\<rbrakk> \<Longrightarrow>
     sconn_step dec handler ok conc pend c (c\<lparr>sc_readerDone := True\<rparr>)"
| sc_respond:
    "\<lbrakk>\<not> sc_crashed c; i < length (sc_running c);
      callHandlerWithRecover handler (sc_running c ! i) = Inr rsp; length (sc_respq c) < pend\<rbrakk> \<Longrightarrow>
     sconn_step dec handler ok conc pend c
       (c\<lparr>sc_running := take i (sc_running c) @ drop (Suc i) (sc_running c),
          sc_respq := sc_respq c @ [rsp], sc_workers := sc_workers c - 1\<rparr>)"
| sc_giveup:
    "\<lbrakk>\<not> sc_crashed c; i < length (sc_running c);
      callHandlerWithRecover handler (sc_running c ! i) = Inr rsp; sc_stop c\<rbrakk> \<Longrightarrow>
     sconn_step dec handler ok conc pend c
       (c\<lparr>sc_running := take i (sc_running c) @ drop (Suc i) (sc_running c),
          sc_workers := sc_workers c - 1\<rparr>)"
| sc_crash:
    "\<lbrakk>\<not> sc_crashed c; i < length (sc_running c);
      callHandlerWithRecover handler (sc_running c ! i) = Inl x\<rbrakk> \<Longrightarrow>
     sconn_step dec handler ok conc pend c (c\<lparr>sc_crashed := True\<rparr>)"
| sc_write:
    "\<lbrakk>\<not> sc_crashed c; \<not> sc_writerDone c; sc_respq c = rsp # rest; ok rsp\<rbrakk> \<Longrightarrow>
     sconn_step dec handler ok conc pend c (c\<lparr>sc_respq := rest, sc_sent := sc_sent c @ [rsp]\<rparr>)"
| sc_write_err:
    "\<lbrakk>\<not> sc_crashed c; \<not> sc_writerDone c; sc_respq c = rsp # rest; \<not> ok rsp\<rbrakk> \<Longrightarrow>
     sconn_step dec handler ok conc pend c (c\<lparr>sc_respq := rest, sc_writerDone := True\<rparr>)"
| sc_write_stop:
    "\<lbrakk>\<not> sc_crashed c; \<not> sc_writerDone c; sc_stop c\<rbrakk> \<Longrightarrow>
     sconn_step dec handler ok conc pend c (c\<lparr>sc_writerDone := True\<rparr>)"
| sc_close:
    "\<not> sc_crashed c \<Longrightarrow>
     sconn_step dec handler ok conc pend c (c\<lparr>sc_stop := True\<rparr>)"


section \<open>The filter chain\<close>

text \<open>What a chain of filters means: each one around the rest, the handler innermost.\<close>

fun chain_next :: "(nat \<Rightarrow> int) \<Rightarrow> (nat \<Rightarrow> FilterKind) \<Rightarrow> nat list \<Rightarrow> (Context \<Rightarrow> fresult) option" where
  "chain_next cost kind [] = None"
| "chain_next cost kind (f # fs) = Some (\<lambda>ctx. Filter_run (cost f) (kind f) (chain_next cost kind fs) ctx)"

definition chain_Handle :: "(nat \<Rightarrow> int) \<Rightarrow> (nat \<Rightarrow> FilterKind) \<Rightarrow> nat list \<Rightarrow> Context \<Rightarrow> fresult" where
  "chain_Handle cost kind fs ctx =
     (case chain_next cost kind fs of
        None \<Rightarrow> (Inr (handlerWithRecover (ctx_Handler ctx) (ctx_Req ctx)), [])
      | Some h \<Rightarrow> h ctx)"

text \<open>A list of objects linked by their \<open>next\<close> fields.\<close>

fun linked :: "(nat \<Rightarrow> FilterObj) \<Rightarrow> nat list \<Rightarrow> bool" where
  "linked h [] = True"
| "linked h [f] = (fo_next (h f) = None)"
| "linked h (f # g # fs) = (fo_next (h f) = Some g \<and> linked h (g # fs))"

lemma Filter_Handle_linked:
  "linked h (f # fs) \<Longrightarrow> length (f # fs) \<le> depth \<Longrightarrow>
   Filter_Handle depth cost h f ctx = Filter_run (cost f) (fo_kind (h f)) (chain_next cost (\<lambda>a. fo_kind (h a)) fs) ctx"
proof (induction fs arbitrary: f depth ctx)
  case Nil
  then show ?case by (cases depth) auto
next
  case (Cons g fs)
  then obtain d where d: "depth = Suc d" by (cases depth) auto
  with Cons.prems have "linked h (g # fs)" "length (g # fs) \<le> d" "fo_next (h f) = Some g" by auto
  moreover from Cons.IH [OF this(1,2)]
  have "(\<lambda>c. Filter_Handle d cost h g c) =
        (\<lambda>c. Filter_run (cost g) (fo_kind (h g)) (chain_next cost (\<lambda>a. fo_kind (h a)) fs) c)" by blast
  ultimately show ?case using d by simp
qed

lemma use_loop_Filters: "fl_Filters (use_loop front fs s) = fl_Filters s @ fs"
  by (induction fs arbitrary: front s) (auto simp: Let_def Filter_SetNext_def split: option.splits)

lemma use_loop_kind: "fo_kind (fl_heap (use_loop front fs s) f) = fo_kind (fl_heap s f)"
  by (induction fs arbitrary: front s) (auto simp: Let_def Filter_SetNext_def split: option.splits)

lemma use_loop_other:
  "f \<notin> set fs \<Longrightarrow> Some f \<noteq> front \<Longrightarrow> fl_heap (use_loop front fs s) f = fl_heap s f"
  by (induction fs arbitrary: front s) (auto simp: Let_def Filter_SetNext_def split: option.splits)

lemma use_loop_linked_front:
  "distinct (p # fs) \<Longrightarrow> \<forall>f \<in> set (p # fs). fo_next (fl_heap s f) = None \<Longrightarrow>
   linked (fl_heap (use_loop (Some p) fs s)) (p # fs)"
proof (induction fs arbitrary: p s)
  case Nil
  then show ?case by simp
next
  case (Cons f fs)
  let ?s = "Filter_SetNext p f (s\<lparr>fl_Filters := fl_Filters s @ [f]\<rparr>)"
  have "linked (fl_heap (use_loop (Some f) fs ?s)) (f # fs)"
    using Cons.prems by (intro Cons.IH) (auto simp: Filter_SetNext_def)
  moreover have "fo_next (fl_heap (use_loop (Some f) fs ?s) p) = Some f"
    using Cons.prems by (subst use_loop_other) (auto simp: Filter_SetNext_def)
  ultimately show ?case by (simp add: Let_def)
qed

lemma Use_linked:
  "distinct fs \<Longrightarrow> \<forall>f \<in> set fs. fo_next (fl_heap s f) = None \<Longrightarrow> linked (fl_heap (Use fs s)) fs"
  by (cases fs) (auto simp: Use_def Let_def intro!: use_loop_linked_front)

lemma linked_cong: "\<forall>f \<in> set fs. h f = h' f \<Longrightarrow> linked h fs = linked h' fs"
  by (induction h fs rule: linked.induct) auto

lemma chain_next_cong: "\<forall>f \<in> set fs. k f = k' f \<Longrightarrow> chain_next cost k fs = chain_next cost k' fs"
  by (induction fs) auto

text \<open>
  A \<open>globalFilter\<close> that starts with a linked chain behaves as that chain, whatever was appended to
  its list later.
\<close>

lemma Filters_Handle_chain:
  assumes "linked (fl_heap s) fs" and "fl_Filters s = fs @ rest" and "fs \<noteq> [] \<or> rest = []"
    and "length fs \<le> depth"
  shows "Filters_Handle depth cost s ctx = chain_Handle cost (\<lambda>f. fo_kind (fl_heap s f)) fs ctx"
proof (cases fs)
  case Nil
  with assms show ?thesis by (simp add: Filters_Handle_def chain_Handle_def)
next
  case (Cons f gs)
  with assms Filter_Handle_linked [of "fl_heap s" f gs depth cost ctx] show ?thesis
    by (simp add: Filters_Handle_def chain_Handle_def)
qed

definition package_filter :: "FilterKind \<Rightarrow> bool" where
  "package_filter k = (case k of GlFilter \<Rightarrow> True | LogFilter _ \<Rightarrow> True | AppFilter _ \<Rightarrow> False)"

text \<open>The filters of the package change neither the code nor the body, and never panic.\<close>

lemma chain_Handle_package:
  "\<forall>f \<in> set fs. package_filter (kind f) \<Longrightarrow>
   fst (chain_Handle cost kind fs ctx) = Inr (handlerWithRecover (ctx_Handler ctx) (ctx_Req ctx))"
proof (induction fs)
  case Nil
  then show ?case by (simp add: chain_Handle_def)
next
  case (Cons f fs)
  then show ?case
    by (auto simp: chain_Handle_def Filter_run_def GlFilter_Handle_def LogFilter_Handle_def package_filter_def
             split: FilterKind.splits option.splits prod.splits sum.splits)
qed

section \<open>Dispatch\<close>

lemma dispatchPacket_ID:
  "fst (dispatchPacket depth cost fs s addr req) = Inr rsp \<Longrightarrow> Packet_ID rsp = Packet_ID req"
  by (auto simp: dispatchPacket_def NewRpcPacketWithRet_def
           split: Packet.splits option.splits prod.splits sum.splits)

lemma dogDispatchPacket_ID:
  "fst (dogDispatchPacket depth cost fs s addr req) = Inr rsp \<Longrightarrow> Packet_ID rsp = Packet_ID req"
  by (auto simp: dogDispatchPacket_def NewDogPacketWithRet_def Let_def
           split: Packet.splits option.splits prod.splits sum.splits)

lemma wrapped_bad_param:
  "bslice req \<noteq> [] \<Longrightarrow> gf_in g ! 0 \<noteq> KPtr \<or> gf_unmarshal g (bslice req) = None \<Longrightarrow>
   wrapped js jv g req = Inr (0, None)"
  by (auto simp: wrapped_def Let_def)

section \<open>The step relation of a connection\<close>

inductive_cases sconn_stepE: "sconn_step dec handler ok conc pend c c'"

text \<open>The requests of a connection that are being served or have been answered.\<close>

definition sc_live :: "sconn \<Rightarrow> uint32 multiset" where
  "sc_live c = mset (map Packet_ID (sc_running c)) + mset (map Packet_ID (sc_respq c)) +
               mset (map Packet_ID (sc_sent c))"

definition sconn_inv :: "nat \<Rightarrow> nat \<Rightarrow> sconn \<Rightarrow> bool" where
  "sconn_inv conc pend c =
     (sc_workers c = length (sc_running c) \<and> sc_workers c \<le> conc \<and> length (sc_respq c) \<le> pend \<and>
      sc_live c \<subseteq># mset (map Packet_ID (sc_read c)) \<and>
      (\<not> sc_stop c \<longrightarrow> \<not> sc_writerDone c \<longrightarrow> sc_live c = mset (map Packet_ID (sc_read c))))"

lemma mset_remove_nth:
  "i < length xs \<Longrightarrow> mset (map f xs) = add_mset (f (xs ! i)) (mset (map f (take i xs @ drop (Suc i) xs)))"
  by (subst id_take_nth_drop [of i xs]) auto

lemma add_mset_subsetD: "add_mset x A \<subseteq># B \<Longrightarrow> A \<subseteq># B"
  by (rule subset_mset.order_trans [of A "add_mset x A"]) simp_all

abbreviation sconn_steps where
  "sconn_steps dec handler ok conc pend \<equiv> (sconn_step dec handler ok conc pend)\<^sup>*\<^sup>*"

lemma sconn_inv_step:
  assumes "sconn_step dec handler ok conc pend c c'" and "sconn_inv conc pend c"
    and "\<And>req rsp. handler req = Inr rsp \<Longrightarrow> Packet_ID rsp = Packet_ID req"
  shows "sconn_inv conc pend c'"
  using assms(1)
proof cases
  case (sc_respond i rsp)
  have "Packet_ID rsp = Packet_ID (sc_running c ! i)"
    using sc_respond(4) assms(3) by (auto simp: callHandlerWithRecover_def split: sum.splits)
  with mset_remove_nth [OF sc_respond(3), of Packet_ID] have "sc_live c' = sc_live c"
    by (simp add: sc_live_def sc_respond(1))
  with assms(2) sc_respond show ?thesis by (auto simp: sconn_inv_def)
next
  case (sc_giveup i rsp)
  with mset_remove_nth [OF sc_giveup(3), of Packet_ID]
  have "sc_live c = add_mset (Packet_ID (sc_running c ! i)) (sc_live c')" by (simp add: sc_live_def)
  with assms(2) sc_giveup show ?thesis by (auto simp: sconn_inv_def dest: add_mset_subsetD)
next
  case (sc_write rsp rest)
  then have "sc_live c' = sc_live c" by (simp add: sc_live_def)
  with assms(2) sc_write show ?thesis by (simp add: sconn_inv_def)
next
  case (sc_write_err rsp rest)
  then have "sc_live c = add_mset (Packet_ID rsp) (sc_live c')" by (simp add: sc_live_def)
  with assms(2) sc_write_err show ?thesis by (auto simp: sconn_inv_def dest: add_mset_subsetD)
next
  case (sc_read_req p r)
  then have "sc_live c' = add_mset (Packet_ID p) (sc_live c)" by (simp add: sc_live_def)
  with assms(2) sc_read_req show ?thesis by (simp add: sconn_inv_def)
qed (use assms(2) in \<open>auto simp: sconn_inv_def sc_live_def\<close>)

lemma sconn_inv_reach:
  assumes "sconn_steps dec handler ok conc pend (sconn_init bs) c"
    and "\<And>req rsp. handler req = Inr rsp \<Longrightarrow> Packet_ID rsp = Packet_ID req"
  shows "sconn_inv conc pend c"
  using assms(1)
proof (induction rule: rtranclp_induct)
  case base
  show ?case by (simp add: sconn_inv_def sconn_init_def sc_live_def)
next
  case (step c c')
  then show ?case using sconn_inv_step assms(2) by blast
qed

text \<open>The requests of a connection come from its decoder; none of them makes the handler panic.\<close>

lemma sconn_no_crash:
  assumes "sconn_steps dec handler ok conc pend (sconn_init bs) c"
    and dec: "\<And>xs p r. dec xs = (Inr p, r) \<Longrightarrow> P p"
    and handler: "\<And>p. P p \<Longrightarrow> \<exists>rsp. handler p = Inr rsp"
  shows "\<not> sc_crashed c"
proof -
  from assms(1) have "\<not> sc_crashed c \<and> (\<forall>p \<in> set (sc_running c). P p)"
  proof (induction rule: rtranclp_induct)
    case base
    show ?case by (simp add: sconn_init_def)
  next
    case (step c c')
    note IH = step.IH
    from step.hyps(2) show ?case
    proof cases
      case (sc_crash i x)
      then have "P (sc_running c ! i)" using IH by simp
      with handler obtain rsp where "handler (sc_running c ! i) = Inr rsp" by blast
      with sc_crash show ?thesis by (simp add: callHandlerWithRecover_def)
    qed (use IH dec in \<open>auto dest: in_set_takeD in_set_dropD\<close>)
  qed
  then show ?thesis by blast
qed

lemma Filters_Handle_Use:
  assumes "distinct fs" and "fl_Filters s = []" and "\<forall>f \<in> set fs. fo_next (fl_heap s f) = None"
    and "length fs \<le> depth"
  shows "Filters_Handle depth cost (Use fs s) ctx = chain_Handle cost (\<lambda>f. fo_kind (fl_heap s f)) fs ctx"
proof -
  have "linked (fl_heap (Use fs s)) fs" using assms by (intro Use_linked) auto
  moreover have "fl_Filters (Use fs s) = fs @ []" using assms(2) by (simp add: Use_def use_loop_Filters)
  ultimately have "Filters_Handle depth cost (Use fs s) ctx =
      chain_Handle cost (\<lambda>f. fo_kind (fl_heap (Use fs s) f)) fs ctx"
    by (rule Filters_Handle_chain) (use assms in auto)
  then show ?thesis by (simp add: Use_def use_loop_kind)
qed

text \<open>The decoders as the \<open>MessageDecoder\<close> interface of the connection sees them.\<close>

definition rpc_message_dec :: "byte list \<Rightarrow> (ioerror + Packet) \<times> byte list" where
  "rpc_message_dec bs =
     (case RpcPacketDecoder_Decode bs of (Inl e, r) \<Rightarrow> (Inl e, r) | (Inr p, r) \<Rightarrow> (Inr (PRpc p), r))"

definition dog_message_dec :: "byte list \<Rightarrow> (ioerror + Packet) \<times> byte list" where
  "dog_message_dec bs =
     (case DogPacketDecoder_Decode bs of (Inl e, r) \<Rightarrow> (Inl e, r) | (Inr p, r) \<Rightarrow> (Inr (PDog p), r))"

text \<open>The filters the sample installs: filters of the package, registered once, each object once.\<close>

definition package_chain :: "nat list \<Rightarrow> Filters \<Rightarrow> bool" where
  "package_chain fs s =
     (distinct fs \<and> fl_Filters s = [] \<and>
      (\<forall>f \<in> set fs. fo_next (fl_heap s f) = None \<and> package_filter (fo_kind (fl_heap s f))))"

lemma Filters_Handle_package:
  "package_chain fs s \<Longrightarrow> length fs \<le> depth \<Longrightarrow>
   \<exists>ev. Filters_Handle depth cost (Use fs s) ctx =
        (Inr (handlerWithRecover (ctx_Handler ctx) (ctx_Req ctx)), ev)"
  using chain_Handle_package [of fs "\<lambda>f. fo_kind (fl_heap s f)" cost ctx]
  by (simp add: package_chain_def Filters_Handle_Use prod_eq_iff)

lemma dispatchPacket_package:
  assumes "package_chain fl flt" and "length fl \<le> depth"
  shows "fst (dispatchPacket depth cost (Use fl flt) srv addr (PRpc p)) =
     Inr (PRpc (case nil_map (rs_defaultHandler srv) (rp_Cmd p) of
                  None \<Rightarrow> NewRpcPacketWithRet (rp_Cmd p) (Some []) (rp_Seq p) 10004
                | Some f \<Rightarrow> (case handlerWithRecover f (rp_Body p) of
                     (code, body) \<Rightarrow> NewRpcPacketWithRet (rp_Cmd p) body (rp_Seq p) code)))"
proof (cases "nil_map (rs_defaultHandler srv) (rp_Cmd p)")
  case (Some f)
  let ?ctx = "\<lparr>ctx_ClientAddr = addr, ctx_Seq = rp_Seq p, ctx_Method = itoa_nat (unat (rp_Cmd p)),
       ctx_Handler = f, ctx_Req = rp_Body p\<rparr>"
  obtain ev where "Filters_Handle depth cost (Use fl flt) ?ctx = (Inr (handlerWithRecover f (rp_Body p)), ev)"
    using Filters_Handle_package [OF assms, of cost ?ctx] by auto
  with Some show ?thesis by (cases "handlerWithRecover f (rp_Body p)") (simp add: dispatchPacket_def)
qed (simp add: dispatchPacket_def)

lemma dogDispatchPacket_package:
  assumes "package_chain fl flt" and "length fl \<le> depth"
  shows "fst (dogDispatchPacket depth cost (Use fl flt) srv addr (PDog p)) =
     Inr (PDog (case nil_map (rs_defaultHandler srv) (Cmd (dp_Header p)) of
                  None \<Rightarrow> NewDogPacketWithRet (Cmd (dp_Header p)) (Some []) (Seq (dp_Header p)) 10004
                | Some f \<Rightarrow> (case handlerWithRecover f (dp_Body p) of
                     (code, body) \<Rightarrow> NewDogPacketWithRet (Cmd (dp_Header p)) body (Seq (dp_Header p)) code)))"
proof (cases "nil_map (rs_defaultHandler srv) (Cmd (dp_Header p))")
  case (Some f)
  let ?ctx = "\<lparr>ctx_ClientAddr = addr, ctx_Seq = Seq (dp_Header p),
       ctx_Method = itoa_nat (unat (Cmd (dp_Header p))), ctx_Handler = f, ctx_Req = dp_Body p\<rparr>"
  obtain ev where "Filters_Handle depth cost (Use fl flt) ?ctx = (Inr (handlerWithRecover f (dp_Body p)), ev)"
    using Filters_Handle_package [OF assms, of cost ?ctx] by auto
  with Some show ?thesis
    by (cases "handlerWithRecover f (dp_Body p)") (simp add: dogDispatchPacket_def Let_def)
qed (simp add: dogDispatchPacket_def Let_def)

section \<open>A run\<close>

text \<open>
  A connection on which two requests arrive, the first for a handler that panics and the second for one that
  returns, behind both filters of the package.  Both are read before the second is answered, then the first.
\<close>

definition demo_filters :: Filters where
  "demo_filters = \<lparr>fl_heap = (\<lambda>i. \<lparr>fo_kind = (if i = 0 then GlFilter else LogFilter 10), fo_next = None\<rparr>), fl_Filters = []\<rparr>"

definition demo_server :: "nat RpcServer" where
  "demo_server = AddHandler 5 (\<lambda>b. Inl NilDeref) (AddHandler 6 (\<lambda>b. Inr (7, b)) NewRpcServer)"

definition demo_handler :: "Packet \<Rightarrow> Packet go" where
  "demo_handler = (\<lambda>req. fst (dispatchPacket 2 (\<lambda>_. 0) (Use [0, 1] demo_filters) demo_server [] req))"

definition demo_req1 :: RpcPacket where "demo_req1 = NewRpcPacketWithRet 5 (Some [1]) 9 0"
definition demo_req2 :: RpcPacket where "demo_req2 = NewRpcPacketWithRet 6 (Some [2]) 10 0"
definition demo_rsp1 :: RpcPacket where "demo_rsp1 = NewRpcPacketWithRet 5 None 9 10003"
definition demo_rsp2 :: RpcPacket where "demo_rsp2 = NewRpcPacketWithRet 6 (Some [2]) 10 7"

definition demo_bytes :: "byte list" where
  "demo_bytes = rpc_bytes demo_req1 @ rpc_bytes demo_req2"

definition demo_end :: sconn where
  "demo_end = (sconn_init [])\<lparr>sc_read := [PRpc demo_req1, PRpc demo_req2], sc_sent := [PRpc demo_rsp2, PRpc demo_rsp1]\<rparr>"

lemma demo_chain: "package_chain [0, 1] demo_filters" "length [0, 1 :: nat] \<le> 2"
  by (simp_all add: package_chain_def package_filter_def demo_filters_def)

lemma demo_dispatch:
  "callHandlerWithRecover demo_handler (PRpc demo_req1) = Inr (PRpc demo_rsp1)"
  "callHandlerWithRecover demo_handler (PRpc demo_req2) = Inr (PRpc demo_rsp2)"
  unfolding callHandlerWithRecover_def demo_handler_def dispatchPacket_package [OF demo_chain]
  by (simp_all add: demo_server_def AddHandler_def NewRpcServer_def nil_map_def demo_req1_def demo_req2_def demo_rsp1_def demo_rsp2_def
      NewRpcPacketWithRet_def handlerWithRecover_def)

lemma demo_decode:
  "rpc_message_dec demo_bytes = (Inr (PRpc demo_req1), rpc_bytes demo_req2)"
  "rpc_message_dec (rpc_bytes demo_req2) = (Inr (PRpc demo_req2), [])"
  using rpc_decode_encode [of demo_req1 "rpc_bytes demo_req2"] rpc_decode_encode [of demo_req2 "[]"]
  by (simp_all add: rpc_message_dec_def demo_bytes_def demo_req1_def demo_req2_def rpc_new_good)

lemma demo_run: "sconn_steps rpc_message_dec demo_handler (\<lambda>_. True) 2 1 (sconn_init demo_bytes) demo_end"
proof -
  let ?step = "sconn_step rpc_message_dec demo_handler (\<lambda>_. True) 2 1"
  let ?q1 = "PRpc demo_req1" and ?q2 = "PRpc demo_req2" and ?a1 = "PRpc demo_rsp1" and ?a2 = "PRpc demo_rsp2"
  define c where "c qs running respq sent =
    (sconn_init [])\<lparr>sc_read := qs, sc_running := running, sc_respq := respq, sc_sent := sent, sc_workers := length running\<rparr>"
    for qs running respq sent
  let ?c1 = "(c [?q1] [?q1] [] [])\<lparr>sc_in := rpc_bytes demo_req2\<rparr>"
  have 1: "?step (sconn_init demo_bytes) ?c1"
    using sc_read_req [of "sconn_init demo_bytes" rpc_message_dec ?q1 "rpc_bytes demo_req2" 2] by (simp add: demo_decode c_def sconn_init_def)
  have 2: "?step ?c1 (c [?q1, ?q2] [?q1, ?q2] [] [])"
    using sc_read_req [of ?c1 rpc_message_dec ?q2 "[]" 2] by (simp add: demo_decode c_def sconn_init_def)
  have 3: "?step (c [?q1, ?q2] [?q1, ?q2] [] []) (c [?q1, ?q2] [?q1] [?a2] [])"
    using sc_respond [of "c [?q1, ?q2] [?q1, ?q2] [] []" 1 demo_handler ?a2 1] by (simp add: demo_dispatch c_def sconn_init_def)
  have 4: "?step (c [?q1, ?q2] [?q1] [?a2] []) (c [?q1, ?q2] [?q1] [] [?a2])"
    using sc_write [of "c [?q1, ?q2] [?q1] [?a2] []" ?a2 "[]" "\<lambda>_. True"] by (simp add: c_def sconn_init_def)
  have 5: "?step (c [?q1, ?q2] [?q1] [] [?a2]) (c [?q1, ?q2] [] [?a1] [?a2])"
    using sc_respond [of "c [?q1, ?q2] [?q1] [] [?a2]" 0 demo_handler ?a1 1] by (simp add: demo_dispatch c_def sconn_init_def)
  have 6: "?step (c [?q1, ?q2] [] [?a1] [?a2]) (c [?q1, ?q2] [] [] [?a2, ?a1])"
    using sc_write [of "c [?q1, ?q2] [] [?a1] [?a2]" ?a1 "[]" "\<lambda>_. True"] by (simp add: c_def sconn_init_def)
  have "c [?q1, ?q2] [] [] [?a2, ?a1] = demo_end" by (simp add: c_def demo_end_def sconn_init_def)
  with 6 have "?step (c [?q1, ?q2] [] [?a1] [?a2]) demo_end" by simp
  then show ?thesis
    by (rule rtranclp.rtrancl_into_rtrancl
        [OF rtranclp.rtrancl_into_rtrancl [OF rtranclp.rtrancl_into_rtrancl [OF rtranclp.rtrancl_into_rtrancl
        [OF rtranclp.rtrancl_into_rtrancl [OF r_into_rtranclp [of ?step, OF 1] 2] 3] 4] 5]])
qed

section \<open>Properties\<close>

text \<open>
  C8. A connection of either protocol, under every interleaving of its reader, workers and writer:
  at most \<open>Concurrency\<close> handlers run and at most \<open>PendingResponses\<close> responses wait; every response
  written carries the sequence number of a request that was read, and no request is answered
  twice; when nothing is running or waiting, the connection is not stopping and the writer has not
  ended, every request read has been answered.
\<close>

theorem sconn_answers_match:
  assumes "sconn_steps dec handler ok conc pend (sconn_init bs) c"
    and "handler = (\<lambda>req. fst (dispatchPacket depth cost fs srv addr req)) \<or>
         handler = (\<lambda>req. fst (dogDispatchPacket depth cost fs srv addr req))"
  shows "length (sc_running c) \<le> conc \<and> length (sc_respq c) \<le> pend \<and>
         mset (map Packet_ID (sc_sent c)) \<subseteq># mset (map Packet_ID (sc_read c)) \<and>
         (sc_running c = [] \<and> sc_respq c = [] \<and> \<not> sc_stop c \<and> \<not> sc_writerDone c \<longrightarrow>
            mset (map Packet_ID (sc_sent c)) = mset (map Packet_ID (sc_read c)))"
proof -
  have "sconn_inv conc pend c"
    by (rule sconn_inv_reach [OF assms(1)]) (use assms(2) dispatchPacket_ID dogDispatchPacket_ID in blast)
  moreover have "mset (map Packet_ID (sc_sent c)) \<subseteq># sc_live c" by (simp add: sc_live_def)
  ultimately show ?thesis
    by (auto simp: sconn_inv_def intro: subset_mset.order_trans)
       (auto simp: sc_live_def)
qed

theorem sconn_answers_match_witness:
  "sconn_steps rpc_message_dec demo_handler (\<lambda>_. True) 2 1 (sconn_init demo_bytes) demo_end \<and>
   length (sc_read demo_end) = 2 \<and>
   mset (map Packet_ID (sc_sent demo_end)) = mset (map Packet_ID (sc_read demo_end))"
  using sconn_answers_match [OF demo_run disjI1 [OF demo_handler_def]] demo_run
  by (simp add: demo_end_def sconn_init_def)

text \<open>
  C9. A server whose filters are those of the package, each registered once, is never brought down
  by a request: whatever bytes arrive and whatever the registered handlers do, panics included, the
  connection of either protocol never reaches the unrecovered panic of \<open>callHandlerWithRecover\<close>.
\<close>

theorem sconn_never_crashes:
  assumes "package_chain fl flt" and "length fl \<le> depth"
    and "(dec, handler) \<in>
           {(rpc_message_dec, \<lambda>req. fst (dispatchPacket depth cost (Use fl flt) srv addr req)),
            (dog_message_dec, \<lambda>req. fst (dogDispatchPacket depth cost (Use fl flt) srv addr req))}"
    and "sconn_steps dec handler ok conc pend (sconn_init bs) c"
  shows "\<not> sc_crashed c"
proof -
  have rpc: "\<exists>rsp. fst (dispatchPacket depth cost (Use fl flt) srv addr (PRpc p)) = Inr rsp" for p
    by (simp add: dispatchPacket_package [OF assms(1,2)])
  have dog: "\<exists>rsp. fst (dogDispatchPacket depth cost (Use fl flt) srv addr (PDog p)) = Inr rsp" for p
    by (simp add: dogDispatchPacket_package [OF assms(1,2)])
  from assms(3) consider
      "dec = rpc_message_dec" "handler = (\<lambda>req. fst (dispatchPacket depth cost (Use fl flt) srv addr req))"
    | "dec = dog_message_dec" "handler = (\<lambda>req. fst (dogDispatchPacket depth cost (Use fl flt) srv addr req))"
    by auto
  then show ?thesis
  proof cases
    case 1
    show ?thesis
      by (rule sconn_no_crash [OF assms(4), of "\<lambda>p. \<exists>q. p = PRpc q"])
         (use 1 rpc in \<open>auto simp: rpc_message_dec_def split: prod.splits sum.splits\<close>)
  next
    case 2
    show ?thesis
      by (rule sconn_no_crash [OF assms(4), of "\<lambda>p. \<exists>q. p = PDog q"])
         (use 2 dog in \<open>auto simp: dog_message_dec_def split: prod.splits sum.splits\<close>)
  qed
qed

theorem sconn_never_crashes_witness:
  "nil_map (rs_defaultHandler demo_server) 5 = Some (\<lambda>b. Inl NilDeref) \<and>
   sconn_steps rpc_message_dec demo_handler (\<lambda>_. True) 2 1 (sconn_init demo_bytes) demo_end \<and>
   PRpc demo_rsp1 \<in> set (sc_sent demo_end) \<and> \<not> sc_crashed demo_end"
proof -
  have "\<not> sc_crashed demo_end"
    by (rule sconn_never_crashes [OF demo_chain, where cost = "\<lambda>_. 0" and srv = demo_server and addr = "[]", OF _ demo_run])
       (simp add: demo_handler_def)
  then show ?thesis using demo_run by (simp add: demo_server_def AddHandler_def NewRpcServer_def nil_map_def demo_end_def)
qed

text \<open>
  A second call of \<open>Use\<close> registers its filters in \<open>globalFilter\<close> but never links them to the
  first chain: they are never run, and requests are handled as before.
\<close>

lemma Use_twice_ignored:
  assumes "distinct fs" and "fs \<noteq> []" and "set fs \<inter> set gs = {}"
    and "fl_Filters s = []" and "\<forall>f \<in> set fs. fo_next (fl_heap s f) = None" and "length fs \<le> depth"
  shows "fl_Filters (Use gs (Use fs s)) = fs @ gs \<and>
         Filters_Handle depth cost (Use gs (Use fs s)) ctx = Filters_Handle depth cost (Use fs s) ctx"
proof
  show F: "fl_Filters (Use gs (Use fs s)) = fs @ gs"
    using assms(4) by (simp add: Use_def use_loop_Filters)
  have same: "\<forall>f \<in> set fs. fl_heap (Use gs (Use fs s)) f = fl_heap (Use fs s) f"
    using assms(3) by (auto simp: Use_def intro!: use_loop_other)
  have "linked (fl_heap (Use gs (Use fs s))) fs"
    using Use_linked [OF assms(1,5)] linked_cong [OF same] by simp
  then have "Filters_Handle depth cost (Use gs (Use fs s)) ctx =
      chain_Handle cost (\<lambda>f. fo_kind (fl_heap (Use gs (Use fs s)) f)) fs ctx"
    by (rule Filters_Handle_chain [OF _ F]) (use assms in auto)
  then show "Filters_Handle depth cost (Use gs (Use fs s)) ctx = Filters_Handle depth cost (Use fs s) ctx"
    using Filters_Handle_Use [OF assms(1,4,5,6)] by (simp add: Use_def use_loop_kind)
qed



text \<open>
  A panic of a handler of the dog protocol is answered with code 10003 and a nil body, and a
  parameter that cannot be unmarshalled with code 0 and a nil body, although \<open>wrap\<close> builds an error
  body for it.  Neither answer can be decoded by the client unless two different checksums happen
  to agree.
\<close>

lemma dog_error_reply_undecodable:
  assumes "package_chain fl flt" and "length fl \<le> depth"
    and "nil_map (rs_defaultHandler srv) (Cmd (dp_Header p)) = Some f"
    and "(code = 10003 \<and> (\<exists>x. f (dp_Body p) = Inl x)) \<or>
         (code = 0 \<and> f = wrapped js jv g \<and> bslice (dp_Body p) \<noteq> [] \<and>
          (gf_in g ! 0 \<noteq> KPtr \<or> gf_unmarshal g (bslice (dp_Body p)) = None))"
    and "dog_checksum (NewDogPacketWithRet (Cmd (dp_Header p)) None (Seq (dp_Header p)) code) \<noteq>
         dog_checksum (NewDogPacketWithRet (Cmd (dp_Header p)) (Some []) (Seq (dp_Header p)) code)"
  shows "\<exists>rsp. fst (dogDispatchPacket depth cost (Use fl flt) srv addr (PDog p)) = Inr (PDog rsp) \<and>
           ErrCode (dp_Header rsp) = code \<and>
           DogPacketDecoder_Decode (dog_bytes rsp @ rest) = (Inl (ErrNew ''invalid CheckSum''), rest)"
proof -
  have h: "handlerWithRecover f (dp_Body p) = (code, None)"
    using assms(4) wrapped_bad_param [of "dp_Body p" g js jv] by (auto simp: handlerWithRecover_def)
  then have "fst (dogDispatchPacket depth cost (Use fl flt) srv addr (PDog p)) =
      Inr (PDog (NewDogPacketWithRet (Cmd (dp_Header p)) None (Seq (dp_Header p)) code))"
    using assms(3) by (simp add: dogDispatchPacket_package [OF assms(1,2)])
  moreover have "DogPacketDecoder_Decode
      (dog_bytes (NewDogPacketWithRet (Cmd (dp_Header p)) None (Seq (dp_Header p)) code) @ rest) =
      (Inl (ErrNew ''invalid CheckSum''), rest)"
    using assms(5) by (simp add: dog_nil_body_decode)
  ultimately show ?thesis by (auto simp: NewDogPacketWithRet_def Let_def)
qed

text \<open>
  A panic that reaches \<open>callHandlerWithRecover\<close> (an application filter that panics, or a packet
  of the other protocol) is not recovered: as soon as the request is read, the connection can reach
  the crash that takes the process down.
\<close>

lemma handler_panic_crashes:
  assumes "dec bs = (Inr req, r)" and "handler req = Inl x" and "0 < conc"
  shows "\<exists>c. sconn_steps dec handler ok conc pend (sconn_init bs) c \<and> sc_crashed c"
proof -
  let ?c1 = "(sconn_init bs)\<lparr>sc_in := r, sc_read := [req], sc_running := [req], sc_workers := 1\<rparr>"
  have "sconn_step dec handler ok conc pend (sconn_init bs) ?c1"
    using sc_read_req [of "sconn_init bs" dec req r conc handler ok pend] assms
    by (simp add: sconn_init_def)
  moreover have "sconn_step dec handler ok conc pend ?c1 (?c1\<lparr>sc_crashed := True\<rparr>)"
    by (rule sc_crash [of _ 0 _ NilDeref]) (use assms(2) in \<open>simp_all add: sconn_init_def callHandlerWithRecover_def\<close>)
  ultimately have "sconn_steps dec handler ok conc pend (sconn_init bs) (?c1\<lparr>sc_crashed := True\<rparr>)"
    by (meson converse_rtranclp_into_rtranclp rtranclp.rtrancl_refl)
  then show ?thesis by (intro exI [of _ "?c1\<lparr>sc_crashed := True\<rparr>"]) simp
qed

text \<open>
  The life cycle of a server: started on a free address it can be stopped and started again
  any number of times with the same configuration; but a \<open>Start\<close> that fails to listen leaves the
  stop channel behind, so that every later \<open>Start\<close> panics with ``already running''.
\<close>

lemma Server_lifecycle:
  assumes "sv_hasHandler s" and "sv_stopChan s = ChNil"
  shows "\<exists>s1 s2 e1 eh1.
     Server_Start None addr s eh = Inr (None, s1, eh) \<and> Server_Stop s1 = Inr s2 \<and>
     Server_Start None addr s2 eh = Inr (None, s1\<lparr>sv_handlers := 1\<rparr>, eh) \<and>
     Server_Start (Some err) addr s eh = Inr (Some InternalServerError, e1, eh1) \<and>
     errMsg (eh1 InternalServerError) = ''['' @ addr @ '']. Cannot listen to: ['' @ err @ '']'' \<and>
     (\<forall>l. Server_Start l addr e1 eh1 =
        Inl (PanicValue ''server is already running. Stop it before starting it again''))"
  using assms by (simp add: Server_Start_def Server_Stop_def CodeError_SetMsg_def Let_def)

end
