(* ===== verification/RpcClient.thy ===== *)
theory RpcClient
  imports Encoding Derror
begin

text \<open>
  The client side of \<open>net/dogrpc\<close> (\<open>client.go\<close>, \<open>rpc_client.go\<close>, \<open>dog_client.go\<close>): the request
  queue, the pool of \<open>AsyncResult\<close> objects, the writer and reader goroutines of each connection with
  their maps of pending requests, the callers blocked in \<open>CallTimeout\<close>, the retry loop, and the
  start/stop protocol.

  \<open>AsyncResult\<close> objects live on a heap, since the pool reuses them and callers, queue and pending
  maps share them.  Every loop iteration of a goroutine is one operation on the client's state;
  \<open>client_step\<close> interleaves them arbitrarily.
\<close>

section \<open>Configuration\<close>

record Client =
  cl_Conns :: int
  cl_DialRetryTime :: int
  cl_PendingRequests :: int
  cl_FlushDelay :: int
  cl_RequestTimeout :: int
  cl_SendBufferSize :: int
  cl_RecvBufferSize :: int

text \<open>\<open>Client.Start\<close>'s defaults; times are in nanoseconds.\<close>

definition Client_defaults :: "Client \<Rightarrow> Client" where
  "Client_defaults c =
     \<lparr>cl_Conns = (if cl_Conns c \<le> 0 then 1 else cl_Conns c),
      cl_DialRetryTime = (if cl_DialRetryTime c < 0 then 0 else cl_DialRetryTime c),
      cl_PendingRequests = (if cl_PendingRequests c \<le> 0 then 32768 else cl_PendingRequests c),
      cl_FlushDelay = (if cl_FlushDelay c = 0 then -1 else cl_FlushDelay c),
      cl_RequestTimeout = (if cl_RequestTimeout c \<le> 0 then 20000000000 else cl_RequestTimeout c),
      cl_SendBufferSize = (if cl_SendBufferSize c \<le> 0 then 65536 else cl_SendBufferSize c),
      cl_RecvBufferSize = (if cl_RecvBufferSize c \<le> 0 then 65536 else cl_RecvBufferSize c)\<rparr>"

section \<open>Asynchronous results\<close>

record AsyncResult =
  ar_Response :: "Packet option"
  ar_Error :: "string option"
  ar_Done :: chan_state
  ar_Request :: "Packet option"
  ar_canceled :: bool
  ar_skipResponse :: bool

definition zeroAsyncResult :: AsyncResult where
  "zeroAsyncResult = \<lparr>ar_Response = None, ar_Error = None, ar_Done = ChNil, ar_Request = None,
     ar_canceled = False, ar_skipResponse = False\<rparr>"

text \<open>
  \<open>cs_pending\<close> holds the pending maps of all connections, keyed by connection and message id;
  \<open>cs_sent\<close> records what each connection encoded and \<open>cs_waiting\<close> the results on which callers of
  \<open>CallTimeout\<close> wait.
\<close>

record cstate =
  cs_heap :: "nat \<Rightarrow> AsyncResult"
  cs_next :: nat
  cs_pool :: "nat list"
  cs_queue :: "nat list"
  cs_pending :: "((nat \<times> uint32) \<times> nat) list"
  cs_count :: uint32
  cs_sent :: "(nat \<times> Packet) list"
  cs_waiting :: "nat list"

definition cs_init :: cstate where
  "cs_init = \<lparr>cs_heap = (\<lambda>_. zeroAsyncResult), cs_next = 0, cs_pool = [], cs_queue = [],
     cs_pending = [], cs_count = 0, cs_sent = [], cs_waiting = []\<rparr>"

definition ar_upd :: "nat \<Rightarrow> (AsyncResult \<Rightarrow> AsyncResult) \<Rightarrow> cstate \<Rightarrow> cstate" where
  "ar_upd m f s = s\<lparr>cs_heap := (cs_heap s)(m := f (cs_heap s m))\<rparr>"

definition newAsyncResult :: "cstate \<Rightarrow> nat \<times> cstate" where
  "newAsyncResult s =
     (cs_next s, s\<lparr>cs_heap := (cs_heap s)(cs_next s := zeroAsyncResult), cs_next := cs_next s + 1\<rparr>)"

text \<open>\<open>sync.Pool\<close> hands out any pooled object, or none: \<open>pick\<close> is its choice.\<close>

definition acquireAsyncResult :: "nat option \<Rightarrow> cstate \<Rightarrow> nat \<times> cstate" where
  "acquireAsyncResult pick s =
     (case pick of
        None \<Rightarrow> newAsyncResult s
      | Some i \<Rightarrow>
          if i < length (cs_pool s)
          then (cs_pool s ! i, s\<lparr>cs_pool := take i (cs_pool s) @ drop (Suc i) (cs_pool s)\<rparr>)
          else newAsyncResult s)"

definition releaseAsyncResult :: "nat \<Rightarrow> cstate \<Rightarrow> cstate" where
  "releaseAsyncResult m s =
     (ar_upd m (\<lambda>r. r\<lparr>ar_Response := None, ar_Error := None, ar_Done := ChNil, ar_Request := None\<rparr>) s)
       \<lparr>cs_pool := cs_pool s @ [m]\<rparr>"

definition AsyncResult_Cancel :: "nat \<Rightarrow> cstate \<Rightarrow> cstate" where
  "AsyncResult_Cancel m s = ar_upd m (\<lambda>r. r\<lparr>ar_canceled := True\<rparr>) s"

text \<open>\<open>close(m.Done)\<close> after writing the outcome into the result.\<close>

definition finish :: "nat \<Rightarrow> (AsyncResult \<Rightarrow> AsyncResult) \<Rightarrow> cstate \<Rightarrow> cstate go" where
  "finish m f s =
     go_bind (chan_close (ar_Done (cs_heap s m)))
       (\<lambda>ch. Inr (ar_upd m (\<lambda>r. (f r)\<lparr>ar_Done := ch\<rparr>) s))"

section \<open>Sending a request\<close>

text \<open>\<open>callAsync\<close>, for a queue of capacity \<open>cap\<close>.\<close>

definition callAsync ::
    "nat \<Rightarrow> errheap \<Rightarrow> Packet \<Rightarrow> bool \<Rightarrow> bool \<Rightarrow> nat option \<Rightarrow> cstate \<Rightarrow> ((errptr + nat) \<times> cstate) go" where
  "callAsync cap eh req skipResponse usePool0 pick s0 =
     (let usePool = (skipResponse \<or> usePool0);
          (m, s1) = (if usePool then acquireAsyncResult pick s0 else newAsyncResult s0);
          s2 = ar_upd m (\<lambda>r. r\<lparr>ar_Request := Some req, ar_skipResponse := skipResponse,
                               ar_Done := (if skipResponse then ar_Done r else ChOpen)\<rparr>) s1
      in if length (cs_queue s2) < cap
         then Inr (Inr m, s2\<lparr>cs_queue := cs_queue s2 @ [m]\<rparr>)
         else if skipResponse
         then Inr (Inl TimeOutError, releaseAsyncResult m s2)
         else
           go_bind
             (case cs_queue s2 of
                [] \<Rightarrow> Inr s2
              | mm # rest \<Rightarrow>
                  (let s3 = s2\<lparr>cs_queue := rest\<rparr>
                   in if ar_Done (cs_heap s3 mm) \<noteq> ChNil
                      then finish mm (\<lambda>r. r\<lparr>ar_Error := Some (errMsg (eh OverflowError))\<rparr>) s3
                      else if usePool then Inr (releaseAsyncResult mm s3) else Inr s3))
             (\<lambda>s4. if length (cs_queue s4) < cap
                   then Inr (Inr m, s4\<lparr>cs_queue := cs_queue s4 @ [m]\<rparr>)
                   else Inr (Inl OverflowError, if usePool then releaseAsyncResult m s4 else s4)))"

section \<open>The writer and the reader of a connection\<close>

definition pending_of :: "nat \<Rightarrow> cstate \<Rightarrow> ((nat \<times> uint32) \<times> nat) list" where
  "pending_of c s = filter (\<lambda>e. fst (fst e) = c) (cs_pending s)"

text \<open>
  The clean-up loop of \<open>clientWriter\<close>, over the entries in the order the map yields them.  Each
  entry still present decrements the counter; a cancelled one deletes \<open>msgID\<close>, the id of the
  request being sent.
\<close>

fun cleanup :: "(nat \<times> uint32) \<Rightarrow> ((nat \<times> uint32) \<times> nat) list \<Rightarrow> cstate \<Rightarrow> cstate" where
  "cleanup key [] s = s"
| "cleanup key ((k, m) # es) s =
     (if k \<in> fst ` set (cs_pending s)
      then (let s1 = s\<lparr>cs_count := cs_count s - 1\<rparr>
            in cleanup key es (if ar_canceled (cs_heap s1 m)
                               then s1\<lparr>cs_pending := al_del key (cs_pending s1)\<rparr> else s1))
      else cleanup key es s)"

text \<open>
  One request taken from the queue by the writer of connection \<open>c\<close>: \<open>Some e\<close> ends the writer.
  \<open>order\<close> is the iteration order of the clean-up, \<open>encode_err\<close> the outcome of \<open>Encode\<close>.
\<close>

definition writer_take ::
    "int \<Rightarrow> nat \<Rightarrow> ((nat \<times> uint32) \<times> nat) list \<Rightarrow> string option \<Rightarrow> nat \<Rightarrow> cstate \<Rightarrow> (string option \<times> cstate) go" where
  "writer_take pendingRequests c order encode_err m s =
     (let r = cs_heap s m
      in if ar_canceled r
         then (if ar_Done r \<noteq> ChNil
               then go_bind (finish m (\<lambda>r. r\<lparr>ar_Error := Some ''canceled error''\<rparr>) s) (\<lambda>s'. Inr (None, s'))
               else Inr (None, releaseAsyncResult m s))
         else
           (case ar_Request r of
              None \<Rightarrow> Inl NilDeref
            | Some req \<Rightarrow>
                (let msgID = Packet_ID req;
                     encode = (\<lambda>s. (encode_err, if encode_err = None then s\<lparr>cs_sent := cs_sent s @ [(c, req)]\<rparr> else s))
                 in if ar_skipResponse r then Inr (encode s)
                    else
                      (let n = length (pending_of c s);
                           s1 = s\<lparr>cs_pending := al_set (c, msgID) m (cs_pending s), cs_count := cs_count s + 1\<rparr>
                       in if int n > 3 * pendingRequests
                          then (let s2 = cleanup (c, msgID) order s1
                                in if int (length (pending_of c s2)) > 3 * pendingRequests
                                   then Inr (Some ''The server didn't return responses yet'', s2)
                                   else Inr (encode s2))
                          else Inr (encode s1)))))"

definition clientWriter_next ::
    "int \<Rightarrow> nat \<Rightarrow> ((nat \<times> uint32) \<times> nat) list \<Rightarrow> string option \<Rightarrow> cstate \<Rightarrow> (string option \<times> cstate) go" where
  "clientWriter_next pendingRequests c order encode_err s =
     (case cs_queue s of
        [] \<Rightarrow> Inr (None, s)
      | m # rest \<Rightarrow> writer_take pendingRequests c order encode_err m (s\<lparr>cs_queue := rest\<rparr>))"

text \<open>One packet decoded by the reader of connection \<open>c\<close>; an unknown id is only noted.\<close>

definition clientReader_packet :: "nat \<Rightarrow> Packet \<Rightarrow> cstate \<Rightarrow> cstate go" where
  "clientReader_packet c packet s =
     (let key = (c, Packet_ID packet)
      in case map_of (cs_pending s) key of
           None \<Rightarrow> Inr s
         | Some m \<Rightarrow>
             finish m (\<lambda>r. r\<lparr>ar_Response := Some packet\<rparr>)
               (s\<lparr>cs_pending := al_del key (cs_pending s), cs_count := cs_count s - 1\<rparr>))"

text \<open>The loop at the end of \<open>clientHandleConnection\<close>; \<open>err\<close> is nil when the client was stopped.\<close>

fun close_pending :: "string option \<Rightarrow> nat list \<Rightarrow> cstate \<Rightarrow> cstate go" where
  "close_pending err [] s = Inr s"
| "close_pending err (m # ms) s =
     (let s1 = s\<lparr>cs_count := cs_count s - 1\<rparr>
      in if ar_Done (cs_heap s1 m) \<noteq> ChNil
         then go_bind (finish m (\<lambda>r. r\<lparr>ar_Error := err\<rparr>) s1) (close_pending err ms)
         else close_pending err ms (ar_upd m (\<lambda>r. r\<lparr>ar_Error := err\<rparr>) s1))"

definition clientHandleConnection_end :: "nat \<Rightarrow> string option \<Rightarrow> cstate \<Rightarrow> cstate go" where
  "clientHandleConnection_end c err s =
     go_bind (close_pending err (map snd (pending_of c s)) s)
       (\<lambda>s'. Inr (s'\<lparr>cs_pending := filter (\<lambda>e. fst (fst e) \<noteq> c) (cs_pending s')\<rparr>))"

section \<open>Waiting for the response\<close>

text \<open>The two branches of the \<open>select\<close> in \<open>CallTimeout\<close>.\<close>

definition call_done :: "nat \<Rightarrow> errheap \<Rightarrow> cstate \<Rightarrow> (Packet option \<times> errptr option) \<times> errheap \<times> cstate" where
  "call_done m eh s =
     (let r = cs_heap s m
      in case ar_Error r of
           None \<Rightarrow> ((ar_Response r, None), eh, releaseAsyncResult m s)
         | Some e \<Rightarrow>
             (case CodeError_SetMsg InternalServerError e eh of
                (p, eh') \<Rightarrow> ((ar_Response r, Some p), eh', releaseAsyncResult m s)))"

definition call_timeout :: "string \<Rightarrow> nat \<Rightarrow> errheap \<Rightarrow> cstate \<Rightarrow> errptr \<times> errheap \<times> cstate" where
  "call_timeout msg m eh s =
     (case CodeError_SetMsg TimeOutError msg eh of (p, eh') \<Rightarrow> (p, eh', AsyncResult_Cancel m s))"

text \<open>
  The \<open>retry\<close> loop of \<open>CallTimeout\<close>.  \<open>attempt k\<close> is the outcome of the \<open>k\<close>-th attempt: the error of
  \<open>callAsync\<close>, or what the \<open>select\<close> produced.  The first argument is fuel.
\<close>

datatype attempt = NotQueued errptr | Answered "Packet option" "errptr option" | TimedOut

fun CallTimeout_loop ::
    "nat \<Rightarrow> errheap \<Rightarrow> (nat \<Rightarrow> attempt) \<Rightarrow> uint32 \<Rightarrow> uint32 \<Rightarrow> nat \<Rightarrow> ((Packet option \<times> errptr option) \<times> nat) option" where
  "CallTimeout_loop 0 eh attempt retryNum tryNum k = None"
| "CallTimeout_loop (Suc fuel) eh attempt retryNum tryNum k =
     (case attempt k of
        NotQueued e \<Rightarrow> Some ((None, Some e), k + 1)
      | Answered rsp e \<Rightarrow>
          (if e \<noteq> None \<and> errCode (eh (the e)) = errCode (eh TimeOutError)
           then (if tryNum + 1 \<le> retryNum then CallTimeout_loop fuel eh attempt retryNum (tryNum + 1) (k + 1)
                 else Some ((rsp, e), k + 1))
           else Some ((rsp, e), k + 1))
      | TimedOut \<Rightarrow>
          (if tryNum + 1 \<le> retryNum then CallTimeout_loop fuel eh attempt retryNum (tryNum + 1) (k + 1)
           else Some ((None, Some TimeOutError), k + 1)))"

text \<open>\<open>Invoke\<close> and \<open>DogInvoke\<close> after \<open>CallRetry\<close>: code and body of the response packet.\<close>

definition Invoke_result :: "Packet option \<times> errptr option \<Rightarrow> (uint32 \<times> byte list option \<times> errptr option) go" where
  "Invoke_result r =
     (case r of
        (_, Some e) \<Rightarrow> Inr (0, None, Some e)
      | (Some (PRpc p), None) \<Rightarrow> Inr (rp_ErrCode p, rp_Body p, None)
      | (_, None) \<Rightarrow> Inl TypeAssertion)"

definition DogInvoke_result :: "Packet option \<times> errptr option \<Rightarrow> (uint32 \<times> byte list option \<times> errptr option) go" where
  "DogInvoke_result r =
     (case r of
        (_, Some e) \<Rightarrow> Inr (0, None, Some e)
      | (Some (PDog p), None) \<Rightarrow> Inr (ErrCode (dp_Header p), dp_Body p, None)
      | (_, None) \<Rightarrow> Inl TypeAssertion)"

text \<open>\<open>DogInvoke\<close>'s request: \<open>json\<close> is the marshalled argument, \<open>None\<close> for a nil argument.\<close>

definition DogInvoke_request :: "uint32 \<Rightarrow> byte list option \<Rightarrow> uint32 \<Rightarrow> Packet \<times> uint32" where
  "DogInvoke_request cmd json globalDogSeq =
     (case NewDogPacket cmd json globalDogSeq of (p, g) \<Rightarrow> (PDog p, g))"

definition Invoke_request :: "uint32 \<Rightarrow> byte list option \<Rightarrow> uint32 \<Rightarrow> Packet \<times> uint32" where
  "Invoke_request cmd req globalSeq =
     (case NewRpcPacket cmd req globalSeq of (p, g) \<Rightarrow> (PRpc p, g))"

section \<open>All interleavings\<close>

text \<open>
  A step of the client: a caller sends or gets its answer or times out, a connection's writer takes
  a request, its reader gets a packet, or the connection ends.
\<close>

datatype caction =
    ACall Packet "nat option"
  | AAsync Packet bool "nat option"
  | AWrite nat "((nat \<times> uint32) \<times> nat) list" "string option"
  | ARead nat Packet
  | AClose nat "string option"
  | ACollect nat
  | ATimeout nat

definition client_do :: "nat \<Rightarrow> errheap \<Rightarrow> caction \<Rightarrow> cstate \<Rightarrow> cstate go" where
  "client_do cap eh a s =
     (case a of
        ACall req pick \<Rightarrow>
          go_bind (callAsync cap eh req False True pick s)
            (\<lambda>(r, s'). Inr (case r of Inl e \<Rightarrow> s' | Inr m \<Rightarrow> s'\<lparr>cs_waiting := cs_waiting s' @ [m]\<rparr>))
      | AAsync req skip pick \<Rightarrow> go_bind (callAsync cap eh req skip False pick s) (\<lambda>(r, s'). Inr s')
      | AWrite c order err \<Rightarrow> go_bind (clientWriter_next (int cap) c order err s) (\<lambda>(r, s'). Inr s')
      | ARead c packet \<Rightarrow> clientReader_packet c packet s
      | AClose c err \<Rightarrow> clientHandleConnection_end c err s
      | ACollect m \<Rightarrow> Inr ((snd (snd (call_done m eh s)))\<lparr>cs_waiting := removeAll m (cs_waiting s)\<rparr>)
      | ATimeout m \<Rightarrow> Inr ((AsyncResult_Cancel m s)\<lparr>cs_waiting := removeAll m (cs_waiting s)\<rparr>))"

definition client_enabled :: "caction \<Rightarrow> cstate \<Rightarrow> bool" where
  "client_enabled a s =
     (case a of
        ACollect m \<Rightarrow> m \<in> set (cs_waiting s) \<and> ar_Done (cs_heap s m) = ChClosed
      | ATimeout m \<Rightarrow> m \<in> set (cs_waiting s)
      | _ \<Rightarrow> True)"

inductive client_step :: "nat \<Rightarrow> errheap \<Rightarrow> cstate \<Rightarrow> cstate \<Rightarrow> bool" for cap eh where
  client_act: "\<lbrakk>client_enabled a s; client_do cap eh a s = Inr s'\<rbrakk> \<Longrightarrow> client_step cap eh s s'"


section \<open>The invariant\<close>

lemma chan_close_Inr: "chan_close c = Inr c' \<longleftrightarrow> c = ChOpen \<and> c' = ChClosed"
  by (cases c) auto

text \<open>What a result object looks like while it is queued, pending, pooled or waited for.\<close>

definition q_ok :: "AsyncResult \<Rightarrow> bool" where
  "q_ok r = (ar_Request r \<noteq> None \<and> ar_Response r = None \<and>
             ar_Done r = (if ar_skipResponse r then ChNil else ChOpen))"

definition p_ok :: "(nat \<times> uint32) \<Rightarrow> AsyncResult \<Rightarrow> bool" where
  "p_ok k r = (map_option Packet_ID (ar_Request r) = Some (snd k) \<and> ar_Response r = None \<and> ar_Done r = ChOpen)"

definition pool_ok :: "AsyncResult \<Rightarrow> bool" where
  "pool_ok r = (ar_Done r = ChNil \<and> ar_Response r = None \<and> ar_Error r = None)"

definition w_ok :: "AsyncResult \<Rightarrow> bool" where
  "w_ok r = (ar_Done r \<noteq> ChNil \<and>
     (\<forall>p. ar_Response r = Some p \<longrightarrow> map_option Packet_ID (ar_Request r) = Some (Packet_ID p)))"

lemma role_canceled [simp]:
  "q_ok (r\<lparr>ar_canceled := b\<rparr>) = q_ok r" "p_ok k (r\<lparr>ar_canceled := b\<rparr>) = p_ok k r"
  "pool_ok (r\<lparr>ar_canceled := b\<rparr>) = pool_ok r" "w_ok (r\<lparr>ar_canceled := b\<rparr>) = w_ok r"
  by (simp_all add: q_ok_def p_ok_def pool_ok_def w_ok_def)

text \<open>No object is in two places; a caller may wait for an object that is queued or pending.\<close>

definition refs_ok :: "nat set \<Rightarrow> nat set \<Rightarrow> nat set \<Rightarrow> nat set \<Rightarrow> nat \<Rightarrow> bool" where
  "refs_ok Q P L W n =
     (Q \<inter> P = {} \<and> Q \<inter> L = {} \<and> P \<inter> L = {} \<and> W \<inter> L = {} \<and> (\<forall>m \<in> Q \<union> P \<union> L \<union> W. m < n))"

definition client_inv :: "cstate \<Rightarrow> bool" where
  "client_inv s =
     (distinct (cs_queue s) \<and> distinct (map fst (cs_pending s)) \<and> distinct (map snd (cs_pending s)) \<and>
      distinct (cs_pool s) \<and>
      refs_ok (set (cs_queue s)) (snd ` set (cs_pending s)) (set (cs_pool s)) (set (cs_waiting s)) (cs_next s) \<and>
      (\<forall>m \<in> set (cs_queue s). q_ok (cs_heap s m)) \<and>
      (\<forall>e \<in> set (cs_pending s). p_ok (fst e) (cs_heap s (snd e))) \<and>
      (\<forall>m \<in> set (cs_pool s). pool_ok (cs_heap s m)) \<and>
      (\<forall>m \<in> set (cs_waiting s). w_ok (cs_heap s m)))"

lemma refs_ok_sub: "refs_ok Q P L W n \<Longrightarrow> P' \<subseteq> P \<Longrightarrow> refs_ok Q P' L W n"
  unfolding refs_ok_def by blast

lemma refs_ok_waiting: "refs_ok Q P L W n \<Longrightarrow> W' \<subseteq> W \<Longrightarrow> refs_ok Q P L W' n"
  unfolding refs_ok_def by blast

lemma refs_ok_add:
  "refs_ok Q P L W n \<Longrightarrow> P' \<subseteq> insert m P \<Longrightarrow> m \<notin> Q \<Longrightarrow> m \<notin> L \<Longrightarrow> m < n \<Longrightarrow> refs_ok Q P' L W n"
  unfolding refs_ok_def by blast

lemma client_inv_init: "client_inv cs_init"
  by (simp add: client_inv_def refs_ok_def cs_init_def)

lemma set_al_set: "e \<in> set (al_set k v xs) \<Longrightarrow> e = (k, v) \<or> e \<in> set xs"
  by (induction xs) (auto split: if_splits)

lemma snd_al_set: "snd ` set (al_set k v xs) \<subseteq> insert v (snd ` set xs)"
  by (auto dest!: set_al_set simp: image_iff)

lemma distinct_snd_al_set:
  "distinct (map snd xs) \<Longrightarrow> v \<notin> snd ` set xs \<Longrightarrow> distinct (map snd (al_set k v xs))"
proof (induction xs)
  case (Cons e xs)
  then show ?case using snd_al_set [of k v xs] by (cases e) auto
qed simp

lemma set_al_del: "set (al_del k xs) \<subseteq> set xs"
  by (auto simp: al_del_def)

lemma distinct_snd_al_del: "distinct (map snd xs) \<Longrightarrow> distinct (map snd (al_del k xs))"
  by (induction xs) (auto simp: al_del_def)

lemma distinct_map_filter': "distinct (map f xs) \<Longrightarrow> distinct (map f (filter P xs))"
  by (induction xs) auto

text \<open>A result taken out of the queue belongs to nobody but its caller.\<close>

definition taken :: "nat \<Rightarrow> cstate \<Rightarrow> bool" where
  "taken m s = (m \<notin> set (cs_queue s) \<and> m \<notin> snd ` set (cs_pending s) \<and> m \<notin> set (cs_pool s) \<and> m < cs_next s)"

lemma inv_upd_taken:
  assumes "client_inv s" and "taken m s"
    and "m \<in> set (cs_waiting s) \<Longrightarrow> w_ok (f (cs_heap s m))"
  shows "client_inv (ar_upd m f s)"
  using assms by (auto simp: client_inv_def refs_ok_def taken_def ar_upd_def image_iff)

lemma inv_release:
  assumes "client_inv s" and "taken m s" and "m \<notin> set (cs_waiting s)"
  shows "client_inv (releaseAsyncResult m s)"
  using assms
  by (auto simp: client_inv_def refs_ok_def taken_def ar_upd_def releaseAsyncResult_def pool_ok_def image_iff)

lemma inv_enqueue:
  assumes "client_inv s" and "taken m s" and "q_ok (cs_heap s m)"
  shows "client_inv (s\<lparr>cs_queue := cs_queue s @ [m]\<rparr>)"
  using assms by (auto simp: client_inv_def refs_ok_def taken_def)

lemma inv_dequeue:
  assumes "client_inv s" and "cs_queue s = m # rest"
  shows "client_inv (s\<lparr>cs_queue := rest\<rparr>)" "taken m (s\<lparr>cs_queue := rest\<rparr>)" "q_ok (cs_heap s m)"
  using assms by (auto simp: client_inv_def refs_ok_def taken_def)

lemma inv_new:
  assumes "client_inv s" and "newAsyncResult s = (m, s1)"
  shows "client_inv s1 \<and> taken m s1 \<and> m \<notin> set (cs_waiting s1) \<and> pool_ok (cs_heap s1 m) \<and>
         cs_queue s1 = cs_queue s"
proof -
  have m: "m = cs_next s" "s1 = s\<lparr>cs_heap := (cs_heap s)(m := zeroAsyncResult), cs_next := cs_next s + 1\<rparr>"
    using assms(2) by (auto simp: newAsyncResult_def)
  have n: "m \<notin> set (cs_queue s)" "m \<notin> snd ` set (cs_pending s)" "m \<notin> set (cs_pool s)" "m \<notin> set (cs_waiting s)"
    using assms(1) m(1) by (auto simp: client_inv_def refs_ok_def)
  then have h: "\<forall>x \<in> set (cs_queue s). cs_heap s1 x = cs_heap s x"
     "\<forall>e \<in> set (cs_pending s). cs_heap s1 (snd e) = cs_heap s (snd e)"
     "\<forall>x \<in> set (cs_pool s). cs_heap s1 x = cs_heap s x" "\<forall>x \<in> set (cs_waiting s). cs_heap s1 x = cs_heap s x"
    using m(2) by auto
  have f: "cs_queue s1 = cs_queue s" "cs_pending s1 = cs_pending s" "cs_pool s1 = cs_pool s"
     "cs_waiting s1 = cs_waiting s" "cs_next s1 = Suc (cs_next s)" "cs_heap s1 m = zeroAsyncResult"
    using m(2) by simp_all
  have "client_inv s1"
    using assms(1) h unfolding client_inv_def refs_ok_def f by (simp add: less_Suc_eq)
  then show ?thesis
    using n m(1) f(6) by (simp add: taken_def f(1-5) pool_ok_def zeroAsyncResult_def)
qed

lemma distinct_remove_nth:
  assumes "distinct xs" and "i < length xs"
  shows "xs ! i \<in> set xs" "xs ! i \<notin> set (take i xs)" "xs ! i \<notin> set (drop (Suc i) xs)"
        "distinct (take i xs @ drop (Suc i) xs)"
        "set (take i xs) \<subseteq> set xs" "set (drop (Suc i) xs) \<subseteq> set xs"
proof -
  have "distinct (take i xs @ xs ! i # drop (Suc i) xs)"
    using assms by (simp flip: id_take_nth_drop)
  then show "xs ! i \<notin> set (take i xs)" "xs ! i \<notin> set (drop (Suc i) xs)"
    "distinct (take i xs @ drop (Suc i) xs)" by auto
qed (use assms in \<open>auto dest: in_set_takeD in_set_dropD\<close>)

lemma inv_acquire:
  assumes "client_inv s" and "acquireAsyncResult pick s = (m, s1)"
  shows "client_inv s1 \<and> taken m s1 \<and> m \<notin> set (cs_waiting s1) \<and> pool_ok (cs_heap s1 m) \<and>
         cs_queue s1 = cs_queue s"
proof (cases "\<exists>i. pick = Some i \<and> i < length (cs_pool s)")
  case True
  then obtain i where i: "pick = Some i" "i < length (cs_pool s)" by blast
  have d: "distinct (cs_pool s)" using assms(1) by (simp add: client_inv_def refs_ok_def)
  from assms(2) i have m: "m = cs_pool s ! i"
    "s1 = s\<lparr>cs_pool := take i (cs_pool s) @ drop (Suc i) (cs_pool s)\<rparr>"
    by (auto simp: acquireAsyncResult_def)
  note rm = distinct_remove_nth [OF d i(2)]
  show ?thesis
    using assms(1) rm unfolding m by (auto simp: client_inv_def refs_ok_def taken_def)
next
  case False
  with assms have "newAsyncResult s = (m, s1)" by (auto simp: acquireAsyncResult_def split: option.splits if_splits)
  with assms(1) show ?thesis by (rule inv_new)
qed

lemma ar_upd_simps [simp]:
  "cs_queue (ar_upd m f s) = cs_queue s" "cs_pending (ar_upd m f s) = cs_pending s"
  "cs_pool (ar_upd m f s) = cs_pool s" "cs_waiting (ar_upd m f s) = cs_waiting s"
  "cs_next (ar_upd m f s) = cs_next s" "cs_count (ar_upd m f s) = cs_count s"
  "cs_heap (ar_upd m f s) m = f (cs_heap s m)"
  "x \<noteq> m \<Longrightarrow> cs_heap (ar_upd m f s) x = cs_heap s x"
  by (simp_all add: ar_upd_def)

lemma taken_upd [simp]: "taken x (ar_upd m f s) = taken x s"
  by (simp add: taken_def)

text \<open>Closing the \<open>Done\<close> channel of a taken result that is still open succeeds.\<close>

lemma inv_finish:
  assumes "client_inv s" and "taken m s" and "ar_Done (cs_heap s m) = ChOpen"
    and "\<And>r. ar_Request (f r) = ar_Request r"
    and "\<And>p. ar_Response (f (cs_heap s m)) = Some p \<Longrightarrow>
           map_option Packet_ID (ar_Request (cs_heap s m)) = Some (Packet_ID p)"
  shows "\<exists>s'. finish m f s = Inr s' \<and> client_inv s' \<and> cs_queue s' = cs_queue s \<and> cs_pending s' = cs_pending s \<and>
           cs_pool s' = cs_pool s \<and> cs_waiting s' = cs_waiting s \<and> cs_next s' = cs_next s \<and>
           (\<forall>x. x \<noteq> m \<longrightarrow> cs_heap s' x = cs_heap s x) \<and>
           cs_heap s' m = (f (cs_heap s m))\<lparr>ar_Done := ChClosed\<rparr>"
proof -
  have "client_inv (ar_upd m (\<lambda>r. (f r)\<lparr>ar_Done := ChClosed\<rparr>) s)"
    by (rule inv_upd_taken [OF assms(1,2)]) (use assms(4,5) in \<open>simp add: w_ok_def\<close>)
  then show ?thesis using assms(3) by (simp add: finish_def)
qed

lemma release_frame [simp]:
  "cs_queue (releaseAsyncResult m s) = cs_queue s" "cs_waiting (releaseAsyncResult m s) = cs_waiting s"
  "cs_pending (releaseAsyncResult m s) = cs_pending s" "cs_next (releaseAsyncResult m s) = cs_next s"
  "cs_pool (releaseAsyncResult m s) = cs_pool s @ [m]"
  by (simp_all add: releaseAsyncResult_def)

lemma release_heap: "x \<noteq> m \<Longrightarrow> cs_heap (releaseAsyncResult m s) x = cs_heap s x"
  by (simp add: releaseAsyncResult_def)

lemma waiting_not_nil:
  "client_inv s \<Longrightarrow> ar_Done (cs_heap s m) = ChNil \<Longrightarrow> m \<notin> set (cs_waiting s)"
  by (auto simp: client_inv_def refs_ok_def w_ok_def)

text \<open>Dropping the oldest queued request.\<close>

lemma inv_drop_oldest:
  assumes inv: "client_inv s" and q: "cs_queue s = mm # rest" and m: "taken m s" "m \<notin> set (cs_waiting s)"
  shows "\<exists>s'. (let s3 = s\<lparr>cs_queue := rest\<rparr>
               in if ar_Done (cs_heap s3 mm) \<noteq> ChNil then finish mm (\<lambda>r. r\<lparr>ar_Error := e\<rparr>) s3
                  else if usePool then Inr (releaseAsyncResult mm s3) else Inr s3) = Inr s' \<and>
           client_inv s' \<and> cs_queue s' = rest \<and> taken m s' \<and> cs_heap s' m = cs_heap s m \<and>
           cs_waiting s' = cs_waiting s"
proof -
  let ?s3 = "s\<lparr>cs_queue := rest\<rparr>"
  note dq = inv_dequeue [OF inv q]
  have ne: "m \<noteq> mm" and m3: "taken m ?s3" using m(1) q by (auto simp: taken_def)
  show ?thesis
  proof (cases "ar_Done (cs_heap s mm) = ChNil")
    case True
    then have "mm \<notin> set (cs_waiting ?s3)" using waiting_not_nil [OF inv] by simp
    from inv_release [OF dq(1,2) this] True dq(1) ne m3 show ?thesis
      by (auto simp: Let_def taken_def release_heap)
  next
    case False
    with dq(3) have o: "ar_Done (cs_heap ?s3 mm) = ChOpen" "ar_Response (cs_heap ?s3 mm) = None"
      by (auto simp: q_ok_def split: if_splits)
    from inv_finish [OF dq(1,2) o(1), of "\<lambda>r. r\<lparr>ar_Error := e\<rparr>"] o(2)
    obtain s' where s': "finish mm (\<lambda>r. r\<lparr>ar_Error := e\<rparr>) ?s3 = Inr s'" "client_inv s'" "cs_queue s' = rest"
      "cs_pending s' = cs_pending s" "cs_pool s' = cs_pool s" "cs_waiting s' = cs_waiting s" "cs_next s' = cs_next s"
      "cs_heap s' m = cs_heap s m"
      using ne by auto
    moreover have "taken m s'" using m3 s' by (simp add: taken_def)
    ultimately show ?thesis using False by (simp add: Let_def)
  qed
qed

lemma callAsync_ok:
  assumes inv: "client_inv s"
  shows "\<exists>r s'. callAsync cap eh req skip usePool pick s = Inr (r, s') \<and> client_inv s' \<and>
           (\<forall>m. r = Inr m \<longrightarrow> \<not> skip \<longrightarrow> m < cs_next s' \<and> m \<notin> set (cs_pool s') \<and> w_ok (cs_heap s' m))"
proof -
  obtain m s1 where a: "(if skip \<or> usePool then acquireAsyncResult pick s else newAsyncResult s) = (m, s1)"
    by fastforce
  have s1: "client_inv s1" "taken m s1" "m \<notin> set (cs_waiting s1)" "pool_ok (cs_heap s1 m)"
    using a inv_acquire [OF inv, of pick m s1] inv_new [OF inv, of m s1] by (auto split: if_splits)
  define s2 where "s2 = ar_upd m (\<lambda>r. r\<lparr>ar_Request := Some req, ar_skipResponse := skip,
                         ar_Done := (if skip then ar_Done r else ChOpen)\<rparr>) s1"
  have s2: "client_inv s2" "taken m s2" "m \<notin> set (cs_waiting s2)" "q_ok (cs_heap s2 m)"
       "\<not> skip \<Longrightarrow> w_ok (cs_heap s2 m)"
    using s1 by (auto simp: s2_def pool_ok_def q_ok_def w_ok_def intro!: inv_upd_taken)
  have enq: "client_inv (t\<lparr>cs_queue := cs_queue t @ [m]\<rparr>) \<and>
      (\<not> skip \<longrightarrow> m < cs_next t \<and> m \<notin> set (cs_pool t) \<and> w_ok (cs_heap t m))"
    if "client_inv t" "taken m t" "cs_heap t m = cs_heap s2 m" for t
    using that s2(4,5) inv_enqueue [of t m] by (auto simp: taken_def)
  have rel: "client_inv (releaseAsyncResult m t)"
    if "client_inv t" "taken m t" "cs_waiting t = cs_waiting s2" for t
    using that s2(3) inv_release by simp
  have call: "callAsync cap eh req skip usePool pick s =
     (if length (cs_queue s2) < cap then Inr (Inr m, s2\<lparr>cs_queue := cs_queue s2 @ [m]\<rparr>)
      else if skip then Inr (Inl TimeOutError, releaseAsyncResult m s2)
      else go_bind
             (case cs_queue s2 of
                [] \<Rightarrow> Inr s2
              | mm # rest \<Rightarrow>
                  (let s3 = s2\<lparr>cs_queue := rest\<rparr>
                   in if ar_Done (cs_heap s3 mm) \<noteq> ChNil
                      then finish mm (\<lambda>r. r\<lparr>ar_Error := Some (errMsg (eh OverflowError))\<rparr>) s3
                      else if skip \<or> usePool then Inr (releaseAsyncResult mm s3) else Inr s3))
             (\<lambda>s4. if length (cs_queue s4) < cap
                   then Inr (Inr m, s4\<lparr>cs_queue := cs_queue s4 @ [m]\<rparr>)
                   else Inr (Inl OverflowError, if skip \<or> usePool then releaseAsyncResult m s4 else s4)))"
    unfolding callAsync_def Let_def a s2_def by simp
  obtain s4 where s4: "(case cs_queue s2 of
                [] \<Rightarrow> Inr s2
              | mm # rest \<Rightarrow>
                  (let s3 = s2\<lparr>cs_queue := rest\<rparr>
                   in if ar_Done (cs_heap s3 mm) \<noteq> ChNil
                      then finish mm (\<lambda>r. r\<lparr>ar_Error := Some (errMsg (eh OverflowError))\<rparr>) s3
                      else if skip \<or> usePool then Inr (releaseAsyncResult mm s3) else Inr s3)) = Inr s4"
      "client_inv s4" "taken m s4" "cs_heap s4 m = cs_heap s2 m" "cs_waiting s4 = cs_waiting s2"
  proof (cases "cs_queue s2")
    case Nil
    with s2 that show ?thesis by simp
  next
    case (Cons mm rest)
    from inv_drop_oldest [OF s2(1) Cons s2(2,3)] that Cons show ?thesis by fastforce
  qed
  show ?thesis
    unfolding call s4(1)
    using enq [OF s2(1,2) refl] rel [OF s2(1,2) refl] enq [OF s4(2,3,4)] rel [OF s4(2,3,5)] s4(2)
    by (auto simp: Let_def)
qed

text \<open>The clean-up changes nothing but the counter and, at most, the entry of the current request.\<close>

lemma al_del_idem [simp]: "al_del k (al_del k xs) = al_del k xs"
  by (simp add: al_del_def)

lemma cleanup_effect:
  "(\<exists>n. cleanup key es s = s\<lparr>cs_count := n\<rparr>) \<or>
   (\<exists>n. cleanup key es s = s\<lparr>cs_pending := al_del key (cs_pending s), cs_count := n\<rparr>)"
proof (induction key es s rule: cleanup.induct)
  case (1 key s)
  show ?case by (rule disjI1) (intro exI [of _ "cs_count s"], simp)
next
  case (2 key k m es s)
  show ?case
  proof (cases "k \<in> fst ` set (cs_pending s)")
    case True
    with 2(1) [OF True refl] show ?thesis
      by (cases "ar_canceled (cs_heap s m)") (simp_all add: Let_def)
  next
    case False
    with 2(2) [OF False] show ?thesis by simp
  qed
qed

lemma inv_sub_pending:
  assumes inv: "client_inv s" and sub: "set P \<subseteq> set (cs_pending s)"
    and d: "distinct (map fst P)" "distinct (map snd P)"
  shows "client_inv (s\<lparr>cs_pending := P, cs_count := n\<rparr>)"
proof -
  have "snd ` set P \<subseteq> snd ` set (cs_pending s)" using sub by blast
  then have "refs_ok (set (cs_queue s)) (snd ` set P) (set (cs_pool s)) (set (cs_waiting s)) (cs_next s)"
    using inv refs_ok_sub unfolding client_inv_def by blast
  moreover have "\<forall>e \<in> set P. p_ok (fst e) (cs_heap s (snd e))"
    using inv sub unfolding client_inv_def by blast
  ultimately show ?thesis using inv d by (simp add: client_inv_def)
qed

lemma inv_al_del:
  assumes "client_inv s"
  shows "client_inv (s\<lparr>cs_pending := al_del k (cs_pending s), cs_count := n\<rparr>)"
  by (rule inv_sub_pending [OF assms set_al_del])
     (use assms in \<open>simp_all add: client_inv_def distinct_al_del distinct_snd_al_del\<close>)

lemma inv_count: "client_inv (s\<lparr>cs_count := n\<rparr>) = client_inv s"
  by (simp add: client_inv_def)

lemma inv_sent: "client_inv (s\<lparr>cs_sent := x\<rparr>) = client_inv s"
  by (simp add: client_inv_def)

lemma inv_add_pending:
  assumes inv: "client_inv s" and m: "taken m s" and ok: "p_ok k (cs_heap s m)"
  shows "client_inv (s\<lparr>cs_pending := al_set k m (cs_pending s), cs_count := n\<rparr>)"
proof -
  have "m \<notin> snd ` set (cs_pending s)" using m by (simp add: taken_def)
  then have d: "distinct (map fst (al_set k m (cs_pending s)))" "distinct (map snd (al_set k m (cs_pending s)))"
    using inv by (simp_all add: client_inv_def distinct_al_set distinct_snd_al_set)
  have "\<forall>e \<in> set (al_set k m (cs_pending s)). p_ok (fst e) (cs_heap s (snd e))"
    using inv ok by (auto simp: client_inv_def dest!: set_al_set)
  moreover have "refs_ok (set (cs_queue s)) (snd ` set (al_set k m (cs_pending s))) (set (cs_pool s))
      (set (cs_waiting s)) (cs_next s)"
    by (rule refs_ok_add [OF _ snd_al_set]) (use inv m in \<open>auto simp: client_inv_def taken_def\<close>)
  ultimately show ?thesis using inv d by (simp add: client_inv_def)
qed

lemma writer_take_ok:
  assumes inv: "client_inv s" and m: "taken m s" and q: "q_ok (cs_heap s m)"
  shows "\<exists>r s'. writer_take P c order err m s = Inr (r, s') \<and> client_inv s'"
proof (cases "ar_canceled (cs_heap s m)")
  case True
  show ?thesis
  proof (cases "ar_Done (cs_heap s m) = ChNil")
    case nil: True
    from inv_release [OF inv m waiting_not_nil [OF inv nil]] True nil show ?thesis
      by (simp add: writer_take_def Let_def)
  next
    case False
    with q have "ar_Done (cs_heap s m) = ChOpen" "ar_Response (cs_heap s m) = None"
      by (auto simp: q_ok_def split: if_splits)
    with inv_finish [OF inv m, of "\<lambda>r. r\<lparr>ar_Error := Some ''canceled error''\<rparr>"] True show ?thesis
      by (auto simp: writer_take_def Let_def)
  qed
next
  case False
  from q obtain req where req: "ar_Request (cs_heap s m) = Some req" by (auto simp: q_ok_def)
  let ?k = "(c, Packet_ID req)"
  let ?s1 = "s\<lparr>cs_pending := al_set ?k m (cs_pending s), cs_count := cs_count s + 1\<rparr>"
  show ?thesis
  proof (cases "ar_skipResponse (cs_heap s m)")
    case True
    with False req inv show ?thesis by (simp add: writer_take_def Let_def inv_sent)
  next
    case noskip: False
    with q req have "p_ok ?k (cs_heap s m)" by (simp add: q_ok_def p_ok_def)
    from inv_add_pending [OF inv m this] have s1: "client_inv ?s1" .
    have s2: "client_inv (cleanup ?k order ?s1)"
      using cleanup_effect [of ?k order ?s1] inv_al_del [OF s1, where k = ?k] s1
        inv_count [where s = ?s1] by auto
    show ?thesis
      using False req noskip s1 s2 by (simp add: writer_take_def Let_def inv_sent)
  qed
qed

lemma clientWriter_next_ok:
  assumes "client_inv s"
  shows "\<exists>r s'. clientWriter_next P c order err s = Inr (r, s') \<and> client_inv s'"
proof (cases "cs_queue s")
  case Nil
  with assms show ?thesis by (simp add: clientWriter_next_def)
next
  case (Cons m rest)
  from writer_take_ok [OF inv_dequeue(1,2) [OF assms Cons]] inv_dequeue(3) [OF assms Cons] Cons
  show ?thesis by (simp add: clientWriter_next_def)
qed

text \<open>Removing entries from the pending maps frees their results.\<close>

lemma inv_take_pending:
  assumes inv: "client_inv s" and e: "(k, m) \<in> set (cs_pending s)" and f: "\<not> P (k, m)"
  shows "p_ok k (cs_heap s m)" "taken m (s\<lparr>cs_pending := filter P (cs_pending s), cs_count := n\<rparr>)"
proof -
  show "p_ok k (cs_heap s m)" using inv e unfolding client_inv_def by fastforce
  have d: "distinct (map snd (cs_pending s))" using inv by (simp add: client_inv_def)
  have "m \<notin> snd ` set (filter P (cs_pending s))"
  proof
    assume "m \<in> snd ` set (filter P (cs_pending s))"
    then obtain e' where e': "e' \<in> set (cs_pending s)" "P e'" "snd e' = m" by auto
    from d have "inj_on snd (set (cs_pending s))" by (simp add: distinct_map)
    from inj_onD [OF this _ e'(1) e] e'(3) have "e' = (k, m)" by simp
    with e'(2) f show False by simp
  qed
  moreover have "m \<in> snd ` set (cs_pending s)" using e by force
  ultimately show "taken m (s\<lparr>cs_pending := filter P (cs_pending s), cs_count := n\<rparr>)"
    using inv unfolding client_inv_def refs_ok_def taken_def by auto
qed

lemma inv_filter_pending:
  assumes "client_inv s"
  shows "client_inv (s\<lparr>cs_pending := filter P (cs_pending s), cs_count := n\<rparr>)"
  by (rule inv_sub_pending [OF assms])
     (use assms in \<open>auto simp: client_inv_def intro: distinct_map_filter'\<close>)

lemma clientReader_packet_ok:
  assumes inv: "client_inv s"
  shows "\<exists>s'. clientReader_packet c packet s = Inr s' \<and> client_inv s'"
proof (cases "map_of (cs_pending s) (c, Packet_ID packet)")
  case None
  with inv show ?thesis by (simp add: clientReader_packet_def)
next
  case (Some m)
  let ?k = "(c, Packet_ID packet)"
  let ?s1 = "s\<lparr>cs_pending := filter (\<lambda>e. fst e \<noteq> ?k) (cs_pending s), cs_count := cs_count s - 1\<rparr>"
  have mem: "(?k, m) \<in> set (cs_pending s)" using Some by (rule map_of_SomeD)
  note t = inv_take_pending [OF inv mem, of "\<lambda>e. fst e \<noteq> ?k"]
  from inv_finish [OF inv_filter_pending [OF inv] t(2), where f = "\<lambda>r. r\<lparr>ar_Response := Some packet\<rparr>"
      and n1 = "cs_count s - 1"] t(1) Some
  show ?thesis by (auto simp: clientReader_packet_def p_ok_def al_del_def)
qed

lemma finish_pending:
  "finish m f (s\<lparr>cs_pending := P\<rparr>) = go_bind (finish m f s) (\<lambda>s'. Inr (s'\<lparr>cs_pending := P\<rparr>))"
  by (cases "ar_Done (cs_heap s m)") (simp_all add: finish_def ar_upd_def)

lemma close_pending_commute:
  "close_pending err ms (s\<lparr>cs_pending := P\<rparr>) = go_bind (close_pending err ms s) (\<lambda>s'. Inr (s'\<lparr>cs_pending := P\<rparr>))"
proof (induction ms arbitrary: s)
  case (Cons m ms)
  let ?s1 = "s\<lparr>cs_count := cs_count s - 1\<rparr>"
  have c: "s\<lparr>cs_pending := P, cs_count := n\<rparr> = s\<lparr>cs_count := n, cs_pending := P\<rparr>" for n by simp
  show ?case
  proof (cases "ar_Done (cs_heap s m) = ChNil")
    case True
    have "ar_upd m f (?s1\<lparr>cs_pending := P\<rparr>) = (ar_upd m f ?s1)\<lparr>cs_pending := P\<rparr>" for f
      by (simp add: ar_upd_def)
    with True Cons.IH show ?thesis by (simp add: Let_def c)
  next
    case False
    with Cons.IH show ?thesis
      by (cases "finish m (\<lambda>r. r\<lparr>ar_Error := err\<rparr>) ?s1")
         (simp_all add: Let_def c finish_pending)
  qed
qed simp

lemma close_pending_frame:
  "close_pending err ms s = Inr s' \<Longrightarrow> cs_pending s' = cs_pending s"
  by (induction ms arbitrary: s) (auto simp: Let_def finish_def ar_upd_def split: if_splits)

lemma close_pending_ok:
  "client_inv s \<Longrightarrow> distinct ms \<Longrightarrow> \<forall>m \<in> set ms. taken m s \<and> ar_Done (cs_heap s m) = ChOpen \<and> ar_Response (cs_heap s m) = None \<Longrightarrow>
   \<exists>s'. close_pending err ms s = Inr s' \<and> client_inv s'"
proof (induction ms arbitrary: s)
  case (Cons m ms)
  let ?s1 = "s\<lparr>cs_count := cs_count s - 1\<rparr>"
  have s1: "client_inv ?s1" "taken m ?s1" "ar_Done (cs_heap ?s1 m) = ChOpen" "ar_Response (cs_heap ?s1 m) = None"
    using Cons.prems by (simp_all add: inv_count taken_def)
  from inv_finish [OF s1(1-3), of "\<lambda>r. r\<lparr>ar_Error := err\<rparr>"] s1(4)
  obtain t where t: "finish m (\<lambda>r. r\<lparr>ar_Error := err\<rparr>) ?s1 = Inr t" "client_inv t" "cs_queue t = cs_queue s"
    "cs_pending t = cs_pending s" "cs_pool t = cs_pool s" "cs_next t = cs_next s"
    "\<And>x. x \<noteq> m \<Longrightarrow> cs_heap t x = cs_heap s x" by auto
  have "x \<noteq> m" if "x \<in> set ms" for x using Cons.prems(2) that by auto
  then have "\<forall>x \<in> set ms. cs_heap t x = cs_heap s x" using t(7) by blast
  then have "\<forall>x \<in> set ms. taken x t \<and> ar_Done (cs_heap t x) = ChOpen \<and> ar_Response (cs_heap t x) = None"
    using Cons.prems(3) t(3-6) by (simp add: taken_def)
  from Cons.IH [OF t(2) _ this] Cons.prems(2) t(1) s1(3) show ?case by (simp add: Let_def)
qed simp

lemma close_pending_result:
  assumes "close_pending err ms s = Inr s'" and "\<forall>x \<in> set ms. ar_Done (cs_heap s x) = ChOpen \<and> ar_Response (cs_heap s x) = None"
    and "m \<in> set ms" and "distinct ms"
  shows "ar_Done (cs_heap s' m) = ChClosed \<and> ar_Error (cs_heap s' m) = err \<and> ar_Response (cs_heap s' m) = None"
proof -
  have closed: "close_pending err ms s = Inr s' \<Longrightarrow> ar_Done (cs_heap s x) = ChClosed \<Longrightarrow> cs_heap s' x = cs_heap s x" for ms s x
  proof (induction ms arbitrary: s)
    case (Cons a ms)
    let ?s1 = "s\<lparr>cs_count := cs_count s - 1\<rparr>"
    from Cons.prems have "x \<noteq> a" by (auto simp: Let_def finish_def split: if_splits)
    moreover obtain f where "close_pending err ms (ar_upd a f ?s1) = Inr s'"
      using Cons.prems(1) by (auto simp: Let_def finish_def split: if_splits)
    ultimately show ?case using Cons.IH [of "ar_upd a f ?s1"] Cons.prems(2) by simp
  qed simp
  show ?thesis
    using assms
  proof (induction ms arbitrary: s)
    case (Cons y ms)
    let ?t = "ar_upd y (\<lambda>r. (r\<lparr>ar_Error := err\<rparr>)\<lparr>ar_Done := ChClosed\<rparr>) (s\<lparr>cs_count := cs_count s - 1\<rparr>)"
    have t: "close_pending err ms ?t = Inr s'" using Cons.prems(1,2) by (simp add: Let_def finish_def)
    show ?case
    proof (cases "m = y")
      case True
      with Cons.prems(2) closed [OF t, of y] show ?thesis by simp
    next
      case False
      with Cons.prems have "\<forall>x \<in> set ms. ar_Done (cs_heap ?t x) = ChOpen \<and> ar_Response (cs_heap ?t x) = None"
        "m \<in> set ms" "distinct ms" by (auto simp: ar_upd_def)
      from Cons.IH [OF t this] show ?thesis .
    qed
  qed simp
qed

lemma clientHandleConnection_end_ok:
  assumes inv: "client_inv s"
  shows "\<exists>s'. clientHandleConnection_end c err s = Inr s' \<and> client_inv s'"
proof -
  let ?P = "filter (\<lambda>e. fst (fst e) \<noteq> c) (cs_pending s)"
  let ?ms = "map snd (pending_of c s)"
  have inv': "client_inv (s\<lparr>cs_pending := ?P\<rparr>)"
    using inv_filter_pending [OF inv, where P = "\<lambda>e. fst (fst e) \<noteq> c" and n = "cs_count s"] by simp
  have "\<forall>m \<in> set ?ms. taken m (s\<lparr>cs_pending := ?P\<rparr>) \<and> ar_Done (cs_heap s m) = ChOpen \<and> ar_Response (cs_heap s m) = None"
  proof
    fix m assume "m \<in> set ?ms"
    then obtain k where k: "(k, m) \<in> set (cs_pending s)" "fst k = c" by (auto simp: pending_of_def)
    from inv_take_pending(1) [OF inv k(1), where P = "\<lambda>e. fst (fst e) \<noteq> c"]
      inv_take_pending(2) [OF inv k(1), where P = "\<lambda>e. fst (fst e) \<noteq> c" and n = "cs_count s"] k(2)
    show "taken m (s\<lparr>cs_pending := ?P\<rparr>) \<and> ar_Done (cs_heap s m) = ChOpen \<and> ar_Response (cs_heap s m) = None"
      by (simp add: p_ok_def)
  qed
  moreover have "distinct ?ms" using inv by (simp add: client_inv_def pending_of_def distinct_map_filter')
  ultimately obtain t where t: "close_pending err ?ms (s\<lparr>cs_pending := ?P\<rparr>) = Inr t" "client_inv t"
    using close_pending_ok [OF inv', of ?ms err] by auto
  then obtain s' where "close_pending err ?ms s = Inr s'" "t = s'\<lparr>cs_pending := ?P\<rparr>"
    by (auto simp: close_pending_commute)
  with t(2) close_pending_frame [of err ?ms s s'] show ?thesis
    by (simp add: clientHandleConnection_end_def)
qed

lemma inv_waiting_sub:
  "client_inv s \<Longrightarrow> set W \<subseteq> set (cs_waiting s) \<Longrightarrow> client_inv (s\<lparr>cs_waiting := W\<rparr>)"
  by (auto simp: client_inv_def elim: refs_ok_waiting)

lemma closed_taken:
  assumes "client_inv s" and "m \<in> set (cs_waiting s)" and "ar_Done (cs_heap s m) = ChClosed"
  shows "taken m s"
proof -
  have "m \<notin> set (cs_queue s)" using assms by (auto simp: client_inv_def q_ok_def split: if_splits)
  moreover have "m \<notin> snd ` set (cs_pending s)" using assms by (auto simp: client_inv_def p_ok_def)
  moreover have "m \<notin> set (cs_pool s)" "m < cs_next s"
    using assms by (auto simp: client_inv_def refs_ok_def)
  ultimately show ?thesis by (simp add: taken_def)
qed

text \<open>No action of any thread panics, and every action keeps the invariant.\<close>

lemma client_do_ok:
  assumes inv: "client_inv s" and en: "client_enabled a s"
  shows "\<exists>s'. client_do cap eh a s = Inr s' \<and> client_inv s'"
proof (cases a)
  case (ACall req pick)
  from callAsync_ok [OF inv, of cap eh req False True pick] obtain r s' where
    r: "callAsync cap eh req False True pick s = Inr (r, s')" "client_inv s'"
       "\<forall>m. r = Inr m \<longrightarrow> m < cs_next s' \<and> m \<notin> set (cs_pool s') \<and> w_ok (cs_heap s' m)" by auto
  have "client_inv (s'\<lparr>cs_waiting := cs_waiting s' @ [m]\<rparr>)" if "r = Inr m" for m
    using r(2,3) that unfolding client_inv_def refs_ok_def by auto
  with r ACall show ?thesis by (auto simp: client_do_def split: sum.splits)
next
  case (AAsync req skip pick)
  with callAsync_ok [OF inv, of cap eh req skip False pick] show ?thesis by (auto simp: client_do_def)
next
  case (AWrite c order err)
  with clientWriter_next_ok [OF inv, of "int cap" c order err] show ?thesis by (auto simp: client_do_def)
next
  case (ARead c packet)
  with clientReader_packet_ok [OF inv] show ?thesis by (simp add: client_do_def)
next
  case (AClose c err)
  with clientHandleConnection_end_ok [OF inv] show ?thesis by (simp add: client_do_def)
next
  case (ACollect m)
  then have w: "m \<in> set (cs_waiting s)" "ar_Done (cs_heap s m) = ChClosed" using en by (auto simp: client_enabled_def)
  let ?t = "s\<lparr>cs_waiting := removeAll m (cs_waiting s)\<rparr>"
  have "client_inv ?t" by (rule inv_waiting_sub [OF inv]) auto
  moreover have "taken m ?t" using closed_taken [OF inv w] by (simp add: taken_def)
  ultimately have "client_inv (releaseAsyncResult m ?t)" by (rule inv_release) simp
  moreover have "snd (snd (call_done m eh s)) = releaseAsyncResult m s"
    by (simp add: call_done_def Let_def CodeError_SetMsg_def split: option.splits)
  moreover have "(releaseAsyncResult m s)\<lparr>cs_waiting := W\<rparr> = releaseAsyncResult m (s\<lparr>cs_waiting := W\<rparr>)" for W
    by (simp add: releaseAsyncResult_def ar_upd_def)
  ultimately show ?thesis using ACollect by (simp add: client_do_def)
next
  case (ATimeout m)
  have "client_inv (AsyncResult_Cancel m s)"
    using inv unfolding client_inv_def AsyncResult_Cancel_def ar_upd_def by auto
  from inv_waiting_sub [OF this, of "removeAll m (cs_waiting s)"] ATimeout show ?thesis
    by (auto simp: client_do_def AsyncResult_Cancel_def)
qed

abbreviation client_steps where
  "client_steps cap eh \<equiv> (client_step cap eh)\<^sup>*\<^sup>*"

lemma client_inv_reach: "client_steps cap eh cs_init s \<Longrightarrow> client_inv s"
proof (induction rule: rtranclp_induct)
  case (step s s')
  then obtain a where "client_enabled a s" "client_do cap eh a s = Inr s'" by (auto elim: client_step.cases)
  with client_do_ok [OF step.IH, of a cap eh] show ?case by auto
qed (rule client_inv_init)

section \<open>Starting and stopping\<close>

text \<open>
  \<open>Client.Stop\<close> against the handlers started by \<open>Client.Start\<close>.  Every handler, when it returns,
  runs \<open>stopWg.Done()\<close> and then \<open>Stop()\<close> itself; the user may call \<open>Stop()\<close> too.  A stopper takes
  \<open>stopLock\<close>, closes the channel (a nil channel is only logged before), waits for the handlers and
  sets the channel to nil.
\<close>

datatype stopper = Running | Exiting | Waiting | Stopped

record life =
  lf_chan :: chan_state
  lf_locked :: bool
  lf_user :: stopper
  lf_handlers :: "stopper list"
  lf_panic :: "go_panic option"

definition hcount :: "stopper \<Rightarrow> life \<Rightarrow> nat" where
  "hcount p s = length (filter (\<lambda>h. h = p) (lf_handlers s))"

definition life_wg :: "life \<Rightarrow> nat" where
  "life_wg s = hcount Running s"

text \<open>\<open>Start\<close> launches \<open>Conns\<close> handlers; the user thread is about to call \<open>Stop\<close> (or never does).\<close>

definition life_start :: "nat \<Rightarrow> life" where
  "life_start conns = \<lparr>lf_chan = ChOpen, lf_locked = False, lf_user = Exiting,
     lf_handlers = replicate conns Running, lf_panic = None\<rparr>"

inductive life_step :: "life \<Rightarrow> life \<Rightarrow> bool" where
  handler_returns:
    "\<lbrakk>lf_panic s = None; i < length (lf_handlers s); lf_handlers s ! i = Running\<rbrakk> \<Longrightarrow>
     life_step s (s\<lparr>lf_handlers := (lf_handlers s)[i := Exiting]\<rparr>)"
| handler_stop:
    "\<lbrakk>lf_panic s = None; i < length (lf_handlers s); lf_handlers s ! i = Exiting; \<not> lf_locked s;
      chan_close (lf_chan s) = Inr c\<rbrakk> \<Longrightarrow>
     life_step s (s\<lparr>lf_chan := c, lf_locked := True, lf_handlers := (lf_handlers s)[i := Waiting]\<rparr>)"
| handler_stop_panic:
    "\<lbrakk>lf_panic s = None; i < length (lf_handlers s); lf_handlers s ! i = Exiting; \<not> lf_locked s;
      chan_close (lf_chan s) = Inl p\<rbrakk> \<Longrightarrow> life_step s (s\<lparr>lf_panic := Some p\<rparr>)"
| handler_stopped:
    "\<lbrakk>lf_panic s = None; i < length (lf_handlers s); lf_handlers s ! i = Waiting; life_wg s = 0\<rbrakk> \<Longrightarrow>
     life_step s (s\<lparr>lf_chan := ChNil, lf_locked := False, lf_handlers := (lf_handlers s)[i := Stopped]\<rparr>)"
| user_stop:
    "\<lbrakk>lf_panic s = None; lf_user s = Exiting; \<not> lf_locked s; chan_close (lf_chan s) = Inr c\<rbrakk> \<Longrightarrow>
     life_step s (s\<lparr>lf_chan := c, lf_locked := True, lf_user := Waiting\<rparr>)"
| user_stop_panic:
    "\<lbrakk>lf_panic s = None; lf_user s = Exiting; \<not> lf_locked s; chan_close (lf_chan s) = Inl p\<rbrakk> \<Longrightarrow>
     life_step s (s\<lparr>lf_panic := Some p\<rparr>)"
| user_stopped:
    "\<lbrakk>lf_panic s = None; lf_user s = Waiting; life_wg s = 0\<rbrakk> \<Longrightarrow>
     life_step s (s\<lparr>lf_chan := ChNil, lf_locked := False, lf_user := Stopped\<rparr>)"

inductive_cases life_stepE: "life_step s s'"

text \<open>The number of threads in a given phase, the user included.\<close>

definition phase_count :: "stopper \<Rightarrow> life \<Rightarrow> nat" where
  "phase_count p s = hcount p s + (if lf_user s = p then 1 else 0)"

definition life_inv :: "life \<Rightarrow> bool" where
  "life_inv s =
     (lf_user s \<noteq> Running \<and> lf_locked s = (lf_chan s = ChClosed) \<and>
      phase_count Waiting s = (if lf_chan s = ChClosed then 1 else 0) \<and>
      phase_count Stopped s = (if lf_chan s = ChNil then 1 else 0) \<and>
      (lf_chan s = ChNil \<longrightarrow> life_wg s = 0))"

lemma filter_len_update:
  "i < length xs \<Longrightarrow> length (filter (\<lambda>h. h = p) (xs[i := b])) + (if xs ! i = p then 1 else 0) =
   length (filter (\<lambda>h. h = p) xs) + (if b = p then 1 else 0)"
proof (induction xs arbitrary: i)
  case (Cons x xs)
  show ?case
  proof (cases i)
    case (Suc j)
    with Cons.IH [of j] Cons.prems show ?thesis by auto
  qed (use Cons in auto)
qed simp

lemma hcount_update:
  assumes "i < length (lf_handlers s)" and "lf_handlers s ! i = a" and "lf_handlers s' = (lf_handlers s)[i := b]"
  shows "hcount p s' + (if a = p then 1 else 0) = hcount p s + (if b = p then 1 else 0)"
  using filter_len_update [OF assms(1), of p b] assms(2,3) by (simp add: hcount_def)

lemma hcount_pos: "i < length (lf_handlers s) \<Longrightarrow> lf_handlers s ! i = p \<Longrightarrow> 0 < hcount p s"
  by (force simp: hcount_def filter_empty_conv)

lemma hcount_total:
  "length (lf_handlers s) = hcount Running s + hcount Exiting s + hcount Waiting s + hcount Stopped s"
proof -
  have "length xs = length (filter (\<lambda>h. h = Running) xs) + length (filter (\<lambda>h. h = Exiting) xs) +
      length (filter (\<lambda>h. h = Waiting) xs) + length (filter (\<lambda>h. h = Stopped) xs)" for xs
  proof (induction xs)
    case (Cons x xs)
    then show ?case by (cases x) auto
  qed simp
  then show ?thesis unfolding hcount_def .
qed

lemma hcount_move:
  assumes "i < length (lf_handlers s)" and "lf_handlers s ! i = a" and "lf_handlers s' = (lf_handlers s)[i := b]"
    and "a \<noteq> b"
  shows "hcount p s' = (if p = b then Suc (hcount p s) else if p = a then hcount p s - 1 else hcount p s)"
  using hcount_update [OF assms(1-3), of p] assms(4) by (auto split: if_splits)

lemma hcount_frame [simp]:
  "hcount p (s\<lparr>lf_chan := c\<rparr>) = hcount p s" "hcount p (s\<lparr>lf_locked := l\<rparr>) = hcount p s"
  "hcount p (s\<lparr>lf_user := u\<rparr>) = hcount p s" "hcount p (s\<lparr>lf_panic := x\<rparr>) = hcount p s"
  by (simp_all add: hcount_def)

lemma life_inv_step:
  assumes "life_step s s'" and inv: "life_inv s" shows "life_inv s'"
  using assms(1)
proof cases
  case (handler_returns i)
  have "hcount p s' = (if p = Exiting then Suc (hcount p s) else if p = Running then hcount p s - 1 else hcount p s)" for p
    by (rule hcount_move [OF handler_returns(3,4)]) (simp_all add: handler_returns(1))
  with inv handler_returns(1) show ?thesis by (simp add: life_inv_def phase_count_def life_wg_def)
next
  case (handler_stop i c)
  have "hcount p s' = (if p = Waiting then Suc (hcount p s) else if p = Exiting then hcount p s - 1 else hcount p s)" for p
    by (rule hcount_move [OF handler_stop(3,4)]) (simp_all add: handler_stop(1))
  with inv handler_stop show ?thesis
    by (auto simp: life_inv_def phase_count_def life_wg_def chan_close_Inr split: if_splits)
next
  case (handler_stopped i)
  have "hcount p s' = (if p = Stopped then Suc (hcount p s) else if p = Waiting then hcount p s - 1 else hcount p s)" for p
    by (rule hcount_move [OF handler_stopped(3,4)]) (simp_all add: handler_stopped(1))
  moreover from hcount_pos [OF handler_stopped(3,4)] inv have "lf_chan s = ChClosed" "hcount Waiting s = 1" "lf_user s \<noteq> Waiting"
    by (auto simp: life_inv_def phase_count_def split: if_splits)
  ultimately show ?thesis
    using inv handler_stopped by (auto simp: life_inv_def phase_count_def life_wg_def split: if_splits)
next
  case (user_stop c)
  with inv show ?thesis by (simp add: life_inv_def phase_count_def life_wg_def chan_close_Inr)
next
  case user_stopped
  with inv show ?thesis by (auto simp: life_inv_def phase_count_def life_wg_def split: if_splits)
qed (use inv in \<open>simp_all add: life_inv_def phase_count_def life_wg_def\<close>)

lemma life_inv_reach: "life_step\<^sup>*\<^sup>* (life_start n) s \<Longrightarrow> life_inv s \<and> length (lf_handlers s) = n"
proof (induction rule: rtranclp_induct)
  case base
  show ?case by (simp add: life_inv_def life_start_def phase_count_def hcount_def)
next
  case (step s s')
  then show ?case by (auto intro: life_inv_step elim: life_stepE)
qed

lemma ok_reach_step: "client_steps cap eh cs_init s \<Longrightarrow> client_enabled a s \<Longrightarrow> client_do cap eh a s = Inr s' \<Longrightarrow>
   client_steps cap eh cs_init s'"
  by (meson client_act rtranclp.rtrancl_into_rtrancl)

text \<open>The retry loop after \<open>k\<close> timed-out attempts.\<close>

definition timed_out :: "attempt \<Rightarrow> bool" where
  "timed_out a = (a = TimedOut \<or> (\<exists>rsp. a = Answered rsp (Some TimeOutError)))"

definition attempt_result :: "attempt \<Rightarrow> Packet option \<times> errptr option" where
  "attempt_result a =
     (case a of NotQueued e \<Rightarrow> (None, Some e) | Answered rsp e \<Rightarrow> (rsp, e) | TimedOut \<Rightarrow> (None, Some TimeOutError))"

lemma CallTimeout_loop_unfold:
  "codes_ok eh \<Longrightarrow>
   CallTimeout_loop (Suc fuel) eh attempt retryNum tryNum k =
     (if timed_out (attempt k) \<and> tryNum + 1 \<le> retryNum
      then CallTimeout_loop fuel eh attempt retryNum (tryNum + 1) (k + 1)
      else Some (attempt_result (attempt k), k + 1))"
  by (auto simp: timed_out_def attempt_result_def codes_ok_inj split: attempt.splits)

lemma CallTimeout_loop_bound:
  assumes "codes_ok eh" and "unat retryNum + 1 < 2 ^ 32" and "k \<le> unat retryNum" and "fuel = unat retryNum + 1 - k"
  shows "\<exists>n. CallTimeout_loop fuel eh attempt retryNum (of_nat k) k = Some (attempt_result (attempt n), n + 1) \<and>
           k \<le> n \<and> n \<le> unat retryNum \<and> (\<forall>j. k \<le> j \<and> j < n \<longrightarrow> timed_out (attempt j)) \<and>
           (timed_out (attempt n) \<longrightarrow> n = unat retryNum)"
  using assms(3,4)
proof (induction "unat retryNum - k" arbitrary: k fuel)
  case 0
  then have k: "k = unat retryNum" "fuel = Suc 0" by auto
  have "unat (of_nat (k + 1) :: uint32) = k + 1" using assms(2) k(1) by (intro unat_of_nat32) simp
  then have "\<not> (of_nat k + 1 :: uint32) \<le> retryNum"
    using k(1) by (simp add: word_le_nat_alt add.commute)
  with k assms(1) show ?case
    by (intro exI [of _ k]) (auto simp: CallTimeout_loop_unfold simp del: CallTimeout_loop.simps)
next
  case (Suc d)
  then obtain f where f: "fuel = Suc f" "f = unat retryNum + 1 - (k + 1)" by (cases fuel) auto
  have "unat (of_nat (k + 1) :: uint32) = k + 1"
    using Suc.hyps(2) assms(2) by (intro unat_of_nat32) simp
  then have le: "(of_nat k + 1 :: uint32) = of_nat (k + 1)" "(of_nat (k + 1) :: uint32) \<le> retryNum"
    using Suc.hyps(2) by (simp_all add: word_le_nat_alt add.commute)
  show ?case
  proof (cases "timed_out (attempt k)")
    case False
    with f(1) assms(1) Suc.prems show ?thesis
      by (intro exI [of _ k]) (auto simp: CallTimeout_loop_unfold simp del: CallTimeout_loop.simps)
  next
    case True
    have "d = unat retryNum - (k + 1)" "k + 1 \<le> unat retryNum" using Suc.hyps(2) by auto
    from Suc.hyps(1) [OF this f(2)] obtain n where
      n: "CallTimeout_loop f eh attempt retryNum (of_nat (k + 1)) (k + 1) = Some (attempt_result (attempt n), n + 1)"
         "k + 1 \<le> n" "n \<le> unat retryNum" "\<forall>j. k + 1 \<le> j \<and> j < n \<longrightarrow> timed_out (attempt j)"
         "timed_out (attempt n) \<longrightarrow> n = unat retryNum" by blast
    have "\<forall>j. k \<le> j \<and> j < n \<longrightarrow> timed_out (attempt j)"
      using n(4) True by (metis Suc_eq_plus1 le_neq_implies_less not_less_eq_eq not_le)
    moreover have "CallTimeout_loop fuel eh attempt retryNum (of_nat k) k = Some (attempt_result (attempt n), n + 1)"
      using n(1) True le f(1)
      by (simp add: CallTimeout_loop_unfold [OF assms(1)] add.commute [of "of_nat k"] del: CallTimeout_loop.simps)
    ultimately show ?thesis using n by auto
  qed
qed

section \<open>Properties\<close>

text \<open>
  C16. No interleaving of callers, writers, readers, time-outs and closing connections makes the
  client panic: in every reachable state every enabled action succeeds, so that no \<open>Done\<close> channel is
  ever closed twice or closed while nil, although results are recycled through a pool.
\<close>

theorem client_never_panics:
  assumes "client_steps cap eh cs_init s" and "client_enabled a s"
  shows "\<exists>s'. client_do cap eh a s = Inr s' \<and> client_steps cap eh cs_init s'"
  using client_do_ok [OF client_inv_reach [OF assms(1)] assms(2), of cap eh] ok_reach_step [OF assms] by blast

theorem client_never_panics_witness:
  "\<exists>s'. client_do 1 init_errors (ACall (PRpc (NewRpcPacketWithSeq 7 (Some [1]) 3)) None) cs_init = Inr s' \<and>
        client_steps 1 init_errors cs_init s'"
  by (rule client_never_panics) (simp_all add: client_enabled_def)

text \<open>
  C17. A caller of \<open>CallTimeout\<close> gets the response to its own request: whatever the interleaving,
  when its result is done and carries a packet, the packet has the sequence number of the request
  the caller sent.
\<close>

theorem client_response_matches:
  assumes "client_steps cap eh cs_init s" and "client_enabled (ACollect m) s"
    and "call_done m eh s = ((Some p, e), rest)"
  shows "\<exists>req. ar_Request (cs_heap s m) = Some req \<and> Packet_ID p = Packet_ID req"
proof -
  have "w_ok (cs_heap s m)"
    using client_inv_reach [OF assms(1)] assms(2) by (simp add: client_inv_def client_enabled_def)
  moreover have "ar_Response (cs_heap s m) = Some p"
    using assms(3) by (auto simp: call_done_def Let_def CodeError_SetMsg_def split: option.splits)
  ultimately show ?thesis by (auto simp: w_ok_def)
qed

definition ex_req :: Packet where
  "ex_req = PRpc (NewRpcPacketWithSeq 7 (Some [1]) 3)"

definition ex_rsp :: Packet where
  "ex_rsp = PRpc (NewRpcPacketWithRet 7 (Some [2]) 3 0)"

definition ex_run :: "cstate go" where
  "ex_run = go_bind (client_do 1 init_errors (ACall ex_req None) cs_init) (\<lambda>s1.
            go_bind (client_do 1 init_errors (AWrite 0 [] None) s1) (\<lambda>s2.
                     client_do 1 init_errors (ARead 0 ex_rsp) s2))"

lemmas ex_simps = ex_req_def ex_rsp_def client_do_def callAsync_def acquireAsyncResult_def newAsyncResult_def
  cs_init_def clientWriter_next_def writer_take_def zeroAsyncResult_def pending_of_def clientReader_packet_def
  finish_def ar_upd_def NewRpcPacketWithSeq_def NewRpcPacketWithRet_def al_del_def Let_def

lemma ex_run_eval:
  "\<exists>s. ex_run = Inr s \<and> client_steps 1 init_errors cs_init s \<and> client_enabled (ACollect 0) s \<and>
       fst (call_done 0 init_errors s) = (Some ex_rsp, None)"
proof -
  obtain s where s: "ex_run = Inr s" by (simp add: ex_run_def ex_simps)
  then obtain s1 s2 where "client_do 1 init_errors (ACall ex_req None) cs_init = Inr s1"
    "client_do 1 init_errors (AWrite 0 [] None) s1 = Inr s2" "client_do 1 init_errors (ARead 0 ex_rsp) s2 = Inr s"
    by (auto simp: ex_run_def)
  then have "client_steps 1 init_errors cs_init s"
    using ok_reach_step [of 1 init_errors cs_init "ACall ex_req None" s1]
      ok_reach_step [of 1 init_errors s1 "AWrite 0 [] None" s2]
      ok_reach_step [of 1 init_errors s2 "ARead 0 ex_rsp" s]
    by (simp add: client_enabled_def)
  moreover have "client_enabled (ACollect 0) s \<and> fst (call_done 0 init_errors s) = (Some ex_rsp, None)"
    using s by (auto simp: ex_run_def ex_simps client_enabled_def call_done_def)
  ultimately show ?thesis using s by blast
qed

theorem client_response_matches_witness:
  "\<exists>s req. ex_run = Inr s \<and> ar_Request (cs_heap s 0) = Some req \<and> Packet_ID ex_rsp = Packet_ID req"
proof -
  obtain s where s: "ex_run = Inr s" "client_steps 1 init_errors cs_init s" "client_enabled (ACollect 0) s"
    "call_done 0 init_errors s = ((Some ex_rsp, None), snd (call_done 0 init_errors s))"
    using ex_run_eval by (metis prod.collapse)
  from client_response_matches [OF s(2,3,4)] s(1) show ?thesis by blast
qed

text \<open>
  C18. The retry loop: with \<open>retryNum < 2 ^ 32 - 1\<close> the call returns after at most \<open>retryNum + 1\<close>
  attempts; it stops at the first attempt that does not time out and returns that attempt's
  outcome, or the time-out of the last one.  With \<open>retryNum = 2 ^ 32 - 1\<close> the counter wraps and a
  call whose attempts all time out never returns.
\<close>

theorem CallTimeout_retries:
  assumes "codes_ok eh"
  shows "(unat retryNum + 1 < 2 ^ 32 \<longrightarrow>
           (\<exists>n \<le> unat retryNum.
              CallTimeout_loop (unat retryNum + 1) eh attempt retryNum 0 0 = Some (attempt_result (attempt n), n + 1) \<and>
              (\<forall>j < n. timed_out (attempt j)) \<and> (timed_out (attempt n) \<longrightarrow> n = unat retryNum))) \<and>
         ((\<forall>k. attempt k = TimedOut) \<longrightarrow> CallTimeout_loop fuel eh attempt (- 1) tryNum k = None)"
proof (intro conjI impI)
  assume "unat retryNum + 1 < 2 ^ 32"
  from CallTimeout_loop_bound [OF assms this, of 0 "unat retryNum + 1" attempt]
  obtain n where "CallTimeout_loop (unat retryNum + 1) eh attempt retryNum (of_nat 0) 0 = Some (attempt_result (attempt n), n + 1)"
    "n \<le> unat retryNum" "\<forall>j. 0 \<le> j \<and> j < n \<longrightarrow> timed_out (attempt j)" "timed_out (attempt n) \<longrightarrow> n = unat retryNum"
    by (simp del: CallTimeout_loop.simps) blast
  then show "\<exists>n \<le> unat retryNum.
      CallTimeout_loop (unat retryNum + 1) eh attempt retryNum 0 0 = Some (attempt_result (attempt n), n + 1) \<and>
      (\<forall>j < n. timed_out (attempt j)) \<and> (timed_out (attempt n) \<longrightarrow> n = unat retryNum)"
    by (intro exI [of _ n]) (simp del: CallTimeout_loop.simps)
next
  assume "\<forall>k. attempt k = TimedOut"
  then show "CallTimeout_loop fuel eh attempt (- 1) tryNum k = None"
    by (induction fuel arbitrary: tryNum k) auto
qed

theorem CallTimeout_retries_witness:
  "\<exists>n \<le> 2. CallTimeout_loop 3 init_errors (\<lambda>k. if k < 2 then TimedOut else Answered (Some ex_rsp) None) 2 0 0 =
      Some (attempt_result (if n < 2 then TimedOut else Answered (Some ex_rsp) None), n + 1)"
proof -
  have u: "unat (2 :: uint32) = 2" by simp
  have "\<exists>n \<le> unat (2 :: uint32). CallTimeout_loop (unat (2 :: uint32) + 1) init_errors
      (\<lambda>k. if k < 2 then TimedOut else Answered (Some ex_rsp) None) 2 0 0 =
      Some (attempt_result (if n < 2 then TimedOut else Answered (Some ex_rsp) None), n + 1)"
    using CallTimeout_retries [THEN conjunct1, THEN mp, OF codes_ok_init, of 2
      "\<lambda>k. if k < 2 then TimedOut else Answered (Some ex_rsp) None"] by (simp only: u) (auto simp del: CallTimeout_loop.simps)
  then show ?thesis unfolding u by simp
qed

text \<open>
  The clean-up of cancelled requests in \<open>clientWriter\<close> cannot help: when a new request finds
  more than \<open>3 * PendingRequests\<close> pending ones, the loop deletes at most the new request's own entry
  (it uses \<open>msgID\<close>, not the cancelled entry's id), so the writer always ends with an error and every
  cancelled entry stays.
\<close>

lemma cleanup_never_helps:
  assumes "ar_canceled (cs_heap s m) = False" and "ar_skipResponse (cs_heap s m) = False"
    and "ar_Request (cs_heap s m) = Some req"
    and "(c, Packet_ID req) \<notin> fst ` set (cs_pending s)"
    and "int (length (pending_of c s)) > 3 * pendingRequests"
  shows "\<exists>s'. writer_take pendingRequests c order err m s = Inr (Some ''The server didn't return responses yet'', s') \<and>
              set (cs_pending s) \<subseteq> set (cs_pending s') \<and> cs_sent s' = cs_sent s"
proof -
  let ?k = "(c, Packet_ID req)"
  let ?s1 = "s\<lparr>cs_pending := al_set ?k m (cs_pending s), cs_count := cs_count s + 1\<rparr>"
  let ?s2 = "cleanup ?k order ?s1"
  have app: "al_set ?k m (cs_pending s) = cs_pending s @ [(?k, m)]" using assms(4) by (rule al_set_notin)
  then have del: "al_del ?k (al_set ?k m (cs_pending s)) = cs_pending s"
    using assms(4) by (simp add: al_del_append al_del_notin) (simp add: al_del_def)
  have s2: "cs_pending ?s2 \<in> {cs_pending s, cs_pending s @ [(?k, m)]}" "cs_sent ?s2 = cs_sent s"
    using cleanup_effect [of ?k order ?s1] app del by auto
  then have "length (pending_of c s) \<le> length (pending_of c ?s2)" by (auto simp: pending_of_def)
  with assms(5) have "int (length (pending_of c ?s2)) > 3 * pendingRequests" by linarith
  moreover have "set (cs_pending s) \<subseteq> set (cs_pending ?s2)" using s2(1) by auto
  ultimately show ?thesis
    using assms(1-3,5) s2(2) by (simp add: writer_take_def Let_def)
qed

text \<open>
  Stopping a client while requests are pending: \<open>clientHandleConnection\<close> ends them with the nil
  error, so that \<open>CallTimeout\<close> returns neither a packet nor an error and the type assertion in
  \<open>Invoke\<close> and \<open>DogInvoke\<close> panics.
\<close>

lemma stop_with_pending_panics:
  assumes "client_steps cap eh cs_init s" and "((c, i), m) \<in> set (cs_pending s)"
  shows "\<exists>s'. clientHandleConnection_end c None s = Inr s' \<and> ar_Done (cs_heap s' m) = ChClosed \<and>
           fst (call_done m eh s') = (None, None) \<and>
           Invoke_result (fst (call_done m eh s')) = Inl TypeAssertion \<and>
           DogInvoke_result (fst (call_done m eh s')) = Inl TypeAssertion"
proof -
  have inv: "client_inv s" using assms(1) by (rule client_inv_reach)
  obtain s' where s': "clientHandleConnection_end c None s = Inr s'"
    using clientHandleConnection_end_ok [OF inv] by blast
  have m: "m \<in> set (map snd (pending_of c s))" using assms(2) by (force simp: pending_of_def)
  have "\<forall>x \<in> set (map snd (pending_of c s)). ar_Done (cs_heap s x) = ChOpen \<and> ar_Response (cs_heap s x) = None"
    using inv by (auto simp: pending_of_def client_inv_def p_ok_def)
  moreover have "distinct (map snd (pending_of c s))"
    using inv by (simp add: client_inv_def pending_of_def distinct_map_filter')
  ultimately have "ar_Done (cs_heap s' m) = ChClosed \<and> ar_Error (cs_heap s' m) = None \<and> ar_Response (cs_heap s' m) = None"
    using s' close_pending_result [OF _ _ m, of None s] by (auto simp: clientHandleConnection_end_def)
  with s' show ?thesis
    by (simp add: call_done_def Let_def Invoke_result_def DogInvoke_result_def)
qed

definition ex_pending :: "cstate go" where
  "ex_pending = go_bind (client_do 1 init_errors (ACall ex_req None) cs_init)
                  (\<lambda>s1. client_do 1 init_errors (AWrite 0 [] None) s1)"

lemma ex_pending_eval:
  "\<exists>s. ex_pending = Inr s \<and> client_steps 1 init_errors cs_init s \<and> ((0, 3), 0) \<in> set (cs_pending s)"
proof -
  obtain s where s: "ex_pending = Inr s" by (simp add: ex_pending_def ex_simps)
  then obtain s1 where "client_do 1 init_errors (ACall ex_req None) cs_init = Inr s1"
    "client_do 1 init_errors (AWrite 0 [] None) s1 = Inr s" by (auto simp: ex_pending_def)
  then have "client_steps 1 init_errors cs_init s"
    using ok_reach_step [of 1 init_errors cs_init "ACall ex_req None" s1]
      ok_reach_step [of 1 init_errors s1 "AWrite 0 [] None" s] by (simp add: client_enabled_def)
  moreover have "((0, 3), 0) \<in> set (cs_pending s)" using s by (auto simp: ex_pending_def ex_simps)
  ultimately show ?thesis using s by blast
qed

text \<open>
  \<open>Client.Stop\<close> called by the user: when it returns, every handler goroutine has left its loop
  and is about to run its own deferred \<open>Stop\<close>, and the only thing it can do is to close the nil
  channel: whatever happens next is a panic.  With two or more connections the same happens
  without a call of the user.
\<close>

lemma Stop_panics:
  assumes "life_step\<^sup>*\<^sup>* (life_start conns) s" and "lf_panic s = None" and "lf_chan s = ChNil"
    and "lf_user s = Stopped \<and> 1 \<le> conns \<or> lf_user s \<noteq> Stopped \<and> 2 \<le> conns"
  shows "(\<exists>s'. life_step s s') \<and> (\<forall>s'. life_step s s' \<longrightarrow> lf_panic s' = Some CloseOfNilChannel)"
proof
  from life_inv_reach [OF assms(1)] have inv: "life_inv s" and len: "length (lf_handlers s) = conns" by auto
  have w: "hcount Waiting s = 0" "hcount Running s = 0" "\<not> lf_locked s"
      "hcount Stopped s + (if lf_user s = Stopped then 1 else 0) = 1" "lf_user s \<noteq> Waiting"
    using inv assms(3) by (auto simp: life_inv_def phase_count_def life_wg_def split: if_splits)
  have "length (lf_handlers s) = hcount Running s + hcount Exiting s + hcount Waiting s + hcount Stopped s"
    by (rule hcount_total)
  then have "0 < hcount Exiting s" using w len assms(4) by (auto split: if_splits)
  then obtain i where i: "i < length (lf_handlers s)" "lf_handlers s ! i = Exiting"
    by (auto simp: hcount_def filter_empty_conv in_set_conv_nth)
  show "\<exists>s'. life_step s s'"
    using handler_stop_panic [OF assms(2) i w(3), of CloseOfNilChannel] assms(3) by (auto simp: chan_close_def)
  show "\<forall>s'. life_step s s' \<longrightarrow> lf_panic s' = Some CloseOfNilChannel"
  proof (intro allI impI)
    fix s' assume "life_step s s'"
    then show "lf_panic s' = Some CloseOfNilChannel"
      by cases (use w assms(3) in \<open>auto simp: chan_close_def dest!: hcount_pos\<close>)
  qed
qed

lemma life_stop_one:
  "life_step\<^sup>*\<^sup>* (life_start 1) \<lparr>lf_chan = ChNil, lf_locked = False, lf_user = Stopped, lf_handlers = [Exiting], lf_panic = None\<rparr>"
proof -
  let ?s1 = "\<lparr>lf_chan = ChClosed, lf_locked = True, lf_user = Waiting, lf_handlers = [Running], lf_panic = None\<rparr>"
  let ?s2 = "\<lparr>lf_chan = ChClosed, lf_locked = True, lf_user = Waiting, lf_handlers = [Exiting], lf_panic = None\<rparr>"
  have "life_step (life_start 1) ?s1"
    using user_stop [of "life_start 1" ChClosed] by (simp add: life_start_def)
  moreover have "life_step ?s1 ?s2" using handler_returns [of ?s1 0] by simp
  moreover have "life_step ?s2 \<lparr>lf_chan = ChNil, lf_locked = False, lf_user = Stopped, lf_handlers = [Exiting], lf_panic = None\<rparr>"
    using user_stopped [of ?s2] by (simp add: life_wg_def hcount_def)
  ultimately show ?thesis by (meson rtranclp.rtrancl_into_rtrancl rtranclp.rtrancl_refl)
qed

text \<open>
  The errors the client returns are shared objects: a caller that timed out against one server
  reads the message of whichever call timed out last, since \<open>SetMsg\<close> rewrites the one \<open>TimeOutError\<close>;
  its code, on which the retry loop relies, never changes.
\<close>

lemma timeout_error_shared:
  assumes "codes_ok eh"
    and "call_timeout msg1 m1 eh s = (e1, eh1, s1)" and "call_timeout msg2 m2 eh1 s1 = (e2, eh2, s2)"
  shows "e1 = e2 \<and> errMsg (eh2 e1) = msg2 \<and> errMsg (eh1 e1) = msg1 \<and> codes_ok eh2 \<and> errCode (eh2 e1) = 10001"
proof -
  have e: "e1 = TimeOutError" "eh1 = snd (CodeError_SetMsg TimeOutError msg1 eh)"
    "e2 = TimeOutError" "eh2 = snd (CodeError_SetMsg TimeOutError msg2 eh1)"
    using assms(2,3) by (auto simp: call_timeout_def CodeError_SetMsg_def)
  then have "codes_ok eh2" using assms(1) by simp
  then show ?thesis using e by (auto simp: CodeError_SetMsg_def codes_ok_def)
qed

end
