(* ===== verification/RedisCluster.thy ===== *)
theory RedisCluster
  imports Prelude
begin

text \<open>
  The redis cluster client of \<open>databases/redisdb/cluster.go\<close>.  The go-redis library is the argument
  \<open>srv\<close>: a method and its arguments on the state of the cluster give an error or a reply.  Every
  operation of the client is a definition: the guard on an uninitialised client, the one call, the
  conversion of the result, and the deferred \<open>reportPerf\<close>, whose effects on the counters and the log
  are recorded as events.  \<open>cost\<close> is the duration of the call in nanoseconds.
\<close>

section \<open>The library and the client\<close>

datatype rerror = RedisNil | ErrNil | NotInit | RErr string

primrec rerror_text :: "rerror \<Rightarrow> string" where
  "rerror_text RedisNil = ''redis: nil''"
| "rerror_text ErrNil = ''redis: nil returned''"
| "rerror_text NotInit = ''redis cluster not init''"
| "rerror_text (RErr s) = s"

datatype 'f reply =
    RStr string | RInt int | RBool bool | RList "string option list" | RStrs "string list"
  | RMap "(string \<times> string) list" | RScores "(string \<times> 'f) list"

type_synonym ('f, 's) srv = "string \<times> string list \<Rightarrow> 's \<Rightarrow> (rerror + 'f reply) \<times> 's"

datatype perf = PcIncr string | PcCost string | PcCostFail string | GlIncr string | LogSlow string | LogFail bool string

record 's RedisCluster =
  rc_clusterName :: string
  rc_clusterClient :: "'s option"
  rc_perf :: "perf list"

definition as_str :: "'f reply \<Rightarrow> string" where "as_str r = (case r of RStr s \<Rightarrow> s | _ \<Rightarrow> [])"
definition as_int :: "'f reply \<Rightarrow> int" where "as_int r = (case r of RInt i \<Rightarrow> i | _ \<Rightarrow> 0)"
definition as_bool :: "'f reply \<Rightarrow> bool" where "as_bool r = (case r of RBool b \<Rightarrow> b | _ \<Rightarrow> False)"
definition as_list :: "'f reply \<Rightarrow> string option list" where "as_list r = (case r of RList l \<Rightarrow> l | _ \<Rightarrow> [])"
definition as_strs :: "'f reply \<Rightarrow> string list" where "as_strs r = (case r of RStrs l \<Rightarrow> l | _ \<Rightarrow> [])"
definition as_map :: "'f reply \<Rightarrow> (string \<times> string) list" where "as_map r = (case r of RMap m \<Rightarrow> m | _ \<Rightarrow> [])"
definition as_scores :: "'f reply \<Rightarrow> (string \<times> 'f) list" where "as_scores r = (case r of RScores l \<Rightarrow> l | _ \<Rightarrow> [])"

section \<open>Performance reports\<close>

definition to_lower :: "string \<Rightarrow> string" where
  "to_lower s = map (\<lambda>c. if 65 \<le> (of_char c :: nat) \<and> of_char c \<le> (90 :: nat) then char_of (of_char c + 32 :: nat) else c) s"

text \<open>An error that counts as a failed call.\<close>

definition call_failure :: "rerror option \<Rightarrow> bool" where
  "call_failure err =
     (case err of None \<Rightarrow> False | Some e \<Rightarrow>
        e \<noteq> RedisNil \<and> e \<noteq> ErrNil \<and> \<not> strings_Contains (rerror_text e) ''WRONGTYPE Operation'')"

definition reportPerf :: "string \<Rightarrow> string \<Rightarrow> int \<Rightarrow> rerror option \<Rightarrow> perf list" where
  "reportPerf clusterName cmdName cost err =
     (let ms = cost div 1000000
      in (if cmdName = ''MGet'' \<or> cmdName = ''MSet'' \<or> cmdName = ''MDel''
          then (if ms > 60
                then PcIncr (''redis_cluster_'' @ to_lower cmdName @ ''_slow_count'') #
                     (if ms > 200 then [LogSlow cmdName] else [])
                else []) @
               [PcCost (''rediscluster,name='' @ clusterName @ '',cmd=redis_cluster_cmd_'' @ to_lower cmdName)]
          else (if ms > 20
                then PcIncr ''redis_cluster_common_slow_count'' # (if ms > 100 then [LogSlow cmdName] else [])
                else []) @
               [PcCost (''redisCluster,name='' @ clusterName @ '',cmd=redis_cluster_cmd_normal'')]) @
         [GlIncr ''redisCluster_call'', GlIncr ''redisCluster_cost''] @
         (case err of
            None \<Rightarrow> []
          | Some e \<Rightarrow>
              if e = RedisNil \<or> e = ErrNil then []
              else if strings_Contains (rerror_text e) ''WRONGTYPE Operation'' then [LogFail False cmdName]
              else [PcCostFail (''rediscluster,name='' @ clusterName), GlIncr ''redisCluster_call_fail'',
                    LogFail True cmdName]))"

section \<open>One call\<close>

text \<open>
  The shape all single-key operations share.  \<open>noinit\<close> is what they return without a client and
  \<open>zero\<close> the result the library returns with an error.  \<open>reports\<close> says whether the operation
  assigns the error to the variable the deferred \<open>reportPerf\<close> reads; those that return the call's
  results directly report a nil error.
\<close>

definition cc_call ::
    "('f, 's) srv \<Rightarrow> int \<Rightarrow> string \<Rightarrow> bool \<Rightarrow> 'v \<Rightarrow> 'v \<Rightarrow> ('f reply \<Rightarrow> 'v) \<Rightarrow> string \<times> string list \<Rightarrow>
     's RedisCluster \<Rightarrow> ('v \<times> rerror option) \<times> 's RedisCluster" where
  "cc_call srv cost name reports noinit zero conv cmd r =
     (case rc_clusterClient r of
        None \<Rightarrow> ((noinit, Some NotInit), r)
      | Some st \<Rightarrow>
          (case srv cmd st of
             (res, st') \<Rightarrow>
               (let (v, err) = (case res of Inl e \<Rightarrow> (zero, Some e) | Inr x \<Rightarrow> (conv x, None))
                in ((v, err),
                    r\<lparr>rc_clusterClient := Some st',
                      rc_perf := rc_perf r @ reportPerf (rc_clusterName r) name cost (if reports then err else None)\<rparr>))))"

section \<open>Operations\<close>

definition cc_Get :: "('f, 's) srv \<Rightarrow> int \<Rightarrow> string \<Rightarrow> 's RedisCluster \<Rightarrow> (string \<times> rerror option) \<times> 's RedisCluster" where
  "cc_Get srv cost key r =
     (case cc_call srv cost ''Get'' True [] [] as_str (''Get'', [key]) r of ((v, err), r') \<Rightarrow> (if err = Some RedisNil then ([], Some ErrNil) else (v, err), r'))"

definition cc_Set :: "('f, 's) srv \<Rightarrow> int \<Rightarrow> string \<Rightarrow> string \<Rightarrow> int \<Rightarrow> 's RedisCluster \<Rightarrow> (string \<times> rerror option) \<times> 's RedisCluster" where
  "cc_Set srv cost key val expire r =
     cc_call srv cost ''Set'' True [] [] as_str (''Set'', [key, val, Itoa expire]) r"

definition cc_SetNX :: "('f, 's) srv \<Rightarrow> int \<Rightarrow> string \<Rightarrow> string \<Rightarrow> int \<Rightarrow> 's RedisCluster \<Rightarrow> (bool \<times> rerror option) \<times> 's RedisCluster" where
  "cc_SetNX srv cost key val expire r =
     cc_call srv cost ''SetNX'' True False False as_bool (''SetNX'', [key, val, Itoa expire]) r"

definition cc_Del :: "('f, 's) srv \<Rightarrow> int \<Rightarrow> string \<Rightarrow> 's RedisCluster \<Rightarrow> (int \<times> rerror option) \<times> 's RedisCluster" where
  "cc_Del srv cost key r =
     cc_call srv cost ''Del'' True 0 0 as_int (''Del'', [key]) r"

definition cc_HGet :: "('f, 's) srv \<Rightarrow> int \<Rightarrow> string \<Rightarrow> string \<Rightarrow> 's RedisCluster \<Rightarrow> (string \<times> rerror option) \<times> 's RedisCluster" where
  "cc_HGet srv cost key field r =
     (case cc_call srv cost ''HGet'' True [] [] as_str (''HGet'', [key, field]) r of ((v, err), r') \<Rightarrow> (if err = Some RedisNil then ([], Some ErrNil) else (v, err), r'))"

definition cc_HGetAll :: "('f, 's) srv \<Rightarrow> int \<Rightarrow> string \<Rightarrow> 's RedisCluster \<Rightarrow> ((string \<times> string) list \<times> rerror option) \<times> 's RedisCluster" where
  "cc_HGetAll srv cost key r =
     cc_call srv cost ''HGetAll'' True [] [] as_map (''HGetAll'', [key]) r"

definition cc_HSet :: "('f, 's) srv \<Rightarrow> int \<Rightarrow> string \<Rightarrow> string \<Rightarrow> string \<Rightarrow> 's RedisCluster \<Rightarrow> (int \<times> rerror option) \<times> 's RedisCluster" where
  "cc_HSet srv cost key field val r =
     cc_call srv cost ''HSet'' True 0 0 as_int (''HSet'', [key, field, val]) r"

definition cc_HSetNx :: "('f, 's) srv \<Rightarrow> int \<Rightarrow> string \<Rightarrow> string \<Rightarrow> string \<Rightarrow> 's RedisCluster \<Rightarrow> (bool \<times> rerror option) \<times> 's RedisCluster" where
  "cc_HSetNx srv cost key field val r =
     cc_call srv cost ''HSetNx'' True False False as_bool (''HSetNX'', [key, field, val]) r"

definition cc_HMDel :: "('f, 's) srv \<Rightarrow> int \<Rightarrow> string \<Rightarrow> string list \<Rightarrow> 's RedisCluster \<Rightarrow> (int \<times> rerror option) \<times> 's RedisCluster" where
  "cc_HMDel srv cost key fs r =
     cc_call srv cost ''HMDel'' False 0 0 as_int (''HDel'', key # fs) r"

definition cc_Expire :: "('f, 's) srv \<Rightarrow> int \<Rightarrow> string \<Rightarrow> int \<Rightarrow> 's RedisCluster \<Rightarrow> (bool \<times> rerror option) \<times> 's RedisCluster" where
  "cc_Expire srv cost key d r =
     cc_call srv cost ''Expire'' False False False as_bool (''Expire'', [key, Itoa d]) r"

definition cc_PExpire :: "('f, 's) srv \<Rightarrow> int \<Rightarrow> string \<Rightarrow> int \<Rightarrow> 's RedisCluster \<Rightarrow> (bool \<times> rerror option) \<times> 's RedisCluster" where
  "cc_PExpire srv cost key d r =
     cc_call srv cost ''PExpire'' False False False as_bool (''PExpire'', [key, Itoa d]) r"

definition cc_PTtl :: "('f, 's) srv \<Rightarrow> int \<Rightarrow> string \<Rightarrow> 's RedisCluster \<Rightarrow> (int \<times> rerror option) \<times> 's RedisCluster" where
  "cc_PTtl srv cost key r =
     cc_call srv cost ''PTtl'' False (- 1) 0 as_int (''PTTL'', [key]) r"

definition cc_HIncrBy :: "('f, 's) srv \<Rightarrow> int \<Rightarrow> string \<Rightarrow> string \<Rightarrow> int \<Rightarrow> 's RedisCluster \<Rightarrow> (int \<times> rerror option) \<times> 's RedisCluster" where
  "cc_HIncrBy srv cost key field n r =
     cc_call srv cost ''HIncrBy'' True (- 1) 0 as_int (''HIncrBy'', [key, field, Itoa n]) r"

definition cc_IncrBy :: "('f, 's) srv \<Rightarrow> int \<Rightarrow> string \<Rightarrow> int \<Rightarrow> 's RedisCluster \<Rightarrow> (int \<times> rerror option) \<times> 's RedisCluster" where
  "cc_IncrBy srv cost key n r =
     cc_call srv cost ''IncrBy'' True (- 1) 0 as_int (''IncrBy'', [key, Itoa n]) r"

text \<open>\<open>EvalSha\<close> reports under the name of another operation.\<close>

definition cc_EvalSha :: "('f, 's) srv \<Rightarrow> int \<Rightarrow> string \<Rightarrow> string list \<Rightarrow> string list \<Rightarrow> 's RedisCluster \<Rightarrow> ('f reply option \<times> rerror option) \<times> 's RedisCluster" where
  "cc_EvalSha srv cost sha ks args r =
     cc_call srv cost ''IncrBy'' True (Some (RInt (- 1))) None Some (''EvalSha'', sha # Itoa (int (length ks)) # ks @ args) r"

definition cc_ZAdd :: "('f, 's) srv \<Rightarrow> int \<Rightarrow> string \<Rightarrow> string list \<Rightarrow> 's RedisCluster \<Rightarrow> (int \<times> rerror option) \<times> 's RedisCluster" where
  "cc_ZAdd srv cost key members r =
     cc_call srv cost ''ZAdd'' False (- 1) 0 as_int (''ZAdd'', key # members) r"

definition cc_ZRange :: "('f, 's) srv \<Rightarrow> int \<Rightarrow> string \<Rightarrow> int \<Rightarrow> int \<Rightarrow> 's RedisCluster \<Rightarrow> (string list \<times> rerror option) \<times> 's RedisCluster" where
  "cc_ZRange srv cost key a b r =
     cc_call srv cost ''ZRange'' False [] [] as_strs (''ZRange'', [key, Itoa a, Itoa b]) r"

definition cc_ZRemRangeByRank :: "('f, 's) srv \<Rightarrow> int \<Rightarrow> string \<Rightarrow> int \<Rightarrow> int \<Rightarrow> 's RedisCluster \<Rightarrow> (int \<times> rerror option) \<times> 's RedisCluster" where
  "cc_ZRemRangeByRank srv cost key a b r =
     cc_call srv cost ''ZRemRangeByRank'' False 0 0 as_int (''ZRemRangeByRank'', [key, Itoa a, Itoa b]) r"

definition cc_ZRemRangeByScore :: "('f, 's) srv \<Rightarrow> int \<Rightarrow> string \<Rightarrow> string \<Rightarrow> string \<Rightarrow> 's RedisCluster \<Rightarrow> (int \<times> rerror option) \<times> 's RedisCluster" where
  "cc_ZRemRangeByScore srv cost key a b r =
     cc_call srv cost ''ZRemRangeByScore'' False 0 0 as_int (''ZRemRangeByScore'', [key, a, b]) r"

definition cc_ZRem :: "('f, 's) srv \<Rightarrow> int \<Rightarrow> string \<Rightarrow> string list \<Rightarrow> 's RedisCluster \<Rightarrow> (int \<times> rerror option) \<times> 's RedisCluster" where
  "cc_ZRem srv cost key members r =
     cc_call srv cost ''ZRem'' False 0 0 as_int (''ZRem'', key # members) r"

definition cc_ZRevRange :: "('f, 's) srv \<Rightarrow> int \<Rightarrow> string \<Rightarrow> int \<Rightarrow> int \<Rightarrow> 's RedisCluster \<Rightarrow> (string list \<times> rerror option) \<times> 's RedisCluster" where
  "cc_ZRevRange srv cost key a b r =
     cc_call srv cost ''ZRevRange'' False [] [] as_strs (''ZRevRange'', [key, Itoa a, Itoa b]) r"

definition cc_SetBit :: "('f, 's) srv \<Rightarrow> int \<Rightarrow> string \<Rightarrow> int \<Rightarrow> int \<Rightarrow> 's RedisCluster \<Rightarrow> (int \<times> rerror option) \<times> 's RedisCluster" where
  "cc_SetBit srv cost key off bitv r =
     cc_call srv cost ''SetBit'' False 0 0 as_int (''SetBit'', [key, Itoa off, Itoa bitv]) r"

definition cc_SAdd :: "('f, 's) srv \<Rightarrow> int \<Rightarrow> string \<Rightarrow> string list \<Rightarrow> 's RedisCluster \<Rightarrow> (int \<times> rerror option) \<times> 's RedisCluster" where
  "cc_SAdd srv cost key members r =
     cc_call srv cost ''SAdd'' False 0 0 as_int (''SAdd'', key # members) r"

definition cc_SPop :: "('f, 's) srv \<Rightarrow> int \<Rightarrow> string \<Rightarrow> 's RedisCluster \<Rightarrow> (string \<times> rerror option) \<times> 's RedisCluster" where
  "cc_SPop srv cost key r =
     cc_call srv cost ''SPop'' False [] [] as_str (''SPop'', [key]) r"

definition cc_LPop :: "('f, 's) srv \<Rightarrow> int \<Rightarrow> string \<Rightarrow> 's RedisCluster \<Rightarrow> (string \<times> rerror option) \<times> 's RedisCluster" where
  "cc_LPop srv cost key r =
     cc_call srv cost ''LPop'' False [] [] as_str (''LPop'', [key]) r"

definition cc_LIndex :: "('f, 's) srv \<Rightarrow> int \<Rightarrow> string \<Rightarrow> int \<Rightarrow> 's RedisCluster \<Rightarrow> (string \<times> rerror option) \<times> 's RedisCluster" where
  "cc_LIndex srv cost key i r =
     cc_call srv cost ''LIndex'' False [] [] as_str (''LIndex'', [key, Itoa i]) r"

definition cc_LPush :: "('f, 's) srv \<Rightarrow> int \<Rightarrow> string \<Rightarrow> string \<Rightarrow> 's RedisCluster \<Rightarrow> (int \<times> rerror option) \<times> 's RedisCluster" where
  "cc_LPush srv cost key val r =
     cc_call srv cost ''LPush'' False 0 0 as_int (''LPush'', [key, val]) r"

definition cc_RPush :: "('f, 's) srv \<Rightarrow> int \<Rightarrow> string \<Rightarrow> string \<Rightarrow> 's RedisCluster \<Rightarrow> (int \<times> rerror option) \<times> 's RedisCluster" where
  "cc_RPush srv cost key val r =
     cc_call srv cost ''RPush'' False 0 0 as_int (''RPush'', [key, val]) r"

definition cc_HLen :: "('f, 's) srv \<Rightarrow> int \<Rightarrow> string \<Rightarrow> 's RedisCluster \<Rightarrow> (int \<times> rerror option) \<times> 's RedisCluster" where
  "cc_HLen srv cost key r =
     cc_call srv cost ''HLen'' False 0 0 as_int (''HLen'', [key]) r"

definition cc_ZRangeByScoreWithScores :: "('f, 's) srv \<Rightarrow> int \<Rightarrow> string \<Rightarrow> string \<Rightarrow> string \<Rightarrow> int \<Rightarrow> int \<Rightarrow> 's RedisCluster \<Rightarrow> ((string \<times> 'f) list \<times> rerror option) \<times> 's RedisCluster" where
  "cc_ZRangeByScoreWithScores srv cost key lo hi off lim r =
     cc_call srv cost ''ZRangeByScoreWithScores'' True [] [] as_scores (''ZRangeByScoreWithScores'', [key, lo, hi, Itoa off, Itoa lim]) r"

definition cc_ZRevRangeByScoreWithScores :: "('f, 's) srv \<Rightarrow> int \<Rightarrow> string \<Rightarrow> string \<Rightarrow> string \<Rightarrow> int \<Rightarrow> int \<Rightarrow> 's RedisCluster \<Rightarrow> ((string \<times> 'f) list \<times> rerror option) \<times> 's RedisCluster" where
  "cc_ZRevRangeByScoreWithScores srv cost key lo hi off lim r =
     cc_call srv cost ''ZRevRangeByScoreWithScores'' True [] [] as_scores (''ZRevRangeByScoreWithScores'', [key, lo, hi, Itoa off, Itoa lim]) r"

definition cc_Exist :: "('f, 's) srv \<Rightarrow> int \<Rightarrow> string \<Rightarrow> 's RedisCluster \<Rightarrow> (bool \<times> rerror option) \<times> 's RedisCluster" where
  "cc_Exist srv cost key r =
     cc_call srv cost ''Exist'' True False False (\<lambda>x. as_int x > 0) (''Exists'', [key]) r"

text \<open>\<open>HMGet\<close> and \<open>HMSet\<close> answer an empty list of fields without a call, but report it.\<close>

definition cc_report :: "int \<Rightarrow> string \<Rightarrow> rerror option \<Rightarrow> 's RedisCluster \<Rightarrow> 's RedisCluster" where
  "cc_report cost name err r = r\<lparr>rc_perf := rc_perf r @ reportPerf (rc_clusterName r) name cost err\<rparr>"

definition cc_HMGet ::
    "('f, 's) srv \<Rightarrow> int \<Rightarrow> string \<Rightarrow> string list \<Rightarrow> 's RedisCluster \<Rightarrow> (string option list \<times> rerror option) \<times> 's RedisCluster" where
  "cc_HMGet srv cost key fs r =
     (if rc_clusterClient r \<noteq> None \<and> fs = [] then (([], None), cc_report cost ''HMGet'' None r)
      else cc_call srv cost ''HMGet'' True [] [] as_list (''HMGet'', key # fs) r)"

definition cc_HMSet ::
    "('f, 's) srv \<Rightarrow> int \<Rightarrow> string \<Rightarrow> (string \<times> string) list \<Rightarrow> 's RedisCluster \<Rightarrow> (bool \<times> rerror option) \<times> 's RedisCluster" where
  "cc_HMSet srv cost key fs r =
     (if rc_clusterClient r \<noteq> None \<and> fs = [] then ((True, None), cc_report cost ''HMSet'' None r)
      else cc_call srv cost ''HMSet'' True False False (\<lambda>_. True) (''HMSet'', key # concat (map (\<lambda>(f, v). [f, v]) fs)) r)"

text \<open>\<open>HScan\<close>: the flat reply is paired up; an odd number of strings is an error the report does not see.\<close>

fun pairs_of :: "string list \<Rightarrow> (string \<rightharpoonup> string) \<Rightarrow> (string \<rightharpoonup> string)" where
  "pairs_of (k # v # rest) m = pairs_of rest (m(k \<mapsto> v))"
| "pairs_of _ m = m"

definition cc_HScan ::
    "('f, 's) srv \<Rightarrow> int \<Rightarrow> string \<Rightarrow> int \<Rightarrow> 's RedisCluster \<Rightarrow>
     ((string \<rightharpoonup> string) option \<times> rerror option) \<times> 's RedisCluster" where
  "cc_HScan srv cost key n r =
     (case rc_clusterClient r of
        None \<Rightarrow> ((None, Some NotInit), r)
      | Some _ \<Rightarrow>
          (case cc_call srv cost ''HScan'' True [] [] as_strs (''HScan'', [key, ''0'', [], Itoa n]) r of
             ((ret, err), r') \<Rightarrow>
               (if length ret mod 2 \<noteq> 0 then ((None, Some (RErr ''hscan return invalid'')), r')
                else ((Some (pairs_of ret Map.empty), err), r'))))"

text \<open>\<open>Eval\<close>: first by the digest (\<open>sha\<close> is \<open>getScriptSha\<close>), then, for an unknown script, in full.\<close>

definition cc_Eval ::
    "('f, 's) srv \<Rightarrow> int \<Rightarrow> (string \<Rightarrow> string) \<Rightarrow> string \<Rightarrow> string list \<Rightarrow> string list \<Rightarrow> 's RedisCluster \<Rightarrow>
     ('f reply option \<times> rerror option) \<times> 's RedisCluster" where
  "cc_Eval srv cost sha script ks args r =
     (case cc_EvalSha srv cost (sha script) ks args r of
        ((ret, None), r') \<Rightarrow> ((ret, None), r')
      | ((ret, Some e), r') \<Rightarrow>
          (if \<not> strings_Contains (rerror_text e) ''NOSCRIPT'' then ((ret, Some e), r')
           else cc_call srv cost ''Eval'' True (Some (RInt (- 1))) None Some
                  (''Eval'', script # Itoa (int (length ks)) # ks @ args) r'))"

section \<open>Pipelines\<close>

text \<open>
  A pipeline sends one command per key; \<open>pipe\<close> is the library's \<open>Exec\<close>: the error it reports and
  the result of every command.
\<close>

type_synonym ('f, 's) pipe =
  "(string \<times> string list) list \<Rightarrow> 's \<Rightarrow> (rerror option \<times> (rerror + 'f reply) list) \<times> 's"

fun mget_collect :: "string list \<Rightarrow> (rerror + 'f reply) list \<Rightarrow> (string \<rightharpoonup> string) \<Rightarrow> (string \<rightharpoonup> string)" where
  "mget_collect (k # ks) (res # rs) retMap =
     mget_collect ks rs
       (case res of
          Inl e \<Rightarrow> (if e = RedisNil then retMap(k := None) else retMap)
        | Inr x \<Rightarrow> retMap(k \<mapsto> as_str x))"
| "mget_collect _ _ retMap = retMap"

definition cc_MGet ::
    "('f, 's) pipe \<Rightarrow> int \<Rightarrow> string list \<Rightarrow> 's RedisCluster \<Rightarrow>
     (string option list option \<times> rerror option) \<times> 's RedisCluster" where
  "cc_MGet pipe cost ks r =
     (case rc_clusterClient r of
        None \<Rightarrow> ((None, Some NotInit), r)
      | Some st \<Rightarrow>
          (case pipe (map (\<lambda>k. (''Get'', [k])) ks) st of
             ((err, cmds), st') \<Rightarrow>
               (let r' = cc_report cost ''MGet'' err (r\<lparr>rc_clusterClient := Some st'\<rparr>)
                in if err \<noteq> None \<and> err \<noteq> Some RedisNil then ((None, err), r')
                   else (let retMap = mget_collect ks cmds Map.empty
                         in ((Some (map retMap ks), None), r')))))"

text \<open>The keys whose command succeeded.\<close>

fun ok_collect :: "string list \<Rightarrow> (rerror + 'f reply) list \<Rightarrow> (string \<Rightarrow> bool) \<Rightarrow> (string \<Rightarrow> bool)" where
  "ok_collect (k # ks) (res # rs) m = ok_collect ks rs (case res of Inl e \<Rightarrow> m | Inr x \<Rightarrow> m(k := True))"
| "ok_collect _ _ m = m"

text \<open>\<open>MSet\<close> over the entries of the map in some order, and \<open>MDel\<close>, which lists only the deleted keys.\<close>

definition cc_MSet ::
    "('f, 's) pipe \<Rightarrow> int \<Rightarrow> (string \<times> string) list \<Rightarrow> int \<Rightarrow> 's RedisCluster \<Rightarrow>
     ((string \<times> bool) list option \<times> rerror option) \<times> 's RedisCluster" where
  "cc_MSet pipe cost kvs expire r =
     (case rc_clusterClient r of
        None \<Rightarrow> ((None, Some NotInit), r)
      | Some st \<Rightarrow>
          (case pipe (map (\<lambda>(k, v). (''Set'', [k, v, Itoa expire])) kvs) st of
             ((err, cmds), st') \<Rightarrow>
               (let r' = cc_report cost ''MSet'' err (r\<lparr>rc_clusterClient := Some st'\<rparr>);
                    ks = map fst kvs
                in if err \<noteq> None then ((None, err), r')
                   else (let retMap = ok_collect ks cmds (\<lambda>_. False)
                         in ((Some (map (\<lambda>k. (k, retMap k)) ks), err), r')))))"

definition cc_MDel ::
    "('f, 's) pipe \<Rightarrow> int \<Rightarrow> string list \<Rightarrow> 's RedisCluster \<Rightarrow>
     ((string \<times> bool) list option \<times> rerror option) \<times> 's RedisCluster" where
  "cc_MDel pipe cost ks r =
     (case rc_clusterClient r of
        None \<Rightarrow> ((None, Some NotInit), r)
      | Some st \<Rightarrow>
          (case pipe (map (\<lambda>k. (''Del'', [k])) ks) st of
             ((err, cmds), st') \<Rightarrow>
               (let r' = cc_report cost ''MDel'' err (r\<lparr>rc_clusterClient := Some st'\<rparr>)
                in if err \<noteq> None \<and> err \<noteq> Some RedisNil then ((None, err), r')
                   else (let retMap = ok_collect ks cmds (\<lambda>_. False)
                         in ((Some (map (\<lambda>k. (k, True)) (filter retMap (remdups ks))), None), r')))))"

text \<open>
  The variants that split the keys by node.  \<open>getNodeAndKeyMap\<close> returns the empty map; the loop over
  it runs \<open>group\<close> for every node in turn.
\<close>

definition getNodeAndKeyMap :: "string list \<Rightarrow> (string \<times> string list) list" where
  "getNodeAndKeyMap ks = []"

fun node_loop ::
    "('f, 's) pipe \<Rightarrow> (string \<Rightarrow> string \<times> string list) \<Rightarrow> bool \<Rightarrow> (string \<times> string list) list \<Rightarrow> 's \<Rightarrow>
     rerror list \<Rightarrow> (string \<times> 'f reply option) list \<Rightarrow> (rerror list \<times> (string \<times> 'f reply option) list) \<times> 's" where
  "node_loop pipe cmd nilok [] st errs ret = ((errs, ret), st)"
| "node_loop pipe cmd nilok ((node, ks) # rest) st errs ret =
     (case pipe (map cmd ks) st of
        ((err, cmds), st') \<Rightarrow>
          (if err \<noteq> None \<and> \<not> (nilok \<and> err = Some RedisNil)
           then node_loop pipe cmd nilok rest st' (errs @ [the err]) ret
           else (let good = takeWhile (\<lambda>(k, res). case res of Inl e \<Rightarrow> nilok \<and> e = RedisNil | Inr x \<Rightarrow> True) (zip ks cmds);
                     bad = dropWhile (\<lambda>(k, res). case res of Inl e \<Rightarrow> nilok \<and> e = RedisNil | Inr x \<Rightarrow> True) (zip ks cmds)
                 in node_loop pipe cmd nilok rest st'
                      (errs @ (case bad of (k, Inl e) # _ \<Rightarrow> [e] | _ \<Rightarrow> []))
                      (ret @ map (\<lambda>(k, res). (k, case res of Inl e \<Rightarrow> None | Inr x \<Rightarrow> Some x)) good))))"

definition cc_MGet2 ::
    "('f, 's) pipe \<Rightarrow> int \<Rightarrow> string list \<Rightarrow> 's RedisCluster \<Rightarrow>
     (string option list option \<times> rerror option) \<times> 's RedisCluster" where
  "cc_MGet2 pipe cost ks r =
     (case rc_clusterClient r of
        None \<Rightarrow> ((None, Some NotInit), r)
      | Some st \<Rightarrow>
          (case node_loop pipe (\<lambda>k. (''Get'', [k])) True (getNodeAndKeyMap ks) st [] [] of
             ((errs, ret), st') \<Rightarrow>
               (let err = (case errs of [] \<Rightarrow> None | e # _ \<Rightarrow> Some e);
                    r' = cc_report cost ''MGet2'' err (r\<lparr>rc_clusterClient := Some st'\<rparr>)
                in if err \<noteq> None then ((None, err), r')
                   else ((Some (map (\<lambda>k. case map_of (rev ret) k of Some (Some x) \<Rightarrow> Some (as_str x) | _ \<Rightarrow> None) ks), None), r'))))"

definition cc_MSet2 ::
    "('f, 's) pipe \<Rightarrow> int \<Rightarrow> (string \<times> string) list \<Rightarrow> int \<Rightarrow> 's RedisCluster \<Rightarrow>
     ((string \<times> bool) list option \<times> rerror option) \<times> 's RedisCluster" where
  "cc_MSet2 pipe cost kvs expire r =
     (case rc_clusterClient r of
        None \<Rightarrow> ((None, Some NotInit), r)
      | Some st \<Rightarrow>
          (let ks = map fst kvs
           in case node_loop pipe (\<lambda>k. (''Set'', [k, the (map_of kvs k), Itoa expire])) False (getNodeAndKeyMap ks) st [] [] of
             ((errs, ret), st') \<Rightarrow>
               (let err = (case errs of [] \<Rightarrow> None | e # _ \<Rightarrow> Some e);
                    r' = cc_report cost ''MSet2'' err (r\<lparr>rc_clusterClient := Some st'\<rparr>)
                in if err \<noteq> None \<and> length errs = length ks then ((None, err), r')
                   else ((Some (map (\<lambda>k. (k, k \<in> fst ` set ret)) ks), err), r'))))"

definition cc_MDel2 ::
    "('f, 's) pipe \<Rightarrow> int \<Rightarrow> string list \<Rightarrow> 's RedisCluster \<Rightarrow>
     ((string \<times> bool) list option \<times> rerror option) \<times> 's RedisCluster" where
  "cc_MDel2 pipe cost ks r =
     (case rc_clusterClient r of
        None \<Rightarrow> ((None, Some NotInit), r)
      | Some st \<Rightarrow>
          (case node_loop pipe (\<lambda>k. (''Del'', [k])) False (getNodeAndKeyMap ks) st [] [] of
             ((errs, ret), st') \<Rightarrow>
               (let err = (case errs of [] \<Rightarrow> None | e # _ \<Rightarrow> Some e);
                    r' = cc_report cost ''MDel2'' err (r\<lparr>rc_clusterClient := Some st'\<rparr>)
                in if err \<noteq> None \<and> length errs = length ks then ((None, err), r')
                   else ((Some (map (\<lambda>k. (k, k \<in> fst ` set ret)) ks), err), r'))))"

section \<open>Configuration\<close>

text \<open>Times are in nanoseconds in the options and in the units of the comments in the configuration.\<close>

record RedisClusterConf =
  rcc_Addrs :: "string list"
  rcc_DialTimeout :: int
  rcc_ReadTimeout :: int
  rcc_WriteTimeout :: int
  rcc_PoolSize :: int
  rcc_PoolTimeout :: int
  rcc_MinIdleConns :: int
  rcc_IdleTimeout :: int
  rcc_IdleCheckFrequency :: int
  rcc_MaxRedirects :: int

definition timeout_default :: "int \<Rightarrow> int \<Rightarrow> int \<Rightarrow> int" where
  "timeout_default unit dflt x = (if x * unit < 0 then - 1 else if x * unit = 0 then dflt else x * unit)"

definition newRedisCluster_options :: "RedisClusterConf option \<Rightarrow> string + RedisClusterConf" where
  "newRedisCluster_options conf =
     (case conf of
        None \<Rightarrow> Inl ''redisClusterConf is nil''
      | Some c \<Rightarrow>
          if rcc_Addrs c = [] then Inl ''addrs not set''
          else Inr \<lparr>rcc_Addrs = rcc_Addrs c,
                    rcc_DialTimeout = (if rcc_DialTimeout c * 1000000 \<le> 0 then 1000000000 else rcc_DialTimeout c * 1000000),
                    rcc_ReadTimeout = timeout_default 1000000 1000000000 (rcc_ReadTimeout c),
                    rcc_WriteTimeout = timeout_default 1000000 1000000000 (rcc_WriteTimeout c),
                    rcc_PoolSize = (if rcc_PoolSize c \<le> 0 then 100 else rcc_PoolSize c),
                    rcc_PoolTimeout = timeout_default 1000000 1000000000 (rcc_PoolTimeout c),
                    rcc_MinIdleConns = (if rcc_MinIdleConns c < 0 then 0 else rcc_MinIdleConns c),
                    rcc_IdleTimeout = (if rcc_IdleTimeout c * 1000000000 \<le> 0 then 1800000000000 else rcc_IdleTimeout c * 1000000000),
                    rcc_IdleCheckFrequency = timeout_default 1000000000 1800000000000 (rcc_IdleCheckFrequency c),
                    rcc_MaxRedirects = (if rcc_MaxRedirects c = 0 then 3 else rcc_MaxRedirects c)\<rparr>)"

section \<open>Calls and reports\<close>

lemma report_fail: "PcCostFail x \<in> set (reportPerf n cmd cost err) \<Longrightarrow> call_failure err"
  by (auto simp: reportPerf_def call_failure_def Let_def split: if_splits option.splits)

lemma report_fail_iff:
  "(\<exists>x. PcCostFail x \<in> set (reportPerf n cmd cost err)) \<longleftrightarrow> call_failure err"
  by (auto simp: reportPerf_def call_failure_def Let_def split: if_splits option.splits)

text \<open>What an operation added to the counters, and whether it counted a failed call.\<close>

definition counted_failure :: "'s RedisCluster \<Rightarrow> 's RedisCluster \<Rightarrow> bool" where
  "counted_failure r r' = (\<exists>x. PcCostFail x \<in> set (drop (length (rc_perf r)) (rc_perf r')))"

text \<open>An operation whose failed calls are counted, and one whose failed calls never are.\<close>

definition counts_failures :: "('s RedisCluster \<Rightarrow> ('v \<times> rerror option) \<times> 's RedisCluster) \<Rightarrow> bool" where
  "counts_failures oper =
     (\<forall>r v err r'. rc_clusterClient r \<noteq> None \<longrightarrow> oper r = ((v, err), r') \<longrightarrow>
        (counted_failure r r' \<longleftrightarrow> call_failure err))"

definition hides_failures :: "('s RedisCluster \<Rightarrow> ('v \<times> rerror option) \<times> 's RedisCluster) \<Rightarrow> bool" where
  "hides_failures oper = (\<forall>r v err r'. oper r = ((v, err), r') \<longrightarrow> \<not> counted_failure r r')"

lemma cc_call_counts: "counts_failures (cc_call srv cost name True noinit zero conv cmd)"
  by (auto simp: counts_failures_def counted_failure_def cc_call_def report_fail_iff
           split: option.splits prod.splits sum.splits)

lemma cc_call_hides: "hides_failures (cc_call srv cost name False noinit zero conv cmd)"
  by (auto simp: hides_failures_def counted_failure_def cc_call_def call_failure_def
           dest!: report_fail split: option.splits prod.splits sum.splits)

lemma nil_post_counts:
  "counts_failures oper \<Longrightarrow>
   counts_failures (\<lambda>r. case oper r of ((v, err), r') \<Rightarrow> (if err = Some RedisNil then ([], Some ErrNil) else (v, err), r'))"
  by (fastforce simp: counts_failures_def call_failure_def split: prod.splits if_splits)

lemmas cc_op_defs = cc_Get_def cc_Set_def cc_SetNX_def cc_Del_def cc_HGet_def cc_HGetAll_def cc_HSet_def
  cc_HSetNx_def cc_HMDel_def cc_Expire_def cc_PExpire_def cc_PTtl_def cc_HIncrBy_def cc_IncrBy_def
  cc_EvalSha_def cc_ZAdd_def cc_ZRange_def cc_ZRemRangeByRank_def cc_ZRemRangeByScore_def cc_ZRem_def
  cc_ZRevRange_def cc_SetBit_def cc_SAdd_def cc_SPop_def cc_LPop_def cc_LIndex_def cc_LPush_def
  cc_RPush_def cc_HLen_def cc_ZRangeByScoreWithScores_def cc_ZRevRangeByScoreWithScores_def cc_Exist_def

lemma mget_collect_notin: "k \<notin> set ks \<Longrightarrow> mget_collect ks cmds m k = m k"
  by (induction ks cmds m rule: mget_collect.induct) (auto split: sum.splits)

lemma mget_collect_nth:
  "distinct ks \<Longrightarrow> length cmds = length ks \<Longrightarrow> i < length ks \<Longrightarrow> \<forall>k \<in> set ks. m k = None \<Longrightarrow>
   mget_collect ks cmds m (ks ! i) = (case cmds ! i of Inl e \<Rightarrow> None | Inr x \<Rightarrow> Some (as_str x))"
proof (induction ks cmds m arbitrary: i rule: mget_collect.induct)
  case (1 k ks res rs m)
  let ?m = "case res of Inl e \<Rightarrow> (if e = RedisNil then m(k := None) else m) | Inr x \<Rightarrow> m(k \<mapsto> as_str x)"
  show ?case
  proof (cases i)
    case 0
    with "1.prems" show ?thesis by (auto simp: mget_collect_notin split: sum.splits)
  next
    case (Suc j)
    have "\<forall>k' \<in> set ks. ?m k' = None" using "1.prems" by (auto split: sum.splits)
    with "1.IH" [of j] "1.prems" Suc show ?thesis by auto
  qed
qed auto

section \<open>Properties\<close>

text \<open>
  Monitoring of the cluster client: the operations that keep the error in the variable read by
  the deferred \<open>reportPerf\<close> count a failed call exactly when they return a failure; the operations
  that return the library's results directly never count one.
\<close>

lemma cluster_failure_counts:
  "counts_failures (cc_Get srv cost k) \<and> counts_failures (cc_Set srv cost k v d) \<and>
   counts_failures (cc_SetNX srv cost k v d) \<and> counts_failures (cc_Del srv cost k) \<and>
   counts_failures (cc_HGet srv cost k f) \<and> counts_failures (cc_HGetAll srv cost k) \<and>
   counts_failures (cc_HSet srv cost k f v) \<and> counts_failures (cc_HSetNx srv cost k f v) \<and>
   counts_failures (cc_HIncrBy srv cost k f d) \<and> counts_failures (cc_IncrBy srv cost k d) \<and>
   counts_failures (cc_EvalSha srv cost sha ks args) \<and> counts_failures (cc_Exist srv cost k) \<and>
   counts_failures (cc_ZRangeByScoreWithScores srv cost k lo hi off lim) \<and>
   counts_failures (cc_ZRevRangeByScoreWithScores srv cost k lo hi off lim) \<and>
   hides_failures (cc_HMDel srv cost k ks) \<and> hides_failures (cc_Expire srv cost k d) \<and>
   hides_failures (cc_PExpire srv cost k d) \<and> hides_failures (cc_PTtl srv cost k) \<and>
   hides_failures (cc_ZAdd srv cost k ks) \<and> hides_failures (cc_ZRange srv cost k a b) \<and>
   hides_failures (cc_ZRemRangeByRank srv cost k a b) \<and> hides_failures (cc_ZRemRangeByScore srv cost k lo hi) \<and>
   hides_failures (cc_ZRem srv cost k ks) \<and> hides_failures (cc_ZRevRange srv cost k a b) \<and>
   hides_failures (cc_SetBit srv cost k a b) \<and> hides_failures (cc_SAdd srv cost k ks) \<and>
   hides_failures (cc_SPop srv cost k) \<and> hides_failures (cc_LPop srv cost k) \<and>
   hides_failures (cc_LIndex srv cost k a) \<and> hides_failures (cc_LPush srv cost k v) \<and>
   hides_failures (cc_RPush srv cost k v) \<and> hides_failures (cc_HLen srv cost k)"
proof -
  have e: "cc_Get srv cost k = (\<lambda>r. case cc_call srv cost ''Get'' True [] [] as_str (''Get'', [k]) r of
      ((v, err), r') \<Rightarrow> (if err = Some RedisNil then ([], Some ErrNil) else (v, err), r'))"
    "cc_HGet srv cost k f = (\<lambda>r. case cc_call srv cost ''HGet'' True [] [] as_str (''HGet'', [k, f]) r of
      ((v, err), r') \<Rightarrow> (if err = Some RedisNil then ([], Some ErrNil) else (v, err), r'))"
    by (simp_all add: fun_eq_iff cc_Get_def cc_HGet_def)
  show ?thesis
    unfolding e
    by (intro conjI nil_post_counts)
       (simp_all only: cc_op_defs [abs_def] cc_call_counts cc_call_hides)
qed

text \<open>
  \<open>MGet\<close> on distinct keys, with a pipeline that answers every command: the values come back in
  the order of the keys; a missing key and a key whose command failed both give nil, and the error
  is nil whenever the pipeline's own error is nil or \<open>redis.Nil\<close>.
\<close>

lemma MGet_aligned:
  assumes "distinct ks" and "rc_clusterClient r = Some st"
    and "pipe (map (\<lambda>k. (''Get'', [k])) ks) st = ((err, cmds), st')" and "length cmds = length ks"
    and "err = None \<or> err = Some RedisNil"
  shows "\<exists>vals r'. cc_MGet pipe cost ks r = ((Some vals, None), r') \<and> length vals = length ks \<and>
           (\<forall>i < length ks. vals ! i = (case cmds ! i of Inl e \<Rightarrow> None | Inr x \<Rightarrow> Some (as_str x))) \<and>
           rc_clusterClient r' = Some st'"
  using assms by (auto simp: cc_MGet_def Let_def mget_collect_nth cc_report_def)

definition ex_cluster :: "nat RedisCluster" where
  "ex_cluster = \<lparr>rc_clusterName = ''c'', rc_clusterClient = Some 0, rc_perf = []\<rparr>"

text \<open>
  The per-node variants do nothing: since \<open>getNodeAndKeyMap\<close> is empty, \<open>MGet2\<close> finds no key,
  \<open>MSet2\<close> and \<open>MDel2\<close> mark every key as failed, no command reaches the cluster, and all three
  return a nil error.
\<close>

lemma node_variants_do_nothing:
  assumes "rc_clusterClient r = Some st"
  shows "\<exists>r1 r2 r3.
     cc_MGet2 pipe cost ks r = ((Some (replicate (length ks) None), None), r1) \<and>
     cc_MSet2 pipe cost kvs expire r = ((Some (map (\<lambda>(k, v). (k, False)) kvs), None), r2) \<and>
     cc_MDel2 pipe cost ks r = ((Some (map (\<lambda>k. (k, False)) ks), None), r3) \<and>
     rc_clusterClient r1 = Some st \<and> rc_clusterClient r2 = Some st \<and> rc_clusterClient r3 = Some st"
  using assms
  by (simp add: cc_MGet2_def cc_MSet2_def cc_MDel2_def getNodeAndKeyMap_def Let_def cc_report_def map_replicate_const
      split_def)

text \<open>
  \<open>Eval\<close> sends the script by its digest and falls back to the full text exactly when the
  cluster does not know it: at most two commands are sent, the second only after a \<open>NOSCRIPT\<close>
  error, and the caller gets the result of the last one.
\<close>

lemma Eval_fallback:
  assumes "rc_clusterClient r = Some st"
    and "srv (''EvalSha'', sha script # Itoa (int (length ks)) # ks @ args) st = (res1, st1)"
    and "srv (''Eval'', script # Itoa (int (length ks)) # ks @ args) st1 = (res2, st2)"
  shows "\<exists>r'. cc_Eval srv cost sha script ks args r =
     (let fallback = (case res1 of Inl e \<Rightarrow> strings_Contains (rerror_text e) ''NOSCRIPT'' | Inr x \<Rightarrow> False);
          res = (if fallback then res2 else res1)
      in (case res of Inl e \<Rightarrow> (None, Some e) | Inr x \<Rightarrow> (Some x, None)), r') \<and>
     rc_clusterClient r' =
       Some (case res1 of Inl e \<Rightarrow> if strings_Contains (rerror_text e) ''NOSCRIPT'' then st2 else st1 | Inr x \<Rightarrow> st1)"
  using assms
  by (auto simp: cc_Eval_def cc_EvalSha_def cc_call_def Let_def split: sum.splits prod.splits)

end
