(* ===== verification/RedisPool.thy ===== *)
theory RedisPool
  imports Prelude
begin

text \<open>
  The redis connection pools of \<open>databases/redisdb/pool.go\<close>: the configuration with its defaults,
  the list of servers, the retry loop of \<open>Do\<close> with its choice of a server, and \<open>BatchDo\<close>.

  The redis servers and the redigo library are arguments: \<open>perm t\<close> is the random permutation drawn
  in turn \<open>t\<close>, \<open>conn_do s t\<close> what a connection to server \<open>s\<close> answers in turn \<open>t\<close>.  The commands the
  operations send are \<open>pool_command\<close>.
\<close>

section \<open>Configuration\<close>

record RedisConfig =
  rcf_Addrs :: "string list"
  rcf_MaxActive :: int
  rcf_MaxIdle :: int
  rcf_Retry :: int
  rcf_IdleTimeoutSec :: int
  rcf_ConnTimeoutMs :: int
  rcf_ReadTimeoutMs :: int
  rcf_WriteTimeoutMs :: int
  rcf_Password :: string
  rcf_DbNumber :: int

text \<open>A \<open>RedisPool\<close>: its servers, the settings shared by the per-server pools, and the retry bound.\<close>

record RedisPool =
  rpl_servers :: "string list"
  rpl_p :: "string \<rightharpoonup> RedisConfig"
  rpl_retry :: int

text \<open>\<open>newPoolRetryTimeout\<close>: empty and repeated servers are skipped.\<close>

fun pool_servers :: "RedisConfig \<Rightarrow> string list \<Rightarrow> RedisPool \<Rightarrow> RedisPool" where
  "pool_servers cfg [] rp = rp"
| "pool_servers cfg (server # rest) rp =
     (if server = [] then pool_servers cfg rest rp
      else if rpl_p rp server \<noteq> None then pool_servers cfg rest rp
      else pool_servers cfg rest
             (rp\<lparr>rpl_servers := rpl_servers rp @ [server], rpl_p := (rpl_p rp)(server \<mapsto> cfg)\<rparr>))"

definition newPoolRetryTimeout :: "RedisConfig \<Rightarrow> RedisPool" where
  "newPoolRetryTimeout cfg =
     pool_servers cfg (rcf_Addrs cfg) \<lparr>rpl_servers = [], rpl_p = Map.empty, rpl_retry = rcf_Retry cfg\<rparr>"

definition pool_defaults :: "RedisConfig \<Rightarrow> RedisConfig" where
  "pool_defaults cfg =
     cfg\<lparr>rcf_MaxActive := (if rcf_MaxActive cfg \<le> 0 then 500 else rcf_MaxActive cfg),
         rcf_MaxIdle := (if rcf_MaxIdle cfg \<le> 0 then 8 else rcf_MaxIdle cfg),
         rcf_IdleTimeoutSec := (if rcf_IdleTimeoutSec cfg \<le> 0 then 300 else rcf_IdleTimeoutSec cfg),
         rcf_Retry := (if rcf_Retry cfg \<le> 0 then 3 else rcf_Retry cfg),
         rcf_ConnTimeoutMs := (if rcf_ConnTimeoutMs cfg \<le> 0 then 400 else rcf_ConnTimeoutMs cfg),
         rcf_ReadTimeoutMs := (if rcf_ReadTimeoutMs cfg \<le> 0 then 700 else rcf_ReadTimeoutMs cfg),
         rcf_WriteTimeoutMs := (if rcf_WriteTimeoutMs cfg \<le> 0 then 500 else rcf_WriteTimeoutMs cfg)\<rparr>"

definition newRedisPools :: "RedisConfig \<Rightarrow> string + RedisPool" where
  "newRedisPools cfg =
     (if rcf_Addrs cfg = [] then Inl ''servers empty'' else Inr (newPoolRetryTimeout (pool_defaults cfg)))"

text \<open>\<open>strings.Split(s, ",")\<close>.\<close>

fun split_on :: "char \<Rightarrow> string \<Rightarrow> string list" where
  "split_on c [] = [[]]"
| "split_on c (x # xs) =
     (if x = c then [] # split_on c xs
      else (case split_on c xs of [] \<Rightarrow> [[x]] | y # ys \<Rightarrow> (x # y) # ys))"

text \<open>\<open>initRedis\<close>: \<open>key\<close> and \<open>key_int\<close> read the section of the ini file (0 for what is not a number).\<close>

definition initRedis :: "(string \<Rightarrow> string) \<Rightarrow> (string \<Rightarrow> int) \<Rightarrow> string + RedisPool" where
  "initRedis key key_int =
     newRedisPools
       \<lparr>rcf_Addrs = split_on (CHR '','') (key ''addr''), rcf_MaxActive = key_int ''maxActive'',
        rcf_MaxIdle = key_int ''maxIdle'', rcf_Retry = key_int ''retry'',
        rcf_IdleTimeoutSec = key_int ''idleTimeout'', rcf_ConnTimeoutMs = key_int ''connTimeout'',
        rcf_ReadTimeoutMs = key_int ''readTimeout'', rcf_WriteTimeoutMs = key_int ''writeTimeout'',
        rcf_Password = key ''password'', rcf_DbNumber = key_int ''dbNumber''\<rparr>"

text \<open>\<open>initObjForRedisDb\<close>; \<open>load\<close> is \<open>ini.Load\<close> followed by the selection of the section.\<close>

definition initObjForRedisDb ::
    "(string \<Rightarrow> string + ((string \<Rightarrow> string) \<times> (string \<Rightarrow> int))) \<Rightarrow> string \<Rightarrow> string + RedisPool" where
  "initObjForRedisDb load path =
     (if path = [] then Inl ''redisConf not set in g_cfg''
      else if \<not> HasSuffix path ''.ini'' then Inl ''redisConf not an ini file''
      else case load path of Inl e \<Rightarrow> Inl e | Inr (key, key_int) \<Rightarrow> initRedis key key_int)"

section \<open>Do\<close>

text \<open>\<open>getConn\<close>: the first server of the permutation that is not used yet; nothing when all are.\<close>

fun getConn :: "string list \<Rightarrow> nat list \<Rightarrow> string list \<Rightarrow> string option" where
  "getConn servers [] usedIps = None"
| "getConn servers (idx # perm) usedIps =
     (let server = servers ! idx
      in if server \<in> set usedIps then getConn servers perm usedIps else Some server)"

text \<open>
  The loop of \<open>Do\<close> from turn \<open>turn + 1\<close> on, with the servers asked so far.  Without a server left the
  connection is nil and calling its method \<open>Do\<close> panics.
\<close>

function Do_loop ::
    "string list \<Rightarrow> int \<Rightarrow> (nat \<Rightarrow> nat list) \<Rightarrow> (string \<Rightarrow> nat \<Rightarrow> 'e + 'r) \<Rightarrow> nat \<Rightarrow> string list \<Rightarrow>
     (('e + 'r) \<times> string list) go" where
  "Do_loop servers retry perm conn_do turn usedIps =
     (let turn = turn + 1
      in case getConn servers (perm turn) usedIps of
           None \<Rightarrow> Inl NilDeref
         | Some server \<Rightarrow>
             (case conn_do server turn of
                Inr reply \<Rightarrow> Inr (Inr reply, usedIps @ [server])
              | Inl e \<Rightarrow>
                  if int turn \<ge> retry then Inr (Inl e, usedIps @ [server])
                  else Do_loop servers retry perm conn_do turn (usedIps @ [server])))"
  by pat_completeness auto

termination
  by (relation "measure (\<lambda>(servers, retry, perm, conn_do, turn, used). nat (retry - int turn))") auto

declare Do_loop.simps [simp del]

definition pool_Do ::
    "RedisPool \<Rightarrow> (nat \<Rightarrow> nat list) \<Rightarrow> (string \<Rightarrow> nat \<Rightarrow> 'e + 'r) \<Rightarrow> (('e + 'r) \<times> string list) go" where
  "pool_Do rp perm conn_do = Do_loop (rpl_servers rp) (rpl_retry rp) perm conn_do 0 []"

section \<open>Batches\<close>

datatype 'a BatchReply = BatchReply "string \<times> 'a" "string + string"

primrec br_Req :: "'a BatchReply \<Rightarrow> string \<times> 'a" where
  "br_Req (BatchReply req r) = req"

primrec br_Err :: "'a BatchReply \<Rightarrow> bool" where
  "br_Err (BatchReply req r) = (case r of Inl e \<Rightarrow> True | Inr x \<Rightarrow> False)"

text \<open>
  \<open>batchDo\<close>: every request is executed in the goroutine pool (or times out waiting for it) and its
  reply sent to a channel; \<open>chan\<close> is the order in which the replies arrive.
\<close>

definition batchDo ::
    "('a BatchReply list \<Rightarrow> 'a BatchReply list) \<Rightarrow> (string \<times> 'a \<Rightarrow> string + string) \<Rightarrow> (string \<times> 'a) list \<Rightarrow>
     'a BatchReply list \<times> 'a BatchReply list \<times> (string \<times> 'a) list" where
  "batchDo chan exec req =
     (let c = chan (map (\<lambda>r. BatchReply r (exec r)) req);
          bad = filter br_Err c
      in (filter (\<lambda>r. \<not> br_Err r) c, bad, map br_Req bad))"

function BatchDo_loop ::
    "int \<Rightarrow> (nat \<Rightarrow> 'a BatchReply list \<Rightarrow> 'a BatchReply list) \<Rightarrow> (nat \<Rightarrow> string \<times> 'a \<Rightarrow> string + string) \<Rightarrow>
     nat \<Rightarrow> (string \<times> 'a) list \<Rightarrow> 'a BatchReply list \<Rightarrow> 'a BatchReply list" where
  "BatchDo_loop retry chan exec turn req reply =
     (let turn = turn + 1
      in case batchDo (chan turn) (exec turn) req of
           (oks, errReply, rest) \<Rightarrow>
             (if rest = [] then reply @ oks
              else if int turn \<ge> retry then reply @ oks @ errReply
              else BatchDo_loop retry chan exec turn rest (reply @ oks)))"
  by pat_completeness auto

termination
  by (relation "measure (\<lambda>(retry, chan, exec, turn, req, reply). nat (retry - int turn))") auto

declare BatchDo_loop.simps [simp del]

definition BatchDo where
  "BatchDo rp chan exec req = BatchDo_loop (rpl_retry rp) chan exec 0 req []"

section \<open>Commands\<close>

datatype pool_op =
    PGet string | PSet string string | PDel string | PHGetAll string | PHScan string int
  | PHGet string string | PHDel string string | PHSet string string string
  | PHMGet string "string list" | PHMDel string "string list" | PIncrBy string int
  | PHIncrBy string string int | PIncr string | PExpire string int | PSetNX string string int
  | PMGet "string list" | PSetEx string int string | PSAdd string "string list"
  | PZAdd string int string | PZRemByScore string string string | PZRange string int int
  | PExists string | PSPop string | PLIndex string int | PLPop string | PRPush string string
  | PLPush string string | PHLen string

primrec pool_command :: "pool_op \<Rightarrow> string \<times> string list" where
  "pool_command (PGet key) = (''GET'', [key])"
| "pool_command (PSet key val) = (''SET'', [key, val])"
| "pool_command (PDel key) = (''DEL'', [key])"
| "pool_command (PHGetAll key) = (''HGETALL'', [key])"
| "pool_command (PHScan key n) = (''HSCAN'', [key, ''0'', ''COUNT'', Itoa n])"
| "pool_command (PHGet key field) = (''HGET'', [key, field])"
| "pool_command (PHDel key field) = (''HDEL'', [key, field])"
| "pool_command (PHSet key field val) = (''HSET'', [key, field, val])"
| "pool_command (PHMGet key fs) = (''HMGET'', key # fs)"
| "pool_command (PHMDel key fs) = (''HDEL'', key # fs)"
| "pool_command (PIncrBy key n) = (''INCRBY'', [key, Itoa n])"
| "pool_command (PHIncrBy key field n) = (''HINCRBY'', [key, field, Itoa n])"
| "pool_command (PIncr key) = (''INCR'', [key])"
| "pool_command (PExpire key n) = (''EXPIRE'', [key, Itoa n])"
| "pool_command (PSetNX key val expire) = (''SET'', [key, val, ''EX'', Itoa expire, ''NX''])"
| "pool_command (PMGet keys) = (''MGET'', keys)"
| "pool_command (PSetEx key expire val) = (''SETEX'', [key, Itoa expire, val])"
| "pool_command (PSAdd key vals) = (''SADD'', key # vals)"
| "pool_command (PZAdd key score val) = (''ZADD'', [key, Itoa score, val])"
| "pool_command (PZRemByScore key a b) = (''ZREMRANGEBYSCORE'', [key, a, b])"
| "pool_command (PZRange key a b) = (''ZRANGE'', [key, Itoa a, Itoa b])"
| "pool_command (PExists key) = (''EXISTS'', [key])"
| "pool_command (PSPop key) = (''SPOP'', [key])"
| "pool_command (PLIndex key i) = (''LINDEX'', [key, Itoa i])"
| "pool_command (PLPop key) = (''LPOP'', [key])"
| "pool_command (PRPush key val) = (''RPUSH'', [key, val])"
| "pool_command (PLPush key val) = (''LPUSH'', [key, val])"
| "pool_command (PHLen key) = (''HLEN'', [key])"

text \<open>
  The deferred report of \<open>Do\<close>: for a call slower than 100 milliseconds it logs \<open>args[0]\<close>, which does
  not exist for a command without arguments.
\<close>

definition Do_report :: "int \<Rightarrow> string list \<Rightarrow> string list go" where
  "Do_report cost args =
     (if cost div 1000000 > 20
      then (if cost div 1000000 > 100
            then (case args of [] \<Rightarrow> Inl IndexOutOfRange | a # _ \<Rightarrow> Inr [''slow'', a])
            else Inr [''slow''])
      else Inr [])"

section \<open>Servers\<close>

lemma pool_servers_spec:
  "dom (rpl_p rp) = set (rpl_servers rp) \<Longrightarrow> distinct (rpl_servers rp) \<Longrightarrow>
   dom (rpl_p (pool_servers cfg ss rp)) = set (rpl_servers (pool_servers cfg ss rp)) \<and>
   distinct (rpl_servers (pool_servers cfg ss rp)) \<and>
   set (rpl_servers (pool_servers cfg ss rp)) = set (rpl_servers rp) \<union> (set ss - {[]}) \<and>
   rpl_retry (pool_servers cfg ss rp) = rpl_retry rp"
proof (induction ss arbitrary: rp)
  case (Cons server rest)
  consider "server = []" | "server \<noteq> []" "server \<in> set (rpl_servers rp)" | "server \<noteq> []" "server \<notin> set (rpl_servers rp)"
    by blast
  then show ?case
  proof cases
    case 1
    with Cons.IH [OF Cons.prems] show ?thesis by simp
  next
    case 2
    with Cons.prems(1) have "rpl_p rp server \<noteq> None" by auto
    moreover have "set (rpl_servers rp) \<union> (set (server # rest) - {[]}) = set (rpl_servers rp) \<union> (set rest - {[]})"
      using 2 by auto
    ultimately show ?thesis using 2(1) Cons.IH [OF Cons.prems] by simp
  next
    case 3
    let ?rp = "rp\<lparr>rpl_servers := rpl_servers rp @ [server], rpl_p := (rpl_p rp)(server \<mapsto> cfg)\<rparr>"
    from 3 Cons.prems(1) have "rpl_p rp server = None" by auto
    moreover have d: "dom (rpl_p ?rp) = set (rpl_servers ?rp)" "distinct (rpl_servers ?rp)" using Cons.prems 3 by auto
    moreover have "set (rpl_servers ?rp) \<union> (set rest - {[]}) = set (rpl_servers rp) \<union> (set (server # rest) - {[]})"
      using 3(1) by auto
    ultimately show ?thesis using Cons.IH [OF d] 3(1) by simp
  qed
qed simp

section \<open>The retry loop\<close>

lemma getConn_Some:
  "getConn servers perm used = Some s \<Longrightarrow> set perm \<subseteq> {..<length servers} \<Longrightarrow> s \<in> set servers \<and> s \<notin> set used"
  by (induction perm) (auto simp: Let_def split: if_splits)

lemma getConn_None:
  "getConn servers perm used = None \<longleftrightarrow> (\<forall>i \<in> set perm. servers ! i \<in> set used)"
  by (induction perm) (auto simp: Let_def)

text \<open>\<open>rand.Perm(n)\<close> returns a permutation of the indices.\<close>

definition is_perm :: "nat list \<Rightarrow> nat \<Rightarrow> bool" where
  "is_perm p n = (mset p = mset [0..<n])"

lemma is_perm_set: "is_perm p n \<Longrightarrow> set p = {..<n}"
  unfolding is_perm_def by (metis mset_eq_setD set_upt lessThan_atLeast0)

lemma getConn_perm:
  assumes "is_perm p (length servers)"
  shows "getConn servers p used = None \<longleftrightarrow> set servers \<subseteq> set used"
    and "getConn servers p used = Some s \<Longrightarrow> s \<in> set servers \<and> s \<notin> set used"
proof -
  show "getConn servers p used = None \<longleftrightarrow> set servers \<subseteq> set used"
    unfolding getConn_None is_perm_set [OF assms] by (auto simp: subset_iff in_set_conv_nth [of _ servers])
  show "getConn servers p used = Some s \<Longrightarrow> s \<in> set servers \<and> s \<notin> set used"
    using getConn_Some [of servers p used s] is_perm_set [OF assms] by simp
qed

text \<open>The servers asked so far all failed, each once, in turns \<open>1, 2, \<dots>\<close>.\<close>

definition asked :: "string list \<Rightarrow> (string \<Rightarrow> nat \<Rightarrow> 'e + 'r) \<Rightarrow> string list \<Rightarrow> bool" where
  "asked servers conn_do used =
     (distinct used \<and> set used \<subseteq> set servers \<and> (\<forall>i < length used. \<exists>e. conn_do (used ! i) (i + 1) = Inl e))"

lemma asked_snoc:
  "asked servers conn_do used \<Longrightarrow> s \<in> set servers \<Longrightarrow> s \<notin> set used \<Longrightarrow> conn_do s (length used + 1) = Inl e \<Longrightarrow>
   asked servers conn_do (used @ [s])"
  by (auto simp: asked_def nth_append less_Suc_eq)

lemma Do_loop_spec:
  assumes perm: "\<And>t. is_perm (perm t) (length servers)" and d: "distinct servers"
    and "asked servers conn_do used" and "int (length used) < max 1 retry"
  shows "(\<exists>res before s. Do_loop servers retry perm conn_do (length used) used = Inr (res, before @ [s]) \<and>
            asked servers conn_do before \<and> s \<in> set servers - set before \<and>
            res = conn_do s (length before + 1) \<and> int (length before) < max 1 retry \<and>
            ((\<exists>r. res = Inr r) \<or> int (length before + 1) = max 1 retry)) \<or>
         (Do_loop servers retry perm conn_do (length used) used = Inl NilDeref \<and>
            int (length servers) < max 1 retry \<and> (\<exists>all. asked servers conn_do all \<and> set all = set servers))"
  using assms(3,4)
proof (induction "nat (max 1 retry - int (length used))" arbitrary: used rule: less_induct)
  case less
  show ?case
  proof (cases "getConn servers (perm (length used + 1)) used")
    case None
    then have "set servers \<subseteq> set used" using getConn_perm(1) [OF perm] by simp
    then have eq: "set used = set servers" using less.prems(1) by (auto simp: asked_def)
    then have "length used = length servers"
      using less.prems(1) d by (metis asked_def distinct_card)
    with None eq less.prems show ?thesis by (subst (1 2) Do_loop.simps) (auto simp: Let_def)
  next
    case (Some s)
    note s = getConn_perm(2) [OF perm Some]
    show ?thesis
    proof (cases "conn_do s (length used + 1)")
      case (Inr r)
      with Some s less.prems show ?thesis
        by (intro disjI1 exI [of _ "Inr r"] exI [of _ used] exI [of _ s])
           (simp add: Do_loop.simps [of servers retry perm conn_do "length used"] Let_def)
    next
      case (Inl e)
      show ?thesis
      proof (cases "int (length used + 1) \<ge> retry")
        case True
        with Some s Inl less.prems show ?thesis
          by (intro disjI1 exI [of _ "Inl e"] exI [of _ used] exI [of _ s])
             (auto simp add: Do_loop.simps [of servers retry perm conn_do "length used"] Let_def)
      next
        case False
        have a: "asked servers conn_do (used @ [s])" using asked_snoc less.prems(1) s Inl by fast
        have "nat (max 1 retry - int (length (used @ [s]))) < nat (max 1 retry - int (length used))"
          "int (length (used @ [s])) < max 1 retry" using False by auto
        note IH = less.hyps [OF this(1) a this(2)]
        have "Do_loop servers retry perm conn_do (length used) used =
              Do_loop servers retry perm conn_do (length (used @ [s])) (used @ [s])"
          using Some Inl False by (simp add: Do_loop.simps [of servers retry perm conn_do "length used"] Let_def)
        with IH show ?thesis by simp
      qed
    qed
  qed
qed

lemma newRedisPools_spec:
  assumes "newRedisPools cfg = Inr rp"
  shows "distinct (rpl_servers rp)" "set (rpl_servers rp) = set (rcf_Addrs cfg) - {[]}"
    "dom (rpl_p rp) = set (rpl_servers rp)" "1 \<le> rpl_retry rp"
proof -
  have rp: "rp = newPoolRetryTimeout (pool_defaults cfg)"
    using assms by (simp add: newRedisPools_def split: if_splits)
  have a: "rcf_Addrs (pool_defaults cfg) = rcf_Addrs cfg" and r: "1 \<le> rcf_Retry (pool_defaults cfg)"
    by (simp_all add: pool_defaults_def)
  note sp = pool_servers_spec [of "\<lparr>rpl_servers = [], rpl_p = Map.empty, rpl_retry = rcf_Retry (pool_defaults cfg)\<rparr>"
      "pool_defaults cfg" "rcf_Addrs cfg"]
  show "distinct (rpl_servers rp)" "set (rpl_servers rp) = set (rcf_Addrs cfg) - {[]}"
    "dom (rpl_p rp) = set (rpl_servers rp)" "1 \<le> rpl_retry rp"
    using sp r by (auto simp: rp newPoolRetryTimeout_def a Let_def)
qed

lemma batchDo_mset:
  assumes "\<And>xs. mset (chan xs) = mset xs" and "batchDo chan exec req = (oks, bad, rest)"
  shows "mset (map br_Req oks) + mset (map br_Req bad) = mset req" "mset rest = mset (map br_Req bad)"
proof -
  have b: "oks = filter (\<lambda>r. \<not> br_Err r) (chan (map (\<lambda>r. BatchReply r (exec r)) req))"
    "bad = filter br_Err (chan (map (\<lambda>r. BatchReply r (exec r)) req))" "rest = map br_Req bad"
    using assms(2) by (auto simp: batchDo_def Let_def)
  have "mset oks + mset bad = mset (map (\<lambda>r. BatchReply r (exec r)) req)"
    unfolding b(1,2) using assms(1) [of "map (\<lambda>r. BatchReply r (exec r)) req"]
    by (metis add.commute mset_filter multiset_partition)
  then have "image_mset br_Req (mset oks) + image_mset br_Req (mset bad) =
      image_mset br_Req (mset (map (\<lambda>r. BatchReply r (exec r)) req))"
    by (metis image_mset_union)
  then show "mset (map br_Req oks) + mset (map br_Req bad) = mset req"
    by (simp add: image_mset.compositionality comp_def)
  show "mset rest = mset (map br_Req bad)" using b(3) by simp
qed

lemma BatchDo_loop_mset:
  assumes "\<And>t xs. mset (chan t xs) = mset xs"
  shows "mset (map br_Req (BatchDo_loop retry chan exec turn req reply)) = mset (map br_Req reply) + mset req"
  using assms
proof (induction retry chan exec turn req reply rule: BatchDo_loop.induct)
  case (1 retry chan exec turn req reply)
  obtain oks bad rest where b: "batchDo (chan (turn + 1)) (exec (turn + 1)) req = (oks, bad, rest)"
    by (metis prod_cases3)
  note m = batchDo_mset [OF 1(2) b]
  show ?case
  proof (cases "rest = [] \<or> int (turn + 1) \<ge> retry")
    case True
    with b m show ?thesis by (subst BatchDo_loop.simps) (auto simp: Let_def)
  next
    case False
    with 1(1) [OF refl b [symmetric] refl _ _ 1(2)] b m show ?thesis
      by (subst BatchDo_loop.simps) (auto simp: Let_def)
  qed
qed

lemma pool_Do_cases:
  assumes "newRedisPools cfg = Inr rp" and "\<forall>t. is_perm (perm t) (length (rpl_servers rp))"
  shows "(\<exists>res before s. pool_Do rp perm conn_do = Inr (res, before @ [s]) \<and>
            asked (rpl_servers rp) conn_do before \<and> s \<in> set (rpl_servers rp) - set before \<and>
            res = conn_do s (length before + 1) \<and> int (length before) < rpl_retry rp \<and>
            ((\<exists>r. res = Inr r) \<or> int (length before + 1) = rpl_retry rp)) \<or>
         (pool_Do rp perm conn_do = Inl NilDeref \<and> int (length (rpl_servers rp)) < rpl_retry rp \<and>
            (\<exists>all. asked (rpl_servers rp) conn_do all \<and> set all = set (rpl_servers rp)))"
proof -
  note n = newRedisPools_spec [OF assms(1)]
  have m: "max 1 (rpl_retry rp) = rpl_retry rp" using n(4) by simp
  have p: "\<And>t. is_perm (perm t) (length (rpl_servers rp))" using assms(2) by blast
  have a: "asked (rpl_servers rp) conn_do []" by (simp add: asked_def)
  have l: "int (length ([] :: string list)) < max 1 (rpl_retry rp)" using n(4) by simp
  show ?thesis
    using Do_loop_spec [OF p n(1) a l] unfolding pool_Do_def m by (simp add: m)
qed

section \<open>Properties\<close>

text \<open>
  C23. \<open>Do\<close> on a pool of the configured servers asks a different server in every turn, at most
  \<open>retry\<close> of them, and returns the first success or the error of the last turn; or it panics on a
  nil connection, exactly when every one of fewer than \<open>retry\<close> servers has failed.
\<close>

theorem pool_Do_outcome:
  assumes "newRedisPools cfg = Inr rp" and "\<forall>t. is_perm (perm t) (length (rpl_servers rp))"
  shows "(\<exists>res before s. pool_Do rp perm conn_do = Inr (res, before @ [s]) \<and>
            asked (rpl_servers rp) conn_do before \<and> s \<in> set (rpl_servers rp) - set before \<and>
            res = conn_do s (length before + 1) \<and> int (length before) < rpl_retry rp \<and>
            ((\<exists>r. res = Inr r) \<or> int (length before + 1) = rpl_retry rp)) \<or>
         (pool_Do rp perm conn_do = Inl NilDeref \<and> int (length (rpl_servers rp)) < rpl_retry rp \<and>
            (\<exists>all. asked (rpl_servers rp) conn_do all \<and> set all = set (rpl_servers rp)))"
  by (rule pool_Do_cases [OF assms])

definition ex_cfg :: RedisConfig where
  "ex_cfg = \<lparr>rcf_Addrs = [''a:1'', ''b:2''], rcf_MaxActive = 0, rcf_MaxIdle = 0, rcf_Retry = 2, rcf_IdleTimeoutSec = 0,
     rcf_ConnTimeoutMs = 0, rcf_ReadTimeoutMs = 0, rcf_WriteTimeoutMs = 0, rcf_Password = [], rcf_DbNumber = 0\<rparr>"

lemma ex_pool: "newRedisPools ex_cfg = Inr (newPoolRetryTimeout (pool_defaults ex_cfg))"
  "rpl_servers (newPoolRetryTimeout (pool_defaults ex_cfg)) = [''a:1'', ''b:2'']"
  "rpl_retry (newPoolRetryTimeout (pool_defaults ex_cfg)) = 2"
  by (simp_all add: newRedisPools_def newPoolRetryTimeout_def pool_defaults_def ex_cfg_def)

theorem pool_Do_outcome_witness:
  "(\<exists>res before s. pool_Do (newPoolRetryTimeout (pool_defaults ex_cfg)) (\<lambda>_. [1, 0])
      (\<lambda>s t. if s = ''a:1'' then Inr t else Inl ''refused'') = Inr (res, before @ [s])) \<or>
   pool_Do (newPoolRetryTimeout (pool_defaults ex_cfg)) (\<lambda>_. [1, 0])
      (\<lambda>s t. if s = ''a:1'' then Inr t else Inl ''refused'') = Inl NilDeref"
  using pool_Do_outcome [OF ex_pool(1), of "\<lambda>_. [1, 0]" "\<lambda>s t. if s = ''a:1'' then Inr t else Inl ''refused''"]
  by (auto simp: is_perm_def ex_pool)

text \<open>
  A pool with one server and a retry bound of at least two, such as the default bound of
  three: any error of the server, a wrong-type reply included, is turned into a panic by the second
  turn.
\<close>

lemma pool_Do_single_server_panics:
  assumes "newRedisPools cfg = Inr rp" and "rpl_servers rp = [s]" and "2 \<le> rpl_retry rp"
    and "\<forall>t. is_perm (perm t) 1" and "conn_do s 1 = Inl e"
  shows "pool_Do rp perm conn_do = Inl NilDeref"
proof -
  have p: "\<forall>t. is_perm (perm t) (length (rpl_servers rp))" using assms(2,4) by simp
  have b: "before = []" if "s' \<in> set (rpl_servers rp) - set before" "asked (rpl_servers rp) conn_do before" for before s'
    using that assms(2) by (cases before) (auto simp: asked_def)
  from pool_Do_cases [OF assms(1) p, of conn_do] show ?thesis
    using b assms(2,3,5) by fastforce
qed

text \<open>
  \<open>BatchDo\<close> answers every request exactly once: the requests of the replies it returns are the
  given requests, whatever fails in which turn and in whatever order replies arrive.
\<close>

lemma BatchDo_complete:
  assumes "\<forall>t xs. mset (chan t xs) = mset xs"
  shows "mset (map br_Req (BatchDo rp chan exec req)) = mset req"
  using BatchDo_loop_mset [of chan "rpl_retry rp" exec 0 req "[]"] assms by (simp add: BatchDo_def)

end
