(* ===== verification/MysqlSql.thy ===== *)
theory MysqlSql
  imports Prelude
begin

text \<open>
  The SQL texts of \<open>databases/mysqldb\<close>: escaping and the condition builder of \<open>utils.go\<close>, what
  reflection reads of the application's structures, and the statements that \<open>Update\<close>, \<open>Add\<close>,
  \<open>InsertOrUpdateOnDup\<close> and \<open>Delete\<close> of \<open>db.go\<close> build, for MySQL and for the \<open>dm\<close> dialect.

  A statement is a text with one \<open>?\<close> for every argument passed beside it; the number of question marks
  and arguments has to agree for a database to accept it.  Go maps are lists of entries in the order in
  which the run-time visits them, without repeated keys.
\<close>

section \<open>Strings\<close>

text \<open>\<open>strings.Replace(s, old, new, 1)\<close> and \<open>strings.ReplaceAll\<close>, for a text \<open>old\<close> that is not empty.\<close>

definition strings_Replace1 :: "string \<Rightarrow> string \<Rightarrow> string \<Rightarrow> string" where
  "strings_Replace1 s old new =
     (case strings_Index s old of None \<Rightarrow> s | Some i \<Rightarrow> take i s @ new @ drop (i + length old) s)"

fun replace_loop :: "string \<Rightarrow> string \<Rightarrow> nat \<Rightarrow> string \<Rightarrow> string" where
  "replace_loop old new n [] = []"
| "replace_loop old new (Suc n) (c # cs) = replace_loop old new n cs"
| "replace_loop old new 0 (c # cs) =
     (if HasPrefix (c # cs) old then new @ replace_loop old new (length old - 1) cs
      else c # replace_loop old new 0 cs)"

definition strings_ReplaceAll :: "string \<Rightarrow> string \<Rightarrow> string \<Rightarrow> string" where
  "strings_ReplaceAll s old new = replace_loop old new 0 s"

section \<open>Escaping\<close>

definition escape_of :: "char \<Rightarrow> char option" where
  "escape_of c =
     (if c = CHR 0x00 then Some (CHR ''0'')
      else if c = CHR 0x0D then Some (CHR ''r'')
      else if c = CHR 0x0A then Some (CHR ''n'')
      else if c = CHR 0x5C then Some (CHR 0x5C)
      else if c = CHR 0x27 then Some (CHR 0x27)
      else if c = CHR 0x22 then Some (CHR 0x22)
      else if c = CHR 0x1A then Some (CHR ''Z'')
      else None)"

text \<open>The loop of \<open>MysqlEscapeString\<close> over its buffer \<open>desc\<close> of twice the length, with its writes checked.\<close>

definition buf_put :: "string \<Rightarrow> nat \<Rightarrow> char \<Rightarrow> string go" where
  "buf_put desc j c = (if j < length desc then Inr (desc[j := c]) else Inl IndexOutOfRange)"

fun escape_loop :: "string \<Rightarrow> string \<Rightarrow> nat \<Rightarrow> (string \<times> nat) go" where
  "escape_loop [] desc j = Inr (desc, j)"
| "escape_loop (c # cs) desc j =
     (case escape_of c of
        Some e \<Rightarrow>
          go_bind (buf_put desc j (CHR 0x5C)) (\<lambda>desc.
          go_bind (buf_put desc (j + 1) e) (\<lambda>desc. escape_loop cs desc (j + 2)))
      | None \<Rightarrow> go_bind (buf_put desc j c) (\<lambda>desc. escape_loop cs desc (j + 1)))"

definition escape_buffer :: "string \<Rightarrow> string go" where
  "escape_buffer source =
     (if source = [] then Inr []
      else go_bind (escape_loop source (replicate (length source * 2) (CHR 0x00)) 0) (\<lambda>(desc, j). Inr (take j desc)))"

text \<open>Its result, by recursion on the source.\<close>

fun MysqlEscapeString :: "string \<Rightarrow> string" where
  "MysqlEscapeString [] = []"
| "MysqlEscapeString (c # cs) =
     (case escape_of c of Some e \<Rightarrow> CHR 0x5C # e # MysqlEscapeString cs | None \<Rightarrow> c # MysqlEscapeString cs)"

text \<open>
  The server is not part of the repository.  \<open>read q t\<close> stands for its reading of the rest \<open>t\<close> of a string
  literal opened by the quote \<open>q\<close>: the value of the literal and what follows the closing quote, or \<open>None\<close>
  when the literal does not end.  The laws are those of the chapter on string literals of the MySQL
  manual (without the mode \<open>NO_BACKSLASH_ESCAPES\<close>): a backslash and a letter of the table of special
  characters stand for the character of the table, a doubled quote stands for the quote, a single one ends
  the literal, and every other character stands for itself.
\<close>

type_synonym literal_read = "char \<Rightarrow> string \<Rightarrow> (string \<times> string) option"

definition special_characters :: "(char \<times> char) list" where
  "special_characters =
     [(CHR ''0'', CHR 0x00), (CHR 0x27, CHR 0x27), (CHR 0x22, CHR 0x22), (CHR ''b'', CHR 0x08),
      (CHR ''n'', CHR 0x0A), (CHR ''r'', CHR 0x0D), (CHR ''t'', CHR 0x09), (CHR ''Z'', CHR 0x1A),
      (CHR 0x5C, CHR 0x5C)]"

definition value_char :: "char \<Rightarrow> (string \<times> string) option \<Rightarrow> (string \<times> string) option" where
  "value_char c = map_option (\<lambda>(v, rest). (c # v, rest))"

definition quote_chars :: "char list" where
  "quote_chars = [CHR 0x27, CHR 0x22]"

definition ends_literal :: "char \<Rightarrow> string \<Rightarrow> bool" where
  "ends_literal q rest = (case rest of [] \<Rightarrow> True | c # _ \<Rightarrow> c \<noteq> q)"

definition reads_literals :: "literal_read \<Rightarrow> bool" where
  "reads_literals read \<longleftrightarrow>
     (\<forall>q \<in> set quote_chars. \<forall>t.
        (ends_literal q t \<longrightarrow> read q (q # t) = Some ([], t)) \<and>
        read q (q # q # t) = value_char q (read q t) \<and>
        (\<forall>(e, c) \<in> set special_characters. read q (CHR 0x5C # e # t) = value_char c (read q t)) \<and>
        (\<forall>c. c \<noteq> q \<and> c \<noteq> CHR 0x5C \<longrightarrow> read q (c # t) = value_char c (read q t)))"

text \<open>A reader with these laws.\<close>

fun read_literal :: literal_read where
  "read_literal q [] = None"
| "read_literal q [c] = (if c = q then Some ([], []) else None)"
| "read_literal q (c # d # t) =
     (if c = q then (if d = q then value_char q (read_literal q t) else Some ([], d # t))
      else if c = CHR 0x5C
      then value_char (case map_of special_characters d of Some v \<Rightarrow> v | None \<Rightarrow> d) (read_literal q t)
      else value_char c (read_literal q (d # t)))"

section \<open>Conditions\<close>

datatype dval = VNil | VInt int | VStr string | VOther string

text \<open>The value of a condition: the three kinds of slices the code looks for, or anything else.\<close>

datatype cval = CAnys "dval list" | CInt64s "int list" | CStrs "string list" | CScalar dval

definition makeSqlPlaceHolderForIn :: "dval list \<Rightarrow> string" where
  "makeSqlPlaceHolderForIn vals =
     ''('' @ concat (map (\<lambda>k. if k \<noteq> length vals - 1 then ''?,'' else ''?'') [0..<length vals]) @ '')''"

definition in_values :: "cval \<Rightarrow> dval list" where
  "in_values v = (case v of CAnys vs \<Rightarrow> vs | CInt64s vs \<Rightarrow> map VInt vs | CStrs vs \<Rightarrow> map VStr vs | CScalar x \<Rightarrow> [x])"

definition is_slice :: "cval \<Rightarrow> bool" where
  "is_slice v = (case v of CScalar x \<Rightarrow> False | _ \<Rightarrow> True)"

definition buildWhereSql :: "(string \<times> cval) list \<Rightarrow> string \<times> dval list" where
  "buildWhereSql data =
     (strings_Join (map (\<lambda>(idx, v).
        (let k = MysqlEscapeString idx
         in if is_slice v then '' `'' @ k @ ''` in '' @ makeSqlPlaceHolderForIn (in_values v) @ '' ''
            else '' `'' @ k @ ''` = ? '')) data) ''AND'',
      concat (map (\<lambda>(idx, v). in_values v) data))"

record condition =
  co_key :: string
  co_compare :: string
  co_value :: cval

record orderBy =
  ob_key :: string
  ob_desc :: bool

record SqlCondition =
  sc_tableprefix :: string
  sc_conds :: "condition list"
  sc_order :: "orderBy list"
  sc_offset :: int
  sc_limit :: int

definition NewSqlCondition :: SqlCondition where
  "NewSqlCondition = \<lparr>sc_tableprefix = [], sc_conds = [], sc_order = [], sc_offset = 0, sc_limit = 300\<rparr>"

definition WithTablePrefix :: "string \<Rightarrow> SqlCondition \<Rightarrow> SqlCondition" where
  "WithTablePrefix tablePrefix c = c\<lparr>sc_tableprefix := MysqlEscapeString tablePrefix\<rparr>"

definition compare_ops :: "string list" where
  "compare_ops = [''='', ''>'', ''>='', ''<'', ''<='', ''<>'']"

definition WithCondition :: "string \<Rightarrow> string \<Rightarrow> cval \<Rightarrow> SqlCondition \<Rightarrow> SqlCondition" where
  "WithCondition key compare val c =
     (let key = strings_Trim key '' ''
      in if key \<noteq> []
         then (let compare = strings_Trim compare '' '';
                   compare = (if compare \<in> set compare_ops then compare else ''='')
               in c\<lparr>sc_conds := sc_conds c @ [\<lparr>co_key = MysqlEscapeString key, co_compare = compare, co_value = val\<rparr>]\<rparr>)
         else c)"

definition WithOrder :: "string \<Rightarrow> bool \<Rightarrow> SqlCondition \<Rightarrow> SqlCondition" where
  "WithOrder key isdesc c =
     (let key = strings_Trim key '' '';
          key = ''`'' @ key @ ''`''
      in if key \<noteq> [] then c\<lparr>sc_order := sc_order c @ [\<lparr>ob_key = MysqlEscapeString key, ob_desc = isdesc\<rparr>]\<rparr> else c)"

definition WithLimit :: "int \<Rightarrow> SqlCondition \<Rightarrow> SqlCondition" where
  "WithLimit limit c = (if limit \<ge> 0 then c\<lparr>sc_limit := limit\<rparr> else c)"

definition WithOffset :: "int \<Rightarrow> SqlCondition \<Rightarrow> SqlCondition" where
  "WithOffset offset c = (if offset > 0 then c\<lparr>sc_offset := offset\<rparr> else c)"

definition SqlCondition_Valid :: "bool \<Rightarrow> SqlCondition \<Rightarrow> string option" where
  "SqlCondition_Valid isGet c =
     (if \<not> isGet
      then (if sc_conds c = [] then Some ''cant alter all table record once'' else None)
      else (if sc_limit c = 0 \<and> sc_conds c = [] then Some ''cant load all table record once'' else None))"

definition condition_text :: "condition \<Rightarrow> string" where
  "condition_text v =
     (if is_slice (co_value v) then '' `'' @ co_key v @ ''` IN '' @ makeSqlPlaceHolderForIn (in_values (co_value v))
      else '' `'' @ co_key v @ ''` '' @ (if co_compare v = [] then ''='' else co_compare v) @ '' ?'')"

definition order_text :: "orderBy \<Rightarrow> string" where
  "order_text v = ob_key v @ (if ob_desc v then '' DESC'' else '' ASC'')"

definition BuildShardWhereSql :: "string \<Rightarrow> SqlCondition \<Rightarrow> string \<times> string \<times> dval list" where
  "BuildShardWhereSql shardKey c =
     (let tableName = MysqlEscapeString (sc_tableprefix c @ shardKey);
          valHolder = concat (map (\<lambda>v. in_values (co_value v)) (sc_conds c));
          condStr = strings_Join (map condition_text (sc_conds c)) '' AND'';
          condStr = (if sc_order c \<noteq> []
                     then condStr @ '' ORDER BY '' @ strings_Join (map order_text (sc_order c)) '',''
                     else condStr);
          (condStr, valHolder) =
            (if sc_limit c > 0
             then (if sc_offset c > 0
                   then (condStr @ '' LIMIT ?'' @ '',?'', valHolder @ [VInt (sc_offset c), VInt (sc_limit c)])
                   else (condStr @ '' LIMIT ?'', valHolder @ [VInt (sc_limit c)]))
             else (condStr, valHolder));
          condStr = (if condStr \<noteq> [] \<and> (\<not> HasPrefix condStr '' LIMIT ?'' \<or> \<not> HasPrefix condStr '' ORDER BY '')
                     then '' WHERE'' @ condStr else condStr)
      in (tableName, condStr, valHolder))"

definition BuildWhereSql :: "SqlCondition \<Rightarrow> string \<times> dval list" where
  "BuildWhereSql c = (case BuildShardWhereSql [] c of (t, str, vars) \<Rightarrow> (str, vars))"

text \<open>A condition as applications build it, by a chain of \<open>With\<close> calls.\<close>

datatype with_call =
    WPrefix string | WCond string string cval | WOrder string bool | WLimit int | WOffset int

primrec with_apply :: "with_call \<Rightarrow> SqlCondition \<Rightarrow> SqlCondition" where
  "with_apply (WPrefix p) c = WithTablePrefix p c"
| "with_apply (WCond key compare val) c = WithCondition key compare val c"
| "with_apply (WOrder key isdesc) c = WithOrder key isdesc c"
| "with_apply (WLimit n) c = WithLimit n c"
| "with_apply (WOffset n) c = WithOffset n c"

definition sc_build :: "with_call list \<Rightarrow> SqlCondition" where
  "sc_build calls = fold with_apply calls NewSqlCondition"

section \<open>Question marks\<close>

abbreviation marks :: "string \<Rightarrow> nat" where
  "marks s \<equiv> count_list s (CHR ''?'')"

lemma marks_Join: "marks sep = 0 \<Longrightarrow> marks (strings_Join xs sep) = sum_list (map marks xs)"
  by (induction xs sep rule: strings_Join.induct) auto

lemma marks_escape [simp]: "marks (MysqlEscapeString s) = marks s"
  by (induction s) (auto simp: escape_of_def)

lemma marks_0_iff: "marks s = 0 \<longleftrightarrow> CHR ''?'' \<notin> set s"
  by (simp add: count_list_0_iff)

lemma marks_Trim: "marks s = 0 \<Longrightarrow> marks (strings_Trim s cs) = 0"
  unfolding marks_0_iff strings_Trim_def strings_TrimRight_def strings_TrimLeft_def
  by (metis set_dropWhileD set_rev)

lemma marks_concat: "marks (concat xss) = sum_list (map marks xss)"
  by (induction xss) auto

lemma marks_in [simp]: "marks (makeSqlPlaceHolderForIn vals) = length vals"
proof -
  have "sum_list (map (\<lambda>k. marks (if k \<noteq> length vals - 1 then ''?,'' else ''?'')) [0..<length vals]) =
        sum_list (map (\<lambda>k. 1) [0..<length vals])"
    by (intro arg_cong [where f = sum_list] map_cong) auto
  then show ?thesis by (simp add: makeSqlPlaceHolderForIn_def marks_concat comp_def sum_list_triv)
qed

lemma in_values_scalar: "\<not> is_slice v \<Longrightarrow> length (in_values v) = 1"
  by (simp add: is_slice_def in_values_def split: cval.splits)

lemma marks_buildWhereSql:
  assumes "list_all (\<lambda>(k, v). marks k = 0) data"
  shows "marks (fst (buildWhereSql data)) = length (snd (buildWhereSql data))"
proof -
  have "marks (fst (buildWhereSql data)) = sum_list (map (\<lambda>(k, v). length (in_values v)) data)"
    unfolding buildWhereSql_def using assms
    by (auto simp: marks_Join comp_def list_all_iff in_values_scalar Let_def intro!: arg_cong [where f = sum_list] map_cong)
  then show ?thesis by (simp add: buildWhereSql_def length_concat comp_def split_def)
qed

section \<open>The condition builder\<close>

definition sc_clean :: "SqlCondition \<Rightarrow> bool" where
  "sc_clean c = (list_all (\<lambda>v. marks (co_key v) = 0 \<and> marks (co_compare v) = 0) (sc_conds c) \<and>
                 list_all (\<lambda>v. marks (ob_key v) = 0) (sc_order c))"

primrec call_clean :: "with_call \<Rightarrow> bool" where
  "call_clean (WPrefix p) = True"
| "call_clean (WCond key compare val) = (marks key = 0)"
| "call_clean (WOrder key isdesc) = (marks key = 0)"
| "call_clean (WLimit n) = True"
| "call_clean (WOffset n) = True"

lemma marks_compare: "cmp \<in> set compare_ops \<Longrightarrow> marks cmp = 0"
  by (auto simp: compare_ops_def)

lemma with_apply_clean: "sc_clean c \<Longrightarrow> call_clean w \<Longrightarrow> sc_clean (with_apply w c)"
  by (cases w)
     (auto simp: sc_clean_def WithTablePrefix_def WithCondition_def WithOrder_def WithLimit_def WithOffset_def Let_def
       marks_Trim marks_compare escape_of_def)

lemma sc_build_clean: "list_all call_clean calls \<Longrightarrow> sc_clean (sc_build calls)"
proof -
  have "sc_clean c \<Longrightarrow> list_all call_clean calls \<Longrightarrow> sc_clean (fold with_apply calls c)" for c
    by (induction calls arbitrary: c) (simp_all add: with_apply_clean)
  then show "list_all call_clean calls \<Longrightarrow> ?thesis"
    by (simp add: sc_build_def sc_clean_def NewSqlCondition_def)
qed

lemma marks_conditions:
  "list_all (\<lambda>v. marks (co_key v) = 0 \<and> marks (co_compare v) = 0) cs \<Longrightarrow>
   sum_list (map (\<lambda>v. marks (condition_text v)) cs) = length (concat (map (\<lambda>v. in_values (co_value v)) cs))"
  by (induction cs) (auto simp: condition_text_def in_values_scalar)

lemma marks_orders: "list_all (\<lambda>v. marks (ob_key v) = 0) os \<Longrightarrow> sum_list (map (\<lambda>v. marks (order_text v)) os) = 0"
  by (induction os) (auto simp: order_text_def)

lemma marks_BuildShardWhereSql:
  assumes "sc_clean c" and "BuildShardWhereSql shardKey c = (t, s, vals)"
  shows "marks s = length vals"
proof -
  have c: "marks (strings_Join (map condition_text (sc_conds c)) '' AND'') = length (concat (map (\<lambda>v. in_values (co_value v)) (sc_conds c)))"
    using assms(1) by (simp add: marks_Join comp_def marks_conditions sc_clean_def)
  have o: "marks (strings_Join (map order_text (sc_order c)) '','') = 0"
    using assms(1) by (simp add: marks_Join comp_def marks_orders sc_clean_def del: sum_list_eq_0_iff)
  from c o assms(2) show ?thesis
    by (auto simp: BuildShardWhereSql_def Let_def split: if_splits)
qed

text \<open>The text does not depend on the values: \<open>revalue f\<close> replaces every value of the conditions.\<close>

primrec revalue :: "(dval \<Rightarrow> dval) \<Rightarrow> cval \<Rightarrow> cval" where
  "revalue f (CAnys vs) = CAnys (map f vs)"
| "revalue f (CInt64s is) = CAnys (map (\<lambda>i. f (VInt i)) is)"
| "revalue f (CStrs ss) = CAnys (map (\<lambda>s. f (VStr s)) ss)"
| "revalue f (CScalar v) = CScalar (f v)"

primrec recall :: "(dval \<Rightarrow> dval) \<Rightarrow> with_call \<Rightarrow> with_call" where
  "recall f (WPrefix p) = WPrefix p"
| "recall f (WCond key compare val) = WCond key compare (revalue f val)"
| "recall f (WOrder key isdesc) = WOrder key isdesc"
| "recall f (WLimit n) = WLimit n"
| "recall f (WOffset n) = WOffset n"

definition recond :: "(dval \<Rightarrow> dval) \<Rightarrow> SqlCondition \<Rightarrow> SqlCondition" where
  "recond f c = c\<lparr>sc_conds := map (\<lambda>v. v\<lparr>co_value := revalue f (co_value v)\<rparr>) (sc_conds c)\<rparr>"

lemma with_apply_recall: "with_apply (recall f w) (recond f c) = recond f (with_apply w c)"
  by (cases w)
     (auto simp: recond_def WithTablePrefix_def WithCondition_def WithOrder_def WithLimit_def WithOffset_def Let_def)

lemma sc_build_recall: "sc_build (map (recall f) calls) = recond f (sc_build calls)"
proof -
  have "fold with_apply (map (recall f) calls) (recond f c) = recond f (fold with_apply calls c)" for c
    by (induction calls arbitrary: c) (simp_all add: with_apply_recall)
  moreover have "recond f NewSqlCondition = NewSqlCondition" by (simp add: recond_def NewSqlCondition_def)
  ultimately show ?thesis by (metis sc_build_def)
qed

lemma placeholder_length: "length vs = length ws \<Longrightarrow> makeSqlPlaceHolderForIn vs = makeSqlPlaceHolderForIn ws"
  by (simp add: makeSqlPlaceHolderForIn_def)

lemma condition_text_revalue: "condition_text (v\<lparr>co_value := revalue f (co_value v)\<rparr>) = condition_text v"
  by (cases "co_value v") (auto simp: condition_text_def is_slice_def in_values_def intro!: placeholder_length)

lemma text_recond: "fst (snd (BuildShardWhereSql shardKey (recond f c))) = fst (snd (BuildShardWhereSql shardKey c))"
  by (simp add: BuildShardWhereSql_def Let_def recond_def comp_def condition_text_revalue)

lemma where_without_conditions:
  assumes "sc_conds c = []" and "BuildShardWhereSql shardKey c = (t, s, vals)"
  shows "s = [] \<or> HasPrefix s '' WHERE LIMIT ?'' \<or> HasPrefix s '' WHERE ORDER BY ''"
  using assms by (auto simp: BuildShardWhereSql_def Let_def HasPrefix_def split: if_splits)

section \<open>Escaping is sound\<close>

lemma escape_loop_spec:
  "j + length (MysqlEscapeString s) \<le> length desc \<Longrightarrow>
   \<exists>desc'. escape_loop s desc j = Inr (desc', j + length (MysqlEscapeString s)) \<and> length desc' = length desc \<and>
     take (j + length (MysqlEscapeString s)) desc' = take j desc @ MysqlEscapeString s"
proof (induction s arbitrary: desc j)
  case (Cons c cs)
  show ?case
  proof (cases "escape_of c")
    case None
    let ?d = "desc[j := c]"
    have "j + 1 + length (MysqlEscapeString cs) \<le> length ?d" using Cons.prems None by simp
    from Cons.IH [OF this] Cons.prems None show ?thesis
      by (auto simp: buf_put_def take_Suc_conv_app_nth)
  next
    case (Some e)
    let ?d = "desc[j := CHR 0x5C, Suc j := e]"
    have "j + 2 + length (MysqlEscapeString cs) \<le> length ?d" using Cons.prems Some by simp
    from Cons.IH [OF this] Cons.prems Some show ?thesis
      by (auto simp: buf_put_def take_Suc_conv_app_nth nth_append)
  qed
qed simp

lemma escape_length: "length (MysqlEscapeString s) \<le> 2 * length s"
  by (induction s) (auto split: option.splits)

lemma escape_buffer_eq: "escape_buffer s = Inr (MysqlEscapeString s)"
proof -
  obtain d where "escape_loop s (replicate (length s * 2) (CHR 0x00)) 0 = Inr (d, length (MysqlEscapeString s))"
      "take (length (MysqlEscapeString s)) d = MysqlEscapeString s"
    using escape_loop_spec [of 0 s "replicate (length s * 2) (CHR 0x00)"] escape_length [of s]
    by (auto simp: mult.commute)
  then show ?thesis by (simp add: escape_buffer_def)
qed

lemma escape_of_special:
  "escape_of c = Some e \<Longrightarrow> (e, c) \<in> set special_characters"
  by (auto simp: escape_of_def special_characters_def split: if_splits)

lemma escape_of_plain:
  "escape_of c = None \<Longrightarrow> q \<in> set quote_chars \<Longrightarrow> c \<noteq> q \<and> c \<noteq> CHR 0x5C"
  by (auto simp: escape_of_def quote_chars_def)

lemma reads_literals_end:
  "reads_literals read \<Longrightarrow> q \<in> set quote_chars \<Longrightarrow> ends_literal q t \<Longrightarrow> read q (q # t) = Some ([], t)"
  by (auto simp: reads_literals_def)

lemma reads_literals_special:
  "reads_literals read \<Longrightarrow> q \<in> set quote_chars \<Longrightarrow> (e, c) \<in> set special_characters \<Longrightarrow>
   read q (CHR 0x5C # e # t) = value_char c (read q t)"
  by (fastforce simp: reads_literals_def)

lemma reads_literals_plain:
  "reads_literals read \<Longrightarrow> q \<in> set quote_chars \<Longrightarrow> c \<noteq> q \<and> c \<noteq> CHR 0x5C \<Longrightarrow>
   read q (c # t) = value_char c (read q t)"
  by (auto simp: reads_literals_def)

lemma escaped_text_read_back:
  assumes "reads_literals read" and "q \<in> set quote_chars" and "ends_literal q rest"
  shows "read q (MysqlEscapeString s @ q # rest) = Some (s, rest)"
proof (induction s)
  case Nil
  show ?case using reads_literals_end [OF assms] by simp
next
  case (Cons c cs)
  show ?case
  proof (cases "escape_of c")
    case None
    from reads_literals_plain [OF assms(1,2) escape_of_plain [OF None assms(2)]] None Cons
    show ?thesis by (simp add: value_char_def)
  next
    case (Some e)
    from reads_literals_special [OF assms(1,2) escape_of_special [OF Some]] Some Cons
    show ?thesis by (simp add: value_char_def)
  qed
qed

lemma escape_no_raw:
  "set (MysqlEscapeString s) \<inter> {CHR 0x00, CHR 0x0A, CHR 0x0D, CHR 0x1A} = {}"
  by (induction s) (auto simp: escape_of_def)

lemma read_literal_laws: "reads_literals read_literal"
proof -
  have plain: "read_literal q (c # t) = value_char c (read_literal q t)" if "c \<noteq> q \<and> c \<noteq> CHR 0x5C" for q c t
    using that by (cases t) (auto simp: value_char_def)
  have end_lit: "read_literal q (q # t) = Some ([], t)" if "ends_literal q t" for q t
    using that by (cases t) (auto simp: ends_literal_def)
  have special: "read_literal q (CHR 0x5C # e # t) = value_char c (read_literal q t)"
    if "(e, c) \<in> set special_characters" "q \<in> set quote_chars" for q e c t
  proof -
    have "distinct (map fst special_characters)" by code_simp
    with that(1) have "map_of special_characters e = Some c" by (simp add: map_of_is_SomeI)
    moreover have "q \<noteq> CHR 0x5C" using that(2) by (auto simp: quote_chars_def)
    ultimately show ?thesis by simp
  qed
  show ?thesis unfolding reads_literals_def
    by (intro ballI allI conjI impI) (use plain end_lit special in auto)
qed

section \<open>Properties\<close>

text \<open>
  C31. The condition builder is parameterised: a WHERE clause built by any chain of \<open>With\<close> calls has
  exactly one question mark for every value it returns (keys without question marks), and its text does
  not depend on the values compared with, so no value can change the statement.
\<close>

theorem where_placeholders:
  assumes "list_all call_clean calls" and "BuildShardWhereSql shardKey (sc_build calls) = (t, s, vals)"
  shows "marks s = length vals \<and>
    fst (snd (BuildShardWhereSql shardKey (sc_build (map (recall f) calls)))) = s"
  using marks_BuildShardWhereSql [OF sc_build_clean [OF assms(1)] assms(2)] assms(2)
  by (simp add: sc_build_recall text_recond)

theorem where_placeholders_witness:
  "marks '' WHERE `a` IN (?,?) AND `b` >= ? ORDER BY `a` DESC LIMIT ?,?'' = length
     [VStr ''x'', VStr ''y'', VInt 1, VInt 10, VInt 20]"
proof -
  let ?calls = "[WCond ''a '' '''' (CStrs [''x'', ''y'']), WCond ''b'' ''>='' (CScalar (VInt 1)), WOrder ''a'' True,
                 WLimit 20, WOffset 10]"
  have b: "BuildShardWhereSql ''7'' (sc_build ?calls) =
      (''7'', '' WHERE `a` IN (?,?) AND `b` >= ? ORDER BY `a` DESC LIMIT ?,?'',
       [VStr ''x'', VStr ''y'', VInt 1, VInt 10, VInt 20])"
    by code_simp
  have c: "list_all call_clean ?calls" by simp
  show ?thesis using where_placeholders [OF c b, of id] by blast
qed

text \<open>
  C32. An escaped text is safe inside a string literal: the loop over the buffer of twice the source's
  length never writes out of range, and a server that reads literals as the MySQL manual says, in either
  kind of quotes, reads back exactly the source and stops at the closing quote, whatever statement text
  follows it, so no text can end the literal and become part of the statement.  The result has at most
  twice the length and none of the bytes 00, 0A, 0D and 1A; other control bytes, such as a tab, are kept.
\<close>

theorem escape_roundtrip:
  assumes "reads_literals read" and "q \<in> set quote_chars" and "ends_literal q rest"
  shows "\<exists>e. escape_buffer s = Inr e \<and> read q (e @ q # rest) = Some (s, rest) \<and>
    length e \<le> 2 * length s \<and> set e \<inter> {CHR 0x00, CHR 0x0A, CHR 0x0D, CHR 0x1A} = {}"
  using escape_buffer_eq escaped_text_read_back [OF assms] escape_length escape_no_raw by blast

theorem escape_roundtrip_witness:
  "\<exists>e. escape_buffer (CHR 0x27 # ''; drop'') = Inr e \<and>
     read_literal (CHR 0x27) (e @ CHR 0x27 # '' and b = 1'') = Some (CHR 0x27 # ''; drop'', '' and b = 1'')"
proof -
  have "CHR 0x27 \<in> set quote_chars" "ends_literal (CHR 0x27) '' and b = 1''"
    by (simp_all add: quote_chars_def ends_literal_def)
  from escape_roundtrip [OF read_literal_laws this, of "CHR 0x27 # ''; drop''"] show ?thesis by blast
qed

end
