(* ===== verification/MysqlStmt.thy ===== *)
theory MysqlStmt
  imports MysqlSql
begin

text \<open>
  The statements of \<open>databases/mysqldb/db.go\<close>: what reflection reads of a structure (\<open>utils.go\<close>), and
  the texts and arguments that \<open>Update\<close>, \<open>addEscapeAutoIncr\<close>, \<open>InsertOrUpdateOnDup\<close>, \<open>Delete\<close> and the
  queries pass to the database.  The flag \<open>dm\<close> says that \<open>DbType\<close> is \<open>dm\<close>; a result \<open>Inr (Inl e)\<close> is the
  error the method returns without reaching the database, \<open>Inl p\<close> a panic of reflection.  Texts of errors are
  abbreviated.
\<close>

section \<open>Structures\<close>

record sfield =
  sf_Name :: string
  sf_mysqlField :: string
  sf_protobuf :: string
  sf_dataType :: string
  sf_public :: bool
  sf_val :: dval

text \<open>
  What is passed as \<open>interface{}\<close>: nil, a structure, a pointer to one, a nil pointer of such a type, or
  anything else.
\<close>

datatype sdata = SNil | SStruct "sfield list" | SPtr "sfield list" | SNilPtr "sfield list" | SOther

definition quoted :: "string \<Rightarrow> string" where
  "quoted s = ''`'' @ s @ ''`''"

definition unquoted :: "string \<Rightarrow> string" where
  "unquoted s = strings_ReplaceAll s ''`'' []"

text \<open>\<open>_getFieldsNameArray\<close> falls back to the \<open>name=\<close> part of the protobuf tag.\<close>

fun split_by :: "char \<Rightarrow> string \<Rightarrow> string list" where
  "split_by d [] = [[]]"
| "split_by d (c # cs) =
     (if c = d then [] # split_by d cs
      else (case split_by d cs of p # ps \<Rightarrow> (c # p) # ps | [] \<Rightarrow> [[c]]))"

fun pb_name :: "string list \<Rightarrow> string" where
  "pb_name [] = []"
| "pb_name (pbTag # tags) =
     (case split_by (CHR ''='') pbTag of
        n # v # rest \<Rightarrow> if n = ''name'' \<and> v \<noteq> [] then v else pb_name tags
      | _ \<Rightarrow> pb_name tags)"

definition column_name :: "sfield \<Rightarrow> string" where
  "column_name tf =
     (if sf_mysqlField tf = [] then pb_name (split_by (CHR '','') (sf_protobuf tf)) else sf_mysqlField tf)"

definition getFieldsNameArray :: "sdata \<Rightarrow> string + string list" where
  "getFieldsNameArray v =
     (case v of
        SNil \<Rightarrow> Inl ''input cannot be nil''
      | SOther \<Rightarrow> Inl ''not a struct type''
      | SStruct fs \<Rightarrow> Inr (map quoted (filter (\<lambda>n. n \<noteq> []) (map column_name fs)))
      | SPtr fs \<Rightarrow> Inr (map quoted (filter (\<lambda>n. n \<noteq> []) (map column_name fs)))
      | SNilPtr fs \<Rightarrow> Inr (map quoted (filter (\<lambda>n. n \<noteq> []) (map column_name fs))))"

definition GetFieldsName :: "sdata \<Rightarrow> string + string" where
  "GetFieldsName v = (case getFieldsNameArray v of Inl e \<Rightarrow> Inl e | Inr ns \<Rightarrow> Inr (strings_Join ns '',''))"

text \<open>
  \<open>GetFields\<close> returns the addresses of the tagged fields, here their positions.  \<open>IsNil\<close> on a value that
  is no pointer and \<open>Interface\<close> on a private field panic; the panic is recovered into an error.
\<close>

fun tagged_fields :: "nat \<Rightarrow> sfield list \<Rightarrow> nat list option" where
  "tagged_fields i [] = Some []"
| "tagged_fields i (f # fs) =
     (if sf_mysqlField f \<noteq> [] \<or> sf_protobuf f \<noteq> []
      then (if sf_public f then map_option (Cons i) (tagged_fields (Suc i) fs) else None)
      else tagged_fields (Suc i) fs)"

definition GetFields :: "sdata \<Rightarrow> string + nat list" where
  "GetFields v =
     (case v of
        SNil \<Rightarrow> Inl ''input cannot be nil''
      | SNilPtr fs \<Rightarrow> Inl ''input cannot be nil''
      | SPtr fs \<Rightarrow> (case tagged_fields 0 fs of None \<Rightarrow> Inl ''err when getFields in reflect'' | Some is \<Rightarrow> Inr is)
      | _ \<Rightarrow> Inl ''err when getFields in reflect'')"

fun struct_fields :: "sfield list \<Rightarrow> string list \<Rightarrow> string + string list" where
  "struct_fields [] acc = Inr acc"
| "struct_fields (f # fs) acc =
     (if \<not> sf_public f then Inl (''field '' @ sf_Name f @ '' is not public'')
      else if sf_mysqlField f = [] then Inl (''field '' @ sf_Name f @ '' has no mysqlField tag'')
      else struct_fields fs (acc @ [quoted (sf_mysqlField f)]))"

definition reflect_panic :: go_panic where
  "reflect_panic = PanicValue ''reflect''"

definition GetDataStructFields :: "sdata \<Rightarrow> (string + string list) go" where
  "GetDataStructFields data =
     (case data of
        SNil \<Rightarrow> Inl NilDeref
      | SStruct fs \<Rightarrow> Inl reflect_panic
      | SOther \<Rightarrow> Inl reflect_panic
      | SPtr fs \<Rightarrow> Inr (struct_fields fs [])
      | SNilPtr fs \<Rightarrow> Inr (struct_fields fs []))"

text \<open>The second result of \<open>GetDataStructDests\<close> on a fresh object: the positions of \<open>clob\<close> columns.\<close>

fun clob_indexes :: "bool \<Rightarrow> nat \<Rightarrow> sfield list \<Rightarrow> string + nat list" where
  "clob_indexes dm i [] = Inr []"
| "clob_indexes dm i (f # fs) =
     (if \<not> sf_public f then Inl (''field '' @ sf_Name f @ '' is not public'')
      else if sf_mysqlField f = [] then Inl (''field '' @ sf_Name f @ '' has no mysqlField tag'')
      else (case clob_indexes dm (Suc i) fs of
              Inl e \<Rightarrow> Inl e
            | Inr is \<Rightarrow> Inr (if dm \<and> sf_dataType f = ''clob'' then i # is else is)))"

text \<open>The checks that \<open>d\<close> is a structure pointer, and its fields; \<open>rv.Elem()\<close> panics otherwise.\<close>

definition struct_of :: "sdata \<Rightarrow> (string + sfield list) go" where
  "struct_of d =
     (case d of
        SNil \<Rightarrow> Inr (Inl ''input cannot be nil'')
      | SOther \<Rightarrow> Inr (Inl ''not a struct type'')
      | SStruct fs \<Rightarrow> Inl reflect_panic
      | SNilPtr fs \<Rightarrow> Inl reflect_panic
      | SPtr fs \<Rightarrow> Inr (Inr fs))"

type_synonym stmt = "string \<times> dval list"

section \<open>Queries\<close>

text \<open>
  \<open>Query\<close> and \<open>QueryList\<close> replace the first question mark by the column names.  (The rewriting of the
  condition for \<open>dm\<close> is not modelled.)
\<close>

definition Query_sql :: "sdata \<Rightarrow> string \<Rightarrow> (string + string) go" where
  "Query_sql dataType query =
     go_bind (GetDataStructFields dataType) (\<lambda>r.
       Inr (case r of Inl e \<Rightarrow> Inl e | Inr ns \<Rightarrow> Inr (strings_Replace1 query ''?'' (strings_Join ns '',''))))"

section \<open>Update\<close>

text \<open>The columns to set, with their values; a private field stops with an error.\<close>

fun set_fields :: "(sfield \<Rightarrow> bool) \<Rightarrow> sfield list \<Rightarrow> string + (sfield list)" where
  "set_fields p [] = Inr []"
| "set_fields p (f # fs) =
     (if sf_mysqlField f \<noteq> [] \<and> p f
      then (if \<not> sf_public f then Inl (''invalid struct field '' @ sf_Name f)
            else (case set_fields p fs of Inl e \<Rightarrow> Inl e | Inr gs \<Rightarrow> Inr (f # gs)))
      else set_fields p fs)"

definition is_clob_key :: "string list \<Rightarrow> nat list \<Rightarrow> string \<Rightarrow> bool" where
  "is_clob_key fieldNames indexMap pkn =
     list_ex (\<lambda>k. HasPrefix (strings_TrimLeft pkn '' '') (unquoted (fieldNames ! k))) indexMap"

fun where_keys :: "bool \<Rightarrow> (string \<Rightarrow> bool) \<Rightarrow> (string \<times> dval) list \<Rightarrow> string" where
  "where_keys dm clob [] = []"
| "where_keys dm clob [(pkn, pkv)] =
     (if dm then (if clob pkn then '' text_equal('' @ pkn @ '',?)'' else '' '' @ pkn @ '' = ?  '')
      else '' `'' @ pkn @ ''` = ? '')"
| "where_keys dm clob ((pkn, pkv) # kv # rest) =
     (if dm then (if clob pkn then '' text_equal('' @ pkn @ '',?) AND '' else '' '' @ pkn @ '' = ? AND '')
      else '' `'' @ pkn @ ''` = ? AND '') @ where_keys dm clob (kv # rest)"

definition Update_stmt ::
    "bool \<Rightarrow> string \<Rightarrow> sdata \<Rightarrow> (string \<times> dval) list \<Rightarrow> string list \<Rightarrow> (string + stmt) go" where
  "Update_stmt dm tableName d primaryKeys fieldsToUpdate =
     go_bind (GetDataStructFields d) (\<lambda>r. case r of
       Inl e \<Rightarrow> Inr (Inl e)
     | Inr fieldNames \<Rightarrow>
         if primaryKeys = [] then Inr (Inl ''primary keys empty on update'')
         else
           (let tableName = MysqlEscapeString tableName;
                ftypes = (case d of SPtr fs \<Rightarrow> fs | SNilPtr fs \<Rightarrow> fs | _ \<Rightarrow> [])
            in case clob_indexes dm 0 ftypes of
                 Inl e \<Rightarrow> Inr (Inl e)
               | Inr indexMap \<Rightarrow>
                   go_bind (struct_of d) (\<lambda>r. case r of
                     Inl e \<Rightarrow> Inr (Inl e)
                   | Inr fs \<Rightarrow>
                       (case set_fields (\<lambda>f. fieldsToUpdate = [] \<or> sf_mysqlField f \<in> set fieldsToUpdate) fs of
                          Inl e \<Rightarrow> Inr (Inl e)
                        | Inr gs \<Rightarrow>
                            (let fieldsNames = strings_Join (map (\<lambda>f. (if dm then sf_mysqlField f else quoted (sf_mysqlField f)) @ ''=?'') gs) '','';
                                 whereFields = where_keys dm (is_clob_key fieldNames indexMap) primaryKeys;
                                 dests = map sf_val gs @ map snd primaryKeys
                             in Inr (Inr (if dm then ''update '' @ tableName @ '' set '' @ fieldsNames @ '' where '' @ whereFields
                                          else ''update `'' @ tableName @ ''` set '' @ fieldsNames @ '' where '' @ whereFields,
                                          dests)))))))"

section \<open>Insert\<close>

definition on_duplicate :: "string list \<Rightarrow> string" where
  "on_duplicate fns = concat (map (\<lambda>i. fns ! i @ (if i < length fns - 1 then '' = ?,'' else '' = ?'')) [0..<length fns])"

definition merge_into :: "string \<Rightarrow> string list \<Rightarrow> string \<Rightarrow> string list \<Rightarrow> string list \<Rightarrow> string" where
  "merge_into tableName selectLang on_clause updateLang insertLang =
     ''merge into '' @ tableName @ '' as t1'' @ '' using (select '' @ strings_Join selectLang '','' @ on_clause @
     '' when matched then update set '' @ strings_Join updateLang '','' @
     '' when not matched then insert ('' @ strings_ReplaceAll (strings_Join insertLang '','') ''t2.'' [] @
     '') values  ('' @ strings_Join insertLang '','' @ '')''"

definition addEscapeAutoIncr_stmt ::
    "bool \<Rightarrow> string \<Rightarrow> sdata \<Rightarrow> bool \<Rightarrow> string \<Rightarrow> (string + stmt) go" where
  "addEscapeAutoIncr_stmt dm tableName d ondupUpdate atuoincrkey =
     (let tableName = MysqlEscapeString tableName
      in if atuoincrkey = [] \<and> dm then Inr (Inl ''dm database must have a atuoincrkey'')
         else go_bind (struct_of d) (\<lambda>r. case r of
           Inl e \<Rightarrow> Inr (Inl e)
         | Inr fs \<Rightarrow>
             (case set_fields (\<lambda>f. \<not> (atuoincrkey \<noteq> [] \<and> sf_mysqlField f = atuoincrkey \<and> \<not> dm)) fs of
                Inl e \<Rightarrow> Inr (Inl e)
              | Inr gs \<Rightarrow>
                  (let names = map (\<lambda>f. if dm then sf_mysqlField f else quoted (sf_mysqlField f)) gs;
                       dests = map sf_val gs;
                       sqlStr = ''insert into `'' @ tableName @ ''`('' @ strings_Join names '','' @ '') values ('' @
                                strings_Join (map (\<lambda>f. ''?'') gs) '','' @ '')'';
                       ks = filter (\<lambda>k. \<not> (atuoincrkey \<noteq> [] \<and> k = atuoincrkey)) (map sf_mysqlField fs);
                       (sqlStr, dests) =
                         (if ondupUpdate
                          then (if dm
                                then (merge_into tableName (map (\<lambda>f. ''? '' @ sf_mysqlField f) fs)
                                        ('' from dual ) as t2 on t1.'' @ atuoincrkey @ '' = t2.'' @ atuoincrkey)
                                        (map (\<lambda>k. '' t1.'' @ k @ ''=t2.'' @ k) ks) (map (\<lambda>k. ''t2.'' @ k) ks), dests)
                                else (sqlStr @ '' ON DUPLICATE KEY UPDATE '' @ on_duplicate names, dests @ dests))
                          else (sqlStr, dests));
                       sqlStr =
                         (if dm
                          then ''set identity_insert '' @ tableName @ '' on;'' @ unquoted (sqlStr @ '';'') @
                               ''set identity_insert '' @ tableName @ '' off;'' @ ''commit;''
                          else sqlStr)
                   in Inr (Inr (sqlStr, dests))))))"

section \<open>Insert or update\<close>

text \<open>The two statements of \<open>InsertOrUpdateOnDup\<close>: insert and update, with their arguments.\<close>

definition iod_insert :: "bool \<Rightarrow> string \<Rightarrow> sfield list \<Rightarrow> string list \<Rightarrow> string list \<Rightarrow> bool \<Rightarrow> stmt" where
  "iod_insert dm tableName gs primaryKeys updateFields useSqlOnDup =
     (let upd = filter (\<lambda>f. sf_mysqlField f \<in> set updateFields) gs;
          insertSql = ''insert into `'' @ tableName @ ''` ('' @ strings_Join (map (\<lambda>f. quoted (sf_mysqlField f)) gs) '','' @
                      '') values ('' @ strings_Join (map (\<lambda>f. ''?'') gs) '','' @ '')''
      in if \<not> useSqlOnDup then (insertSql, map sf_val gs)
         else if \<not> dm
         then (insertSql @ '' ON DUPLICATE KEY UPDATE '' @ strings_Join (map (\<lambda>f. quoted (sf_mysqlField f) @ ''=?'') upd) '','',
               map sf_val gs @ map sf_val upd)
         else (unquoted (merge_into tableName (map (\<lambda>f. ''? '' @ sf_mysqlField f) gs)
                 ('' from dual )as t2 on ('' @ strings_Join (map (\<lambda>pk. ''t1.'' @ pk @ ''=t2.'' @ pk) primaryKeys) '' and '' @ '')'')
                 (map (\<lambda>k. '' t1.'' @ k @ ''=t2.'' @ k) updateFields)
                 (map (\<lambda>f. ''t2.'' @ sf_mysqlField f) (filter (\<lambda>f. sf_mysqlField f \<notin> set primaryKeys) gs))),
               map sf_val gs @ map sf_val upd))"

definition iod_update :: "bool \<Rightarrow> string \<Rightarrow> sfield list \<Rightarrow> string list \<Rightarrow> string list \<Rightarrow> stmt" where
  "iod_update dm tableName gs primaryKeys updateFields =
     (let upd = filter (\<lambda>f. sf_mysqlField f \<in> set updateFields) gs;
          whr = filter (\<lambda>f. sf_mysqlField f \<in> set primaryKeys) gs;
          s = ''update `'' @ tableName @ ''` set '' @ strings_Join (map (\<lambda>f. quoted (sf_mysqlField f) @ ''=?'') upd) '','' @
              '' where '' @ strings_Join (map (\<lambda>f.
                if dm \<and> sf_dataType f = ''clob'' then quoted (''text_equal('' @ sf_mysqlField f @ '',?)'')
                else quoted (sf_mysqlField f) @ ''=?'') whr) '' and '' @ '';''
      in (if dm then unquoted s else s, map sf_val upd @ map sf_val whr))"

datatype sql_error = MySQLError nat | SqlErr string

text \<open>\<open>Execute\<close> on a database: \<open>exec\<close> answers a statement with an error or the number of rows.\<close>

definition Execute :: "(stmt \<Rightarrow> 's \<Rightarrow> (sql_error + int) \<times> 's) \<Rightarrow> bool \<Rightarrow> stmt \<Rightarrow> 's \<Rightarrow> (int \<times> sql_error option) \<times> 's" where
  "Execute exec dm q st =
     (case exec (if dm then unquoted (fst q) else fst q, snd q) st of
        (Inl e, st') \<Rightarrow> ((0, Some e), st')
      | (Inr n, st') \<Rightarrow> ((n, None), st'))"

definition InsertOrUpdateOnDup ::
    "(stmt \<Rightarrow> 's \<Rightarrow> (sql_error + int) \<times> 's) \<Rightarrow> bool \<Rightarrow> string \<Rightarrow> sdata \<Rightarrow> string list \<Rightarrow> string list \<Rightarrow> bool \<Rightarrow> 's \<Rightarrow>
     ((int \<times> sql_error option) \<times> 's) go" where
  "InsertOrUpdateOnDup exec dm tableName d primaryKeys updateFields useSqlOnDup st =
     (if primaryKeys = [] \<or> updateFields = [] then Inr ((0, Some (SqlErr ''primaryKeys or updateFields are nil'')), st)
      else
        (let tableName = MysqlEscapeString tableName
         in go_bind (struct_of d) (\<lambda>r. case r of
              Inl e \<Rightarrow> Inr ((0, Some (SqlErr e)), st)
            | Inr fs \<Rightarrow>
                (case set_fields (\<lambda>f. True) fs of
                   Inl e \<Rightarrow> Inr ((0, Some (SqlErr e)), st)
                 | Inr gs \<Rightarrow>
                     Inr (let ins = iod_insert dm tableName gs primaryKeys updateFields useSqlOnDup;
                              upd = iod_update dm tableName gs primaryKeys updateFields
                          in if useSqlOnDup then Execute exec dm ins st
                             else (case Execute exec dm upd st of
                                     ((uRows, Some e), st') \<Rightarrow> ((uRows, Some e), st')
                                   | ((uRows, None), st') \<Rightarrow>
                                       if uRows \<noteq> 0 then ((uRows, None), st')
                                       else if dm then ((uRows, Some (SqlErr ''dm update failed'')), st')
                                       else (case Execute exec dm ins st' of
                                               ((uRows, Some (MySQLError n)), st'') \<Rightarrow>
                                                 if n = 1062 then Execute exec dm upd st''
                                                 else ((uRows, Some (MySQLError n)), st'')
                                             | other \<Rightarrow> other)))))))"

section \<open>Delete\<close>

definition Delete_stmt :: "bool \<Rightarrow> string \<Rightarrow> (string \<times> cval) list \<Rightarrow> string + stmt" where
  "Delete_stmt dm tableName cond =
     (let tableName = MysqlEscapeString tableName
      in if cond = [] then Inl ''del with empty condition''
         else (case buildWhereSql cond of
                 (condStr, dest) \<Rightarrow>
                   (let s = ''delete from `'' @ tableName @ ''` where '' @ condStr
                    in Inr (if dm then unquoted s else s, dest))))"

section \<open>Balanced statements\<close>

definition balanced :: "stmt \<Rightarrow> bool" where
  "balanced q = (marks (fst q) = length (snd q))"

primrec sdata_fields :: "sdata \<Rightarrow> sfield list" where
  "sdata_fields SNil = []"
| "sdata_fields (SStruct fs) = fs"
| "sdata_fields (SPtr fs) = fs"
| "sdata_fields (SNilPtr fs) = fs"
| "sdata_fields SOther = []"

definition tags_clean :: "sfield list \<Rightarrow> bool" where
  "tags_clean fs = list_all (\<lambda>f. marks (sf_mysqlField f) = 0) fs"

lemma marks_quoted [simp]: "marks (quoted s) = marks s"
  by (simp add: quoted_def)

lemma unquoted_filter: "unquoted s = filter (\<lambda>c. c \<noteq> CHR 0x60) s"
  unfolding unquoted_def strings_ReplaceAll_def by (induction s) (auto simp: HasPrefix_def)

lemma marks_unquoted [simp]: "marks (unquoted s) = marks s"
  unfolding unquoted_filter by (induction s) auto

lemma replace_loop_set: "set (replace_loop old new n s) \<subseteq> set s \<union> set new"
  by (induction old new n s rule: replace_loop.induct) auto

lemma marks_ReplaceAll_0: "marks s = 0 \<Longrightarrow> marks new = 0 \<Longrightarrow> marks (strings_ReplaceAll s old new) = 0"
  using replace_loop_set [of old new 0 s] by (auto simp: count_list_0_iff strings_ReplaceAll_def)

lemma set_fields_spec:
  "set_fields p fs = Inr gs \<Longrightarrow> gs = filter (\<lambda>f. sf_mysqlField f \<noteq> [] \<and> p f) fs"
  by (induction fs arbitrary: gs) (auto split: if_splits sum.splits)

lemma struct_of_SPtr: "struct_of d = Inr (Inr fs) \<longleftrightarrow> d = SPtr fs"
  by (auto simp: struct_of_def split: sdata.splits)

lemma tags_filter: "tags_clean fs \<Longrightarrow> tags_clean (filter p fs)"
  by (simp add: tags_clean_def list_all_iff)

lemma marks_map_const:
  assumes "\<And>f. f \<in> set gs \<Longrightarrow> marks (h f) = n" and "marks sep = 0"
  shows "marks (strings_Join (map h gs) sep) = n * length gs"
proof -
  have "sum_list (map (\<lambda>f. marks (h f)) gs) = sum_list (map (\<lambda>f. n) gs)"
    by (intro arg_cong [where f = sum_list] map_cong refl assms(1))
  then show ?thesis using assms(2) by (simp add: marks_Join comp_def sum_list_triv mult.commute)
qed

lemma marks_names:
  assumes "tags_clean gs"
  shows "marks (strings_Join (map (\<lambda>f. quoted (sf_mysqlField f)) gs) '','') = 0"
    and "marks (strings_Join (map (\<lambda>f. quoted (sf_mysqlField f) @ ''=?'') gs) '','') = length gs"
    and "marks (strings_Join (map (\<lambda>f. quoted (sf_mysqlField f) @ ''=?'') gs) '' and '') = length gs"
    and "marks (strings_Join (map (\<lambda>f. ''?'') gs) '','') = length gs"
    and "marks (strings_Join (map (\<lambda>f. ''? '' @ sf_mysqlField f) gs) '','') = length gs"
  using assms marks_map_const [of gs "\<lambda>f. quoted (sf_mysqlField f)" 0 "'',''"]
    marks_map_const [of gs "\<lambda>f. quoted (sf_mysqlField f) @ ''=?''" 1] marks_map_const [of gs "\<lambda>f. ''?''" 1 "'',''"]
    marks_map_const [of gs "\<lambda>f. ''? '' @ sf_mysqlField f" 1 "'',''"]
  by (simp_all add: tags_clean_def list_all_iff)

lemma marks_where_keys: "list_all (\<lambda>kv. marks (fst kv) = 0) pks \<Longrightarrow> marks (where_keys dm clob pks) = length pks"
  by (induction dm clob pks rule: where_keys.induct) auto

lemma marks_on_duplicate: "list_all (\<lambda>n. marks n = 0) ns \<Longrightarrow> marks (on_duplicate ns) = length ns"
proof -
  assume c: "list_all (\<lambda>n. marks n = 0) ns"
  have "sum_list (map (\<lambda>i. marks (ns ! i @ (if i < length ns - 1 then '' = ?,'' else '' = ?''))) [0..<length ns]) =
        sum_list (map (\<lambda>i. 1) [0..<length ns])"
    using c by (intro arg_cong [where f = sum_list] map_cong) (auto simp: list_all_length)
  then show ?thesis by (simp add: on_duplicate_def marks_concat comp_def sum_list_triv)
qed

lemma balanced_Update:
  assumes "marks tableName = 0" and "tags_clean (sdata_fields d)" and "list_all (\<lambda>kv. marks (fst kv) = 0) pks"
    and "Update_stmt False tableName d pks ftu = Inr (Inr q)"
  shows "balanced q"
proof -
  obtain fs where d: "d = SPtr fs"
    using assms(4)
    by (cases d) (auto simp: Update_stmt_def Let_def GetDataStructFields_def struct_of_def split: sum.splits if_splits)
  from assms(4) obtain gs clob where gs: "set_fields (\<lambda>f. ftu = [] \<or> sf_mysqlField f \<in> set ftu) fs = Inr gs"
      and q: "snd q = map sf_val gs @ map snd pks"
        "fst q = ''update `'' @ MysqlEscapeString tableName @ ''` set '' @
           strings_Join (map (\<lambda>f. quoted (sf_mysqlField f) @ ''=?'') gs) '','' @ '' where '' @ where_keys False clob pks"
    by (auto simp: Update_stmt_def Let_def GetDataStructFields_def struct_of_def d split: sum.splits if_splits)
  have "tags_clean gs" using assms(2) d set_fields_spec [OF gs] by (simp add: tags_filter)
  then show ?thesis using q assms(1,3) by (auto simp: balanced_def marks_names marks_where_keys)
qed

lemma balanced_insert:
  assumes "marks tableName = 0" and "tags_clean (sdata_fields d)"
    and "addEscapeAutoIncr_stmt False tableName d ondup auto_key = Inr (Inr q)"
  shows "balanced q"
proof -
  obtain fs where d: "d = SPtr fs"
    using assms(3) by (cases d) (auto simp: addEscapeAutoIncr_stmt_def Let_def struct_of_def)
  obtain gs where gs: "set_fields (\<lambda>f. auto_key = [] \<or> sf_mysqlField f \<noteq> auto_key) fs = Inr gs"
    using assms(3) by (auto simp: addEscapeAutoIncr_stmt_def Let_def struct_of_def d split: sum.splits)
  let ?sql = "''insert into `'' @ MysqlEscapeString tableName @ ''`('' @ strings_Join (map (\<lambda>f. quoted (sf_mysqlField f)) gs) '','' @
              '') values ('' @ strings_Join (map (\<lambda>f. ''?'') gs) '','' @ '')''"
  have q: "q = (if ondup then (?sql @ '' ON DUPLICATE KEY UPDATE '' @ on_duplicate (map (\<lambda>f. quoted (sf_mysqlField f)) gs),
                               map sf_val gs @ map sf_val gs) else (?sql, map sf_val gs))"
    using assms(3) by (auto simp: addEscapeAutoIncr_stmt_def Let_def struct_of_def d gs)
  have c: "tags_clean gs" using assms(2) d set_fields_spec [OF gs] by (simp add: tags_filter)
  then have "marks (on_duplicate (map (\<lambda>f. quoted (sf_mysqlField f)) gs)) = length gs"
    by (subst marks_on_duplicate) (auto simp: list_all_iff tags_clean_def)
  with c show ?thesis using q assms(1) by (simp add: balanced_def Let_def marks_names)
qed

lemma balanced_Delete:
  assumes "marks tableName = 0" and "list_all (\<lambda>(k, v). marks k = 0) cond"
    and "Delete_stmt False tableName cond = Inr q"
  shows "balanced q"
  using assms marks_buildWhereSql [OF assms(2)]
  by (auto simp: Delete_stmt_def Let_def balanced_def split: if_splits prod.splits)

lemma balanced_iod:
  assumes "marks tableName = 0" and "tags_clean gs"
  shows "balanced (iod_insert False tableName gs pks ups use_dup)" and "balanced (iod_update False tableName gs pks ups)"
  using assms by (simp_all add: balanced_def iod_insert_def iod_update_def Let_def marks_names tags_filter)

lemma set_fields_public:
  "list_all sf_public fs \<Longrightarrow> set_fields p fs = Inr (filter (\<lambda>f. sf_mysqlField f \<noteq> [] \<and> p f) fs)"
  by (induction fs) auto

lemma marks_clean_Join:
  "list_all (\<lambda>k. marks k = 0) ks \<Longrightarrow> marks sep = 0 \<Longrightarrow> marks (strings_Join ks sep) = 0"
  using marks_map_const [of ks id 0 sep] by (simp add: list_all_iff)

lemma marks_merge_into:
  assumes "marks tableName = 0" and "marks on_clause = 0"
    and "list_all (\<lambda>k. marks k = 0) updateLang" and "list_all (\<lambda>k. marks k = 0) insertLang"
  shows "marks (merge_into tableName selectLang on_clause updateLang insertLang) = marks (strings_Join selectLang '','')"
proof -
  have "marks (strings_Join updateLang '','') = 0" "marks (strings_Join insertLang '','') = 0"
    using assms(3,4) by (simp_all add: marks_clean_Join)
  then have "marks (strings_ReplaceAll (strings_Join insertLang '','') ''t2.'' []) = 0"
    by (intro marks_ReplaceAll_0) simp_all
  then show ?thesis
    using assms(1,2) \<open>marks (strings_Join updateLang '','') = 0\<close> \<open>marks (strings_Join insertLang '','') = 0\<close>
    by (simp add: merge_into_def)
qed

lemma dm_insert_arguments:
  assumes "marks tableName = 0" and "tags_clean gs" and "list_all (\<lambda>k. marks k = 0) pks" and "list_all (\<lambda>k. marks k = 0) ups"
  shows "marks (fst (iod_insert True tableName gs pks ups True)) = length gs"
proof -
  have o: "marks ('' from dual )as t2 on ('' @ strings_Join (map (\<lambda>pk. ''t1.'' @ pk @ ''=t2.'' @ pk) pks) '' and '' @ '')'') = 0"
    using marks_map_const [of pks "\<lambda>pk. ''t1.'' @ pk @ ''=t2.'' @ pk" 0 "'' and ''"] assms(3) by (simp add: list_all_iff)
  have u: "list_all (\<lambda>k. marks k = 0) (map (\<lambda>k. '' t1.'' @ k @ ''=t2.'' @ k) ups)"
    using assms(4) by (simp add: list_all_iff)
  have i: "list_all (\<lambda>k. marks k = 0) (map (\<lambda>f. ''t2.'' @ sf_mysqlField f) (filter (\<lambda>f. sf_mysqlField f \<notin> set pks) gs))"
    using assms(2) by (simp add: list_all_iff tags_clean_def)
  have "fst (iod_insert True tableName gs pks ups True) =
      unquoted (merge_into tableName (map (\<lambda>f. ''? '' @ sf_mysqlField f) gs)
        ('' from dual )as t2 on ('' @ strings_Join (map (\<lambda>pk. ''t1.'' @ pk @ ''=t2.'' @ pk) pks) '' and '' @ '')'')
        (map (\<lambda>k. '' t1.'' @ k @ ''=t2.'' @ k) ups)
        (map (\<lambda>f. ''t2.'' @ sf_mysqlField f) (filter (\<lambda>f. sf_mysqlField f \<notin> set pks) gs)))"
    by (simp only: iod_insert_def Let_def if_True if_False not_True_eq_False fst_conv)
  then show ?thesis
    by (simp only: marks_unquoted marks_merge_into [OF assms(1) o u i] marks_names(5) [OF assms(2)])
qed

section \<open>Properties\<close>

text \<open>A database that records what it is asked; \<open>answer\<close> is its reply after the statements before.\<close>

definition recording :: "(stmt list \<Rightarrow> stmt \<Rightarrow> sql_error + int) \<Rightarrow> stmt \<Rightarrow> stmt list \<Rightarrow> (sql_error + int) \<times> stmt list" where
  "recording answer q log = (answer log q, log @ [q])"

lemma InsertOrUpdateOnDup_log:
  assumes "marks tableName = 0" and "tags_clean (sdata_fields d)"
    and "InsertOrUpdateOnDup (recording answer) False tableName d pks ups use_dup [] = Inr (r, log)"
  shows "list_all balanced log \<and> length log \<le> 3"
proof (cases "pks = [] \<or> ups = []")
  case True
  with assms(3) show ?thesis by (auto simp: InsertOrUpdateOnDup_def)
next
  case False
  obtain fs where "(\<exists>e. struct_of d = Inr (Inl e)) \<or> d = SPtr fs"
    using assms(3) False by (cases d) (auto simp: InsertOrUpdateOnDup_def struct_of_def)
  then consider (err) e where "struct_of d = Inr (Inl e)" | (priv) fs e where "d = SPtr fs" "set_fields (\<lambda>f. True) fs = Inl e"
    | (ok) fs gs where "d = SPtr fs" "set_fields (\<lambda>f. True) fs = Inr gs" by (metis sum.exhaust)
  then show ?thesis
  proof cases
    case ok
    then have "tags_clean gs" using assms(2) set_fields_spec [OF ok(2)] by (simp add: tags_filter)
    then have b: "balanced (iod_insert False (MysqlEscapeString tableName) gs pks ups use_dup)"
        "balanced (iod_update False (MysqlEscapeString tableName) gs pks ups)"
      using balanced_iod assms(1) by simp_all
    show ?thesis
      using assms(3) False ok b
      by (auto simp: InsertOrUpdateOnDup_def struct_of_def Let_def Execute_def recording_def
          split: if_splits sum.splits sql_error.splits)
  qed (use assms(3) False in \<open>auto simp: InsertOrUpdateOnDup_def struct_of_def Let_def\<close>)
qed

text \<open>
  C33. Every statement the MySQL client builds has as many question marks as arguments, given table,
  column and key names without question marks: \<open>Update\<close>, the insert of \<open>AddEscapeAutoIncr\<close> with and
  without \<open>ON DUPLICATE KEY\<close>, \<open>Delete\<close>, and each of the at most three statements that
  \<open>InsertOrUpdateOnDup\<close> sends whatever the database answers.
\<close>

theorem statements_balanced:
  assumes "marks tableName = 0" and "tags_clean (sdata_fields d)"
    and "list_all (\<lambda>kv. marks (fst kv) = 0) pks" and "list_all (\<lambda>(k, v). marks k = 0) cond"
  shows "(\<forall>q. Update_stmt False tableName d pks ftu = Inr (Inr q) \<longrightarrow> balanced q) \<and>
    (\<forall>q. addEscapeAutoIncr_stmt False tableName d ondup auto_key = Inr (Inr q) \<longrightarrow> balanced q) \<and>
    (\<forall>q. Delete_stmt False tableName cond = Inr q \<longrightarrow> balanced q) \<and>
    (\<forall>r log. InsertOrUpdateOnDup (recording answer) False tableName d ks ups use_dup [] = Inr (r, log) \<longrightarrow>
       list_all balanced log \<and> length log \<le> 3)"
  using balanced_Update [OF assms(1-3)] balanced_insert [OF assms(1,2)] balanced_Delete [OF assms(1,4)]
    InsertOrUpdateOnDup_log [OF assms(1,2)] by blast

definition ex_fields :: "sfield list" where
  "ex_fields =
     [\<lparr>sf_Name = ''Id'', sf_mysqlField = ''id'', sf_protobuf = [], sf_dataType = [], sf_public = True, sf_val = VInt 7\<rparr>,
      \<lparr>sf_Name = ''Sex'', sf_mysqlField = ''sex'', sf_protobuf = [], sf_dataType = ''clob'', sf_public = True, sf_val = VStr ''m''\<rparr>]"

theorem statements_balanced_witness:
  "balanced (''insert into `t`(`sex`) values (?) ON DUPLICATE KEY UPDATE `sex` = ?'', [VStr ''m'', VStr ''m'']) \<and>
   balanced (''update `t` set `sex`=? where  `id` = ? '', [VStr ''m'', VInt 7])"
proof -
  have c: "marks ''t'' = 0" "tags_clean (sdata_fields (SPtr ex_fields))"
      "list_all (\<lambda>kv. marks (fst kv) = 0) [(''id'', VInt 7)]" "list_all (\<lambda>(k, v). marks k = 0) [(''id'', CInt64s [7])]"
    by (simp_all add: tags_clean_def ex_fields_def)
  have i: "addEscapeAutoIncr_stmt False ''t'' (SPtr ex_fields) True ''id'' =
      Inr (Inr (''insert into `t`(`sex`) values (?) ON DUPLICATE KEY UPDATE `sex` = ?'', [VStr ''m'', VStr ''m'']))"
    by code_simp
  have u: "Update_stmt False ''t'' (SPtr ex_fields) [(''id'', VInt 7)] [''sex''] =
      Inr (Inr (''update `t` set `sex`=? where  `id` = ? '', [VStr ''m'', VInt 7]))"
    by code_simp
  show ?thesis using statements_balanced [OF c] i u by blast
qed

text \<open>
  On \<open>dm\<close>, \<open>InsertOrUpdateOnDup\<close> with \<open>useSqlOnDup\<close> sends one \<open>merge\<close> statement with too many arguments:
  the values of the updated columns are passed a second time although the statement has a question mark
  for each column only.
\<close>

lemma dm_merge_arguments:
  assumes "marks tableName = 0" and "tags_clean fs" and "list_all sf_public fs"
    and "list_all (\<lambda>k. marks k = 0) pks" and "list_all (\<lambda>k. marks k = 0) ups" and "pks \<noteq> []" and "ups \<noteq> []"
  shows "\<exists>q r. InsertOrUpdateOnDup (recording answer) True tableName (SPtr fs) pks ups True [] = Inr (r, [q]) \<and>
    length (snd q) = marks (fst q) + length (filter (\<lambda>f. sf_mysqlField f \<noteq> [] \<and> sf_mysqlField f \<in> set ups) fs)"
proof -
  define gs where "gs = filter (\<lambda>f. sf_mysqlField f \<noteq> []) fs"
  define ins where "ins = iod_insert True (MysqlEscapeString tableName) gs pks ups True"
  have gs: "set_fields (\<lambda>f. True) fs = Inr gs" using set_fields_public [OF assms(3)] by (simp add: gs_def)
  have m: "marks (fst ins) = length gs"
    unfolding ins_def using assms by (intro dm_insert_arguments) (simp_all add: gs_def tags_filter)
  have a: "length (snd ins) = length gs + length (filter (\<lambda>f. sf_mysqlField f \<in> set ups) gs)"
    by (simp add: ins_def iod_insert_def Let_def)
  have "\<exists>r. InsertOrUpdateOnDup (recording answer) True tableName (SPtr fs) pks ups True [] =
      Inr (r, [(unquoted (fst ins), snd ins)])"
    using assms(6,7) by (auto simp: InsertOrUpdateOnDup_def struct_of_def Let_def gs Execute_def recording_def ins_def
        split: sum.splits)
  then show ?thesis using m a by (auto simp: gs_def conj_commute)
qed

end
