(* ===== verification/MysqlClient.thy ===== *)
theory MysqlClient
  imports MysqlStmt
begin

text \<open>
  The MySQL client of \<open>databases/mysqldb\<close>: classification of errors (\<open>utils.go\<close>), the wrapped database with
  its retries, counters and transactions (\<open>dbwrap.go\<close>), reading from several databases and set-up of the
  connections (\<open>db.go\<close>, \<open>init.go\<close>).

  A database is an argument: a function from its state to an answer.  \<open>sql.Open\<close> is the argument
  \<open>sql_open\<close>, a function of driver name and connection string; parsing of durations, numbers and booleans
  of the configuration are arguments too.
\<close>

section \<open>Errors\<close>

text \<open>
  What the code distinguishes of an error: a \<open>url.Error\<close> (with \<open>Timeout()\<close> of the error inside, when that
  is a \<open>net.Error\<close>), a \<open>net.Error\<close>, the named errors of the drivers and of \<open>context\<close>, a server error with
  its number.  Of the named ones only \<open>context.DeadlineExceeded\<close> has a \<open>Timeout\<close> method.
\<close>

datatype derr =
    UrlError "bool option" string
  | NetError bool string
  | ErrBadConn
  | ErrInvalidConn
  | DeadlineExceeded
  | Canceled
  | ServerError nat string
  | OtherError string

primrec derr_text :: "derr \<Rightarrow> string" where
  "derr_text (UrlError t s) = s"
| "derr_text (NetError t s) = s"
| "derr_text ErrBadConn = ''driver: bad connection''"
| "derr_text ErrInvalidConn = ''invalid connection''"
| "derr_text DeadlineExceeded = ''context deadline exceeded''"
| "derr_text Canceled = ''context canceled''"
| "derr_text (ServerError n s) = s"
| "derr_text (OtherError s) = s"

definition IsTimeoutError :: "derr option \<Rightarrow> bool" where
  "IsTimeoutError err =
     (case err of
        Some (UrlError (Some True) s) \<Rightarrow> True
      | Some (NetError True s) \<Rightarrow> True
      | Some DeadlineExceeded \<Rightarrow> True
      | _ \<Rightarrow> False)"

definition IsDbConnError :: "derr option \<Rightarrow> bool" where
  "IsDbConnError err =
     (case err of
        None \<Rightarrow> False
      | Some e \<Rightarrow>
          if IsTimeoutError err \<or> e = ErrBadConn \<or> e = ErrInvalidConn then True
          else if e = DeadlineExceeded \<or> e = Canceled then True
          else if strings_Contains (derr_text e) ''connection refused'' then True
          else (case e of ServerError n s \<Rightarrow> n \<noteq> 1062 | _ \<Rightarrow> False))"

section \<open>The wrapped database\<close>

datatype dbevent = EvGl string | EvCost string | EvCostFail string | EvIncr string

record DbWrap =
  dw_Timeout :: int
  dw_host :: string
  dw_glSuffix :: string
  dw_retry :: int
  dw_dsn :: string

definition NewDbWrappedRetryProxy :: "string \<Rightarrow> string \<Rightarrow> int \<Rightarrow> int \<Rightarrow> DbWrap" where
  "NewDbWrappedRetryProxy host db timeout retry =
     \<lparr>dw_Timeout = (if timeout \<le> 0 then 2000000000 else timeout), dw_host = host, dw_glSuffix = [], dw_retry = retry,
      dw_dsn = db\<rparr>"

definition defaultDbRetry :: int where "defaultDbRetry = 1"

definition NewDbWrapped :: "string \<Rightarrow> string \<Rightarrow> int \<Rightarrow> DbWrap" where
  "NewDbWrapped host db timeout = NewDbWrappedRetryProxy host db timeout defaultDbRetry"

text \<open>The nine counter names: a base and the suffix of the database.\<close>

definition gl_name :: "string \<Rightarrow> DbWrap \<Rightarrow> string" where
  "gl_name base db = (if dw_glSuffix db = [] then base else base @ ''_'' @ dw_glSuffix db)"

definition doQuery_events :: "DbWrap \<Rightarrow> bool \<Rightarrow> dbevent list" where
  "doQuery_events db failed =
     (let pcKey = ''mysql_read,db='' @ dw_host db
      in [EvGl (gl_name ''db_read_count'' db), EvCost pcKey, EvGl (gl_name ''db_read_cost'' db)] @
         (if failed then [EvCostFail pcKey, EvGl (gl_name ''db_read_fail_count'' db)] else []))"

definition doQuery :: "('s \<Rightarrow> (derr + 'r) \<times> 's) \<Rightarrow> DbWrap \<Rightarrow> 's \<Rightarrow> (derr + 'r) \<times> 's \<times> dbevent list" where
  "doQuery ask db st =
     (case ask st of (res, st') \<Rightarrow> (res, st', doQuery_events db (case res of Inl e \<Rightarrow> True | Inr r \<Rightarrow> False)))"

definition retryable :: "derr \<Rightarrow> bool" where
  "retryable e = (IsTimeoutError (Some e) \<or> IsDbConnError (Some e) \<or> strings_Contains (derr_text e) ''getsockopt'')"

text \<open>The loop of \<open>Query\<close> from turn \<open>turn\<close> on; \<open>prev\<close> is the result of the turn before.\<close>

function Query_loop ::
    "('s \<Rightarrow> (derr + 'r) \<times> 's) \<Rightarrow> DbWrap \<Rightarrow> int \<Rightarrow> int \<Rightarrow> (derr + 'r) option \<Rightarrow> 's \<Rightarrow> dbevent list \<Rightarrow>
     (derr + 'r) option \<times> 's \<times> dbevent list" where
  "Query_loop ask db retry turn prev st ev =
     (if turn \<le> retry
      then (case doQuery ask db st of
              (Inr rs, st', ev') \<Rightarrow> (Some (Inr rs), st', ev @ ev')
            | (Inl e, st', ev') \<Rightarrow>
                if retryable e then Query_loop ask db retry (turn + 1) (Some (Inl e)) st' (ev @ ev')
                else (Some (Inl e), st', ev @ ev'))
      else (prev, st, ev))"
  by pat_completeness auto

termination
  by (relation "measure (\<lambda>(ask, db, retry, turn, prev, st, ev). nat (retry + 1 - turn))") auto

declare Query_loop.simps [simp del]

definition db_Query :: "('s \<Rightarrow> (derr + 'r) \<times> 's) \<Rightarrow> DbWrap \<Rightarrow> 's \<Rightarrow> (derr + 'r) option \<times> 's \<times> dbevent list" where
  "db_Query ask db st =
     (let retry = (if dw_retry db < 0 then 0 else dw_retry db)
      in case Query_loop ask db retry 0 None st [] of
           (Some (Inl e), st', ev) \<Rightarrow> (Some (Inl e), st', ev @ [EvIncr (''mysql_read_all_fail,db='' @ dw_host db)])
         | other \<Rightarrow> other)"

definition db_ExecContext :: "('s \<Rightarrow> (derr + 'r) \<times> 's) \<Rightarrow> DbWrap \<Rightarrow> 's \<Rightarrow> (derr + 'r) \<times> 's \<times> dbevent list" where
  "db_ExecContext ask db st =
     (case ask st of
        (res, st') \<Rightarrow>
          (let pcKey = ''mysql_write,db='' @ dw_host db
           in (res, st', [EvGl (gl_name ''db_write_count'' db), EvCost pcKey, EvGl (gl_name ''db_write_cost'' db)] @
                (case res of Inl e \<Rightarrow> [EvGl (gl_name ''db_write_fail_count'' db), EvCostFail pcKey] | Inr r \<Rightarrow> []))))"

section \<open>Transactions\<close>

text \<open>
  \<open>ExecTransaction\<close> with its deferred functions.  The frame holds the named results, the database, the
  transaction's view of it and whether the transaction is open; deferred functions run last in, first
  out, also when the transaction function panics.

  The database is an argument: what \<open>Commit\<close> answers, and for an error whether the server applied the work
  before the answer was lost.  The function gets the transaction itself and may end it: it leaves it open
  with some work, or ended with the database it then finds.  \<open>Commit\<close> and \<open>Rollback\<close> of an ended transaction
  do nothing and give \<open>sql.ErrTxDone\<close>.
\<close>

datatype 'r tx_out = TxPanic go_panic | TxReturn 'r "derr option"

datatype 's tx_state = TxOpen 's | TxEnded 's

datatype commit_result = Committed | CommitFailed derr bool

primrec applied :: "commit_result \<Rightarrow> bool" where
  "applied Committed = True"
| "applied (CommitFailed e a) = a"

primrec commit_err :: "commit_result \<Rightarrow> derr option" where
  "commit_err Committed = None"
| "commit_err (CommitFailed e a) = Some e"

definition ErrTxDone :: derr where
  "ErrTxDone = OtherError ''sql: transaction has already been committed or rolled back''"

record ('s, 'r) txframe =
  tf_err :: "derr option"
  tf_res :: "'r option"
  tf_db :: 's
  tf_work :: 's
  tf_open :: bool
  tf_events :: "dbevent list"

definition tx_Commit :: "commit_result \<Rightarrow> ('s, 'r) txframe \<Rightarrow> ('s, 'r) txframe" where
  "tx_Commit commit f =
     (if \<not> tf_open f then f\<lparr>tf_err := Some ErrTxDone\<rparr>
      else f\<lparr>tf_db := (if applied commit then tf_work f else tf_db f), tf_open := False, tf_err := commit_err commit\<rparr>)"

definition tx_Rollback :: "('s, 'r) txframe \<Rightarrow> ('s, 'r) txframe" where
  "tx_Rollback f = f\<lparr>tf_open := False\<rparr>"

text \<open>What the transaction function leaves behind.\<close>

primrec tx_left :: "'s tx_state \<Rightarrow> ('s, 'r) txframe \<Rightarrow> ('s, 'r) txframe" where
  "tx_left (TxOpen w) f = f\<lparr>tf_work := w\<rparr>"
| "tx_left (TxEnded d) f = f\<lparr>tf_db := d, tf_open := False\<rparr>"

definition defer_report :: "DbWrap \<Rightarrow> ('s, 'r) txframe \<Rightarrow> ('s, 'r) txframe" where
  "defer_report db f =
     (let pcKey = ''mysql_transaction,db='' @ dw_host db
      in f\<lparr>tf_events := tf_events f @ [EvCost pcKey, EvGl (gl_name ''db_transaction_cost'' db)] @
            (if tf_err f \<noteq> None then [EvCostFail pcKey, EvGl (gl_name ''db_transaction_fail_count'' db)] else [])\<rparr>)"

definition defer_end :: "commit_result \<Rightarrow> ('s, 'r) txframe \<Rightarrow> ('s, 'r) txframe" where
  "defer_end commit f = (if tf_err f = None then tx_Commit commit f else tx_Rollback f)"

definition ExecTransaction ::
    "derr option \<Rightarrow> commit_result \<Rightarrow> ('s \<Rightarrow> 'r tx_out \<times> 's tx_state) \<Rightarrow> DbWrap \<Rightarrow> 's \<Rightarrow> go_panic option \<times> ('s, 'r) txframe" where
  "ExecTransaction begin_err commit transactionExec db st =
     (let f = \<lparr>tf_err = None, tf_res = None, tf_db = st, tf_work = st, tf_open = False,
               tf_events = [EvGl (gl_name ''db_transaction_count'' db)]\<rparr>
      in case begin_err of
           Some e \<Rightarrow> (None, defer_report db (f\<lparr>tf_err := Some e\<rparr>))
         | None \<Rightarrow>
             (let f = f\<lparr>tf_open := True\<rparr>
              in case transactionExec (tf_work f) of
                   (TxReturn r e, w) \<Rightarrow>
                     (None, defer_report db (defer_end commit ((tx_left w f)\<lparr>tf_res := Some r, tf_err := e\<rparr>)))
                 | (TxPanic p, w) \<Rightarrow> (Some p, defer_report db (defer_end commit (tx_left w f)))))"

section \<open>Reading\<close>

record MysqlClient =
  mc_dbWrite :: "DbWrap list"
  mc_dbRead :: "DbWrap list"
  mc_DbType :: string

text \<open>
  The loop of \<open>queryList\<close> and \<open>queryRow\<close> over the databases in the random order \<open>idxs\<close>; \<open>ask i\<close> is the
  database at position \<open>i\<close>.  \<open>None\<close> is the end of the loop, reached when the last database fails with
  an error worth a retry.
\<close>

fun query_loop ::
    "(nat \<Rightarrow> 's \<Rightarrow> (derr + 'r) \<times> 's) \<Rightarrow> DbWrap list \<Rightarrow> nat list \<Rightarrow> nat \<Rightarrow> 's \<Rightarrow> (derr + 'r) option \<times> 's" where
  "query_loop ask dbs [] retry st = (None, st)"
| "query_loop ask dbs (i # is) retry st =
     (case db_Query (ask i) (dbs ! i) st of
        (Some (Inl e), st', ev) \<Rightarrow>
          if retry < 1 \<and> (IsDbConnError (Some e) \<or> strings_Contains (derr_text e) ''getsockopt'')
          then query_loop ask dbs is (retry + 1) st'
          else (Some (Inl e), st')
      | (res, st', ev) \<Rightarrow> (res, st'))"

definition no_available_db :: derr where
  "no_available_db = OtherError ''no available db''"

definition queryList ::
    "nat list \<Rightarrow> (nat \<Rightarrow> 's \<Rightarrow> (derr + 'r) \<times> 's) \<Rightarrow> MysqlClient \<Rightarrow> 's \<Rightarrow> (derr + 'r) \<times> 's" where
  "queryList perm ask c st =
     (if mc_dbRead c = [] then (Inl no_available_db, st)
      else (case query_loop ask (mc_dbRead c) perm 0 st of
              (None, st') \<Rightarrow> (Inl no_available_db, st')
            | (Some res, st') \<Rightarrow> (res, st')))"

definition getReadDbRandomly :: "nat \<Rightarrow> MysqlClient \<Rightarrow> string + DbWrap" where
  "getReadDbRandomly rnd c =
     (if mc_dbRead c = [] then Inl ''no read db found'' else Inr (mc_dbRead c ! (rnd mod length (mc_dbRead c))))"

definition getWriteDbs :: "nat \<Rightarrow> MysqlClient \<Rightarrow> DbWrap go" where
  "getWriteDbs rnd c =
     (case mc_dbWrite c of
        [] \<Rightarrow> Inl IndexOutOfRange
      | [d] \<Rightarrow> Inr d
      | ds \<Rightarrow> Inr (ds ! (rnd mod length ds)))"

section \<open>Set-up\<close>

text \<open>\<open>strings.Index\<close> and \<open>strings.LastIndex\<close> as Go's integers.\<close>

definition index_int :: "string \<Rightarrow> string \<Rightarrow> int" where
  "index_int s p = (case strings_Index s p of None \<Rightarrow> - 1 | Some i \<Rightarrow> int i)"

definition last_index_char :: "string \<Rightarrow> char \<Rightarrow> int" where
  "last_index_char s c = (if c \<in> set s then int (length s - 1 - length (takeWhile (\<lambda>d. d \<noteq> c) (rev s))) else - 1)"

definition getHostFromConnStr :: "string \<Rightarrow> string \<Rightarrow> string + string" where
  "getHostFromConnStr connStr dbType =
     (let (fi, ei) = (if dbType = ''dm'' then (index_int connStr ''@'' + 1, last_index_char connStr (CHR ''?''))
                      else (index_int connStr ''@'' + 5, index_int connStr ''/'' - 1))
      in if fi \<le> 0 \<or> ei \<le> 0 \<or> ei \<le> fi then Inl ''not find host in db conn str''
         else (let host = take (nat (ei - fi)) (drop (nat fi) connStr)
               in if host = [] \<or> host = '':'' then Inl ''host not found'' else Inr host))"

fun open_dbs ::
    "(string \<Rightarrow> string \<Rightarrow> string option) \<Rightarrow> string \<Rightarrow> string \<Rightarrow> int \<Rightarrow> string list \<Rightarrow> DbWrap list \<Rightarrow> string + DbWrap list" where
  "open_dbs sql_open dbType glSuffix timeout [] acc = Inr acc"
| "open_dbs sql_open dbType glSuffix timeout (conn # conns) acc =
     (case sql_open dbType conn of
        Some e \<Rightarrow> Inl e
      | None \<Rightarrow>
          (case getHostFromConnStr conn dbType of
             Inl e \<Rightarrow> Inl e
           | Inr hst \<Rightarrow>
               open_dbs sql_open dbType glSuffix timeout conns
                 (acc @ [(NewDbWrappedRetryProxy hst conn timeout defaultDbRetry)\<lparr>dw_glSuffix := glSuffix\<rparr>])))"

definition initMainDbsMaxOpen ::
    "(string \<Rightarrow> string \<Rightarrow> string option) \<Rightarrow> string list \<Rightarrow> string list \<Rightarrow> string \<Rightarrow> string \<Rightarrow> int \<Rightarrow> MysqlClient \<Rightarrow>
     string option \<times> MysqlClient" where
  "initMainDbsMaxOpen sql_open connMasters connSlaves glSuffix dbType timeout c =
     (if connMasters = [] then (Some ''masters empty'', c)
      else
        (case open_dbs sql_open dbType glSuffix timeout connMasters [] of
           Inl e \<Rightarrow> (Some e, c)
         | Inr dbWrites \<Rightarrow>
             (let c = c\<lparr>mc_dbWrite := dbWrites\<rparr>
              in if connSlaves = [] then (None, c\<lparr>mc_dbRead := mc_dbWrite c\<rparr>)
                 else (case open_dbs sql_open dbType glSuffix timeout connSlaves [] of
                         Inl e \<Rightarrow> (Some e, c)
                       | Inr dbRead \<Rightarrow> (None, c\<lparr>mc_dbRead := dbWrites\<rparr>)))))"

record DbConnectConf =
  dc_Addrs :: "string list"
  dc_User :: string
  dc_Pass :: string
  dc_CharSet :: string
  dc_ClientFoundRows :: bool
  dc_IsProxy :: bool
  dc_EnableSqlSafeUpdates :: bool

record CommonDbConf =
  cd_DbType :: string
  cd_DbName :: string
  cd_ConnTime :: string
  cd_ReadTime :: string
  cd_WriteTime :: string
  cd_MaxOpen :: int
  cd_MaxIdle :: int
  cd_MaxLifeTime :: int
  cd_glSuffix :: string
  cd_Master :: "DbConnectConf option"
  cd_Slave :: "DbConnectConf option"

definition dsn_dm :: "string \<Rightarrow> string \<Rightarrow> string \<Rightarrow> string \<Rightarrow> string \<Rightarrow> string" where
  "dsn_dm user pass host connTimeout dbname =
     ''dm://'' @ user @ '':'' @ pass @ ''@'' @ host @ ''?connectTimeout='' @ connTimeout @ ''&compatibleMode=mysql&schema='' @ dbname"

definition dsn_mysql :: "string \<Rightarrow> string \<Rightarrow> string \<Rightarrow> string \<Rightarrow> string \<Rightarrow> string" where
  "dsn_mysql user pass host dbname params =
     user @ '':'' @ pass @ ''@tcp('' @ host @ '')/'' @ dbname @ ''?'' @ params"

definition getReadWriteConnectString ::
    "DbConnectConf option \<Rightarrow> string \<Rightarrow> string \<Rightarrow> string \<Rightarrow> string \<Rightarrow> string \<Rightarrow> string list" where
  "getReadWriteConnectString conf connTimeout readTimeout writeTimeout dbname dbType =
     (case conf of
        None \<Rightarrow> []
      | Some conf \<Rightarrow>
          (let charset = (if dc_CharSet conf = [] then ''utf8mb4'' else dc_CharSet conf)
           in map (\<lambda>host.
                (if dbType = ''dm'' then dsn_dm (dc_User conf) (dc_Pass conf) host connTimeout dbname
                 else dsn_mysql (dc_User conf) (dc_Pass conf) host dbname
                        (''timeout='' @ connTimeout @ ''&readTimeout='' @ readTimeout @ ''&writeTimeout='' @ writeTimeout @
                         ''&charset='' @ charset @ (if dc_ClientFoundRows conf then ''&clientFoundRows=true'' else []))) @
                (if dc_EnableSqlSafeUpdates conf then ''&sql_safe_updates=1'' else []))
                (filter (\<lambda>host. host \<noteq> []) (dc_Addrs conf))))"

definition getConnectString :: "DbConnectConf option \<Rightarrow> int \<Rightarrow> int \<Rightarrow> string \<Rightarrow> string list" where
  "getConnectString conf connTimeout optTimeout dbname =
     (case conf of
        None \<Rightarrow> []
      | Some conf \<Rightarrow>
          (let charset = (if dc_CharSet conf = [] then ''utf8mb4'' else dc_CharSet conf)
           in map (\<lambda>host.
                dsn_mysql (dc_User conf) (dc_Pass conf) host dbname
                  (''timeout='' @ Itoa connTimeout @ ''s&readTimeout='' @ Itoa optTimeout @ ''s&writeTimeout='' @ Itoa optTimeout @
                   ''s&charset='' @ charset @ (if dc_ClientFoundRows conf then ''&clientFoundRows=true'' else [])) @
                (if dc_EnableSqlSafeUpdates conf then ''&sql_safe_updates=1'' else []))
                (filter (\<lambda>host. host \<noteq> []) (dc_Addrs conf))))"

definition or_default :: "string \<Rightarrow> string \<Rightarrow> string" where
  "or_default d s = (if s = [] then d else s)"

text \<open>The last two string arguments of the call of \<open>initMainDbsMaxOpen\<close> are swapped in the source.\<close>

definition initDbsWithCommonConf ::
    "(string \<Rightarrow> string \<Rightarrow> string option) \<Rightarrow> (string \<Rightarrow> int option) \<Rightarrow> CommonDbConf option \<Rightarrow> MysqlClient \<Rightarrow>
     string option \<times> MysqlClient" where
  "initDbsWithCommonConf sql_open ParseDuration dbConf c =
     (case dbConf of
        None \<Rightarrow> (Some ''dbConf is nil'', c)
      | Some conf \<Rightarrow>
          (if cd_Master conf = None \<or> dc_Addrs (the (cd_Master conf)) = [] then (Some ''masterAddr is nil'', c)
           else if cd_DbName conf = [] then (Some ''dbName is nil'', c)
           else
             (let dbType = or_default ''mysql'' (cd_DbType conf);
                  c = c\<lparr>mc_DbType := dbType\<rparr>;
                  connTimeout = or_default ''200ms'' (cd_ConnTime conf);
                  readTimeout = or_default ''500ms'' (cd_ReadTime conf);
                  writeTimeout = or_default ''500ms'' (cd_WriteTime conf);
                  connMasters = getReadWriteConnectString (cd_Master conf) connTimeout readTimeout writeTimeout (cd_DbName conf) dbType
              in if connMasters = [] then (Some ''no valid master ip found'', c)
                 else
                   (let connSlave = getReadWriteConnectString (cd_Slave conf) connTimeout readTimeout writeTimeout (cd_DbName conf) dbType
                    in case ParseDuration readTimeout of
                         None \<Rightarrow> (Some ''init mysqldb invalid duration'', c)
                       | Some to \<Rightarrow> initMainDbsMaxOpen sql_open connMasters connSlave dbType (cd_glSuffix conf) to c))))"

definition with_seconds :: "string \<Rightarrow> string \<Rightarrow> string" where
  "with_seconds d s = (if s = [] then d else if \<not> HasSuffix s ''s'' then s @ ''s'' else s)"

text \<open>\<open>initDbs\<close>: \<open>m\<close> and \<open>s\<close> are the sections \<open>Mysql.db\<close> and \<open>MysqlSlave.db\<close> of the ini file.\<close>

definition initDbs ::
    "(string \<Rightarrow> string \<Rightarrow> string option) \<Rightarrow> (string \<Rightarrow> int option) \<Rightarrow> (string \<Rightarrow> bool option) \<Rightarrow> (string \<Rightarrow> string) \<Rightarrow>
     (string \<Rightarrow> string) \<Rightarrow> string \<Rightarrow> MysqlClient \<Rightarrow> string option \<times> MysqlClient" where
  "initDbs sql_open ParseDuration to_bool m s db c =
     (let timeout = with_seconds ''5s'' (m ''timeout'');
          dbType = or_default ''mysql'' (m ''db_type'');
          c = c\<lparr>mc_DbType := dbType\<rparr>;
          connTimeout = with_seconds ''1s'' (m ''connTimeout'');
          connTimeout = (if dbType = ''dm'' then strings_ReplaceAll connTimeout ''s'' [] @ ''000'' else connTimeout);
          safe = (case to_bool (m ''enable_sql_safe_updates'') of None \<Rightarrow> False | Some b \<Rightarrow> b);
          params = ''timeout='' @ connTimeout @ ''&readTimeout='' @ timeout @ ''&writeTimeout='' @ timeout;
          masterHost = m ''master_ip'' @ '':'' @ m ''master_port'';
          slaveHost = s ''slave_ip'' @ '':'' @ s ''slave_port'';
          connMasters = map (\<lambda>masterIpVal.
            if dbType = ''dm'' then dsn_dm (m ''user'') (m ''password'') masterHost connTimeout db
            else dsn_mysql (m ''user'') (m ''password'') masterHost db params @ (if safe then ''&sql_safe_updates=1'' else []))
            (filter (\<lambda>ip. ip \<noteq> []) (split_by (CHR '','') (m ''master_ip'')));
          connSlaves = map (\<lambda>slaveIpVal.
            if dbType = ''dm'' then dsn_dm (m ''user'') (m ''password'') masterHost connTimeout db
            else dsn_mysql (s ''user'') (s ''password'') slaveHost db params)
            (filter (\<lambda>ip. ip \<noteq> []) (split_by (CHR '','') (s ''slave_ip'')));
          to = (case ParseDuration timeout of None \<Rightarrow> 0 | Some d \<Rightarrow> d)
      in initMainDbsMaxOpen sql_open connMasters connSlaves (m ''glSuffix'') dbType to c)"

definition initObjForMysqlDb where
  "initObjForMysqlDb load sql_open ParseDuration to_bool dbConfPath db c =
     (if dbConfPath = [] then (Some ''dbConf not set'', c)
      else if \<not> HasSuffix dbConfPath ''.ini'' then (Some ''dbConf not an ini file'', c)
      else (case load dbConfPath of
              Inl e \<Rightarrow> (Some e, c)
            | Inr f \<Rightarrow> initDbs sql_open ParseDuration to_bool (f (''Mysql.'' @ db)) (f (''MysqlSlave.'' @ db)) db c))"

section \<open>Attempts\<close>

text \<open>Databases that record which of them is asked; \<open>answer\<close> is the reply after the questions before.\<close>

definition ask_log :: "(nat list \<Rightarrow> nat \<Rightarrow> derr + 'r) \<Rightarrow> nat \<Rightarrow> nat list \<Rightarrow> (derr + 'r) \<times> nat list" where
  "ask_log answer i log = (answer log i, log @ [i])"

definition failed :: "(nat list \<Rightarrow> nat \<Rightarrow> derr + 'r) \<Rightarrow> nat list \<Rightarrow> nat \<Rightarrow> bool" where
  "failed answer log i = (case answer log i of Inl e \<Rightarrow> retryable e | Inr r \<Rightarrow> False)"

lemma db_Query_log:
  assumes "dw_retry db = 1"
  shows "\<exists>ev. db_Query (ask_log answer i) db log =
    (if failed answer log i then (Some (answer (log @ [i]) i), log @ [i, i], ev) else (Some (answer log i), log @ [i], ev))"
  using assms
  by (auto simp: db_Query_def Let_def Query_loop.simps [of _ _ 1 0] Query_loop.simps [of _ _ 1 1] Query_loop.simps [of _ _ 1 2]
      doQuery_def ask_log_def failed_def split: sum.splits)

lemma conn_error_retryable:
  "IsDbConnError (Some e) \<or> strings_Contains (derr_text e) ''getsockopt'' \<Longrightarrow> retryable e"
  by (auto simp: retryable_def)

text \<open>The questions asked after \<open>log\<close>: all but the last failed with an error worth a retry.\<close>

definition asked_well :: "(nat list \<Rightarrow> nat \<Rightarrow> derr + 'r) \<Rightarrow> nat list \<Rightarrow> nat list \<Rightarrow> bool" where
  "asked_well answer log qs = (\<forall>k. Suc k < length qs \<longrightarrow> failed answer (log @ take k qs) (qs ! k))"

lemma asked_well_simps:
  "asked_well answer log []" "asked_well answer log [i]"
  "asked_well answer log (i # j # qs) \<longleftrightarrow> failed answer log i \<and> asked_well answer (log @ [i]) (j # qs)"
  by (auto simp: asked_well_def nth_Cons take_Cons split: nat.splits)

definition outcome_of :: "(nat list \<Rightarrow> nat \<Rightarrow> derr + 'r) \<Rightarrow> nat list \<Rightarrow> derr + 'r" where
  "outcome_of answer qs = answer (butlast qs) (last qs)"

lemma query_second:
  assumes "dw_retry (dbs ! j) = 1" and "query_loop (ask_log answer) dbs (j # is) 1 log = (res, log')"
  shows "\<exists>qs. log' = log @ qs \<and> qs \<in> {[j], [j, j]} \<and> asked_well answer log qs \<and> res = Some (answer (log @ butlast qs) j)"
proof -
  obtain ev where "db_Query (ask_log answer j) (dbs ! j) log =
      (if failed answer log j then (Some (answer (log @ [j]) j), log @ [j, j], ev) else (Some (answer log j), log @ [j], ev))"
    using db_Query_log [OF assms(1)] by blast
  with assms(2) show ?thesis by (auto simp: asked_well_simps split: if_splits sum.splits)
qed

lemma query_first:
  assumes "dw_retry (dbs ! i) = 1" and "query_loop (ask_log answer) dbs (i # is) 0 [] = (res, log')"
  shows "\<exists>qs. qs \<in> {[i], [i, i]} \<and> asked_well answer [] qs \<and>
    ((log' = qs \<and> res = Some (outcome_of answer qs)) \<or>
     (failed answer (butlast qs) i \<and> query_loop (ask_log answer) dbs is 1 qs = (res, log')))"
proof -
  define qs where "qs = (if failed answer [] i then [i, i] else [i])"
  obtain ev where e: "db_Query (ask_log answer i) (dbs ! i) [] =
      (if failed answer [] i then (Some (answer ([] @ [i]) i), [] @ [i, i], ev) else (Some (answer [] i), [] @ [i], ev))"
    using db_Query_log [OF assms(1), of answer i "[]"] by blast
  have q: "db_Query (ask_log answer i) (dbs ! i) [] = (Some (outcome_of answer qs), qs, ev)"
    by (simp add: e qs_def outcome_of_def)
  have qs: "qs \<in> {[i], [i, i]}" "asked_well answer [] qs" "outcome_of answer qs = answer (butlast qs) i"
    by (auto simp: qs_def asked_well_simps outcome_of_def)
  show ?thesis
  proof (cases "outcome_of answer qs")
    case (Inr r)
    then have "log' = qs \<and> res = Some (outcome_of answer qs)" using assms(2) q by auto
    then show ?thesis using qs by blast
  next
    case (Inl e)
    show ?thesis
    proof (cases "IsDbConnError (Some e) \<or> strings_Contains (derr_text e) ''getsockopt''")
      case True
      then have "query_loop (ask_log answer) dbs is 1 qs = (res, log')" using assms(2) q Inl by simp
      moreover have "failed answer (butlast qs) i" using conn_error_retryable [OF True] Inl qs(3) by (simp add: failed_def)
      ultimately show ?thesis using qs by blast
    next
      case False
      then have "log' = qs \<and> res = Some (outcome_of answer qs)" using assms(2) q Inl by auto
      then show ?thesis using qs by blast
    qed
  qed
qed

lemma asked_well_append:
  "qs \<noteq> [] \<Longrightarrow> rs \<noteq> [] \<Longrightarrow> asked_well answer log qs \<Longrightarrow> failed answer (log @ butlast qs) (last qs) \<Longrightarrow>
   asked_well answer (log @ qs) rs \<Longrightarrow> asked_well answer log (qs @ rs)"
proof (induction qs arbitrary: log)
  case (Cons q qs)
  show ?case
  proof (cases qs)
    case Nil
    with Cons.prems show ?thesis by (cases rs) (auto simp: asked_well_simps)
  next
    case (Cons q' qs')
    with Cons.prems Cons.IH [of "log @ [q]"] show ?thesis by (auto simp: asked_well_simps)
  qed
qed simp

lemma queryList_log:
  assumes "mc_dbRead c \<noteq> []" and "\<forall>d \<in> set (mc_dbRead c). dw_retry d = 1" and "set perm = {..<length (mc_dbRead c)}"
    and "queryList perm (ask_log answer) c [] = (res, log)"
  shows "log \<noteq> [] \<and> length log \<le> 4 \<and> card (set log) \<le> 2 \<and> asked_well answer [] log \<and>
    (\<forall>r. res = Inr r \<longleftrightarrow> outcome_of answer log = Inr r)"
proof -
  obtain i ks where perm: "perm = i # ks" using assms(1,3) by (cases perm) auto
  have retry: "dw_retry (mc_dbRead c ! k) = 1" if "k \<in> set perm" for k
    using that assms(2,3) by auto
  obtain res' where loop: "query_loop (ask_log answer) (mc_dbRead c) (i # ks) 0 [] = (res', log)"
      and res: "res = (case res' of None \<Rightarrow> Inl no_available_db | Some r \<Rightarrow> r)"
    using assms(1,4) perm by (auto simp: queryList_def split: prod.splits option.splits)
  obtain qs where qs: "qs \<in> {[i], [i, i]}" "asked_well answer [] qs"
      and next_step: "(log = qs \<and> res' = Some (outcome_of answer qs)) \<or>
        (failed answer (butlast qs) i \<and> query_loop (ask_log answer) (mc_dbRead c) ks 1 qs = (res', log))"
    using query_first [OF retry loop] perm by auto
  from next_step show ?thesis
  proof
    assume "log = qs \<and> res' = Some (outcome_of answer qs)"
    with qs res show ?thesis by auto
  next
    assume n: "failed answer (butlast qs) i \<and> query_loop (ask_log answer) (mc_dbRead c) ks 1 qs = (res', log)"
    show ?thesis
    proof (cases ks)
      case Nil
      with n have "log = qs" "res' = None" by auto
      moreover have "outcome_of answer qs \<noteq> Inr r" for r
        using n qs(1) by (auto simp: failed_def outcome_of_def)
      ultimately show ?thesis using qs res by auto
    next
      case (Cons j js)
      obtain rs where rs: "log = qs @ rs" "rs \<in> {[j], [j, j]}" "asked_well answer qs rs"
          "res' = Some (answer (qs @ butlast rs) j)"
        using query_second [OF retry] n perm Cons by (metis list.set_intros)
      have "asked_well answer [] (qs @ rs)"
        using qs rs n by (intro asked_well_append) auto
      moreover have "card (set (qs @ rs)) \<le> 2" using qs(1) rs(2) by (auto simp: card_insert_if)
      ultimately show ?thesis using qs rs res by (auto simp: outcome_of_def)
    qed
  qed
qed

section \<open>Connections\<close>

lemma strings_Index_char: "c \<notin> set xs \<Longrightarrow> strings_Index (xs @ c # ys) [c] = Some (length xs)"
  by (induction xs) (auto simp: HasPrefix_def)

lemma getHost_mysql:
  assumes "CHR ''@'' \<notin> set user \<union> set pass" and "CHR ''/'' \<notin> set user \<union> set pass \<union> set host"
    and "host \<noteq> []" and "host \<noteq> '':''" and "dbType \<noteq> ''dm''"
  shows "getHostFromConnStr (dsn_mysql user pass host dbname params) dbType = Inr host"
proof -
  let ?s = "dsn_mysql user pass host dbname params"
  have "?s = (user @ '':'' @ pass) @ CHR ''@'' # (''tcp('' @ host @ '')/'' @ dbname @ ''?'' @ params)"
    by (simp add: dsn_mysql_def)
  then have at: "index_int ?s ''@'' = int (length user + length pass + 1)"
    using assms(1) strings_Index_char [of "CHR ''@''" "user @ '':'' @ pass"] by (simp add: index_int_def)
  have "?s = (user @ '':'' @ pass @ ''@tcp('' @ host @ '')'') @ CHR ''/'' # (dbname @ ''?'' @ params)"
    by (simp add: dsn_mysql_def)
  then have sl: "index_int ?s ''/'' = int (length user + length pass + length host + 7)"
    using assms(2) strings_Index_char [of "CHR ''/''" "user @ '':'' @ pass @ ''@tcp('' @ host @ '')''"] by (simp add: index_int_def)
  have "?s = (user @ '':'' @ pass @ ''@tcp('') @ host @ ('')/'' @ dbname @ ''?'' @ params)"
    by (simp add: dsn_mysql_def)
  moreover have "length (user @ '':'' @ pass @ ''@tcp('') = length user + length pass + 6" by simp
  ultimately have cut_host: "take (length host) (drop (length user + length pass + 6) ?s) = host"
    by (metis append_eq_conv_conj)
  have n: "nat (int (length user + length pass + length host + 7) - 1 - (int (length user + length pass + 1) + 5)) = length host"
      "nat (int (length user + length pass + 1) + 5) = length user + length pass + 6"
    by simp_all
  show ?thesis
    using assms(3-5) by (simp only: getHostFromConnStr_def Let_def at sl if_False prod.case n cut_host) simp
qed

lemma open_dbs_dsn:
  "open_dbs sql_open ty gls to conns acc = Inr dbs \<Longrightarrow>
   map dw_dsn dbs = map dw_dsn acc @ conns \<and> (list_all (\<lambda>d. dw_retry d = 1) acc \<longrightarrow> list_all (\<lambda>d. dw_retry d = 1) dbs)"
  by (induction sql_open ty gls to conns acc rule: open_dbs.induct)
     (auto simp: NewDbWrappedRetryProxy_def defaultDbRetry_def split: option.splits sum.splits)

lemma initMain_reads_masters:
  assumes "initMainDbsMaxOpen sql_open ms ss gls ty to c = (None, c')"
  shows "mc_dbRead c' = mc_dbWrite c' \<and> map dw_dsn (mc_dbRead c') = ms \<and> mc_dbRead c' \<noteq> [] \<and>
    (\<forall>d \<in> set (mc_dbRead c'). dw_retry d = 1)"
  using assms open_dbs_dsn [of sql_open ty gls to ms "[]"]
  by (auto simp: initMainDbsMaxOpen_def Let_def list_all_iff split: if_splits sum.splits)

lemma initMain_unknown_driver:
  "sql_open ty (hd ms) \<noteq> None \<Longrightarrow> fst (initMainDbsMaxOpen sql_open ms ss gls ty to c) \<noteq> None"
  by (cases ms) (auto simp: initMainDbsMaxOpen_def)

section \<open>Properties\<close>

text \<open>
  C35. A read of a client that was set up successfully asks at most two of its databases and sends at
  most four statements; every statement but the last failed with an error worth a retry, and the read
  succeeds exactly when the last statement does.
\<close>

theorem queryList_attempts:
  assumes "initMainDbsMaxOpen sql_open ms ss gls ty to c = (None, c')"
    and "set perm = {..<length (mc_dbRead c')}" and "queryList perm (ask_log answer) c' [] = (res, log)"
  shows "log \<noteq> [] \<and> length log \<le> 4 \<and> card (set log) \<le> 2 \<and>
    (\<forall>k. Suc k < length log \<longrightarrow> (\<exists>e. answer (take k log) (log ! k) = Inl e \<and> retryable e)) \<and>
    (\<forall>r. res = Inr r \<longleftrightarrow> answer (butlast log) (last log) = Inr r)"
proof -
  note i = initMain_reads_masters [OF assms(1)]
  have "failed answer l k \<Longrightarrow> \<exists>e. answer l k = Inl e \<and> retryable e" for l k
    by (auto simp: failed_def split: sum.splits)
  then show ?thesis
    using queryList_log [OF _ _ assms(2,3)] i unfolding asked_well_def outcome_of_def by fastforce
qed

definition known_drivers :: "string \<Rightarrow> string \<Rightarrow> string option" where
  "known_drivers driver dsn = (if driver \<in> {''mysql'', ''dm''} then None else Some ''sql: unknown driver'')"

definition ex_client :: MysqlClient where
  "ex_client = \<lparr>mc_dbWrite = [], mc_dbRead = [], mc_DbType = []\<rparr>"

theorem queryList_attempts_witness:
  "\<exists>c'. initMainDbsMaxOpen known_drivers [''u:p@tcp(a:1)/d?'', ''u:p@tcp(b:2)/d?''] [''u:p@tcp(s:3)/d?''] [] ''mysql'' 0 ex_client =
     (None, c') \<and> length (snd (queryList [1, 0] (ask_log (\<lambda>log i. if i = 1 then Inl ErrBadConn else Inr ())) c' [])) \<le> 4"
proof -
  let ?i = "initMainDbsMaxOpen known_drivers [''u:p@tcp(a:1)/d?'', ''u:p@tcp(b:2)/d?''] [''u:p@tcp(s:3)/d?''] [] ''mysql'' 0 ex_client"
  have "fst ?i = None \<and> length (mc_dbRead (snd ?i)) = 2" by code_simp
  then have i: "?i = (None, snd ?i)" "set [1, 0] = {..<length (mc_dbRead (snd ?i))}" by (auto simp: prod_eq_iff)
  obtain res log where q: "queryList [1, 0] (ask_log (\<lambda>log i. if i = 1 then Inl ErrBadConn else Inr ())) (snd ?i) [] = (res, log)"
    by (cases "queryList [1, 0] (ask_log (\<lambda>log i. if i = 1 then Inl ErrBadConn else Inr ())) (snd ?i) []")
  show ?thesis using queryList_attempts [OF i q] i(1) q by auto
qed

text \<open>
  C36. A transaction is all or nothing when its function returns and leaves the transaction open: its work
  is in the database exactly when the returned error is nil, which needs a nil error from begin, function
  and commit, with the exception of a commit that the server applied before it failed.  When the function
  panics, the deferred function sees a nil error and commits the work done so far.  A function that ends the
  transaction itself keeps what it did, and the call then always gives an error: that of the function, or
  \<open>sql.ErrTxDone\<close>.  In all cases the transaction is ended and the failure counter moves exactly on an error.
\<close>

theorem transaction_outcome:
  assumes "ExecTransaction begin_err commit body db st = (p, f)"
  shows "\<not> tf_open f \<and>
    (EvCostFail (''mysql_transaction,db='' @ dw_host db) \<in> set (tf_events f) \<longleftrightarrow> tf_err f \<noteq> None) \<and>
    (\<forall>w. snd (body st) = TxOpen w \<longrightarrow>
       (p = None \<longrightarrow>
          (tf_err f = None \<longleftrightarrow> begin_err = None \<and> commit = Committed \<and> (\<exists>r. fst (body st) = TxReturn r None)) \<and>
          tf_db f = (if tf_err f = None \<or>
                        begin_err = None \<and> (\<exists>r. fst (body st) = TxReturn r None) \<and> (\<exists>e. commit = CommitFailed e True)
                     then w else st)) \<and>
       (p \<noteq> None \<longrightarrow> tf_db f = (if applied commit then w else st))) \<and>
    (\<forall>d. snd (body st) = TxEnded d \<and> begin_err = None \<longrightarrow>
       tf_db f = d \<and> tf_err f = Some (case fst (body st) of TxReturn r (Some e) \<Rightarrow> e | _ \<Rightarrow> ErrTxDone))"
  using assms
  by (cases begin_err; cases "fst (body st)"; cases "snd (body st)"; cases commit; cases "body st")
     (auto simp: ExecTransaction_def Let_def defer_report_def defer_end_def tx_Commit_def tx_Rollback_def split: if_splits option.splits)

theorem transaction_outcome_witness:
  "tf_db (snd (ExecTransaction None Committed (\<lambda>s :: nat. (TxPanic NilDeref :: unit tx_out, TxOpen (s + 1)))
     (NewDbWrapped ''h'' ''dsn'' 0) 41)) = 42 \<and>
   tf_err (snd (ExecTransaction None Committed (\<lambda>s :: nat. (TxReturn () None, TxEnded (s + 2)))
     (NewDbWrapped ''h'' ''dsn'' 0) 41)) = Some ErrTxDone"
proof -
  let ?b = "\<lambda>s :: nat. (TxPanic NilDeref :: unit tx_out, TxOpen (s + 1))" and ?c = "\<lambda>s :: nat. (TxReturn () None, TxEnded (s + 2))"
  obtain p f where e: "ExecTransaction None Committed ?b (NewDbWrapped ''h'' ''dsn'' 0) 41 = (p, f)" by fastforce
  obtain q g where e': "ExecTransaction None Committed ?c (NewDbWrapped ''h'' ''dsn'' 0) 41 = (q, g)" by fastforce
  have "p = Some NilDeref" using e by (simp add: ExecTransaction_def Let_def)
  then show ?thesis using transaction_outcome [OF e] transaction_outcome [OF e'] e e' by simp
qed

text \<open>
  Set-up: a client configured through \<open>CommonDbConf\<close> never starts, because the suffix of the counters
  (a private field, empty outside the package) is passed as the driver name to \<open>sql.Open\<close>, which knows no
  driver of that name; and every successful set-up reads from the masters, whatever slaves are
  configured.
\<close>

lemma setup_of_connections:
  assumes "\<forall>dsn. sql_open [] dsn \<noteq> None"
  shows "(cd_glSuffix conf = [] \<longrightarrow> fst (initDbsWithCommonConf sql_open ParseDuration (Some conf) c) \<noteq> None) \<and>
    (\<forall>ms ss gls ty to c'. initMainDbsMaxOpen sql_open ms ss gls ty to c = (None, c') \<longrightarrow>
       map dw_dsn (mc_dbRead c') = ms \<and> mc_dbRead c' = mc_dbWrite c')"
proof -
  have "fst (initMainDbsMaxOpen sql_open ms ss gls [] to c) \<noteq> None" for ms ss gls to c
    using initMain_unknown_driver assms by blast
  then have "cd_glSuffix conf = [] \<longrightarrow> fst (initDbsWithCommonConf sql_open ParseDuration (Some conf) c) \<noteq> None"
    by (auto simp: initDbsWithCommonConf_def Let_def split: option.splits)
  then show ?thesis using initMain_reads_masters by metis
qed

definition ex_conf :: CommonDbConf where
  "ex_conf = \<lparr>cd_DbType = [], cd_DbName = ''db'', cd_ConnTime = [], cd_ReadTime = [], cd_WriteTime = [], cd_MaxOpen = 0,
     cd_MaxIdle = 0, cd_MaxLifeTime = 0, cd_glSuffix = [],
     cd_Master = Some \<lparr>dc_Addrs = [''10.0.0.1:3306''], dc_User = ''u'', dc_Pass = ''p'', dc_CharSet = [], dc_ClientFoundRows = False,
       dc_IsProxy = False, dc_EnableSqlSafeUpdates = False\<rparr>,
     cd_Slave = None\<rparr>"

end
