(* ===== verification/Gr.thy ===== *)
theory Gr
  imports Prelude
begin

text \<open>
  Goroutine pools (\<open>runtime/gr\<close>): the pools of fixed size with and without a time-out, driven by the
  goroutine that submits functions and closes the pool, as a step relation over all interleavings with
  the workers; the pool with reserved parts; and the group of tasks that can be stopped.
\<close>

section \<open>Pools of fixed size\<close>

text \<open>
  The submitting goroutine: in its loop of \<open>Execute\<close> calls, between the send to the semaphore and the start
  of the worker, waiting in \<open>Close\<close>, or returned.  A worker runs its function, then receives from the
  semaphore, then calls \<open>wg.Done\<close>.
\<close>

datatype 'f submitter = MLoop | MAdd 'f | MWait | MReturned

record 'f FixedGoroutinePool =
  fp_main :: "'f submitter"
  fp_todo :: "'f list"
  fp_buf :: nat
  fp_closed :: bool
  fp_wg :: nat
  fp_running :: "'f list"
  fp_recv :: nat
  fp_done :: nat
  fp_finished :: "'f list"
  fp_refused :: "'f list"

text \<open>
  \<open>Start\<close>: \<open>make(chan bool, Size)\<close> panics on a negative size and on one beyond the largest channel of
  one-byte elements that the run-time system allows, \<open>maxChan\<close> (about \<open>2 ^ 48\<close> on 64-bit Linux).
\<close>

definition fp_Start :: "int \<Rightarrow> int \<Rightarrow> 'f list \<Rightarrow> 'f FixedGoroutinePool go" where
  "fp_Start maxChan sz tasks =
     (if sz < 0 \<or> maxChan < sz then Inl (PanicValue ''makechan: size out of range'')
      else Inr \<lparr>fp_main = MLoop, fp_todo = tasks, fp_buf = 0, fp_closed = False, fp_wg = 0, fp_running = [], fp_recv = 0,
                fp_done = 0, fp_finished = [], fp_refused = []\<rparr>)"

text \<open>
  The steps of a pool of size \<open>n\<close>; \<open>timed\<close> says that \<open>Timeout\<close> is positive, so that \<open>Execute\<close> may give up.
  A receive from the closed semaphore succeeds at once when it is empty.
\<close>

inductive fp_step :: "bool \<Rightarrow> nat \<Rightarrow> 'f FixedGoroutinePool \<Rightarrow> 'f FixedGoroutinePool \<Rightarrow> bool" for timed n where
  fp_send: "fp_main s = MLoop \<Longrightarrow> fp_todo s = f # fs \<Longrightarrow> \<not> fp_closed s \<Longrightarrow> fp_buf s < n \<Longrightarrow>
     fp_step timed n s (s\<lparr>fp_main := MAdd f, fp_todo := fs, fp_buf := fp_buf s + 1\<rparr>)"
| fp_timeout: "fp_main s = MLoop \<Longrightarrow> fp_todo s = f # fs \<Longrightarrow> timed \<Longrightarrow>
     fp_step timed n s (s\<lparr>fp_todo := fs, fp_refused := fp_refused s @ [f]\<rparr>)"
| fp_go: "fp_main s = MAdd f \<Longrightarrow>
     fp_step timed n s (s\<lparr>fp_main := MLoop, fp_wg := fp_wg s + 1, fp_running := fp_running s @ [f]\<rparr>)"
| fp_finish: "fp_running s = xs @ f # ys \<Longrightarrow>
     fp_step timed n s (s\<lparr>fp_running := xs @ ys, fp_recv := fp_recv s + 1, fp_finished := fp_finished s @ [f]\<rparr>)"
| fp_receive: "0 < fp_recv s \<Longrightarrow> 0 < fp_buf s \<or> fp_closed s \<Longrightarrow>
     fp_step timed n s (s\<lparr>fp_recv := fp_recv s - 1, fp_buf := fp_buf s - 1, fp_done := fp_done s + 1\<rparr>)"
| fp_wgDone: "0 < fp_done s \<Longrightarrow> fp_step timed n s (s\<lparr>fp_done := fp_done s - 1, fp_wg := fp_wg s - 1\<rparr>)"
| fp_close: "fp_main s = MLoop \<Longrightarrow> fp_todo s = [] \<Longrightarrow> fp_step timed n s (s\<lparr>fp_main := MWait, fp_closed := True\<rparr>)"
| fp_wait: "fp_main s = MWait \<Longrightarrow> fp_wg s = 0 \<Longrightarrow> fp_step timed n s (s\<lparr>fp_main := MReturned\<rparr>)"

section \<open>Reserved pools\<close>

record GoRoutinePoolWithConfig =
  gw_DefaultSize :: int
  gw_ReservedConfig :: "(string \<times> int) list option"
  gw_reservedPools :: "(string \<times> int) list"
  gw_defaultPool :: "int option"

text \<open>\<open>Start\<close> makes the reserved pools before it looks at the default size.\<close>

definition gw_Start :: "int \<Rightarrow> GoRoutinePoolWithConfig \<Rightarrow> (string option \<times> GoRoutinePoolWithConfig) go" where
  "gw_Start maxChan g =
     (let conf = (case gw_ReservedConfig g of None \<Rightarrow> [] | Some c \<Rightarrow> c)
      in if list_ex (\<lambda>kv. snd kv < 0 \<or> maxChan < snd kv) conf then Inl (PanicValue ''makechan: size out of range'')
         else (let g = g\<lparr>gw_reservedPools := fold (\<lambda>(k, v). al_set k v) conf []\<rparr>
               in if gw_DefaultSize g < 1 then Inr (Some ''invalid pool default size'', g)
                  else if maxChan < gw_DefaultSize g then Inl (PanicValue ''makechan: size out of range'')
                  else Inr (None, g\<lparr>gw_defaultPool := Some (gw_DefaultSize g)\<rparr>)))"

text \<open>The size of the pool that runs a function; a nil default pool panics.\<close>

definition gw_ExecuteDefault :: "GoRoutinePoolWithConfig \<Rightarrow> int go" where
  "gw_ExecuteDefault g = (case gw_defaultPool g of None \<Rightarrow> Inl NilDeref | Some n \<Rightarrow> Inr n)"

definition gw_ExecuteKey :: "string \<Rightarrow> GoRoutinePoolWithConfig \<Rightarrow> int go" where
  "gw_ExecuteKey key g = (case map_of (gw_reservedPools g) key of Some n \<Rightarrow> Inr n | None \<Rightarrow> gw_ExecuteDefault g)"

text \<open>\<open>Close\<close> closes the default pool and every reserved pool, each in a goroutine of its own.\<close>

definition gw_Close :: "GoRoutinePoolWithConfig \<Rightarrow> string option list go" where
  "gw_Close g = (case gw_defaultPool g of None \<Rightarrow> Inl NilDeref | Some n \<Rightarrow> Inr (None # map (\<lambda>kv. Some (fst kv)) (gw_reservedPools g)))"

section \<open>Task groups\<close>

record 't StopAbleTaskGroup =
  tg_taskList :: "'t list option"

definition NewStopAbleTaskGroup :: "'t StopAbleTaskGroup" where
  "NewStopAbleTaskGroup = \<lparr>tg_taskList = Some []\<rparr>"

definition tg_Start :: "'t StopAbleTaskGroup \<Rightarrow> 't StopAbleTaskGroup" where
  "tg_Start s = (if tg_taskList s = None then s\<lparr>tg_taskList := Some []\<rparr> else s)"

definition AddTask :: "'t \<Rightarrow> 't StopAbleTaskGroup \<Rightarrow> 't StopAbleTaskGroup" where
  "AddTask task s = (case tg_taskList s of None \<Rightarrow> s\<lparr>tg_taskList := Some [task]\<rparr> | Some ts \<Rightarrow> s\<lparr>tg_taskList := Some (ts @ [task])\<rparr>)"

text \<open>\<open>WaitStopAll\<close> starts the \<open>Close\<close> of every task, last task first, waits for all and clears the list.\<close>

definition WaitStopAll :: "'t StopAbleTaskGroup \<Rightarrow> 't list \<times> 't StopAbleTaskGroup" where
  "WaitStopAll s =
     ((case tg_taskList s of
         None \<Rightarrow> []
       | Some ts \<Rightarrow> map (\<lambda>i. ts ! (length ts - 1 - i)) [0..<length ts]),
      s\<lparr>tg_taskList := Some []\<rparr>)"

lemma WaitStopAll_all: "fst (WaitStopAll (fold AddTask ts NewStopAbleTaskGroup)) = rev ts"
proof -
  have "tg_taskList (fold AddTask ts s) = Some (xs @ ts)" if "tg_taskList s = Some xs" for xs and s :: "'a StopAbleTaskGroup"
    using that by (induction ts arbitrary: s xs) (auto simp: AddTask_def)
  from this [of NewStopAbleTaskGroup "[]"] show ?thesis
    by (auto simp: WaitStopAll_def NewStopAbleTaskGroup_def rev_nth intro!: nth_equalityI)
qed

section \<open>Tokens, workers and functions\<close>

definition adding :: "'f submitter \<Rightarrow> 'f list" where
  "adding m = (case m of MAdd f \<Rightarrow> [f] | _ \<Rightarrow> [])"

lemma adding_simps [simp]: "adding MLoop = []" "adding (MAdd f) = [f]" "adding MWait = []" "adding MReturned = []"
  by (simp_all add: adding_def)

text \<open>
  Every token in the semaphore belongs to a worker that has not received yet, the wait group counts the
  workers, and no function is lost.
\<close>

definition fp_inv :: "nat \<Rightarrow> 'f list \<Rightarrow> 'f FixedGoroutinePool \<Rightarrow> bool" where
  "fp_inv n tasks s =
     (fp_buf s = length (adding (fp_main s)) + length (fp_running s) + fp_recv s \<and> fp_buf s \<le> n \<and>
      fp_wg s = length (fp_running s) + fp_recv s + fp_done s \<and>
      mset (fp_finished s) + mset (fp_refused s) + mset (fp_running s) + mset (adding (fp_main s)) + mset (fp_todo s) = mset tasks \<and>
      (fp_closed s \<longleftrightarrow> fp_main s \<in> {MWait, MReturned}) \<and> (fp_closed s \<longrightarrow> fp_todo s = []) \<and>
      (fp_main s = MReturned \<longrightarrow> fp_wg s = 0))"

lemma fp_inv_start: "fp_Start maxChan sz tasks = Inr s \<Longrightarrow> fp_inv (nat sz) tasks s"
  by (auto simp: fp_Start_def fp_inv_def split: if_splits)

lemma fp_inv_step: "fp_step timed n s s' \<Longrightarrow> fp_inv n tasks s \<Longrightarrow> fp_inv n tasks s'"
  by (induction rule: fp_step.induct) (auto simp: fp_inv_def)

lemma fp_inv_steps: "(fp_step timed n ^^ k) s s' \<Longrightarrow> fp_inv n tasks s \<Longrightarrow> fp_inv n tasks s'"
  by (induction k arbitrary: s') (auto intro: fp_inv_step)

definition fp_work :: "'f FixedGoroutinePool \<Rightarrow> nat" where
  "fp_work s = 5 * length (fp_todo s) + 4 * length (adding (fp_main s)) + 3 * length (fp_running s) + 2 * fp_recv s + fp_done s +
     (case fp_main s of MWait \<Rightarrow> 1 | MReturned \<Rightarrow> 0 | _ \<Rightarrow> 2)"

lemma fp_work_step: "fp_step timed n s s' \<Longrightarrow> fp_work s' < fp_work s"
  by (induction rule: fp_step.induct) (auto simp: fp_work_def)

lemma fp_work_steps: "(fp_step timed n ^^ k) s s' \<Longrightarrow> fp_work s' + k \<le> fp_work s"
proof (induction k arbitrary: s')
  case (Suc k)
  then obtain t where "(fp_step timed n ^^ k) s t" "fp_step timed n t s'" by auto
  then show ?case using Suc.IH [of t] fp_work_step [of timed n t s'] by simp
qed simp

lemma fp_progress:
  assumes inv: "fp_inv n tasks s" and "0 < n \<or> timed" and "fp_main s \<noteq> MReturned"
  shows "\<exists>s'. fp_step timed n s s'"
proof (cases "fp_running s = [] \<and> fp_recv s = 0 \<and> fp_done s = 0")
  case True
  show ?thesis
  proof (cases "fp_main s")
    case MLoop
    show ?thesis
    proof (cases "fp_todo s")
      case Nil
      with MLoop show ?thesis by (blast intro: fp_close)
    next
      case (Cons f fs)
      have "\<not> fp_closed s" "fp_buf s = 0" using inv MLoop True by (auto simp: fp_inv_def)
      then show ?thesis using assms(2) fp_send [OF MLoop Cons] fp_timeout [OF MLoop Cons] by metis
    qed
  next
    case (MAdd f)
    then show ?thesis by (blast intro: fp_go)
  next
    case MWait
    with inv True show ?thesis by (auto simp: fp_inv_def intro: fp_wait)
  qed (use assms(3) in simp)
next
  case False
  then consider f fs where "fp_running s = [] @ f # fs" | "0 < fp_recv s" | "0 < fp_done s"
    by (cases "fp_running s") auto
  then show ?thesis
  proof cases
    case 2
    then have "0 < fp_buf s" using inv by (simp add: fp_inv_def)
    with 2 show ?thesis by (blast intro: fp_receive)
  qed (blast intro: fp_finish fp_wgDone)+
qed

section \<open>Property\<close>

text \<open>
  C39. A pool of fixed size does its work: with at least one place (or a positive time-out), and functions
  that return, every run of the submitter and the workers ends after at most five steps per function and two
  for \<open>Close\<close>, with \<open>Close\<close> returned and every function either finished exactly once or refused by a time-out;
  at every moment at most \<open>Size\<close> functions run.  Without a place and without a time-out the first \<open>Execute\<close>
  blocks for ever.
\<close>

theorem pool_runs_everything:
  assumes "fp_Start maxChan sz tasks = Inr s0" and "(fp_step timed (nat sz) ^^ k) s0 s"
  shows "int (length (fp_running s)) \<le> sz \<and> k \<le> 5 * length tasks + 2 \<and>
    (0 < sz \<or> timed \<longrightarrow> (\<nexists>s'. fp_step timed (nat sz) s s') \<longrightarrow>
       fp_main s = MReturned \<and> fp_running s = [] \<and> mset (fp_finished s) + mset (fp_refused s) = mset tasks) \<and>
    (\<not> timed \<longrightarrow> fp_refused s = []) \<and>
    (sz = 0 \<and> \<not> timed \<and> tasks \<noteq> [] \<longrightarrow> k = 0)"
proof -
  have inv: "fp_inv (nat sz) tasks s" using fp_inv_start [OF assms(1)] assms(2) by (rule fp_inv_steps [rotated])
  have s0: "fp_work s0 = 5 * length tasks + 2" "fp_refused s0 = []" "fp_todo s0 = tasks" "fp_main s0 = MLoop" "fp_running s0 = []"
      "fp_recv s0 = 0" "fp_done s0 = 0" and sz: "0 \<le> sz"
    using assms(1) by (auto simp: fp_Start_def fp_work_def split: if_splits)
  have refused: "(fp_step False n ^^ k) s1 s2 \<Longrightarrow> fp_refused s1 = [] \<Longrightarrow> fp_refused s2 = []"
    for n and s1 s2 :: "'a FixedGoroutinePool"
    by (induction k arbitrary: s2) (auto elim!: fp_step.cases)
  have block: "k = 0" if "sz = 0" "\<not> timed" "tasks \<noteq> []"
  proof (rule ccontr)
    assume "k \<noteq> 0"
    then obtain j where "k = Suc j" using not0_implies_Suc by blast
    then obtain s1 where "fp_step timed (nat sz) s0 s1" using assms(2) relpowp_Suc_D2 by metis
    then show False using that s0 by cases auto
  qed
  have "fp_main s = MReturned" if "0 < sz \<or> timed" "\<nexists>s'. fp_step timed (nat sz) s s'"
    using fp_progress [OF inv, of timed] that by auto
  then show ?thesis
    using inv sz block fp_work_steps [OF assms(2)] s0(1,2) assms(2) refused
    by (auto simp: fp_inv_def)
qed

theorem pool_runs_everything_witness:
  "\<exists>s0 s. fp_Start (2 ^ 48) 1 [10 :: nat] = Inr s0 \<and> (fp_step False (nat 1) ^^ 7) s0 s \<and> fp_main s = MReturned \<and> fp_finished s = [10]"
proof -
  define st :: "nat submitter \<Rightarrow> nat list \<Rightarrow> nat \<Rightarrow> bool \<Rightarrow> nat \<Rightarrow> nat list \<Rightarrow> nat \<Rightarrow> nat \<Rightarrow> nat list \<Rightarrow> nat FixedGoroutinePool"
    where "st m t b c w r v d f = \<lparr>fp_main = m, fp_todo = t, fp_buf = b, fp_closed = c, fp_wg = w, fp_running = r,
       fp_recv = v, fp_done = d, fp_finished = f, fp_refused = []\<rparr>" for m t b c w r v d f
  note st = st_def
  let ?R = "fp_step False (nat 1)"
  have seven: "(R ^^ 7) a h" if "R a b" "R b c" "R c d" "R d e" "R e f" "R f g" "R g h"
    for R and a b c d e f g h :: "nat FixedGoroutinePool"
    using that by (simp add: eval_nat_numeral) (intro relcomppI, rule refl)
  have r1: "?R (st MLoop [10] 0 False 0 [] 0 0 []) (st (MAdd 10) [] 1 False 0 [] 0 0 [])"
    using fp_send [of "st MLoop [10] 0 False 0 [] 0 0 []" 10 "[]" 1 False] by (simp add: st)
  have r2: "?R (st (MAdd 10) [] 1 False 0 [] 0 0 []) (st MLoop [] 1 False 1 [10] 0 0 [])"
    using fp_go [of "st (MAdd 10) [] 1 False 0 [] 0 0 []" 10 False 1] by (simp add: st)
  have r3: "?R (st MLoop [] 1 False 1 [10] 0 0 []) (st MWait [] 1 True 1 [10] 0 0 [])"
    using fp_close [of "st MLoop [] 1 False 1 [10] 0 0 []" False 1] by (simp add: st)
  have r4: "?R (st MWait [] 1 True 1 [10] 0 0 []) (st MWait [] 1 True 1 [] 1 0 [10])"
    using fp_finish [of "st MWait [] 1 True 1 [10] 0 0 []" "[]" 10 "[]" False 1] by (simp add: st)
  have r5: "?R (st MWait [] 1 True 1 [] 1 0 [10]) (st MWait [] 0 True 1 [] 0 1 [10])"
    using fp_receive [of "st MWait [] 1 True 1 [] 1 0 [10]" False 1] by (simp add: st)
  have r6: "?R (st MWait [] 0 True 1 [] 0 1 [10]) (st MWait [] 0 True 0 [] 0 0 [10])"
    using fp_wgDone [of "st MWait [] 0 True 1 [] 0 1 [10]" False 1] by (simp add: st)
  have r7: "?R (st MWait [] 0 True 0 [] 0 0 [10]) (st MReturned [] 0 True 0 [] 0 0 [10])"
    using fp_wait [of "st MWait [] 0 True 0 [] 0 0 [10]" False 1] by (simp add: st)
  have run: "(?R ^^ 7) (st MLoop [10] 0 False 0 [] 0 0 []) (st MReturned [] 0 True 0 [] 0 0 [10])"
    by (rule seven [OF r1 r2 r3 r4 r5 r6 r7])
  have start: "fp_Start (2 ^ 48) 1 [10] = Inr (st MLoop [10] 0 False 0 [] 0 0 [])" by (simp add: fp_Start_def st)
  have "\<nexists>s'. ?R (st MReturned [] 0 True 0 [] 0 0 [10]) s'" by (auto simp: st elim!: fp_step.cases)
  then show ?thesis using pool_runs_everything [OF start run] start run by auto
qed

end
