(* ===== verification/Inject.thy ===== *)
theory Inject
  imports OrderedMap
begin

text \<open>
  Dependency injection (\<open>runtime/inject\<close>): the graph of named objects, kept in the insertion-ordered map
  of \<open>utls/orderedmap\<close>, with registration, which creates missing dependencies, fills the tagged fields
  and starts the object, and \<open>Close\<close>, which closes the objects in reverse order.

  What reflection and the tags of a type say is data: the fields of a structure with the result of
  \<open>structtag.Extract\<close> on their tags.  Which types implement which interfaces, which have \<open>Start\<close> and
  \<open>Close\<close> and what \<open>Start\<close> returns is the environment of the program.  Recursion of \<open>register\<close> is bounded by
  the depth of the stack.  Texts of errors are abbreviated.
\<close>

section \<open>Types, values and fields\<close>

text \<open>Pointers to structures, interfaces, integer and float kinds, other types, each with its name.\<close>

datatype rtype = RPtr string | RIface string | RIntT string | RFloatT string | ROther string

primrec getTypeName :: "rtype \<Rightarrow> string" where
  "getTypeName (RPtr n) = CHR ''*'' # n"
| "getTypeName (RIface n) = n"
| "getTypeName (RIntT n) = n"
| "getTypeName (RFloatT n) = n"
| "getTypeName (ROther n) = n"

primrec isStructPtr :: "rtype \<Rightarrow> bool" where
  "isStructPtr (RPtr n) = True"
| "isStructPtr (RIface n) = False"
| "isStructPtr (RIntT n) = False"
| "isStructPtr (RFloatT n) = False"
| "isStructPtr (ROther n) = False"

text \<open>
  Values of type \<open>interface{}\<close>: nil, a pointer to a structure (\<open>None\<close> is the nil pointer), numbers, a
  structure, a nil pointer to something else, and any other value.
\<close>

datatype ivalue =
    VNilI | VPtr string "nat option" | VIntV string int | VFloatV string string | VStruct string | VNilPtr string
  | VVal string string

text \<open>\<open>reflect.TypeOf\<close>; \<open>None\<close> for a nil interface.\<close>

primrec type_of :: "ivalue \<Rightarrow> rtype option" where
  "type_of VNilI = None"
| "type_of (VPtr n p) = Some (RPtr n)"
| "type_of (VIntV k i) = Some (RIntT k)"
| "type_of (VFloatV k t) = Some (RFloatT k)"
| "type_of (VStruct n) = Some (ROther n)"
| "type_of (VNilPtr n) = Some (ROther (CHR ''*'' # n))"
| "type_of (VVal n t) = Some (ROther n)"

primrec isZeroOfUnderlyingType :: "ivalue \<Rightarrow> bool" where
  "isZeroOfUnderlyingType VNilI = True"
| "isZeroOfUnderlyingType (VPtr n p) = (p = None)"
| "isZeroOfUnderlyingType (VIntV k i) = (i = 0)"
| "isZeroOfUnderlyingType (VFloatV k t) = (t = ''0'')"
| "isZeroOfUnderlyingType (VStruct n) = False"
| "isZeroOfUnderlyingType (VNilPtr n) = True"
| "isZeroOfUnderlyingType (VVal n t) = (t = [])"

record ifield =
  fd_Name :: string
  fd_inject :: "string + string option"
  fd_singleton :: bool
  fd_canNil :: bool
  fd_type :: rtype
  fd_canInterface :: bool
  fd_canSet :: bool
  fd_zero :: ivalue

record ienv =
  ev_fields :: "string \<Rightarrow> ifield list"
  ev_implements :: "rtype \<Rightarrow> string \<Rightarrow> bool"
  ev_impls :: "string \<Rightarrow> rtype list"
  ev_startable :: "ivalue \<Rightarrow> bool"
  ev_Start :: "ivalue \<Rightarrow> string option"
  ev_closeable :: "ivalue \<Rightarrow> bool"
  ev_float :: "string \<Rightarrow> string \<Rightarrow> string"

definition AssignableTo :: "ienv \<Rightarrow> rtype \<Rightarrow> rtype \<Rightarrow> bool" where
  "AssignableTo E t u = (t = u \<or> (case u of RIface i \<Rightarrow> ev_implements E t i | _ \<Rightarrow> False))"

section \<open>Implementations by name\<close>

text \<open>\<open>implmap.go\<close>: only pointers to structures are accepted, in the order of their addition.\<close>

definition impl_Add :: "string \<Rightarrow> rtype option \<Rightarrow> (string \<Rightarrow> rtype list) \<Rightarrow> (string \<Rightarrow> rtype list)" where
  "impl_Add n t m =
     (case t of
        None \<Rightarrow> m
      | Some t \<Rightarrow> if n = [] \<or> \<not> isStructPtr t then m else m(n := m n @ [t]))"

definition impl_Get :: "string \<Rightarrow> (string \<Rightarrow> rtype list) \<Rightarrow> rtype list" where
  "impl_Get n m = (if n = [] then [] else m n)"

section \<open>The graph\<close>

record Object =
  ob_Name :: string
  ob_type :: rtype
  ob_Value :: ivalue
  ob_closed :: bool

datatype ievent = EvStart ivalue | EvSet string ivalue | EvFill nat nat ivalue | EvClose ivalue

text \<open>
  \<open>named\<close> maps names to objects, which are shared between names; \<open>gr_heap\<close> holds the fields of
  structures.  The log of events is not part of the code.
\<close>

record Graph =
  gr_named :: "(string, nat) OrderedMap"
  gr_objs :: "nat \<Rightarrow> Object"
  gr_nobj :: nat
  gr_heap :: "nat \<Rightarrow> ivalue list"
  gr_nheap :: nat
  gr_events :: "ievent list"

definition NewGraph :: Graph where
  "NewGraph = \<lparr>gr_named = NewOrderedMap, gr_objs = (\<lambda>_. \<lparr>ob_Name = [], ob_type = ROther [], ob_Value = VNilI, ob_closed = False\<rparr>),
     gr_nobj = 0, gr_heap = (\<lambda>_. []), gr_nheap = 0, gr_events = []\<rparr>"

definition graph_find :: "string \<Rightarrow> Graph \<Rightarrow> nat option" where
  "graph_find name g = om_Get (gr_named g) name"

definition findByType :: "rtype \<Rightarrow> Graph \<Rightarrow> nat option" where
  "findByType t g = graph_find (getTypeName t) g"

definition graph_Len :: "Graph \<Rightarrow> nat" where
  "graph_Len g = om_Len (gr_named g)"

definition graph_set :: "string \<Rightarrow> nat \<Rightarrow> Graph \<Rightarrow> Graph" where
  "graph_set name oi g = g\<lparr>gr_named := om_Set name oi (gr_named g)\<rparr>"

definition setBoth :: "string \<Rightarrow> nat \<Rightarrow> rtype \<Rightarrow> Graph \<Rightarrow> Graph" where
  "setBoth name oi t g =
     (let g = graph_set name oi g
      in if isStructPtr t then graph_set (getTypeName t) oi g else g)"

definition new_object :: "Object \<Rightarrow> Graph \<Rightarrow> nat \<times> Graph" where
  "new_object ob g = (gr_nobj g, g\<lparr>gr_objs := (gr_objs g)(gr_nobj g := ob), gr_nobj := gr_nobj g + 1\<rparr>)"

definition reflect_New :: "ienv \<Rightarrow> string \<Rightarrow> Graph \<Rightarrow> nat \<times> Graph" where
  "reflect_New E n g = (gr_nheap g, g\<lparr>gr_heap := (gr_heap g)(gr_nheap g := map fd_zero (ev_fields E n)), gr_nheap := gr_nheap g + 1\<rparr>)"

definition set_field :: "nat \<Rightarrow> nat \<Rightarrow> ivalue \<Rightarrow> Graph \<Rightarrow> Graph" where
  "set_field a i v g = g\<lparr>gr_heap := (gr_heap g)(a := (gr_heap g a)[i := v]), gr_events := gr_events g @ [EvFill a i v]\<rparr>"

section \<open>Registration\<close>

text \<open>The look-up of a field's dependency, before and after a missing one was registered.\<close>

definition find_first :: "ifield \<Rightarrow> string \<Rightarrow> Graph \<Rightarrow> nat option" where
  "find_first f tag g =
     (if tag \<noteq> []
      then (case graph_find tag g of
              Some oi \<Rightarrow> Some oi
            | None \<Rightarrow> if fd_singleton f \<and> isStructPtr (fd_type f) then findByType (fd_type f) g else None)
      else findByType (fd_type f) g)"

definition find_again :: "bool \<Rightarrow> ifield \<Rightarrow> string \<Rightarrow> Graph \<Rightarrow> nat option" where
  "find_again singleton f tag g =
     (if tag \<noteq> []
      then (case graph_find tag g of Some oi \<Rightarrow> Some oi | None \<Rightarrow> if singleton then findByType (fd_type f) g else None)
      else findByType (fd_type f) g)"

definition int_width :: "string \<Rightarrow> nat" where
  "int_width k = (if k = ''int8'' then 8 else if k = ''int16'' then 16 else if k = ''int32'' then 32 else 64)"

text \<open>The value a field gets: the object's value, or a number converted to the field's kind (\<open>SetInt\<close> wraps).\<close>

definition field_value :: "ienv \<Rightarrow> ifield \<Rightarrow> Object \<Rightarrow> string + ivalue" where
  "field_value E f ob =
     (if AssignableTo E (ob_type ob) (fd_type f) then Inr (ob_Value ob)
      else (case (ob_Value ob, fd_type f) of
              (VIntV k i, RIntT k') \<Rightarrow> Inr (VIntV k' (signed_take_bit (int_width k' - 1) i))
            | (VFloatV k t, RFloatT k') \<Rightarrow> Inr (VFloatV k' (ev_float E k' t))
            | _ \<Rightarrow> Inl ''dependency not valid''))"

definition find_impl :: "ienv \<Rightarrow> ifield \<Rightarrow> string \<Rightarrow> rtype option" where
  "find_impl E f tag = find (\<lambda>impl. AssignableTo E impl (fd_type f)) (impl_Get tag (ev_impls E))"

text \<open>The type of the structure that is created for a missing dependency, if there is one.\<close>

definition missing_type :: "ienv \<Rightarrow> ifield \<Rightarrow> string \<Rightarrow> string option" where
  "missing_type E f tag =
     (case fd_type f of
        RPtr m \<Rightarrow> Some m
      | _ \<Rightarrow> (case find_impl E f tag of Some (RPtr m) \<Rightarrow> Some m | _ \<Rightarrow> None))"

text \<open>
  \<open>register\<close> and its loop over the fields, from field \<open>i\<close> on.  A field is left alone (no tag, already set),
  refused, or looked up; a dependency that is missing is skipped, refused, or registered first.  The
  first argument is the depth of stack left.
\<close>

datatype field_check = Skip | Refuse string | Resolve string

definition check_field :: "ifield \<Rightarrow> ivalue \<Rightarrow> field_check" where
  "check_field f cur =
     (case fd_inject f of
        Inl e \<Rightarrow> Refuse ''extract tag fail''
      | Inr None \<Rightarrow> Skip
      | Inr (Some tag) \<Rightarrow>
          if fd_canInterface f \<and> (case cur of VStruct n \<Rightarrow> True | _ \<Rightarrow> False) then Refuse ''inject a struct field is not supported''
          else if fd_canInterface f \<and> \<not> isZeroOfUnderlyingType cur then Skip
          else if \<not> fd_canSet f then Refuse ''inject tag must on a public field''
          else Resolve tag)"

definition finish_register :: "ienv \<Rightarrow> string \<Rightarrow> rtype \<Rightarrow> bool \<Rightarrow> ivalue \<Rightarrow> Graph \<Rightarrow> (string + ivalue) \<times> Graph" where
  "finish_register E name t singleton v g =
     (let started = (ev_startable E v);
          err = (if started then ev_Start E v else None);
          g = (if started then g\<lparr>gr_events := gr_events g @ [EvStart v]\<rparr> else g)
      in case err of
           Some e \<Rightarrow> (Inl ''start object fail'', g)
         | None \<Rightarrow>
             (case new_object \<lparr>ob_Name = name, ob_type = t, ob_Value = v, ob_closed = False\<rparr> g of
                (oi, g) \<Rightarrow>
                  (let g = (if isStructPtr t \<and> singleton then setBoth name oi t g else graph_set name oi g)
                   in (Inr v, g\<lparr>gr_events := gr_events g @ [EvSet name v]\<rparr>))))"

fun register :: "ienv \<Rightarrow> nat \<Rightarrow> string \<Rightarrow> ivalue \<Rightarrow> bool \<Rightarrow> bool \<Rightarrow> Graph \<Rightarrow> ((string + ivalue) \<times> Graph) go"
and fill :: "ienv \<Rightarrow> nat \<Rightarrow> bool \<Rightarrow> bool \<Rightarrow> nat \<Rightarrow> nat \<Rightarrow> ifield list \<Rightarrow> Graph \<Rightarrow> (string option \<times> Graph) go" where
  "register E 0 name v singleton noFill g = Inl StackOverflow"
| "register E (Suc d) name v singleton noFill g =
     (case type_of v of
        None \<Rightarrow> Inl NilDeref
      | Some t \<Rightarrow>
          (let name = (if isStructPtr t \<and> name = [] then getTypeName t else name)
           in if name = [] then Inr (Inl ''name can not be empty'', g)
              else if graph_find name g \<noteq> None then Inr (Inl ''already registered'', g)
              else (case v of
                      VPtr n p \<Rightarrow>
                        (let created = (p = None);
                             (a, g) = (case p of None \<Rightarrow> reflect_New E n g | Some a \<Rightarrow> (a, g))
                         in if \<not> created \<and> noFill then Inr (finish_register E name t singleton (VPtr n (Some a)) g)
                            else go_bind (fill E d singleton noFill a 0 (ev_fields E n) g) (\<lambda>(err, g).
                              Inr (case err of
                                     Some e \<Rightarrow> (Inl e, g)
                                   | None \<Rightarrow> finish_register E name t singleton (VPtr n (Some a)) g)))
                    | VNilPtr n \<Rightarrow> Inr (Inl ''register nil'', g)
                    | _ \<Rightarrow> Inr (finish_register E name t singleton v g))))"
| "fill E d singleton noFill a i [] g = Inr (None, g)"
| "fill E d singleton noFill a i (f # fs) g =
     (case check_field f (gr_heap g a ! i) of
        Skip \<Rightarrow> fill E d singleton noFill a (Suc i) fs g
      | Refuse e \<Rightarrow> Inr (Some e, g)
      | Resolve tag \<Rightarrow>
          (let inject = (\<lambda>oi g.
                 case field_value E f (gr_objs g oi) of
                   Inl e \<Rightarrow> Inr (Some e, g)
                 | Inr w \<Rightarrow> fill E d singleton noFill a (Suc i) fs (set_field a i w g))
           in case find_first f tag g of
                Some oi \<Rightarrow> inject oi g
              | None \<Rightarrow>
                  if fd_canNil f then fill E d singleton noFill a (Suc i) fs g
                  else (case missing_type E f tag of
                          None \<Rightarrow> Inr (Some ''dependency not found'', g)
                        | Some m \<Rightarrow>
                            go_bind (register E d tag (VPtr m None) (fd_singleton f) noFill g) (\<lambda>(r, g).
                              case r of
                                Inl e \<Rightarrow> Inr (Some e, g)
                              | Inr v \<Rightarrow>
                                  (case find_again singleton f tag g of
                                     None \<Rightarrow> Inr (Some ''dependency not found'', g)
                                   | Some oi \<Rightarrow> inject oi g)))))"

definition Register :: "ienv \<Rightarrow> nat \<Rightarrow> string \<Rightarrow> ivalue \<Rightarrow> Graph \<Rightarrow> ((string + ivalue) \<times> Graph) go" where
  "Register E d name v g = register E d name v False False g"

definition RegisterSingle :: "ienv \<Rightarrow> nat \<Rightarrow> string \<Rightarrow> ivalue \<Rightarrow> Graph \<Rightarrow> ((string + ivalue) \<times> Graph) go" where
  "RegisterSingle E d name v g = register E d name v True False g"

definition RegisterNoFill :: "ienv \<Rightarrow> nat \<Rightarrow> string \<Rightarrow> ivalue \<Rightarrow> Graph \<Rightarrow> ((string + ivalue) \<times> Graph) go" where
  "RegisterNoFill E d name v g = register E d name v False True g"

definition RegisterSingleNoFill :: "ienv \<Rightarrow> nat \<Rightarrow> string \<Rightarrow> ivalue \<Rightarrow> Graph \<Rightarrow> ((string + ivalue) \<times> Graph) go" where
  "RegisterSingleNoFill E d name v g = register E d name v True True g"

text \<open>The \<open>OrFail\<close> variants turn an error into a panic.\<close>

definition or_fail :: "((string + ivalue) \<times> Graph) go \<Rightarrow> (ivalue \<times> Graph) go" where
  "or_fail m = go_bind m (\<lambda>(r, g). case r of Inl e \<Rightarrow> Inl (PanicValue (''reg fail,err='' @ e)) | Inr v \<Rightarrow> Inr (v, g))"

definition RegisterOrFail where "RegisterOrFail E d name v g = or_fail (Register E d name v g)"

definition RegisterOrFailSingle where "RegisterOrFailSingle E d name v g = or_fail (RegisterSingle E d name v g)"

definition RegisterOrFailNoFill where "RegisterOrFailNoFill E d name v g = or_fail (RegisterNoFill E d name v g)"

definition RegisterOrFailSingleNoFill where
  "RegisterOrFailSingleNoFill E d name v g = or_fail (RegisterSingleNoFill E d name v g)"

text \<open>The package-level \<open>Find\<close> hides objects without a value.\<close>

definition inject_Find :: "string \<Rightarrow> Graph \<Rightarrow> ivalue option" where
  "inject_Find name g =
     (case graph_find name g of
        None \<Rightarrow> None
      | Some oi \<Rightarrow> if ob_Value (gr_objs g oi) = VNilI then None else Some (ob_Value (gr_objs g oi)))"

section \<open>Closing\<close>

text \<open>
  The loop of \<open>Close\<close> over the pairs of the reverse iteration, which collects keys to delete; a pair
  without an object only adds its key.
\<close>

fun close_loop :: "ienv \<Rightarrow> (string option, nat option) KVPair list \<Rightarrow> string list \<Rightarrow> Graph \<Rightarrow> string list \<times> Graph" where
  "close_loop E [] ks g = (ks, g)"
| "close_loop E (kv # kvs) ks g =
     (case kv_Key kv of
        None \<Rightarrow> close_loop E kvs ks g
      | Some k \<Rightarrow>
          (let ks = ks @ [k]
           in case kv_Value kv of
                None \<Rightarrow> close_loop E kvs ks g
              | Some oi \<Rightarrow>
                  (let ob = gr_objs g oi
                   in if ob_closed ob then close_loop E kvs ks g
                      else (let ks = (if isStructPtr (ob_type ob) then ks @ [getTypeName (ob_type ob)] else ks)
                            in if ob_Value ob = VNilI then close_loop E kvs ks g
                               else if ev_closeable E (ob_Value ob)
                               then close_loop E kvs ks (g\<lparr>gr_objs := (gr_objs g)(oi := ob\<lparr>ob_closed := True\<rparr>),
                                                           gr_events := gr_events g @ [EvClose (ob_Value ob)]\<rparr>)
                               else close_loop E kvs ks g))))"

definition graph_Close :: "ienv \<Rightarrow> Graph \<Rightarrow> Graph option" where
  "graph_Close E g =
     map_option (\<lambda>kvs. case close_loop E kvs [] g of
                         (ks, g') \<Rightarrow> g'\<lparr>gr_named := fold om_Delete ks (gr_named g')\<rparr>)
       (om_RevIter (gr_named g))"

text \<open>What \<open>SPrint\<close> shows: the pairs of the forward iteration.\<close>

definition sPrint :: "Graph \<Rightarrow> (string option \<times> nat option) list option" where
  "sPrint g = map_option (map (\<lambda>kv. (kv_Key kv, kv_Value kv))) (om_Iter (gr_named g))"

section \<open>What registration keeps\<close>

lemma om_Get_Set: "om_Get (om_Set k v m) k' = (if k' = k then Some v else om_Get m k')"
  by (simp add: om_Get_def om_Set_def Let_def)

lemma find_graph_set [simp]: "graph_find k (graph_set name oi g) = (if k = name then Some oi else graph_find k g)"
  by (simp add: graph_find_def graph_set_def om_Get_Set)

lemma graph_set_sel [simp]:
  "gr_objs (graph_set name oi g) = gr_objs g" "gr_nobj (graph_set name oi g) = gr_nobj g"
  "gr_heap (graph_set name oi g) = gr_heap g" "gr_nheap (graph_set name oi g) = gr_nheap g"
  "gr_events (graph_set name oi g) = gr_events g"
  by (simp_all add: graph_set_def)

lemma setBoth_sel [simp]:
  "gr_objs (setBoth name oi t g) = gr_objs g" "gr_nobj (setBoth name oi t g) = gr_nobj g"
  "gr_heap (setBoth name oi t g) = gr_heap g" "gr_nheap (setBoth name oi t g) = gr_nheap g"
  "gr_events (setBoth name oi t g) = gr_events g"
  by (simp_all add: setBoth_def Let_def)

lemma find_upd [simp]:
  "graph_find k (g\<lparr>gr_events := es\<rparr>) = graph_find k g" "graph_find k (g\<lparr>gr_objs := os\<rparr>) = graph_find k g"
  "graph_find k (g\<lparr>gr_nobj := n\<rparr>) = graph_find k g" "graph_find k (g\<lparr>gr_heap := h\<rparr>) = graph_find k g"
  "graph_find k (g\<lparr>gr_nheap := n\<rparr>) = graph_find k g"
  by (simp_all add: graph_find_def)

text \<open>Names that are no pointer type's name are never bound again.\<close>

definition stable_name :: "string \<Rightarrow> bool" where
  "stable_name k = (k \<noteq> [] \<and> hd k \<noteq> CHR ''*'')"

definition extends :: "Graph \<Rightarrow> Graph \<Rightarrow> bool" where
  "extends g g' = (gr_nobj g \<le> gr_nobj g' \<and> gr_nheap g \<le> gr_nheap g' \<and> (\<forall>i < gr_nobj g. gr_objs g' i = gr_objs g i) \<and>
     (\<forall>k oi. stable_name k \<longrightarrow> graph_find k g = Some oi \<longrightarrow> graph_find k g' = Some oi))"

text \<open>The entries of the map are open objects of the graph, each with the type of its value.\<close>

definition entries_ok :: "Graph \<Rightarrow> (string \<times> nat) list \<Rightarrow> bool" where
  "entries_ok g xs = (om_rep (gr_named g) xs \<and>
     (\<forall>kv \<in> set xs. snd kv < gr_nobj g \<and> \<not> ob_closed (gr_objs g (snd kv)) \<and>
        type_of (ob_Value (gr_objs g (snd kv))) = Some (ob_type (gr_objs g (snd kv)))))"

definition graph_ok :: "Graph \<Rightarrow> bool" where
  "graph_ok g = (\<exists>xs. entries_ok g xs)"

lemma find_entries: "entries_ok g xs \<Longrightarrow> graph_find k g = map_of xs k"
  by (simp add: entries_ok_def graph_find_def om.rep_get)

lemma graph_ok_bound: "graph_ok g \<Longrightarrow> graph_find k g = Some oi \<Longrightarrow> oi < gr_nobj g"
proof -
  assume "graph_ok g" and f: "graph_find k g = Some oi"
  then obtain xs where xs: "entries_ok g xs" by (auto simp: graph_ok_def)
  then have "(k, oi) \<in> set xs" using f find_entries [OF xs, of k] by (simp add: map_of_SomeD)
  then show "oi < gr_nobj g" using xs by (fastforce simp: entries_ok_def)
qed

lemma graph_ok_New: "graph_ok NewGraph"
  by (auto simp: graph_ok_def entries_ok_def NewGraph_def om.rep_empty intro!: exI [of _ "[]"])

lemma graph_ok_upd [simp]:
  "graph_ok (g\<lparr>gr_events := es\<rparr>) = graph_ok g" "graph_ok (g\<lparr>gr_heap := h\<rparr>) = graph_ok g"
  "graph_ok (g\<lparr>gr_nheap := n\<rparr>) = graph_ok g"
  by (simp_all add: graph_ok_def entries_ok_def)

definition same_below :: "nat set \<Rightarrow> Graph \<Rightarrow> Graph \<Rightarrow> bool" where
  "same_below A g g' = (\<forall>b < gr_nheap g. b \<notin> A \<longrightarrow> gr_heap g' b = gr_heap g b)"

lemma extends_refl [simp]: "extends g g"
  by (simp add: extends_def)

lemma extends_trans: "extends g g' \<Longrightarrow> extends g' g'' \<Longrightarrow> extends g g''"
  by (auto simp: extends_def)

lemma same_below_refl [simp]: "same_below A g g"
  by (simp add: same_below_def)

lemma same_below_trans: "same_below A g g' \<Longrightarrow> same_below A g' g'' \<Longrightarrow> extends g g' \<Longrightarrow> same_below A g g''"
  by (auto simp: same_below_def extends_def)

lemma same_below_mono: "same_below {} g g' \<Longrightarrow> same_below A g g'"
  by (simp add: same_below_def)

lemma set_field_facts:
  "extends g (set_field a i w g)" "graph_ok g \<Longrightarrow> graph_ok (set_field a i w g)" "same_below {a} g (set_field a i w g)"
  "gr_heap (set_field a i w g) a = (gr_heap g a)[i := w]" "graph_find k (set_field a i w g) = graph_find k g"
  "gr_objs (set_field a i w g) = gr_objs g" "gr_nheap (set_field a i w g) = gr_nheap g"
  by (simp_all add: set_field_def extends_def same_below_def)

lemma reflect_New_facts:
  assumes "reflect_New E n g = (a, g')"
  shows "a = gr_nheap g" "extends g g'" "graph_ok g \<Longrightarrow> graph_ok g'" "same_below {} g g'" "a < gr_nheap g'"
    "gr_heap g' a = map fd_zero (ev_fields E n)" "graph_find k g' = graph_find k g"
  using assms by (auto simp: reflect_New_def extends_def same_below_def)

definition bind_new :: "string \<Rightarrow> rtype \<Rightarrow> bool \<Rightarrow> ivalue \<Rightarrow> Graph \<Rightarrow> Graph" where
  "bind_new name t single v g =
     (let oi = gr_nobj g;
          g = g\<lparr>gr_objs := (gr_objs g)(oi := \<lparr>ob_Name = name, ob_type = t, ob_Value = v, ob_closed = False\<rparr>), gr_nobj := oi + 1\<rparr>
      in if isStructPtr t \<and> single then setBoth name oi t g else graph_set name oi g)"

lemma finish_register_unfold:
  "finish_register E name t single v g =
     (let g1 = (if ev_startable E v then g\<lparr>gr_events := gr_events g @ [EvStart v]\<rparr> else g)
      in case (if ev_startable E v then ev_Start E v else None) of
           Some e \<Rightarrow> (Inl ''start object fail'', g1)
         | None \<Rightarrow> (Inr v, (bind_new name t single v g1)\<lparr>gr_events := gr_events g1 @ [EvSet name v]\<rparr>))"
  by (simp add: finish_register_def bind_new_def new_object_def Let_def split: option.split)

lemma bind_new_sel:
  "gr_nobj (bind_new name t single v g) = gr_nobj g + 1" "gr_heap (bind_new name t single v g) = gr_heap g"
  "gr_nheap (bind_new name t single v g) = gr_nheap g"
  "gr_objs (bind_new name t single v g) =
     (gr_objs g)(gr_nobj g := \<lparr>ob_Name = name, ob_type = t, ob_Value = v, ob_closed = False\<rparr>)"
  by (simp_all add: bind_new_def Let_def)

lemma find_bind_new:
  "graph_find k (bind_new name t single v g) =
     (if k = name \<or> isStructPtr t \<and> single \<and> k = getTypeName t then Some (gr_nobj g) else graph_find k g)"
  by (simp add: bind_new_def setBoth_def Let_def)

lemma stable_not_type: "stable_name k \<Longrightarrow> isStructPtr t \<Longrightarrow> k \<noteq> getTypeName t"
  by (cases t) (auto simp: stable_name_def)

lemma bind_new_extends:
  assumes "extends g0 g" and "graph_ok g" and "graph_find name g0 = None"
  shows "extends g0 (bind_new name t single v g)"
  using assms stable_not_type by (auto simp: extends_def bind_new_sel find_bind_new)

lemma bind_new_named:
  "gr_named (bind_new name t single v g) =
     (if isStructPtr t \<and> single then om_Set (getTypeName t) (gr_nobj g) (om_Set name (gr_nobj g) (gr_named g))
      else om_Set name (gr_nobj g) (gr_named g))"
  by (simp add: bind_new_def setBoth_def graph_set_def Let_def)

lemma set_al_set_sub: "set (al_set k v xs) \<subseteq> insert (k, v) (set xs)"
  by (induction k v xs rule: al_set.induct) auto

lemma bind_new_ok:
  assumes "graph_ok g" and "type_of v = Some t"
  shows "graph_ok (bind_new name t single v g)"
proof -
  obtain xs where xs: "entries_ok g xs" using assms(1) by (auto simp: graph_ok_def)
  let ?oi = "gr_nobj g"
  define ys where "ys = (if isStructPtr t \<and> single then al_set (getTypeName t) ?oi (al_set name ?oi xs) else al_set name ?oi xs)"
  have "om_rep (gr_named (bind_new name t single v g)) ys"
    using xs by (auto simp: bind_new_named ys_def entries_ok_def intro!: om.rep_set)
  moreover have "set ys \<subseteq> {(name, ?oi), (getTypeName t, ?oi)} \<union> set xs"
    using set_al_set_sub [of name ?oi xs] set_al_set_sub [of "getTypeName t" ?oi "al_set name ?oi xs"]
    by (auto simp: ys_def)
  ultimately have "entries_ok (bind_new name t single v g) ys"
    using xs assms(2) unfolding entries_ok_def by (fastforce simp: bind_new_sel)
  then show ?thesis by (auto simp: graph_ok_def)
qed

lemma finish_register_facts:
  assumes "finish_register E name t single v g = (r, g')" and "graph_ok g" and "type_of v = Some t"
  shows "extends g0 g \<Longrightarrow> graph_find name g0 = None \<Longrightarrow> extends g0 g'" "graph_ok g'" "gr_heap g' = gr_heap g" "gr_nheap g' = gr_nheap g"
    and "r = Inr w \<Longrightarrow> w = v \<and> (\<exists>oi. graph_find name g' = Some oi \<and> ob_Value (gr_objs g' oi) = v \<and> ob_type (gr_objs g' oi) = t)"
    and "stable_name k \<Longrightarrow> k \<noteq> name \<Longrightarrow> graph_find k g' = graph_find k g" "\<forall>i < gr_nobj g. gr_objs g' i = gr_objs g i"
    and "gr_nobj g \<le> gr_nobj g'"
proof -
  define g1 where "g1 = (if ev_startable E v then g\<lparr>gr_events := gr_events g @ [EvStart v]\<rparr> else g)"
  have g1: "gr_heap g1 = gr_heap g" "gr_nheap g1 = gr_nheap g" "gr_objs g1 = gr_objs g" "gr_nobj g1 = gr_nobj g"
      "graph_find k g1 = graph_find k g" for k
    by (auto simp: g1_def)
  have e: "extends g0 g \<Longrightarrow> extends g0 g1" "graph_ok g1" for g0 using assms(2) by (auto simp: g1_def extends_def)
  note b = bind_new_extends [OF e(1) e(2), of _ name t single v] bind_new_ok [OF e(2) assms(3), of name single]
  have cases: "(r = Inl ''start object fail'' \<and> g' = g1) \<or>
      (r = Inr v \<and> g' = (bind_new name t single v g1)\<lparr>gr_events := gr_events g1 @ [EvSet name v]\<rparr>)"
    using assms(1) by (auto simp: finish_register_unfold g1_def Let_def split: option.splits)
  have ev: "extends h (h'\<lparr>gr_events := es\<rparr>) = extends h h'" for h h' es by (simp add: extends_def)
  show "extends g0 g \<Longrightarrow> graph_find name g0 = None \<Longrightarrow> extends g0 g'" using cases e b by (auto simp: ev)
  show "graph_ok g'" "gr_heap g' = gr_heap g" "gr_nheap g' = gr_nheap g" "gr_nobj g \<le> gr_nobj g'"
    using cases e b by (auto simp: bind_new_sel g1)
  show "r = Inr w \<Longrightarrow> w = v \<and> (\<exists>oi. graph_find name g' = Some oi \<and> ob_Value (gr_objs g' oi) = v \<and> ob_type (gr_objs g' oi) = t)"
    using cases by (auto simp: find_bind_new bind_new_sel)
  show "\<forall>i < gr_nobj g. gr_objs g' i = gr_objs g i" using cases by (auto simp: bind_new_sel g1)
  show "stable_name k \<Longrightarrow> k \<noteq> name \<Longrightarrow> graph_find k g' = graph_find k g"
    using cases stable_not_type [of k t] by (auto simp: find_bind_new g1)
qed

section \<open>Filled fields\<close>

text \<open>
  A plain dependency: a field with a name that is no type name, which may not stay nil and is not resolved
  by its type.  It is resolved when it holds the value of the object with that name.
\<close>

definition plain_dep :: "ifield \<Rightarrow> string \<Rightarrow> bool" where
  "plain_dep f tag = (fd_inject f = Inr (Some tag) \<and> stable_name tag \<and> \<not> fd_canNil f \<and> \<not> fd_singleton f)"

definition resolved :: "ienv \<Rightarrow> Graph \<Rightarrow> ifield \<Rightarrow> string \<Rightarrow> ivalue \<Rightarrow> bool" where
  "resolved E g f tag w = (\<exists>oi. oi < gr_nobj g \<and> graph_find tag g = Some oi \<and> field_value E f (gr_objs g oi) = Inr w)"

lemma resolved_extends: "resolved E g f tag w \<Longrightarrow> stable_name tag \<Longrightarrow> extends g g' \<Longrightarrow> resolved E g' f tag w"
  unfolding resolved_def extends_def by (metis order_less_le_trans)

definition given :: "ivalue \<Rightarrow> nat set" where
  "given v = (case v of VPtr n (Some a) \<Rightarrow> {a} | _ \<Rightarrow> {})"

definition valid_ptr :: "ienv \<Rightarrow> Graph \<Rightarrow> ivalue \<Rightarrow> bool" where
  "valid_ptr E g v = (case v of VPtr n (Some a) \<Rightarrow> a < gr_nheap g \<and> length (gr_heap g a) = length (ev_fields E n) | _ \<Rightarrow> True)"

definition register_keeps :: "ienv \<Rightarrow> nat \<Rightarrow> bool" where
  "register_keeps E d = (\<forall>name v single noFill g r g'. graph_ok g \<longrightarrow> valid_ptr E g v \<longrightarrow>
     register E d name v single noFill g = Inr (r, g') \<longrightarrow>
     extends g g' \<and> graph_ok g' \<and> same_below (given v) g g' \<and>
     (\<forall>w. r = Inr w \<longrightarrow> name \<noteq> [] \<longrightarrow> (\<exists>oi. graph_find name g' = Some oi \<and> ob_Value (gr_objs g' oi) = w)))"

definition fill_result :: "ienv \<Rightarrow> nat \<Rightarrow> nat \<Rightarrow> ifield list \<Rightarrow> Graph \<Rightarrow> string option \<Rightarrow> Graph \<Rightarrow> bool" where
  "fill_result E a i fs g err g' =
     (extends g g' \<and> graph_ok g' \<and> same_below {a} g g' \<and> length (gr_heap g' a) = length (gr_heap g a) \<and>
      (\<forall>j < i. gr_heap g' a ! j = gr_heap g a ! j) \<and>
      (err = None \<longrightarrow> (\<forall>j < length fs. \<forall>tag. plain_dep (fs ! j) tag \<longrightarrow> isZeroOfUnderlyingType (gr_heap g a ! (i + j)) \<longrightarrow>
         resolved E g' (fs ! j) tag (gr_heap g' a ! (i + j)))))"

lemma fill_result_stop: "graph_ok g \<Longrightarrow> fill_result E a i fs g (Some e) g"
  by (simp add: fill_result_def)

text \<open>Before the rest of the fields is filled, the field itself is skipped or set.\<close>

lemma fill_result_skip:
  assumes "fill_result E a (Suc i) fs g err g'"
    and "\<And>tag. plain_dep f tag \<Longrightarrow> \<not> isZeroOfUnderlyingType (gr_heap g a ! i)"
  shows "fill_result E a i (f # fs) g err g'"
  unfolding fill_result_def
proof (intro conjI allI impI)
  fix j tag
  assume "err = None" "j < length (f # fs)" "plain_dep ((f # fs) ! j) tag" "isZeroOfUnderlyingType (gr_heap g a ! (i + j))"
  then show "resolved E g' ((f # fs) ! j) tag (gr_heap g' a ! (i + j))"
    using assms by (cases j) (auto simp: fill_result_def)
qed (use assms(1) in \<open>auto simp: fill_result_def\<close>)

lemma fill_result_before:
  assumes "fill_result E a i fs g1 err g'" and "extends g g1" and "same_below {} g g1" and "a < gr_nheap g"
  shows "fill_result E a i fs g err g'"
proof -
  have h: "gr_heap g1 a = gr_heap g a" using assms(3,4) by (simp add: same_below_def)
  have "same_below {a} g g'"
    using same_below_trans [OF same_below_mono [OF assms(3)]] assms(1,2) by (simp add: fill_result_def)
  then show ?thesis using assms(1,2) extends_trans unfolding fill_result_def h by blast
qed

lemma fill_result_set:
  assumes r: "fill_result E a (Suc i) fs (set_field a i w g) err g'" and g: "graph_ok g" "a < gr_nheap g" "i < length (gr_heap g a)"
    and w: "\<And>tag. plain_dep f tag \<Longrightarrow> resolved E g f tag w"
  shows "fill_result E a i (f # fs) g err g'"
proof -
  let ?g = "set_field a i w g"
  note f = set_field_facts
  have r': "extends ?g g'" "same_below {a} ?g g'" using r by (simp_all add: fill_result_def)
  have ext: "extends g g'" using f(1) r'(1) by (rule extends_trans)
  have sb: "same_below {a} g g'" using f(3) r'(2) f(1) by (rule same_below_trans)
  have i: "gr_heap g' a ! i = w" using r g(3) by (simp add: fill_result_def f)
  have res: "resolved E g' f tag w" if "plain_dep f tag" for tag
    using resolved_extends [OF w [OF that] _ ext] that by (simp add: plain_dep_def)
  show ?thesis
    unfolding fill_result_def
  proof (intro conjI allI impI)
    fix j tag
    assume "err = None" "j < length (f # fs)" "plain_dep ((f # fs) ! j) tag" "isZeroOfUnderlyingType (gr_heap g a ! (i + j))"
    then show "resolved E g' ((f # fs) ! j) tag (gr_heap g' a ! (i + j))"
      using r res i by (cases j) (auto simp: fill_result_def f)
  qed (use r ext sb in \<open>auto simp: fill_result_def f\<close>)
qed

lemma find_first_plain: "plain_dep f tag \<Longrightarrow> find_first f tag g = graph_find tag g"
  by (auto simp: plain_dep_def find_first_def stable_name_def split: option.splits)

lemma fill_keeps:
  assumes "register_keeps E d"
  shows "graph_ok g \<Longrightarrow> a < gr_nheap g \<Longrightarrow> i + length fs = length (gr_heap g a) \<Longrightarrow>
    fill E d single noFill a i fs g = Inr (err, g') \<Longrightarrow> fill_result E a i fs g err g'"
proof (induction fs arbitrary: i g)
  case Nil
  then show ?case by (simp add: fill_result_def)
next
  case (Cons f fs)
  have len: "i < length (gr_heap g a)" "Suc i + length fs = length (gr_heap g a)" using Cons.prems(3) by auto
  note prem = Cons.prems(4) [simplified fill.simps Let_def]
  show ?case
  proof (cases "check_field f (gr_heap g a ! i)")
    case Skip
    then have "fill E d single noFill a (Suc i) fs g = Inr (err, g')" using prem by simp
    moreover have "\<not> isZeroOfUnderlyingType (gr_heap g a ! i)" if "plain_dep f tag" for tag
      using Skip that by (auto simp: check_field_def plain_dep_def split: if_splits)
    ultimately show ?thesis using Cons.IH [OF Cons.prems(1,2) len(2)] fill_result_skip by blast
  next
    case (Refuse e)
    with prem Cons.prems(1) show ?thesis by (auto intro: fill_result_stop)
  next
    case (Resolve tag)
    have tag: "fd_inject f = Inr (Some tag)"
      using Resolve by (auto simp: check_field_def split: sum.splits option.splits if_splits)
    have inject: "fill_result E a i (f # fs) h err g'"
      if "(case field_value E f (gr_objs h oi) of Inl e \<Rightarrow> Inr (Some e, h)
           | Inr w \<Rightarrow> fill E d single noFill a (Suc i) fs (set_field a i w h)) = Inr (err, g')"
        and h: "graph_ok h" "a < gr_nheap h" "i < length (gr_heap h a)" "Suc i + length fs = length (gr_heap h a)"
        and oi: "plain_dep f tag \<Longrightarrow> graph_find tag h = Some oi" for h oi
    proof (cases "field_value E f (gr_objs h oi)")
      case (Inl e)
      with that(1) h(1) show ?thesis by (auto intro: fill_result_stop)
    next
      case (Inr w)
      have "fill_result E a (Suc i) fs (set_field a i w h) err g'"
        by (rule Cons.IH) (use Inr that(1) h in \<open>simp_all add: set_field_facts\<close>)
      moreover have "resolved E h f tag' w" if "plain_dep f tag'" for tag'
        using that tag oi Inr h(1) by (auto simp: plain_dep_def resolved_def graph_ok_bound)
      ultimately show ?thesis using fill_result_set h by blast
    qed
    show ?thesis
    proof (cases "find_first f tag g")
      case (Some oi)
      with prem Resolve show ?thesis using inject [of g oi] Cons.prems(1,2) len find_first_plain [of f tag g] by auto
    next
      case None
      show ?thesis
      proof (cases "fd_canNil f")
        case True
        with prem Resolve None have "fill E d single noFill a (Suc i) fs g = Inr (err, g')" by simp
        then have "fill_result E a (Suc i) fs g err g'" by (rule Cons.IH [OF Cons.prems(1,2) len(2)])
        then show ?thesis by (rule fill_result_skip) (use True in \<open>simp add: plain_dep_def\<close>)
      next
        case False
        show ?thesis
        proof (cases "missing_type E f tag")
          case None
          with prem Resolve \<open>find_first f tag g = None\<close> False Cons.prems(1) show ?thesis by (auto intro: fill_result_stop)
        next
          case (Some m)
          with prem Resolve \<open>find_first f tag g = None\<close> False obtain r h where
              reg: "register E d tag (VPtr m None) (fd_singleton f) noFill g = Inr (r, h)"
              and rest: "(case r of Inl e \<Rightarrow> Inr (Some e, h) | Inr v \<Rightarrow>
                 (case find_again single f tag h of None \<Rightarrow> Inr (Some ''dependency not found'', h) | Some oi \<Rightarrow>
                    case field_value E f (gr_objs h oi) of Inl e \<Rightarrow> Inr (Some e, h)
                    | Inr w \<Rightarrow> fill E d single noFill a (Suc i) fs (set_field a i w h))) = Inr (err, g')"
            by auto
          have h: "extends g h" "graph_ok h" "same_below {} g h"
              "\<And>w. r = Inr w \<Longrightarrow> tag \<noteq> [] \<Longrightarrow> \<exists>oi. graph_find tag h = Some oi"
            using assms [unfolded register_keeps_def, rule_format, OF Cons.prems(1) _ reg] by (auto simp: valid_ptr_def given_def)
          have ah: "a < gr_nheap h" "gr_heap h a = gr_heap g a"
            using h(1,3) Cons.prems(2) by (auto simp: extends_def same_below_def)
          have "fill_result E a i (f # fs) h err g'"
          proof (cases r)
            case (Inl e)
            with rest h(2) show ?thesis by (auto intro: fill_result_stop)
          next
            case (Inr v)
            show ?thesis
            proof (cases "find_again single f tag h")
              case None
              with rest Inr h(2) show ?thesis by (auto intro: fill_result_stop)
            next
              case (Some oi)
              have "plain_dep f tag \<Longrightarrow> graph_find tag h = Some oi"
                using Some h(4) [OF Inr] by (auto simp: plain_dep_def find_again_def stable_name_def)
              then show ?thesis using inject [of h oi] rest Inr Some h(2) ah len by auto
            qed
          qed
          then show ?thesis using fill_result_before h(1,3) Cons.prems(2) by blast
        qed
      qed
    qed
  qed
qed

lemma register_cases:
  assumes "register E (Suc d) name v single noFill g = Inr (r, g')" and "type_of v = Some t"
    and nm: "nm = (if isStructPtr t \<and> name = [] then getTypeName t else name)"
  obtains (refused) e where "r = Inl e" "g' = g"
  | (plain) "graph_find nm g = None" "nm \<noteq> []" "\<forall>n p. v \<noteq> VPtr n p" "finish_register E nm t single v g = (r, g')"
  | (nofill) n a where "v = VPtr n (Some a)" "noFill" "graph_find nm g = None" "nm \<noteq> []" "finish_register E nm t single v g = (r, g')"
  | (filled) n a g1 err g2 where "isStructPtr t" "graph_find nm g = None" "nm \<noteq> []"
      "v = VPtr n (Some a) \<and> g1 = g \<or> v = VPtr n None \<and> reflect_New E n g = (a, g1)"
      "fill E d single noFill a 0 (ev_fields E n) g1 = Inr (err, g2)"
      "case err of Some e \<Rightarrow> r = Inl e \<and> g' = g2 | None \<Rightarrow> finish_register E nm t single (VPtr n (Some a)) g2 = (r, g')"
proof -
  note p = assms(1) [simplified register.simps assms(2) option.case Let_def, folded nm]
  show ?thesis
  proof (cases "nm = [] \<or> graph_find nm g \<noteq> None")
    case True
    with p show ?thesis by (auto intro: refused split: if_splits)
  next
    case False
    note q = p False
    show ?thesis
    proof (cases "\<exists>n p. v = VPtr n p")
      case True
      then obtain n ptr where v: "v = VPtr n ptr" by auto
      show ?thesis
      proof (cases ptr)
        case None
        obtain a g1 where new: "reflect_New E n g = (a, g1)" by fastforce
        with q v None show ?thesis
          using filled [of n a g1] assms(2) by (auto split: option.splits)
      next
        case (Some a)
        show ?thesis
        proof (cases noFill)
          case True
          with q v Some show ?thesis using nofill by auto
        next
          case False
          with q v Some show ?thesis
            using filled [of n a g] assms(2) by (auto split: option.splits)
        qed
      qed
    next
      case False
      with q show ?thesis using plain refused by (cases v) (auto split: if_splits)
    qed
  qed
qed

text \<open>What one registration does, given what the registrations it starts do.\<close>

definition register_result :: "ienv \<Rightarrow> string \<Rightarrow> ivalue \<Rightarrow> Graph \<Rightarrow> string + ivalue \<Rightarrow> Graph \<Rightarrow> bool" where
  "register_result E name v g r g' = (extends g g' \<and> graph_ok g' \<and> same_below (given v) g g' \<and>
     (\<forall>w. r = Inr w \<longrightarrow> name \<noteq> [] \<longrightarrow> (\<exists>oi. graph_find name g' = Some oi \<and> ob_Value (gr_objs g' oi) = w)))"

lemma finish_result:
  assumes fin: "finish_register E nm t single w g1 = (r, g')" and "graph_ok g1" "type_of w = Some t"
    and "extends g g1" "graph_find nm g = None" "same_below (given v) g g1" and "nm = (if isStructPtr t \<and> name = [] then getTypeName t else name)"
  shows "register_result E name v g r g'"
  using finish_register_facts [OF fin assms(2,3)] assms(4-) by (auto simp: register_result_def same_below_def)

text \<open>The state in which the fields of the registered structure are filled.\<close>

lemma filled_result:
  assumes "register_keeps E d" and g: "graph_ok g" "valid_ptr E g v"
    and v: "v = VPtr n (Some a) \<and> g1 = g \<or> v = VPtr n None \<and> reflect_New E n g = (a, g1)"
    and f: "fill E d single noFill a 0 (ev_fields E n) g1 = Inr (err, g2)"
  shows "fill_result E a 0 (ev_fields E n) g1 err g2" "extends g g2" "graph_ok g2" "same_below (given v) g g2" "extends g g1"
proof -
  have g1: "graph_ok g1" "extends g g1" "a < gr_nheap g1" "length (gr_heap g1 a) = length (ev_fields E n)" "same_below {} g g1"
    and a: "v = VPtr n None \<Longrightarrow> a = gr_nheap g"
    using v g reflect_New_facts [of E n g a g1] by (auto simp: valid_ptr_def)
  show fr: "fill_result E a 0 (ev_fields E n) g1 err g2"
    using fill_keeps [OF assms(1) g1(1,3) _ f] g1(4) by simp
  show "extends g g2" using extends_trans [OF g1(2)] fr by (simp add: fill_result_def)
  show "graph_ok g2" "extends g g1" using fr g1(2) by (simp_all add: fill_result_def)
  have "same_below {a} g g2"
    using same_below_trans [OF same_below_mono [OF g1(5)]] fr g1(2) by (simp add: fill_result_def)
  then show "same_below (given v) g g2" using v a by (auto simp: same_below_def given_def)
qed

lemma register_keeps: "register_keeps E d"
proof (induction d)
  case 0
  then show ?case by (simp add: register_keeps_def)
next
  case (Suc d)
  have "register_result E name v g r g'"
    if g: "graph_ok g" "valid_ptr E g v" and reg: "register E (Suc d) name v single noFill g = Inr (r, g')"
    for name v single noFill g r g'
  proof (cases "type_of v")
    case None
    with reg show ?thesis by simp
  next
    case (Some t)
    note stay = finish_result [OF _ g(1) Some extends_refl _ same_below_refl]
    show ?thesis using reg Some refl
    proof (cases rule: register_cases)
      case (refused e)
      with g(1) show ?thesis by (simp add: register_result_def)
    next
      case plain
      then show ?thesis using stay by blast
    next
      case (nofill n a)
      then show ?thesis using stay by blast
    next
      case (filled n a g1 err g2)
      note r = filled_result [OF Suc g filled(4,5)]
      show ?thesis
      proof (cases err)
        case (Some e)
        with filled(6) r show ?thesis by (simp add: register_result_def)
      next
        case None
        moreover have "type_of (VPtr n (Some a)) = Some t" using filled(4) Some by auto
        ultimately show ?thesis using filled(2,6) r finish_result [OF _ r(3) _ r(2) filled(2) r(4)] by simp
      qed
    qed
  qed
  then show ?case by (auto simp: register_keeps_def register_result_def)
qed

section \<open>Graphs in use\<close>

text \<open>
  The graphs a program can have before it closes them: it allocates structures of its own, writes their
  fields and registers values.
\<close>

inductive graph_reach :: "ienv \<Rightarrow> Graph \<Rightarrow> bool" for E where
  new: "graph_reach E NewGraph"
| alloc: "graph_reach E g \<Longrightarrow> reflect_New E n g = (a, g') \<Longrightarrow> graph_reach E g'"
| assign: "graph_reach E g \<Longrightarrow> graph_reach E (set_field a i w g)"
| registered: "graph_reach E g \<Longrightarrow> valid_ptr E g v \<Longrightarrow> register E d name v single noFill g = Inr (r, g') \<Longrightarrow> graph_reach E g'"

lemma graph_reach_ok: "graph_reach E g \<Longrightarrow> graph_ok g"
proof (induction rule: graph_reach.induct)
  case (registered g v d name single noFill r g')
  then show ?case using register_keeps [of E d] unfolding register_keeps_def by blast
qed (auto simp: graph_ok_New set_field_facts reflect_New_facts)

text \<open>A program with two types: \<open>A\<close> needs a \<open>B\<close> under the name \<open>b\<close>; \<open>B\<close> can be closed.\<close>

definition demo_field :: ifield where
  "demo_field = \<lparr>fd_Name = ''B'', fd_inject = Inr (Some ''b''), fd_singleton = False, fd_canNil = False, fd_type = RPtr ''B'',
     fd_canInterface = True, fd_canSet = True, fd_zero = VPtr ''B'' None\<rparr>"

definition demo_env :: ienv where
  "demo_env = \<lparr>ev_fields = (\<lambda>n. if n = ''A'' then [demo_field] else []), ev_implements = (\<lambda>t i. False), ev_impls = (\<lambda>n. []),
     ev_startable = (\<lambda>v. False), ev_Start = (\<lambda>v. None), ev_closeable = (\<lambda>v. v = VPtr ''B'' (Some 1)),
     ev_float = (\<lambda>k t. t)\<rparr>"

definition demo_graph :: Graph where
  "demo_graph = (case register demo_env 2 ''a'' (VPtr ''A'' None) False False NewGraph of Inr (r, g) \<Rightarrow> g | Inl p \<Rightarrow> NewGraph)"

lemmas demo_defs = demo_env_def demo_field_def NewGraph_def reflect_New_def find_first_def find_again_def check_field_def
  missing_type_def field_value_def AssignableTo_def finish_register_def new_object_def numeral_2_eq_2 Let_def
  graph_find_def om_Get_def om_Set_def NewOrderedMap_def newRootNode_def set_field_def graph_set_def

lemma demo_register: "register demo_env 2 ''a'' (VPtr ''A'' None) False False NewGraph = Inr (Inr (VPtr ''A'' (Some 0)), demo_graph)"
  by (simp add: demo_graph_def demo_defs)

lemma demo_reach: "graph_reach demo_env demo_graph"
  by (rule graph_reach.registered [OF graph_reach.new _ demo_register]) (simp add: valid_ptr_def)



section \<open>Termination\<close>

lemma fill_returns:
  assumes "\<And>f tag m g single. f \<in> set fs \<Longrightarrow> fd_inject f = Inr (Some tag) \<Longrightarrow> \<not> fd_canNil f \<Longrightarrow> missing_type E f tag = Some m \<Longrightarrow>
      \<exists>x. register E d tag (VPtr m None) single noFill g = Inr x"
  shows "\<exists>x. fill E d single noFill a i fs g = Inr x"
  using assms
proof (induction fs arbitrary: i g)
  case (Cons f fs)
  have IH: "\<exists>x. fill E d single noFill a i fs g = Inr x" for i g
    by (rule Cons.IH, rule Cons.prems) simp_all
  show ?case
  proof (cases "check_field f (gr_heap g a ! i)")
    case (Resolve tag)
    then have tag: "fd_inject f = Inr (Some tag)" by (auto simp: check_field_def split: sum.splits option.splits if_splits)
    have inject: "\<exists>x. (case field_value E f (gr_objs h oi) of Inl e \<Rightarrow> Inr (Some e, h)
        | Inr w \<Rightarrow> fill E d single noFill a (Suc i) fs (set_field a i w h)) = Inr x" for h oi
      using IH by (cases "field_value E f (gr_objs h oi)") auto
    show ?thesis
    proof (cases "find_first f tag g \<noteq> None \<or> fd_canNil f \<or> missing_type E f tag = None")
      case True
      then show ?thesis using Resolve inject IH by (cases "find_first f tag g"; cases "missing_type E f tag") auto
    next
      case False
      then obtain m r h where "missing_type E f tag = Some m" "register E d tag (VPtr m None) (fd_singleton f) noFill g = Inr (r, h)"
        using Cons.prems [of f tag _ "fd_singleton f" g] tag by fastforce
      then show ?thesis using False Resolve inject by (auto split: sum.split option.split)
    qed
  qed (use IH in auto)
qed simp

lemma register_returns:
  fixes rank :: "string \<Rightarrow> nat"
  assumes "\<And>n f tag m. f \<in> set (ev_fields E n) \<Longrightarrow> fd_inject f = Inr (Some tag) \<Longrightarrow> \<not> fd_canNil f \<Longrightarrow>
      missing_type E f tag = Some m \<Longrightarrow> rank m < rank n"
  shows "type_of v \<noteq> None \<Longrightarrow> 0 < d \<Longrightarrow> \<forall>n p. v = VPtr n p \<longrightarrow> rank n < d \<Longrightarrow> \<exists>x. register E d name v single noFill g = Inr x"
proof (induction d arbitrary: name v single g)
  case (Suc d)
  have fill: "\<exists>x. fill E d single noFill a 0 (ev_fields E n) g1 = Inr x" if "v = VPtr n p" for n p a g1
  proof (rule fill_returns)
    fix f tag m h s
    assume "f \<in> set (ev_fields E n)" "fd_inject f = Inr (Some tag)" "\<not> fd_canNil f" "missing_type E f tag = Some m"
    then have "rank m < d" using assms Suc.prems(3) that by fastforce
    then show "\<exists>x. register E d tag (VPtr m None) s noFill h = Inr x" by (intro Suc.IH) auto
  qed
  show ?case
  proof (cases v)
    case (VPtr n p)
    obtain a g1 where ag: "(case p of None \<Rightarrow> reflect_New E n g | Some a \<Rightarrow> (a, g)) = (a, g1)" by fastforce
    obtain err g2 where "fill E d single noFill a 0 (ev_fields E n) g1 = Inr (err, g2)"
      using fill [OF VPtr, of a g1] by fastforce
    then show ?thesis using ag VPtr by (auto simp: Let_def)
  qed (use Suc.prems(1) in \<open>auto simp: Let_def\<close>)
qed simp

lemma self_dependency_overflows:
  assumes "ev_fields E n = f # fs" and "plain_dep f tag" and "missing_type E f tag = Some n"
    and "isZeroOfUnderlyingType (fd_zero f)" and "fd_canSet f" and "graph_find tag g = None"
  shows "register E d tag (VPtr n None) single noFill g = Inl StackOverflow"
  using assms(6)
proof (induction d arbitrary: single g)
  case (Suc d)
  obtain a g1 where new: "reflect_New E n g = (a, g1)" by fastforce
  note n = reflect_New_facts [OF new]
  have none: "graph_find tag g1 = None" using Suc.prems n(7) by simp
  have "check_field f (fd_zero f) = Resolve tag"
    using assms(2,4,5) by (cases "fd_zero f") (auto simp: check_field_def plain_dep_def)
  then have "fill E d single noFill a 0 (f # fs) g1 = Inl StackOverflow"
    using none n(6) assms(1,2,3) Suc.IH [OF none] find_first_plain [OF assms(2), of g1] by (simp add: plain_dep_def)
  then show ?case using Suc.prems new assms(1,2) by (simp add: plain_dep_def stable_name_def)
qed simp

text \<open>
  C7. Registration returns, with a value or an error, when the types of the structures it may have to
  create form no cycle and the stack is as deep as the longest chain of such types.  A structure that
  needs another instance of its own type under the same name exhausts every stack.
\<close>

theorem registration_terminates:
  fixes rank :: "string \<Rightarrow> nat"
  shows "((\<forall>n f tag m. f \<in> set (ev_fields E n) \<longrightarrow> fd_inject f = Inr (Some tag) \<longrightarrow> \<not> fd_canNil f \<longrightarrow>
             missing_type E f tag = Some m \<longrightarrow> rank m < rank n) \<longrightarrow>
          type_of v \<noteq> None \<longrightarrow> (\<forall>n p. v = VPtr n p \<longrightarrow> rank n \<le> d) \<longrightarrow>
          (\<exists>x. register E (Suc d) name v single noFill g = Inr x)) \<and>
         (ev_fields E n = f # fs \<longrightarrow> plain_dep f tag \<longrightarrow> missing_type E f tag = Some n \<longrightarrow>
          isZeroOfUnderlyingType (fd_zero f) \<longrightarrow> fd_canSet f \<longrightarrow> graph_find tag g = None \<longrightarrow>
          register E d' tag (VPtr n None) single noFill g = Inl StackOverflow)"
proof (intro conjI impI)
  assume "\<forall>n f tag m. f \<in> set (ev_fields E n) \<longrightarrow> fd_inject f = Inr (Some tag) \<longrightarrow> \<not> fd_canNil f \<longrightarrow>
      missing_type E f tag = Some m \<longrightarrow> rank m < rank n"
    and "type_of v \<noteq> None" "\<forall>n p. v = VPtr n p \<longrightarrow> rank n \<le> d"
  then show "\<exists>x. register E (Suc d) name v single noFill g = Inr x"
    by (intro register_returns [where rank = rank]) (auto simp: less_Suc_eq_le)
qed (rule self_dependency_overflows)

theorem registration_terminates_witness:
  "(\<exists>x. register demo_env (Suc 1) ''a'' (VPtr ''A'' None) False False NewGraph = Inr x) \<and>
   register (demo_env\<lparr>ev_fields := (\<lambda>n. [demo_field])\<rparr>) 7 ''b'' (VPtr ''B'' None) False False NewGraph = Inl StackOverflow"
proof
  show "\<exists>x. register demo_env (Suc 1) ''a'' (VPtr ''A'' None) False False NewGraph = Inr x"
    using registration_terminates [of demo_env "\<lambda>n. if n = ''A'' then 1 else 0" "VPtr ''A'' None" 1 "''a''" False False NewGraph]
    by (simp add: demo_env_def demo_field_def missing_type_def)
  show "register (demo_env\<lparr>ev_fields := (\<lambda>n. [demo_field])\<rparr>) 7 ''b'' (VPtr ''B'' None) False False NewGraph = Inl StackOverflow"
    using registration_terminates [of "demo_env\<lparr>ev_fields := (\<lambda>n. [demo_field])\<rparr>" "\<lambda>n. 0" VNilI 1 "''a''" False False NewGraph
      "''B''" demo_field "[]" "''b''" 7]
    by (simp add: demo_field_def plain_dep_def stable_name_def missing_type_def graph_find_def om_Get_def NewGraph_def NewOrderedMap_def)
qed

section \<open>Closing the graph\<close>

lemma remdups_snoc: "remdups (xs @ [x]) = remdups (filter (\<lambda>y. y \<noteq> x) xs) @ [x]"
  by (induction xs) auto

text \<open>The objects of a list that \<open>Close\<close> closes, in the order of their first occurrence.\<close>

definition to_close :: "ienv \<Rightarrow> Graph \<Rightarrow> nat list \<Rightarrow> nat list" where
  "to_close E g ois =
     rev (remdups (rev (filter (\<lambda>oi. ev_closeable E (ob_Value (gr_objs g oi)) \<and> \<not> ob_closed (gr_objs g oi)) ois)))"

lemma to_close_Cons:
  "to_close E g (oi # ois) =
     (if ev_closeable E (ob_Value (gr_objs g oi)) \<and> \<not> ob_closed (gr_objs g oi)
      then oi # to_close E g (filter (\<lambda>x. x \<noteq> oi) ois) else to_close E g ois)"
  by (auto simp: to_close_def remdups_snoc rev_filter [symmetric] conj_commute intro!: arg_cong [of _ _ rev] arg_cong [of _ _ remdups] filter_cong)

lemma to_close_after:
  "to_close E (g\<lparr>gr_objs := (gr_objs g)(oi := (gr_objs g oi)\<lparr>ob_closed := True\<rparr>), gr_events := es\<rparr>) ois =
     to_close E g (filter (\<lambda>x. x \<noteq> oi) ois)"
  by (auto simp: to_close_def intro!: arg_cong [of _ _ rev] arg_cong [of _ _ remdups] filter_cong)

lemma om_pair_sel: "kv_Key (om_pair kv) = Some (fst kv)" "kv_Value (om_pair kv) = Some (snd kv)"
  by (simp_all add: om_pair_def)

lemma close_loop_events:
  "\<forall>kv \<in> set ys. ob_Value (gr_objs g (snd kv)) \<noteq> VNilI \<Longrightarrow> close_loop E (map om_pair ys) ks g = (ks', g') \<Longrightarrow>
   gr_events g' = gr_events g @ map (\<lambda>oi. EvClose (ob_Value (gr_objs g oi))) (to_close E g (map snd ys)) \<and>
   gr_named g' = gr_named g \<and> set ks \<union> fst ` set ys \<subseteq> set ks'"
proof (induction ys arbitrary: ks g)
  case Nil
  then show ?case by (simp add: to_close_def)
next
  case (Cons y ys)
  let ?ob = "gr_objs g (snd y)"
  define g1 where "g1 = (if ob_closed ?ob \<or> \<not> ev_closeable E (ob_Value ?ob) then g
    else g\<lparr>gr_objs := (gr_objs g)(snd y := ?ob\<lparr>ob_closed := True\<rparr>), gr_events := gr_events g @ [EvClose (ob_Value ?ob)]\<rparr>)"
  define ks1 where "ks1 = ks @ fst y # (if \<not> ob_closed ?ob \<and> isStructPtr (ob_type ?ob) then [getTypeName (ob_type ?ob)] else [])"
  have rest: "close_loop E (map om_pair ys) ks1 g1 = (ks', g')" "set ks \<union> {fst y} \<subseteq> set ks1"
    using Cons.prems by (auto simp: g1_def ks1_def om_pair_sel Let_def split: if_splits)
  note g1 = g1_def
  have val: "ob_Value (gr_objs g1 oi) = ob_Value (gr_objs g oi)" for oi by (simp add: g1)
  have ne: "\<forall>kv \<in> set ys. ob_Value (gr_objs g1 (snd kv)) \<noteq> VNilI" using Cons.prems(1) val by auto
  note ih = Cons.IH [OF ne rest(1), unfolded val]
  have "gr_events g' = gr_events g @ map (\<lambda>oi. EvClose (ob_Value (gr_objs g oi))) (to_close E g (map snd (y # ys)))"
    using ih by (auto simp: g1 to_close_Cons to_close_after)
  then show ?case using ih rest(2) by (auto simp: g1)
qed

lemma fmlookup_fold_Delete: "fmlookup (om_store (fold om_Delete ks m)) k = (if k \<in> set ks then None else fmlookup (om_store m) k)"
proof (induction ks arbitrary: m)
  case (Cons x ks)
  have "fmlookup (om_store (om_Delete x m)) k = (if k = x then None else fmlookup (om_store m) k)"
    by (auto simp: om_Delete_def Let_def split: option.split)
  then show ?case using Cons.IH by auto
qed simp

text \<open>
  C29. \<open>Close\<close> closes each object that is bound to a name and can be closed, once even when it has
  several names, in the reverse order of the names in the map, and leaves a graph in which nothing is found.
\<close>

theorem Close_closes_all:
  assumes "graph_reach E g"
  shows "\<exists>xs g'. om_Iter (gr_named g) = Some (map om_pair xs) \<and> graph_Close E g = Some g' \<and>
    gr_events g' = gr_events g @ map (\<lambda>oi. EvClose (ob_Value (gr_objs g oi)))
      (rev (remdups (filter (\<lambda>oi. ev_closeable E (ob_Value (gr_objs g oi))) (map snd xs)))) \<and>
    (\<forall>k. graph_find k g' = None) \<and> graph_Len g' = 0"
proof -
  obtain xs where xs: "entries_ok g xs" using graph_reach_ok [OF assms] by (auto simp: graph_ok_def)
  then have rep: "om_rep (gr_named g) xs" by (simp add: entries_ok_def)
  obtain ks g1 where loop: "close_loop E (map om_pair (rev xs)) [] g = (ks, g1)" by fastforce
  have "\<forall>kv \<in> set (rev xs). ob_Value (gr_objs g (snd kv)) \<noteq> VNilI" using xs by (auto simp: entries_ok_def)
  note l = close_loop_events [OF this loop]
  have tc: "to_close E g (map snd (rev xs)) = rev (remdups (filter (\<lambda>oi. ev_closeable E (ob_Value (gr_objs g oi))) (map snd xs)))"
    using xs by (auto simp: to_close_def rev_filter rev_map entries_ok_def intro!: arg_cong [of _ _ remdups] filter_cong)
  define g' where "g' = g1\<lparr>gr_named := fold om_Delete ks (gr_named g1)\<rparr>"
  have none: "fmlookup (om_store (gr_named g')) k = None" for k
    using l om_rep_store [OF rep, of k] by (auto simp: g'_def fmlookup_fold_Delete map_of_eq_None_iff)
  then have "om_store (gr_named g') = fmempty" by (intro fmap_ext) simp
  then have "(\<forall>k. graph_find k g' = None) \<and> graph_Len g' = 0"
    by (simp add: graph_find_def graph_Len_def om_Get_def om_Len_def)
  moreover have "graph_Close E g = Some g'" using om.rep_rev_iter [OF rep] loop by (simp add: graph_Close_def g'_def)
  moreover have "gr_events g' = gr_events g1" by (simp add: g'_def)
  ultimately show ?thesis using l tc om.rep_iter [OF rep] by auto
qed

theorem Close_closes_all_witness:
  "\<exists>g'. graph_Close demo_env demo_graph = Some g' \<and> graph_Len g' = 0 \<and> EvClose (VPtr ''B'' (Some 1)) \<in> set (gr_events g')"
proof -
  obtain xs g' where xs: "om_Iter (gr_named demo_graph) = Some (map om_pair xs)" and g': "graph_Close demo_env demo_graph = Some g'"
      "graph_Len g' = 0" "gr_events g' = gr_events demo_graph @ map (\<lambda>oi. EvClose (ob_Value (gr_objs demo_graph oi)))
        (rev (remdups (filter (\<lambda>oi. ev_closeable demo_env (ob_Value (gr_objs demo_graph oi))) (map snd xs))))"
    using Close_closes_all [OF demo_reach] by blast
  obtain ys where ys: "entries_ok demo_graph ys" using graph_reach_ok [OF demo_reach] by (auto simp: graph_ok_def)
  have "graph_find ''b'' demo_graph = Some 0" by (simp add: demo_graph_def demo_defs)
  then have "(''b'', 0) \<in> set ys" using find_entries [OF ys] by (simp add: map_of_SomeD)
  moreover have "map om_pair xs = map om_pair ys" using xs om.rep_iter [of "gr_named demo_graph" ys] ys by (simp add: entries_ok_def)
  ultimately have "om_pair (''b'', 0) \<in> om_pair ` set xs" by (metis imageI list.set_map)
  then have "0 \<in> snd ` set xs" by (force simp: om_pair_def)
  moreover have "ob_Value (gr_objs demo_graph 0) = VPtr ''B'' (Some 1)" by (simp add: demo_graph_def demo_defs)
  ultimately have "EvClose (VPtr ''B'' (Some 1)) \<in> set (gr_events g')"
    using g'(3) by (force simp: demo_env_def)
  with g'(1,2) show ?thesis by blast
qed

end
