(* ===== verification/Discovery.thy ===== *)
theory Discovery
  imports Prelude
begin

text \<open>
  Service discovery (\<open>service/discovery\<close>) and the node data it shares with registration
  (\<open>service/encoding.go\<close>): the tables of nodes that etcd and zookeeper clients keep, and the goroutines that
  follow the changes of a directory.

  The ini file, \<open>tls\<close> set-up, the creation of clients and what the servers answer and send are arguments;
  \<open>unm\<close> is \<open>json.Unmarshal\<close> into a node.  Slices are values: a caller of \<open>GetNodeInfo\<close> gets a copy.
\<close>

section \<open>Nodes and configuration\<close>

record DefaultNodeInfo =
  ni_Ip :: string
  ni_Port :: int
  ni_Offline :: bool
  ni_Weight :: uint64

text \<open>A \<open>NodeInfo\<close> is an interface, which may be nil.\<close>

type_synonym NodeInfo = "DefaultNodeInfo option"

definition node_addr :: "DefaultNodeInfo \<Rightarrow> string" where
  "node_addr v = ni_Ip v @ '':'' @ Itoa (ni_Port v)"

record ini =
  ini_String :: "string \<Rightarrow> string \<Rightarrow> string"
  ini_Strings :: "string \<Rightarrow> string \<Rightarrow> string list"
  ini_Int :: "string \<Rightarrow> string \<Rightarrow> int"
  ini_Uint64 :: "string \<Rightarrow> string \<Rightarrow> uint64"

text \<open>The loop of \<open>DelNode\<close>: the first node with the address goes; a nil node before it panics.\<close>

fun del_loop :: "string \<Rightarrow> NodeInfo list \<Rightarrow> NodeInfo list \<Rightarrow> NodeInfo list option go" where
  "del_loop addr pre [] = Inr None"
| "del_loop addr pre (v # vs) =
     (case v of
        None \<Rightarrow> Inl NilDeref
      | Some i \<Rightarrow> if node_addr i = addr then Inr (Some (pre @ vs)) else del_loop addr (pre @ [v]) vs)"

definition unMsgNodeInfo :: "(string \<Rightarrow> DefaultNodeInfo option) \<Rightarrow> string \<Rightarrow> NodeInfo" where
  "unMsgNodeInfo unm data = (case unm data of None \<Rightarrow> None | Some info \<Rightarrow> Some info)"

section \<open>Discovery with etcd\<close>

record EtcdNode =
  en_key :: string
  en_path :: string
  en_nodesInfo :: "NodeInfo list"
  en_stopChan :: chan_state

record EtcdConfig =
  ec_Host :: "string list"
  ec_TlsConfig :: "string option"

record EtcdDiscovery =
  ed_EtcdConfig :: "EtcdConfig option"
  ed_EtcdConf :: "ini option"
  ed_EtcdConfPath :: string
  ed_nodes :: "(string \<times> EtcdNode) list"
  ed_running :: bool
  ed_started :: bool
  ed_closed :: bool

definition initWithEtcdConfig :: "EtcdConfig \<Rightarrow> EtcdDiscovery \<Rightarrow> string option \<times> EtcdDiscovery" where
  "initWithEtcdConfig c e = (None, e\<lparr>ed_nodes := [], ed_EtcdConfig := Some c, ed_running := True\<rparr>)"

text \<open>\<open>tls cert key ca\<close> loads the certificates.\<close>

definition initEtcd :: "(string \<Rightarrow> string \<Rightarrow> string \<Rightarrow> string + string) \<Rightarrow> ini \<Rightarrow> EtcdDiscovery \<Rightarrow> string option \<times> EtcdDiscovery" where
  "initEtcd tls f e =
     (let hosts = ini_Strings f ''DisRes'' ''etcdHost'';
          config = \<lparr>ec_Host = hosts, ec_TlsConfig = None\<rparr>;
          cert = ini_String f ''DisRes'' ''cert'';
          key = ini_String f ''DisRes'' ''key'';
          ca = ini_String f ''DisRes'' ''ca''
      in if cert \<noteq> [] \<and> key \<noteq> [] \<and> ca \<noteq> []
         then (case tls cert key ca of
                 Inl err \<Rightarrow> (Some (''load tls conf from file fail,, err='' @ err), e)
               | Inr t \<Rightarrow> initWithEtcdConfig (config\<lparr>ec_TlsConfig := Some t\<rparr>) e)
         else initWithEtcdConfig config e)"

text \<open>\<open>load\<close> is \<open>ini.Load\<close>.\<close>

definition initObjForEtcd ::
    "(string \<Rightarrow> string \<Rightarrow> string \<Rightarrow> string + string) \<Rightarrow> (string \<Rightarrow> string + ini) \<Rightarrow> string \<Rightarrow> EtcdDiscovery \<Rightarrow> string option \<times> EtcdDiscovery" where
  "initObjForEtcd tls load filePath e =
     (if filePath = [] then (Some ''etcdConf not set'', e)
      else if \<not> HasSuffix filePath ''.ini'' then (Some ''etcdConf not an ini file'', e)
      else (case load filePath of Inl err \<Rightarrow> (Some err, e) | Inr f \<Rightarrow> initEtcd tls f e))"

definition ed_Start ::
    "(string \<Rightarrow> string \<Rightarrow> string \<Rightarrow> string + string) \<Rightarrow> (string \<Rightarrow> string + ini) \<Rightarrow> EtcdDiscovery \<Rightarrow> string option \<times> EtcdDiscovery" where
  "ed_Start tls load e0 =
     (if ed_started e0 then (None, e0)
      else (let e = e0\<lparr>ed_started := True\<rparr>
            in case ed_EtcdConfig e of
                 Some c \<Rightarrow> initWithEtcdConfig c e
               | None \<Rightarrow>
                   (case ed_EtcdConf e of
                      Some f \<Rightarrow> initEtcd tls f e
                    | None \<Rightarrow>
                        (let e = (if ed_EtcdConfPath e = [] then e\<lparr>ed_EtcdConfPath := ''conf/conf.ini''\<rparr> else e)
                         in initObjForEtcd tls load (ed_EtcdConfPath e) e))))"

text \<open>The range over the nodes in \<open>Close\<close> closes the stop channels; \<open>closeOnce\<close> lets this happen once.\<close>

fun ed_close_nodes :: "(string \<times> EtcdNode) list \<Rightarrow> (string \<times> EtcdNode) list go" where
  "ed_close_nodes [] = Inr []"
| "ed_close_nodes ((k, n) # kns) =
     go_bind (chan_close (en_stopChan n)) (\<lambda>ch.
     go_bind (ed_close_nodes kns) (\<lambda>rest. Inr ((k, n\<lparr>en_stopChan := ch\<rparr>) # rest)))"

definition ed_Close :: "EtcdDiscovery \<Rightarrow> EtcdDiscovery go" where
  "ed_Close e =
     (if ed_closed e then Inr e
      else go_bind (ed_close_nodes (ed_nodes e)) (\<lambda>ns. Inr (e\<lparr>ed_nodes := ns, ed_closed := True\<rparr>)))"

text \<open>
  \<open>Watch\<close> up to the start of its goroutine; \<open>conn\<close> is the error of \<open>clientv3.New\<close>.  An empty path panics.
\<close>

definition ed_Watch :: "string option \<Rightarrow> string \<Rightarrow> string \<Rightarrow> EtcdDiscovery \<Rightarrow> (string option \<times> EtcdDiscovery) go" where
  "ed_Watch conn key path e =
     (if \<not> ed_running e then Inr (Some ''etcd discovery not running'', e)
      else (case path of
              [] \<Rightarrow> Inl IndexOutOfRange
            | c # cs \<Rightarrow>
                (let path = (if c \<noteq> CHR ''/'' then CHR ''/'' # path else path)
                 in case conn of
                      Some err \<Rightarrow> Inr (Some err, e)
                    | None \<Rightarrow>
                        Inr (None, e\<lparr>ed_nodes := al_set key
                          \<lparr>en_key = key, en_path = path, en_nodesInfo = [], en_stopChan = ChOpen\<rparr> (ed_nodes e)\<rparr>))))"

text \<open>\<open>WatchMulti\<close> over the entries in the order the map yields them.\<close>

fun ed_WatchMulti :: "(string \<Rightarrow> string option) \<Rightarrow> (string \<times> string) list \<Rightarrow> EtcdDiscovery \<Rightarrow> (string option \<times> EtcdDiscovery) go" where
  "ed_WatchMulti conn [] e = Inr (None, e)"
| "ed_WatchMulti conn ((key, node) # ns) e =
     go_bind (ed_Watch (conn key) key node e) (\<lambda>(err, e). if err \<noteq> None then Inr (err, e) else ed_WatchMulti conn ns e)"

text \<open>A missing key makes the type assertion fail on a nil interface.\<close>

definition ed_AddNode :: "string \<Rightarrow> NodeInfo \<Rightarrow> EtcdDiscovery \<Rightarrow> EtcdDiscovery go" where
  "ed_AddNode key info e =
     (case map_of (ed_nodes e) key of
        None \<Rightarrow> Inl TypeAssertion
      | Some en \<Rightarrow> Inr (e\<lparr>ed_nodes := al_set key (en\<lparr>en_nodesInfo := en_nodesInfo en @ [info]\<rparr>) (ed_nodes e)\<rparr>))"

definition ed_DelNode :: "string \<Rightarrow> string \<Rightarrow> EtcdDiscovery \<Rightarrow> EtcdDiscovery go" where
  "ed_DelNode key addr e =
     (case map_of (ed_nodes e) key of
        None \<Rightarrow> Inr e
      | Some en \<Rightarrow>
          go_bind (del_loop addr [] (en_nodesInfo en)) (\<lambda>r.
            case r of
              None \<Rightarrow> Inr e
            | Some infos \<Rightarrow> Inr (e\<lparr>ed_nodes := al_set key (en\<lparr>en_nodesInfo := infos\<rparr>) (ed_nodes e)\<rparr>)))"

definition ed_GetNodeInfo :: "string \<Rightarrow> EtcdDiscovery \<Rightarrow> NodeInfo list go" where
  "ed_GetNodeInfo key e = (case map_of (ed_nodes e) key of None \<Rightarrow> Inr [] | Some en \<Rightarrow> Inr (en_nodesInfo en))"

text \<open>
  What a watcher receives: batches of events, or the closing of its stop channel.  A panic ends the
  goroutine and is recovered; the table stays as it was at that moment.
\<close>

datatype etcd_event = EventTypePut string string | EventTypeDelete string

datatype etcd_input = Events "etcd_event list" | Stopped

definition ed_event :: "(string \<Rightarrow> DefaultNodeInfo option) \<Rightarrow> string \<Rightarrow> etcd_event \<Rightarrow> EtcdDiscovery \<Rightarrow> EtcdDiscovery go" where
  "ed_event unm key ev e =
     (case ev of
        EventTypePut k v \<Rightarrow> ed_AddNode key (unMsgNodeInfo unm v) e
      | EventTypeDelete k \<Rightarrow> ed_DelNode key k e)"

fun ed_events :: "(string \<Rightarrow> DefaultNodeInfo option) \<Rightarrow> string \<Rightarrow> etcd_event list \<Rightarrow> EtcdDiscovery \<Rightarrow> go_panic option \<times> EtcdDiscovery" where
  "ed_events unm key [] e = (None, e)"
| "ed_events unm key (ev # evs) e =
     (case ed_event unm key ev e of Inl p \<Rightarrow> (Some p, e) | Inr e' \<Rightarrow> ed_events unm key evs e')"

fun ed_watch_loop :: "(string \<Rightarrow> DefaultNodeInfo option) \<Rightarrow> string \<Rightarrow> etcd_input list \<Rightarrow> EtcdDiscovery \<Rightarrow> go_panic option \<times> EtcdDiscovery" where
  "ed_watch_loop unm key [] e = (None, e)"
| "ed_watch_loop unm key (Stopped # ins) e = (None, e\<lparr>ed_running := False\<rparr>)"
| "ed_watch_loop unm key (Events evs # ins) e =
     (case ed_events unm key evs e of
        (Some p, e') \<Rightarrow> (Some p, e')
      | (None, e') \<Rightarrow> ed_watch_loop unm key ins e')"

text \<open>\<open>watchNode\<close>: \<open>resp\<close> holds the keys and values of the first \<open>Get\<close>, \<open>None\<close> when it fails.\<close>

definition ed_watchNode ::
    "(string \<Rightarrow> DefaultNodeInfo option) \<Rightarrow> (string \<times> string) list option \<Rightarrow> etcd_input list \<Rightarrow> string \<Rightarrow> EtcdDiscovery \<Rightarrow>
     go_panic option \<times> EtcdDiscovery" where
  "ed_watchNode unm resp ins key e =
     (case map_of (ed_nodes e) key of
        None \<Rightarrow> (None, e)
      | Some node \<Rightarrow>
          (case resp of
             None \<Rightarrow> (None, e)
           | Some kvs \<Rightarrow>
               (case ed_events unm (en_key node) (map (\<lambda>(k, v). EventTypePut k v) kvs) e of
                  (Some p, e') \<Rightarrow> (Some p, e')
                | (None, e') \<Rightarrow> ed_watch_loop unm (en_key node) ins e')))"

section \<open>Discovery with zookeeper\<close>

record ZkNode =
  zn_key :: string
  zn_path :: string
  zn_nodesInfo :: "NodeInfo list"
  zn_stopChan :: chan_state

text \<open>An entry may hold the nil interface, which \<open>watchNode\<close> stores.\<close>

record ZkDiscovery =
  zd_ZkConfig :: "string list option"
  zd_ZkConf :: "ini option"
  zd_ZkConfPath :: string
  zd_nodes :: "(string \<times> ZkNode option) list"
  zd_running :: bool
  zd_started :: bool

definition initWithZkConfig :: "string list \<Rightarrow> ZkDiscovery \<Rightarrow> string option \<times> ZkDiscovery" where
  "initWithZkConfig c z = (None, z\<lparr>zd_running := True, zd_ZkConfig := Some c, zd_nodes := []\<rparr>)"

definition initZk :: "ini \<Rightarrow> ZkDiscovery \<Rightarrow> string option \<times> ZkDiscovery" where
  "initZk f z = initWithZkConfig (ini_Strings f ''DisRes'' ''zkHost'') z"

definition initObjForZk :: "(string \<Rightarrow> string + ini) \<Rightarrow> string \<Rightarrow> ZkDiscovery \<Rightarrow> string option \<times> ZkDiscovery" where
  "initObjForZk load filePath z =
     (if filePath = [] then (Some ''zkConf not set'', z)
      else if \<not> HasSuffix filePath ''.ini'' then (Some ''zkConf not an ini file'', z)
      else (case load filePath of Inl err \<Rightarrow> (Some err, z) | Inr f \<Rightarrow> initZk f z))"

definition zd_Start :: "(string \<Rightarrow> string + ini) \<Rightarrow> ZkDiscovery \<Rightarrow> string option \<times> ZkDiscovery" where
  "zd_Start load z0 =
     (if zd_started z0 then (None, z0)
      else (let z = z0\<lparr>zd_started := True\<rparr>
            in case zd_ZkConfig z of
                 Some c \<Rightarrow> initWithZkConfig c z
               | None \<Rightarrow>
                   (case zd_ZkConf z of
                      Some f \<Rightarrow> initZk f z
                    | None \<Rightarrow>
                        (let z = (if zd_ZkConfPath z = [] then z\<lparr>zd_ZkConfPath := ''conf/conf.ini''\<rparr> else z)
                         in initObjForZk load (zd_ZkConfPath z) z))))"

text \<open>\<open>Close\<close> is not guarded by \<open>closeOnce\<close>.\<close>

fun zd_close_nodes :: "(string \<times> ZkNode option) list \<Rightarrow> (string \<times> ZkNode option) list go" where
  "zd_close_nodes [] = Inr []"
| "zd_close_nodes ((k, n) # kns) =
     (case n of
        None \<Rightarrow> Inl TypeAssertion
      | Some n \<Rightarrow>
          go_bind (chan_close (zn_stopChan n)) (\<lambda>ch.
          go_bind (zd_close_nodes kns) (\<lambda>rest. Inr ((k, Some (n\<lparr>zn_stopChan := ch\<rparr>)) # rest))))"

definition zd_Close :: "ZkDiscovery \<Rightarrow> ZkDiscovery go" where
  "zd_Close z = go_bind (zd_close_nodes (zd_nodes z)) (\<lambda>ns. Inr (z\<lparr>zd_nodes := ns\<rparr>))"

definition zd_Watch :: "string option \<Rightarrow> string \<Rightarrow> string \<Rightarrow> ZkDiscovery \<Rightarrow> (string option \<times> ZkDiscovery) go" where
  "zd_Watch conn key path z =
     (if \<not> zd_running z then Inr (Some ''zk discovery not running'', z)
      else (case path of
              [] \<Rightarrow> Inl IndexOutOfRange
            | c # cs \<Rightarrow>
                (let path = (if c \<noteq> CHR ''/'' then CHR ''/'' # path else path)
                 in case conn of
                      Some err \<Rightarrow> Inr (Some err, z)
                    | None \<Rightarrow>
                        Inr (None, z\<lparr>zd_nodes := al_set key
                          (Some \<lparr>zn_key = key, zn_path = path, zn_nodesInfo = [], zn_stopChan = ChOpen\<rparr>) (zd_nodes z)\<rparr>))))"

fun zd_WatchMulti :: "(string \<Rightarrow> string option) \<Rightarrow> (string \<times> string) list \<Rightarrow> ZkDiscovery \<Rightarrow> (string option \<times> ZkDiscovery) go" where
  "zd_WatchMulti conn [] z = Inr (None, z)"
| "zd_WatchMulti conn ((key, node) # ns) z =
     go_bind (zd_Watch (conn key) key node z) (\<lambda>(err, z). if err \<noteq> None then Inr (err, z) else zd_WatchMulti conn ns z)"

definition zd_AddNode :: "string \<Rightarrow> NodeInfo \<Rightarrow> ZkDiscovery \<Rightarrow> ZkDiscovery go" where
  "zd_AddNode key info z =
     (case map_of (zd_nodes z) key of
        Some (Some zn) \<Rightarrow> Inr (z\<lparr>zd_nodes := al_set key (Some (zn\<lparr>zn_nodesInfo := zn_nodesInfo zn @ [info]\<rparr>)) (zd_nodes z)\<rparr>)
      | _ \<Rightarrow> Inl TypeAssertion)"

definition zd_DelNode :: "string \<Rightarrow> string \<Rightarrow> ZkDiscovery \<Rightarrow> ZkDiscovery go" where
  "zd_DelNode key addr z =
     (case map_of (zd_nodes z) key of
        None \<Rightarrow> Inr z
      | Some None \<Rightarrow> Inl TypeAssertion
      | Some (Some zn) \<Rightarrow>
          go_bind (del_loop addr [] (zn_nodesInfo zn)) (\<lambda>r.
            case r of
              None \<Rightarrow> Inr z
            | Some infos \<Rightarrow> Inr (z\<lparr>zd_nodes := al_set key (Some (zn\<lparr>zn_nodesInfo := infos\<rparr>)) (zd_nodes z)\<rparr>)))"

definition zd_GetNodeInfo :: "string \<Rightarrow> ZkDiscovery \<Rightarrow> NodeInfo list go" where
  "zd_GetNodeInfo key z =
     (case map_of (zd_nodes z) key of
        None \<Rightarrow> Inr []
      | Some None \<Rightarrow> Inl TypeAssertion
      | Some (Some zn) \<Rightarrow> Inr (zn_nodesInfo zn))"

text \<open>
  One reading of the directory: the children, \<open>None\<close> when that fails, and the data of each, \<open>None\<close> when
  its \<open>Get\<close> fails.  \<open>zd_fill\<close> adds them under \<open>key\<close> until a \<open>Get\<close> fails (\<open>Inl None\<close>) or a panic.
\<close>

type_synonym listing = "string list option \<times> (string \<Rightarrow> string option)"

fun zd_fill :: "(string \<Rightarrow> DefaultNodeInfo option) \<Rightarrow> (string \<Rightarrow> string option) \<Rightarrow> string \<Rightarrow> string list \<Rightarrow> ZkDiscovery \<Rightarrow>
    (go_panic option + unit) \<times> ZkDiscovery" where
  "zd_fill unm get key [] z = (Inr (), z)"
| "zd_fill unm get key (v # vs) z =
     (case get v of
        None \<Rightarrow> (Inl None, z)
      | Some data \<Rightarrow>
          (case zd_AddNode key (unMsgNodeInfo unm data) z of
             Inl p \<Rightarrow> (Inl (Some p), z)
           | Inr z' \<Rightarrow> zd_fill unm get key vs z'))"

datatype zk_input = WatchFails | NodeChildrenChanged listing | OtherEvent | ZkStopped

fun zd_watch_loop :: "(string \<Rightarrow> DefaultNodeInfo option) \<Rightarrow> ZkNode \<Rightarrow> zk_input list \<Rightarrow> ZkDiscovery \<Rightarrow> go_panic option \<times> ZkDiscovery" where
  "zd_watch_loop unm node [] z = (None, z)"
| "zd_watch_loop unm node (WatchFails # ins) z = (None, z)"
| "zd_watch_loop unm node (OtherEvent # ins) z = zd_watch_loop unm node ins z"
| "zd_watch_loop unm node (ZkStopped # ins) z = (None, z\<lparr>zd_running := False\<rparr>)"
| "zd_watch_loop unm node (NodeChildrenChanged l # ins) z =
     (case fst l of
        None \<Rightarrow> (None, z)
      | Some children \<Rightarrow>
          (case zd_fill unm (snd l) (zn_path node) children (z\<lparr>zd_nodes := al_set (zn_key node) None (zd_nodes z)\<rparr>) of
             (Inl p, z') \<Rightarrow> (p, z')
           | (Inr u, z') \<Rightarrow> zd_watch_loop unm node ins z'))"

definition zd_watchNode ::
    "(string \<Rightarrow> DefaultNodeInfo option) \<Rightarrow> listing \<Rightarrow> zk_input list \<Rightarrow> ZkNode \<Rightarrow> ZkDiscovery \<Rightarrow> go_panic option \<times> ZkDiscovery" where
  "zd_watchNode unm l ins node z =
     (case map_of (zd_nodes z) (zn_key node) of
        None \<Rightarrow> (None, z)
      | Some None \<Rightarrow> (Some TypeAssertion, z)
      | Some (Some nodesInfo) \<Rightarrow>
          (case fst l of
             None \<Rightarrow> (None, z)
           | Some children \<Rightarrow>
               (case zd_fill unm (snd l) (zn_key node) children z of
                  (Inl p, z') \<Rightarrow> (p, z')
                | (Inr u, z') \<Rightarrow> zd_watch_loop unm node ins z')))"

section \<open>The table of nodes\<close>

text \<open>What both discoveries promise to applications, and the reference it refines: a list of nodes per key.\<close>

fun remove_addr :: "string \<Rightarrow> DefaultNodeInfo list \<Rightarrow> DefaultNodeInfo list" where
  "remove_addr addr [] = []"
| "remove_addr addr (v # vs) = (if node_addr v = addr then vs else v # remove_addr addr vs)"

datatype node_op = AddOp string NodeInfo | DelOp string string

primrec op_key :: "node_op \<Rightarrow> string" where
  "op_key (AddOp k i) = k"
| "op_key (DelOp k a) = k"

text \<open>A deletion takes the first node with the address away, and panics when a nil node comes before it.\<close>

definition other_node :: "string \<Rightarrow> NodeInfo \<Rightarrow> bool" where
  "other_node addr v = (case v of None \<Rightarrow> False | Some i \<Rightarrow> node_addr i \<noteq> addr)"

definition spec_del :: "string \<Rightarrow> NodeInfo list \<Rightarrow> NodeInfo list go" where
  "spec_del addr xs =
     (case dropWhile (other_node addr) xs of
        [] \<Rightarrow> Inr xs
      | None # rest \<Rightarrow> Inl NilDeref
      | Some i # rest \<Rightarrow> Inr (takeWhile (other_node addr) xs @ rest))"

primrec spec_op :: "node_op \<Rightarrow> (string \<Rightarrow> NodeInfo list) \<Rightarrow> (string \<Rightarrow> NodeInfo list) go" where
  "spec_op (AddOp k i) f = Inr (f(k := f k @ [i]))"
| "spec_op (DelOp k a) f = go_bind (spec_del a (f k)) (\<lambda>xs. Inr (f(k := xs)))"

primrec spec_ops :: "node_op list \<Rightarrow> (string \<Rightarrow> NodeInfo list) \<Rightarrow> (string \<Rightarrow> NodeInfo list) go" where
  "spec_ops [] f = Inr f"
| "spec_ops (p # ps) f = go_bind (spec_op p f) (spec_ops ps)"

text \<open>The same without nil nodes.\<close>

primrec plain_op :: "node_op \<Rightarrow> (string \<Rightarrow> DefaultNodeInfo list) \<Rightarrow> string \<Rightarrow> DefaultNodeInfo list" where
  "plain_op (AddOp k i) f = f(k := f k @ [the i])"
| "plain_op (DelOp k a) f = f(k := remove_addr a (f k))"

lemma spec_del_simps [simp]:
  "spec_del a [] = Inr []"
  "spec_del a (None # xs) = Inl NilDeref"
  "spec_del a (Some i # xs) = (if node_addr i = a then Inr xs else go_bind (spec_del a xs) (\<lambda>ys. Inr (Some i # ys)))"
  by (auto simp: spec_del_def other_node_def simp del: dropWhile_eq_Nil_conv split: list.split option.split)

lemma spec_del_plain: "spec_del a (map Some xs) = Inr (map Some (remove_addr a xs))"
  by (induction xs) auto

lemma spec_ops_plain:
  "\<forall>k. AddOp k None \<notin> set ps \<Longrightarrow> spec_ops ps (\<lambda>k. map Some (f k)) = Inr (\<lambda>k. map Some (fold plain_op ps f k))"
proof (induction ps arbitrary: f)
  case (Cons p ps)
  have "spec_op p (\<lambda>k. map Some (f k)) = Inr (\<lambda>k. map Some (plain_op p f k))"
    using Cons.prems by (cases p) (auto simp: spec_del_plain fun_eq_iff)
  with Cons.IH [of "plain_op p f"] Cons.prems show ?case by simp
qed simp

text \<open>A sequence of calls on a discovery with the methods \<open>add\<close> and \<open>del\<close>.\<close>

primrec do_op :: "(string \<Rightarrow> NodeInfo \<Rightarrow> 's \<Rightarrow> 's go) \<Rightarrow> (string \<Rightarrow> string \<Rightarrow> 's \<Rightarrow> 's go) \<Rightarrow> node_op \<Rightarrow> 's \<Rightarrow> 's go" where
  "do_op add del (AddOp k i) s = add k i s"
| "do_op add del (DelOp k a) s = del k a s"

primrec do_ops :: "(string \<Rightarrow> NodeInfo \<Rightarrow> 's \<Rightarrow> 's go) \<Rightarrow> (string \<Rightarrow> string \<Rightarrow> 's \<Rightarrow> 's go) \<Rightarrow> node_op list \<Rightarrow> 's \<Rightarrow> 's go" where
  "do_ops add del [] s = Inr s"
| "do_ops add del (p # ps) s = go_bind (do_op add del p s) (do_ops add del ps)"

locale node_store =
  fixes add :: "string \<Rightarrow> NodeInfo \<Rightarrow> 's \<Rightarrow> 's go"
    and del :: "string \<Rightarrow> string \<Rightarrow> 's \<Rightarrow> 's go"
    and get :: "string \<Rightarrow> 's \<Rightarrow> NodeInfo list go"
    and entry :: "'s \<Rightarrow> string \<Rightarrow> NodeInfo list option"
  assumes get_entry: "entry s k = Some xs \<Longrightarrow> get k s = Inr xs"
    and add_entry: "entry s k = Some xs \<Longrightarrow> \<exists>s'. add k i s = Inr s' \<and> entry s' = (entry s)(k \<mapsto> xs @ [i])"
    and del_entry: "entry s k = Some xs \<Longrightarrow> spec_del a xs = Inr ys \<Longrightarrow>
      \<exists>s'. del k a s = Inr s' \<and> entry s' = (entry s)(k \<mapsto> ys)"
    and del_nil: "entry s k = Some xs \<Longrightarrow> spec_del a xs = Inl p \<Longrightarrow> del k a s = Inl p"
begin

definition holds :: "string set \<Rightarrow> (string \<Rightarrow> NodeInfo list) \<Rightarrow> 's \<Rightarrow> bool" where
  "holds K f s = (\<forall>k \<in> K. entry s k = Some (f k))"

definition refines_op :: "string set \<Rightarrow> (string \<Rightarrow> NodeInfo list) go \<Rightarrow> 's go \<Rightarrow> bool" where
  "refines_op K spec out = (case spec of Inl p \<Rightarrow> out = Inl p | Inr f \<Rightarrow> \<exists>s'. out = Inr s' \<and> holds K f s')"

lemma do_op_holds: "holds K f s \<Longrightarrow> op_key p \<in> K \<Longrightarrow> refines_op K (spec_op p f) (do_op add del p s)"
proof (cases p)
  case (AddOp k i)
  assume h: "holds K f s" and "op_key p \<in> K"
  then have "entry s k = Some (f k)" using AddOp by (simp add: holds_def)
  from add_entry [OF this, of i] h show ?thesis by (auto simp: AddOp holds_def refines_op_def)
next
  case (DelOp k a)
  assume h: "holds K f s" and "op_key p \<in> K"
  then have e: "entry s k = Some (f k)" using DelOp by (simp add: holds_def)
  show ?thesis
  proof (cases "spec_del a (f k)")
    case (Inl q)
    from del_nil [OF e Inl] Inl show ?thesis by (simp add: DelOp refines_op_def)
  next
    case (Inr ys)
    from del_entry [OF e Inr] Inr h show ?thesis by (auto simp: DelOp holds_def refines_op_def)
  qed
qed

lemma do_ops_refine:
  "holds K f s \<Longrightarrow> op_key ` set ps \<subseteq> K \<Longrightarrow> refines_op K (spec_ops ps f) (do_ops add del ps s)"
proof (induction ps arbitrary: f s)
  case Nil
  then show ?case by (simp add: refines_op_def)
next
  case (Cons p ps)
  from Cons.prems do_op_holds [of K f s p] have r: "refines_op K (spec_op p f) (do_op add del p s)" by simp
  show ?case
  proof (cases "spec_op p f")
    case (Inl q)
    with r show ?thesis by (simp add: refines_op_def)
  next
    case (Inr f1)
    with r obtain s1 where "do_op add del p s = Inr s1" "holds K f1 s1" by (auto simp: refines_op_def)
    with Inr Cons.IH [of f1 s1] Cons.prems(2) show ?thesis by simp
  qed
qed

lemma holds_get: "holds K f s \<Longrightarrow> k \<in> K \<Longrightarrow> get k s = Inr (f k)"
  by (simp add: holds_def get_entry)

end

lemma del_loop_spec:
  "del_loop a pre xs =
     go_bind (spec_del a xs) (\<lambda>ys. Inr (if \<forall>v \<in> set xs. other_node a v then None else Some (pre @ ys)))"
proof (induction xs arbitrary: pre)
  case (Cons v xs)
  then show ?case by (cases v; cases "spec_del a xs") (auto simp: other_node_def)
qed simp

lemma spec_del_none: "\<forall>v \<in> set xs. other_node a v \<Longrightarrow> spec_del a xs = Inr xs"
  by (induction xs) (auto simp: other_node_def split: option.splits)

lemma remove_addr_notin: "a \<notin> node_addr ` set xs \<Longrightarrow> remove_addr a xs = xs"
  by (induction xs) auto

definition ed_entry :: "EtcdDiscovery \<Rightarrow> string \<Rightarrow> NodeInfo list option" where
  "ed_entry e k = map_option en_nodesInfo (map_of (ed_nodes e) k)"

definition zd_entry :: "ZkDiscovery \<Rightarrow> string \<Rightarrow> NodeInfo list option" where
  "zd_entry z k = Option.bind (map_of (zd_nodes z) k) (map_option zn_nodesInfo)"

lemma ed_entry_SomeE: "ed_entry e k = Some xs \<Longrightarrow> \<exists>en. map_of (ed_nodes e) k = Some en \<and> en_nodesInfo en = xs"
  by (auto simp: ed_entry_def)

lemma zd_entry_SomeE: "zd_entry z k = Some xs \<Longrightarrow> \<exists>zn. map_of (zd_nodes z) k = Some (Some zn) \<and> zn_nodesInfo zn = xs"
  by (auto simp: zd_entry_def bind_eq_Some_conv)

lemma ed_entry_set: "ed_entry (e\<lparr>ed_nodes := al_set k n (ed_nodes e)\<rparr>) = (ed_entry e)(k \<mapsto> en_nodesInfo n)"
  by (auto simp: ed_entry_def map_of_al_set)

lemma zd_entry_set: "zd_entry (z\<lparr>zd_nodes := al_set k n (zd_nodes z)\<rparr>) = (zd_entry z)(k := map_option zn_nodesInfo n)"
  by (auto simp: zd_entry_def map_of_al_set)

interpretation etcd: node_store ed_AddNode ed_DelNode ed_GetNodeInfo ed_entry
proof unfold_locales
  fix s k xs
  assume "ed_entry s k = Some xs"
  then show "ed_GetNodeInfo k s = Inr xs" by (auto simp: ed_GetNodeInfo_def dest: ed_entry_SomeE)
next
  fix s k xs i
  assume "ed_entry s k = Some xs"
  then show "\<exists>s'. ed_AddNode k i s = Inr s' \<and> ed_entry s' = (ed_entry s)(k \<mapsto> xs @ [i])"
    by (auto simp: ed_AddNode_def ed_entry_set dest: ed_entry_SomeE)
next
  fix s k xs a ys
  assume h: "ed_entry s k = Some xs" and d: "spec_del a xs = Inr ys"
  then show "\<exists>s'. ed_DelNode k a s = Inr s' \<and> ed_entry s' = (ed_entry s)(k \<mapsto> ys)"
    using ed_entry_SomeE [OF h] spec_del_none [of xs a] by (auto simp: ed_DelNode_def ed_entry_set del_loop_spec fun_upd_idem)
next
  fix s k xs a p
  assume h: "ed_entry s k = Some xs" and d: "spec_del a xs = Inl p"
  then show "ed_DelNode k a s = Inl p" using ed_entry_SomeE [OF h] by (auto simp: ed_DelNode_def del_loop_spec)
qed

interpretation zk: node_store zd_AddNode zd_DelNode zd_GetNodeInfo zd_entry
proof unfold_locales
  fix s k xs
  assume "zd_entry s k = Some xs"
  then show "zd_GetNodeInfo k s = Inr xs" by (auto simp: zd_GetNodeInfo_def dest: zd_entry_SomeE)
next
  fix s k xs i
  assume "zd_entry s k = Some xs"
  then show "\<exists>s'. zd_AddNode k i s = Inr s' \<and> zd_entry s' = (zd_entry s)(k \<mapsto> xs @ [i])"
    by (auto simp: zd_AddNode_def zd_entry_set dest: zd_entry_SomeE)
next
  fix s k xs a ys
  assume h: "zd_entry s k = Some xs" and d: "spec_del a xs = Inr ys"
  then show "\<exists>s'. zd_DelNode k a s = Inr s' \<and> zd_entry s' = (zd_entry s)(k \<mapsto> ys)"
    using zd_entry_SomeE [OF h] spec_del_none [of xs a] by (auto simp: zd_DelNode_def zd_entry_set del_loop_spec fun_upd_idem)
next
  fix s k xs a p
  assume h: "zd_entry s k = Some xs" and d: "spec_del a xs = Inl p"
  then show "zd_DelNode k a s = Inl p" using zd_entry_SomeE [OF h] by (auto simp: zd_DelNode_def del_loop_spec)
qed

lemma ed_Watch_None:
  "ed_Watch None key path e = Inr (None, e') \<Longrightarrow> ed_running e \<Longrightarrow> ed_running e' \<and> ed_entry e' = (ed_entry e)(key \<mapsto> [])"
  by (auto simp: ed_Watch_def ed_entry_set Let_def split: list.splits if_splits)

lemma zd_Watch_None:
  "zd_Watch None key path z = Inr (None, z') \<Longrightarrow> zd_running z \<Longrightarrow> zd_running z' \<and> zd_entry z' = (zd_entry z)(key \<mapsto> [])"
  by (auto simp: zd_Watch_def zd_entry_set Let_def split: list.splits if_splits)

lemma ed_WatchMulti_entries:
  "ed_WatchMulti (\<lambda>_. None) ws e = Inr (None, e') \<Longrightarrow> ed_running e \<Longrightarrow>
   ed_entry e' k = (if k \<in> fst ` set ws then Some [] else ed_entry e k)"
proof (induction ws arbitrary: e)
  case (Cons w ws)
  then obtain e1 where "ed_Watch None (fst w) (snd w) e = Inr (None, e1)" "ed_WatchMulti (\<lambda>_. None) ws e1 = Inr (None, e')"
    by (cases w) (auto split: if_splits)
  with Cons.IH [of e1] ed_Watch_None Cons.prems(2) show ?case by fastforce
qed simp

lemma zd_WatchMulti_entries:
  "zd_WatchMulti (\<lambda>_. None) ws z = Inr (None, z') \<Longrightarrow> zd_running z \<Longrightarrow>
   zd_entry z' k = (if k \<in> fst ` set ws then Some [] else zd_entry z k)"
proof (induction ws arbitrary: z)
  case (Cons w ws)
  then obtain z1 where "zd_Watch None (fst w) (snd w) z = Inr (None, z1)" "zd_WatchMulti (\<lambda>_. None) ws z1 = Inr (None, z')"
    by (cases w) (auto split: if_splits)
  with Cons.IH [of z1] zd_Watch_None Cons.prems(2) show ?case by fastforce
qed simp


definition demo_node :: DefaultNodeInfo where
  "demo_node = \<lparr>ni_Ip = ''10.0.0.1'', ni_Port = 80, ni_Offline = False, ni_Weight = 1\<rparr>"

definition demo_etcd :: EtcdDiscovery where
  "demo_etcd = \<lparr>ed_EtcdConfig = None, ed_EtcdConf = None, ed_EtcdConfPath = [], ed_nodes = [], ed_running = True, ed_started = True, ed_closed = False\<rparr>"

definition demo_zk :: ZkDiscovery where
  "demo_zk = \<lparr>zd_ZkConfig = None, zd_ZkConf = None, zd_ZkConfPath = [], zd_nodes = [], zd_running = True, zd_started = True\<rparr>"

definition demo_ops :: "node_op list" where
  "demo_ops = [AddOp ''svc'' (Some demo_node), AddOp ''svc'' None, DelOp ''svc'' ''10.0.0.1:80'', AddOp ''svc'' (Some demo_node)]"


section \<open>Watching a directory\<close>

text \<open>What etcd's watcher makes of events: deletions are looked up by the whole key of the node.\<close>

primrec event_nodes :: "(string \<Rightarrow> DefaultNodeInfo option) \<Rightarrow> etcd_event \<Rightarrow> DefaultNodeInfo list \<Rightarrow> DefaultNodeInfo list" where
  "event_nodes unm (EventTypePut k v) xs = xs @ [the (unm v)]"
| "event_nodes unm (EventTypeDelete k) xs = remove_addr k xs"

primrec readable :: "(string \<Rightarrow> DefaultNodeInfo option) \<Rightarrow> etcd_event \<Rightarrow> bool" where
  "readable unm (EventTypePut k v) = (unm v \<noteq> None)"
| "readable unm (EventTypeDelete k) = True"

lemma ed_event_run:
  assumes "readable unm ev" and "ed_entry e key = Some (map Some xs)"
  shows "\<exists>e'. ed_event unm key ev e = Inr e' \<and> ed_entry e' key = Some (map Some (event_nodes unm ev xs))"
proof (cases ev)
  case (EventTypePut k v)
  then show ?thesis
    using assms(1) etcd.add_entry [OF assms(2), of "unm v"] by (auto simp: ed_event_def unMsgNodeInfo_def)
next
  case (EventTypeDelete k)
  then show ?thesis using etcd.del_entry [OF assms(2) spec_del_plain, of k] by (auto simp: ed_event_def)
qed

lemma ed_events_run:
  "\<forall>ev \<in> set evs. readable unm ev \<Longrightarrow> ed_entry e key = Some (map Some xs) \<Longrightarrow>
   \<exists>e'. ed_events unm key evs e = (None, e') \<and> ed_entry e' key = Some (map Some (fold (event_nodes unm) evs xs))"
proof (induction evs arbitrary: e xs)
  case (Cons ev evs)
  from ed_event_run [OF _ Cons.prems(2), of unm ev] Cons.prems(1) obtain e1 where
    "ed_event unm key ev e = Inr e1" "ed_entry e1 key = Some (map Some (event_nodes unm ev xs))" by auto
  with Cons.IH [of e1] Cons.prems(1) show ?case by auto
qed simp

fun inputs_events :: "etcd_input list \<Rightarrow> etcd_event list" where
  "inputs_events [] = []"
| "inputs_events (Stopped # ins) = []"
| "inputs_events (Events evs # ins) = evs @ inputs_events ins"

lemma ed_watch_loop_run:
  "\<forall>ev \<in> set (inputs_events ins). readable unm ev \<Longrightarrow> ed_entry e key = Some (map Some xs) \<Longrightarrow>
   \<exists>e'. ed_watch_loop unm key ins e = (None, e') \<and> ed_entry e' key = Some (map Some (fold (event_nodes unm) (inputs_events ins) xs))"
proof (induction ins arbitrary: e xs rule: inputs_events.induct)
  case (2 ins)
  then show ?case by (auto simp: ed_entry_def)
next
  case (3 evs ins)
  from ed_events_run [OF _ 3(3), of evs unm] 3(2) obtain e1 where
    "ed_events unm key evs e = (None, e1)" "ed_entry e1 key = Some (map Some (fold (event_nodes unm) evs xs))" by auto
  with 3(1) [of e1] 3(2) show ?case by auto
qed simp

text \<open>The goroutine of a watch that has just started.\<close>

lemma ed_watchNode_run:
  assumes "ed_Watch None key path e = Inr (None, e0)" and "ed_running e"
    and "\<forall>kv \<in> set kvs. unm (snd kv) \<noteq> None" and "\<forall>ev \<in> set (inputs_events ins). readable unm ev"
  shows "\<exists>e'. ed_watchNode unm (Some kvs) ins key e0 = (None, e') \<and>
    ed_GetNodeInfo key e' = Inr (map Some (fold (event_nodes unm) (map (\<lambda>(k, v). EventTypePut k v) kvs @ inputs_events ins) []))"
proof -
  let ?puts = "map (\<lambda>(k, v). EventTypePut k v) kvs"
  obtain node where node: "map_of (ed_nodes e0) key = Some node" "en_key node = key" "en_nodesInfo node = []"
    using assms(1,2) by (auto simp: ed_Watch_def map_of_al_set Let_def split: list.splits)
  then have "ed_entry e0 key = Some (map Some [])" by (simp add: ed_entry_def)
  moreover have "\<forall>ev \<in> set ?puts. readable unm ev" using assms(3) by auto
  ultimately obtain e1 where e1: "ed_events unm key ?puts e0 = (None, e1)" "ed_entry e1 key = Some (map Some (fold (event_nodes unm) ?puts []))"
    using ed_events_run [of ?puts unm e0 key "[]"] by auto
  from ed_watch_loop_run [OF assms(4) e1(2)] obtain e2 where e2: "ed_watch_loop unm key ins e1 = (None, e2)"
      "ed_entry e2 key = Some (map Some (fold (event_nodes unm) (inputs_events ins) (fold (event_nodes unm) ?puts [])))" by auto
  then show ?thesis using node e1(1) etcd.get_entry [OF e2(2)] by (simp add: ed_watchNode_def)
qed

text \<open>A key that begins with a slash is the address of no node whose ip does not.\<close>

definition slash_key :: "etcd_event \<Rightarrow> bool" where
  "slash_key ev = (case ev of EventTypePut k v \<Rightarrow> True | EventTypeDelete k \<Rightarrow> HasPrefix k ''/'')"

definition plain_ip :: "DefaultNodeInfo \<Rightarrow> bool" where
  "plain_ip i = (\<not> HasPrefix (ni_Ip i) ''/'')"

lemma node_addr_slash: "plain_ip i \<Longrightarrow> HasPrefix k ''/'' \<Longrightarrow> node_addr i \<noteq> k"
  by (cases "ni_Ip i") (auto simp: plain_ip_def node_addr_def HasPrefix_def)

definition puts :: "(string \<Rightarrow> DefaultNodeInfo option) \<Rightarrow> etcd_event list \<Rightarrow> DefaultNodeInfo list" where
  "puts unm evs = concat (map (\<lambda>ev. case ev of EventTypePut k v \<Rightarrow> [the (unm v)] | EventTypeDelete k \<Rightarrow> []) evs)"

lemma fold_event_nodes_keep:
  "\<forall>ev \<in> set evs. slash_key ev \<Longrightarrow> \<forall>i \<in> set xs \<union> set (puts unm evs). plain_ip i \<Longrightarrow>
   fold (event_nodes unm) evs xs = xs @ puts unm evs"
proof (induction evs arbitrary: xs)
  case (Cons ev evs)
  show ?case
  proof (cases ev)
    case (EventTypePut k v)
    then show ?thesis using Cons.IH [of "xs @ [the (unm v)]"] Cons.prems by (simp add: puts_def)
  next
    case (EventTypeDelete k)
    then have "k \<notin> node_addr ` set xs" using Cons.prems node_addr_slash by (auto simp: slash_key_def)
    then show ?thesis using EventTypeDelete Cons.IH [of xs] Cons.prems by (simp add: puts_def remove_addr_notin)
  qed
qed (simp add: puts_def)

lemma zd_fill_run:
  "\<forall>c \<in> set cs. get c \<noteq> None \<Longrightarrow> zd_entry z key = Some xs \<Longrightarrow>
   \<exists>z'. zd_fill unm get key cs z = (Inr (), z') \<and> zd_entry z' key = Some (xs @ map (\<lambda>c. unMsgNodeInfo unm (the (get c))) cs)"
proof (induction cs arbitrary: z xs)
  case (Cons c cs)
  then obtain d where d: "get c = Some d" by auto
  from zk.add_entry [OF Cons.prems(2), of "unMsgNodeInfo unm d"] obtain z1 where
    "zd_AddNode key (unMsgNodeInfo unm d) z = Inr z1" "zd_entry z1 key = Some (xs @ [unMsgNodeInfo unm d])" by auto
  with Cons.IH [of z1 "xs @ [unMsgNodeInfo unm d]"] Cons.prems(1) d show ?case by auto
qed simp

text \<open>Once the nil interface is stored under a key it stays there.\<close>

lemma zd_fill_nil: "map_of (zd_nodes z) key = Some None \<Longrightarrow> map_of (zd_nodes (snd (zd_fill unm get k cs z))) key = Some None"
proof (induction cs arbitrary: z)
  case (Cons c cs)
  have "zd_AddNode k i z = Inr z1 \<Longrightarrow> map_of (zd_nodes z1) key = Some None" for i z1
    using Cons.prems by (auto simp: zd_AddNode_def map_of_al_set split: option.splits)
  then show ?case using Cons by (auto split: option.split sum.split)
qed simp

lemma zd_watch_loop_nil:
  "map_of (zd_nodes z) key = Some None \<Longrightarrow> zn_key node = key \<Longrightarrow>
   map_of (zd_nodes (snd (zd_watch_loop unm node ins z))) key = Some None"
proof (induction unm node ins z rule: zd_watch_loop.induct)
  case (5 unm node l ins z)
  show ?case
  proof (cases "fst l")
    case None
    with 5 show ?thesis by simp
  next
    case (Some children)
    let ?z = "z\<lparr>zd_nodes := al_set (zn_key node) None (zd_nodes z)\<rparr>"
    have fill: "map_of (zd_nodes (snd (zd_fill unm (snd l) (zn_path node) children ?z))) key = Some None"
      by (rule zd_fill_nil) (simp add: map_of_al_set 5)
    then show ?thesis
      using Some 5 by (cases "zd_fill unm (snd l) (zn_path node) children ?z") (auto split: sum.split)
  qed
qed auto

lemma zd_watch_loop_changed:
  "set pre \<subseteq> {OtherEvent} \<Longrightarrow> fst l \<noteq> None \<Longrightarrow>
   map_of (zd_nodes (snd (zd_watch_loop unm node (pre @ NodeChildrenChanged l # post) z))) (zn_key node) = Some None"
proof (induction pre)
  case Nil
  then obtain children where l: "fst l = Some children" by auto
  let ?z = "z\<lparr>zd_nodes := al_set (zn_key node) None (zd_nodes z)\<rparr>"
  have "map_of (zd_nodes (snd (zd_fill unm (snd l) (zn_path node) children ?z))) (zn_key node) = Some None"
    by (rule zd_fill_nil) (simp add: map_of_al_set)
  then show ?case
    using l zd_watch_loop_nil [of _ "zn_key node" node unm post]
    by (cases "zd_fill unm (snd l) (zn_path node) children ?z") (auto split: sum.split)
qed auto

lemma zd_close_nodes_nil: "(k, None) \<in> set ns \<Longrightarrow> \<exists>p. zd_close_nodes ns = Inl p"
proof (induction ns)
  case (Cons n ns)
  show ?case
  proof (cases "zd_close_nodes (n # ns)")
    case (Inr ms)
    then obtain r where "zd_close_nodes ns = Inr r" "snd n \<noteq> None" by (cases n) (auto split: option.splits)
    with Cons show ?thesis by (cases n) auto
  qed simp
qed simp

lemma zd_watch_loop_others: "set ins \<subseteq> {OtherEvent} \<Longrightarrow> zd_watch_loop unm node ins z = (None, z)"
  by (induction ins) auto

text \<open>
  C24. The zookeeper watcher works until the first change: it lists the nodes found when the watch starts, each
  once and in order; after the first notification that the children changed, the entry of the key holds nil
  for ever, and from then on \<open>GetNodeInfo\<close> and \<open>Close\<close> panic in the application.
\<close>

theorem zk_watch_until_change:
  assumes "zd_Watch None key path z = Inr (None, z0)" and "zd_running z" and "map_of (zd_nodes z0) key = Some (Some node)"
    and "\<forall>c \<in> set cs. get c \<noteq> None"
  shows "(set ins \<subseteq> {OtherEvent} \<longrightarrow> zd_GetNodeInfo key (snd (zd_watchNode unm (Some cs, get) ins node z0)) =
            Inr (map (\<lambda>c. unMsgNodeInfo unm (the (get c))) cs)) \<and>
         (\<forall>pre l post. ins = pre @ NodeChildrenChanged l # post \<longrightarrow> set pre \<subseteq> {OtherEvent} \<longrightarrow> fst l \<noteq> None \<longrightarrow>
            zd_GetNodeInfo key (snd (zd_watchNode unm (Some cs, get) ins node z0)) = Inl TypeAssertion \<and>
            (\<exists>p. zd_Close (snd (zd_watchNode unm (Some cs, get) ins node z0)) = Inl p))"
proof -
  have node: "zn_key node = key" "zn_nodesInfo node = []"
    using assms(1-3) by (auto simp: zd_Watch_def map_of_al_set Let_def split: list.splits)
  have "zd_entry z0 key = Some []" using assms(3) node by (simp add: zd_entry_def)
  from zd_fill_run [OF assms(4) this, of unm] obtain z1 where
    z1: "zd_fill unm get key cs z0 = (Inr (), z1)" "zd_entry z1 key = Some (map (\<lambda>c. unMsgNodeInfo unm (the (get c))) cs)" by auto
  have run: "zd_watchNode unm (Some cs, get) ins node z0 = zd_watch_loop unm node ins z1"
    using assms(3) node z1(1) by (simp add: zd_watchNode_def)
  have "zd_GetNodeInfo key (snd (zd_watchNode unm (Some cs, get) ins node z0)) = Inl TypeAssertion \<and>
            (\<exists>p. zd_Close (snd (zd_watchNode unm (Some cs, get) ins node z0)) = Inl p)"
    if "ins = pre @ NodeChildrenChanged l # post" "set pre \<subseteq> {OtherEvent}" "fst l \<noteq> None" for pre l post
  proof -
    let ?z = "snd (zd_watchNode unm (Some cs, get) ins node z0)"
    have nil: "map_of (zd_nodes ?z) key = Some None"
      using zd_watch_loop_changed [OF that(2,3), of unm node post z1] node unfolding run by (simp add: that(1))
    from zd_close_nodes_nil [OF map_of_SomeD [OF nil]] nil show ?thesis by (auto simp: zd_GetNodeInfo_def zd_Close_def)
  qed
  moreover have "set ins \<subseteq> {OtherEvent} \<longrightarrow> zd_GetNodeInfo key (snd (zd_watchNode unm (Some cs, get) ins node z0)) =
      Inr (map (\<lambda>c. unMsgNodeInfo unm (the (get c))) cs)"
    using zd_watch_loop_others zk.get_entry [OF z1(2)] by (simp add: run)
  ultimately show ?thesis by blast
qed

theorem zk_watch_until_change_witness:
  "\<exists>z0 node. zd_Watch None ''svc'' ''/a'' demo_zk = Inr (None, z0) \<and> map_of (zd_nodes z0) ''svc'' = Some (Some node) \<and>
     zd_GetNodeInfo ''svc'' (snd (zd_watchNode (\<lambda>_. Some demo_node) (Some [''n1''], Some) [OtherEvent] node z0)) = Inr [Some demo_node] \<and>
     zd_GetNodeInfo ''svc'' (snd (zd_watchNode (\<lambda>_. Some demo_node) (Some [''n1''], Some) [NodeChildrenChanged (Some [], Some)] node z0))
       = Inl TypeAssertion"
proof -
  obtain z0 node where w: "zd_Watch None ''svc'' ''/a'' demo_zk = Inr (None, z0)" "map_of (zd_nodes z0) ''svc'' = Some (Some node)"
    by (simp add: zd_Watch_def demo_zk_def)
  have r: "zd_running demo_zk" by (simp add: demo_zk_def)
  have g: "\<forall>c \<in> set [''n1'']. Some c \<noteq> None" by simp
  note t = zk_watch_until_change [OF w(1) r w(2) g]
  from t [of "[OtherEvent]" "\<lambda>_. Some demo_node"] t [of "[NodeChildrenChanged (Some [], Some)]" "\<lambda>_. Some demo_node"] w
  show ?thesis by (fastforce simp: unMsgNodeInfo_def)
qed

end
