(* ===== verification/Register.thy ===== *)
theory Register
  imports Discovery
begin

text \<open>
  Service registration (\<open>service/register\<close>): the path and data a service publishes, registration with a lease
  in etcd and with an ephemeral node in zookeeper, and what discovery makes of it.

  \<open>msh\<close> is \<open>json.Marshal\<close> of a node.  The answers of the servers are arguments; the calls a client makes are
  logged.
\<close>

section \<open>Registration with etcd\<close>

record RegEtcdConfig =
  rc_Host :: "string list"
  rc_Root :: string
  rc_Group :: string
  rc_Service :: string
  rc_NodeInfo :: DefaultNodeInfo
  rc_HeartBeat :: uint64
  rc_Environ :: string
  rc_TlsConfig :: "string option"

datatype etcd_call = Grant uint64 | Put string string uint64 | KeepAlive uint64 | Revoke uint64 | CloseClient

record EtcdRegister =
  er_EtcdConfig :: "RegEtcdConfig option"
  er_EtcdConf :: "ini option"
  er_EtcdConfPath :: string
  er_client :: bool
  er_leaseID :: uint64
  er_exitChan :: chan_state
  er_started :: bool
  er_closed :: bool
  er_calls :: "etcd_call list"

definition DefaultHeartBeat :: uint64 where "DefaultHeartBeat = 10"

definition DefaultRetryTimes :: nat where "DefaultRetryTimes = 3"

text \<open>\<open>/root/group/service/environ/pool/ip:port\<close>.\<close>

definition pool_path :: "string \<Rightarrow> string \<Rightarrow> string \<Rightarrow> string \<Rightarrow> DefaultNodeInfo \<Rightarrow> string" where
  "pool_path root grp service environ info =
     ''/'' @ root @ ''/'' @ grp @ ''/'' @ service @ ''/'' @ environ @ ''/pool/'' @ node_addr info"

definition etcd_path :: "RegEtcdConfig \<Rightarrow> string" where
  "etcd_path c = pool_path (rc_Root c) (rc_Group c) (rc_Service c) (rc_Environ c) (rc_NodeInfo c)"

text \<open>
  The answers of etcd: \<open>Grant\<close> gives a lease or an error, the tries of \<open>Put\<close> succeed or not, \<open>KeepAlive\<close>
  and \<open>Revoke\<close> may fail.  \<open>ea_new\<close> says whether \<open>clientv3.New\<close> returned a client; its error is dropped.
\<close>

record etcd_answers =
  ea_new :: bool
  ea_grant :: "string + uint64"
  ea_put :: "nat \<Rightarrow> string option"
  ea_keepAlive :: "string option"
  ea_revoke :: "string option"

definition er_log :: "etcd_call \<Rightarrow> EtcdRegister \<Rightarrow> EtcdRegister" where
  "er_log c e = e\<lparr>er_calls := er_calls e @ [c]\<rparr>"

text \<open>The loop of tries; after the last one the lease may not have been recorded.\<close>

fun put_loop :: "(nat \<Rightarrow> string option) \<Rightarrow> string \<Rightarrow> string \<Rightarrow> uint64 \<Rightarrow> nat \<Rightarrow> nat \<Rightarrow> EtcdRegister \<Rightarrow> EtcdRegister" where
  "put_loop ans node data lease i 0 e = e"
| "put_loop ans node data lease i (Suc n) e =
     (let e = er_log (Put node data lease) e
      in case ans i of
           Some err \<Rightarrow> put_loop ans node data lease (Suc i) n e
         | None \<Rightarrow> e\<lparr>er_leaseID := lease\<rparr>)"

definition er_register :: "(DefaultNodeInfo \<Rightarrow> string) \<Rightarrow> etcd_answers \<Rightarrow> EtcdRegister \<Rightarrow> (string option \<times> EtcdRegister) go" where
  "er_register msh A e =
     (case er_EtcdConfig e of
        None \<Rightarrow> Inl NilDeref
      | Some c \<Rightarrow>
          if \<not> er_client e then Inl NilDeref
          else
            (let node = etcd_path c;
                 data = msh (rc_NodeInfo c);
                 e = er_log (Grant (rc_HeartBeat c)) e
             in case ea_grant A of
                  Inl err \<Rightarrow> Inr (Some err, e)
                | Inr lease \<Rightarrow>
                    (let e = put_loop (ea_put A) node data lease 0 DefaultRetryTimes e
                     in Inr (ea_keepAlive A, er_log (KeepAlive lease) e))))"

definition er_initWithEtcdConfig :: "(DefaultNodeInfo \<Rightarrow> string) \<Rightarrow> etcd_answers \<Rightarrow> RegEtcdConfig \<Rightarrow> EtcdRegister \<Rightarrow> (string option \<times> EtcdRegister) go" where
  "er_initWithEtcdConfig msh A c e =
     er_register msh A (e\<lparr>er_EtcdConfig := Some c, er_exitChan := ChOpen, er_client := ea_new A\<rparr>)"

definition er_initEtcd ::
    "(DefaultNodeInfo \<Rightarrow> string) \<Rightarrow> etcd_answers \<Rightarrow> (string \<Rightarrow> string \<Rightarrow> string \<Rightarrow> string + string) \<Rightarrow> string \<Rightarrow> ini \<Rightarrow> EtcdRegister \<Rightarrow>
     (string option \<times> EtcdRegister) go" where
  "er_initEtcd msh A tls localIP f e =
     (let heartBeat = ini_Uint64 f ''DisRes'' ''heartBeat'';
          config = \<lparr>rc_Host = ini_Strings f ''DisRes'' ''etcdHost'',
                    rc_Root = strings_TrimRight (ini_String f ''DisRes'' ''root'') ''/'',
                    rc_Group = ini_String f ''DisRes'' ''group'', rc_Service = ini_String f ''Server'' ''serverName'',
                    rc_NodeInfo = \<lparr>ni_Ip = localIP, ni_Port = ini_Int f ''DisRes'' ''regPort'', ni_Offline = False,
                                   ni_Weight = ini_Uint64 f ''DisRes'' ''weight''\<rparr>,
                    rc_HeartBeat = (if heartBeat = 0 then DefaultHeartBeat else heartBeat),
                    rc_Environ = ini_String f ''DisRes'' ''env'', rc_TlsConfig = None\<rparr>;
          cert = ini_String f ''DisRes'' ''cert'';
          key = ini_String f ''DisRes'' ''key'';
          ca = ini_String f ''DisRes'' ''ca''
      in if cert \<noteq> [] \<and> key \<noteq> [] \<and> ca \<noteq> []
         then (case tls cert key ca of
                 Inl err \<Rightarrow> Inr (Some (''load tls conf from file fail,, err='' @ err), e)
               | Inr t \<Rightarrow> er_initWithEtcdConfig msh A (config\<lparr>rc_TlsConfig := Some t\<rparr>) e)
         else er_initWithEtcdConfig msh A config e)"

definition er_initObjForEtcd ::
    "(DefaultNodeInfo \<Rightarrow> string) \<Rightarrow> etcd_answers \<Rightarrow> (string \<Rightarrow> string \<Rightarrow> string \<Rightarrow> string + string) \<Rightarrow> string \<Rightarrow>
     (string \<Rightarrow> string + ini) \<Rightarrow> string \<Rightarrow> EtcdRegister \<Rightarrow> (string option \<times> EtcdRegister) go" where
  "er_initObjForEtcd msh A tls localIP load filePath e =
     (if filePath = [] then Inr (Some ''etcdConf not set'', e)
      else if \<not> HasSuffix filePath ''.ini'' then Inr (Some ''etcdConf not an ini file'', e)
      else (case load filePath of Inl err \<Rightarrow> Inr (Some err, e) | Inr f \<Rightarrow> er_initEtcd msh A tls localIP f e))"

definition er_Start ::
    "(DefaultNodeInfo \<Rightarrow> string) \<Rightarrow> etcd_answers \<Rightarrow> (string \<Rightarrow> string \<Rightarrow> string \<Rightarrow> string + string) \<Rightarrow> string \<Rightarrow>
     (string \<Rightarrow> string + ini) \<Rightarrow> EtcdRegister \<Rightarrow> (string option \<times> EtcdRegister) go" where
  "er_Start msh A tls localIP load e0 =
     (if er_started e0 then Inr (None, e0)
      else (let e = e0\<lparr>er_started := True\<rparr>
            in case er_EtcdConfig e of
                 Some c \<Rightarrow> er_initWithEtcdConfig msh A c e
               | None \<Rightarrow>
                   (case er_EtcdConf e of
                      Some f \<Rightarrow> er_initEtcd msh A tls localIP f e
                    | None \<Rightarrow>
                        (let e = (if er_EtcdConfPath e = [] then e\<lparr>er_EtcdConfPath := ''conf/conf.ini''\<rparr> else e)
                         in er_initObjForEtcd msh A tls localIP load (er_EtcdConfPath e) e))))"

definition er_revoke :: "etcd_answers \<Rightarrow> EtcdRegister \<Rightarrow> (string option \<times> EtcdRegister) go" where
  "er_revoke A e = (if \<not> er_client e then Inl NilDeref else Inr (ea_revoke A, er_log (Revoke (er_leaseID e)) e))"

definition er_Close :: "etcd_answers \<Rightarrow> EtcdRegister \<Rightarrow> EtcdRegister go" where
  "er_Close A e =
     (if er_closed e then Inr e
      else go_bind (chan_close (er_exitChan e)) (\<lambda>ch.
        let e = e\<lparr>er_closed := True, er_exitChan := ch\<rparr>
        in if \<not> er_client e then Inr e
           else go_bind (er_revoke A e) (\<lambda>(err, e). Inr ((er_log CloseClient e)\<lparr>er_client := False\<rparr>))))"

definition er_SetOffline :: "bool \<Rightarrow> EtcdRegister \<Rightarrow> EtcdRegister go" where
  "er_SetOffline offline e =
     (case er_EtcdConfig e of
        None \<Rightarrow> Inl NilDeref
      | Some c \<Rightarrow> Inr (e\<lparr>er_EtcdConfig := Some (c\<lparr>rc_NodeInfo := rc_NodeInfo c\<lparr>ni_Offline := offline\<rparr>\<rparr>)\<rparr>))"

definition er_SetRootNode :: "string \<Rightarrow> EtcdRegister \<Rightarrow> (string option \<times> EtcdRegister) go" where
  "er_SetRootNode root e =
     (case er_EtcdConfig e of
        None \<Rightarrow> Inl NilDeref
      | Some c \<Rightarrow>
          (let r = strings_TrimRight root ''/'';
               e = e\<lparr>er_EtcdConfig := Some (c\<lparr>rc_Root := r\<rparr>)\<rparr>
           in Inr (if r = [] then Some (''invalid root node '' @ root) else None, e)))"

definition er_GetRootNode :: "EtcdRegister \<Rightarrow> string go" where
  "er_GetRootNode e = (case er_EtcdConfig e of None \<Rightarrow> Inl NilDeref | Some c \<Rightarrow> Inr (rc_Root c))"

text \<open>A \<open>time.Duration\<close>, in nanoseconds, becomes the lease time, in seconds.\<close>

definition er_SetHeartBeat :: "int64 \<Rightarrow> EtcdRegister \<Rightarrow> EtcdRegister go" where
  "er_SetHeartBeat heartBeat e =
     (case er_EtcdConfig e of
        None \<Rightarrow> Inl NilDeref
      | Some c \<Rightarrow> Inr (e\<lparr>er_EtcdConfig := Some (c\<lparr>rc_HeartBeat := heartBeat\<rparr>)\<rparr>))"

section \<open>Registration with zookeeper\<close>

record RegZkConfig =
  rz_Host :: "string list"
  rz_Root :: string
  rz_Group :: string
  rz_Service :: string
  rz_NodeInfo :: DefaultNodeInfo
  rz_Environ :: string

datatype zk_call = Exists string | CreatePersistent string string | CreateEphemeral string string

text \<open>\<open>zr_create\<close> answers the creation of a path with the created path or an error.\<close>

record zk_answers =
  za_connect :: "string option"
  za_exists :: "string + bool"
  za_create :: "string \<Rightarrow> string + string"

record ZkRegister =
  zr_ZkConfig :: "RegZkConfig option"
  zr_ZkConf :: "ini option"
  zr_ZkConfPath :: string
  zr_client :: bool
  zr_started :: bool
  zr_calls :: "zk_call list"

definition zr_log :: "zk_call \<Rightarrow> ZkRegister \<Rightarrow> ZkRegister" where
  "zr_log c z = z\<lparr>zr_calls := zr_calls z @ [c]\<rparr>"

fun create_paths :: "zk_answers \<Rightarrow> string list \<Rightarrow> ZkRegister \<Rightarrow> string option \<times> ZkRegister" where
  "create_paths A [] z = (None, z)"
| "create_paths A (v # vs) z =
     (let z = zr_log (CreatePersistent v []) z
      in case za_create A v of
           Inl err \<Rightarrow> (Some err, z)
         | Inr path \<Rightarrow> if v \<noteq> path then (Some ''rootPath is equal path'', z) else create_paths A vs z)"

definition service_path :: "RegZkConfig \<Rightarrow> string" where
  "service_path c = ''/'' @ rz_Root c @ ''/'' @ rz_Group c @ ''/'' @ rz_Service c"

definition isExistNode :: "zk_answers \<Rightarrow> RegZkConfig \<Rightarrow> ZkRegister \<Rightarrow> string option \<times> ZkRegister" where
  "isExistNode A c z =
     (let node = service_path c;
          z = zr_log (Exists node) z
      in case za_exists A of
           Inl err \<Rightarrow> (Some err, z)
         | Inr isExist \<Rightarrow>
             if isExist then (None, z)
             else (let p1 = node @ ''/'' @ rz_Environ c; p2 = p1 @ ''/pool'' in create_paths A [node, p1, p2] z))"

definition zr_run :: "(DefaultNodeInfo \<Rightarrow> string) \<Rightarrow> zk_answers \<Rightarrow> RegZkConfig \<Rightarrow> ZkRegister \<Rightarrow> string option \<times> ZkRegister" where
  "zr_run msh A c z =
     (let p = pool_path (rz_Root c) (rz_Group c) (rz_Service c) (rz_Environ c) (rz_NodeInfo c);
          z = zr_log (CreateEphemeral p (msh (rz_NodeInfo c))) z
      in case za_create A p of Inl err \<Rightarrow> (Some err, z) | Inr path \<Rightarrow> (None, z))"

definition zr_initWithZkConfig :: "(DefaultNodeInfo \<Rightarrow> string) \<Rightarrow> zk_answers \<Rightarrow> RegZkConfig \<Rightarrow> ZkRegister \<Rightarrow> string option \<times> ZkRegister" where
  "zr_initWithZkConfig msh A c z =
     (case za_connect A of
        Some err \<Rightarrow> (Some err, z)
      | None \<Rightarrow>
          (let z = z\<lparr>zr_ZkConfig := Some c, zr_client := True\<rparr>
           in case isExistNode A c z of
                (Some err, z) \<Rightarrow> (Some err, z)
              | (None, z) \<Rightarrow> zr_run msh A c z))"

definition zr_initZk :: "(DefaultNodeInfo \<Rightarrow> string) \<Rightarrow> zk_answers \<Rightarrow> string \<Rightarrow> ini \<Rightarrow> ZkRegister \<Rightarrow> string option \<times> ZkRegister" where
  "zr_initZk msh A localIP f z =
     zr_initWithZkConfig msh A
       \<lparr>rz_Host = ini_Strings f ''DisRes'' ''zkHost'', rz_Root = strings_TrimRight (ini_String f ''DisRes'' ''root'') ''/'',
        rz_Group = ini_String f ''DisRes'' ''group'', rz_Service = ini_String f ''Server'' ''serverName'',
        rz_NodeInfo = \<lparr>ni_Ip = localIP, ni_Port = ini_Int f ''DisRes'' ''regPort'', ni_Offline = False,
                       ni_Weight = ini_Uint64 f ''DisRes'' ''weight''\<rparr>,
        rz_Environ = ini_String f ''DisRes'' ''env''\<rparr> z"

definition zr_initObjForZk :: "(DefaultNodeInfo \<Rightarrow> string) \<Rightarrow> zk_answers \<Rightarrow> string \<Rightarrow> (string \<Rightarrow> string + ini) \<Rightarrow> string \<Rightarrow> ZkRegister \<Rightarrow> string option \<times> ZkRegister" where
  "zr_initObjForZk msh A localIP load filePath z =
     (if filePath = [] then (Some ''zkConf not set'', z)
      else if \<not> HasSuffix filePath ''.ini'' then (Some ''zkConf not an ini file'', z)
      else (case load filePath of Inl err \<Rightarrow> (Some err, z) | Inr f \<Rightarrow> zr_initZk msh A localIP f z))"

definition zr_Start :: "(DefaultNodeInfo \<Rightarrow> string) \<Rightarrow> zk_answers \<Rightarrow> string \<Rightarrow> (string \<Rightarrow> string + ini) \<Rightarrow> ZkRegister \<Rightarrow> string option \<times> ZkRegister" where
  "zr_Start msh A localIP load z0 =
     (if zr_started z0 then (None, z0)
      else (let z = z0\<lparr>zr_started := True\<rparr>
            in case zr_ZkConfig z of
                 Some c \<Rightarrow> zr_initWithZkConfig msh A c z
               | None \<Rightarrow>
                   (case zr_ZkConf z of
                      Some f \<Rightarrow> zr_initZk msh A localIP f z
                    | None \<Rightarrow>
                        (let z = (if zr_ZkConfPath z = [] then z\<lparr>zr_ZkConfPath := ''conf/conf.ini''\<rparr> else z)
                         in zr_initObjForZk msh A localIP load (zr_ZkConfPath z) z))))"

definition zr_Close :: "ZkRegister \<Rightarrow> ZkRegister" where
  "zr_Close z = (if zr_client z then z\<lparr>zr_client := False\<rparr> else z)"

definition zr_SetOffline :: "bool \<Rightarrow> ZkRegister \<Rightarrow> ZkRegister go" where
  "zr_SetOffline offline z =
     (case zr_ZkConfig z of
        None \<Rightarrow> Inl NilDeref
      | Some c \<Rightarrow> Inr (z\<lparr>zr_ZkConfig := Some (c\<lparr>rz_NodeInfo := rz_NodeInfo c\<lparr>ni_Offline := offline\<rparr>\<rparr>)\<rparr>))"

definition zr_SetRootNode :: "string \<Rightarrow> ZkRegister \<Rightarrow> (string option \<times> ZkRegister) go" where
  "zr_SetRootNode root z =
     (case zr_ZkConfig z of
        None \<Rightarrow> Inl NilDeref
      | Some c \<Rightarrow>
          (let r = strings_TrimRight root ''/'';
               z = z\<lparr>zr_ZkConfig := Some (c\<lparr>rz_Root := r\<rparr>)\<rparr>
           in Inr (if r = [] then Some (''invalid root node '' @ root) else None, z)))"

definition zr_GetRootNode :: "ZkRegister \<Rightarrow> string go" where
  "zr_GetRootNode z = (case zr_ZkConfig z of None \<Rightarrow> Inl NilDeref | Some c \<Rightarrow> Inr (rz_Root c))"

section \<open>Registration and discovery\<close>

text \<open>What etcd reports to watchers when a service is registered (\<open>True\<close>) or its lease ends.\<close>

definition registry_event :: "(DefaultNodeInfo \<Rightarrow> string) \<Rightarrow> bool \<times> RegEtcdConfig \<Rightarrow> etcd_event" where
  "registry_event msh uc =
     (if fst uc then EventTypePut (etcd_path (snd uc)) (msh (rc_NodeInfo (snd uc))) else EventTypeDelete (etcd_path (snd uc)))"

lemma etcd_path_slash: "HasPrefix (etcd_path c) ''/''"
  by (simp add: etcd_path_def pool_path_def HasPrefix_def)

lemma puts_registry:
  "\<forall>uc \<in> set hist. unm (msh (rc_NodeInfo (snd uc))) = Some (rc_NodeInfo (snd uc)) \<Longrightarrow>
   puts unm (map (registry_event msh) hist) = map (\<lambda>uc. rc_NodeInfo (snd uc)) (filter fst hist)"
  by (induction hist) (auto simp: puts_def registry_event_def)

lemma registry_event_ok:
  "unm (msh (rc_NodeInfo (snd uc))) = Some (rc_NodeInfo (snd uc)) \<Longrightarrow> readable unm (registry_event msh uc)"
  "slash_key (registry_event msh uc)"
  by (auto simp: registry_event_def slash_key_def etcd_path_slash)

text \<open>
  C14. Services registered in etcd are discovered and never forgotten.  A watcher that starts when the services
  of \<open>old\<close> are registered, and then sees services come and go, never panics, and \<open>GetNodeInfo\<close> returns the node of
  every registration it has seen, in order; a registration that ends takes nothing away, because its key is the
  whole path while \<open>DelNode\<close> compares it with \<open>ip:port\<close>.
\<close>

theorem etcd_discovery_never_forgets:
  assumes json: "\<forall>c \<in> set old \<union> snd ` set hist. unm (msh (rc_NodeInfo c)) = Some (rc_NodeInfo c)"
    and ips: "\<forall>c \<in> set old \<union> snd ` set hist. plain_ip (rc_NodeInfo c)"
    and watch: "ed_running e" "ed_Watch None key path e = Inr (None, e0)"
    and events: "inputs_events ins = map (registry_event msh) hist"
  shows "\<exists>e'. ed_watchNode unm (Some (map (\<lambda>c. (etcd_path c, msh (rc_NodeInfo c))) old)) ins key e0 = (None, e') \<and>
    ed_GetNodeInfo key e' = Inr (map (\<lambda>c. Some (rc_NodeInfo c)) (old @ map snd (filter fst hist)))"
proof -
  let ?kvs = "map (\<lambda>c. (etcd_path c, msh (rc_NodeInfo c))) old"
  let ?evs = "map (registry_event msh) (map (Pair True) old @ hist)"
  have evs: "map (\<lambda>(k, v). EventTypePut k v) ?kvs @ inputs_events ins = ?evs"
    by (simp add: events registry_event_def)
  have "\<forall>uc \<in> set (map (Pair True) old @ hist). unm (msh (rc_NodeInfo (snd uc))) = Some (rc_NodeInfo (snd uc))"
    using json by auto
  then have nodes: "puts unm ?evs = map rc_NodeInfo (old @ map snd (filter fst hist))"
    using puts_registry [of "map (Pair True) old @ hist" unm msh] by (simp add: filter_map comp_def)
  have "\<forall>ev \<in> set ?evs. slash_key ev" using registry_event_ok(2) by auto
  moreover have "\<forall>i \<in> set [] \<union> set (puts unm ?evs). plain_ip i" using ips unfolding nodes by auto
  ultimately have "fold (event_nodes unm) ?evs [] = map rc_NodeInfo (old @ map snd (filter fst hist))"
    using fold_event_nodes_keep [of ?evs "[]" unm] nodes by simp
  moreover have "\<forall>ev \<in> set (inputs_events ins). readable unm ev"
  proof
    fix ev
    assume "ev \<in> set (inputs_events ins)"
    then obtain uc where uc: "uc \<in> set hist" "ev = registry_event msh uc" unfolding events by auto
    then show "readable unm ev" using json registry_event_ok(1) [of unm msh uc] by simp
  qed
  ultimately show ?thesis
    using ed_watchNode_run [OF watch(2,1), of ?kvs unm ins] json unfolding evs by (simp add: comp_def)
qed

definition demo_config :: RegEtcdConfig where
  "demo_config = \<lparr>rc_Host = [], rc_Root = ''root'', rc_Group = ''g'', rc_Service = ''s'', rc_NodeInfo = demo_node, rc_HeartBeat = 10,
     rc_Environ = ''test'', rc_TlsConfig = None\<rparr>"

theorem etcd_discovery_never_forgets_witness:
  "\<exists>e0 e'. ed_Watch None ''svc'' ''/root/g/s/test/pool'' demo_etcd = Inr (None, e0) \<and>
     ed_watchNode (\<lambda>_. Some demo_node) (Some []) [Events [EventTypePut (etcd_path demo_config) ''json''],
       Events [EventTypeDelete (etcd_path demo_config)]] ''svc'' e0 = (None, e') \<and>
     ed_GetNodeInfo ''svc'' e' = Inr [Some demo_node]"
proof -
  obtain e0 where w: "ed_Watch None ''svc'' ''/root/g/s/test/pool'' demo_etcd = Inr (None, e0)"
    by (simp add: ed_Watch_def demo_etcd_def)
  have r: "ed_running demo_etcd" by (simp add: demo_etcd_def)
  have n: "rc_NodeInfo demo_config = demo_node" "plain_ip demo_node"
    by (simp_all add: demo_config_def demo_node_def plain_ip_def HasPrefix_def)
  from etcd_discovery_never_forgets [of "[]" "[(True, demo_config), (False, demo_config)]" "\<lambda>_. Some demo_node" "\<lambda>_. ''json''", OF _ _ r w,
      of "[Events [EventTypePut (etcd_path demo_config) ''json''], Events [EventTypeDelete (etcd_path demo_config)]]"] w n
  show ?thesis by (simp add: registry_event_def)
qed

section \<open>The calls of a registration\<close>

lemma put_loop_calls:
  "\<exists>k. k \<le> n \<and> (0 < n \<longrightarrow> 0 < k) \<and>
    put_loop ans node data lease i n e =
      (if \<exists>j < n. ans (i + j) = None then e\<lparr>er_calls := er_calls e @ replicate k (Put node data lease), er_leaseID := lease\<rparr>
       else e\<lparr>er_calls := er_calls e @ replicate k (Put node data lease)\<rparr>) \<and>
    (\<forall>j < k - 1. ans (i + j) \<noteq> None) \<and> (k < n \<longrightarrow> 0 < k \<and> ans (i + k - 1) = None)"
proof (induction n arbitrary: i e)
  case (Suc n)
  show ?case
  proof (cases "ans i")
    case None
    then have "\<exists>j < Suc n. ans (i + j) = None" by (intro exI [of _ 0]) simp
    then show ?thesis using None by (intro exI [of _ 1]) (simp add: er_log_def Let_def)
  next
    case (Some err)
    have shift: "(\<exists>j < Suc n. ans (i + j) = None) \<longleftrightarrow> (\<exists>j < n. ans (Suc i + j) = None)"
      using Some by (auto simp: Ex_less_Suc2)
    from Suc.IH [of "Suc i" "er_log (Put node data lease) e"] obtain k where k: "k \<le> n" "0 < n \<longrightarrow> 0 < k"
      "put_loop ans node data lease (Suc i) n (er_log (Put node data lease) e) =
        (if \<exists>j < n. ans (Suc i + j) = None
         then (er_log (Put node data lease) e)\<lparr>er_calls := er_calls (er_log (Put node data lease) e) @ replicate k (Put node data lease), er_leaseID := lease\<rparr>
         else (er_log (Put node data lease) e)\<lparr>er_calls := er_calls (er_log (Put node data lease) e) @ replicate k (Put node data lease)\<rparr>)"
      "\<forall>j < k - 1. ans (Suc i + j) \<noteq> None" "k < n \<longrightarrow> 0 < k \<and> ans (Suc i + k - 1) = None" by blast
    have "ans (i + j) \<noteq> None" if "j < k" for j
      using that Some k(4) by (cases j) auto
    then show ?thesis
      using Some k unfolding shift by (intro exI [of _ "Suc k"]) (auto simp: er_log_def Let_def)
  qed
qed simp

text \<open>
  C2. A registration with etcd makes one lease, tries at most three times to put the node's data under its path with
  that lease, stops at the first success and keeps the lease alive; closing revokes the lease and closes the client.
  But \<open>Start\<close> reports success even when every try has failed, and then the lease that \<open>Close\<close> revokes is not the
  one that was granted.
\<close>

theorem etcd_registration_calls:
  assumes "\<not> er_started e" "er_EtcdConfig e = Some c" "\<not> er_closed e"
    and "ea_new A" "ea_grant A = Inr lease" "ea_keepAlive A = None"
  shows "\<exists>e1 e2 k. er_Start msh A tls ip load e = Inr (None, e1) \<and> er_Close A e1 = Inr e2 \<and> 1 \<le> k \<and> k \<le> 3 \<and>
    (\<forall>j < k - 1. ea_put A j \<noteq> None) \<and> (k < 3 \<longrightarrow> ea_put A (k - 1) = None) \<and>
    er_calls e2 = er_calls e @ Grant (rc_HeartBeat c) # replicate k (Put (etcd_path c) (msh (rc_NodeInfo c)) lease) @
      [KeepAlive lease, Revoke (if \<exists>j < 3. ea_put A j = None then lease else er_leaseID e), CloseClient] \<and>
    \<not> er_client e2 \<and> er_exitChan e2 = ChClosed \<and> er_Close A e2 = Inr e2"
proof -
  let ?put = "Put (etcd_path c) (msh (rc_NodeInfo c)) lease"
  let ?e0 = "er_log (Grant (rc_HeartBeat c)) (e\<lparr>er_started := True, er_EtcdConfig := Some c, er_exitChan := ChOpen, er_client := True\<rparr>)"
  let ?ok = "\<exists>j < 3. ea_put A j = None"
  obtain k where k: "k \<le> 3" "0 < k" "\<forall>j < k - 1. ea_put A j \<noteq> None" "k < 3 \<longrightarrow> ea_put A (k - 1) = None"
    "put_loop (ea_put A) (etcd_path c) (msh (rc_NodeInfo c)) lease 0 3 ?e0 =
      (if ?ok then ?e0\<lparr>er_calls := er_calls ?e0 @ replicate k ?put, er_leaseID := lease\<rparr>
       else ?e0\<lparr>er_calls := er_calls ?e0 @ replicate k ?put\<rparr>)"
    using put_loop_calls [of 3 "ea_put A" "etcd_path c" "msh (rc_NodeInfo c)" lease 0 ?e0] by auto
  define e1 where "e1 = er_log (KeepAlive lease) (put_loop (ea_put A) (etcd_path c) (msh (rc_NodeInfo c)) lease 0 3 ?e0)"
  have start: "er_Start msh A tls ip load e = Inr (None, e1)"
    using assms by (simp add: er_Start_def er_initWithEtcdConfig_def er_register_def e1_def DefaultRetryTimes_def Let_def)
  have e1: "\<not> er_closed e1" "er_exitChan e1 = ChOpen" "er_client e1" "er_leaseID e1 = (if ?ok then lease else er_leaseID e)"
      "er_calls e1 = er_calls e @ Grant (rc_HeartBeat c) # replicate k ?put @ [KeepAlive lease]"
    using assms(3) unfolding e1_def k(5) by (auto simp: er_log_def)
  define e2 where "e2 = (er_log CloseClient (er_log (Revoke (er_leaseID e1)) (e1\<lparr>er_closed := True, er_exitChan := ChClosed\<rparr>)))\<lparr>er_client := False\<rparr>"
  have "er_Close A e1 = Inr e2" "er_closed e2" using e1 by (simp_all add: er_Close_def er_revoke_def e2_def er_log_def Let_def)
  moreover have "er_calls e2 = er_calls e @ Grant (rc_HeartBeat c) # replicate k ?put @
      [KeepAlive lease, Revoke (if ?ok then lease else er_leaseID e), CloseClient]"
    "\<not> er_client e2" "er_exitChan e2 = ChClosed"
    using e1 by (simp_all add: e2_def er_log_def)
  moreover have "er_Close A e2 = Inr e2" using \<open>er_closed e2\<close> by (simp add: er_Close_def)
  ultimately show ?thesis using start k(1-4) by (intro exI [of _ e1] exI [of _ e2] exI [of _ k]) simp
qed

theorem etcd_registration_calls_witness:
  "\<exists>e1 e2. er_Start (\<lambda>_. ''json'') \<lparr>ea_new = True, ea_grant = Inr 7, ea_put = (\<lambda>_. Some ''unavailable''), ea_keepAlive = None, ea_revoke = None\<rparr>
      (\<lambda>_ _ _. Inl []) [] (\<lambda>_. Inl [])
      \<lparr>er_EtcdConfig = Some demo_config, er_EtcdConf = None, er_EtcdConfPath = [], er_client = False, er_leaseID = 0, er_exitChan = ChNil,
       er_started = False, er_closed = False, er_calls = []\<rparr> = Inr (None, e1) \<and>
     er_Close \<lparr>ea_new = True, ea_grant = Inr 7, ea_put = (\<lambda>_. Some ''unavailable''), ea_keepAlive = None, ea_revoke = None\<rparr> e1 = Inr e2 \<and>
     Revoke 0 \<in> set (er_calls e2)"
proof -
  let ?A = "\<lparr>ea_new = True, ea_grant = Inr 7, ea_put = (\<lambda>_. Some ''unavailable''), ea_keepAlive = None, ea_revoke = None\<rparr>"
  let ?e = "\<lparr>er_EtcdConfig = Some demo_config, er_EtcdConf = None, er_EtcdConfPath = [], er_client = False, er_leaseID = 0, er_exitChan = ChNil,
       er_started = False, er_closed = False, er_calls = []\<rparr>"
  from etcd_registration_calls [of ?e demo_config ?A 7 "\<lambda>_. ''json''" "\<lambda>_ _ _. Inl []" "[]" "\<lambda>_. Inl []"] obtain e1 e2 k where
    "er_Start (\<lambda>_. ''json'') ?A (\<lambda>_ _ _. Inl []) [] (\<lambda>_. Inl []) ?e = Inr (None, e1)" "er_Close ?A e1 = Inr e2"
    "er_calls e2 = [] @ Grant (rc_HeartBeat demo_config) # replicate k (Put (etcd_path demo_config) ''json'' 7) @ [KeepAlive 7, Revoke 0, CloseClient]"
    by auto
  then show ?thesis by auto
qed

end
