(* ===== verification/Spec2Isabelle.thy ===== *)
theory Spec2Isabelle
  imports DHttpSend DHttpServer DlogConfig Helper DgrpcPeer Mongo OrderedMap RpcServer RpcClient RedisCluster RedisPool Gl MysqlClient Stat Gr Inject Register
begin

text \<open>
  Verification of the gd service framework (Go).

  \<^bold>\<open>The program.\<close>  gd is a library for services.  An application registers its servers and clients in a
  graph of dependencies (\<open>runtime/inject\<close>), which creates, fills, starts and closes them.  Servers and
  clients speak one of three protocols: the framework's own packets over TCP (\<open>net/dogrpc\<close>), http
  (\<open>net/dhttp\<close>) and gRPC (\<open>net/dgrpc\<close>).  Requests carry their data through goroutine-local storage
  (\<open>runtime/gl\<close>), are counted (\<open>runtime/pc\<close>, \<open>runtime/stat\<close>) and logged (\<open>dlog\<close>, \<open>log.go\<close>).  Around
  them stand clients of databases (\<open>databases\<close>), registration and discovery of services (\<open>service\<close>), pools
  of goroutines (\<open>runtime/gr\<close>), an operations console (\<open>runtime/helper\<close>) and utilities (\<open>utls\<close>).

  \<^bold>\<open>The theories\<close>, in the order of their dependency, each with the files under \<open>src\<close> it models:
  \<^item> \<open>Prelude\<close>: the machine types of Go, panics as values (\<open>'a go\<close>, \<open>go_bind\<close>), strings, association lists
    for Go maps, the parts of the standard library several packages use, and the lemmas on them; \<open>Utls\<close>:
    \<open>utls/utls.go\<close>, \<open>slice_util.go\<close>, \<open>convert_util.go\<close>, \<open>time.go\<close>, \<open>network/network.go\<close>; \<open>OrderedMap\<close>:
    \<open>utls/orderedmap\<close>, a linked list on a heap of nodes beside two maps.
  \<^item> \<open>Encoding\<close> (\<open>net/dogrpc/encoding.go\<close>): both packet formats byte by byte; \<open>Derror\<close> (\<open>derror/error.go\<close>,
    \<open>net/dogrpc/common.go\<close>): error objects on a heap; \<open>RpcServer\<close> (\<open>server.go\<close>, \<open>rpc_server.go\<close>, \<open>dog_server.go\<close>,
    \<open>filter.go\<close>, \<open>wrap.go\<close>): filters, dispatch, and the goroutines of a connection as the relation \<open>sconn_step\<close>;
    \<open>RpcClient\<close> (\<open>client.go\<close>, \<open>rpc_client.go\<close>, \<open>dog_client.go\<close>): queue, pool of results, writers, readers and callers
    as the relation \<open>client_step\<close>.  This theory joins the two ends.
  \<^item> \<open>Gl\<close> (\<open>runtime/gl\<close>), \<open>Gr\<close> (\<open>runtime/gr\<close>, relation \<open>fp_step\<close>), \<open>Pc\<close> (\<open>runtime/pc\<close>), \<open>Stat\<close> (\<open>runtime/stat\<close>), \<open>Inject\<close>
    (\<open>runtime/inject\<close>, on top of \<open>OrderedMap\<close>), \<open>HelperStats\<close> and \<open>Helper\<close> (\<open>runtime/helper\<close>).
  \<^item> \<open>DlogFormat\<close> (\<open>dlog/pattlog.go\<close>), \<open>DlogFile\<close> (\<open>dlog/filelog.go\<close>, over a file system whose calls may fail),
    \<open>Dlog\<close> (\<open>dlog/log4go.go\<close>, \<open>termlog.go\<close>, \<open>socklog.go\<close>), \<open>DlogWrapper\<close> (\<open>dlog/wrapper.go\<close>, \<open>log.go\<close>), \<open>DlogConfig\<close>
    (\<open>dlog/config.go\<close>, \<open>log.go\<close>).  \<open>Process\<close> puts storage, counters and logger into one state with computations that
    panic and defer.
  \<^item> \<open>DHttp\<close> and \<open>DHttpSend\<close> (\<open>net/dhttp/client.go\<close>), \<open>DHttpServer\<close> (\<open>server.go\<close>, \<open>wrap.go\<close>, \<open>filter.go\<close>), \<open>Dgrpc\<close> and
    \<open>DgrpcPeer\<close> (\<open>net/dgrpc\<close>).
  \<^item> \<open>MysqlSql\<close>, \<open>MysqlStmt\<close> and \<open>MysqlClient\<close> (\<open>databases/mysqldb\<close>), \<open>RedisPool\<close> and \<open>RedisCluster\<close>
    (\<open>databases/redisdb\<close>), \<open>Mongo\<close> (\<open>databases/mongodb\<close>).
  \<^item> \<open>Discovery\<close> and \<open>Register\<close> (\<open>service\<close>).

  \<^bold>\<open>State and operations.\<close>  A struct of the code is a record with the fields of the struct, prefixed; an
  operation is a definition of the code's name (with a prefix where two packages share it) from the state
  to a result and a new state.  A panic is the left value of \<open>'a go\<close>; the logger has the outcomes return,
  panic, block and exit.  Objects that the code shares by pointers (nodes, results, errors, filters, counters, maps of
  goroutines, writers, clients of http) live on heaps, so aliasing is that of the code.  Goroutines that run
  side by side are step relations or sequences of events over all interleavings.  Words have Go's width where
  wrap-around matters (sequence numbers, retry counters, lengths, hashes, counters, the number of collections).

  \<^bold>\<open>Arguments.\<close>  Third-party packages, servers, clocks, random choices, the order of map iteration and what
  reflection says of types are arguments of the definitions.  What a property relies on is a named hypothesis:
  \<open>cmap_laws\<close> (the concurrent map of counters), \<open>lib_laws\<close> (order of interceptors, recovery), \<open>reads_literals\<close> (how a
  MySQL server reads a literal); each has an instance in the witness of its property.

  \<^bold>\<open>Interfaces\<close> are locales, interpreted on the definitions of the model:
  \<^item> \<open>ordered_map\<close>: an insertion-ordered map; interpreted by \<open>om\<close> on the linked structure, and used by \<open>Inject\<close>;
  \<^item> \<open>packet_codec\<close> and its extension \<open>packet_transport\<close>: decoding inverts encoding, and a sequence written through
    a failing buffered connection is read as a prefix; interpreted by \<open>rpc\<close> and \<open>dog\<close>;
  \<^item> \<open>map_store\<close>: get, set and remove of a map behind an invariant; interpreted by \<open>shards\<close> on the sharded map, and
    the refinement of goroutine-local storage rests on it;
  \<^item> \<open>node_store\<close>: the tables of nodes; interpreted by \<open>etcd\<close> and \<open>zk\<close>;
  \<^item> \<open>log_sink\<close>: a writer takes a record behind those it has; interpreted on the file, console, format and socket
    writers;
  \<^item> \<open>builder_calls\<close>: calls on two requests commute; interpreted by \<open>hc\<close> on the calls of the http client.

  \<^bold>\<open>What is shown.\<close>
  \<^item> Protocol: exact characterisation of both decoders and sessions over failing connections (C3-C5); matching,
    bounds and absence of crashes for a connection of the server (C8, C9), replies (C12); no panic, matching and retries
    for the client (C16-C18); and a remote call as a call of the handler (C40).
  \<^item> Run-time: private storage (C30), counters and statistics (C6, C38), pools (C39), injection and closing
    (C7, C28, C29), console and figures (C10, C27).
  \<^item> Log: lines, rotation, routing and delivery (C15, C26, C34, C37).
  \<^item> http and gRPC: requests served, types of handlers, clones and retries (C13, C19-C22).
  \<^item> Databases: statements and escaping (C31-C33), attempts and transactions (C35, C36), redis and mongo (C23, C25).
  \<^item> Services and containers: the ordered map (C1), registration and discovery (C2, C11, C14, C24).

  \<^bold>\<open>Bounds.\<close>  Loops are total functions, with a measure where recursion is not structural.  \<open>register\<close> has the depth of
  the stack as a bound, and C7 says which depth is enough; a chain of filters has a depth, and the length of
  the chain is enough.  The retry loop of \<open>CallTimeout\<close> has fuel, because the code may loop for ever; C18 says that
  \<open>retryNum + 1\<close> is enough and when none is.  The search for a free name of a log file tries 1000 names, as the code
  does; a log channel holds 50480 records (\<open>LogBufferLength\<close>); the figures rest on the 256 pauses the run-time keeps; a pool of goroutines takes at most
  five steps per function and two to close.

  \<^bold>\<open>Not modelled:\<close>  the engine that puts the parts together (\<open>godog.go\<close>, \<open>signal.go\<close>, \<open>config.go\<close>, \<open>config\<close>), dialling,
  listening and TLS (\<open>transport.go\<close>), accept loops and flush timers, the keep-alive goroutine of etcd, scanning of
  result rows and rewriting of queries for \<open>dm\<close>, conversion of redis replies, printing of reports, system calls and
  file helpers of \<open>utls\<close>, samples and generated code.  They are input and output, or calls of packages outside the
  repository, or set-up without state of its own.
\<close>

section \<open>A remote call\<close>

text \<open>
  The client's part of a call: it is queued with a fresh result, the writer of connection \<open>c\<close> sends it, the
  reader gets the reply, and the caller takes it.
\<close>

lemma client_exchange:
  assumes "cs_queue s = []" and "0 < cap" and "length (pending_of c s) \<le> 3 * cap" and "Packet_ID rsp = Packet_ID req"
  shows "\<exists>s1 s2 s3. client_do cap eh (ACall req None) s = Inr s1 \<and> client_do cap eh (AWrite c order None) s1 = Inr s2 \<and>
    cs_sent s2 = cs_sent s @ [(c, req)] \<and> client_do cap eh (ARead c rsp) s2 = Inr s3 \<and>
    client_enabled (ACollect (cs_next s)) s3 \<and> fst (call_done (cs_next s) eh s3) = (Some rsp, None)"
  using assms
  by (auto simp: client_do_def callAsync_def acquireAsyncResult_def newAsyncResult_def zeroAsyncResult_def Let_def
      clientWriter_next_def writer_take_def pending_of_def clientReader_packet_def map_of_al_set finish_def ar_upd_def
      client_enabled_def call_done_def)

text \<open>
  C40. A remote call is a call of the handler.  For both protocols, with an idle queue at the client, the filters of the
  package registered once, a registered handler that returns, and request and reply bodies that are not nil
  and fit into a packet (a nil body of the dog protocol cannot be decoded): the request that \<open>Invoke\<close> or
  \<open>DogInvoke\<close> builds is sent on the connection, decoded by the server from its bytes, dispatched through the filters
  to the handler registered for the command, and the reply, decoded by the client from its bytes, gives the caller
  the code and the body that the handler returned.  The stream may hold further bytes after each packet.
\<close>

theorem remote_call_is_handler_call:
  assumes client: "cs_queue s = []" "0 < cap" "length (pending_of c s) \<le> 3 * cap"
    and server: "package_chain fl flt" "length fl \<le> depth" "nil_map (rs_defaultHandler srv) cmd = Some f"
    and handler: "f (Some req) = Inr (code, Some body)" "length req + 24 < 2 ^ 32" "length body + 24 < 2 ^ 32"
  shows "(\<exists>p rsp s1 s2 s3. fst (Invoke_request cmd (Some req) seq) = PRpc p \<and>
      client_do cap eh (ACall (PRpc p) None) s = Inr s1 \<and> client_do cap eh (AWrite c order None) s1 = Inr s2 \<and>
      cs_sent s2 = cs_sent s @ [(c, PRpc p)] \<and>
      RpcPacketDecoder_Decode (rpc_bytes p @ r1) = (Inr p, r1) \<and>
      callHandlerWithRecover (\<lambda>q. fst (dispatchPacket depth cost (Use fl flt) srv addr q)) (PRpc p) = Inr (PRpc rsp) \<and>
      RpcPacketDecoder_Decode (rpc_bytes rsp @ r2) = (Inr rsp, r2) \<and>
      client_do cap eh (ARead c (PRpc rsp)) s2 = Inr s3 \<and> client_enabled (ACollect (cs_next s)) s3 \<and>
      Invoke_result (fst (call_done (cs_next s) eh s3)) = Inr (code, Some body, None)) \<and>
    (\<exists>p rsp s1 s2 s3. fst (DogInvoke_request cmd (Some req) seq) = PDog p \<and>
      client_do cap eh (ACall (PDog p) None) s = Inr s1 \<and> client_do cap eh (AWrite c order None) s1 = Inr s2 \<and>
      cs_sent s2 = cs_sent s @ [(c, PDog p)] \<and>
      DogPacketDecoder_Decode (dog_bytes p @ r1) = (Inr p, r1) \<and>
      callHandlerWithRecover (\<lambda>q. fst (dogDispatchPacket depth cost (Use fl flt) srv addr q)) (PDog p) = Inr (PDog rsp) \<and>
      DogPacketDecoder_Decode (dog_bytes rsp @ r2) = (Inr rsp, r2) \<and>
      client_do cap eh (ARead c (PDog rsp)) s2 = Inr s3 \<and> client_enabled (ACollect (cs_next s)) s3 \<and>
      DogInvoke_result (fst (call_done (cs_next s) eh s3)) = Inr (code, Some body, None))" (is "?rpc \<and> ?dog")
proof
  have h: "handlerWithRecover f (Some req) = (code, Some body)" using handler(1) by (simp add: handlerWithRecover_def)
  note exchange = client_exchange [OF client, where eh = eh and order = order]
  show ?rpc
  proof -
    let ?p = "NewRpcPacketWithRet cmd (Some req) (seq + 1) 0" and ?rsp = "NewRpcPacketWithRet cmd (Some body) (seq + 1) code"
    have "fst (Invoke_request cmd (Some req) seq) = PRpc ?p"
      by (simp add: Invoke_request_def NewRpcPacket_def nextSeq_def NewRpcPacketWithSeq_def)
    moreover have "callHandlerWithRecover (\<lambda>q. fst (dispatchPacket depth cost (Use fl flt) srv addr q)) (PRpc ?p) = Inr (PRpc ?rsp)"
      using h server(3) by (simp add: callHandlerWithRecover_def dispatchPacket_package [OF server(1,2)] NewRpcPacketWithRet_def)
    moreover have "RpcPacketDecoder_Decode (rpc_bytes ?p @ r1) = (Inr ?p, r1)" "RpcPacketDecoder_Decode (rpc_bytes ?rsp @ r2) = (Inr ?rsp, r2)"
      using handler(2,3) by (simp_all add: rpc_decode_encode rpc_new_good)
    moreover have "Invoke_result (Some (PRpc ?rsp), None) = Inr (code, Some body, None)"
      by (simp add: Invoke_result_def NewRpcPacketWithRet_def)
    moreover have "Packet_ID (PRpc ?rsp) = Packet_ID (PRpc ?p)" by (simp add: NewRpcPacketWithRet_def)
    ultimately show ?thesis using exchange [of "PRpc ?rsp" "PRpc ?p"] by metis
  qed
  show ?dog
  proof -
    let ?p = "NewDogPacketWithRet cmd (Some req) (seq + 1) 0" and ?rsp = "NewDogPacketWithRet cmd (Some body) (seq + 1) code"
    have "fst (DogInvoke_request cmd (Some req) seq) = PDog ?p"
      by (simp add: DogInvoke_request_def NewDogPacket_def nextDogSeq_def NewDogPacketWithSeq_def)
    moreover have "callHandlerWithRecover (\<lambda>q. fst (dogDispatchPacket depth cost (Use fl flt) srv addr q)) (PDog ?p) = Inr (PDog ?rsp)"
      using h server(3) by (simp add: callHandlerWithRecover_def dogDispatchPacket_package [OF server(1,2)] NewDogPacketWithRet_def Let_def)
    moreover have "DogPacketDecoder_Decode (dog_bytes ?p @ r1) = (Inr ?p, r1)" "DogPacketDecoder_Decode (dog_bytes ?rsp @ r2) = (Inr ?rsp, r2)"
      using handler(2,3) by (simp_all add: dog_decode_encode dog_new_good)
    moreover have "DogInvoke_result (Some (PDog ?rsp), None) = Inr (code, Some body, None)"
      by (simp add: DogInvoke_result_def NewDogPacketWithRet_def Let_def)
    moreover have "Packet_ID (PDog ?rsp) = Packet_ID (PDog ?p)" by (simp add: NewDogPacketWithRet_def Let_def)
    ultimately show ?thesis using exchange [of "PDog ?rsp" "PDog ?p"] by metis
  qed
qed

theorem remote_call_is_handler_call_witness:
  "\<exists>p rsp s1 s2 s3. fst (Invoke_request 5 (Some [1, 2]) 8) = PRpc p \<and>
      client_do 1 init_errors (ACall (PRpc p) None) cs_init = Inr s1 \<and> client_do 1 init_errors (AWrite 0 [] None) s1 = Inr s2 \<and>
      RpcPacketDecoder_Decode (rpc_bytes p @ []) = (Inr p, []) \<and>
      callHandlerWithRecover (\<lambda>q. fst (dispatchPacket 0 (\<lambda>_. 0)
        (Use [] \<lparr>fl_heap = (\<lambda>_. \<lparr>fo_kind = GlFilter, fo_next = None\<rparr>), fl_Filters = []\<rparr>)
        (AddHandler 5 (\<lambda>b. Inr (7, b)) (NewRpcServer :: nat RpcServer)) [] q)) (PRpc p) = Inr (PRpc rsp) \<and>
      client_do 1 init_errors (ARead 0 (PRpc rsp)) s2 = Inr s3 \<and>
      Invoke_result (fst (call_done 0 init_errors s3)) = Inr (7, Some [1, 2], None)"
proof -
  note call = remote_call_is_handler_call [of cs_init 1 0 "[]" "\<lparr>fl_heap = (\<lambda>_. \<lparr>fo_kind = GlFilter, fo_next = None\<rparr>), fl_Filters = []\<rparr>" 0
      "AddHandler 5 (\<lambda>b. Inr (7, b)) (NewRpcServer :: nat RpcServer)" 5 "\<lambda>b. Inr (7, b)" "[1, 2]" 7 "[1, 2]" 8 init_errors "[]"
      "[]" "\<lambda>_. 0" "[]" "[]", THEN conjunct1]
  have init: "cs_queue cs_init = []" "cs_next cs_init = 0" "length (pending_of 0 cs_init) \<le> 3 * 1" by (simp_all add: cs_init_def pending_of_def)
  have handler: "nil_map (rs_defaultHandler (AddHandler 5 (\<lambda>b. Inr (7, b)) (NewRpcServer :: nat RpcServer))) 5 = Some (\<lambda>b. Inr (7, b))"
    by (simp add: AddHandler_def NewRpcServer_def nil_map_def)
  show ?thesis
    using call [OF init(1) _ init(3) _ _ handler, unfolded init(2)] by (fastforce simp: package_chain_def)
qed

end
